(* ===== verification/Prelude.thy ===== *)
theory Prelude
  imports Main "HOL-Library.List_Lexorder" "HOL-Library.Product_Lexorder"
begin

text \<open>
  Shared vocabulary of the development: results and the question-mark operator of Rust, host
  errors, Rust strings as lists of Unicode scalar values with the standard library operations
  the sources use, the range of the integers SQLite stores, and the statements of SQL over
  tables kept as lists of rows in rowid order.
\<close>

named_theorems result_simps \<open>inversion of successful fallible computations\<close>
named_theorems table_simps \<open>reading a table after a statement has changed it\<close>

section \<open>Results\<close>

text \<open>
  A Rust \<open>Result\<close> is a sum with the error on the left. \<open>and_then r f\<close> is
  \<open>f(r?)\<close>: the error of \<open>r\<close> is returned as it is, otherwise the computation goes on.
\<close>

definition and_then :: "'e + 'a \<Rightarrow> ('a \<Rightarrow> 'e + 'b) \<Rightarrow> 'e + 'b" where
  "and_then r f = (case r of Inl e \<Rightarrow> Inl e | Inr a \<Rightarrow> f a)"

definition bail_if :: "bool \<Rightarrow> 'e \<Rightarrow> 'e + unit" where
  "bail_if b e = (if b then Inl e else Inr ())"

definition ok_or :: "'a option \<Rightarrow> 'e \<Rightarrow> 'e + 'a" where
  "ok_or x e = (case x of None \<Rightarrow> Inl e | Some a \<Rightarrow> Inr a)"

definition map_err :: "('e \<Rightarrow> 'f) \<Rightarrow> 'e + 'a \<Rightarrow> 'f + 'a" where
  "map_err f r = (case r of Inl e \<Rightarrow> Inl (f e) | Inr a \<Rightarrow> Inr a)"

definition is_ok :: "'e + 'a \<Rightarrow> bool" where
  "is_ok r = (case r of Inl _ \<Rightarrow> False | Inr _ \<Rightarrow> True)"

text \<open>\<open>collect::<Result<Vec<_>>>()\<close>: all elements, or the first error.\<close>

fun collect_results :: "('e + 'a) list \<Rightarrow> 'e + 'a list" where
  "collect_results [] = Inr []"
| "collect_results (r # rs) =
     and_then r (\<lambda>a. and_then (collect_results rs) (\<lambda>as. Inr (a # as)))"

lemma and_then_simps [simp]:
  "and_then (Inl e) f = Inl e"
  "and_then (Inr a) f = f a"
  by (simp_all add: and_then_def)

lemma and_then_eq_Inr [result_simps]:
  "and_then r f = Inr b \<longleftrightarrow> (\<exists>a. r = Inr a \<and> f a = Inr b)"
  by (cases r) simp_all

lemma and_then_eq_Inl:
  "and_then r f = Inl e \<longleftrightarrow> r = Inl e \<or> (\<exists>a. r = Inr a \<and> f a = Inl e)"
  by (cases r) simp_all

lemma bail_if_simps [simp]:
  "bail_if True e = Inl e"
  "bail_if False e = Inr ()"
  by (simp_all add: bail_if_def)

lemma bail_if_eq_Inr [result_simps]: "bail_if b e = Inr u \<longleftrightarrow> \<not> b"
  by (simp add: bail_if_def)

lemma bail_if_eq_Inl: "bail_if b e = Inl e' \<longleftrightarrow> b \<and> e = e'"
  by (auto simp: bail_if_def)

lemma ok_or_simps [simp]:
  "ok_or None e = Inl e"
  "ok_or (Some a) e = Inr a"
  by (simp_all add: ok_or_def)

lemma ok_or_eq_Inr [result_simps]: "ok_or x e = Inr a \<longleftrightarrow> x = Some a"
  by (cases x) simp_all

lemma map_err_simps [simp]:
  "map_err f (Inl e) = Inl (f e)"
  "map_err f (Inr a) = Inr a"
  by (simp_all add: map_err_def)

lemma map_err_eq_Inr [result_simps]: "map_err f r = Inr a \<longleftrightarrow> r = Inr a"
  by (cases r) simp_all

lemma is_ok_simps [simp]:
  "is_ok (Inl e) = False"
  "is_ok (Inr a) = True"
  by (simp_all add: is_ok_def)

lemma collect_results_map_Inr [simp]: "collect_results (map (\<lambda>x. Inr (f x)) xs) = Inr (map f xs)"
  by (induction xs) simp_all

lemma collect_results_eq_Inr:
  "collect_results rs = Inr xs \<longleftrightarrow> rs = map Inr xs"
proof (induction rs arbitrary: xs)
  case Nil
  then show ?case by auto
next
  case (Cons r rs)
  then show ?case by (cases xs) (auto simp: and_then_eq_Inr)
qed

section \<open>Host errors\<close>

text \<open>
  The control plane reports errors through \<open>anyhow\<close>: a message (\<open>bail!\<close>), a message
  with values in it (\<open>Bailf\<close>, the template and its arguments), an error of the SQLite layer,
  of the vault or of another crate (\<open>Foreign\<close>, by the name of the crate),
  or one of these with a context put around it (\<open>.context(..)\<close>).
\<close>

type_synonym rstr = "nat list"

datatype sql_error =
    ConstraintUnique string
  | ConstraintCheck string
  | ConstraintForeignKey
  | ToSqlConversion
  | FromSqlConversion nat
  | QueryReturnedNoRows
  | SnapshotHashMismatch

datatype vault_error =
    InvalidSecret
  | InvalidHandle
  | VaultNotFound
  | UnsupportedPlatform
  | VaultUnavailable

datatype host_error =
    Bail string
  | Bailf string "rstr list"
  | Sql sql_error
  | Vault vault_error
  | Foreign string
  | Context string host_error

abbreviation with_context :: "string \<Rightarrow> host_error + 'a \<Rightarrow> host_error + 'a" where
  "with_context c r \<equiv> map_err (Context c) r"

section \<open>Rust strings\<close>

text \<open>
  A \<open>String\<close> is the list of its Unicode scalar values, so that \<open>chars().count()\<close> is the
  length and \<open>len()\<close> counts the bytes of the UTF-8 encoding. \<open>lit\<close> turns an ASCII
  literal of the source into such a string.
\<close>

definition lit :: "string \<Rightarrow> rstr" where
  "lit s = map of_char s"

lemma of_char_eq_iff_nat: "(of_char c :: nat) = of_char d \<longleftrightarrow> c = d"
  by (simp add: of_char_eq_iff)

lemma lit_eq_iff [simp]: "lit s = lit t \<longleftrightarrow> s = t"
  unfolding lit_def by (rule inj_map_eq_map) (simp add: inj_def)

lemma lit_Nil [simp]: "lit [] = []" "lit s = [] \<longleftrightarrow> s = []" "[] = lit s \<longleftrightarrow> s = []"
  by (auto simp: lit_def)

lemma length_lit [simp]: "length (lit s) = length s"
  by (simp add: lit_def)

definition utf8_encode :: "nat \<Rightarrow> nat list" where
  "utf8_encode c =
    (if c < 0x80 then [c]
     else if c < 0x800 then [0xC0 + c div 64, 0x80 + c mod 64]
     else if c < 0x10000 then [0xE0 + c div 4096, 0x80 + c div 64 mod 64, 0x80 + c mod 64]
     else [0xF0 + c div 262144, 0x80 + c div 4096 mod 64, 0x80 + c div 64 mod 64, 0x80 + c mod 64])"

definition str_bytes :: "rstr \<Rightarrow> nat list" where
  "str_bytes s = concat (map utf8_encode s)"

definition str_len :: "rstr \<Rightarrow> nat" where
  "str_len s = length (str_bytes s)"

definition is_whitespace :: "nat \<Rightarrow> bool" where
  "is_whitespace c \<longleftrightarrow> 9 \<le> c \<and> c \<le> 13 \<or> c = 32 \<or> c = 0x85 \<or> c = 0xA0 \<or> c = 0x1680
     \<or> 0x2000 \<le> c \<and> c \<le> 0x200A \<or> c = 0x2028 \<or> c = 0x2029 \<or> c = 0x202F \<or> c = 0x205F \<or> c = 0x3000"

definition is_control :: "nat \<Rightarrow> bool" where
  "is_control c \<longleftrightarrow> c < 32 \<or> 127 \<le> c \<and> c \<le> 159"

definition is_ascii_digit :: "nat \<Rightarrow> bool" where
  "is_ascii_digit c \<longleftrightarrow> 48 \<le> c \<and> c \<le> 57"

definition is_ascii_lowercase :: "nat \<Rightarrow> bool" where
  "is_ascii_lowercase c \<longleftrightarrow> 97 \<le> c \<and> c \<le> 122"

definition is_ascii_alphanumeric :: "nat \<Rightarrow> bool" where
  "is_ascii_alphanumeric c \<longleftrightarrow> is_ascii_digit c \<or> is_ascii_lowercase c \<or> 65 \<le> c \<and> c \<le> 90"

definition to_ascii_lowercase :: "rstr \<Rightarrow> rstr" where
  "to_ascii_lowercase s = map (\<lambda>c. if 65 \<le> c \<and> c \<le> 90 then c + 32 else c) s"

definition trim_start :: "rstr \<Rightarrow> rstr" where
  "trim_start s = dropWhile is_whitespace s"

definition trim_end :: "rstr \<Rightarrow> rstr" where
  "trim_end s = rev (dropWhile is_whitespace (rev s))"

definition trim :: "rstr \<Rightarrow> rstr" where
  "trim s = trim_end (trim_start s)"

definition trim_end_matches :: "nat \<Rightarrow> rstr \<Rightarrow> rstr" where
  "trim_end_matches c s = rev (dropWhile (\<lambda>x. x = c) (rev s))"

definition starts_with :: "rstr \<Rightarrow> rstr \<Rightarrow> bool" where
  "starts_with s p \<longleftrightarrow> take (length p) s = p"

definition ends_with :: "rstr \<Rightarrow> rstr \<Rightarrow> bool" where
  "ends_with s p \<longleftrightarrow> starts_with (rev s) (rev p)"

text \<open>\<open>from_str\<close> of the unsigned integers: an optional plus sign and decimal digits, below the limit.\<close>

fun parse_digits :: "nat \<Rightarrow> rstr \<Rightarrow> nat option" where
  "parse_digits acc [] = Some acc"
| "parse_digits acc (c # s) =
     (if is_ascii_digit c then parse_digits (acc * 10 + (c - 48)) s else None)"

definition parse_unsigned :: "nat \<Rightarrow> rstr \<Rightarrow> nat option" where
  "parse_unsigned limit s =
    (let digits = (case s of c # r \<Rightarrow> if c = 43 then r else s | [] \<Rightarrow> []) in
     if digits = [] then None
     else case parse_digits 0 digits of
       None \<Rightarrow> None | Some n \<Rightarrow> if n < limit then Some n else None)"

definition strip_prefix :: "rstr \<Rightarrow> rstr \<Rightarrow> rstr option" where
  "strip_prefix s p = (if starts_with s p then Some (drop (length p) s) else None)"

fun str_contains :: "rstr \<Rightarrow> rstr \<Rightarrow> bool" where
  "str_contains [] p \<longleftrightarrow> p = []"
| "str_contains (c # s) p \<longleftrightarrow> starts_with (c # s) p \<or> str_contains s p"

text \<open>\<open>split(c)\<close> on one character: always at least one piece.\<close>

fun str_split :: "nat \<Rightarrow> rstr \<Rightarrow> rstr list" where
  "str_split d [] = [[]]"
| "str_split d (c # s) =
     (if c = d then [] # str_split d s
      else (case str_split d s of [] \<Rightarrow> [[c]] | p # ps \<Rightarrow> (c # p) # ps))"

text \<open>\<open>split_whitespace\<close>: the maximal runs of other characters.\<close>

fun split_whitespace_from :: "rstr \<Rightarrow> rstr \<Rightarrow> rstr list" where
  "split_whitespace_from token [] = (if token = [] then [] else [rev token])"
| "split_whitespace_from token (c # s) =
     (if is_whitespace c then
        (if token = [] then split_whitespace_from [] s else rev token # split_whitespace_from [] s)
      else split_whitespace_from (c # token) s)"

definition split_whitespace :: "rstr \<Rightarrow> rstr list" where
  "split_whitespace s = split_whitespace_from [] s"

fun str_join :: "rstr \<Rightarrow> rstr list \<Rightarrow> rstr" where
  "str_join sep [] = []"
| "str_join sep [p] = p"
| "str_join sep (p # q # ps) = p @ sep @ str_join sep (q # ps)"

lemma starts_with_append [simp]: "starts_with (p @ s) p"
  by (simp add: starts_with_def)

lemma starts_with_refl [simp]: "starts_with p p"
  by (simp add: starts_with_def)

lemma strip_prefix_append [simp]: "strip_prefix (p @ s) p = Some s"
  by (simp add: strip_prefix_def)

lemma str_split_nonempty [simp]: "str_split d s \<noteq> []"
  by (induction d s rule: str_split.induct) (auto split: list.splits)

text \<open>\<open>Display\<close> of an unsigned integer.\<close>

fun nat_to_str :: "nat \<Rightarrow> rstr" where
  "nat_to_str n = (if n < 10 then [48 + n] else nat_to_str (n div 10) @ [48 + n mod 10])"

declare nat_to_str.simps [simp del]

lemma str_split_no_sep: "d \<notin> set l \<Longrightarrow> str_split d l = [l]"
  by (induction l) auto

lemma str_split_append_sep: "d \<notin> set l \<Longrightarrow> str_split d (l @ d # s) = l # str_split d s"
  by (induction l) auto

lemma str_split_join:
  "ls \<noteq> [] \<Longrightarrow> \<forall>l \<in> set ls. d \<notin> set l \<Longrightarrow> str_split d (str_join [d] ls) = ls"
proof (induction "[d]" ls rule: str_join.induct)
  case (3 p q ps)
  then show ?case by (simp add: str_split_append_sep)
qed (auto simp: str_split_no_sep)

definition int_to_str :: "int \<Rightarrow> rstr" where
  "int_to_str i = (if i < 0 then 45 # nat_to_str (nat (- i)) else nat_to_str (nat i))"

section \<open>Texts that can be taken apart again\<close>

lemma nat_to_str_nonempty [simp]: "nat_to_str n \<noteq> []" "[] \<noteq> nat_to_str n"
  by (simp_all add: nat_to_str.simps [of n])

lemma nat_to_str_digits: "c \<in> set (nat_to_str n) \<Longrightarrow> 48 \<le> c \<and> c \<le> 57"
proof (induction n rule: nat_to_str.induct)
  case (1 n)
  then show ?case by (cases "n < 10") (auto simp: nat_to_str.simps [of n])
qed

lemma nat_to_str_inject [simp]: "nat_to_str m = nat_to_str n \<longleftrightarrow> m = n"
proof
  show "nat_to_str m = nat_to_str n \<Longrightarrow> m = n"
  proof (induction m arbitrary: n rule: nat_to_str.induct)
    case (1 m)
    show ?case
    proof (cases "m < 10")
      case True
      then show ?thesis using 1(2) by (cases "n < 10") (auto simp: nat_to_str.simps [of m] nat_to_str.simps [of n])
    next
      case False
      then have n: "\<not> n < 10" using 1(2) by (auto simp: nat_to_str.simps [of m] nat_to_str.simps [of n])
      then have "nat_to_str (m div 10) = nat_to_str (n div 10)" "m mod 10 = n mod 10"
        using 1(2) False by (auto simp: nat_to_str.simps [of m] nat_to_str.simps [of n])
      with 1(1) [OF False] show ?thesis by (metis div_mult_mod_eq)
    qed
  qed
qed simp

text \<open>Lines, each ended by a line feed.\<close>

definition text_lines :: "rstr list \<Rightarrow> rstr" where
  "text_lines ls = concat (map (\<lambda>l. l @ [10]) ls)"

lemma text_lines_simps [simp]:
  "text_lines [] = []" "text_lines (l # ls) = l @ 10 # text_lines ls"
  by (simp_all add: text_lines_def)

lemma separated_inject:
  "d \<notin> set a \<Longrightarrow> d \<notin> set b \<Longrightarrow> a @ d # x = b @ d # y \<longleftrightarrow> a = b \<and> x = y"
  by (induction a arbitrary: b; case_tac b) auto

lemma text_lines_inject:
  "\<forall>l \<in> set ls. 10 \<notin> set l \<Longrightarrow> \<forall>l \<in> set ls'. 10 \<notin> set l \<Longrightarrow> text_lines ls = text_lines ls' \<Longrightarrow> ls = ls'"
proof (induction ls arbitrary: ls')
  case Nil
  then show ?case by (cases ls') auto
next
  case (Cons l ls)
  then obtain l' t where ls': "ls' = l' # t" by (cases ls') auto
  have e: "l @ 10 # text_lines ls = l' @ 10 # text_lines t" and n: "10 \<notin> set l" "10 \<notin> set l'"
    using Cons.prems by (simp_all add: ls')
  from e have "l = l' \<and> text_lines ls = text_lines t" by (simp only: separated_inject [OF n])
  then have "l = l'" "text_lines ls = text_lines t" by (rule conjunct1, rule conjunct2)
  moreover have "ls = t"
    by (rule Cons.IH) (use Cons.prems(1,2) \<open>text_lines ls = text_lines t\<close> in \<open>simp_all add: ls'\<close>)
  ultimately show ?case by (simp add: ls')
qed

lemma str_join_inject:
  assumes "str_join [d] ps = str_join [d] qs" "ps \<noteq> []" "qs \<noteq> []"
    "\<forall>p \<in> set ps. d \<notin> set p" "\<forall>q \<in> set qs. d \<notin> set q"
  shows "ps = qs"
  using str_split_join [OF assms(2,4)] str_split_join [OF assms(3,5)] assms(1) by metis

lemma set_str_join: "set (str_join sep ps) \<subseteq> set sep \<union> \<Union> (set (map set ps))"
  by (induction sep ps rule: str_join.induct) auto

lemma trim_trim: "trim (trim s) = trim s"
proof -
  have d: "dropWhile P (rev (dropWhile P (rev (dropWhile P xs)))) = rev (dropWhile P (rev (dropWhile P xs)))"
    for P :: "nat \<Rightarrow> bool" and xs
  proof (cases "dropWhile P xs")
    case (Cons y ys)
    then have "\<not> P y" by (metis hd_dropWhile list.distinct(1) list.sel(1))
    then have "dropWhile P (zs @ [y]) = dropWhile P zs @ [y]" for zs by (induction zs) auto
    then show ?thesis using Cons \<open>\<not> P y\<close> by simp
  next
    case Nil
    show ?thesis unfolding Nil by simp
  qed
  show ?thesis unfolding trim_def trim_start_def trim_end_def d by simp
qed

section \<open>Bytes of a string\<close>

definition utf8_continuation :: "nat \<Rightarrow> bool" where
  "utf8_continuation b \<longleftrightarrow> 0x80 \<le> b \<and> b \<le> 0xBF"

text \<open>\<open>String::from_utf8\<close>: overlong forms, surrogates and values beyond the last plane are refused.\<close>

fun from_utf8 :: "nat list \<Rightarrow> rstr option" where
  "from_utf8 [] = Some []"
| "from_utf8 (b # bs) =
    (if b < 0x80 then map_option ((#) b) (from_utf8 bs)
     else if 0xC2 \<le> b \<and> b \<le> 0xDF then
       (case bs of c # r \<Rightarrow> if utf8_continuation c
            then map_option ((#) ((b - 0xC0) * 64 + (c - 0x80))) (from_utf8 r) else None
        | _ \<Rightarrow> None)
     else if 0xE0 \<le> b \<and> b \<le> 0xEF then
       (case bs of c # d # r \<Rightarrow> if utf8_continuation c \<and> utf8_continuation d
             \<and> (b = 0xE0 \<longrightarrow> 0xA0 \<le> c) \<and> (b = 0xED \<longrightarrow> c \<le> 0x9F)
            then map_option ((#) ((b - 0xE0) * 4096 + (c - 0x80) * 64 + (d - 0x80))) (from_utf8 r) else None
        | _ \<Rightarrow> None)
     else if 0xF0 \<le> b \<and> b \<le> 0xF4 then
       (case bs of c # d # e # r \<Rightarrow> if utf8_continuation c \<and> utf8_continuation d \<and> utf8_continuation e
             \<and> (b = 0xF0 \<longrightarrow> 0x90 \<le> c) \<and> (b = 0xF4 \<longrightarrow> c \<le> 0x8F)
            then map_option ((#) ((b - 0xF0) * 262144 + (c - 0x80) * 4096 + (d - 0x80) * 64 + (e - 0x80))) (from_utf8 r)
            else None
        | _ \<Rightarrow> None)
     else None)"

lemma utf8_encode_nonempty [simp]: "utf8_encode c \<noteq> []"
  by (simp add: utf8_encode_def)

text \<open>The lead byte tells the length of the encoding.\<close>

definition utf8_class :: "nat \<Rightarrow> nat" where
  "utf8_class b = (if b < 0x80 then 1 else if b < 0xE0 then 2 else if b < 0xF0 then 3 else 4)"

lemma utf8_class_lead: "c < 0x110000 \<Longrightarrow> utf8_class (hd (utf8_encode c)) =
    (if c < 0x80 then 1 else if c < 0x800 then 2 else if c < 0x10000 then 3 else 4)"
proof -
  assume c: "c < 0x110000"
  consider "c < 0x80" | "0x80 \<le> c" "c < 0x800" | "0x800 \<le> c" "c < 0x10000" | "0x10000 \<le> c" by linarith
  then show ?thesis
  proof cases
    case 2
    then have "c div 64 < 32" by auto
    with 2 show ?thesis by (simp add: utf8_encode_def utf8_class_def)
  next
    case 3
    then have "c div 4096 < 16" by auto
    with 3 show ?thesis by (simp add: utf8_encode_def utf8_class_def)
  qed (simp_all add: utf8_encode_def utf8_class_def)
qed

lemma utf8_class_range:
  assumes "c < 0x110000"
  shows "c < 0x80 \<longleftrightarrow> utf8_class (hd (utf8_encode c)) \<le> 1" "c < 0x800 \<longleftrightarrow> utf8_class (hd (utf8_encode c)) \<le> 2"
    "c < 0x10000 \<longleftrightarrow> utf8_class (hd (utf8_encode c)) \<le> 3"
  by (simp_all add: utf8_class_lead [OF assms])

lemma div_mod_64:
  assumes "m mod 64 = n mod 64" "m div 64 = n div 64"
  shows "m = (n :: nat)"
  using assms by (metis div_mult_mod_eq)

lemma utf8_encode_prefix:
  assumes "utf8_encode c @ x = utf8_encode d @ y" "c < 0x110000" "d < 0x110000"
  shows "c = d \<and> x = y"
proof -
  have h: "utf8_class (hd (utf8_encode c)) = utf8_class (hd (utf8_encode d))"
    using arg_cong [OF assms(1), of hd] by simp
  have q: "n div 4096 = n div 64 div 64" "n div 262144 = n div 64 div 64 div 64" for n :: nat
    by (simp_all add: div_mult2_eq [symmetric])
  have r: "c < 0x80 \<longleftrightarrow> d < 0x80" "c < 0x800 \<longleftrightarrow> d < 0x800" "c < 0x10000 \<longleftrightarrow> d < 0x10000"
    using utf8_class_range [OF assms(2)] utf8_class_range [OF assms(3)] unfolding h by blast+
  consider "c < 0x80" "d < 0x80" | "0x80 \<le> c" "c < 0x800" "0x80 \<le> d" "d < 0x800"
    | "0x800 \<le> c" "c < 0x10000" "0x800 \<le> d" "d < 0x10000" | "0x10000 \<le> c" "0x10000 \<le> d"
    using r by linarith
  then show ?thesis
  proof cases
    case 2
    then have "c mod 64 = d mod 64 \<and> c div 64 = d div 64 \<and> x = y" using assms(1) by (auto simp: utf8_encode_def)
    then show ?thesis using div_mod_64 by blast
  next
    case 3
    then have "c mod 64 = d mod 64 \<and> c div 64 mod 64 = d div 64 mod 64 \<and> c div 4096 = d div 4096 \<and> x = y"
      using assms(1) by (simp add: utf8_encode_def)
    then show ?thesis unfolding q using div_mod_64 by metis
  next
    case 4
    then have "c mod 64 = d mod 64 \<and> c div 64 mod 64 = d div 64 mod 64 \<and> c div 4096 mod 64 = d div 4096 mod 64
        \<and> c div 262144 = d div 262144 \<and> x = y"
      using assms(1) by (simp add: utf8_encode_def)
    then show ?thesis unfolding q using div_mod_64 by metis
  qed (use assms(1) in \<open>simp add: utf8_encode_def\<close>)
qed

definition scalar_values :: "rstr \<Rightarrow> bool" where
  "scalar_values s \<longleftrightarrow> (\<forall>c \<in> set s. c < 0x110000)"

lemma str_bytes_inject:
  "scalar_values s \<Longrightarrow> scalar_values t \<Longrightarrow> str_bytes s = str_bytes t \<longleftrightarrow> s = t"
proof (induction s arbitrary: t)
  case Nil
  then show ?case by (cases t) (simp_all add: str_bytes_def)
next
  case (Cons c s)
  show ?case
  proof (cases t)
    case (Cons d t')
    then have "str_bytes (c # s) = str_bytes t \<longleftrightarrow> utf8_encode c @ str_bytes s = utf8_encode d @ str_bytes t'"
      by (simp add: str_bytes_def)
    also have "\<dots> \<longleftrightarrow> c = d \<and> str_bytes s = str_bytes t'"
      using utf8_encode_prefix [of c "str_bytes s" d "str_bytes t'"] Cons.prems Cons
      by (auto simp: scalar_values_def)
    also have "str_bytes s = str_bytes t' \<longleftrightarrow> s = t'"
      by (rule Cons.IH) (use Cons.prems Cons in \<open>simp_all add: scalar_values_def\<close>)
    finally show ?thesis by (simp add: Cons)
  qed (simp add: str_bytes_def)
qed

end
