(* ===== verification/Control_Types.thy ===== *)
theory Control_Types
  imports Prelude
begin

text \<open>
  The data of the AgentMesh360 control plane: the enums and structs that several components
  share (\<open>provider_profiles.rs\<close>, \<open>provider_catalog.rs\<close>, \<open>model_policy.rs\<close>,
  \<open>model_routing.rs\<close>), and the record \<open>host_env\<close> of the third-party functions the
  components call (JSON codec, BLAKE3, URL and UUID parsers), which the definitions take as an
  argument.
\<close>

section \<open>Provider protocol and authentication\<close>

datatype provider_protocol = OpenaiResponses | OpenaiChat | AnthropicMessages

fun protocol_as_str :: "provider_protocol \<Rightarrow> string" where
  "protocol_as_str OpenaiResponses = ''openai_responses''"
| "protocol_as_str OpenaiChat = ''openai_chat''"
| "protocol_as_str AnthropicMessages = ''anthropic_messages''"

definition protocol_parse :: "rstr \<Rightarrow> host_error + provider_protocol" where
  "protocol_parse v =
    (if v = lit ''openai_responses'' then Inr OpenaiResponses
     else if v = lit ''openai_chat'' then Inr OpenaiChat
     else if v = lit ''anthropic_messages'' then Inr AnthropicMessages
     else Inl (Bail ''unsupported provider protocol''))"

datatype provider_auth_kind = BearerApiKey | XApiKeyKind

fun auth_kind_as_str :: "provider_auth_kind \<Rightarrow> string" where
  "auth_kind_as_str BearerApiKey = ''bearer_api_key''"
| "auth_kind_as_str XApiKeyKind = ''x_api_key''"

definition auth_kind_parse :: "rstr \<Rightarrow> host_error + provider_auth_kind" where
  "auth_kind_parse v =
    (if v = lit ''bearer_api_key'' then Inr BearerApiKey
     else if v = lit ''x_api_key'' then Inr XApiKeyKind
     else Inl (Bail ''unsupported provider authentication kind''))"

lemma protocol_parse_as_str [simp]: "protocol_parse (lit (protocol_as_str p)) = Inr p"
  by (cases p) (simp_all add: protocol_parse_def)

lemma auth_kind_parse_as_str [simp]: "auth_kind_parse (lit (auth_kind_as_str k)) = Inr k"
  by (cases k) (simp_all add: auth_kind_parse_def)

lemmas protocol_parse_lits [simp] = protocol_parse_as_str [of OpenaiResponses, unfolded protocol_as_str.simps]
  protocol_parse_as_str [of OpenaiChat, unfolded protocol_as_str.simps]
  protocol_parse_as_str [of AnthropicMessages, unfolded protocol_as_str.simps]

lemmas auth_kind_parse_lits [simp] = auth_kind_parse_as_str [of BearerApiKey, unfolded auth_kind_as_str.simps]
  auth_kind_parse_as_str [of XApiKeyKind, unfolded auth_kind_as_str.simps]

section \<open>Provider catalog\<close>

datatype provider_classification = Official | Aggregator | Gateway | CustomEndpoint | LocalEndpoint

datatype provider_quirk = AnthropicVersion2023_06_01

datatype capability_status = Supported | Unsupported | UnknownStatus

datatype capability_source = FromCatalog | ProviderReported | ProbeVerified | UserOverride

record model_capability =
  cap_context_window :: "nat option"
  cap_max_output_tokens :: "nat option"
  cap_tools :: capability_status
  cap_parallel_tool_calls :: capability_status
  cap_vision :: capability_status
  cap_structured_output :: capability_status
  cap_reasoning :: capability_status
  cap_streaming :: capability_status
  cap_source :: capability_source

definition unknown_capability :: model_capability where
  "unknown_capability = \<lparr>cap_context_window = None, cap_max_output_tokens = None,
     cap_tools = UnknownStatus, cap_parallel_tool_calls = UnknownStatus, cap_vision = UnknownStatus,
     cap_structured_output = UnknownStatus, cap_reasoning = UnknownStatus,
     cap_streaming = UnknownStatus, cap_source = FromCatalog\<rparr>"

record catalog_model =
  cm_model_id :: rstr
  cm_display_name :: rstr
  cm_capability :: model_capability

record provider_preset =
  ps_preset_id :: rstr
  ps_display_name :: rstr
  ps_classification :: provider_classification
  ps_protocol :: provider_protocol
  ps_default_base_url :: "rstr option"
  ps_auth_kind :: provider_auth_kind
  ps_allowed_endpoint_origins :: "rstr list"
  ps_quirks :: "provider_quirk list"
  ps_models :: "catalog_model list"

record provider_catalog =
  pc_schema_version :: nat
  pc_catalog_revision :: nat
  pc_providers :: "provider_preset list"

section \<open>Agent model policy\<close>

datatype capability_requirement = Required | Preferred | OptionalReq

record agent_model_policy =
  pol_tools :: capability_requirement
  pol_parallel_tool_calls :: capability_requirement
  pol_vision :: capability_requirement
  pol_structured_output :: capability_requirement
  pol_reasoning :: capability_requirement
  pol_streaming :: capability_requirement
  pol_min_context_window :: "nat option"

definition default_policy :: agent_model_policy where
  "default_policy = \<lparr>pol_tools = OptionalReq, pol_parallel_tool_calls = OptionalReq,
     pol_vision = OptionalReq, pol_structured_output = OptionalReq, pol_reasoning = OptionalReq,
     pol_streaming = OptionalReq, pol_min_context_window = None\<rparr>"

section \<open>Prepared routes\<close>

record prepared_route =
  rt_provider_profile_id :: rstr
  rt_provider_preset_id :: "rstr option"
  rt_provider_display_name :: rstr
  rt_endpoint_classification :: provider_classification
  rt_endpoint_origin :: rstr
  rt_protocol :: provider_protocol
  rt_base_url :: rstr
  rt_auth_kind :: provider_auth_kind
  rt_model_id :: rstr
  rt_profile_route_revision :: nat
  rt_assignment_id :: rstr
  rt_assignment_role :: rstr
  rt_assignment_revision :: nat
  rt_catalog_revision :: nat
  rt_capability :: model_capability
  rt_quirks :: "provider_quirk list"
  rt_warnings :: "rstr list"

datatype api_backend = ChatCompletions | Responses | Messages

datatype auth_scheme = BearerScheme | XApiKeyScheme

fun protocol_backend :: "provider_protocol \<Rightarrow> api_backend" where
  "protocol_backend OpenaiResponses = Responses"
| "protocol_backend OpenaiChat = ChatCompletions"
| "protocol_backend AnthropicMessages = Messages"

fun auth_kind_scheme :: "provider_auth_kind \<Rightarrow> auth_scheme" where
  "auth_kind_scheme BearerApiKey = BearerScheme"
| "auth_kind_scheme XApiKeyKind = XApiKeyScheme"

definition route_api_backend :: "prepared_route \<Rightarrow> api_backend" where
  "route_api_backend r = protocol_backend (rt_protocol r)"

definition route_auth_scheme :: "prepared_route \<Rightarrow> auth_scheme" where
  "route_auth_scheme r = auth_kind_scheme (rt_auth_kind r)"

section \<open>Third-party functions\<close>

text \<open>
  A parsed URL of the \<open>url\<close> crate, as the accessors the sources call see it.
\<close>

record parsed_url =
  url_scheme :: rstr
  url_username :: rstr
  url_password :: "rstr option"
  url_query :: "rstr option"
  url_fragment :: "rstr option"
  url_host_str :: "rstr option"
  url_path :: rstr
  url_as_str :: rstr
  url_origin :: rstr

text \<open>\<open>serde_json::Value\<close>; the keys of an object are distinct.\<close>

datatype json_value =
    JsonNull
  | JsonBool bool
  | JsonNumber rstr
  | JsonString rstr
  | JsonArray "json_value list"
  | JsonObject "(rstr \<times> json_value) list"

fun json_get :: "rstr \<Rightarrow> json_value \<Rightarrow> json_value option" where
  "json_get key (JsonObject m) = map_of m key"
| "json_get key _ = None"

fun json_as_str :: "json_value \<Rightarrow> rstr option" where
  "json_as_str (JsonString s) = Some s"
| "json_as_str _ = None"

fun json_as_array :: "json_value \<Rightarrow> json_value list option" where
  "json_as_array (JsonArray vs) = Some vs"
| "json_as_array _ = None"

text \<open>The stream of a response body, as its reader sees it: chunks of bytes, or a failure.\<close>

datatype body_item = BodyChunk "nat list" | BodyFailed

text \<open>
  \<open>serde_json\<close> for the list of enabled models and for the route snapshot, \<open>blake3\<close>,
  \<open>Url::parse\<close> and \<open>Uuid::parse_str\<close>. The components depend on them only through
  this record, and a lemma that needs one of their documented laws says so.
\<close>

record host_env =
  models_to_json :: "rstr list \<Rightarrow> rstr"
  models_from_json :: "rstr \<Rightarrow> rstr list option"
  route_to_json :: "prepared_route \<Rightarrow> rstr"
  route_from_json :: "rstr \<Rightarrow> prepared_route option"
  blake3_hex :: "rstr \<Rightarrow> rstr"
  url_parse :: "rstr \<Rightarrow> parsed_url option"
  uuid_parses :: "rstr \<Rightarrow> bool"

text \<open>Documented behaviour of the codec: what was written is read back.\<close>

definition models_codec_ok :: "host_env \<Rightarrow> bool" where
  "models_codec_ok h \<longleftrightarrow> (\<forall>ms. models_from_json h (models_to_json h ms) = Some ms)"

definition route_codec_ok :: "host_env \<Rightarrow> bool" where
  "route_codec_ok h \<longleftrightarrow> (\<forall>r. route_from_json h (route_to_json h r) = Some r)"

section \<open>A concrete environment\<close>

text \<open>
  Concrete third-party functions, for the concrete instances of the theorems: the models are
  written one after the other behind commas, every text is a valid HTTPS URL, the snapshot of a route
  is its model.
\<close>

definition sample_url :: "rstr \<Rightarrow> parsed_url" where
  "sample_url s = \<lparr>url_scheme = lit ''https'', url_username = [], url_password = None,
     url_query = None, url_fragment = None, url_host_str = Some s, url_path = [47], url_as_str = s,
     url_origin = s\<rparr>"

definition sample_route :: prepared_route where
  "sample_route = \<lparr>rt_provider_profile_id = [112], rt_provider_preset_id = None,
     rt_provider_display_name = [110], rt_endpoint_classification = CustomEndpoint,
     rt_endpoint_origin = [117], rt_protocol = OpenaiChat, rt_base_url = [117],
     rt_auth_kind = BearerApiKey, rt_model_id = [109], rt_profile_route_revision = 1,
     rt_assignment_id = [97], rt_assignment_role = lit ''main'', rt_assignment_revision = 1,
     rt_catalog_revision = 1, rt_capability = unknown_capability, rt_quirks = [], rt_warnings = []\<rparr>"

definition sample_env :: host_env where
  "sample_env = \<lparr>models_to_json = (\<lambda>ms. concat (map (\<lambda>m. m @ [44]) ms)),
     models_from_json = (\<lambda>s. Some (butlast (str_split 44 s))),
     route_to_json = (\<lambda>r. rt_model_id r),
     route_from_json = (\<lambda>s. Some (sample_route\<lparr>rt_model_id := s\<rparr>)),
     blake3_hex = (\<lambda>s. s), url_parse = (\<lambda>s. Some (sample_url s)), uuid_parses = (\<lambda>_. True)\<rparr>"

end
