(* ===== verification/State_Db.thy ===== *)
theory State_Db
  imports Control_Types
begin

text \<open>
  The state database of \<open>state.rs\<close>: one record of rows per table, the tables as lists in
  rowid order, the constraints of the \<open>SCHEMA\<close> text as a predicate, and the statements
  of SQL the stores issue. Text columns hold strings; the revisions are unsigned in Rust and
  signed 64-bit in SQLite, so writing one beyond the signed range fails in \<open>rusqlite\<close>.
\<close>

section \<open>Rows\<close>

record agent_row =
  ar_owner :: "int option"
  ar_agent_id :: rstr
  ar_display_name :: rstr
  ar_description :: rstr
  ar_version :: rstr
  ar_sort_order :: int
  ar_desired_state :: rstr
  ar_runtime_state :: rstr
  ar_main_session_id :: "rstr option"
  ar_workspace_dir :: "rstr option"
  ar_activated_at :: "rstr option"
  ar_updated_at :: rstr
  ar_last_error :: "rstr option"

record overlay_row =
  ov_owner :: int
  ov_agent_id :: rstr
  ov_kind :: rstr
  ov_content :: rstr
  ov_revision :: nat
  ov_updated_at :: rstr

record profile_row =
  pr_profile_id :: rstr
  pr_owner :: int
  pr_preset_id :: "rstr option"
  pr_display_name :: rstr
  pr_protocol :: rstr
  pr_base_url :: rstr
  pr_auth_kind :: rstr
  pr_credential_ref :: rstr
  pr_credential_last_four :: rstr
  pr_enabled_models_json :: rstr
  pr_route_revision :: nat
  pr_created_at :: rstr
  pr_updated_at :: rstr

record assignment_row =
  as_assignment_id :: rstr
  as_owner :: int
  as_scope_kind :: rstr
  as_scope_id :: rstr
  as_role :: rstr
  as_provider_profile_id :: rstr
  as_model_id :: rstr
  as_revision :: nat
  as_created_at :: rstr
  as_updated_at :: rstr

record binding_row =
  sb_binding_id :: rstr
  sb_owner :: int
  sb_session_id :: rstr
  sb_role :: rstr
  sb_agent_id :: "rstr option"
  sb_revision :: nat
  sb_change_reason :: rstr
  sb_prepared_route_json :: rstr
  sb_snapshot_hash :: rstr
  sb_provider_profile_id :: rstr
  sb_provider_preset_id :: "rstr option"
  sb_model_id :: rstr
  sb_protocol :: rstr
  sb_endpoint_origin :: rstr
  sb_profile_route_revision :: nat
  sb_assignment_id :: rstr
  sb_assignment_revision :: nat
  sb_catalog_revision :: nat
  sb_bound_at :: rstr

record turn_row =
  tr_turn_route_id :: rstr
  tr_owner :: int
  tr_session_id :: rstr
  tr_turn_id :: rstr
  tr_role :: rstr
  tr_binding_revision :: nat
  tr_binding_snapshot_hash :: rstr
  tr_provider_profile_id :: rstr
  tr_provider_preset_id :: "rstr option"
  tr_model_id :: rstr
  tr_protocol :: rstr
  tr_endpoint_origin :: rstr
  tr_submitted_at :: rstr

record state_db =
  product_agents :: "agent_row list"
  agent_overlays :: "overlay_row list"
  provider_profiles :: "profile_row list"
  model_assignments :: "assignment_row list"
  session_bindings :: "binding_row list"
  turn_routes :: "turn_row list"

definition empty_db :: state_db where
  "empty_db = \<lparr>product_agents = [], agent_overlays = [], provider_profiles = [],
     model_assignments = [], session_bindings = [], turn_routes = []\<rparr>"

section \<open>Integers\<close>

definition sql_int_max :: nat where
  "sql_int_max = 2 ^ 63 - 1"

text \<open>\<open>ToSql for u64\<close>: an \<open>i64::try_from\<close> that fails beyond the signed range.\<close>

definition to_sql_u64 :: "nat \<Rightarrow> host_error + nat" where
  "to_sql_u64 n = (if n \<le> sql_int_max then Inr n else Inl (Sql ToSqlConversion))"

definition u64_max :: nat where
  "u64_max = 2 ^ 64 - 1"

definition saturating_add_u64 :: "nat \<Rightarrow> nat \<Rightarrow> nat" where
  "saturating_add_u64 a b = min u64_max (a + b)"

lemma to_sql_u64_eq_Inr [result_simps]: "to_sql_u64 n = Inr m \<longleftrightarrow> n = m \<and> n \<le> sql_int_max"
  by (auto simp: to_sql_u64_def)

section \<open>Statements\<close>

text \<open>\<open>query_row\<close> answers with the first row, \<open>UPDATE\<close> with the table and the count.\<close>

definition update_where :: "('r \<Rightarrow> bool) \<Rightarrow> ('r \<Rightarrow> 'r) \<Rightarrow> 'r list \<Rightarrow> 'r list" where
  "update_where p f rs = map (\<lambda>r. if p r then f r else r) rs"

definition count_where :: "('r \<Rightarrow> bool) \<Rightarrow> 'r list \<Rightarrow> nat" where
  "count_where p rs = length (filter p rs)"

definition delete_where :: "('r \<Rightarrow> bool) \<Rightarrow> 'r list \<Rightarrow> 'r list" where
  "delete_where p rs = filter (\<lambda>r. \<not> p r) rs"

lemma find_update_where:
  assumes "\<And>r. p r \<Longrightarrow> q (f r) = q r"
  shows "find q (update_where p f rs) =
    (case find q rs of None \<Rightarrow> None | Some r \<Rightarrow> Some (if p r then f r else r))"
  using assms by (induction rs) (auto simp: update_where_def)

lemma find_update_where_other [table_simps]:
  assumes "\<And>r. p r \<Longrightarrow> \<not> q (f r)" "\<And>r. p r \<Longrightarrow> \<not> q r"
  shows "find q (update_where p f rs) = find q rs"
  using assms by (induction rs) (auto simp: update_where_def)

lemma filter_update_where_other [table_simps]:
  assumes "\<And>r. p r \<Longrightarrow> \<not> q (f r)" "\<And>r. p r \<Longrightarrow> \<not> q r"
  shows "filter q (update_where p f rs) = filter q rs"
  using assms by (induction rs) (auto simp: update_where_def)

lemma filter_delete_where_other [table_simps]:
  assumes "\<And>r. p r \<Longrightarrow> \<not> q r"
  shows "filter q (delete_where p rs) = filter q rs"
  using assms by (induction rs) (auto simp: delete_where_def)

lemma find_append [table_simps]:
  "find q (rs @ ss) = (case find q rs of None \<Rightarrow> find q ss | Some r \<Rightarrow> Some r)"
  by (induction rs) auto

lemma find_None_filter: "find q rs = None \<longleftrightarrow> filter q rs = []"
  by (induction rs) auto

lemma find_eq_hd_filter: "find q rs = (case filter q rs of [] \<Rightarrow> None | r # _ \<Rightarrow> Some r)"
  by (induction rs) auto

lemma find_SomeD: "find q rs = Some r \<Longrightarrow> r \<in> set rs \<and> q r"
  by (induction rs) (auto split: if_splits)

lemma set_update_where: "set (update_where p f rs) = (\<lambda>r. if p r then f r else r) ` set rs"
  by (auto simp: update_where_def)

lemma count_where_zero: "count_where p rs = 0 \<longleftrightarrow> (\<forall>r \<in> set rs. \<not> p r)"
  by (auto simp: count_where_def filter_empty_conv)

section \<open>Keys and owners\<close>

definition unique_on :: "('r \<Rightarrow> 'k) \<Rightarrow> 'r list \<Rightarrow> bool" where
  "unique_on key rows \<longleftrightarrow> distinct (map key rows)"

lemma unique_on_Nil [simp]: "unique_on key []"
  by (simp add: unique_on_def)

lemma unique_on_append: "unique_on key rows \<Longrightarrow> \<forall>r \<in> set rows. key r \<noteq> key row \<Longrightarrow> unique_on key (rows @ [row])"
  by (auto simp: unique_on_def)

lemma unique_on_update:
  assumes "\<And>r. p r \<Longrightarrow> key (f r) = key r"
  shows "unique_on key (update_where p f rows) = unique_on key rows"
proof -
  have "map key (update_where p f rows) = map key rows"
    using assms by (simp add: update_where_def)
  then show ?thesis by (simp add: unique_on_def)
qed

lemma unique_on_delete: "unique_on key rows \<Longrightarrow> unique_on key (delete_where p rows)"
  by (simp add: unique_on_def delete_where_def distinct_map_filter)

lemma unique_onD: "unique_on key rows \<Longrightarrow> r \<in> set rows \<Longrightarrow> s \<in> set rows \<Longrightarrow> key r = key s \<Longrightarrow> r = s"
  by (auto simp: unique_on_def distinct_map inj_on_def)

lemma unique_on_find:
  assumes "unique_on key rows" "r \<in> set rows" "p r" "\<And>s. s \<in> set rows \<Longrightarrow> p s \<Longrightarrow> key s = key r"
  shows "find p rows = Some r"
proof (cases "find p rows")
  case None
  with assms(2,3) show ?thesis by (simp add: find_None_iff)
next
  case (Some s)
  then have "s \<in> set rows" "p s" by (auto dest: find_SomeD)
  with assms Some show ?thesis by (auto dest: unique_onD)
qed

lemma unique_on_count:
  assumes "unique_on key rows" "\<And>r s. p r \<Longrightarrow> p s \<Longrightarrow> key r = key s"
  shows "count_where p rows = (if list_ex p rows then 1 else 0)"
  using assms(1)
proof (induction rows)
  case (Cons r rows)
  have "\<not> list_ex p rows" if "p r"
  proof
    assume "list_ex p rows"
    then obtain s where s: "s \<in> set rows" "p s" by (auto simp: list_ex_iff)
    from assms(2) [OF that s(2)] s(1) Cons.prems show False by (auto simp: unique_on_def)
  qed
  moreover have "count_where p rows = (if list_ex p rows then 1 else 0)"
    using Cons by (simp add: unique_on_def)
  ultimately show ?case by (cases "p r") (simp_all add: count_where_def)
qed (simp add: count_where_def)

lemma set_update_whereE:
  assumes "r \<in> set (update_where p f rows)"
  obtains s where "s \<in> set rows" "r = (if p s then f s else s)"
  using assms by (auto simp: set_update_where)

lemma set_delete_where [simp]: "set (delete_where p rows) = {r \<in> set rows. \<not> p r}"
  by (auto simp: delete_where_def)

lemma list_ex_find: "list_ex p rows \<longleftrightarrow> find p rows \<noteq> None"
  by (auto simp: list_ex_iff find_None_iff)

text \<open>
  A table whose key names the account that owns the row. What an account writes under its own keys
  leaves the rows of every other account alone.
\<close>

locale owned_table =
  fixes key :: "'r \<Rightarrow> 'k" and owner :: "'r \<Rightarrow> int option" and key_owner :: "'k \<Rightarrow> int option"
  assumes owner_of_key: "owner r = key_owner (key r)"
begin

lemma slice_append: "owner row \<noteq> Some b \<Longrightarrow>
    filter (\<lambda>r. owner r = Some b) (rows @ [row]) = filter (\<lambda>r. owner r = Some b) rows"
  by simp

lemma slice_update:
  assumes "\<And>r. p r \<Longrightarrow> key_owner (key r) \<noteq> Some b" "\<And>r. p r \<Longrightarrow> key_owner (key (f r)) \<noteq> Some b"
  shows "filter (\<lambda>r. owner r = Some b) (update_where p f rows) = filter (\<lambda>r. owner r = Some b) rows"
  using assms by (intro filter_update_where_other) (auto simp: owner_of_key)

lemma slice_delete:
  assumes "\<And>r. r \<in> set rows \<Longrightarrow> p r \<Longrightarrow> key_owner (key r) \<noteq> Some b"
  shows "filter (\<lambda>r. owner r = Some b) (delete_where p rows) = filter (\<lambda>r. owner r = Some b) rows"
  using assms by (auto simp: delete_where_def owner_of_key intro!: filter_cong)

lemma find_slice:
  assumes "\<And>r. p r \<Longrightarrow> owner r = Some b"
    and "filter (\<lambda>r. owner r = Some b) rows = filter (\<lambda>r. owner r = Some b) rows'"
  shows "find p rows = find p rows'"
proof -
  have "filter p (filter (\<lambda>r. owner r = Some b) rs) = filter p rs" for rs
    using assms(1) by (auto intro!: filter_cong)
  with assms(2) have "filter p rows = filter p rows'" by metis
  then show ?thesis by (simp add: find_eq_hd_filter)
qed

end

section \<open>The tables of the state database\<close>

interpretation agents: owned_table "\<lambda>r. (ar_owner r, ar_agent_id r)" ar_owner fst
  by unfold_locales simp

interpretation overlays: owned_table "\<lambda>r. (ov_owner r, ov_agent_id r, ov_kind r)"
    "\<lambda>r. Some (ov_owner r)" "\<lambda>k. Some (fst k)"
  by unfold_locales simp

interpretation profiles: owned_table "\<lambda>r. (pr_owner r, pr_profile_id r)"
    "\<lambda>r. Some (pr_owner r)" "\<lambda>k. Some (fst k)"
  by unfold_locales simp

interpretation assignments: owned_table "\<lambda>r. (as_owner r, as_scope_kind r, as_scope_id r, as_role r)"
    "\<lambda>r. Some (as_owner r)" "\<lambda>k. Some (fst k)"
  by unfold_locales simp

interpretation bindings: owned_table "\<lambda>r. (sb_owner r, sb_session_id r, sb_role r, sb_revision r)"
    "\<lambda>r. Some (sb_owner r)" "\<lambda>k. Some (fst k)"
  by unfold_locales simp

interpretation turns: owned_table "\<lambda>r. (tr_owner r, tr_session_id r, tr_role r, tr_turn_id r)"
    "\<lambda>r. Some (tr_owner r)" "\<lambda>k. Some (fst k)"
  by unfold_locales simp

text \<open>What the database holds for one account.\<close>

definition account_view :: "int \<Rightarrow> state_db \<Rightarrow> state_db" where
  "account_view b db =
     \<lparr>product_agents = filter (\<lambda>r. ar_owner r = Some b) (product_agents db),
      agent_overlays = filter (\<lambda>r. Some (ov_owner r) = Some b) (agent_overlays db),
      provider_profiles = filter (\<lambda>r. Some (pr_owner r) = Some b) (provider_profiles db),
      model_assignments = filter (\<lambda>r. Some (as_owner r) = Some b) (model_assignments db),
      session_bindings = filter (\<lambda>r. Some (sb_owner r) = Some b) (session_bindings db),
      turn_routes = filter (\<lambda>r. Some (tr_owner r) = Some b) (turn_routes db)\<rparr>"

lemma account_view_cong:
  assumes "account_view b db = account_view b db'"
  shows "filter (\<lambda>r. ar_owner r = Some b) (product_agents db) = filter (\<lambda>r. ar_owner r = Some b) (product_agents db')"
    "filter (\<lambda>r. Some (ov_owner r) = Some b) (agent_overlays db) = filter (\<lambda>r. Some (ov_owner r) = Some b) (agent_overlays db')"
    "filter (\<lambda>r. Some (pr_owner r) = Some b) (provider_profiles db) = filter (\<lambda>r. Some (pr_owner r) = Some b) (provider_profiles db')"
    "filter (\<lambda>r. Some (as_owner r) = Some b) (model_assignments db) = filter (\<lambda>r. Some (as_owner r) = Some b) (model_assignments db')"
    "filter (\<lambda>r. Some (sb_owner r) = Some b) (session_bindings db) = filter (\<lambda>r. Some (sb_owner r) = Some b) (session_bindings db')"
    "filter (\<lambda>r. Some (tr_owner r) = Some b) (turn_routes db) = filter (\<lambda>r. Some (tr_owner r) = Some b) (turn_routes db')"
  using assms by (simp_all add: account_view_def)

end
