(* ===== verification/Provider_Profiles.thy ===== *)
theory Provider_Profiles
  imports State_Db
begin

text \<open>
  \<open>provider_profiles.rs\<close>: the input of a Provider Profile and its normalisation, and the
  store of profiles over the table \<open>provider_profiles\<close>. Every operation of the store takes
  the current time and the database and answers with a result and the database after it.
\<close>

section \<open>Input and normalisation\<close>

record profile_input =
  in_preset_id :: "rstr option"
  in_display_name :: rstr
  in_protocol :: provider_protocol
  in_base_url :: rstr
  in_auth_kind :: provider_auth_kind
  in_enabled_models :: "rstr list"

definition normalize_base_url :: "host_env \<Rightarrow> rstr \<Rightarrow> host_error + rstr" where
  "normalize_base_url h value =
    (case url_parse h (trim value) of
       None \<Rightarrow> Inl (Bail ''provider base URL is invalid'')
     | Some url \<Rightarrow>
         if url_scheme url \<notin> {lit ''http'', lit ''https''} then
           Inl (Bail ''provider base URL must use http or https'')
         else if url_username url \<noteq> [] \<or> url_password url \<noteq> None then
           Inl (Bail ''provider base URL must not contain credentials'')
         else if url_query url \<noteq> None \<or> url_fragment url \<noteq> None then
           Inl (Bail ''provider base URL must not contain a query or fragment'')
         else if url_host_str url = None then
           Inl (Bail ''provider base URL must contain a host'')
         else Inr (trim_end_matches 47 (url_as_str url)))"

definition model_id_byte :: "nat \<Rightarrow> bool" where
  "model_id_byte b \<longleftrightarrow> is_ascii_alphanumeric b \<or> b \<in> set (lit ''-_./:@'')"

definition normalize_model_id :: "rstr \<Rightarrow> host_error + rstr" where
  "normalize_model_id value =
    (let value = trim value in
     if value = [] \<or> str_len value > 200 \<or> \<not> list_all model_id_byte (str_bytes value)
     then Inl (Bail ''provider model id is invalid'')
     else Inr value)"

text \<open>The loop over the enabled models: normalise, and keep the first of equal ids.\<close>

fun normalize_models :: "rstr list \<Rightarrow> rstr list \<Rightarrow> host_error + rstr list" where
  "normalize_models seen [] = Inr []"
| "normalize_models seen (m # ms) =
     and_then (normalize_model_id m) (\<lambda>m.
       if m \<in> set seen then normalize_models seen ms
       else and_then (normalize_models (m # seen) ms) (\<lambda>rest. Inr (m # rest)))"

definition profile_input_normalized :: "host_env \<Rightarrow> profile_input \<Rightarrow> host_error + profile_input" where
  "profile_input_normalized h inp =
    (let name = trim (in_display_name inp);
         preset = (case in_preset_id inp of None \<Rightarrow> None
                   | Some v \<Rightarrow> if trim v = [] then None else Some (trim v)) in
     if name = [] \<or> length name > 80 then
       Inl (Bail ''provider display name must contain 1 to 80 characters'')
     else if (case preset of None \<Rightarrow> False | Some v \<Rightarrow> length v > 128) then
       Inl (Bail ''provider preset id is too long'')
     else and_then (normalize_base_url h (in_base_url inp)) (\<lambda>url.
       and_then (normalize_models [] (in_enabled_models inp)) (\<lambda>models.
         if length models > 64 then
           Inl (Bail ''a provider profile cannot enable more than 64 models'')
         else Inr (inp\<lparr>in_display_name := name, in_preset_id := preset, in_base_url := url,
                       in_enabled_models := models\<rparr>))))"

section \<open>Records and the store\<close>

record profile_record =
  pp_profile_id :: rstr
  pp_owner :: int
  pp_preset_id :: "rstr option"
  pp_display_name :: rstr
  pp_protocol :: provider_protocol
  pp_base_url :: rstr
  pp_auth_kind :: provider_auth_kind
  pp_enabled_models :: "rstr list"
  pp_route_revision :: nat
  pp_credential_configured :: bool
  pp_credential_last_four :: rstr
  pp_credential_ref :: rstr
  pp_created_at :: rstr
  pp_updated_at :: rstr

definition profile_row_to_record :: "host_env \<Rightarrow> profile_row \<Rightarrow> host_error + profile_record" where
  "profile_row_to_record h row =
     and_then (map_err (\<lambda>_. Sql (FromSqlConversion 4)) (protocol_parse (pr_protocol row))) (\<lambda>protocol.
     and_then (map_err (\<lambda>_. Sql (FromSqlConversion 6)) (auth_kind_parse (pr_auth_kind row))) (\<lambda>auth_kind.
     and_then (ok_or (models_from_json h (pr_enabled_models_json row)) (Sql (FromSqlConversion 7))) (\<lambda>models.
     Inr \<lparr>pp_profile_id = pr_profile_id row, pp_owner = pr_owner row,
          pp_preset_id = pr_preset_id row, pp_display_name = pr_display_name row,
          pp_protocol = protocol, pp_base_url = pr_base_url row, pp_auth_kind = auth_kind,
          pp_enabled_models = models, pp_route_revision = pr_route_revision row,
          pp_credential_configured = True, pp_credential_last_four = pr_credential_last_four row,
          pp_credential_ref = pr_credential_ref row, pp_created_at = pr_created_at row,
          pp_updated_at = pr_updated_at row\<rparr>)))"

definition profile_key :: "int \<Rightarrow> rstr \<Rightarrow> profile_row \<Rightarrow> bool" where
  "profile_key owner profile_id r \<longleftrightarrow> pr_owner r = owner \<and> pr_profile_id r = profile_id"

definition profiles_list :: "host_env \<Rightarrow> int \<Rightarrow> state_db \<Rightarrow> host_error + profile_record list" where
  "profiles_list h owner db =
     with_context ''read AgentMesh360 provider profiles''
       (collect_results (map (profile_row_to_record h)
         (sort_key (\<lambda>r. (to_ascii_lowercase (pr_display_name r), pr_profile_id r))
           (filter (\<lambda>r. pr_owner r = owner) (provider_profiles db)))))"

definition profiles_get :: "host_env \<Rightarrow> int \<Rightarrow> rstr \<Rightarrow> state_db \<Rightarrow> host_error + profile_record" where
  "profiles_get h owner profile_id db =
     (case find (profile_key owner profile_id) (provider_profiles db) of
        None \<Rightarrow> Inl (Bail ''provider profile not found'')
      | Some row \<Rightarrow> profile_row_to_record h row)"

text \<open>The uniqueness constraints of the table, checked when a row is written.\<close>

definition profile_conflict :: "profile_row \<Rightarrow> profile_row \<Rightarrow> bool" where
  "profile_conflict row r \<longleftrightarrow> pr_profile_id r = pr_profile_id row
     \<or> pr_credential_ref r = pr_credential_ref row
     \<or> pr_owner r = pr_owner row \<and> pr_display_name r = pr_display_name row"

definition new_profile_row ::
  "host_env \<Rightarrow> rstr \<Rightarrow> int \<Rightarrow> rstr \<Rightarrow> rstr \<Rightarrow> rstr \<Rightarrow> profile_input \<Rightarrow> profile_row" where
  "new_profile_row h now owner profile_id credential_ref last_four inp =
     \<lparr>pr_profile_id = profile_id, pr_owner = owner, pr_preset_id = in_preset_id inp,
      pr_display_name = in_display_name inp,
      pr_protocol = lit (protocol_as_str (in_protocol inp)),
      pr_base_url = in_base_url inp, pr_auth_kind = lit (auth_kind_as_str (in_auth_kind inp)),
      pr_credential_ref = credential_ref, pr_credential_last_four = last_four,
      pr_enabled_models_json = models_to_json h (in_enabled_models inp),
      pr_route_revision = 1, pr_created_at = now, pr_updated_at = now\<rparr>"

definition profiles_insert ::
  "host_env \<Rightarrow> rstr \<Rightarrow> int \<Rightarrow> rstr \<Rightarrow> rstr \<Rightarrow> rstr \<Rightarrow> profile_input \<Rightarrow> state_db
     \<Rightarrow> (host_error + profile_record) \<times> state_db" where
  "profiles_insert h now owner profile_id credential_ref last_four inp db =
    (let row = new_profile_row h now owner profile_id credential_ref last_four inp in
     if list_ex (profile_conflict row) (provider_profiles db) then
       (Inl (Context ''create AgentMesh360 provider profile'' (Sql (ConstraintUnique ''provider_profiles''))), db)
     else
       let db' = db\<lparr>provider_profiles := provider_profiles db @ [row]\<rparr> in
       (profiles_get h owner profile_id db', db'))"

definition route_changed :: "profile_record \<Rightarrow> profile_input \<Rightarrow> bool" where
  "route_changed current inp \<longleftrightarrow> pp_preset_id current \<noteq> in_preset_id inp
     \<or> pp_protocol current \<noteq> in_protocol inp
     \<or> pp_base_url current \<noteq> in_base_url inp
     \<or> pp_auth_kind current \<noteq> in_auth_kind inp
     \<or> pp_enabled_models current \<noteq> in_enabled_models inp"

definition next_route_revision :: "profile_record \<Rightarrow> profile_input \<Rightarrow> nat" where
  "next_route_revision current inp = pp_route_revision current + (if route_changed current inp then 1 else 0)"

definition profile_write :: "host_env \<Rightarrow> rstr \<Rightarrow> profile_input \<Rightarrow> nat \<Rightarrow> profile_row \<Rightarrow> profile_row" where
  "profile_write h now inp revision r =
     r\<lparr>pr_preset_id := in_preset_id inp, pr_display_name := in_display_name inp,
       pr_protocol := lit (protocol_as_str (in_protocol inp)), pr_base_url := in_base_url inp,
       pr_auth_kind := lit (auth_kind_as_str (in_auth_kind inp)),
       pr_enabled_models_json := models_to_json h (in_enabled_models inp),
       pr_route_revision := revision, pr_updated_at := now\<rparr>"

definition profiles_update ::
  "host_env \<Rightarrow> rstr \<Rightarrow> int \<Rightarrow> rstr \<Rightarrow> profile_input \<Rightarrow> state_db
     \<Rightarrow> (host_error + profile_record) \<times> state_db" where
  "profiles_update h now owner profile_id inp db =
    (case profiles_get h owner profile_id db of
       Inl e \<Rightarrow> (Inl e, db)
     | Inr current \<Rightarrow>
         (case to_sql_u64 (next_route_revision current inp) of
            Inl e \<Rightarrow> (Inl e, db)
          | Inr revision \<Rightarrow>
              let key = profile_key owner profile_id; rows = provider_profiles db in
              if list_ex (\<lambda>r. \<not> key r \<and> pr_owner r = owner \<and> pr_display_name r = in_display_name inp) rows
                 \<and> list_ex key rows then
                (Inl (Sql (ConstraintUnique ''provider_profiles'')), db)
              else if count_where key rows \<noteq> 1 then
                (Inl (Bail ''provider profile not found''),
                 db\<lparr>provider_profiles := update_where key (profile_write h now inp revision) rows\<rparr>)
              else
                let db' = db\<lparr>provider_profiles := update_where key (profile_write h now inp revision) rows\<rparr> in
                (profiles_get h owner profile_id db', db')))"

definition profiles_update_credential_metadata ::
  "host_env \<Rightarrow> rstr \<Rightarrow> int \<Rightarrow> rstr \<Rightarrow> rstr \<Rightarrow> state_db
     \<Rightarrow> (host_error + profile_record) \<times> state_db" where
  "profiles_update_credential_metadata h now owner profile_id last_four db =
    (let key = profile_key owner profile_id; rows = provider_profiles db;
         db' = db\<lparr>provider_profiles :=
           update_where key (\<lambda>r. r\<lparr>pr_credential_last_four := last_four, pr_updated_at := now\<rparr>) rows\<rparr> in
     if count_where key rows \<noteq> 1 then (Inl (Bail ''provider profile not found''), db')
     else (profiles_get h owner profile_id db', db'))"

text \<open>
  Deleting a profile also deletes the assignments that reference it
  (\<open>ON DELETE CASCADE\<close>, with \<open>PRAGMA foreign_keys = ON\<close>).
\<close>

definition profiles_delete :: "int \<Rightarrow> rstr \<Rightarrow> state_db \<Rightarrow> (host_error + unit) \<times> state_db" where
  "profiles_delete owner profile_id db =
    (let key = profile_key owner profile_id; rows = provider_profiles db;
         db' = db\<lparr>provider_profiles := delete_where key rows,
                  model_assignments := delete_where
                    (\<lambda>a. list_ex key rows \<and> as_provider_profile_id a = profile_id) (model_assignments db)\<rparr> in
     if count_where key rows \<noteq> 1 then (Inl (Bail ''provider profile not found''), db')
     else (Inr (), db'))"

section \<open>The table of profiles\<close>

definition profiles_ok :: "state_db \<Rightarrow> bool" where
  "profiles_ok db \<longleftrightarrow> unique_on pr_profile_id (provider_profiles db)
     \<and> unique_on pr_credential_ref (provider_profiles db)
     \<and> unique_on (\<lambda>r. (pr_owner r, pr_display_name r)) (provider_profiles db)
     \<and> (\<forall>r \<in> set (provider_profiles db). 1 \<le> pr_route_revision r \<and> pr_route_revision r \<le> sql_int_max)"

text \<open>The two ways a statement can leave the table: as it was, or with the rows of one key rewritten.\<close>

lemma new_profile_row_simps [simp]:
  "pr_profile_id (new_profile_row h now owner pid cref l4 inp) = pid"
  "pr_owner (new_profile_row h now owner pid cref l4 inp) = owner"
  "pr_credential_ref (new_profile_row h now owner pid cref l4 inp) = cref"
  "pr_display_name (new_profile_row h now owner pid cref l4 inp) = in_display_name inp"
  "pr_route_revision (new_profile_row h now owner pid cref l4 inp) = 1"
  by (simp_all add: new_profile_row_def)

lemma profiles_insert_cases:
  assumes "profiles_insert h now owner profile_id cref last4 inp db = (res, db')"
  obtains (conflict) e where "res = Inl e" "db' = db"
      "\<exists>r \<in> set (provider_profiles db). profile_conflict (new_profile_row h now owner profile_id cref last4 inp) r"
  | (inserted) row where "row = new_profile_row h now owner profile_id cref last4 inp"
      "db' = db\<lparr>provider_profiles := provider_profiles db @ [row]\<rparr>"
      "\<forall>r \<in> set (provider_profiles db). \<not> profile_conflict row r"
      "res = profile_row_to_record h row" "profiles_get h owner profile_id db' = res"
proof -
  let ?row = "new_profile_row h now owner profile_id cref last4 inp"
  show ?thesis
  proof (cases "list_ex (profile_conflict ?row) (provider_profiles db)")
    case True
    with assms show ?thesis by (intro conflict) (auto simp: profiles_insert_def list_ex_iff)
  next
    case False
    let ?db = "db\<lparr>provider_profiles := provider_profiles db @ [?row]\<rparr>"
    from False have nc: "\<forall>r \<in> set (provider_profiles db). \<not> profile_conflict ?row r"
      by (simp add: list_ex_iff)
    have r: "res = profiles_get h owner profile_id ?db" "db' = ?db"
      using assms False by (auto simp: profiles_insert_def Let_def)
    have "find (profile_key owner profile_id) (provider_profiles db) = None"
      using nc by (auto simp: find_None_iff profile_conflict_def profile_key_def)
    then have "profiles_get h owner profile_id ?db = profile_row_to_record h ?row"
      by (simp add: profiles_get_def find_append profile_key_def)
    with r nc show ?thesis by (intro inserted [of ?row]) simp_all
  qed
qed

lemma profiles_update_cases:
  assumes "profiles_update h now owner profile_id inp db = (res, db')"
  obtains (unchanged) e where "res = Inl e" "db' = db"
  | (updated) current revision where "profiles_get h owner profile_id db = Inr current"
      "revision = next_route_revision current inp" "revision \<le> sql_int_max"
      "db' = db\<lparr>provider_profiles := update_where (profile_key owner profile_id)
                 (profile_write h now inp revision) (provider_profiles db)\<rparr>"
      "\<forall>r \<in> set (provider_profiles db). \<not> profile_key owner profile_id r \<longrightarrow> pr_owner r = owner
         \<longrightarrow> pr_display_name r \<noteq> in_display_name inp"
      "res = profiles_get h owner profile_id db' \<or> (\<exists>e. res = Inl e)"
proof (cases "profiles_get h owner profile_id db")
  case (Inl e)
  with assms show ?thesis by (intro unchanged [of e]) (auto simp: profiles_update_def)
next
  case (Inr current)
  show ?thesis
  proof (cases "to_sql_u64 (next_route_revision current inp)")
    case (Inl e)
    with \<open>profiles_get h owner profile_id db = Inr current\<close> assms show ?thesis
      by (intro unchanged [of e]) (auto simp: profiles_update_def)
  next
    case rev: (Inr revision)
    from Inr have ex: "list_ex (profile_key owner profile_id) (provider_profiles db)"
      by (auto simp: profiles_get_def list_ex_find split: option.splits)
    let ?dup = "list_ex (\<lambda>r. \<not> profile_key owner profile_id r \<and> pr_owner r = owner
        \<and> pr_display_name r = in_display_name inp) (provider_profiles db)"
    show ?thesis
    proof (cases ?dup)
      case True
      with Inr rev ex assms show ?thesis by (intro unchanged) (auto simp: profiles_update_def Let_def)
    next
      case False
      then have nd: "\<forall>r \<in> set (provider_profiles db). \<not> profile_key owner profile_id r \<longrightarrow> pr_owner r = owner
         \<longrightarrow> pr_display_name r \<noteq> in_display_name inp" by (auto simp: list_ex_iff)
      have "(res, db') = (if count_where (profile_key owner profile_id) (provider_profiles db) \<noteq> 1
          then (Inl (Bail ''provider profile not found''), db\<lparr>provider_profiles :=
             update_where (profile_key owner profile_id) (profile_write h now inp revision) (provider_profiles db)\<rparr>)
          else (let db' = db\<lparr>provider_profiles := update_where (profile_key owner profile_id)
                 (profile_write h now inp revision) (provider_profiles db)\<rparr>
                in (profiles_get h owner profile_id db', db')))"
        using Inr rev False assms by (simp add: profiles_update_def Let_def)
      then show ?thesis
        using Inr rev nd by (intro updated [of current revision])
          (auto simp: to_sql_u64_eq_Inr Let_def split: if_splits)
    qed
  qed
qed

lemma profile_write_key [simp]:
  "pr_profile_id (profile_write h now inp n r) = pr_profile_id r"
  "pr_owner (profile_write h now inp n r) = pr_owner r"
  "pr_credential_ref (profile_write h now inp n r) = pr_credential_ref r"
  "pr_display_name (profile_write h now inp n r) = in_display_name inp"
  "pr_route_revision (profile_write h now inp n r) = n"
  "pr_created_at (profile_write h now inp n r) = pr_created_at r"
  "pr_credential_last_four (profile_write h now inp n r) = pr_credential_last_four r"
  by (simp_all add: profile_write_def)

lemma profiles_ok_append:
  assumes "profiles_ok db" "\<forall>r \<in> set (provider_profiles db). \<not> profile_conflict row r"
    and "pr_route_revision row = 1"
  shows "profiles_ok (db\<lparr>provider_profiles := provider_profiles db @ [row]\<rparr>)"
  using assms by (auto simp: profiles_ok_def profile_conflict_def sql_int_max_def intro!: unique_on_append)

lemma profiles_ok_insert:
  "profiles_ok db \<Longrightarrow> profiles_insert h now owner pid cref l4 inp db = (res, db') \<Longrightarrow> profiles_ok db'"
  by (erule profiles_insert_cases) (auto intro: profiles_ok_append)

lemma unique_on_Cons: "unique_on key (r # rows) \<longleftrightarrow> (\<forall>s \<in> set rows. key r \<noteq> key s) \<and> unique_on key rows"
  by (auto simp: unique_on_def)

lemma unique_on_rename:
  assumes "unique_on key rows" "\<And>r s. p r \<Longrightarrow> p s \<Longrightarrow> r \<in> set rows \<Longrightarrow> s \<in> set rows \<Longrightarrow> r = s"
    and "\<And>r s. p r \<Longrightarrow> s \<in> set rows \<Longrightarrow> \<not> p s \<Longrightarrow> key (f r) \<noteq> key s"
  shows "unique_on key (update_where p f rows)"
  using assms
proof (induction rows)
  case (Cons r rows)
  have ih: "unique_on key (update_where p f rows)"
    using Cons.prems by (intro Cons.IH) (auto simp: unique_on_def)
  have eq: "update_where p f rows = rows" if "p r"
  proof -
    have "\<not> p s" if "s \<in> set rows" for s
      using Cons.prems(2) [of r s] \<open>p r\<close> that Cons.prems(1) by (auto simp: unique_on_def)
    then show ?thesis by (auto simp: update_where_def intro!: map_idI)
  qed
  have ne: "key (if p r then f r else r) \<noteq> key s" if s: "s \<in> set (update_where p f rows)" for s
  proof (cases "p r")
    case True
    with eq s have sr: "s \<in> set rows" by simp
    have "\<not> p s" using True Cons.prems(1) Cons.prems(2) [of r s] sr by (auto simp: unique_on_def)
    with True sr Cons.prems(3) [of r s] show ?thesis by simp
  next
    case False
    from s obtain t where t: "t \<in> set rows" "s = (if p t then f t else t)" by (rule set_update_whereE)
    show ?thesis
    proof (cases "p t")
      case True
      with False t Cons.prems(3) [of t r] show ?thesis by force
    next
      case pt: False
      with False t Cons.prems(1) show ?thesis by (auto simp: unique_on_def)
    qed
  qed
  have "update_where p f (r # rows) = (if p r then f r else r) # update_where p f rows"
    by (simp add: update_where_def)
  then show ?case using ih ne by (simp only: unique_on_Cons) blast
qed (simp add: update_where_def)

lemma profiles_ok_update:
  assumes "profiles_ok db" "profiles_update h now owner profile_id inp db = (res, db')"
  shows "profiles_ok db'"
  using assms(2)
proof (cases rule: profiles_update_cases)
  case (updated current revision)
  let ?key = "profile_key owner profile_id" and ?f = "profile_write h now inp revision"
  from assms(1) have u: "unique_on pr_profile_id (provider_profiles db)"
    "unique_on pr_credential_ref (provider_profiles db)"
    "unique_on (\<lambda>r. (pr_owner r, pr_display_name r)) (provider_profiles db)"
    "\<forall>r \<in> set (provider_profiles db). 1 \<le> pr_route_revision r \<and> pr_route_revision r \<le> sql_int_max"
    by (auto simp: profiles_ok_def)
  have one: "r = s" if "?key r" "?key s" "r \<in> set (provider_profiles db)" "s \<in> set (provider_profiles db)" for r s
    using u(1) that by (auto simp: profile_key_def intro: unique_onD)
  from updated(1) obtain row where row: "find ?key (provider_profiles db) = Some row"
    "profile_row_to_record h row = Inr current" by (auto simp: profiles_get_def split: option.splits)
  then have "pp_route_revision current = pr_route_revision row" "row \<in> set (provider_profiles db)"
    by (auto simp: profile_row_to_record_def result_simps dest: find_SomeD)
  with u(4) updated(2) have "1 \<le> revision" by (auto simp: next_route_revision_def)
  moreover have "unique_on (\<lambda>r. (pr_owner r, pr_display_name r)) (update_where ?key ?f (provider_profiles db))"
    using u(3) one updated(5) by (intro unique_on_rename) (auto simp: profile_key_def)
  ultimately show ?thesis
    using u updated(3,4) by (auto simp: profiles_ok_def unique_on_update elim!: set_update_whereE)
qed (use assms in auto)

lemma profiles_metadata_db:
  "snd (profiles_update_credential_metadata h now owner profile_id last4 db) =
     db\<lparr>provider_profiles := update_where (profile_key owner profile_id)
          (\<lambda>r. r\<lparr>pr_credential_last_four := last4, pr_updated_at := now\<rparr>) (provider_profiles db)\<rparr>"
  by (simp add: profiles_update_credential_metadata_def Let_def)

lemma profiles_ok_metadata:
  "profiles_ok db \<Longrightarrow> profiles_ok (snd (profiles_update_credential_metadata h now owner profile_id last4 db))"
  unfolding profiles_metadata_db
  by (auto simp: profiles_ok_def unique_on_update elim!: set_update_whereE)

lemma profiles_delete_db:
  "snd (profiles_delete owner profile_id db) =
     db\<lparr>provider_profiles := delete_where (profile_key owner profile_id) (provider_profiles db),
        model_assignments := delete_where
          (\<lambda>a. list_ex (profile_key owner profile_id) (provider_profiles db) \<and> as_provider_profile_id a = profile_id)
          (model_assignments db)\<rparr>"
  by (simp add: profiles_delete_def Let_def)

lemma profiles_ok_delete: "profiles_ok db \<Longrightarrow> profiles_ok (snd (profiles_delete owner profile_id db))"
  unfolding profiles_delete_db by (auto simp: profiles_ok_def unique_on_delete)

lemma profiles_ok_cong: "provider_profiles db = provider_profiles db' \<Longrightarrow> profiles_ok db = profiles_ok db'"
  by (simp add: profiles_ok_def)

section \<open>Reading what was written\<close>

definition record_of_input :: "int \<Rightarrow> rstr \<Rightarrow> rstr \<Rightarrow> rstr \<Rightarrow> nat \<Rightarrow> rstr \<Rightarrow> rstr \<Rightarrow> profile_input \<Rightarrow> profile_record" where
  "record_of_input owner profile_id cref last4 revision created updated inp =
     \<lparr>pp_profile_id = profile_id, pp_owner = owner, pp_preset_id = in_preset_id inp,
      pp_display_name = in_display_name inp, pp_protocol = in_protocol inp,
      pp_base_url = in_base_url inp, pp_auth_kind = in_auth_kind inp,
      pp_enabled_models = in_enabled_models inp, pp_route_revision = revision,
      pp_credential_configured = True, pp_credential_last_four = last4, pp_credential_ref = cref,
      pp_created_at = created, pp_updated_at = updated\<rparr>"

text \<open>a profile that is inserted is read back field by field, by the insert itself and by every later
  \<open>get\<close> of the same account, with route revision 1; the insert fails only on a conflict of the
  identifier, of the credential handle or of the display name within the account.\<close>

theorem profile_insert_get:
  assumes "models_from_json h (models_to_json h (in_enabled_models inp)) = Some (in_enabled_models inp)"
  shows "((\<forall>r \<in> set (provider_profiles db). pr_profile_id r \<noteq> profile_id \<and> pr_credential_ref r \<noteq> cref
        \<and> (pr_owner r, pr_display_name r) \<noteq> (owner, in_display_name inp))
      \<longleftrightarrow> is_ok (fst (profiles_insert h now owner profile_id cref last4 inp db)))
    \<and> (\<forall>record db'. profiles_insert h now owner profile_id cref last4 inp db = (Inr record, db') \<longrightarrow>
      record = record_of_input owner profile_id cref last4 1 now now inp
      \<and> profiles_get h owner profile_id db' = Inr record)"
proof -
  obtain res db'' where i: "profiles_insert h now owner profile_id cref last4 inp db = (res, db'')" by fastforce
  let ?free = "\<forall>r \<in> set (provider_profiles db). pr_profile_id r \<noteq> profile_id \<and> pr_credential_ref r \<noteq> cref
        \<and> (pr_owner r, pr_display_name r) \<noteq> (owner, in_display_name inp)"
  have "(?free \<longleftrightarrow> is_ok res) \<and> (is_ok res \<longrightarrow>
      res = Inr (record_of_input owner profile_id cref last4 1 now now inp)
      \<and> profiles_get h owner profile_id db'' = res)"
    using i
  proof (cases rule: profiles_insert_cases)
    case (conflict e)
    then show ?thesis by (auto simp: profile_conflict_def)
  next
    case (inserted row)
    have "profile_row_to_record h row = Inr (record_of_input owner profile_id cref last4 1 now now inp)"
      using assms by (simp add: inserted(1) profile_row_to_record_def record_of_input_def new_profile_row_def)
    with inserted show ?thesis by (auto simp: profile_conflict_def)
  qed
  then show ?thesis using i by auto
qed

definition sample_profile_input :: profile_input where
  "sample_profile_input = \<lparr>in_preset_id = None, in_display_name = [110], in_protocol = OpenaiChat,
     in_base_url = [117], in_auth_kind = BearerApiKey, in_enabled_models = [[109]]\<rparr>"

lemma profile_insert_get_witness:
  "is_ok (fst (profiles_insert sample_env [48] 7 [112] [99] [52] sample_profile_input empty_db))"
  using profile_insert_get [of sample_env sample_profile_input empty_db "[112]" "[99]" 7 "[48]" "[52]"]
  by (simp add: sample_env_def sample_profile_input_def empty_db_def)

lemma profile_key_unique:
  assumes "profiles_ok db"
  shows "count_where (profile_key owner profile_id) (provider_profiles db)
    = (if list_ex (profile_key owner profile_id) (provider_profiles db) then 1 else 0)"
  using assms by (intro unique_on_count [of pr_profile_id]) (auto simp: profiles_ok_def profile_key_def)

text \<open>an update replaces what the user can edit and nothing else: identifier, owner, credential and
  creation time stay, and the route revision grows by one exactly when the preset, protocol, endpoint,
  authentication or models change, so that a rename leaves bound routes valid. All other profiles keep
  their rows.\<close>

theorem profile_update_revision:
  assumes "profiles_ok db" "profiles_get h owner profile_id db = Inr current"
    and "models_from_json h (models_to_json h (in_enabled_models inp)) = Some (in_enabled_models inp)"
    and "profiles_update h now owner profile_id inp db = (Inr record, db')"
  shows "record = record_of_input owner profile_id (pp_credential_ref current) (pp_credential_last_four current)
       (pp_route_revision record) (pp_created_at current) now inp
    \<and> pp_route_revision record = pp_route_revision current + (if route_changed current inp then 1 else 0)
    \<and> profiles_get h owner profile_id db' = Inr record
    \<and> filter (\<lambda>r. \<not> profile_key owner profile_id r) (provider_profiles db')
       = filter (\<lambda>r. \<not> profile_key owner profile_id r) (provider_profiles db)"
  using assms(4)
proof (cases rule: profiles_update_cases)
  case (updated current' revision)
  let ?key = "profile_key owner profile_id" and ?w = "profile_write h now inp revision"
  from updated(1) assms(2) have c: "current' = current" by simp
  from assms(2) obtain row where row: "find ?key (provider_profiles db) = Some row"
    "profile_row_to_record h row = Inr current" by (auto simp: profiles_get_def split: option.splits)
  then have k: "pr_owner row = owner" "pr_profile_id row = profile_id"
    "pp_credential_ref current = pr_credential_ref row" "pp_created_at current = pr_created_at row"
    "pp_credential_last_four current = pr_credential_last_four row"
    by (auto simp: profile_row_to_record_def result_simps profile_key_def dest: find_SomeD)
  have f: "find ?key (update_where ?key ?w (provider_profiles db)) = Some (?w row)"
    using row(1) find_SomeD [OF row(1)] by (subst find_update_where) (auto simp: profile_key_def)
  have g: "profiles_get h owner profile_id db' = Inr (record_of_input owner profile_id
      (pp_credential_ref current) (pp_credential_last_four current) revision (pp_created_at current) now inp)"
    using assms(3) k f unfolding updated(4)
    by (simp add: profiles_get_def profile_row_to_record_def record_of_input_def profile_write_def)
  have "filter (\<lambda>r. \<not> ?key r) (update_where ?key ?w (provider_profiles db))
      = filter (\<lambda>r. \<not> ?key r) (provider_profiles db)"
    by (intro filter_update_where_other) (auto simp: profile_key_def)
  with g updated(2,4,6) c show ?thesis by (auto simp: record_of_input_def next_route_revision_def)
qed simp

lemma profile_update_revision_witness:
  "pp_route_revision (record_of_input 7 [112] [99] [52] 2 [48] [49] (sample_profile_input\<lparr>in_base_url := [118]\<rparr>)) = 2"
proof -
  obtain rec db where ins: "profiles_insert sample_env [48] 7 [112] [99] [52] sample_profile_input empty_db = (Inr rec, db)"
    using profile_insert_get_witness by (cases "profiles_insert sample_env [48] 7 [112] [99] [52] sample_profile_input empty_db")
      (auto simp: is_ok_def split: sum.splits)
  let ?inp = "sample_profile_input\<lparr>in_base_url := [118]\<rparr>"
  have db: "db = empty_db\<lparr>provider_profiles := [new_profile_row sample_env [48] 7 [112] [99] [52] sample_profile_input]\<rparr>"
    using ins by (simp add: profiles_insert_def empty_db_def Let_def)
  have ok: "profiles_ok db" using profiles_ok_insert [OF _ ins] by (simp add: profiles_ok_def empty_db_def)
  have g: "profiles_get sample_env 7 [112] db = Inr (record_of_input 7 [112] [99] [52] 1 [48] [48] sample_profile_input)"
    unfolding db by (simp add: profiles_get_def profile_key_def new_profile_row_def profile_row_to_record_def
        record_of_input_def sample_env_def sample_profile_input_def protocol_parse_def auth_kind_parse_def)
  have u: "profiles_update sample_env [49] 7 [112] ?inp db = (Inr (record_of_input 7 [112] [99] [52] 2 [48] [49] ?inp),
      empty_db\<lparr>provider_profiles := [profile_write sample_env [49] ?inp 2
        (new_profile_row sample_env [48] 7 [112] [99] [52] sample_profile_input)]\<rparr>)"
    unfolding profiles_update_def g
    by (simp add: db to_sql_u64_def sql_int_max_def next_route_revision_def route_changed_def
        record_of_input_def sample_profile_input_def profile_key_def new_profile_row_def
        update_where_def count_where_def profile_write_def profiles_get_def profile_row_to_record_def sample_env_def
        protocol_parse_def auth_kind_parse_def)
  from profile_update_revision [OF ok g _ u] show ?thesis
    by (simp add: record_of_input_def sample_env_def sample_profile_input_def)
qed

text \<open>deleting a profile removes exactly its row and, through the foreign key, every assignment that
  uses it; it succeeds exactly when the account has the profile, and afterwards the profile cannot be
  read any more.\<close>

theorem profile_delete_cascades:
  assumes "profiles_ok db" "profiles_delete owner profile_id db = (res, db')"
  shows "(res = Inr () \<longleftrightarrow> list_ex (profile_key owner profile_id) (provider_profiles db))
    \<and> profiles_get h owner profile_id db' = Inl (Bail ''provider profile not found'')
    \<and> provider_profiles db' = filter (\<lambda>r. \<not> profile_key owner profile_id r) (provider_profiles db)
    \<and> (res = Inr () \<longrightarrow> model_assignments db'
         = filter (\<lambda>a. as_provider_profile_id a \<noteq> profile_id) (model_assignments db))
    \<and> (res \<noteq> Inr () \<longrightarrow> db' = db)"
proof -
  let ?key = "profile_key owner profile_id"
  have db': "db' = db\<lparr>provider_profiles := delete_where ?key (provider_profiles db),
        model_assignments := delete_where
          (\<lambda>a. list_ex ?key (provider_profiles db) \<and> as_provider_profile_id a = profile_id)
          (model_assignments db)\<rparr>"
    using profiles_delete_db [of owner profile_id db] assms(2) by simp
  have r: "res = Inr () \<longleftrightarrow> list_ex ?key (provider_profiles db)"
  proof -
    have "fst (profiles_delete owner profile_id db) = Inr ()
        \<longleftrightarrow> count_where ?key (provider_profiles db) = 1"
      by (simp add: profiles_delete_def Let_def)
    with assms(2) show ?thesis
      by (simp only: profile_key_unique [OF assms(1)] fst_conv) simp
  qed
  have none: "delete_where ?key (provider_profiles db) = provider_profiles db"
    if "\<not> list_ex ?key (provider_profiles db)"
    using that by (auto simp: delete_where_def list_ex_iff filter_id_conv)
  have "find ?key (delete_where ?key (provider_profiles db)) = None"
    by (auto simp: find_None_iff delete_where_def)
  with r none show ?thesis unfolding db'
    by (auto simp: profiles_get_def delete_where_def)
qed

lemma profile_delete_cascades_witness:
  "fst (profiles_delete 7 [112] empty_db) \<noteq> Inr ()"
  using profile_delete_cascades [of empty_db 7 "[112]" "fst (profiles_delete 7 [112] empty_db)"
      "snd (profiles_delete 7 [112] empty_db)"]
  by (simp add: profiles_ok_def empty_db_def)

end
