(* ===== verification/Catalog_Policy.thy ===== *)
theory Catalog_Policy
  imports Provider_Profiles
begin

text \<open>
  \<open>provider_catalog.rs\<close> and \<open>model_policy.rs\<close>: validation and normalisation of the
  Provider Catalog, lookups in it, and the evaluation of an Agent's model policy against the
  capabilities of a model.
\<close>

section \<open>Catalog validation\<close>

definition catalog_identifier_byte :: "nat \<Rightarrow> bool" where
  "catalog_identifier_byte b \<longleftrightarrow> is_ascii_alphanumeric b \<or> b \<in> set (lit ''-_./'')"

definition validate_catalog_identifier :: "rstr \<Rightarrow> string \<Rightarrow> host_error + unit" where
  "validate_catalog_identifier value label =
     bail_if (value = [] \<or> str_len value > 200 \<or> \<not> list_all catalog_identifier_byte (str_bytes value))
       (Bailf ''{label} is invalid'' [lit label])"

definition validate_display_name :: "rstr \<Rightarrow> string \<Rightarrow> host_error + unit" where
  "validate_display_name value label =
     bail_if (trim value = [] \<or> length (trim value) > 100) (Bailf ''{label} is invalid'' [lit label])"

definition origin_from_base_url :: "host_env \<Rightarrow> rstr \<Rightarrow> host_error + rstr" where
  "origin_from_base_url h value =
     and_then (normalize_base_url h value) (\<lambda>normalized.
     and_then (ok_or (url_parse h normalized) (Foreign ''url'')) (\<lambda>url.
     Inr (url_origin url)))"

definition normalize_origin :: "host_env \<Rightarrow> rstr \<Rightarrow> host_error + rstr" where
  "normalize_origin h value =
     and_then (normalize_base_url h value) (\<lambda>normalized.
     and_then (ok_or (url_parse h normalized) (Foreign ''url'')) (\<lambda>url.
     and_then (bail_if (url_path url \<noteq> [47])
       (Bail ''Provider Catalog endpoint origins must not contain a path'')) (\<lambda>_.
     Inr (url_origin url))))"

text \<open>The loops over origins and models keep the set of what they have seen.\<close>

fun normalize_origins :: "host_env \<Rightarrow> rstr list \<Rightarrow> rstr list \<Rightarrow> host_error + rstr list" where
  "normalize_origins h seen [] = Inr []"
| "normalize_origins h seen (x # xs) =
     and_then (normalize_origin h x) (\<lambda>o'.
     and_then (bail_if (o' \<in> set seen)
       (Bail ''Provider Catalog contains duplicate endpoint origins'')) (\<lambda>_.
     and_then (normalize_origins h (o' # seen) xs) (\<lambda>rest. Inr (o' # rest))))"

fun normalize_catalog_models :: "rstr list \<Rightarrow> catalog_model list \<Rightarrow> host_error + catalog_model list" where
  "normalize_catalog_models seen [] = Inr []"
| "normalize_catalog_models seen (m # ms) =
     and_then (normalize_model_id (cm_model_id m)) (\<lambda>id'.
     and_then (validate_display_name (cm_display_name m) ''model display name'') (\<lambda>_.
     and_then (bail_if (id' \<in> set seen) (Bail ''Provider Catalog contains duplicate model ids'')) (\<lambda>_.
     and_then (bail_if (cap_context_window (cm_capability m) = Some 0
         \<or> cap_max_output_tokens (cm_capability m) = Some 0)
       (Bail ''model token limits must be positive'')) (\<lambda>_.
     and_then (bail_if (cap_source (cm_capability m) \<noteq> FromCatalog)
       (Bail ''built-in Provider Catalog cannot claim runtime capability evidence'')) (\<lambda>_.
     and_then (normalize_catalog_models (id' # seen) ms) (\<lambda>rest.
     Inr (m\<lparr>cm_model_id := id'\<rparr> # rest)))))))"

definition validate_official :: "host_env \<Rightarrow> provider_preset \<Rightarrow> rstr option \<Rightarrow> rstr list \<Rightarrow> host_error + unit" where
  "validate_official h p default_base_url origins =
    (if ps_classification p = Official then
       and_then (ok_or default_base_url
         (Bail ''official Provider presets require a default base URL'')) (\<lambda>url.
       and_then (origin_from_base_url h url) (\<lambda>default_origin.
       bail_if (default_origin \<notin> set origins)
         (Bail ''official Provider default endpoint must be explicitly allowlisted'')))
     else Inr ())"

definition normalize_preset :: "host_env \<Rightarrow> rstr list \<Rightarrow> provider_preset \<Rightarrow> host_error + provider_preset" where
  "normalize_preset h preset_ids p =
     and_then (validate_catalog_identifier (ps_preset_id p) ''Provider preset id'') (\<lambda>_.
     and_then (validate_display_name (ps_display_name p) ''Provider display name'') (\<lambda>_.
     and_then (bail_if (ps_preset_id p \<in> set preset_ids)
       (Bail ''Provider Catalog contains duplicate preset ids'')) (\<lambda>_.
     and_then (case ps_default_base_url p of None \<Rightarrow> Inr None
               | Some u \<Rightarrow> and_then (normalize_base_url h u) (\<lambda>u. Inr (Some u))) (\<lambda>default_base_url.
     and_then (normalize_origins h [] (ps_allowed_endpoint_origins p)) (\<lambda>origins.
     and_then (validate_official h p default_base_url origins) (\<lambda>_.
     and_then (bail_if (\<not> distinct (ps_quirks p)) (Bail ''Provider Catalog contains duplicate quirks'')) (\<lambda>_.
     and_then (normalize_catalog_models [] (ps_models p)) (\<lambda>models.
     Inr (p\<lparr>ps_default_base_url := default_base_url, ps_allowed_endpoint_origins := origins,
            ps_models := models\<rparr>)))))))))"

fun normalize_presets :: "host_env \<Rightarrow> rstr list \<Rightarrow> provider_preset list \<Rightarrow> host_error + provider_preset list" where
  "normalize_presets h preset_ids [] = Inr []"
| "normalize_presets h preset_ids (p # ps) =
     and_then (normalize_preset h preset_ids p) (\<lambda>p'.
     and_then (normalize_presets h (ps_preset_id p # preset_ids) ps) (\<lambda>rest. Inr (p' # rest)))"

definition validate_and_normalize :: "host_env \<Rightarrow> provider_catalog \<Rightarrow> host_error + provider_catalog" where
  "validate_and_normalize h c =
     and_then (bail_if (pc_schema_version c \<noteq> 1)
       (Bail ''unsupported Provider Catalog schema version'')) (\<lambda>_.
     and_then (bail_if (pc_catalog_revision c = 0)
       (Bail ''Provider Catalog revision must be positive'')) (\<lambda>_.
     and_then (bail_if (pc_providers c = [] \<or> length (pc_providers c) > 128)
       (Bail ''Provider Catalog must contain 1 to 128 providers'')) (\<lambda>_.
     and_then (normalize_presets h [] (pc_providers c)) (\<lambda>providers.
     Inr (c\<lparr>pc_providers := providers\<rparr>)))))"

text \<open>\<open>parse_and_validate\<close>; \<open>decoded\<close> is the document as \<open>serde_json\<close> decodes it.\<close>

definition catalog_parse_and_validate :: "host_env \<Rightarrow> provider_catalog option \<Rightarrow> host_error + provider_catalog" where
  "catalog_parse_and_validate h decoded =
     and_then (ok_or decoded (Foreign ''serde_json'')) (validate_and_normalize h)"

datatype catalog_load_status = TrustedDocument | BuiltinFallback

definition from_trusted_document_or_builtin ::
  "host_env \<Rightarrow> provider_catalog \<Rightarrow> provider_catalog option \<Rightarrow> provider_catalog \<times> catalog_load_status" where
  "from_trusted_document_or_builtin h builtin decoded =
    (case catalog_parse_and_validate h decoded of
       Inr catalog \<Rightarrow> (catalog, TrustedDocument)
     | Inl _ \<Rightarrow> (builtin, BuiltinFallback))"

definition catalog_provider :: "provider_catalog \<Rightarrow> rstr \<Rightarrow> provider_preset option" where
  "catalog_provider c preset_id = find (\<lambda>p. ps_preset_id p = preset_id) (pc_providers c)"

definition preset_model :: "provider_preset \<Rightarrow> rstr \<Rightarrow> catalog_model option" where
  "preset_model p model_id = find (\<lambda>m. cm_model_id m = model_id) (ps_models p)"

definition catalog_model_of :: "provider_catalog \<Rightarrow> rstr \<Rightarrow> rstr \<Rightarrow> catalog_model option" where
  "catalog_model_of c preset_id model_id =
    (case catalog_provider c preset_id of None \<Rightarrow> None | Some p \<Rightarrow> preset_model p model_id)"

section \<open>Policy evaluation\<close>

record policy_evaluation =
  pe_blockers :: "rstr list"
  pe_unmet_preferences :: "rstr list"

definition is_compatible :: "policy_evaluation \<Rightarrow> bool" where
  "is_compatible e \<longleftrightarrow> pe_blockers e = []"

fun status_debug :: "capability_status \<Rightarrow> string" where
  "status_debug Supported = ''Supported''"
| "status_debug Unsupported = ''Unsupported''"
| "status_debug UnknownStatus = ''Unknown''"

definition requirement_detail :: "string \<Rightarrow> capability_status \<Rightarrow> rstr" where
  "requirement_detail name status =
     to_ascii_lowercase (lit name @ lit '' is '' @ lit (status_debug status))"

definition evaluate_requirement ::
  "string \<Rightarrow> capability_requirement \<Rightarrow> capability_status \<Rightarrow> policy_evaluation \<Rightarrow> policy_evaluation" where
  "evaluate_requirement name requirement status e =
    (if status = Supported then e
     else case requirement of
       Required \<Rightarrow> e\<lparr>pe_blockers := pe_blockers e @ [requirement_detail name status]\<rparr>
     | Preferred \<Rightarrow> e\<lparr>pe_unmet_preferences := pe_unmet_preferences e @ [requirement_detail name status]\<rparr>
     | OptionalReq \<Rightarrow> e)"

definition evaluate_context_window ::
  "nat option \<Rightarrow> nat option \<Rightarrow> policy_evaluation \<Rightarrow> policy_evaluation" where
  "evaluate_context_window requirement declared e =
    (case requirement of
       None \<Rightarrow> e
     | Some required \<Rightarrow>
         (case declared of
            Some actual \<Rightarrow>
              if actual \<ge> required then e
              else e\<lparr>pe_blockers := pe_blockers e @
                [lit ''context_window requires at least '' @ nat_to_str required
                 @ lit '' tokens but model declares '' @ nat_to_str actual]\<rparr>
          | None \<Rightarrow>
              e\<lparr>pe_blockers := pe_blockers e @
                [lit ''context_window requires at least '' @ nat_to_str required
                 @ lit '' tokens but capability is unknown'']\<rparr>))"

definition evaluate_policy :: "agent_model_policy \<Rightarrow> model_capability \<Rightarrow> policy_evaluation" where
  "evaluate_policy pol cap =
    (let e = \<lparr>pe_blockers = [], pe_unmet_preferences = []\<rparr>;
         e = evaluate_requirement ''tools'' (pol_tools pol) (cap_tools cap) e;
         e = evaluate_requirement ''parallel_tool_calls''
               (pol_parallel_tool_calls pol) (cap_parallel_tool_calls cap) e;
         e = evaluate_requirement ''vision'' (pol_vision pol) (cap_vision cap) e;
         e = evaluate_requirement ''structured_output''
               (pol_structured_output pol) (cap_structured_output cap) e;
         e = evaluate_requirement ''reasoning'' (pol_reasoning pol) (cap_reasoning cap) e;
         e = evaluate_requirement ''streaming'' (pol_streaming pol) (cap_streaming cap) e in
     evaluate_context_window (pol_min_context_window pol) (cap_context_window cap) e)"

section \<open>What a validated catalog guarantees\<close>

lemma normalize_origins_distinct:
  "normalize_origins h seen xs = Inr ys \<Longrightarrow> distinct ys \<and> set ys \<inter> set seen = {}"
proof (induction h seen xs arbitrary: ys rule: normalize_origins.induct)
  case (2 h seen x xs)
  then obtain o' rest where r: "normalize_origin h x = Inr o'" "o' \<notin> set seen"
      "normalize_origins h (o' # seen) xs = Inr rest" "ys = o' # rest"
    by (auto simp: result_simps)
  from "2.IH" [OF r(3)] r(2,4) show ?case by auto
qed simp

lemma normalize_catalog_models_ok:
  "normalize_catalog_models seen ms = Inr ys \<Longrightarrow> distinct (map cm_model_id ys) \<and> cm_model_id ` set ys \<inter> set seen = {}
     \<and> (\<forall>m \<in> set ys. cap_context_window (cm_capability m) \<noteq> Some 0 \<and> cap_max_output_tokens (cm_capability m) \<noteq> Some 0
          \<and> cap_source (cm_capability m) = FromCatalog \<and> list_all model_id_byte (str_bytes (cm_model_id m)))"
proof (induction seen ms arbitrary: ys rule: normalize_catalog_models.induct)
  case (2 seen m ms)
  then obtain i rest where r: "normalize_model_id (cm_model_id m) = Inr i" "i \<notin> set seen"
      "cap_context_window (cm_capability m) \<noteq> Some 0" "cap_max_output_tokens (cm_capability m) \<noteq> Some 0"
      "cap_source (cm_capability m) = FromCatalog"
      "validate_display_name (cm_display_name m) ''model display name'' = Inr ()"
      "normalize_catalog_models (i # seen) ms = Inr rest" "ys = m\<lparr>cm_model_id := i\<rparr> # rest"
    by (auto simp: result_simps)
  have "list_all model_id_byte (str_bytes i)"
    using r(1) by (auto simp: normalize_model_id_def Let_def split: if_splits)
  with "2.IH" [OF r(7)] r(2-5,8) show ?case by auto
qed simp

definition preset_ok :: "host_env \<Rightarrow> provider_preset \<Rightarrow> bool" where
  "preset_ok h p \<longleftrightarrow> distinct (ps_allowed_endpoint_origins p) \<and> distinct (ps_quirks p)
     \<and> distinct (map cm_model_id (ps_models p))
     \<and> list_all (\<lambda>m. cap_context_window (cm_capability m) \<noteq> Some 0 \<and> cap_max_output_tokens (cm_capability m) \<noteq> Some 0
          \<and> cap_source (cm_capability m) = FromCatalog \<and> list_all model_id_byte (str_bytes (cm_model_id m))) (ps_models p)
     \<and> (ps_classification p = Official \<longrightarrow> (\<exists>url origin. ps_default_base_url p = Some url
          \<and> origin_from_base_url h url = Inr origin \<and> origin \<in> set (ps_allowed_endpoint_origins p)))"

lemma normalize_preset_ok:
  assumes "normalize_preset h ids p = Inr p'"
  shows "preset_ok h p'" "ps_preset_id p' = ps_preset_id p" "ps_preset_id p \<notin> set ids"
proof -
  from assms obtain url origins models where
    o': "normalize_origins h [] (ps_allowed_endpoint_origins p) = Inr origins"
    and v: "validate_official h p url origins = Inr ()"
    and m: "normalize_catalog_models [] (ps_models p) = Inr models"
    and q: "distinct (ps_quirks p)" "ps_preset_id p \<notin> set ids"
    and p': "p' = p\<lparr>ps_default_base_url := url, ps_allowed_endpoint_origins := origins, ps_models := models\<rparr>"
    by (auto simp: normalize_preset_def result_simps)
  show "preset_ok h p'"
    using normalize_origins_distinct [OF o'] normalize_catalog_models_ok [OF m] v q
    by (auto simp: preset_ok_def p' validate_official_def result_simps list_all_iff split: if_splits)
  show "ps_preset_id p' = ps_preset_id p" "ps_preset_id p \<notin> set ids" using q p' by simp_all
qed

lemma normalize_presets_ok:
  "normalize_presets h ids ps = Inr qs \<Longrightarrow> list_all (preset_ok h) qs \<and> distinct (map ps_preset_id qs)
     \<and> ps_preset_id ` set qs \<inter> set ids = {} \<and> length qs = length ps"
proof (induction h ids ps arbitrary: qs rule: normalize_presets.induct)
  case (2 h ids p ps)
  then obtain p' rest where r: "normalize_preset h ids p = Inr p'"
      "normalize_presets h (ps_preset_id p # ids) ps = Inr rest" "qs = p' # rest"
    by (auto simp: result_simps)
  from "2.IH" [OF r(2)] normalize_preset_ok [OF r(1)] r(3) show ?case by auto
qed simp

lemma find_distinct: "distinct (map f xs) \<Longrightarrow> x \<in> set xs \<Longrightarrow> find (\<lambda>y. f y = f x) xs = Some x"
  by (induction xs) auto

text \<open>a catalog that passes validation is well formed: 1 to 128 providers with distinct identifiers and
  a positive revision; in each, endpoint origins, quirks and model identifiers are distinct, token limits
  positive, the capabilities claim no runtime evidence, an official provider's default endpoint is in its
  own allowlist; and every model is found by looking up its provider and identifier.\<close>

theorem validated_catalog_is_well_formed:
  assumes "validate_and_normalize h c = Inr c'"
  shows "pc_schema_version c' = 1 \<and> 0 < pc_catalog_revision c' \<and> 1 \<le> length (pc_providers c')
    \<and> length (pc_providers c') \<le> 128 \<and> distinct (map ps_preset_id (pc_providers c'))
    \<and> (\<forall>p \<in> set (pc_providers c'). preset_ok h p \<and> catalog_provider c' (ps_preset_id p) = Some p
        \<and> (\<forall>m \<in> set (ps_models p). catalog_model_of c' (ps_preset_id p) (cm_model_id m) = Some m))"
proof -
  from assms obtain qs where n: "normalize_presets h [] (pc_providers c) = Inr qs" "c' = c\<lparr>pc_providers := qs\<rparr>"
    and v: "pc_schema_version c = 1" "pc_catalog_revision c \<noteq> 0" "pc_providers c \<noteq> []" "length (pc_providers c) \<le> 128"
    by (auto simp: validate_and_normalize_def result_simps)
  note qs = normalize_presets_ok [OF n(1)]
  have f: "catalog_provider c' (ps_preset_id p) = Some p" if "p \<in> set qs" for p
    using find_distinct [of ps_preset_id qs p] qs that by (simp add: catalog_provider_def n(2))
  have "catalog_model_of c' (ps_preset_id p) (cm_model_id m) = Some m" if "p \<in> set qs" "m \<in> set (ps_models p)" for p m
    using find_distinct [of cm_model_id "ps_models p" m] qs that f [OF that(1)]
    by (auto simp: catalog_model_of_def preset_model_def preset_ok_def list_all_iff)
  with f qs v n(2) show ?thesis by (auto simp: list_all_iff Suc_le_eq)
qed

section \<open>Policies\<close>

definition requirements :: "agent_model_policy \<Rightarrow> model_capability \<Rightarrow> (capability_requirement \<times> capability_status) list" where
  "requirements pol cap = [(pol_tools pol, cap_tools cap), (pol_parallel_tool_calls pol, cap_parallel_tool_calls cap),
     (pol_vision pol, cap_vision cap), (pol_structured_output pol, cap_structured_output cap),
     (pol_reasoning pol, cap_reasoning cap), (pol_streaming pol, cap_streaming cap)]"

lemma evaluate_requirement_lengths:
  "pe_blockers (evaluate_requirement name req st e) = [] \<longleftrightarrow> pe_blockers e = [] \<and> (req = Required \<longrightarrow> st = Supported)"
  "length (pe_unmet_preferences (evaluate_requirement name req st e))
     = length (pe_unmet_preferences e) + (if req = Preferred \<and> st \<noteq> Supported then 1 else 0)"
  by (cases req; simp add: evaluate_requirement_def)+

lemma evaluate_context_window_lengths:
  "pe_blockers (evaluate_context_window req cw e) = [] \<longleftrightarrow> pe_blockers e = []
     \<and> (case req of None \<Rightarrow> True | Some n \<Rightarrow> (case cw of None \<Rightarrow> False | Some m \<Rightarrow> n \<le> m))"
  "pe_unmet_preferences (evaluate_context_window req cw e) = pe_unmet_preferences e"
  by (auto simp: evaluate_context_window_def split: option.splits)

text \<open>policy evaluation fails closed: a model is compatible exactly when every required capability is
  verified as supported, unknown counting as missing, and a required context window is declared and large
  enough; preferences never block, and each unmet one is reported.\<close>

theorem policy_compatible_iff:
  "(is_compatible (evaluate_policy pol cap) \<longleftrightarrow>
      list_all (\<lambda>(req, st). req \<noteq> Required \<or> st = Supported) (requirements pol cap)
      \<and> (case pol_min_context_window pol of None \<Rightarrow> True
         | Some n \<Rightarrow> (case cap_context_window cap of None \<Rightarrow> False | Some m \<Rightarrow> n \<le> m)))
    \<and> length (pe_unmet_preferences (evaluate_policy pol cap))
      = length (filter (\<lambda>(req, st). req = Preferred \<and> st \<noteq> Supported) (requirements pol cap))"
  by (auto simp: is_compatible_def evaluate_policy_def Let_def requirements_def evaluate_requirement_lengths
      evaluate_context_window_lengths)

section \<open>A concrete catalog\<close>

definition sample_preset :: provider_preset where
  "sample_preset = \<lparr>ps_preset_id = [111], ps_display_name = [79], ps_classification = Official,
     ps_protocol = OpenaiChat, ps_default_base_url = Some [117], ps_auth_kind = BearerApiKey,
     ps_allowed_endpoint_origins = [[117]], ps_quirks = [],
     ps_models = [\<lparr>cm_model_id = [109], cm_display_name = [77],
       cm_capability = unknown_capability\<lparr>cap_context_window := Some 8000\<rparr>\<rparr>]\<rparr>"

definition sample_catalog :: provider_catalog where
  "sample_catalog = \<lparr>pc_schema_version = 1, pc_catalog_revision = 1, pc_providers = [sample_preset]\<rparr>"

lemma sample_catalog_valid: "validate_and_normalize sample_env sample_catalog = Inr sample_catalog"
proof -
  have url: "normalize_base_url sample_env [117] = Inr [117]"
    by (simp add: normalize_base_url_def sample_env_def sample_url_def trim_def trim_start_def trim_end_def
        is_whitespace_def trim_end_matches_def)
  have o': "normalize_origin sample_env [117] = Inr [117]" "origin_from_base_url sample_env [117] = Inr [117]"
    by (simp_all add: normalize_origin_def origin_from_base_url_def url) (simp_all add: sample_env_def sample_url_def)
  have m: "normalize_model_id [109] = Inr [109]"
    by (simp add: normalize_model_id_def trim_def trim_start_def trim_end_def
        is_whitespace_def str_len_def str_bytes_def utf8_encode_def model_id_byte_def is_ascii_alphanumeric_def
        is_ascii_digit_def is_ascii_lowercase_def)
  have i: "validate_catalog_identifier [111] l = Inr ()" "validate_display_name [79] l = Inr ()"
    "validate_display_name [77] l = Inr ()" for l
    by (simp_all add: validate_catalog_identifier_def validate_display_name_def trim_def trim_start_def trim_end_def
        is_whitespace_def str_len_def str_bytes_def utf8_encode_def catalog_identifier_byte_def is_ascii_alphanumeric_def
        is_ascii_digit_def is_ascii_lowercase_def)
  show ?thesis
    by (simp add: validate_and_normalize_def sample_catalog_def sample_preset_def normalize_preset_def i url o'
        validate_official_def m unknown_capability_def)
qed

lemma validated_catalog_is_well_formed_witness:
  "catalog_model_of sample_catalog [111] [109] = Some (hd (ps_models sample_preset))"
  using validated_catalog_is_well_formed [OF sample_catalog_valid]
  by (simp add: sample_catalog_def sample_preset_def)

lemma policy_compatible_iff_witness:
  "\<not> is_compatible (evaluate_policy (default_policy\<lparr>pol_tools := Required\<rparr>) unknown_capability)"
  using policy_compatible_iff [of "default_policy\<lparr>pol_tools := Required\<rparr>" unknown_capability]
  by (simp add: requirements_def default_policy_def unknown_capability_def)

end
