(* ===== verification/Model_Assignments.thy ===== *)
theory Model_Assignments
  imports Provider_Profiles
begin

text \<open>
  \<open>model_assignments.rs\<close>: which provider profile and model an account uses for a role,
  globally, for one agent or for one session, and the resolution that prefers the narrowest
  scope.
\<close>

datatype scope_kind = ScopeGlobal | ScopeAgent | ScopeSession

fun scope_as_str :: "scope_kind \<Rightarrow> string" where
  "scope_as_str ScopeGlobal = ''global''"
| "scope_as_str ScopeAgent = ''agent''"
| "scope_as_str ScopeSession = ''session''"

definition scope_parse :: "rstr \<Rightarrow> host_error + scope_kind" where
  "scope_parse v =
    (if v = lit ''global'' then Inr ScopeGlobal
     else if v = lit ''agent'' then Inr ScopeAgent
     else if v = lit ''session'' then Inr ScopeSession
     else Inl (Bail ''unsupported model assignment scope''))"

lemma scope_parse_as_str [simp]: "scope_parse (lit (scope_as_str k)) = Inr k"
  by (cases k) (simp_all add: scope_parse_def)

lemmas scope_parse_lits [simp] = scope_parse_as_str [of ScopeGlobal, unfolded scope_as_str.simps]
  scope_parse_as_str [of ScopeAgent, unfolded scope_as_str.simps]
  scope_parse_as_str [of ScopeSession, unfolded scope_as_str.simps]

lemma scope_as_str_inj [simp]: "scope_as_str k = scope_as_str k' \<longleftrightarrow> k = k'"
  by (cases k; cases k') simp_all

record assignment_input =
  ain_scope_kind :: scope_kind
  ain_scope_id :: "rstr option"
  ain_role :: rstr
  ain_provider_profile_id :: rstr
  ain_model_id :: rstr

definition identifier_byte :: "nat \<Rightarrow> bool" where
  "identifier_byte b \<longleftrightarrow> is_ascii_alphanumeric b \<or> b \<in> set (lit ''-_./'')"

definition normalized_identifier :: "string \<Rightarrow> rstr \<Rightarrow> host_error + rstr" where
  "normalized_identifier label value =
    (let value = trim value in
     if value = [] \<or> str_len value > 200 \<or> \<not> list_all identifier_byte (str_bytes value)
     then Inl (Bailf ''{label} is invalid'' [lit label])
     else Inr value)"

definition assignment_input_normalized :: "assignment_input \<Rightarrow> host_error + assignment_input" where
  "assignment_input_normalized inp =
    (let scope_id = (case ain_scope_id inp of None \<Rightarrow> None
                     | Some v \<Rightarrow> if trim v = [] then None else Some (trim v)) in
     if ain_scope_kind inp = ScopeGlobal \<and> scope_id \<noteq> None then
       Inl (Bail ''global model assignments must not have a scope id'')
     else if ain_scope_kind inp \<in> {ScopeAgent, ScopeSession} \<and> scope_id = None then
       Inl (Bail ''agent and session model assignments require a scope id'')
     else if (case scope_id of None \<Rightarrow> False | Some v \<Rightarrow> length v > 200 \<or> list_ex is_control v) then
       Inl (Bail ''model assignment scope id is too long'')
     else and_then (normalized_identifier ''model role'' (ain_role inp)) (\<lambda>role.
       and_then (normalized_identifier ''provider profile id'' (ain_provider_profile_id inp)) (\<lambda>profile_id.
       and_then (normalize_model_id (ain_model_id inp)) (\<lambda>model_id.
         Inr (inp\<lparr>ain_scope_id := scope_id, ain_role := role,
                  ain_provider_profile_id := profile_id, ain_model_id := model_id\<rparr>)))))"

definition database_scope_id :: "assignment_input \<Rightarrow> rstr" where
  "database_scope_id inp = (case ain_scope_id inp of None \<Rightarrow> [] | Some v \<Rightarrow> v)"

record assignment_record =
  ma_assignment_id :: rstr
  ma_owner :: int
  ma_scope_kind :: scope_kind
  ma_scope_id :: "rstr option"
  ma_role :: rstr
  ma_provider_profile_id :: rstr
  ma_model_id :: rstr
  ma_revision :: nat
  ma_created_at :: rstr
  ma_updated_at :: rstr

definition assignment_row_to_record :: "assignment_row \<Rightarrow> host_error + assignment_record" where
  "assignment_row_to_record row =
     and_then (map_err (\<lambda>_. Sql (FromSqlConversion 2)) (scope_parse (as_scope_kind row))) (\<lambda>kind.
     Inr \<lparr>ma_assignment_id = as_assignment_id row, ma_owner = as_owner row, ma_scope_kind = kind,
          ma_scope_id = (if as_scope_id row = [] then None else Some (as_scope_id row)),
          ma_role = as_role row, ma_provider_profile_id = as_provider_profile_id row,
          ma_model_id = as_model_id row, ma_revision = as_revision row,
          ma_created_at = as_created_at row, ma_updated_at = as_updated_at row\<rparr>)"

definition assignment_key :: "int \<Rightarrow> scope_kind \<Rightarrow> rstr \<Rightarrow> rstr \<Rightarrow> assignment_row \<Rightarrow> bool" where
  "assignment_key owner kind scope_id role r \<longleftrightarrow> as_owner r = owner
     \<and> as_scope_kind r = lit (scope_as_str kind) \<and> as_scope_id r = scope_id \<and> as_role r = role"

definition get_exact ::
  "int \<Rightarrow> scope_kind \<Rightarrow> rstr \<Rightarrow> rstr \<Rightarrow> state_db \<Rightarrow> host_error + assignment_record option" where
  "get_exact owner kind scope_id role db =
     (case find (assignment_key owner kind scope_id role) (model_assignments db) of
        None \<Rightarrow> Inr None
      | Some row \<Rightarrow> and_then (assignment_row_to_record row) (\<lambda>r. Inr (Some r)))"

definition assignments_list :: "int \<Rightarrow> state_db \<Rightarrow> host_error + assignment_record list" where
  "assignments_list owner db =
     with_context ''read AgentMesh360 model assignments''
       (collect_results (map assignment_row_to_record
         (sort_key (\<lambda>r. (as_role r, as_scope_kind r, as_scope_id r))
           (filter (\<lambda>r. as_owner r = owner) (model_assignments db)))))"

text \<open>
  The upsert: the profile must exist and enable the model; the revision of an existing assignment
  grows exactly when the target changes. \<open>new_id\<close> and \<open>now\<close> are the fresh identifier
  and the clock.
\<close>

definition assignments_upsert ::
  "host_env \<Rightarrow> rstr \<Rightarrow> rstr \<Rightarrow> int \<Rightarrow> assignment_input \<Rightarrow> state_db
     \<Rightarrow> (host_error + assignment_record) \<times> state_db" where
  "assignments_upsert h new_uuid now owner inp db =
    (case assignment_input_normalized inp of
       Inl e \<Rightarrow> (Inl e, db)
     | Inr inp \<Rightarrow>
     let key = assignment_key owner (ain_scope_kind inp) (database_scope_id inp) (ain_role inp);
         prepare =
           and_then (ok_or (find (profile_key owner (ain_provider_profile_id inp)) (provider_profiles db))
                      (Bail ''provider profile not found'')) (\<lambda>profile.
           and_then (ok_or (models_from_json h (pr_enabled_models_json profile))
                      (Bail ''parse provider enabled model ids'')) (\<lambda>models.
           and_then (bail_if (ain_model_id inp \<notin> set models)
                      (Bail ''model is not enabled for the selected provider profile'')) (\<lambda>_.
           and_then (get_exact owner (ain_scope_kind inp) (database_scope_id inp) (ain_role inp) db) (\<lambda>current.
           let (assignment_id, revision, created_at) =
             (case current of
                Some c \<Rightarrow>
                  (ma_assignment_id c,
                   ma_revision c + (if ma_provider_profile_id c \<noteq> ain_provider_profile_id inp
                                       \<or> ma_model_id c \<noteq> ain_model_id inp then 1 else 0),
                   ma_created_at c)
              | None \<Rightarrow> (lit ''ma_'' @ new_uuid, 1, now)) in
           and_then (to_sql_u64 revision) (\<lambda>revision. Inr (assignment_id, revision, created_at)))))) in
     case prepare of
       Inl e \<Rightarrow> (Inl e, db)
     | Inr (assignment_id, revision, created_at) \<Rightarrow>
     let rows = model_assignments db;
         row = \<lparr>as_assignment_id = assignment_id, as_owner = owner,
                as_scope_kind = lit (scope_as_str (ain_scope_kind inp)),
                as_scope_id = database_scope_id inp, as_role = ain_role inp,
                as_provider_profile_id = ain_provider_profile_id inp, as_model_id = ain_model_id inp,
                as_revision = revision, as_created_at = created_at, as_updated_at = now\<rparr>;
         conflict = (\<not> list_ex key rows \<and> list_ex (\<lambda>r. as_assignment_id r = assignment_id) rows);
         rows' = (if list_ex key rows
                  then update_where key (\<lambda>r. r\<lparr>as_provider_profile_id := ain_provider_profile_id inp,
                         as_model_id := ain_model_id inp, as_revision := revision, as_updated_at := now\<rparr>) rows
                  else rows @ [row]);
         db' = db\<lparr>model_assignments := rows'\<rparr> in
     if conflict then (Inl (Sql (ConstraintUnique ''model_assignments'')), db)
     else
       (case get_exact owner (ain_scope_kind inp) (database_scope_id inp) (ain_role inp) db' of
          Inl e \<Rightarrow> (Inl e, db)
        | Inr None \<Rightarrow> (Inl (Bail ''upserted model assignment exists''), db)
        | Inr (Some r) \<Rightarrow> (Inr r, db')))"

definition resolve_role ::
  "int \<Rightarrow> rstr \<Rightarrow> rstr option \<Rightarrow> rstr option \<Rightarrow> state_db \<Rightarrow> host_error + assignment_record option" where
  "resolve_role owner role agent_id session_id db =
     and_then (case session_id of None \<Rightarrow> Inr None
               | Some s \<Rightarrow> get_exact owner ScopeSession s role db) (\<lambda>by_session.
     case by_session of Some r \<Rightarrow> Inr (Some r) | None \<Rightarrow>
     and_then (case agent_id of None \<Rightarrow> Inr None
               | Some a \<Rightarrow> get_exact owner ScopeAgent a role db) (\<lambda>by_agent.
     case by_agent of Some r \<Rightarrow> Inr (Some r) | None \<Rightarrow>
     get_exact owner ScopeGlobal [] role db))"

definition assignments_resolve ::
  "int \<Rightarrow> rstr \<Rightarrow> rstr option \<Rightarrow> rstr option \<Rightarrow> state_db \<Rightarrow> host_error + assignment_record" where
  "assignments_resolve owner role agent_id session_id db =
     and_then (normalized_identifier ''model role'' role) (\<lambda>role.
     and_then (resolve_role owner role agent_id session_id db) (\<lambda>found.
     ok_or found (Bailf ''no model assignment is configured for role {role}'' [role])))"

definition resolve_with_main_fallback ::
  "int \<Rightarrow> rstr \<Rightarrow> rstr option \<Rightarrow> rstr option \<Rightarrow> state_db \<Rightarrow> host_error + assignment_record" where
  "resolve_with_main_fallback owner role agent_id session_id db =
     and_then (normalized_identifier ''model role'' role) (\<lambda>role.
     and_then (resolve_role owner role agent_id session_id db) (\<lambda>found.
     case found of Some r \<Rightarrow> Inr r | None \<Rightarrow>
     and_then (if role \<noteq> lit ''main'' then resolve_role owner (lit ''main'') agent_id session_id db
               else Inr None) (\<lambda>fallback.
     ok_or fallback
       (Bailf ''no model assignment is configured for role {role} or fallback role main'' [role]))))"

definition assignments_delete :: "int \<Rightarrow> rstr \<Rightarrow> state_db \<Rightarrow> (host_error + unit) \<times> state_db" where
  "assignments_delete owner assignment_id db =
    (case normalized_identifier ''model assignment id'' assignment_id of
       Inl e \<Rightarrow> (Inl e, db)
     | Inr assignment_id \<Rightarrow>
     let key = (\<lambda>r. as_owner r = owner \<and> as_assignment_id r = assignment_id);
         rows = model_assignments db;
         db' = db\<lparr>model_assignments := delete_where key rows\<rparr> in
     if count_where key rows \<noteq> 1 then (Inl (Bail ''model assignment not found''), db')
     else (Inr (), db'))"

section \<open>The table of assignments\<close>

definition assignment_key_of :: "assignment_row \<Rightarrow> int \<times> rstr \<times> rstr \<times> rstr" where
  "assignment_key_of r = (as_owner r, as_scope_kind r, as_scope_id r, as_role r)"

text \<open>
  Identifiers and keys are unique, revisions positive and storable, the scope is one of the three and
  has an identifier exactly when it is not the global one, and every row refers to a profile of its
  own account.
\<close>

definition assignment_row_ok :: "assignment_row \<Rightarrow> bool" where
  "assignment_row_ok r \<longleftrightarrow> 1 \<le> as_revision r \<and> as_revision r \<le> sql_int_max
     \<and> (\<exists>kind. as_scope_kind r = lit (scope_as_str kind) \<and> (as_scope_id r = [] \<longleftrightarrow> kind = ScopeGlobal))"

definition assignments_ok :: "state_db \<Rightarrow> bool" where
  "assignments_ok db \<longleftrightarrow> unique_on as_assignment_id (model_assignments db)
     \<and> unique_on assignment_key_of (model_assignments db)
     \<and> (\<forall>r \<in> set (model_assignments db). assignment_row_ok r
         \<and> list_ex (profile_key (as_owner r) (as_provider_profile_id r)) (provider_profiles db))"

lemma row_to_record_ok:
  "assignment_row_ok r \<Longrightarrow> is_ok (assignment_row_to_record r)"
  by (auto simp: assignment_row_ok_def assignment_row_to_record_def)

lemma assignment_key_iff: "assignment_key owner kind scope_id role r
    \<longleftrightarrow> assignment_key_of r = (owner, lit (scope_as_str kind), scope_id, role)"
  by (auto simp: assignment_key_def assignment_key_of_def)

lemma normalized_scope:
  assumes "assignment_input_normalized inp = Inr i"
  shows "ain_scope_kind i = ain_scope_kind inp" "database_scope_id i = [] \<longleftrightarrow> ain_scope_kind i = ScopeGlobal"
  using assms by (cases "ain_scope_kind inp"; auto simp: assignment_input_normalized_def Let_def result_simps
      database_scope_id_def split: if_splits option.splits)+

text \<open>The statement the upsert issues, by whether the key has a row.\<close>

definition assignment_target :: "rstr \<Rightarrow> assignment_input \<Rightarrow> nat \<Rightarrow> assignment_row \<Rightarrow> assignment_row" where
  "assignment_target now i revision r = r\<lparr>as_provider_profile_id := ain_provider_profile_id i,
     as_model_id := ain_model_id i, as_revision := revision, as_updated_at := now\<rparr>"

definition new_assignment :: "rstr \<Rightarrow> rstr \<Rightarrow> int \<Rightarrow> assignment_input \<Rightarrow> assignment_row" where
  "new_assignment new_uuid now owner i =
     \<lparr>as_assignment_id = lit ''ma_'' @ new_uuid, as_owner = owner,
      as_scope_kind = lit (scope_as_str (ain_scope_kind i)),
      as_scope_id = database_scope_id i, as_role = ain_role i,
      as_provider_profile_id = ain_provider_profile_id i, as_model_id = ain_model_id i,
      as_revision = 1, as_created_at = now, as_updated_at = now\<rparr>"

definition target_changed :: "assignment_record \<Rightarrow> assignment_input \<Rightarrow> bool" where
  "target_changed c i \<longleftrightarrow> ma_provider_profile_id c \<noteq> ain_provider_profile_id i \<or> ma_model_id c \<noteq> ain_model_id i"

lemma upsert_cases:
  assumes "assignments_upsert h new_uuid now owner inp db = (res, db')"
  obtains (unchanged) e where "res = Inl e" "db' = db"
  | (updated) i profile models row c where "assignment_input_normalized inp = Inr i"
      "find (profile_key owner (ain_provider_profile_id i)) (provider_profiles db) = Some profile"
      "models_from_json h (pr_enabled_models_json profile) = Some models" "ain_model_id i \<in> set models"
      "find (assignment_key owner (ain_scope_kind i) (database_scope_id i) (ain_role i)) (model_assignments db) = Some row"
      "assignment_row_to_record row = Inr c" "ma_revision c + (if target_changed c i then 1 else 0) \<le> sql_int_max"
      "db' = db\<lparr>model_assignments := update_where
         (assignment_key owner (ain_scope_kind i) (database_scope_id i) (ain_role i))
         (assignment_target now i (ma_revision c + (if target_changed c i then 1 else 0))) (model_assignments db)\<rparr>"
      "res = Inr (c\<lparr>ma_provider_profile_id := ain_provider_profile_id i, ma_model_id := ain_model_id i,
         ma_revision := ma_revision c + (if target_changed c i then 1 else 0), ma_updated_at := now\<rparr>)"
  | (inserted) i profile models where "assignment_input_normalized inp = Inr i"
      "find (profile_key owner (ain_provider_profile_id i)) (provider_profiles db) = Some profile"
      "models_from_json h (pr_enabled_models_json profile) = Some models" "ain_model_id i \<in> set models"
      "find (assignment_key owner (ain_scope_kind i) (database_scope_id i) (ain_role i)) (model_assignments db) = None"
      "\<forall>r \<in> set (model_assignments db). as_assignment_id r \<noteq> lit ''ma_'' @ new_uuid"
      "db' = db\<lparr>model_assignments := model_assignments db @ [new_assignment new_uuid now owner i]\<rparr>"
      "assignment_row_to_record (new_assignment new_uuid now owner i) = res" "is_ok res"
proof (cases "assignment_input_normalized inp")
  case (Inl e)
  with assms show ?thesis by (intro unchanged) (auto simp: assignments_upsert_def)
next
  case norm: (Inr i)
  let ?key = "assignment_key owner (ain_scope_kind i) (database_scope_id i) (ain_role i)"
  let ?pkey = "profile_key owner (ain_provider_profile_id i)"
  note step = assms [unfolded assignments_upsert_def norm sum.case]
  show ?thesis
  proof (cases "find ?pkey (provider_profiles db)")
    case None
    with step show ?thesis by (intro unchanged) auto
  next
    case prof: (Some profile)
    show ?thesis
    proof (cases "models_from_json h (pr_enabled_models_json profile)")
      case None
      with step prof show ?thesis by (intro unchanged) auto
    next
      case mods: (Some models)
      show ?thesis
      proof (cases "ain_model_id i \<in> set models")
        case False
        with step prof mods show ?thesis by (intro unchanged) auto
      next
        case True
        show ?thesis
        proof (cases "find ?key (model_assignments db)")
          case None
          have nex: "\<not> list_ex ?key (model_assignments db)"
            using None by (simp add: list_ex_find)
          have "find ?key (model_assignments db @ [new_assignment new_uuid now owner i])
              = Some (new_assignment new_uuid now owner i)"
            using None by (simp add: find_append assignment_key_def new_assignment_def)
          then have ge: "get_exact owner (ain_scope_kind i) (database_scope_id i) (ain_role i)
              (db\<lparr>model_assignments := model_assignments db @ [new_assignment new_uuid now owner i]\<rparr>)
            = and_then (assignment_row_to_record (new_assignment new_uuid now owner i)) (\<lambda>r. Inr (Some r))"
            by (simp add: get_exact_def)
          have ok: "\<exists>r. assignment_row_to_record (new_assignment new_uuid now owner i) = Inr r"
            by (simp add: assignment_row_to_record_def new_assignment_def)
          then obtain r where r: "assignment_row_to_record (new_assignment new_uuid now owner i) = Inr r" ..
          have one: "to_sql_u64 1 = Inr 1" by (simp add: to_sql_u64_def sql_int_max_def)
          show ?thesis
          proof (cases "list_ex (\<lambda>r. as_assignment_id r = lit ''ma_'' @ new_uuid) (model_assignments db)")
            case True
            with step prof mods \<open>ain_model_id i \<in> set models\<close> None nex one show ?thesis
              by (intro unchanged) (auto simp: get_exact_def Let_def)
          next
            case False
            from step prof mods \<open>ain_model_id i \<in> set models\<close> None nex one False r
              ge [unfolded new_assignment_def]
            have "res = Inr r" "db' = db\<lparr>model_assignments := model_assignments db @ [new_assignment new_uuid now owner i]\<rparr>"
              by (auto simp: get_exact_def [of owner _ _ _ db] Let_def new_assignment_def)
            with norm prof mods \<open>ain_model_id i \<in> set models\<close> None False r show ?thesis
              by (intro inserted [of i profile models]) (auto simp: list_ex_iff)
          qed
        next
          case (Some row)
          then have ex: "list_ex ?key (model_assignments db)" "?key row"
            by (auto simp: list_ex_find dest: find_SomeD)
          show ?thesis
          proof (cases "assignment_row_to_record row")
            case (Inl e)
            with step prof mods True Some show ?thesis by (intro unchanged [of e]) (auto simp: get_exact_def)
          next
            case (Inr c)
            let ?rev = "ma_revision c + (if target_changed c i then 1 else 0)"
            let ?w = "assignment_target now i ?rev"
            have "find ?key (update_where ?key ?w (model_assignments db)) = Some (?w row)"
              using Some ex(2) by (subst find_update_where) (auto simp: assignment_key_def assignment_target_def)
            moreover have "assignment_row_to_record (?w row) = Inr (c\<lparr>ma_provider_profile_id := ain_provider_profile_id i,
                ma_model_id := ain_model_id i, ma_revision := ?rev, ma_updated_at := now\<rparr>)"
              using Inr by (auto simp: assignment_row_to_record_def assignment_target_def result_simps)
            ultimately have ge: "get_exact owner (ain_scope_kind i) (database_scope_id i) (ain_role i)
                (db\<lparr>model_assignments := update_where ?key ?w (model_assignments db)\<rparr>)
              = Inr (Some (c\<lparr>ma_provider_profile_id := ain_provider_profile_id i, ma_model_id := ain_model_id i,
                ma_revision := ?rev, ma_updated_at := now\<rparr>))"
              by (simp add: get_exact_def)
            have w: "?w = (\<lambda>r. r\<lparr>as_provider_profile_id := ain_provider_profile_id i,
                as_model_id := ain_model_id i, as_revision := ?rev, as_updated_at := now\<rparr>)"
              by (simp add: fun_eq_iff assignment_target_def)
            show ?thesis
            proof (cases "?rev \<le> sql_int_max")
              case False
              with step prof mods True Some Inr show ?thesis
                by (intro unchanged) (auto simp: get_exact_def Let_def to_sql_u64_def target_changed_def)
            next
              case le: True
              from le step prof mods True Some Inr ex(1) ge [unfolded w]
              have "res = Inr (c\<lparr>ma_provider_profile_id := ain_provider_profile_id i, ma_model_id := ain_model_id i,
                  ma_revision := ?rev, ma_updated_at := now\<rparr>)
                \<and> db' = db\<lparr>model_assignments := update_where ?key ?w (model_assignments db)\<rparr>"
                unfolding w
                by (simp add: get_exact_def [of owner _ _ _ db] Let_def to_sql_u64_def target_changed_def)
              with le norm prof mods True Some Inr show ?thesis
                by (intro updated [of i profile models row c]) auto
            qed
          qed
        qed
      qed
    qed
  qed
qed

section \<open>The invariant\<close>

lemma assignment_key_target [simp]: "assignment_key_of (assignment_target now i n r) = assignment_key_of r"
  by (simp add: assignment_key_of_def assignment_target_def)

lemma assignment_target_ok:
  "assignment_row_ok r \<Longrightarrow> 1 \<le> revision \<Longrightarrow> revision \<le> sql_int_max
     \<Longrightarrow> assignment_row_ok (assignment_target now i revision r)"
  by (simp add: assignment_row_ok_def assignment_target_def)

lemma assignments_ok_upsert:
  assumes "assignments_ok db" "assignments_upsert h new_uuid now owner inp db = (res, db')"
  shows "assignments_ok db'"
  using assms(2)
proof (cases rule: upsert_cases)
  case (updated i profile models row c)
  let ?key = "assignment_key owner (ain_scope_kind i) (database_scope_id i) (ain_role i)"
  let ?rev = "ma_revision c + (if target_changed c i then 1 else 0)"
  have "row \<in> set (model_assignments db)" using updated(5) by (auto dest: find_SomeD)
  then have rev: "1 \<le> ?rev"
    using assms(1) updated(6) by (auto simp: assignments_ok_def assignment_row_ok_def
        assignment_row_to_record_def result_simps)
  have fk: "list_ex (profile_key owner (ain_provider_profile_id i)) (provider_profiles db)"
    using updated(2) by (simp add: list_ex_find)
  have row_ok: "assignment_row_ok r' \<and> list_ex (profile_key (as_owner r') (as_provider_profile_id r')) (provider_profiles db)"
    if "r' \<in> set (update_where ?key (assignment_target now i ?rev) (model_assignments db))" for r'
    using that
  proof (rule set_update_whereE)
    fix r assume r: "r \<in> set (model_assignments db)" "r' = (if ?key r then assignment_target now i ?rev r else r)"
    then have "assignment_row_ok r" "list_ex (profile_key (as_owner r) (as_provider_profile_id r)) (provider_profiles db)"
      using assms(1) by (auto simp: assignments_ok_def)
    with assignment_target_ok [of r ?rev now i] rev updated(7) fk show ?thesis
      by (cases "?key r") (simp_all add: r(2), simp add: assignment_target_def assignment_key_def)
  qed
  then show ?thesis using assms(1) updated(8)
    by (auto simp: assignments_ok_def unique_on_update assignment_target_def assignment_key_of_def)
next
  case (inserted i profile models)
  have fk: "list_ex (profile_key owner (ain_provider_profile_id i)) (provider_profiles db)"
    using inserted(2) by (simp add: list_ex_find)
  have "assignment_row_ok (new_assignment new_uuid now owner i)"
    using normalized_scope [OF inserted(1)] by (auto simp: assignment_row_ok_def new_assignment_def sql_int_max_def)
  moreover have "\<forall>r \<in> set (model_assignments db). assignment_key_of r \<noteq> assignment_key_of (new_assignment new_uuid now owner i)"
    using inserted(5) by (auto simp: find_None_iff assignment_key_def assignment_key_of_def new_assignment_def)
  ultimately show ?thesis using assms(1) inserted(6,7) fk
    by (auto simp: assignments_ok_def new_assignment_def intro!: unique_on_append)
qed (use assms in auto)

lemma assignments_delete_db:
  "assignments_delete owner assignment_id db = (res, db') \<Longrightarrow>
     \<exists>p. db' = db\<lparr>model_assignments := delete_where p (model_assignments db)\<rparr> \<and> (\<forall>r. p r \<longrightarrow> as_owner r = owner)"
  by (cases "normalized_identifier ''model assignment id'' assignment_id")
    (auto simp: assignments_delete_def Let_def delete_where_def split: if_splits
      intro: exI [of _ "\<lambda>r. False"] exI [of _ "\<lambda>r. as_owner r = owner \<and> as_assignment_id r = x" for x])

lemma assignments_ok_delete:
  assumes "assignments_ok db" "assignments_delete owner assignment_id db = (res, db')"
  shows "assignments_ok db'"
  using assignments_delete_db [OF assms(2)] assms(1) by (auto simp: assignments_ok_def unique_on_delete)

text \<open>The invariant only looks at which profiles there are.\<close>

lemma assignments_ok_profiles:
  assumes "assignments_ok db" "model_assignments db' = model_assignments db"
    and "\<And>owner i. list_ex (profile_key owner i) (provider_profiles db) \<Longrightarrow> list_ex (profile_key owner i) (provider_profiles db')"
  shows "assignments_ok db'"
  using assms by (auto simp: assignments_ok_def)

lemma list_ex_update_where: "(\<And>r. p r \<Longrightarrow> q (f r) = q r) \<Longrightarrow> list_ex q (update_where p f rows) = list_ex q rows"
  by (auto simp: list_ex_iff set_update_where)

lemma assignments_ok_profile_insert:
  assumes "assignments_ok db" "profiles_insert h now owner pid cref l4 inp db = (res, db')"
  shows "assignments_ok db'"
  using assms(2,1) by (cases rule: profiles_insert_cases) (auto intro: assignments_ok_profiles)

lemma assignments_ok_profile_update:
  assumes "assignments_ok db" "profiles_update h now owner pid inp db = (res, db')"
  shows "assignments_ok db'"
  using assms(2,1)
  by (cases rule: profiles_update_cases)
    (auto intro!: assignments_ok_profiles [of db] simp: list_ex_update_where profile_write_def profile_key_def)

lemma assignments_ok_profile_metadata:
  assumes "assignments_ok db"
  shows "assignments_ok (snd (profiles_update_credential_metadata h now owner pid l4 db))"
  using assms unfolding profiles_metadata_db
  by (auto intro!: assignments_ok_profiles [of db] simp: list_ex_update_where profile_key_def)

lemma assignments_ok_profile_delete:
  assumes "assignments_ok db" "profiles_ok db"
  shows "assignments_ok (snd (profiles_delete owner pid db))"
proof -
  have "list_ex (profile_key o' i) (delete_where (profile_key owner pid) (provider_profiles db))"
    if "list_ex (profile_key o' i) (provider_profiles db)"
      "\<not> (list_ex (profile_key owner pid) (provider_profiles db) \<and> i = pid)" for o' i
    using that by (auto simp: list_ex_iff profile_key_def)
  then show ?thesis using assms(1) unfolding profiles_delete_db
    by (auto simp: assignments_ok_def unique_on_delete)
qed

section \<open>Resolution\<close>

text \<open>
  The specification of resolution: of the candidate scopes, narrowest first, the first that has an
  assignment for the role.
\<close>

definition candidate_scopes :: "rstr option \<Rightarrow> rstr option \<Rightarrow> (scope_kind \<times> rstr) list" where
  "candidate_scopes agent_id session_id =
     (case session_id of None \<Rightarrow> [] | Some s \<Rightarrow> [(ScopeSession, s)])
     @ (case agent_id of None \<Rightarrow> [] | Some a \<Rightarrow> [(ScopeAgent, a)]) @ [(ScopeGlobal, [])]"

definition first_assignment :: "int \<Rightarrow> (scope_kind \<times> rstr) list \<Rightarrow> rstr \<Rightarrow> state_db \<Rightarrow> assignment_row option" where
  "first_assignment owner scopes role db =
    (case List.map_filter (\<lambda>(kind, scope_id). find (assignment_key owner kind scope_id role) (model_assignments db)) scopes of
       [] \<Rightarrow> None | row # _ \<Rightarrow> Some row)"

definition scoped_record :: "assignment_row \<Rightarrow> assignment_record" where
  "scoped_record row = projr (assignment_row_to_record row)"

lemma scoped_record_ok: "assignment_row_ok r \<Longrightarrow> assignment_row_to_record r = Inr (scoped_record r)"
  using row_to_record_ok [of r] by (cases "assignment_row_to_record r") (simp_all add: scoped_record_def)

lemma get_exact_ok:
  assumes "assignments_ok db"
  shows "get_exact owner kind scope_id role db
    = Inr (map_option scoped_record (find (assignment_key owner kind scope_id role) (model_assignments db)))"
proof (cases "find (assignment_key owner kind scope_id role) (model_assignments db)")
  case (Some row)
  then have "assignment_row_ok row" using assms by (auto simp: assignments_ok_def dest: find_SomeD)
  with Some show ?thesis by (simp add: get_exact_def scoped_record_ok)
qed (simp add: get_exact_def)

lemma resolve_role_first:
  assumes "assignments_ok db"
  shows "resolve_role owner role agent_id session_id db
    = Inr (map_option scoped_record (first_assignment owner (candidate_scopes agent_id session_id) role db))"
  by (cases session_id; cases agent_id)
    (simp_all add: resolve_role_def get_exact_ok [OF assms] first_assignment_def candidate_scopes_def
      List.map_filter_def split: option.splits)

lemma first_assignment_SomeD:
  assumes "first_assignment owner scopes role db = Some row"
  shows "row \<in> set (model_assignments db) \<and> as_owner row = owner \<and> as_role row = role"
proof -
  have "row \<in> set (List.map_filter (\<lambda>(kind, scope_id).
      find (assignment_key owner kind scope_id role) (model_assignments db)) scopes)"
    using assms by (auto simp: first_assignment_def split: list.splits)
  then obtain kind scope_id where "find (assignment_key owner kind scope_id role) (model_assignments db) = Some row"
    by (auto simp: List.map_filter_def)
  from find_SomeD [OF this] show ?thesis by (simp add: assignment_key_def)
qed

text \<open>C40: resolution prefers the narrowest scope: over a consistent table it answers with the assignment of
  the session, else of the agent, else the global one, else the same search for the role \<open>main\<close>, and
  fails exactly when the role is malformed or no candidate exists. The answer always belongs to the
  account and to the requested role or to \<open>main\<close>.\<close>

theorem resolution_prefers_narrowest_scope:
  assumes "assignments_ok db" "normalized_identifier ''model role'' role = Inr role'"
  shows "(case (case first_assignment owner (candidate_scopes agent_id session_id) role' db of
           Some row \<Rightarrow> Some row
         | None \<Rightarrow> first_assignment owner (candidate_scopes agent_id session_id) (lit ''main'') db) of
      Some row \<Rightarrow> resolve_with_main_fallback owner role agent_id session_id db = Inr (scoped_record row)
        \<and> as_owner row = owner \<and> (as_role row = role' \<or> as_role row = lit ''main'')
        \<and> list_ex (profile_key owner (as_provider_profile_id row)) (provider_profiles db)
    | None \<Rightarrow> \<exists>e. resolve_with_main_fallback owner role agent_id session_id db = Inl e)"
proof -
  let ?scopes = "candidate_scopes agent_id session_id"
  have fk: "list_ex (profile_key owner (as_provider_profile_id row)) (provider_profiles db)"
    if "row \<in> set (model_assignments db)" "as_owner row = owner" for row
    using assms(1) that by (auto simp: assignments_ok_def)
  show ?thesis
  proof (cases "first_assignment owner ?scopes role' db")
    case (Some row)
    from first_assignment_SomeD [OF this] fk show ?thesis
      by (simp add: Some resolve_with_main_fallback_def assms(2) resolve_role_first [OF assms(1)])
  next
    case None
    show ?thesis
    proof (cases "first_assignment owner ?scopes (lit ''main'') db")
      case (Some row)
      from first_assignment_SomeD [OF this] fk None Some show ?thesis
        by (auto simp: resolve_with_main_fallback_def assms(2) resolve_role_first [OF assms(1)])
    next
      case n: None
      with None show ?thesis
        by (simp add: resolve_with_main_fallback_def assms(2) resolve_role_first [OF assms(1)])
    qed
  qed
qed

text \<open>an upsert is what the account asked for: it succeeds only for a profile of the account that enables
  the model; afterwards resolution at exactly this scope finds the new target; the revision starts at
  1, grows by one when the target changes and stays otherwise, identifier and creation time stay, and
  the assignments of every other key are untouched.\<close>

theorem upsert_is_read_back:
  assumes "assignments_ok db" "assignments_upsert h new_uuid now owner inp db = (Inr a, db')"
    and "assignment_input_normalized inp = Inr i"
    and "key = (owner, lit (scope_as_str (ain_scope_kind i)), database_scope_id i, ain_role i)"
  shows "get_exact owner (ain_scope_kind i) (database_scope_id i) (ain_role i) db' = Inr (Some a)
    \<and> ma_provider_profile_id a = ain_provider_profile_id i \<and> ma_model_id a = ain_model_id i
    \<and> (case get_exact owner (ain_scope_kind i) (database_scope_id i) (ain_role i) db of
         Inr (Some c) \<Rightarrow> ma_assignment_id a = ma_assignment_id c \<and> ma_created_at a = ma_created_at c
           \<and> ma_revision a = ma_revision c + (if target_changed c i then 1 else 0)
       | Inr None \<Rightarrow> ma_assignment_id a = lit ''ma_'' @ new_uuid \<and> ma_revision a = 1
       | Inl _ \<Rightarrow> False)
    \<and> filter (\<lambda>r. assignment_key_of r \<noteq> key) (model_assignments db')
       = filter (\<lambda>r. assignment_key_of r \<noteq> key) (model_assignments db)
    \<and> (\<exists>profile models. find (profile_key owner (ain_provider_profile_id i)) (provider_profiles db) = Some profile
        \<and> models_from_json h (pr_enabled_models_json profile) = Some models \<and> ain_model_id i \<in> set models)"
  using assms(2)
proof (cases rule: upsert_cases)
  case (updated i' profile models row c)
  have i: "i' = i" using updated(1) assms(3) by simp
  let ?key = "assignment_key owner (ain_scope_kind i) (database_scope_id i) (ain_role i)"
  let ?w = "assignment_target now i (ma_revision c + (if target_changed c i then 1 else 0))"
  have k: "?key row" "row \<in> set (model_assignments db)" using updated(5) i by (auto dest: find_SomeD)
  have "find ?key (update_where ?key ?w (model_assignments db)) = Some (?w row)"
    using updated(5) i k by (subst find_update_where) (auto simp: assignment_key_def assignment_target_def)
  moreover have "assignment_row_to_record (?w row) = Inr a"
    using updated(6,9) i by (auto simp: assignment_row_to_record_def assignment_target_def result_simps)
  moreover have "filter (\<lambda>r. assignment_key_of r \<noteq> key) (update_where ?key ?w (model_assignments db))
      = filter (\<lambda>r. assignment_key_of r \<noteq> key) (model_assignments db)"
    by (intro filter_update_where_other) (auto simp: assignment_key_iff assms(4))
  ultimately show ?thesis using updated i
    by (auto simp: get_exact_def)
next
  case (inserted i' profile models)
  have i: "i' = i" using inserted(1) assms(3) by simp
  have "find (assignment_key owner (ain_scope_kind i) (database_scope_id i) (ain_role i))
      (model_assignments db @ [new_assignment new_uuid now owner i]) = Some (new_assignment new_uuid now owner i)"
    using inserted(5) i by (simp add: find_append assignment_key_def new_assignment_def)
  moreover have "assignment_key_of (new_assignment new_uuid now owner i) = key"
    by (simp add: assms(4) assignment_key_of_def new_assignment_def)
  moreover have "ma_provider_profile_id a = ain_provider_profile_id i \<and> ma_model_id a = ain_model_id i
      \<and> ma_assignment_id a = lit ''ma_'' @ new_uuid \<and> ma_revision a = 1"
    using inserted(8) i by (auto simp: assignment_row_to_record_def new_assignment_def)
  ultimately show ?thesis using inserted i by (auto simp: get_exact_def)
qed simp

section \<open>A concrete account\<close>

definition sample_profile_row :: profile_row where
  "sample_profile_row = new_profile_row sample_env [48] 7 [112] [99] [52] sample_profile_input"

definition sample_assignment_input :: assignment_input where
  "sample_assignment_input = \<lparr>ain_scope_kind = ScopeAgent, ain_scope_id = Some [65], ain_role = lit ''main'',
     ain_provider_profile_id = [112], ain_model_id = [109]\<rparr>"

definition sample_account :: state_db where
  "sample_account = empty_db\<lparr>provider_profiles := [sample_profile_row],
     model_assignments := [new_assignment [97] [48] 7 sample_assignment_input]\<rparr>"

lemma lit_main: "lit ''main'' = [109, 97, 105, 110]"
  by (simp add: lit_def)

lemma normalized_main: "normalized_identifier label (lit ''main'') = Inr (lit ''main'')"
  by (simp add: lit_main normalized_identifier_def trim_def trim_start_def trim_end_def is_whitespace_def
      str_len_def str_bytes_def utf8_encode_def identifier_byte_def is_ascii_alphanumeric_def
      is_ascii_digit_def is_ascii_lowercase_def)

lemma sample_assignment_normalized: "assignment_input_normalized sample_assignment_input = Inr sample_assignment_input"
  by (simp add: sample_assignment_input_def assignment_input_normalized_def normalized_main)
    (simp add: normalized_identifier_def normalize_model_id_def trim_def trim_start_def trim_end_def is_whitespace_def
      str_len_def str_bytes_def utf8_encode_def identifier_byte_def model_id_byte_def is_ascii_alphanumeric_def
      is_ascii_digit_def is_ascii_lowercase_def is_control_def)

lemma sample_account_ok: "assignments_ok sample_account" "profiles_ok sample_account"
  by (simp_all add: assignments_ok_def profiles_ok_def sample_account_def empty_db_def unique_on_def sample_profile_row_def
      assignment_row_ok_def new_assignment_def sample_assignment_input_def profile_key_def sql_int_max_def
      database_scope_id_def) (rule exI [of _ ScopeAgent], simp)

lemma resolution_prefers_narrowest_scope_witness:
  "\<exists>row. row \<in> set (model_assignments sample_account)
     \<and> resolve_with_main_fallback 7 (lit ''main'') (Some [65]) (Some [83]) sample_account = Inr (scoped_record row)"
  using resolution_prefers_narrowest_scope [OF sample_account_ok(1) normalized_main, of 7 "Some [65]" "Some [83]"]
  by (simp add: first_assignment_def candidate_scopes_def List.map_filter_def sample_account_def assignment_key_def
      new_assignment_def sample_assignment_input_def database_scope_id_def)

lemma upsert_is_read_back_witness:
  "\<exists>a db'. assignments_upsert sample_env [98] [49] 7 sample_assignment_input sample_account = (Inr a, db')
     \<and> ma_revision a = 1"
proof -
  obtain res db' where u: "assignments_upsert sample_env [98] [49] 7 sample_assignment_input sample_account = (res, db')"
    by fastforce
  have "is_ok (fst (assignments_upsert sample_env [98] [49] 7 sample_assignment_input sample_account))"
    by (simp add: assignments_upsert_def sample_assignment_normalized)
      (simp add: sample_account_def sample_assignment_input_def sample_profile_row_def new_profile_row_def profile_key_def
        sample_env_def sample_profile_input_def get_exact_def assignment_key_def new_assignment_def
        database_scope_id_def assignment_row_to_record_def to_sql_u64_def sql_int_max_def update_where_def Let_def)
  then obtain a where a: "res = Inr a" unfolding u by (cases res) auto
  from upsert_is_read_back [OF sample_account_ok(1) u [unfolded a] sample_assignment_normalized refl] u a show ?thesis
    by (simp add: sample_account_def sample_assignment_input_def get_exact_def assignment_key_def new_assignment_def
        database_scope_id_def assignment_row_to_record_def target_changed_def)
qed

end
