(* ===== verification/Session_Bindings.thy ===== *)
theory Session_Bindings
  imports State_Db
begin

text \<open>
  \<open>session_bindings.rs\<close>: the append-only history of the routes bound to a session and a role.
  Every revision is a row with the JSON snapshot of the route and its BLAKE3 hash, which is
  checked when the row is read.
\<close>

datatype binding_change_reason = Initial | ExplicitSwitch | CompatibleMigration | Rollback

fun reason_as_str :: "binding_change_reason \<Rightarrow> string" where
  "reason_as_str Initial = ''initial''"
| "reason_as_str ExplicitSwitch = ''explicit_switch''"
| "reason_as_str CompatibleMigration = ''compatible_migration''"
| "reason_as_str Rollback = ''rollback''"

definition reason_parse :: "rstr \<Rightarrow> host_error + binding_change_reason" where
  "reason_parse v =
    (if v = lit ''initial'' then Inr Initial
     else if v = lit ''explicit_switch'' then Inr ExplicitSwitch
     else if v = lit ''compatible_migration'' then Inr CompatibleMigration
     else if v = lit ''rollback'' then Inr Rollback
     else Inl (Bail ''unsupported Session Provider Binding change reason''))"

lemma reason_parse_as_str [simp]: "reason_parse (lit (reason_as_str r)) = Inr r"
  by (cases r) (simp_all add: reason_parse_def)

lemmas reason_parse_lits [simp] = reason_parse_as_str [of Initial, unfolded reason_as_str.simps]
  reason_parse_as_str [of ExplicitSwitch, unfolded reason_as_str.simps]
  reason_parse_as_str [of CompatibleMigration, unfolded reason_as_str.simps]
  reason_parse_as_str [of Rollback, unfolded reason_as_str.simps]

record session_binding =
  sp_binding_id :: rstr
  sp_owner :: int
  sp_session_id :: rstr
  sp_role :: rstr
  sp_agent_id :: "rstr option"
  sp_revision :: nat
  sp_change_reason :: binding_change_reason
  sp_route :: prepared_route
  sp_snapshot_hash :: rstr
  sp_bound_at :: rstr

section \<open>Normalisation\<close>

definition binding_validate_owner :: "int \<Rightarrow> host_error + unit" where
  "binding_validate_owner owner = bail_if (owner \<le> 0) (Bail ''AgentMesh360 account id is invalid'')"

definition normalize_session_id :: "rstr \<Rightarrow> host_error + rstr" where
  "normalize_session_id value =
    (let value = trim value in
     if value = [] \<or> str_len value > 200 \<or> list_ex is_control value
     then Inl (Bail ''session id is invalid'') else Inr value)"

definition binding_identifier_byte :: "nat \<Rightarrow> bool" where
  "binding_identifier_byte b \<longleftrightarrow> is_ascii_alphanumeric b \<or> b \<in> set (lit ''-_./'')"

definition normalize_identifier :: "string \<Rightarrow> rstr \<Rightarrow> host_error + rstr" where
  "normalize_identifier label value =
    (let value = trim value in
     if value = [] \<or> str_len value > 200 \<or> \<not> list_all binding_identifier_byte (str_bytes value)
     then Inl (Bailf ''{label} is invalid'' [lit label]) else Inr value)"

definition normalize_optional_identifier :: "string \<Rightarrow> rstr option \<Rightarrow> host_error + rstr option" where
  "normalize_optional_identifier label value =
    (case value of None \<Rightarrow> Inr None
     | Some v \<Rightarrow> and_then (normalize_identifier label v) (\<lambda>v. Inr (Some v)))"

section \<open>Reading\<close>

definition row_to_binding :: "host_env \<Rightarrow> binding_row \<Rightarrow> host_error + session_binding" where
  "row_to_binding h row =
     and_then (map_err (\<lambda>_. Sql (FromSqlConversion 6)) (reason_parse (sb_change_reason row))) (\<lambda>reason.
     and_then (bail_if (sb_snapshot_hash row \<noteq> blake3_hex h (sb_prepared_route_json row))
       (Sql SnapshotHashMismatch)) (\<lambda>_.
     and_then (ok_or (route_from_json h (sb_prepared_route_json row)) (Sql (FromSqlConversion 7))) (\<lambda>route.
     Inr \<lparr>sp_binding_id = sb_binding_id row, sp_owner = sb_owner row, sp_session_id = sb_session_id row,
          sp_role = sb_role row, sp_agent_id = sb_agent_id row, sp_revision = sb_revision row,
          sp_change_reason = reason, sp_route = route, sp_snapshot_hash = sb_snapshot_hash row,
          sp_bound_at = sb_bound_at row\<rparr>)))"

definition binding_key :: "int \<Rightarrow> rstr \<Rightarrow> rstr \<Rightarrow> binding_row \<Rightarrow> bool" where
  "binding_key owner session_id role r \<longleftrightarrow>
     sb_owner r = owner \<and> sb_session_id r = session_id \<and> sb_role r = role"

text \<open>\<open>ORDER BY binding_revision\<close>, and \<open>ORDER BY binding_revision DESC LIMIT 1\<close>.\<close>

definition binding_rows :: "int \<Rightarrow> rstr \<Rightarrow> rstr \<Rightarrow> state_db \<Rightarrow> binding_row list" where
  "binding_rows owner session_id role db =
     sort_key sb_revision (filter (binding_key owner session_id role) (session_bindings db))"

definition query_current ::
  "host_env \<Rightarrow> int \<Rightarrow> rstr \<Rightarrow> rstr \<Rightarrow> state_db \<Rightarrow> host_error + session_binding option" where
  "query_current h owner session_id role db =
    (case rev (binding_rows owner session_id role db) of
       [] \<Rightarrow> Inr None
     | row # _ \<Rightarrow> and_then (row_to_binding h row) (\<lambda>b. Inr (Some b)))"

definition normalize_key :: "int \<Rightarrow> rstr \<Rightarrow> rstr \<Rightarrow> host_error + rstr \<times> rstr" where
  "normalize_key owner session_id role =
     and_then (binding_validate_owner owner) (\<lambda>_.
     and_then (normalize_session_id session_id) (\<lambda>session_id.
     and_then (normalize_identifier ''model role'' role) (\<lambda>role.
     Inr (session_id, role))))"

definition bindings_current ::
  "host_env \<Rightarrow> int \<Rightarrow> rstr \<Rightarrow> rstr \<Rightarrow> state_db \<Rightarrow> host_error + session_binding option" where
  "bindings_current h owner session_id role db =
     and_then (normalize_key owner session_id role) (\<lambda>(session_id, role).
     query_current h owner session_id role db)"

definition bindings_history ::
  "host_env \<Rightarrow> int \<Rightarrow> rstr \<Rightarrow> rstr \<Rightarrow> state_db \<Rightarrow> host_error + session_binding list" where
  "bindings_history h owner session_id role db =
     and_then (normalize_key owner session_id role) (\<lambda>(session_id, role).
     with_context ''read Session Provider Binding history''
       (collect_results (map (row_to_binding h) (binding_rows owner session_id role db))))"

definition bindings_revision ::
  "host_env \<Rightarrow> int \<Rightarrow> rstr \<Rightarrow> rstr \<Rightarrow> nat \<Rightarrow> state_db \<Rightarrow> host_error + session_binding" where
  "bindings_revision h owner session_id role revision db =
     and_then (normalize_key owner session_id role) (\<lambda>(session_id, role).
     and_then (to_sql_u64 revision) (\<lambda>revision.
     case find (\<lambda>r. binding_key owner session_id role r \<and> sb_revision r = revision) (session_bindings db) of
       None \<Rightarrow> Inl (Bail ''Session Provider Binding revision not found'')
     | Some row \<Rightarrow> row_to_binding h row))"

section \<open>Writing\<close>

definition binding_row_of ::
  "host_env \<Rightarrow> rstr \<Rightarrow> rstr \<Rightarrow> int \<Rightarrow> rstr \<Rightarrow> rstr \<Rightarrow> rstr option \<Rightarrow> nat \<Rightarrow> binding_change_reason
     \<Rightarrow> prepared_route \<Rightarrow> binding_row" where
  "binding_row_of h uuid now owner session_id role agent_id revision reason route =
     \<lparr>sb_binding_id = lit ''spb_'' @ uuid, sb_owner = owner, sb_session_id = session_id,
      sb_role = role, sb_agent_id = agent_id, sb_revision = revision,
      sb_change_reason = lit (reason_as_str reason),
      sb_prepared_route_json = route_to_json h route,
      sb_snapshot_hash = blake3_hex h (route_to_json h route),
      sb_provider_profile_id = rt_provider_profile_id route,
      sb_provider_preset_id = rt_provider_preset_id route, sb_model_id = rt_model_id route,
      sb_protocol = lit (protocol_as_str (rt_protocol route)),
      sb_endpoint_origin = rt_endpoint_origin route,
      sb_profile_route_revision = rt_profile_route_revision route,
      sb_assignment_id = rt_assignment_id route,
      sb_assignment_revision = rt_assignment_revision route,
      sb_catalog_revision = rt_catalog_revision route, sb_bound_at = now\<rparr>"

definition binding_row_check :: "binding_row \<Rightarrow> bool" where
  "binding_row_check r \<longleftrightarrow> sb_owner r > 0 \<and> sb_revision r \<ge> 1 \<and> sb_profile_route_revision r \<ge> 1
     \<and> sb_assignment_revision r \<ge> 1 \<and> sb_catalog_revision r \<ge> 1"

definition binding_conflict :: "binding_row \<Rightarrow> binding_row \<Rightarrow> bool" where
  "binding_conflict row r \<longleftrightarrow> sb_binding_id r = sb_binding_id row
     \<or> binding_key (sb_owner row) (sb_session_id row) (sb_role row) r \<and> sb_revision r = sb_revision row"

text \<open>\<open>INSERT\<close> with the four unsigned columns, the \<open>CHECK\<close> and \<open>UNIQUE\<close> constraints.\<close>

definition insert_binding_row :: "binding_row \<Rightarrow> state_db \<Rightarrow> host_error + state_db" where
  "insert_binding_row row db =
     and_then (to_sql_u64 (sb_revision row)) (\<lambda>_.
     and_then (to_sql_u64 (sb_profile_route_revision row)) (\<lambda>_.
     and_then (to_sql_u64 (sb_assignment_revision row)) (\<lambda>_.
     and_then (to_sql_u64 (sb_catalog_revision row)) (\<lambda>_.
     and_then (bail_if (\<not> binding_row_check row) (Sql (ConstraintCheck ''session_provider_bindings''))) (\<lambda>_.
     and_then (bail_if (list_ex (binding_conflict row) (session_bindings db))
       (Sql (ConstraintUnique ''session_provider_bindings''))) (\<lambda>_.
     Inr (db\<lparr>session_bindings := session_bindings db @ [row]\<rparr>)))))))"

definition insert_binding ::
  "host_env \<Rightarrow> rstr \<Rightarrow> rstr \<Rightarrow> int \<Rightarrow> rstr \<Rightarrow> rstr \<Rightarrow> rstr option \<Rightarrow> nat \<Rightarrow> binding_change_reason
     \<Rightarrow> prepared_route \<Rightarrow> state_db \<Rightarrow> host_error + session_binding \<times> state_db" where
  "insert_binding h uuid now owner session_id role agent_id revision reason route db =
    (let row = binding_row_of h uuid now owner session_id role agent_id revision reason route in
     and_then (with_context ''append Session Provider Binding revision'' (insert_binding_row row db)) (\<lambda>db'.
     Inr (\<lparr>sp_binding_id = sb_binding_id row, sp_owner = owner, sp_session_id = session_id,
           sp_role = role, sp_agent_id = agent_id, sp_revision = revision,
           sp_change_reason = reason, sp_route = route, sp_snapshot_hash = sb_snapshot_hash row,
           sp_bound_at = now\<rparr>, db')))"

text \<open>A transaction keeps its writes only when its body succeeds.\<close>

definition transact :: "host_error + 'a \<times> state_db \<Rightarrow> state_db \<Rightarrow> (host_error + 'a) \<times> state_db" where
  "transact body db = (case body of Inl e \<Rightarrow> (Inl e, db) | Inr (a, db') \<Rightarrow> (Inr a, db'))"

definition bind_initial ::
  "host_env \<Rightarrow> rstr \<Rightarrow> rstr \<Rightarrow> int \<Rightarrow> rstr \<Rightarrow> rstr \<Rightarrow> rstr option \<Rightarrow> prepared_route \<Rightarrow> state_db
     \<Rightarrow> (host_error + session_binding) \<times> state_db" where
  "bind_initial h uuid now owner session_id role agent_id route db =
     transact
      (and_then (normalize_key owner session_id role) (\<lambda>(session_id, role).
       and_then (normalize_optional_identifier ''agent id'' agent_id) (\<lambda>agent_id.
       and_then (query_current h owner session_id role db) (\<lambda>current.
       case current of
         Some c \<Rightarrow> Inr (c, db)
       | None \<Rightarrow> insert_binding h uuid now owner session_id role agent_id 1 Initial route db)))) db"

definition bindings_append ::
  "host_env \<Rightarrow> rstr \<Rightarrow> rstr \<Rightarrow> int \<Rightarrow> rstr \<Rightarrow> rstr \<Rightarrow> rstr option \<Rightarrow> binding_change_reason
     \<Rightarrow> prepared_route \<Rightarrow> state_db \<Rightarrow> (host_error + session_binding) \<times> state_db" where
  "bindings_append h uuid now owner session_id role agent_id reason route db =
     transact
      (and_then (binding_validate_owner owner) (\<lambda>_.
       and_then (bail_if (reason = Initial) (Bail ''initial bindings must use bind_initial'')) (\<lambda>_.
       and_then (normalize_key owner session_id role) (\<lambda>(session_id, role).
       and_then (normalize_optional_identifier ''agent id'' agent_id) (\<lambda>agent_id.
       and_then (query_current h owner session_id role db) (\<lambda>current.
       and_then (ok_or current (Bail ''Session Provider Binding is not initialized'')) (\<lambda>current.
       and_then (bail_if (sp_agent_id current \<noteq> agent_id)
         (Bail ''Session Provider Binding agent identity cannot change'')) (\<lambda>_.
       insert_binding h uuid now owner session_id role agent_id (sp_revision current + 1)
         reason route db)))))))) db"

section \<open>The history of one key\<close>

lemma transact_Inr [simp]: "transact body db = (Inr a, db') \<longleftrightarrow> body = Inr (a, db')"
  by (auto simp: transact_def split: sum.splits)

lemma transact_Inl: "transact body db = (Inl e, db') \<longleftrightarrow> body = Inl e \<and> db' = db"
  by (auto simp: transact_def split: sum.splits)

text \<open>
  The rows of a key carry the revisions 1, 2, .. in table order, the first one and only this one is the
  initial binding, the agent identity never changes, every snapshot has its hash, and the constraints
  of the table hold.
\<close>

definition binding_row_ok :: "host_env \<Rightarrow> binding_row \<Rightarrow> bool" where
  "binding_row_ok h r \<longleftrightarrow> binding_row_check r
     \<and> (\<exists>reason. sb_change_reason r = lit (reason_as_str reason) \<and> (sb_revision r = 1 \<longleftrightarrow> reason = Initial))
     \<and> sb_snapshot_hash r = blake3_hex h (sb_prepared_route_json r)"

definition consecutive :: "binding_row list \<Rightarrow> bool" where
  "consecutive rows \<longleftrightarrow> map sb_revision rows = [1..<Suc (length rows)]"

definition bindings_ok :: "host_env \<Rightarrow> state_db \<Rightarrow> bool" where
  "bindings_ok h db \<longleftrightarrow> unique_on sb_binding_id (session_bindings db)
     \<and> list_all (binding_row_ok h) (session_bindings db)
     \<and> (\<forall>r \<in> set (session_bindings db).
          let rows = filter (binding_key (sb_owner r) (sb_session_id r) (sb_role r)) (session_bindings db) in
          consecutive rows \<and> (\<forall>s \<in> set rows. sb_agent_id s = sb_agent_id r))"

lemma bindings_okD:
  assumes "bindings_ok h db"
  shows "consecutive (filter (binding_key owner s role) (session_bindings db))"
    "r \<in> set (session_bindings db) \<Longrightarrow> binding_key owner s role r \<Longrightarrow> q \<in> set (session_bindings db)
       \<Longrightarrow> binding_key owner s role q \<Longrightarrow> sb_agent_id q = sb_agent_id r"
proof -
  show "consecutive (filter (binding_key owner s role) (session_bindings db))"
  proof (cases "filter (binding_key owner s role) (session_bindings db)")
    case Nil
    then show ?thesis by (simp add: consecutive_def)
  next
    case (Cons r rs)
    then have "r \<in> set (session_bindings db)" "binding_key owner s role r"
      by (auto simp: filter_eq_Cons_iff)
    with assms show ?thesis by (auto simp: bindings_ok_def Let_def binding_key_def)
  qed
  assume r: "r \<in> set (session_bindings db)" "binding_key owner s role r"
    and q: "q \<in> set (session_bindings db)" "binding_key owner s role q"
  have k: "sb_owner r = owner" "sb_session_id r = s" "sb_role r = role"
    using r(2) by (simp_all add: binding_key_def)
  have "\<forall>q \<in> set (filter (binding_key (sb_owner r) (sb_session_id r) (sb_role r)) (session_bindings db)).
      sb_agent_id q = sb_agent_id r"
    using assms r(1) by (simp add: bindings_ok_def Let_def)
  with q show "sb_agent_id q = sb_agent_id r" unfolding k by simp
qed

lemma binding_rows_ok:
  assumes "bindings_ok h db"
  shows "binding_rows owner s role db = filter (binding_key owner s role) (session_bindings db)"
  using bindings_okD(1) [OF assms, of owner s role]
  by (simp add: binding_rows_def consecutive_def sort_key_id_if_sorted del: upt_Suc)

lemma consecutive_append: "consecutive (rows @ [row]) \<longleftrightarrow> consecutive rows \<and> sb_revision row = Suc (length rows)"
  by (auto simp: consecutive_def)

lemma consecutive_last: "consecutive (rows @ [row]) \<Longrightarrow> sb_revision row = Suc (length rows)"
  by (simp add: consecutive_append)

section \<open>What a write does\<close>

definition binding_of :: "binding_row \<Rightarrow> binding_change_reason \<Rightarrow> prepared_route \<Rightarrow> session_binding" where
  "binding_of row reason route = \<lparr>sp_binding_id = sb_binding_id row, sp_owner = sb_owner row,
     sp_session_id = sb_session_id row, sp_role = sb_role row, sp_agent_id = sb_agent_id row,
     sp_revision = sb_revision row, sp_change_reason = reason, sp_route = route,
     sp_snapshot_hash = sb_snapshot_hash row, sp_bound_at = sb_bound_at row\<rparr>"

lemma binding_row_of_simps [simp]:
  "sb_owner (binding_row_of h uuid now owner s role agent n reason route) = owner"
  "sb_session_id (binding_row_of h uuid now owner s role agent n reason route) = s"
  "sb_role (binding_row_of h uuid now owner s role agent n reason route) = role"
  "sb_agent_id (binding_row_of h uuid now owner s role agent n reason route) = agent"
  "sb_revision (binding_row_of h uuid now owner s role agent n reason route) = n"
  "sb_change_reason (binding_row_of h uuid now owner s role agent n reason route) = lit (reason_as_str reason)"
  "sb_binding_id (binding_row_of h uuid now owner s role agent n reason route) = lit ''spb_'' @ uuid"
  "sb_snapshot_hash (binding_row_of h uuid now owner s role agent n reason route) = blake3_hex h (route_to_json h route)"
  "sb_prepared_route_json (binding_row_of h uuid now owner s role agent n reason route) = route_to_json h route"
  by (simp_all add: binding_row_of_def)

lemma row_to_binding_of:
  assumes "route_from_json h (route_to_json h route) = Some route"
  shows "row_to_binding h (binding_row_of h uuid now owner s role agent n reason route)
    = Inr (binding_of (binding_row_of h uuid now owner s role agent n reason route) reason route)"
  using assms by (simp add: row_to_binding_def binding_of_def)

lemma insert_bindingD:
  assumes "insert_binding h uuid now owner s role agent n reason route db = Inr (b, db')"
  defines "row \<equiv> binding_row_of h uuid now owner s role agent n reason route"
  shows "db' = db\<lparr>session_bindings := session_bindings db @ [row]\<rparr>" "b = binding_of row reason route"
    "binding_row_check row" "\<forall>r \<in> set (session_bindings db). \<not> binding_conflict row r"
  using assms(1) unfolding row_def
  by (auto simp: insert_binding_def insert_binding_row_def Let_def result_simps binding_of_def list_ex_iff
      binding_row_of_def)

lemma bindings_ok_insert:
  assumes "bindings_ok h db" "insert_binding h uuid now owner s role agent n reason route db = Inr (b, db')"
    and "n = Suc (length (filter (binding_key owner s role) (session_bindings db)))"
    and "n = 1 \<longleftrightarrow> reason = Initial"
    and "\<And>r. r \<in> set (session_bindings db) \<Longrightarrow> binding_key owner s role r \<Longrightarrow> sb_agent_id r = agent"
  shows "bindings_ok h db'"
proof -
  let ?row = "binding_row_of h uuid now owner s role agent n reason route"
  note ins = insert_bindingD [OF assms(2)]
  have key: "binding_key o' s' role' ?row \<longleftrightarrow> o' = owner \<and> s' = s \<and> role' = role" for o' s' role'
    by (auto simp: binding_key_def)
  have con: "consecutive (filter (binding_key o' s' role') (session_bindings db @ [?row]))" for o' s' role'
    using bindings_okD(1) [OF assms(1), of o' s' role'] assms(3) key [of o' s' role']
    by (cases "binding_key o' s' role' ?row") (auto simp: consecutive_append)
  have ag: "sb_agent_id q = sb_agent_id r"
    if "r \<in> set (session_bindings db @ [?row])" "q \<in> set (session_bindings db @ [?row])"
      "binding_key (sb_owner r) (sb_session_id r) (sb_role r) q" for r q
  proof -
    have k: "binding_key (sb_owner r) (sb_session_id r) (sb_role r) r" by (simp add: binding_key_def)
    from that consider "r \<in> set (session_bindings db)" "q \<in> set (session_bindings db)"
      | "r = ?row" "q \<in> set (session_bindings db)" | "r \<in> set (session_bindings db)" "q = ?row" | "r = ?row" "q = ?row"
      by auto
    then show ?thesis
    proof cases
      case 1
      with bindings_okD(2) [OF assms(1), OF _ k] that(3) show ?thesis by blast
    next
      case 2
      with assms(5) [of q] that(3) show ?thesis by simp
    next
      case 3
      with that(3) have "binding_key owner s role r" by (auto simp: key binding_key_def)
      with assms(5) [of r] 3 show ?thesis by simp
    qed simp
  qed
  have "binding_row_ok h ?row"
    using ins(3) assms(4) by (auto simp: binding_row_ok_def)
  moreover have "\<forall>r \<in> set (session_bindings db). sb_binding_id r \<noteq> sb_binding_id ?row"
    using ins(4) by (auto simp: binding_conflict_def)
  ultimately show ?thesis
    unfolding bindings_ok_def ins(1) Let_def using assms(1) con ag
    by (auto simp: bindings_ok_def intro: unique_on_append simp del: filter_append)
qed

lemma query_current_ok:
  assumes "bindings_ok h db" "query_current h owner s role db = Inr (Some c)"
  shows "sp_revision c = length (filter (binding_key owner s role) (session_bindings db))"
    "\<And>r. r \<in> set (session_bindings db) \<Longrightarrow> binding_key owner s role r \<Longrightarrow> sb_agent_id r = sp_agent_id c"
proof -
  obtain row rows where r: "filter (binding_key owner s role) (session_bindings db) = rows @ [row]"
      "row_to_binding h row = Inr c"
    using assms(2) unfolding query_current_def binding_rows_ok [OF assms(1)]
    by (cases "filter (binding_key owner s role) (session_bindings db)" rule: rev_cases) (auto simp: result_simps)
  have "consecutive (rows @ [row])"
    using bindings_okD(1) [OF assms(1), of owner s role] r(1) by simp
  then show "sp_revision c = length (filter (binding_key owner s role) (session_bindings db))"
    using r by (auto dest: consecutive_last simp: row_to_binding_def result_simps)
  have "row \<in> set (filter (binding_key owner s role) (session_bindings db))" by (simp add: r(1))
  then show "sb_agent_id q = sp_agent_id c" if "q \<in> set (session_bindings db)" "binding_key owner s role q" for q
    using bindings_okD(2) [OF assms(1), of row owner s role q] that r(2)
    by (auto simp: row_to_binding_def result_simps)
qed

lemma query_current_None:
  "bindings_ok h db \<Longrightarrow> query_current h owner s role db = Inr None
    \<longleftrightarrow> filter (binding_key owner s role) (session_bindings db) = []"
  by (auto simp: query_current_def binding_rows_ok result_simps split: list.splits)

lemma query_current_append:
  assumes "bindings_ok h db'" "session_bindings db' = session_bindings db @ [row]" "binding_key owner s role row"
  shows "query_current h owner s role db' = and_then (row_to_binding h row) (\<lambda>b. Inr (Some b))"
  by (simp add: query_current_def binding_rows_ok [OF assms(1)] assms(2,3))

lemma bind_initial_cases:
  assumes "bind_initial h uuid now owner session_id role0 agent_id route db = (res, db')"
  obtains (failed) e where "res = Inl e" "db' = db"
  | (existing) s role agent c where "normalize_key owner session_id role0 = Inr (s, role)"
      "normalize_optional_identifier ''agent id'' agent_id = Inr agent"
      "query_current h owner s role db = Inr (Some c)" "res = Inr c" "db' = db"
  | (bound) s role agent b where "normalize_key owner session_id role0 = Inr (s, role)"
      "normalize_optional_identifier ''agent id'' agent_id = Inr agent"
      "query_current h owner s role db = Inr None" "res = Inr b"
      "insert_binding h uuid now owner s role agent 1 Initial route db = Inr (b, db')"
proof (cases res)
  case (Inl e)
  with assms show ?thesis by (intro failed) (auto simp: bind_initial_def transact_Inl)
next
  case (Inr b)
  with assms obtain s role agent current where k: "normalize_key owner session_id role0 = Inr (s, role)"
      "normalize_optional_identifier ''agent id'' agent_id = Inr agent"
      "query_current h owner s role db = Inr current"
    and r: "(case current of Some c \<Rightarrow> Inr (c, db)
      | None \<Rightarrow> insert_binding h uuid now owner s role agent 1 Initial route db) = Inr (b, db')"
    by (auto simp: bind_initial_def result_simps simp del: One_nat_def)
  show ?thesis
  proof (cases current)
    case None
    with k r Inr show ?thesis by (intro bound) auto
  next
    case (Some c)
    with k r Inr show ?thesis by (intro existing) auto
  qed
qed

lemma bindings_append_cases:
  assumes "bindings_append h uuid now owner session_id role0 agent_id reason route db = (res, db')"
  obtains (failed) e where "res = Inl e" "db' = db"
  | (appended) s role c b where "normalize_key owner session_id role0 = Inr (s, role)"
      "normalize_optional_identifier ''agent id'' agent_id = Inr (sp_agent_id c)"
      "query_current h owner s role db = Inr (Some c)" "reason \<noteq> Initial" "res = Inr b"
      "insert_binding h uuid now owner s role (sp_agent_id c) (sp_revision c + 1) reason route db = Inr (b, db')"
proof (cases res)
  case (Inl e)
  with assms show ?thesis by (intro failed) (auto simp: bindings_append_def transact_Inl)
next
  case (Inr b)
  with assms show ?thesis
    by (auto simp: bindings_append_def result_simps intro: appended)
qed

lemma bindings_ok_initial:
  assumes "bindings_ok h db" "bind_initial h uuid now owner session_id role0 agent_id route db = (res, db')"
  shows "bindings_ok h db'"
  using assms(2)
proof (cases rule: bind_initial_cases)
  case (bound s role agent b)
  have e: "filter (binding_key owner s role) (session_bindings db) = []"
    using query_current_None [OF assms(1)] bound(3) by blast
  then show ?thesis
    by (intro bindings_ok_insert [OF assms(1) bound(5)]) (auto simp: filter_empty_conv)
qed (use assms in auto)

lemma bindings_ok_append:
  assumes "bindings_ok h db"
    and "bindings_append h uuid now owner session_id role0 agent_id reason route db = (res, db')"
  shows "bindings_ok h db'"
  using assms(2)
proof (cases rule: bindings_append_cases)
  case (appended s role c b)
  note q = query_current_ok [OF assms(1) appended(3)]
  have "filter (binding_key owner s role) (session_bindings db) \<noteq> []"
    using query_current_None [OF assms(1), of owner s role] appended(3) by auto
  then have "sp_revision c \<noteq> 0" using q(1) by simp
  then show ?thesis using appended(4) q
    by (intro bindings_ok_insert [OF assms(1) appended(6)]) auto
qed (use assms in auto)

section \<open>Properties of the history\<close>

lemma normalized_key_again:
  assumes "normalize_key owner session_id role0 = Inr (s, role)"
  shows "bindings_current h owner session_id role0 db = query_current h owner s role db"
    "bindings_history h owner session_id role0 db = with_context ''read Session Provider Binding history''
       (collect_results (map (row_to_binding h) (binding_rows owner s role db)))"
  using assms by (simp_all add: bindings_current_def bindings_history_def)

lemma binding_of_fields [simp]:
  "sp_revision (binding_of row reason route) = sb_revision row"
  "sp_agent_id (binding_of row reason route) = sb_agent_id row"
  "sp_route (binding_of row reason route) = route"
  "sp_owner (binding_of row reason route) = sb_owner row"
  "sp_session_id (binding_of row reason route) = sb_session_id row"
  "sp_role (binding_of row reason route) = sb_role row"
  "sp_change_reason (binding_of row reason route) = reason"
  "sp_snapshot_hash (binding_of row reason route) = sb_snapshot_hash row"
  by (simp_all add: binding_of_def)

text \<open>the first binding of a session and role wins: after \<open>bind_initial\<close> has answered, every further
  \<open>bind_initial\<close> for the key, with whatever route and agent, answers with the same binding and writes
  nothing; what it answered is the current binding.\<close>

theorem bind_initial_is_idempotent:
  assumes "bindings_ok h db" "route_from_json h (route_to_json h route) = Some route"
    and "bind_initial h uuid now owner session_id role agent_id route db = (Inr b, db1)"
    and "normalize_optional_identifier ''agent id'' agent_id2 = Inr a2"
  shows "bind_initial h uuid2 now2 owner session_id role agent_id2 route2 db1 = (Inr b, db1)
    \<and> bindings_current h owner session_id role db1 = Inr (Some b)"
proof -
  have "\<exists>s r. normalize_key owner session_id role = Inr (s, r) \<and> query_current h owner s r db1 = Inr (Some b)"
    using assms(3)
  proof (cases rule: bind_initial_cases)
    case (bound s r agent b')
    have ok: "bindings_ok h db1" by (rule bindings_ok_initial [OF assms(1,3)])
    note ins = insert_bindingD [OF bound(5)]
    have "query_current h owner s r db1 = Inr (Some b')"
      using row_to_binding_of [OF assms(2)] ins(2)
      by (subst query_current_append [OF ok ins(1) [THEN arg_cong [of _ _ session_bindings], simplified]])
        (simp_all add: binding_key_def)
    with bound show ?thesis by auto
  qed auto
  then obtain s r where k: "normalize_key owner session_id role = Inr (s, r)"
    "query_current h owner s r db1 = Inr (Some b)" by blast
  then show ?thesis using assms(4) by (simp add: bind_initial_def normalized_key_again [OF k(1)])
qed

text \<open>an appended binding becomes the current one, with the next revision, the agent identity of its
  predecessor and the given reason and route; the history read back is the old history with this binding
  at the end, so that no older revision is ever changed or lost.\<close>

theorem append_extends_history:
  assumes "bindings_ok h db" "route_from_json h (route_to_json h route) = Some route"
    and "bindings_append h uuid now owner session_id role agent_id reason route db = (Inr b, db')"
    and "bindings_history h owner session_id role db = Inr history"
  shows "history \<noteq> [] \<and> sp_revision b = Suc (length history) \<and> sp_agent_id b = sp_agent_id (last history)
    \<and> sp_route b = route \<and> sp_change_reason b = reason \<and> reason \<noteq> Initial
    \<and> bindings_history h owner session_id role db' = Inr (history @ [b])
    \<and> bindings_current h owner session_id role db' = Inr (Some b)"
  using assms(3)
proof (cases rule: bindings_append_cases)
  case (appended s r c b')
  have b: "b' = b" using appended(5) by simp
  let ?rows = "filter (binding_key owner s r) (session_bindings db)"
  let ?row = "binding_row_of h uuid now owner s r (sp_agent_id c) (Suc (sp_revision c)) reason route"
  note ins = insert_bindingD [OF appended(6), unfolded Suc_eq_plus1 [symmetric]]
  have ok: "bindings_ok h db'" by (rule bindings_ok_append [OF assms(1,3)])
  have rec: "row_to_binding h ?row = Inr b" using row_to_binding_of [OF assms(2)] ins(2) b by simp
  have rows': "filter (binding_key owner s r) (session_bindings db') = ?rows @ [?row]"
    by (simp add: ins(1) binding_key_def)
  have hist: "map (row_to_binding h) ?rows = map Inr history"
    using assms(4) by (simp add: normalized_key_again [OF appended(1)] binding_rows_ok [OF assms(1)]
        map_err_eq_Inr collect_results_eq_Inr)
  then have len: "length history = length ?rows" using map_eq_imp_length_eq by fastforce
  have ne: "?rows \<noteq> []"
    using query_current_None [OF assms(1), of owner s r] appended(3) by auto
  then have "history \<noteq> []" using len by auto
  obtain rs x where rs: "?rows = rs @ [x]" using ne by (cases ?rows rule: rev_cases) auto
  then have "row_to_binding h x = Inr c"
    using appended(3) by (simp add: query_current_def binding_rows_ok [OF assms(1)] result_simps)
  moreover have "row_to_binding h x = Inr (last history)"
    using hist rs \<open>history \<noteq> []\<close> by (metis last_map last_snoc ne)
  ultimately have c: "c = last history" by simp
  have "bindings_history h owner session_id role db' = Inr (history @ [b])"
    by (simp add: normalized_key_again [OF appended(1)] binding_rows_ok [OF ok] rows' hist rec
        map_err_eq_Inr collect_results_eq_Inr)
  moreover have "bindings_current h owner session_id role db' = Inr (Some b)"
    by (simp add: normalized_key_again [OF appended(1)] query_current_def binding_rows_ok [OF ok] rows' rec)
  ultimately show ?thesis
    using \<open>history \<noteq> []\<close> appended(4) ins(2) b c len query_current_ok(1) [OF assms(1) appended(3)] by simp
qed simp

definition sample_binding_db :: state_db where
  "sample_binding_db = empty_db\<lparr>session_bindings :=
     [binding_row_of sample_env [49] [48] 7 [115] [109] None 1 Initial sample_route]\<rparr>"

lemma sample_key_normalized: "normalize_key 7 [115] [109] = Inr ([115], [109])"
  by (simp add: normalize_key_def binding_validate_owner_def normalize_session_id_def normalize_identifier_def
      trim_def trim_start_def trim_end_def is_whitespace_def str_len_def str_bytes_def utf8_encode_def
      is_control_def binding_identifier_byte_def is_ascii_alphanumeric_def is_ascii_digit_def is_ascii_lowercase_def)

lemma sample_route_codec: "route_from_json sample_env (route_to_json sample_env sample_route) = Some sample_route"
  by (simp add: sample_env_def sample_route_def)

lemma sample_initial:
  "bind_initial sample_env [49] [48] 7 [115] [109] None sample_route empty_db
    = (Inr (binding_of (binding_row_of sample_env [49] [48] 7 [115] [109] None 1 Initial sample_route) Initial sample_route),
       sample_binding_db)"
  by (simp add: bind_initial_def sample_key_normalized normalize_optional_identifier_def query_current_def
      binding_rows_def empty_db_def insert_binding_def insert_binding_row_def binding_row_of_def to_sql_u64_def
      sql_int_max_def binding_row_check_def sample_route_def transact_def sample_binding_db_def binding_of_def Let_def)

lemma sample_binding_ok: "bindings_ok sample_env sample_binding_db"
  by (rule bindings_ok_initial [OF _ sample_initial]) (simp add: bindings_ok_def empty_db_def)

lemma bind_initial_is_idempotent_witness:
  "fst (bind_initial sample_env [50] [51] 7 [115] [109] (Some [65]) (sample_route\<lparr>rt_model_id := [120]\<rparr>) sample_binding_db)
    = Inr (binding_of (binding_row_of sample_env [49] [48] 7 [115] [109] None 1 Initial sample_route) Initial sample_route)"
proof -
  have "bindings_ok sample_env empty_db" by (simp add: bindings_ok_def empty_db_def)
  moreover have "normalize_optional_identifier ''agent id'' (Some [65]) = Inr (Some [65])"
    by (simp add: normalize_optional_identifier_def normalize_identifier_def trim_def trim_start_def trim_end_def
        is_whitespace_def str_len_def str_bytes_def utf8_encode_def binding_identifier_byte_def
        is_ascii_alphanumeric_def is_ascii_digit_def is_ascii_lowercase_def)
  ultimately show ?thesis
    using bind_initial_is_idempotent [OF _ sample_route_codec sample_initial, of "Some [65]" "Some [65]" "[50]" "[51]"]
    by simp
qed

lemma append_extends_history_witness:
  "\<exists>b db'. bindings_append sample_env [50] [51] 7 [115] [109] None ExplicitSwitch sample_route sample_binding_db
     = (Inr b, db') \<and> sp_revision b = 2"
proof -
  have cur: "query_current sample_env 7 [115] [109] sample_binding_db
      = Inr (Some (binding_of (binding_row_of sample_env [49] [48] 7 [115] [109] None 1 Initial sample_route) Initial sample_route))"
    by (simp add: query_current_def binding_rows_def sample_binding_db_def binding_key_def row_to_binding_of
        sample_route_codec)
  have hist: "bindings_history sample_env 7 [115] [109] sample_binding_db
      = Inr [binding_of (binding_row_of sample_env [49] [48] 7 [115] [109] None 1 Initial sample_route) Initial sample_route]"
    by (simp add: normalized_key_again [OF sample_key_normalized] binding_rows_def sample_binding_db_def binding_key_def
        row_to_binding_of sample_route_codec)
  obtain res db' where a: "bindings_append sample_env [50] [51] 7 [115] [109] None ExplicitSwitch sample_route
      sample_binding_db = (res, db')" by fastforce
  have "is_ok (fst (bindings_append sample_env [50] [51] 7 [115] [109] None ExplicitSwitch sample_route sample_binding_db))"
    by (simp add: bindings_append_def binding_validate_owner_def sample_key_normalized normalize_optional_identifier_def
        cur transact_def insert_binding_def insert_binding_row_def)
      (simp add: binding_row_of_def to_sql_u64_def sql_int_max_def binding_row_check_def sample_route_def
        sample_binding_db_def binding_conflict_def binding_key_def)
  then obtain b where b: "res = Inr b" unfolding a by (cases res) auto
  from append_extends_history [OF sample_binding_ok sample_route_codec a [unfolded b] hist] a b show ?thesis by simp
qed

end
