(* ===== verification/Turn_Routes.thy ===== *)
theory Turn_Routes
  imports Session_Bindings
begin

text \<open>
  \<open>turn_routes.rs\<close>: the durable audit record of the route a turn was submitted with, at most
  one per account, session, role and turn.
\<close>

record turn_record =
  tn_turn_route_id :: rstr
  tn_owner :: int
  tn_session_id :: rstr
  tn_turn_id :: rstr
  tn_role :: rstr
  tn_binding_revision :: nat
  tn_binding_snapshot_hash :: rstr
  tn_provider_profile_id :: rstr
  tn_provider_preset_id :: "rstr option"
  tn_model_id :: rstr
  tn_protocol :: provider_protocol
  tn_endpoint_origin :: rstr
  tn_submitted_at :: rstr

definition turn_normalize_id :: "string \<Rightarrow> rstr \<Rightarrow> host_error + rstr" where
  "turn_normalize_id label value =
    (let value = trim value in
     if value = [] \<or> str_len value > 200 \<or> list_ex is_control value
     then Inl (Bailf ''{label} is invalid'' [lit label]) else Inr value)"

definition turn_row_to_record :: "turn_row \<Rightarrow> host_error + turn_record" where
  "turn_row_to_record row =
     and_then (map_err (\<lambda>_. Sql (FromSqlConversion 10)) (protocol_parse (tr_protocol row))) (\<lambda>protocol.
     Inr \<lparr>tn_turn_route_id = tr_turn_route_id row, tn_owner = tr_owner row,
          tn_session_id = tr_session_id row, tn_turn_id = tr_turn_id row, tn_role = tr_role row,
          tn_binding_revision = tr_binding_revision row,
          tn_binding_snapshot_hash = tr_binding_snapshot_hash row,
          tn_provider_profile_id = tr_provider_profile_id row,
          tn_provider_preset_id = tr_provider_preset_id row, tn_model_id = tr_model_id row,
          tn_protocol = protocol, tn_endpoint_origin = tr_endpoint_origin row,
          tn_submitted_at = tr_submitted_at row\<rparr>)"

definition turn_key :: "int \<Rightarrow> rstr \<Rightarrow> rstr \<Rightarrow> rstr \<Rightarrow> turn_row \<Rightarrow> bool" where
  "turn_key owner session_id role turn_id r \<longleftrightarrow> tr_owner r = owner \<and> tr_session_id r = session_id
     \<and> tr_role r = role \<and> tr_turn_id r = turn_id"

definition query_turn ::
  "int \<Rightarrow> rstr \<Rightarrow> rstr \<Rightarrow> rstr \<Rightarrow> state_db \<Rightarrow> host_error + turn_record option" where
  "query_turn owner session_id role turn_id db =
    (case find (turn_key owner session_id role turn_id) (turn_routes db) of
       None \<Rightarrow> Inr None
     | Some row \<Rightarrow> and_then (turn_row_to_record row) (\<lambda>r. Inr (Some r)))"

definition different_binding :: "turn_record \<Rightarrow> session_binding \<Rightarrow> bool" where
  "different_binding r b \<longleftrightarrow> tn_binding_revision r \<noteq> sp_revision b
     \<or> tn_binding_snapshot_hash r \<noteq> sp_snapshot_hash b"

definition validate_submission :: "int \<Rightarrow> rstr \<Rightarrow> session_binding \<Rightarrow> state_db \<Rightarrow> host_error + unit" where
  "validate_submission owner turn_id binding db =
     and_then (bail_if (sp_owner binding \<noteq> owner)
       (Bail ''Turn route account does not match Binding owner'')) (\<lambda>_.
     and_then (turn_normalize_id ''turn id'' turn_id) (\<lambda>turn_id.
     and_then (query_turn owner (sp_session_id binding) (sp_role binding) turn_id db) (\<lambda>found.
     case found of
       None \<Rightarrow> Inr ()
     | Some record \<Rightarrow> bail_if (different_binding record binding)
         (Bail ''Turn is already recorded with a different Binding revision''))))"

definition turn_row_of :: "rstr \<Rightarrow> rstr \<Rightarrow> int \<Rightarrow> rstr \<Rightarrow> session_binding \<Rightarrow> turn_row" where
  "turn_row_of uuid now owner turn_id binding =
     \<lparr>tr_turn_route_id = lit ''trr_'' @ uuid, tr_owner = owner,
      tr_session_id = sp_session_id binding, tr_turn_id = turn_id, tr_role = sp_role binding,
      tr_binding_revision = sp_revision binding,
      tr_binding_snapshot_hash = sp_snapshot_hash binding,
      tr_provider_profile_id = rt_provider_profile_id (sp_route binding),
      tr_provider_preset_id = rt_provider_preset_id (sp_route binding),
      tr_model_id = rt_model_id (sp_route binding),
      tr_protocol = lit (protocol_as_str (rt_protocol (sp_route binding))),
      tr_endpoint_origin = rt_endpoint_origin (sp_route binding), tr_submitted_at = now\<rparr>"

text \<open>\<open>INSERT .. ON CONFLICT(owner_account_id, session_id, role, turn_id) DO NOTHING\<close>.\<close>

definition insert_turn_row :: "turn_row \<Rightarrow> state_db \<Rightarrow> host_error + state_db" where
  "insert_turn_row row db =
     and_then (bail_if (\<not> (tr_owner row > 0 \<and> tr_binding_revision row \<ge> 1))
       (Sql (ConstraintCheck ''turn_route_records''))) (\<lambda>_.
     if list_ex (turn_key (tr_owner row) (tr_session_id row) (tr_role row) (tr_turn_id row)) (turn_routes db)
     then Inr db
     else
       and_then (bail_if (list_ex (\<lambda>r. tr_turn_route_id r = tr_turn_route_id row) (turn_routes db))
         (Sql (ConstraintUnique ''turn_route_records''))) (\<lambda>_.
       Inr (db\<lparr>turn_routes := turn_routes db @ [row]\<rparr>)))"

definition persisted_binding :: "int \<Rightarrow> session_binding \<Rightarrow> binding_row \<Rightarrow> bool" where
  "persisted_binding owner binding r \<longleftrightarrow>
     binding_key owner (sp_session_id binding) (sp_role binding) r
     \<and> sb_revision r = sp_revision binding \<and> sb_snapshot_hash r = sp_snapshot_hash binding"

definition record_submitted ::
  "rstr \<Rightarrow> rstr \<Rightarrow> int \<Rightarrow> rstr \<Rightarrow> session_binding \<Rightarrow> state_db \<Rightarrow> (host_error + turn_record) \<times> state_db" where
  "record_submitted uuid now owner turn_id binding db =
     transact
      (and_then (bail_if (sp_owner binding \<noteq> owner)
         (Bail ''Turn route account does not match Binding owner'')) (\<lambda>_.
       and_then (turn_normalize_id ''turn id'' turn_id) (\<lambda>turn_id.
       and_then (to_sql_u64 (sp_revision binding)) (\<lambda>_.
       and_then (bail_if (\<not> list_ex (persisted_binding owner binding) (session_bindings db))
         (Bail ''Turn route requires a persisted Session Provider Binding'')) (\<lambda>_.
       and_then (insert_turn_row (turn_row_of uuid now owner turn_id binding) db) (\<lambda>db'.
       and_then (query_turn owner (sp_session_id binding) (sp_role binding) turn_id db') (\<lambda>found.
       and_then (ok_or found (Bail ''inserted or existing Turn Route Record exists'')) (\<lambda>record.
       and_then (bail_if (different_binding record binding)
         (Bail ''Turn is already recorded with a different Binding revision'')) (\<lambda>_.
       Inr (record, db')))))))))) db"

definition turns_list_session :: "int \<Rightarrow> rstr \<Rightarrow> rstr \<Rightarrow> state_db \<Rightarrow> host_error + turn_record list" where
  "turns_list_session owner session_id role db =
     and_then (bail_if (owner \<le> 0) (Bail ''AgentMesh360 account id is invalid'')) (\<lambda>_.
     and_then (turn_normalize_id ''session id'' session_id) (\<lambda>session_id.
     and_then (turn_normalize_id ''model role'' role) (\<lambda>role.
     with_context ''read Turn Route Records''
       (collect_results (map turn_row_to_record
         (sort_key tr_submitted_at
           (filter (\<lambda>r. tr_owner r = owner \<and> tr_session_id r = session_id \<and> tr_role r = role)
             (turn_routes db))))))))"

section \<open>The table of turn routes\<close>

definition turn_key_of :: "turn_row \<Rightarrow> int \<times> rstr \<times> rstr \<times> rstr" where
  "turn_key_of r = (tr_owner r, tr_session_id r, tr_role r, tr_turn_id r)"

lemma turn_key_iff: "turn_key owner s role t r \<longleftrightarrow> turn_key_of r = (owner, s, role, t)"
  by (auto simp: turn_key_def turn_key_of_def)

text \<open>
  At most one row per account, session, role and turn, and every row names a revision and a snapshot
  hash that stand in the binding history of its key.
\<close>

definition names_binding :: "state_db \<Rightarrow> turn_row \<Rightarrow> bool" where
  "names_binding db r \<longleftrightarrow> list_ex (\<lambda>q. binding_key (tr_owner r) (tr_session_id r) (tr_role r) q
     \<and> sb_revision q = tr_binding_revision r \<and> sb_snapshot_hash q = tr_binding_snapshot_hash r) (session_bindings db)"

definition turns_ok :: "state_db \<Rightarrow> bool" where
  "turns_ok db \<longleftrightarrow> unique_on turn_key_of (turn_routes db) \<and> unique_on tr_turn_route_id (turn_routes db)
     \<and> list_all (names_binding db) (turn_routes db)"

lemma turns_ok_more_bindings:
  assumes "turns_ok db" "turn_routes db' = turn_routes db"
    and "set (session_bindings db) \<subseteq> set (session_bindings db')"
  shows "turns_ok db'"
  using assms by (auto simp: turns_ok_def names_binding_def list_all_iff list_ex_iff) blast

definition turn_of :: "turn_row \<Rightarrow> provider_protocol \<Rightarrow> turn_record" where
  "turn_of row protocol = \<lparr>tn_turn_route_id = tr_turn_route_id row, tn_owner = tr_owner row,
     tn_session_id = tr_session_id row, tn_turn_id = tr_turn_id row, tn_role = tr_role row,
     tn_binding_revision = tr_binding_revision row, tn_binding_snapshot_hash = tr_binding_snapshot_hash row,
     tn_provider_profile_id = tr_provider_profile_id row, tn_provider_preset_id = tr_provider_preset_id row,
     tn_model_id = tr_model_id row, tn_protocol = protocol, tn_endpoint_origin = tr_endpoint_origin row,
     tn_submitted_at = tr_submitted_at row\<rparr>"

lemma turn_row_to_record_of: "turn_row_to_record row = Inr r \<longleftrightarrow>
    (\<exists>protocol. protocol_parse (tr_protocol row) = Inr protocol \<and> r = turn_of row protocol)"
  by (auto simp: turn_row_to_record_def turn_of_def result_simps)

lemma turn_row_of_simps [simp]:
  "tr_owner (turn_row_of uuid now owner t b) = owner"
  "tr_session_id (turn_row_of uuid now owner t b) = sp_session_id b"
  "tr_role (turn_row_of uuid now owner t b) = sp_role b"
  "tr_turn_id (turn_row_of uuid now owner t b) = t"
  "tr_binding_revision (turn_row_of uuid now owner t b) = sp_revision b"
  "tr_binding_snapshot_hash (turn_row_of uuid now owner t b) = sp_snapshot_hash b"
  "tr_protocol (turn_row_of uuid now owner t b) = lit (protocol_as_str (rt_protocol (sp_route b)))"
  by (simp_all add: turn_row_of_def)

lemma record_cases:
  assumes "record_submitted uuid now owner turn_id b db = (res, db')"
  obtains (failed) e where "res = Inl e" "db' = db"
  | (recorded) t r where "turn_normalize_id ''turn id'' turn_id = Inr t" "res = Inr r" "sp_owner b = owner"
      "sp_revision b \<le> sql_int_max"
      "list_ex (persisted_binding owner b) (session_bindings db)" "0 < owner" "1 \<le> sp_revision b"
      "query_turn owner (sp_session_id b) (sp_role b) t db' = Inr (Some r)"
      "tn_binding_revision r = sp_revision b" "tn_binding_snapshot_hash r = sp_snapshot_hash b"
      "if list_ex (turn_key owner (sp_session_id b) (sp_role b) t) (turn_routes db) then db' = db
       else db' = db\<lparr>turn_routes := turn_routes db @ [turn_row_of uuid now owner t b]\<rparr>
         \<and> (\<forall>q \<in> set (turn_routes db). tr_turn_route_id q \<noteq> tr_turn_route_id (turn_row_of uuid now owner t b))"
proof (cases res)
  case (Inl e)
  with assms show ?thesis by (intro failed) (auto simp: record_submitted_def transact_Inl)
next
  case (Inr r)
  with assms obtain t where t: "turn_normalize_id ''turn id'' turn_id = Inr t" "sp_owner b = owner"
      "sp_revision b \<le> sql_int_max" "list_ex (persisted_binding owner b) (session_bindings db)"
    and ins: "insert_turn_row (turn_row_of uuid now owner t b) db = Inr db'"
    and q: "query_turn owner (sp_session_id b) (sp_role b) t db' = Inr (Some r)" "\<not> different_binding r b"
    by (auto simp: record_submitted_def result_simps)
  from ins have c: "0 < owner" "1 \<le> sp_revision b"
    "if list_ex (turn_key owner (sp_session_id b) (sp_role b) t) (turn_routes db) then db' = db
       else db' = db\<lparr>turn_routes := turn_routes db @ [turn_row_of uuid now owner t b]\<rparr>
         \<and> (\<forall>q \<in> set (turn_routes db). tr_turn_route_id q \<noteq> tr_turn_route_id (turn_row_of uuid now owner t b))"
    by (auto simp: insert_turn_row_def result_simps list_ex_iff split: if_splits)
  from q(2) have d: "tn_binding_revision r = sp_revision b" "tn_binding_snapshot_hash r = sp_snapshot_hash b"
    by (simp_all add: different_binding_def)
  show ?thesis by (rule recorded [OF t(1) Inr t(2-4) c(1,2) q(1) d c(3)])
qed

lemma turns_ok_record:
  assumes "turns_ok db" "record_submitted uuid now owner turn_id b db = (res, db')"
  shows "turns_ok db'"
  using assms(2)
proof (cases rule: record_cases)
  case (recorded t r)
  let ?row = "turn_row_of uuid now owner t b"
  show ?thesis
  proof (cases "list_ex (turn_key owner (sp_session_id b) (sp_role b) t) (turn_routes db)")
    case False
    then have new: "\<forall>q \<in> set (turn_routes db). turn_key_of q \<noteq> turn_key_of ?row"
      by (auto simp: list_ex_iff turn_key_def turn_key_of_def)
    have db': "db' = db\<lparr>turn_routes := turn_routes db @ [?row]\<rparr>"
      "\<forall>q \<in> set (turn_routes db). tr_turn_route_id q \<noteq> tr_turn_route_id ?row"
      using recorded(11) False by auto
    have nb: "names_binding db' = names_binding db" by (simp add: fun_eq_iff names_binding_def db'(1))
    have "names_binding db ?row"
      using recorded(5) by (simp add: names_binding_def persisted_binding_def [abs_def])
    with assms(1) new db'(2) show ?thesis
      by (auto simp: turns_ok_def nb) (auto simp: db'(1) intro: unique_on_append)
  qed (use recorded(11) assms in auto)
qed (use assms in auto)

text \<open>The row behind a record: it stands under the key of the turn and names the binding, and it is the only
  one that can be new.\<close>

lemma record_submitted_row:
  assumes "record_submitted uuid now owner turn_id b db = (Inr r, db')"
  obtains t row where "turn_normalize_id ''turn id'' turn_id = Inr t" "row \<in> set (turn_routes db')"
    "turn_key owner (sp_session_id b) (sp_role b) t row" "turn_row_to_record row = Inr r"
    "tr_binding_revision row = sp_revision b" "tr_binding_snapshot_hash row = sp_snapshot_hash b"
    "db' = db \<or> db' = db\<lparr>turn_routes := turn_routes db @ [row]\<rparr>"
  using assms
proof (cases rule: record_cases)
  case (recorded t r')
  let ?key = "turn_key owner (sp_session_id b) (sp_role b) t"
  from recorded(2,8) obtain row where row: "find ?key (turn_routes db') = Some row" "turn_row_to_record row = Inr r"
    by (auto simp: query_turn_def result_simps split: option.splits)
  then have names: "tr_binding_revision row = tn_binding_revision r" "tr_binding_snapshot_hash row = tn_binding_snapshot_hash r"
    by (auto simp: turn_row_to_record_def result_simps)
  have "db' = db \<or> db' = db\<lparr>turn_routes := turn_routes db @ [row]\<rparr>"
  proof (cases "list_ex ?key (turn_routes db)")
    case False
    then have new: "db' = db\<lparr>turn_routes := turn_routes db @ [turn_row_of uuid now owner t b]\<rparr>"
      and none: "find ?key (turn_routes db) = None"
      using recorded(11) by (simp_all add: list_ex_find)
    from row(1) none have "row = turn_row_of uuid now owner t b"
      by (auto simp: new find_append split: if_splits)
    with new show ?thesis by simp
  qed (use recorded(11) in simp)
  with row names recorded(1,2,9,10) that show ?thesis by (auto dest: find_SomeD)
qed simp

text \<open>a turn is recorded only against a persisted binding of the same account, session and role, at most
  one row is ever written for a turn, and a retry with the same binding answers with the same record and
  writes nothing; a retry with another revision or snapshot is refused and writes nothing.\<close>

theorem record_submitted_once:
  assumes "record_submitted uuid now owner turn_id b db = (Inr r, db')"
  shows "list_ex (persisted_binding owner b) (session_bindings db)
    \<and> tn_binding_revision r = sp_revision b \<and> tn_binding_snapshot_hash r = sp_snapshot_hash b
    \<and> (db' = db \<or> (\<exists>row. turn_routes db' = turn_routes db @ [row] \<and> tr_owner row = owner))
    \<and> record_submitted uuid2 now2 owner turn_id b db' = (Inr r, db')
    \<and> (sp_session_id b2 = sp_session_id b \<and> sp_role b2 = sp_role b
         \<and> (sp_revision b2 \<noteq> sp_revision b \<or> sp_snapshot_hash b2 \<noteq> sp_snapshot_hash b)
       \<longrightarrow> (\<exists>e. record_submitted uuid2 now2 owner turn_id b2 db' = (Inl e, db')))"
  using assms
proof (cases rule: record_cases)
  case (recorded t r')
  have ex: "list_ex (turn_key owner (sp_session_id b) (sp_role b) t) (turn_routes db')"
    using recorded(8) by (auto simp: query_turn_def list_ex_find split: option.splits)
  have sb: "session_bindings db' = session_bindings db"
    using recorded(11) by (auto split: if_splits)
  have same: "record_submitted uuid2 now2 owner turn_id b db' = (Inr r, db')"
    using recorded(1-10) ex sb
    by (simp add: record_submitted_def to_sql_u64_def insert_turn_row_def different_binding_def)
  have other: "\<exists>e. record_submitted uuid2 now2 owner turn_id b2 db' = (Inl e, db')"
    if "sp_session_id b2 = sp_session_id b" "sp_role b2 = sp_role b"
      "sp_revision b2 \<noteq> sp_revision b \<or> sp_snapshot_hash b2 \<noteq> sp_snapshot_hash b"
  proof -
    obtain res2 db2 where r2: "record_submitted uuid2 now2 owner turn_id b2 db' = (res2, db2)" by fastforce
    then show ?thesis
    proof (cases rule: record_cases)
      case (recorded t2 r2)
      with ex that \<open>turn_normalize_id ''turn id'' turn_id = Inr t\<close>
        \<open>query_turn owner (sp_session_id b) (sp_role b) t db' = Inr (Some r')\<close>
        \<open>tn_binding_revision r' = sp_revision b\<close> \<open>tn_binding_snapshot_hash r' = sp_snapshot_hash b\<close>
      show ?thesis by auto
    qed (use r2 in auto)
  qed
  show ?thesis using recorded same other by (auto split: if_splits)
qed simp

definition sample_binding :: session_binding where
  "sample_binding = binding_of (binding_row_of sample_env [49] [48] 7 [115] [109] None 1 Initial sample_route)
     Initial sample_route"

lemma sample_turn_recorded:
  "record_submitted [120] [48] 7 [116] sample_binding sample_binding_db
    = (Inr (turn_of (turn_row_of [120] [48] 7 [116] sample_binding) OpenaiChat),
       sample_binding_db\<lparr>turn_routes := [turn_row_of [120] [48] 7 [116] sample_binding]\<rparr>)"
proof -
  have "turn_normalize_id ''turn id'' [116] = Inr [116]"
    by (simp add: turn_normalize_id_def trim_def trim_start_def trim_end_def is_whitespace_def
      str_len_def str_bytes_def utf8_encode_def is_control_def)
  then show ?thesis
    by (simp add: record_submitted_def sample_binding_def to_sql_u64_def sql_int_max_def sample_binding_db_def
        persisted_binding_def binding_key_def insert_turn_row_def empty_db_def query_turn_def turn_key_def
        turn_row_to_record_def turn_of_def different_binding_def sample_route_def)
qed

lemma record_submitted_once_witness:
  "\<exists>r db'. record_submitted [121] [49] 7 [116] sample_binding
     (sample_binding_db\<lparr>turn_routes := [turn_row_of [120] [48] 7 [116] sample_binding]\<rparr>) = (Inr r, db')
     \<and> turn_routes db' = [turn_row_of [120] [48] 7 [116] sample_binding]"
  using record_submitted_once [OF sample_turn_recorded, of "[121]" "[49]" sample_binding] by simp

end
