(* ===== verification/Agent_Packages.thy ===== *)
theory Agent_Packages
  imports State_Db
begin

text \<open>
  \<open>agent_packages.rs\<close>: the Agent Package manifest, its validation, the catalog of packages
  and the merge of installed packages over the built-in ones. The TOML parser, SemVer and SHA-256
  are arguments (\<open>package_env\<close>).
\<close>

section \<open>The manifest\<close>

datatype package_permission =
  BrowserControl | ExternalActions | ExternalMutations | LocalFiles | NetworkAccess | ProcessExecution

datatype main_session_strategy = AccountAgentStableV5

datatype workspace_strategy = AccountAgentDirectory

datatype prompt_mode = Extend | Replace

datatype skill_host = Codex | ClaudeCode | Openclaw

record product_agent_manifest =
  pa_agent_id :: rstr
  pa_display_name :: rstr
  pa_description :: rstr
  pa_sort_order :: int

record runtime_projection =
  rp_prompt_mode :: prompt_mode
  rp_discover_skills :: bool
  rp_inherit_skills :: bool
  rp_agents_md :: bool
  rp_prompt_body :: rstr

record user_facing_skill =
  us_id :: rstr
  us_display_name :: rstr
  us_description :: rstr
  us_prompt_token :: rstr
  us_prompt_text :: rstr

record skill_projection =
  sk_canonical_workflow :: rstr
  sk_adapters :: "(skill_host \<times> rstr) list"
  sk_user_facing :: "user_facing_skill list"

record package_manifest =
  pm_schema_version :: nat
  pm_package_id :: rstr
  pm_version :: rstr
  pm_publisher :: rstr
  pm_source_repository :: rstr
  pm_requested_permissions :: "package_permission list"
  pm_agent :: product_agent_manifest
  pm_persistence :: "main_session_strategy \<times> workspace_strategy"
  pm_runtime :: runtime_projection
  pm_model_policy :: agent_model_policy
  pm_skills :: skill_projection

record package_catalog =
  cat_schema_version :: nat
  cat_catalog_revision :: nat
  cat_packages :: "package_manifest list"

text \<open>
  SemVer versions of the \<open>semver\<close> crate: whether a text parses, how two parsed versions
  compare in precedence (build metadata ignored) and whether they are equal. \<open>toml_parse\<close> is
  the TOML decoder, \<open>sha256\<close> the digest of a byte string.
\<close>

datatype precedence = PrecLess | PrecEqual | PrecGreater

record package_env =
  toml_parse :: "rstr \<Rightarrow> package_manifest option"
  semver_parses :: "rstr \<Rightarrow> bool"
  semver_precedence :: "rstr \<Rightarrow> rstr \<Rightarrow> precedence"
  semver_equal :: "rstr \<Rightarrow> rstr \<Rightarrow> bool"
  sha256 :: "nat list \<Rightarrow> nat list"
  pe_url_parse :: "rstr \<Rightarrow> parsed_url option"

section \<open>Validation\<close>

definition package_identifier_byte :: "bool \<Rightarrow> nat \<Rightarrow> bool" where
  "package_identifier_byte allow_period b \<longleftrightarrow> is_ascii_lowercase b \<or> is_ascii_digit b \<or> b = 45
     \<or> allow_period \<and> b = 46"

definition validate_identifier :: "string \<Rightarrow> rstr \<Rightarrow> bool \<Rightarrow> host_error + unit" where
  "validate_identifier field value allow_period =
     bail_if (\<not> (value \<noteq> [] \<and> str_len value \<le> 128
        \<and> list_all (package_identifier_byte allow_period) (str_bytes value)
        \<and> hd value \<notin> {45, 46} \<and> last value \<notin> {45, 46}))
       (Bailf ''Agent Package {field} is invalid'' [lit field])"

definition validate_source_repository :: "package_env \<Rightarrow> rstr \<Rightarrow> host_error + unit" where
  "validate_source_repository P value =
    (case pe_url_parse P value of
       None \<Rightarrow> Inl (Bail ''Agent Package sourceRepository is invalid'')
     | Some url \<Rightarrow> bail_if (url_scheme url \<noteq> lit ''https'' \<or> url_host_str url = None
           \<or> url_username url \<noteq> [] \<or> url_password url \<noteq> None
           \<or> url_query url \<noteq> None \<or> url_fragment url \<noteq> None)
         (Bail ''Agent Package sourceRepository must be an HTTPS URL without credentials or params''))"

text \<open>
  \<open>Path::components\<close> on Unix: a leading separator is the root, a leading \<open>.\<close> the current
  directory, \<open>..\<close> the parent; empty segments and later \<open>.\<close> segments are skipped.
\<close>

datatype path_component = RootDir | CurDir | ParentDir | Normal rstr

fun segment_components :: "rstr list \<Rightarrow> path_component list" where
  "segment_components [] = []"
| "segment_components (s # ss) =
     (if s = [] \<or> s = [46] then segment_components ss
      else if s = [46, 46] then ParentDir # segment_components ss
      else Normal s # segment_components ss)"

definition path_components :: "rstr \<Rightarrow> path_component list" where
  "path_components value =
    (case str_split 47 value of
       [] \<Rightarrow> []
     | s # ss \<Rightarrow>
         (if s = [] \<and> ss \<noteq> [] then RootDir # segment_components ss
          else if s = [46] then CurDir # segment_components ss
          else segment_components (s # ss)))"

definition path_is_absolute :: "rstr \<Rightarrow> bool" where
  "path_is_absolute value \<longleftrightarrow> starts_with value [47]"

definition is_normal :: "path_component \<Rightarrow> bool" where
  "is_normal c = (case c of Normal _ \<Rightarrow> True | _ \<Rightarrow> False)"

definition validate_relative_package_path :: "string \<Rightarrow> rstr \<Rightarrow> host_error + unit" where
  "validate_relative_package_path field value =
     and_then (bail_if (trim value = [] \<or> str_len value > 512)
        (Bailf ''Agent Package {field} size is invalid'' [lit field])) (\<lambda>_.
     bail_if (path_is_absolute value \<or> list_ex (\<lambda>c. \<not> is_normal c) (path_components value))
        (Bailf ''Agent Package {field} must be a normalized relative path'' [lit field]))"

definition validate_user_skill_text :: "string \<Rightarrow> rstr \<Rightarrow> nat \<Rightarrow> host_error + unit" where
  "validate_user_skill_text field value max_chars =
     bail_if (trim value = [] \<or> trim value \<noteq> value \<or> length value > max_chars
        \<or> list_ex (\<lambda>c. is_control c \<and> c \<noteq> 10 \<and> c \<noteq> 9) value)
       (Bailf ''Agent Package {field} is invalid'' [lit field])"

fun validate_adapters :: "skill_host list \<Rightarrow> (skill_host \<times> rstr) list \<Rightarrow> host_error + unit" where
  "validate_adapters hosts [] = Inr ()"
| "validate_adapters hosts ((host, path) # rest) =
     and_then (bail_if (host \<in> set hosts) (Bail ''Agent Package has duplicate Skill Adapter host'')) (\<lambda>_.
     and_then (validate_relative_package_path ''skills.adapters.path'' path) (\<lambda>_.
     validate_adapters (host # hosts) rest))"

fun validate_user_skills :: "rstr list \<Rightarrow> rstr list \<Rightarrow> user_facing_skill list \<Rightarrow> host_error + unit" where
  "validate_user_skills ids tokens [] = Inr ()"
| "validate_user_skills ids tokens (s # rest) =
     and_then (validate_identifier ''skills.userFacing.id'' (us_id s) False) (\<lambda>_.
     and_then (validate_user_skill_text ''skills.userFacing.displayName'' (us_display_name s) 80) (\<lambda>_.
     and_then (validate_user_skill_text ''skills.userFacing.description'' (us_description s) 300) (\<lambda>_.
     and_then (validate_user_skill_text ''skills.userFacing.promptText'' (us_prompt_text s) 2000) (\<lambda>_.
     and_then (bail_if (us_prompt_token s \<noteq> 36 # us_id s)
       (Bail ''Agent Package user-facing Skill promptToken must equal '$' plus its id'')) (\<lambda>_.
     and_then (bail_if (us_id s \<in> set ids \<or> us_prompt_token s \<in> set tokens)
       (Bail ''Agent Package user-facing Skills must have unique ids and prompt tokens'')) (\<lambda>_.
     validate_user_skills (us_id s # ids) (us_prompt_token s # tokens) rest))))))"

definition validate_manifest :: "package_env \<Rightarrow> package_manifest \<Rightarrow> host_error + unit" where
  "validate_manifest P m =
     and_then (bail_if (pm_schema_version m \<noteq> 1)
       (Bailf ''unsupported Agent Package Manifest schema version: {}'' [nat_to_str (pm_schema_version m)])) (\<lambda>_.
     and_then (validate_identifier ''packageId'' (pm_package_id m) True) (\<lambda>_.
     and_then (validate_identifier ''publisher'' (pm_publisher m) True) (\<lambda>_.
     and_then (validate_identifier ''agent.agentId'' (pa_agent_id (pm_agent m)) False) (\<lambda>_.
     and_then (bail_if (\<not> semver_parses P (pm_version m))
       (Bailf ''invalid Agent Package version: {}'' [pm_version m])) (\<lambda>_.
     and_then (validate_source_repository P (pm_source_repository m)) (\<lambda>_.
     and_then (bail_if (trim (pa_display_name (pm_agent m)) = [] \<or> trim (pa_description (pm_agent m)) = []
         \<or> trim (rp_prompt_body (pm_runtime m)) = [])
       (Bail ''Agent Package identity and prompt fields must not be empty'')) (\<lambda>_.
     and_then (bail_if (pa_sort_order (pm_agent m) < 0)
       (Bail ''Agent Package sortOrder must not be negative'')) (\<lambda>_.
     and_then (bail_if (pm_requested_permissions m = [])
       (Bail ''Agent Package requestedPermissions must not be empty'')) (\<lambda>_.
     and_then (bail_if (length (remdups (pm_requested_permissions m)) \<noteq> length (pm_requested_permissions m))
       (Bail ''Agent Package requestedPermissions must not contain duplicates'')) (\<lambda>_.
     and_then (validate_relative_package_path ''skills.canonicalWorkflow''
        (sk_canonical_workflow (pm_skills m))) (\<lambda>_.
     and_then (validate_adapters [] (sk_adapters (pm_skills m))) (\<lambda>_.
     and_then (bail_if (length (sk_user_facing (pm_skills m)) > 32)
       (Bail ''Agent Package has too many user-facing Skills'')) (\<lambda>_.
     validate_user_skills [] [] (sk_user_facing (pm_skills m)))))))))))))))"

fun validate_catalog_from ::
  "rstr list \<Rightarrow> rstr list \<Rightarrow> int list \<Rightarrow> package_manifest list \<Rightarrow> host_error + unit" where
  "validate_catalog_from package_ids agent_ids sort_orders [] = Inr ()"
| "validate_catalog_from package_ids agent_ids sort_orders (m # rest) =
     and_then (bail_if (pm_package_id m \<in> set package_ids)
       (Bailf ''duplicate Agent Package packageId: {}'' [pm_package_id m])) (\<lambda>_.
     and_then (bail_if (pa_agent_id (pm_agent m) \<in> set agent_ids)
       (Bailf ''duplicate Agent Package agentId: {}'' [pa_agent_id (pm_agent m)])) (\<lambda>_.
     and_then (bail_if (pa_sort_order (pm_agent m) \<in> set sort_orders)
       (Bailf ''duplicate Agent Package sortOrder: {}'' [int_to_str (pa_sort_order (pm_agent m))])) (\<lambda>_.
     validate_catalog_from (pm_package_id m # package_ids) (pa_agent_id (pm_agent m) # agent_ids)
       (pa_sort_order (pm_agent m) # sort_orders) rest)))"

definition validate_catalog :: "package_manifest list \<Rightarrow> host_error + unit" where
  "validate_catalog ms =
     and_then (bail_if (ms = []) (Bail ''Agent Package Catalog must not be empty'')) (\<lambda>_.
     validate_catalog_from [] [] [] ms)"

section \<open>The catalog\<close>

definition parse_document :: "package_env \<Rightarrow> rstr \<Rightarrow> host_error + package_manifest" where
  "parse_document P document =
     and_then (ok_or (toml_parse P document) (Bail ''parse Agent Package Manifest'')) (\<lambda>m.
     and_then (validate_manifest P m) (\<lambda>_. Inr m))"

definition sort_by_order :: "package_manifest list \<Rightarrow> package_manifest list" where
  "sort_by_order ms = sort_key (\<lambda>m. pa_sort_order (pm_agent m)) ms"

definition from_documents :: "package_env \<Rightarrow> rstr list \<Rightarrow> host_error + package_catalog" where
  "from_documents P documents =
     and_then (collect_results (map (parse_document P) documents)) (\<lambda>packages.
     and_then (validate_catalog packages) (\<lambda>_.
     Inr \<lparr>cat_schema_version = 1, cat_catalog_revision = 1, cat_packages = sort_by_order packages\<rparr>))"

definition package_for_agent :: "package_catalog \<Rightarrow> rstr \<Rightarrow> host_error + package_manifest" where
  "package_for_agent c agent_id =
     ok_or (find (\<lambda>m. pa_agent_id (pm_agent m) = agent_id) (cat_packages c))
       (Bailf ''unknown AgentMesh360 product agent: {agent_id}'' [agent_id])"

text \<open>The first eight bytes of the digest, big endian, masked to 53 bits and never zero.\<close>

definition catalog_revision_text :: "package_manifest list \<Rightarrow> nat list" where
  "catalog_revision_text ms = str_bytes (lit ''agentmesh360-agent-package-catalog-v1'') @ [10]
     @ concat (map (\<lambda>m. str_bytes (pm_package_id m) @ [0] @ str_bytes (pm_version m) @ [0]
                        @ str_bytes (pa_agent_id (pm_agent m)) @ [10]) ms)"

definition calculate_catalog_revision :: "package_env \<Rightarrow> package_manifest list \<Rightarrow> nat" where
  "calculate_catalog_revision P ms =
     max 1 (foldl (\<lambda>acc b. acc * 256 + b) 0 (take 8 (sha256 P (catalog_revision_text ms))) mod 2 ^ 53)"

text \<open>One step of the merge: an installed package replaces the built-in one or is added.\<close>

definition merge_installed ::
  "package_env \<Rightarrow> package_manifest list \<Rightarrow> package_manifest \<Rightarrow> host_error + package_manifest list" where
  "merge_installed P packages m =
     and_then (validate_manifest P m) (\<lambda>_.
     case find (\<lambda>p. pm_package_id p = pm_package_id m) packages of
       Some p \<Rightarrow>
         and_then (bail_if (pa_agent_id (pm_agent p) \<noteq> pa_agent_id (pm_agent m))
           (Bail ''installed Agent Package cannot change the built-in packageId to another agentId'')) (\<lambda>_.
         and_then (bail_if (\<not> semver_parses P (pm_version p)) (Foreign ''semver'')) (\<lambda>_.
         and_then (bail_if (\<not> semver_parses P (pm_version m)) (Foreign ''semver'')) (\<lambda>_.
         and_then (bail_if (semver_precedence P (pm_version m) (pm_version p) = PrecLess)
           (Bail ''installed Agent Package cannot downgrade a built-in Package'')) (\<lambda>_.
         and_then (bail_if (semver_precedence P (pm_version m) (pm_version p) = PrecEqual
             \<and> \<not> semver_equal P (pm_version m) (pm_version p))
           (Bail ''installed Agent Package cannot replace a built-in Package with equal SemVer precedence'')) (\<lambda>_.
         Inr (takeWhile (\<lambda>q. pm_package_id q \<noteq> pm_package_id m) packages @ m
              # tl (dropWhile (\<lambda>q. pm_package_id q \<noteq> pm_package_id m) packages)))))))
     | None \<Rightarrow>
         and_then (bail_if (list_ex (\<lambda>p. pa_agent_id (pm_agent p) = pa_agent_id (pm_agent m)) packages)
           (Bail ''installed Agent Package agentId conflicts with another Package'')) (\<lambda>_.
         Inr (packages @ [m])))"

fun merge_all_installed ::
  "package_env \<Rightarrow> package_manifest list \<Rightarrow> package_manifest list \<Rightarrow> host_error + package_manifest list" where
  "merge_all_installed P packages [] = Inr packages"
| "merge_all_installed P packages (m # ms) =
     and_then (merge_installed P packages m) (\<lambda>packages. merge_all_installed P packages ms)"

definition with_installed_active ::
  "package_env \<Rightarrow> rstr list \<Rightarrow> package_manifest list \<Rightarrow> host_error + package_catalog" where
  "with_installed_active P builtin_documents installed =
     and_then (with_context ''load built-in AgentMesh360 Agent Packages'' (from_documents P builtin_documents)) (\<lambda>catalog.
     if installed = [] then Inr catalog
     else and_then (merge_all_installed P (cat_packages catalog) installed) (\<lambda>packages.
       and_then (validate_catalog packages) (\<lambda>_.
       Inr (catalog\<lparr>cat_packages := sort_by_order packages,
                    cat_catalog_revision := calculate_catalog_revision P (sort_by_order packages)\<rparr>))))"

section \<open>Paths of a package\<close>

lemma segment_components_normal:
  "list_all is_normal (segment_components ss) \<Longrightarrow> [46, 46] \<notin> set ss"
  by (induction ss rule: segment_components.induct) (auto simp: is_normal_def split: if_splits)

lemma validate_relative_package_path_ok:
  assumes "validate_relative_package_path field value = Inr u"
  shows "value \<noteq> []" "hd value \<noteq> 47" "[46, 46] \<notin> set (str_split 47 value)"
proof -
  from assms have t: "trim value \<noteq> []" and a: "\<not> path_is_absolute value"
    and n: "list_all is_normal (path_components value)"
    by (auto simp: validate_relative_package_path_def result_simps list_all_iff list_ex_iff)
  show v: "value \<noteq> []" using t by (auto simp: trim_def trim_start_def trim_end_def)
  with a show "hd value \<noteq> 47" by (cases "value") (auto simp: path_is_absolute_def starts_with_def)
  obtain s ss where s: "str_split 47 value = s # ss" by (cases "str_split 47 value") auto
  have "s \<noteq> []"
  proof (cases "value")
    case (Cons c cs)
    with \<open>hd value \<noteq> 47\<close> s show ?thesis by (auto split: list.splits)
  qed (use v in simp)
  with n s have "list_all is_normal (segment_components (s # ss))"
    by (auto simp: path_components_def is_normal_def split: if_splits)
  then show "[46, 46] \<notin> set (str_split 47 value)" using segment_components_normal s by metis
qed

section \<open>Validated catalogs\<close>

definition identity :: "package_manifest \<Rightarrow> rstr \<times> rstr" where
  "identity m = (pm_package_id m, pa_agent_id (pm_agent m))"

lemma validate_catalog_from_ok:
  "validate_catalog_from ps as os ms = Inr u \<Longrightarrow> distinct (map pm_package_id ms)
     \<and> distinct (map (\<lambda>m. pa_agent_id (pm_agent m)) ms) \<and> distinct (map (\<lambda>m. pa_sort_order (pm_agent m)) ms)
     \<and> (\<forall>m \<in> set ms. pm_package_id m \<notin> set ps \<and> pa_agent_id (pm_agent m) \<notin> set as
          \<and> pa_sort_order (pm_agent m) \<notin> set os)"
proof (induction ps as os ms rule: validate_catalog_from.induct)
  case (2 ps as os m ms)
  then have r: "pm_package_id m \<notin> set ps" "pa_agent_id (pm_agent m) \<notin> set as" "pa_sort_order (pm_agent m) \<notin> set os"
    "validate_catalog_from (pm_package_id m # ps) (pa_agent_id (pm_agent m) # as) (pa_sort_order (pm_agent m) # os) ms = Inr u"
    by (auto simp: result_simps)
  from "2.IH" [OF r(4)] r show ?case by auto
qed simp

lemma validate_catalog_ok:
  assumes "validate_catalog ms = Inr u"
  shows "ms \<noteq> []" "distinct (map pm_package_id ms)" "distinct (map (\<lambda>m. pa_agent_id (pm_agent m)) ms)"
    "distinct (map (\<lambda>m. pa_sort_order (pm_agent m)) ms)"
  using assms validate_catalog_from_ok [of "[]" "[]" "[]" ms u]
  by (auto simp: validate_catalog_def result_simps)

definition catalog_ok :: "package_env \<Rightarrow> package_manifest list \<Rightarrow> bool" where
  "catalog_ok P ms \<longleftrightarrow> ms \<noteq> [] \<and> distinct (map pm_package_id ms) \<and> distinct (map (\<lambda>m. pa_agent_id (pm_agent m)) ms)
     \<and> distinct (map (\<lambda>m. pa_sort_order (pm_agent m)) ms) \<and> (\<forall>m \<in> set ms. validate_manifest P m = Inr ())"

lemma distinct_map_sort_key [simp]: "distinct (map f (sort_key k xs)) = distinct (map f xs)"
  by (simp add: distinct_map)

lemma catalog_ok_sort [simp]: "catalog_ok P (sort_by_order ms) = catalog_ok P ms"
proof -
  have "sort_by_order ms = [] \<longleftrightarrow> ms = []"
    by (metis length_0_conv length_sort sort_by_order_def)
  then show ?thesis by (simp add: catalog_ok_def sort_by_order_def)
qed

lemma sorted_by_order: "sorted (map (\<lambda>m. pa_sort_order (pm_agent m)) (sort_by_order ms))"
  by (simp add: sort_by_order_def)

lemma from_documents_ok:
  assumes "from_documents P docs = Inr c"
  shows "catalog_ok P (cat_packages c)" "cat_catalog_revision c = 1"
    "sorted (map (\<lambda>m. pa_sort_order (pm_agent m)) (cat_packages c))"
proof -
  from assms obtain ms where m: "map (parse_document P) docs = map Inr ms" "validate_catalog ms = Inr ()"
    "c = \<lparr>cat_schema_version = 1, cat_catalog_revision = 1, cat_packages = sort_by_order ms\<rparr>"
    by (auto simp: from_documents_def result_simps collect_results_eq_Inr)
  have "validate_manifest P x = Inr ()" if "x \<in> set ms" for x
  proof -
    from that m(1) have "Inr x \<in> set (map (parse_document P) docs)" by simp
    then show ?thesis by (auto simp: parse_document_def result_simps eq_commute [of "Inr x"])
  qed
  then show "catalog_ok P (cat_packages c)" using validate_catalog_ok [OF m(2)] m(3) by (simp add: catalog_ok_def [of P ms])
  show "cat_catalog_revision c = 1" "sorted (map (\<lambda>m. pa_sort_order (pm_agent m)) (cat_packages c))"
    using m(3) by (simp_all add: sorted_by_order)
qed

section \<open>Merging installed packages\<close>

definition not_older :: "package_env \<Rightarrow> package_manifest \<Rightarrow> package_manifest \<Rightarrow> bool" where
  "not_older P new old \<longleftrightarrow> identity new = identity old
     \<and> semver_precedence P (pm_version new) (pm_version old) \<noteq> PrecLess"

text \<open>Documented behaviour of \<open>semver\<close>: precedence is a preorder.\<close>

definition semver_order :: "package_env \<Rightarrow> bool" where
  "semver_order P \<longleftrightarrow> (\<forall>a. semver_precedence P a a \<noteq> PrecLess)
     \<and> (\<forall>a b c. semver_precedence P a b \<noteq> PrecLess \<and> semver_precedence P b c \<noteq> PrecLess
          \<longrightarrow> semver_precedence P a c \<noteq> PrecLess)"

lemma not_older_refl: "semver_order P \<Longrightarrow> not_older P m m"
  by (simp add: not_older_def semver_order_def)

lemma not_older_trans: "semver_order P \<Longrightarrow> not_older P a b \<Longrightarrow> not_older P b c \<Longrightarrow> not_older P a c"
  unfolding not_older_def semver_order_def by metis

lemma find_split:
  "find p xs = Some x \<Longrightarrow> xs = takeWhile (\<lambda>y. \<not> p y) xs @ x # tl (dropWhile (\<lambda>y. \<not> p y) xs)"
  by (induction xs) (auto split: if_splits)

lemma merge_installed_cases:
  assumes "merge_installed P packages m = Inr packages'"
  obtains (added) "packages' = packages @ [m]" "validate_manifest P m = Inr ()"
  | (replaced) pre p post where "packages = pre @ p # post" "packages' = pre @ m # post" "not_older P m p"
      "validate_manifest P m = Inr ()"
proof -
  have v: "validate_manifest P m = Inr ()" using assms by (simp add: merge_installed_def and_then_eq_Inr) 
  show thesis
  proof (cases "find (\<lambda>p. pm_package_id p = pm_package_id m) packages")
    case None
    then have "packages' = packages @ [m]" using assms v by (simp add: merge_installed_def result_simps)
    then show thesis using v added by simp
  next
    case (Some p)
    have "packages' = takeWhile (\<lambda>q. pm_package_id q \<noteq> pm_package_id m) packages @ m
        # tl (dropWhile (\<lambda>q. pm_package_id q \<noteq> pm_package_id m) packages)"
      and "not_older P m p"
      using assms v Some find_SomeD [OF Some]
      by (simp_all add: merge_installed_def result_simps not_older_def identity_def)
    with find_split [OF Some] v show thesis by (intro replaced) auto
  qed
qed

lemma merge_installed_ok:
  assumes "merge_installed P packages m = Inr packages'" "semver_order P"
  shows "\<forall>p \<in> set packages. \<exists>p' \<in> set packages'. not_older P p' p"
    "set packages' \<subseteq> insert m (set packages)" "validate_manifest P m = Inr ()"
  using assms(1) by (cases rule: merge_installed_cases; use not_older_refl [OF assms(2)] in force)+

lemma merge_all_installed_ok:
  assumes "merge_all_installed P packages ms = Inr packages'" "semver_order P"
  shows "(\<forall>p \<in> set packages. \<exists>p' \<in> set packages'. not_older P p' p) \<and> set packages' \<subseteq> set packages \<union> set ms
    \<and> (\<forall>m \<in> set ms. validate_manifest P m = Inr ())"
  using assms
proof (induction P packages ms rule: merge_all_installed.induct)
  case (1 P packages)
  then show ?case using not_older_refl by (simp add: Bex_def) blast
next
  case (2 P packages m ms)
  then obtain packages1 where m: "merge_installed P packages m = Inr packages1"
    and rest: "merge_all_installed P packages1 ms = Inr packages'" by (auto simp: result_simps)
  note one = merge_installed_ok [OF m "2.prems"(2)]
  note all = "2.IH" [OF rest "2.prems"(2)]
  have "\<exists>p' \<in> set packages'. not_older P p' p" if "p \<in> set packages" for p
  proof -
    from one(1) that obtain q where q: "q \<in> set packages1" "not_older P q p" by blast
    with all obtain p' where "p' \<in> set packages'" "not_older P p' q" by blast
    with q not_older_trans [OF "2.prems"(2)] show ?thesis by blast
  qed
  moreover have "set packages' \<subseteq> set packages \<union> set (m # ms)" using one(2) all by auto
  moreover have "\<forall>m' \<in> set (m # ms). validate_manifest P m' = Inr ()" using one(3) all by auto
  ultimately show ?case by blast
qed

lemma merge_all_installed_validates:
  "merge_all_installed P packages ms = Inr packages' \<Longrightarrow> \<forall>p \<in> set packages. validate_manifest P p = Inr ()
    \<Longrightarrow> \<forall>p \<in> set packages'. validate_manifest P p = Inr ()"
proof (induction P packages ms rule: merge_all_installed.induct)
  case (2 P packages m ms)
  then obtain packages1 where m: "merge_installed P packages m = Inr packages1"
    and rest: "merge_all_installed P packages1 ms = Inr packages'" by (auto simp: result_simps)
  from m have "\<forall>p \<in> set packages1. validate_manifest P p = Inr ()"
    by (cases rule: merge_installed_cases) (use "2.prems"(2) in auto)
  from "2.IH" [OF rest this] show ?case .
qed simp

lemma with_installed_active_cases:
  assumes "with_installed_active P documents installed = Inr c"
  obtains (builtin) builtin where "from_documents P documents = Inr builtin" "installed = []" "c = builtin"
  | (merged) builtin packages where "from_documents P documents = Inr builtin" "installed \<noteq> []"
      "merge_all_installed P (cat_packages builtin) installed = Inr packages" "validate_catalog packages = Inr ()"
      "cat_packages c = sort_by_order packages"
      "cat_catalog_revision c = calculate_catalog_revision P (sort_by_order packages)"
proof -
  from assms obtain b where b: "from_documents P documents = Inr b" by (auto simp: with_installed_active_def result_simps)
  show thesis
  proof (cases "installed = []")
    case True
    then show thesis using assms b builtin by (simp add: with_installed_active_def)
  next
    case False
    with assms b obtain packages where "merge_all_installed P (cat_packages b) installed = Inr packages"
      "validate_catalog packages = Inr ()" "c = b\<lparr>cat_packages := sort_by_order packages,
         cat_catalog_revision := calculate_catalog_revision P (sort_by_order packages)\<rparr>"
      by (auto simp: with_installed_active_def result_simps)
    with False b show thesis by (intro merged) auto
  qed
qed

lemma calculate_catalog_revision_bounds:
  "1 \<le> calculate_catalog_revision P ms" "calculate_catalog_revision P ms < 2 ^ 53"
  by (simp_all add: calculate_catalog_revision_def)

lemma package_for_agent_own:
  assumes "catalog_ok P (cat_packages c)" "p \<in> set (cat_packages c)"
  shows "package_for_agent c (pa_agent_id (pm_agent p)) = Inr p"
proof -
  have "find (\<lambda>m. pa_agent_id (pm_agent m) = pa_agent_id (pm_agent p)) (cat_packages c) = Some p"
    by (rule unique_on_find [where key = "\<lambda>m. pa_agent_id (pm_agent m)"])
      (use assms in \<open>auto simp: catalog_ok_def unique_on_def\<close>)
  then show ?thesis by (simp add: package_for_agent_def)
qed

lemma validate_manifest_ok:
  assumes "validate_manifest P m = Inr u"
  shows "pm_schema_version m = 1" "semver_parses P (pm_version m)" "0 \<le> pa_sort_order (pm_agent m)"
    "pm_requested_permissions m \<noteq> []" "distinct (pm_requested_permissions m)"
    "validate_relative_package_path ''skills.canonicalWorkflow'' (sk_canonical_workflow (pm_skills m)) = Inr ()"
    "validate_adapters [] (sk_adapters (pm_skills m)) = Inr ()"
  using assms by (auto simp: validate_manifest_def result_simps card_distinct length_remdups_card_conv)

lemma validate_adapters_ok:
  "validate_adapters hs as = Inr u \<Longrightarrow> (\<forall>(h, path) \<in> set as. [46, 46] \<notin> set (str_split 47 path) \<and> hd path \<noteq> 47)
     \<and> distinct (map fst as) \<and> set hs \<inter> set (map fst as) = {}"
proof (induction hs as rule: validate_adapters.induct)
  case (2 hs h path rest)
  then have r: "h \<notin> set hs" "validate_relative_package_path ''skills.adapters.path'' path = Inr ()"
    "validate_adapters (h # hs) rest = Inr u" by (auto simp: result_simps)
  from "2.IH" [OF r(3)] validate_relative_package_path_ok [OF r(2)] r(1) show ?case by auto
qed simp

section \<open>Properties\<close>

text \<open>C37: an installed package cannot take a built-in agent over. In the merged catalog every
  built-in package is still present under its package and agent id, itself or in a version that is
  not older, and every package of the catalog comes from the built-in documents or the installed
  list.\<close>

theorem installed_packages_cannot_hijack:
  assumes "with_installed_active P documents installed = Inr c" "from_documents P documents = Inr builtin"
    "semver_order P"
  shows "(\<forall>b \<in> set (cat_packages builtin). \<exists>p \<in> set (cat_packages c). identity p = identity b
        \<and> semver_precedence P (pm_version p) (pm_version b) \<noteq> PrecLess)
    \<and> set (cat_packages c) \<subseteq> set (cat_packages builtin) \<union> set installed"
  using assms(1)
proof (cases rule: with_installed_active_cases)
  case (builtin builtin')
  then have "c = builtin" using assms(2) by simp
  then show ?thesis using not_older_refl [OF assms(3)] by (auto simp: not_older_def)
next
  case (merged builtin' packages)
  then have "merge_all_installed P (cat_packages builtin) installed = Inr packages" using assms(2) by simp
  from merge_all_installed_ok [OF this assms(3)] show ?thesis
    using merged by (simp add: not_older_def sort_by_order_def)
qed

text \<open>whatever packages are installed, the catalog the host runs on is consistent: every
  manifest in it is valid, package ids, agent ids and sort orders are unique, the packages are in
  display order, the revision is positive and below \<open>2 ^ 53\<close> (so that JavaScript clients read it
  exactly), every package is found under its agent id, and no path a package names leaves the
  package's directory.\<close>

theorem runtime_catalog_is_consistent:
  assumes "with_installed_active P documents installed = Inr c"
  shows "catalog_ok P (cat_packages c)
    \<and> sorted (map (\<lambda>m. pa_sort_order (pm_agent m)) (cat_packages c))
    \<and> 1 \<le> cat_catalog_revision c \<and> cat_catalog_revision c < 2 ^ 53
    \<and> (\<forall>p \<in> set (cat_packages c). package_for_agent c (pa_agent_id (pm_agent p)) = Inr p
        \<and> (\<forall>path \<in> insert (sk_canonical_workflow (pm_skills p)) (snd ` set (sk_adapters (pm_skills p))).
             hd path \<noteq> 47 \<and> [46, 46] \<notin> set (str_split 47 path)))"
proof -
  have c: "catalog_ok P (cat_packages c) \<and> sorted (map (\<lambda>m. pa_sort_order (pm_agent m)) (cat_packages c))
    \<and> 1 \<le> cat_catalog_revision c \<and> cat_catalog_revision c < 2 ^ 53"
    using assms
  proof (cases rule: with_installed_active_cases)
    case (builtin builtin)
    then show ?thesis using from_documents_ok [OF builtin(1)] by simp
  next
    case (merged builtin packages)
    have "\<forall>p \<in> set packages. validate_manifest P p = Inr ()"
      by (rule merge_all_installed_validates [OF merged(3)])
        (use from_documents_ok(1) [OF merged(1)] in \<open>simp add: catalog_ok_def\<close>)
    then have "catalog_ok P packages" using validate_catalog_ok [OF merged(4)] by (simp add: catalog_ok_def)
    then show ?thesis using merged(5,6) calculate_catalog_revision_bounds by (simp add: sorted_by_order)
  qed
  have "hd path \<noteq> 47 \<and> [46, 46] \<notin> set (str_split 47 path)"
    if "p \<in> set (cat_packages c)" "path = sk_canonical_workflow (pm_skills p) \<or> path \<in> snd ` set (sk_adapters (pm_skills p))"
    for p path
  proof -
    have v: "validate_manifest P p = Inr ()" using c that(1) by (simp add: catalog_ok_def)
    from that(2) validate_relative_package_path_ok [OF validate_manifest_ok(6) [OF v]]
      validate_adapters_ok [OF validate_manifest_ok(7) [OF v]] show ?thesis by auto
  qed
  with c show ?thesis using package_for_agent_own [of P c] by auto
qed

section \<open>Applied to a concrete package\<close>

definition sample_manifest :: package_manifest where
  "sample_manifest = \<lparr>pm_schema_version = 1, pm_package_id = [112], pm_version = [49], pm_publisher = [112],
     pm_source_repository = [117], pm_requested_permissions = [LocalFiles],
     pm_agent = \<lparr>pa_agent_id = [97], pa_display_name = [110], pa_description = [100], pa_sort_order = 0\<rparr>,
     pm_persistence = (AccountAgentStableV5, AccountAgentDirectory),
     pm_runtime = \<lparr>rp_prompt_mode = Extend, rp_discover_skills = False, rp_inherit_skills = False,
       rp_agents_md = False, rp_prompt_body = [98]\<rparr>,
     pm_model_policy = default_policy,
     pm_skills = \<lparr>sk_canonical_workflow = [119], sk_adapters = [], sk_user_facing = []\<rparr>\<rparr>"

definition sample_package_env :: package_env where
  "sample_package_env = \<lparr>toml_parse = (\<lambda>d. if d = [49] then Some sample_manifest else None),
     semver_parses = (\<lambda>v. v = [49] \<or> v = [50]),
     semver_precedence = (\<lambda>a b. if a < b then PrecLess else if a = b then PrecEqual else PrecGreater),
     semver_equal = (=), sha256 = (\<lambda>_. [1, 2, 3, 4, 5, 6, 7, 8]),
     pe_url_parse = (\<lambda>u. Some ((sample_url u)\<lparr>url_path := 47 # u, url_origin := [111]\<rparr>))\<rparr>"

lemma sample_manifest_valid:
  "v = [49] \<or> v = [50] \<Longrightarrow> validate_manifest sample_package_env (sample_manifest\<lparr>pm_version := v\<rparr>) = Inr ()"
  by (simp add: validate_manifest_def sample_manifest_def sample_package_env_def validate_identifier_def
      validate_source_repository_def validate_relative_package_path_def path_is_absolute_def path_components_def
      is_normal_def starts_with_def trim_def trim_start_def trim_end_def is_whitespace_def str_len_def str_bytes_def
      utf8_encode_def sample_url_def package_identifier_byte_def is_ascii_lowercase_def is_ascii_digit_def)

lemma sample_documents: "from_documents sample_package_env [[49]] = Inr
    \<lparr>cat_schema_version = 1, cat_catalog_revision = 1, cat_packages = [sample_manifest]\<rparr>"
proof -
  have "toml_parse sample_package_env [49] = Some sample_manifest" by (simp add: sample_package_env_def)
  moreover have "validate_manifest sample_package_env sample_manifest = Inr ()"
    using sample_manifest_valid [of "[49]"] by (simp add: sample_manifest_def)
  ultimately show ?thesis
    by (simp add: from_documents_def parse_document_def validate_catalog_def sort_by_order_def)
qed

lemma sample_installed:
  "with_installed_active sample_package_env [[49]] [sample_manifest\<lparr>pm_version := [50]\<rparr>] = Inr
    \<lparr>cat_schema_version = 1,
     cat_catalog_revision = calculate_catalog_revision sample_package_env [sample_manifest\<lparr>pm_version := [50]\<rparr>],
     cat_packages = [sample_manifest\<lparr>pm_version := [50]\<rparr>]\<rparr>"
proof -
  have "semver_precedence sample_package_env [50] [49] = PrecGreater" "v = [49] \<or> v = [50] \<Longrightarrow> semver_parses sample_package_env v" for v
    by (simp_all add: sample_package_env_def)
  then have "merge_installed sample_package_env [sample_manifest] (sample_manifest\<lparr>pm_version := [50]\<rparr>)
      = Inr [sample_manifest\<lparr>pm_version := [50]\<rparr>]"
    by (simp add: merge_installed_def sample_manifest_valid) (simp add: sample_manifest_def)
  then show ?thesis
    by (simp add: with_installed_active_def sample_documents validate_catalog_def sort_by_order_def)
qed

lemma sample_semver_order: "semver_order sample_package_env"
  by (auto simp: semver_order_def sample_package_env_def)

lemma installed_packages_cannot_hijack_witness:
  "\<exists>p \<in> {sample_manifest\<lparr>pm_version := [50]\<rparr>}. identity p = identity sample_manifest"
  using installed_packages_cannot_hijack [OF sample_installed sample_documents sample_semver_order] by auto

lemma runtime_catalog_is_consistent_witness:
  "catalog_ok sample_package_env [sample_manifest\<lparr>pm_version := [50]\<rparr>]"
  using runtime_catalog_is_consistent [OF sample_installed] by simp

end
