(* ===== verification/Agent_Registry.thy ===== *)
theory Agent_Registry
  imports State_Db Agent_Packages
begin

text \<open>
  \<open>registry.rs\<close> and the error classification of \<open>package_installer.rs\<close>: the shared
  Agent Package catalog with its refresh, and the account-scoped registry of product agents over
  the table \<open>product_agents\<close>.
\<close>

section \<open>The shared catalog\<close>

record package_status_issue =
  issue_code :: string
  issue_summary :: string

text \<open>\<open>classify_package_error\<close> on the rendered error.\<close>

definition classify_package_error :: "rstr \<Rightarrow> package_status_issue" where
  "classify_package_error rendered =
    (let d = to_ascii_lowercase rendered; has = (\<lambda>w. str_contains d (lit w)) in
     if has ''digest'' \<or> has ''file manifest'' \<or> has ''contents'' then
       \<lparr>issue_code = ''package_integrity_failed'',
        issue_summary = ''Installed package contents failed integrity verification.''\<rparr>
     else if has ''permissions differ'' then
       \<lparr>issue_code = ''approved_permissions_mismatch'',
        issue_summary = ''Installed package permissions differ from the approved registry.''\<rparr>
     else if has ''identity'' \<or> has ''conflict'' \<or> has ''downgrade'' \<or> has ''semver'' then
       \<lparr>issue_code = ''package_identity_conflict'',
        issue_summary = ''Installed package identity or version conflicts with the runtime catalog.''\<rparr>
     else if has ''path is invalid'' \<or> has ''escaped package'' then
       \<lparr>issue_code = ''installed_path_invalid'',
        issue_summary = ''Installed package storage metadata is invalid.''\<rparr>
     else if has ''directory is missing'' \<or> has ''no such file'' \<or> has ''not found'' then
       \<lparr>issue_code = ''installed_content_missing'',
        issue_summary = ''Installed package content is missing.''\<rparr>
     else if has ''registry'' \<or> has ''sqlite'' then
       \<lparr>issue_code = ''package_registry_invalid'',
        issue_summary = ''The local package registry could not be read safely.''\<rparr>
     else
       \<lparr>issue_code = ''package_validation_failed'',
        issue_summary = ''The installed package could not be validated.''\<rparr>)"

record refresh_failure =
  rf_diagnostic :: rstr
  rf_issue :: package_status_issue

record catalog_state =
  cs_live :: "package_catalog option"
  cs_generation :: nat
  cs_last_failure :: "refresh_failure option"

definition initial_catalog_state :: catalog_state where
  "initial_catalog_state = \<lparr>cs_live = None, cs_generation = 0, cs_last_failure = None\<rparr>"

record catalog_health =
  ch_generation :: nat
  ch_catalog_revision :: "nat option"
  ch_last_issue :: "package_status_issue option"

definition live_package_catalog :: "catalog_state \<Rightarrow> host_error + package_catalog" where
  "live_package_catalog cs =
    (case cs_live cs of
       Some catalog \<Rightarrow> Inr catalog
     | None \<Rightarrow>
         Inl (Bailf ''Agent Package Catalog is unavailable: {diagnostic}''
           [case cs_last_failure cs of None \<Rightarrow> lit ''Catalog has not been initialized''
            | Some f \<Rightarrow> rf_diagnostic f]))"

text \<open>
  The refresh under the gate. \<open>loaded\<close> is the catalog that \<open>load_runtime_package_catalog\<close>
  assembled, or its error as rendered by \<open>{error:#}\<close>.
\<close>

definition refresh_catalog_locked ::
  "rstr + package_catalog \<Rightarrow> catalog_state \<Rightarrow> (host_error + package_catalog) \<times> catalog_state" where
  "refresh_catalog_locked loaded cs =
    (case loaded of
       Inr catalog \<Rightarrow>
         (Inr catalog, cs\<lparr>cs_live := Some catalog,
                          cs_generation := saturating_add_u64 (cs_generation cs) 1,
                          cs_last_failure := None\<rparr>)
     | Inl diagnostic \<Rightarrow>
         (Inl (Bailf ''Agent Package Catalog refresh failed: {diagnostic}'' [diagnostic]),
          cs\<lparr>cs_last_failure := Some \<lparr>rf_diagnostic = diagnostic,
                                     rf_issue = classify_package_error diagnostic\<rparr>\<rparr>))"

definition package_catalog_health :: "catalog_state \<Rightarrow> catalog_health" where
  "package_catalog_health cs =
     \<lparr>ch_generation = cs_generation cs,
      ch_catalog_revision = map_option cat_catalog_revision (cs_live cs),
      ch_last_issue = map_option rf_issue (cs_last_failure cs)\<rparr>"

text \<open>
  A mutation and the refresh after it run under the same gate; a mutation that fails returns
  before the refresh.
\<close>

definition mutate_and_refresh ::
  "host_error + 'a \<Rightarrow> rstr + package_catalog \<Rightarrow> catalog_state
     \<Rightarrow> (host_error + 'a \<times> (host_error + package_catalog) \<times> catalog_health) \<times> catalog_state" where
  "mutate_and_refresh mutation loaded cs =
    (case mutation of
       Inl e \<Rightarrow> (Inl e, cs)
     | Inr value \<Rightarrow>
         let (catalog, cs') = refresh_catalog_locked loaded cs
         in (Inr (value, catalog, package_catalog_health cs'), cs'))"

section \<open>Product agents\<close>

record agent_record =
  ag_owner :: int
  ag_agent_id :: rstr
  ag_display_name :: rstr
  ag_description :: rstr
  ag_version :: rstr
  ag_desired_state :: rstr
  ag_runtime_state :: rstr
  ag_main_session_id :: "rstr option"
  ag_workspace_dir :: "rstr option"
  ag_activated_at :: "rstr option"
  ag_updated_at :: rstr
  ag_last_error :: "rstr option"

definition validate_owner :: "int \<Rightarrow> host_error + unit" where
  "validate_owner owner = bail_if (owner \<le> 0) (Bail ''AgentMesh360 account id is invalid'')"

definition agent_row_to_record :: "agent_row \<Rightarrow> host_error + agent_record" where
  "agent_row_to_record row =
    (case ar_owner row of
       None \<Rightarrow> Inl (Sql (FromSqlConversion 0))
     | Some owner \<Rightarrow>
         Inr \<lparr>ag_owner = owner, ag_agent_id = ar_agent_id row, ag_display_name = ar_display_name row,
              ag_description = ar_description row, ag_version = ar_version row,
              ag_desired_state = ar_desired_state row, ag_runtime_state = ar_runtime_state row,
              ag_main_session_id = ar_main_session_id row, ag_workspace_dir = ar_workspace_dir row,
              ag_activated_at = ar_activated_at row, ag_updated_at = ar_updated_at row,
              ag_last_error = ar_last_error row\<rparr>)"

definition agent_key :: "int \<Rightarrow> rstr \<Rightarrow> agent_row \<Rightarrow> bool" where
  "agent_key owner agent_id r \<longleftrightarrow> ar_owner r = Some owner \<and> ar_agent_id r = agent_id"

text \<open>\<open>INSERT .. ON CONFLICT(owner_account_id, agent_id) DO UPDATE\<close> for one package.\<close>

definition seed_package :: "rstr \<Rightarrow> int \<Rightarrow> package_manifest \<Rightarrow> agent_row list \<Rightarrow> agent_row list" where
  "seed_package now owner m rows =
    (let a = pm_agent m; key = agent_key owner (pa_agent_id a) in
     if list_ex key rows then
       update_where key (\<lambda>r. r\<lparr>ar_display_name := pa_display_name a, ar_description := pa_description a,
         ar_version := pm_version m, ar_sort_order := pa_sort_order a\<rparr>) rows
     else rows @ [\<lparr>ar_owner = Some owner, ar_agent_id = pa_agent_id a,
         ar_display_name = pa_display_name a, ar_description = pa_description a,
         ar_version = pm_version m, ar_sort_order = pa_sort_order a,
         ar_desired_state = lit ''inactive'', ar_runtime_state = lit ''available'',
         ar_main_session_id = None, ar_workspace_dir = None, ar_activated_at = None,
         ar_updated_at = now, ar_last_error = None\<rparr>])"

definition seed_builtins ::
  "catalog_state \<Rightarrow> rstr \<Rightarrow> int \<Rightarrow> state_db \<Rightarrow> (host_error + unit) \<times> state_db" where
  "seed_builtins cs now owner db =
    (case live_package_catalog cs of
       Inl e \<Rightarrow> (Inl e, db)
     | Inr catalog \<Rightarrow>
         (Inr (), db\<lparr>product_agents :=
            fold (seed_package now owner) (cat_packages catalog) (product_agents db)\<rparr>))"

text \<open>
  The first account that signs in takes over the rows of the unscoped schema; the transaction
  is rolled back when seeding fails.
\<close>

definition claim_legacy_and_seed ::
  "catalog_state \<Rightarrow> rstr \<Rightarrow> int \<Rightarrow> state_db \<Rightarrow> (host_error + unit) \<times> state_db" where
  "claim_legacy_and_seed cs now owner db =
    (case validate_owner owner of
       Inl e \<Rightarrow> (Inl e, db)
     | Inr _ \<Rightarrow>
     let rows = product_agents db;
         rows' = (if count_where (\<lambda>r. ar_owner r = Some owner) rows = 0
                  then update_where (\<lambda>r. ar_owner r = None) (\<lambda>r. r\<lparr>ar_owner := Some owner\<rparr>) rows
                  else rows) in
     case seed_builtins cs now owner (db\<lparr>product_agents := rows'\<rparr>) of
       (Inl e, _) \<Rightarrow> (Inl e, db)
     | (Inr _, db') \<Rightarrow> (Inr (), db'))"

definition agents_list ::
  "catalog_state \<Rightarrow> rstr \<Rightarrow> int \<Rightarrow> state_db \<Rightarrow> (host_error + agent_record list) \<times> state_db" where
  "agents_list cs now owner db =
    (case validate_owner owner of
       Inl e \<Rightarrow> (Inl e, db)
     | Inr _ \<Rightarrow>
     case seed_builtins cs now owner db of
       (Inl e, db') \<Rightarrow> (Inl e, db')
     | (Inr _, db') \<Rightarrow>
         (with_context ''read AgentMesh360 product agent registry''
            (collect_results (map agent_row_to_record
              (sort_key (\<lambda>r. (ar_sort_order r, ar_agent_id r))
                (filter (\<lambda>r. ar_owner r = Some owner) (product_agents db'))))), db'))"

definition agents_get ::
  "catalog_state \<Rightarrow> rstr \<Rightarrow> int \<Rightarrow> rstr \<Rightarrow> state_db \<Rightarrow> (host_error + agent_record) \<times> state_db" where
  "agents_get cs now owner agent_id db =
    (case validate_owner owner of
       Inl e \<Rightarrow> (Inl e, db)
     | Inr _ \<Rightarrow>
     case seed_builtins cs now owner db of
       (Inl e, db') \<Rightarrow> (Inl e, db')
     | (Inr _, db') \<Rightarrow>
         (case find (agent_key owner agent_id) (product_agents db') of
            None \<Rightarrow> Inl (Context ''unknown AgentMesh360 product agent'' (Sql QueryReturnedNoRows))
          | Some row \<Rightarrow> with_context ''unknown AgentMesh360 product agent'' (agent_row_to_record row), db'))"

definition main_session_identity :: "rstr \<Rightarrow> state_db \<Rightarrow> (int option \<times> rstr) option" where
  "main_session_identity session_id db =
     map_option (\<lambda>r. (ar_owner r, ar_agent_id r))
       (find (\<lambda>r. ar_main_session_id r = Some session_id) (product_agents db))"

definition main_session_owner :: "rstr \<Rightarrow> state_db \<Rightarrow> int option option" where
  "main_session_owner session_id db = map_option fst (main_session_identity session_id db)"

definition main_session_ids :: "int \<Rightarrow> state_db \<Rightarrow> host_error + rstr set" where
  "main_session_ids owner db =
     and_then (validate_owner owner) (\<lambda>_.
     Inr (set (List.map_filter ar_main_session_id
       (filter (\<lambda>r. ar_owner r = Some owner) (product_agents db)))))"

definition all_main_session_ids :: "state_db \<Rightarrow> rstr set" where
  "all_main_session_ids db = set (List.map_filter ar_main_session_id (product_agents db))"

text \<open>\<open>model_policy\<close>: the policy of the agent's package in the live catalog.\<close>

definition registry_model_policy :: "catalog_state \<Rightarrow> rstr \<Rightarrow> host_error + agent_model_policy" where
  "registry_model_policy cs agent_id =
     and_then (live_package_catalog cs) (\<lambda>catalog.
     and_then (package_for_agent catalog agent_id) (\<lambda>package. Inr (pm_model_policy package)))"

section \<open>Activation\<close>

definition path_join :: "rstr \<Rightarrow> rstr \<Rightarrow> rstr" where
  "path_join a b = (if starts_with b [47] then b
                    else if a = [] \<or> last a = 47 then a @ b else a @ [47] @ b)"

text \<open>The deterministic main session of an agent; \<open>uuid_v5\<close> is \<open>Uuid::new_v5\<close> over the URL namespace.\<close>

definition stable_main_session_id :: "(rstr \<Rightarrow> rstr) \<Rightarrow> int \<Rightarrow> rstr \<Rightarrow> rstr" where
  "stable_main_session_id uuid_v5 owner agent_id =
     uuid_v5 (lit ''https://agentmesh360.com/accounts/'' @ int_to_str owner
              @ lit ''/product-agents/'' @ agent_id @ lit ''/main'')"

definition activate_row :: "rstr \<Rightarrow> rstr \<Rightarrow> rstr \<Rightarrow> agent_row \<Rightarrow> agent_row" where
  "activate_row session_id workspace now r =
     r\<lparr>ar_desired_state := lit ''running'', ar_runtime_state := lit ''starting'',
       ar_main_session_id := Some (case ar_main_session_id r of Some s \<Rightarrow> s | None \<Rightarrow> session_id),
       ar_workspace_dir := Some (case ar_workspace_dir r of Some w \<Rightarrow> w | None \<Rightarrow> workspace),
       ar_activated_at := Some (case ar_activated_at r of Some t \<Rightarrow> t | None \<Rightarrow> now),
       ar_updated_at := now, ar_last_error := None\<rparr>"

text \<open>The \<open>UNIQUE\<close> constraint on the main session, for the rows an update rewrites.\<close>

definition session_conflict :: "(agent_row \<Rightarrow> bool) \<Rightarrow> (agent_row \<Rightarrow> agent_row) \<Rightarrow> agent_row list \<Rightarrow> bool" where
  "session_conflict p f rows \<longleftrightarrow>
     list_ex (\<lambda>r. p r \<and> list_ex (\<lambda>q. \<not> p q \<and> ar_main_session_id q \<noteq> None
                     \<and> ar_main_session_id q = ar_main_session_id (f r)) rows) rows"

text \<open>\<open>mkdir_ok\<close> is the outcome of creating the workspace directory.\<close>

definition prepare_activation ::
  "(rstr \<Rightarrow> rstr) \<Rightarrow> rstr \<Rightarrow> catalog_state \<Rightarrow> bool \<Rightarrow> rstr \<Rightarrow> int \<Rightarrow> rstr \<Rightarrow> state_db
     \<Rightarrow> (host_error + agent_record) \<times> state_db" where
  "prepare_activation uuid_v5 state_home cs mkdir_ok now owner agent_id db =
    (case and_then (validate_owner owner) (\<lambda>_.
          and_then (live_package_catalog cs) (\<lambda>catalog. package_for_agent catalog agent_id)) of
       Inl e \<Rightarrow> (Inl e, db)
     | Inr package \<Rightarrow>
     let workspace = (case snd (pm_persistence package) of AccountAgentDirectory \<Rightarrow>
           path_join (path_join (path_join state_home (lit ''workspaces'')) (int_to_str owner)) agent_id);
         session_id = (case fst (pm_persistence package) of AccountAgentStableV5 \<Rightarrow>
           stable_main_session_id uuid_v5 owner agent_id) in
     if \<not> mkdir_ok then (Inl (Bail ''create product agent workspace''), db)
     else
     case seed_builtins cs now owner db of
       (Inl e, db1) \<Rightarrow> (Inl e, db1)
     | (Inr _, db1) \<Rightarrow>
     let key = agent_key owner agent_id; rows = product_agents db1;
         write = activate_row session_id workspace now in
     if session_conflict key write rows then (Inl (Sql (ConstraintUnique ''product_agents'')), db1)
     else
       let db2 = db1\<lparr>product_agents := update_where key write rows\<rparr> in
       if count_where key rows \<noteq> 1 then
         (Inl (Bailf ''unknown AgentMesh360 product agent: {agent_id}'' [agent_id]), db2)
       else agents_get cs now owner agent_id db2)"

definition mark_runtime ::
  "rstr \<Rightarrow> int \<Rightarrow> rstr \<Rightarrow> rstr \<Rightarrow> rstr option \<Rightarrow> state_db \<Rightarrow> (host_error + unit) \<times> state_db" where
  "mark_runtime now owner agent_id runtime_state last_error db =
    (let key = agent_key owner agent_id; rows = product_agents db;
         db' = db\<lparr>product_agents := update_where key (\<lambda>r. r\<lparr>ar_runtime_state := runtime_state,
                   ar_updated_at := now, ar_last_error := last_error\<rparr>) rows\<rparr> in
     if count_where key rows \<noteq> 1
     then (Inl (Bailf ''unknown AgentMesh360 product agent: {agent_id}'' [agent_id]), db')
     else (Inr (), db'))"

section \<open>Seeding\<close>

text \<open>A row without what a package says about its agent: what seeding has to keep.\<close>

definition core :: "agent_row \<Rightarrow> agent_row" where
  "core r = r\<lparr>ar_display_name := [], ar_description := [], ar_version := [], ar_sort_order := 0\<rparr>"

definition inactive_core :: "rstr \<Rightarrow> int \<Rightarrow> rstr \<Rightarrow> agent_row" where
  "inactive_core now owner agent_id = \<lparr>ar_owner = Some owner, ar_agent_id = agent_id, ar_display_name = [],
     ar_description = [], ar_version = [], ar_sort_order = 0, ar_desired_state = lit ''inactive'',
     ar_runtime_state = lit ''available'', ar_main_session_id = None, ar_workspace_dir = None,
     ar_activated_at = None, ar_updated_at = now, ar_last_error = None\<rparr>"

lemma core_simps [simp]:
  "ar_owner (core r) = ar_owner r" "ar_agent_id (core r) = ar_agent_id r"
  "ar_main_session_id (core r) = ar_main_session_id r" "ar_workspace_dir (core r) = ar_workspace_dir r"
  "ar_activated_at (core r) = ar_activated_at r" "agent_key o' a (core r) = agent_key o' a r"
  by (simp_all add: core_def agent_key_def)

lemma core_eqD:
  assumes "core r = core r'"
  shows "ar_owner r = ar_owner r'" "ar_agent_id r = ar_agent_id r'" "ar_main_session_id r = ar_main_session_id r'"
    "ar_workspace_dir r = ar_workspace_dir r'" "ar_activated_at r = ar_activated_at r'"
    "ar_desired_state r = ar_desired_state r'" "ar_runtime_state r = ar_runtime_state r'"
    "ar_updated_at r = ar_updated_at r'" "ar_last_error r = ar_last_error r'"
  using assms by (cases r; cases r'; simp add: core_def)+

lemma find_map_core: "(\<And>r. p (core r) = p r) \<Longrightarrow> find p (map core rows) = map_option core (find p rows)"
  by (induction rows) auto

lemma list_ex_core: "(\<And>r. p (core r) = p r) \<Longrightarrow> list_ex p (map core rows) = list_ex p rows"
  by (induction rows) auto

lemma seed_package_core:
  "map core (seed_package now owner m rows) = map core rows
     @ (if list_ex (agent_key owner (pa_agent_id (pm_agent m))) rows then []
        else [inactive_core now owner (pa_agent_id (pm_agent m))])"
  by (auto simp: seed_package_def Let_def update_where_def core_def inactive_core_def)

lemma seed_packages_core:
  "\<exists>new. map core (fold (seed_package now owner) ms rows) = map core rows @ map (inactive_core now owner) new
     \<and> distinct new \<and> (\<forall>a \<in> set new. \<not> list_ex (agent_key owner a) rows)"
proof (induction ms arbitrary: rows)
  case Nil
  then show ?case by (intro exI [of _ "[]"]) simp
next
  case (Cons m ms)
  let ?rows = "seed_package now owner m rows" and ?a = "pa_agent_id (pm_agent m)"
  obtain new where n: "map core (fold (seed_package now owner) ms ?rows) = map core ?rows @ map (inactive_core now owner) new"
    "distinct new" "\<forall>a \<in> set new. \<not> list_ex (agent_key owner a) ?rows"
    using Cons.IH by blast
  have ex: "list_ex (agent_key owner a) ?rows \<longleftrightarrow> list_ex (agent_key owner a) rows
      \<or> (\<not> list_ex (agent_key owner ?a) rows \<and> a = ?a)" for a
    using list_ex_core [of "agent_key owner a" ?rows] list_ex_core [of "agent_key owner a" rows]
    by (auto simp: seed_package_core list_ex_core inactive_core_def agent_key_def split: if_splits)
  show ?case
  proof (cases "list_ex (agent_key owner ?a) rows")
    case True
    with n ex show ?thesis by (intro exI [of _ new]) (auto simp: seed_package_core)
  next
    case False
    with n ex show ?thesis by (intro exI [of _ "?a # new"]) (auto simp: seed_package_core)
  qed
qed

text \<open>Identities and sessions are unique, owners positive.\<close>

definition sessions_unique :: "agent_row list \<Rightarrow> bool" where
  "sessions_unique rows \<longleftrightarrow> (\<forall>r \<in> set rows. \<forall>q \<in> set rows. ar_main_session_id r \<noteq> None
     \<and> ar_main_session_id r = ar_main_session_id q \<longrightarrow> ar_owner r = ar_owner q \<and> ar_agent_id r = ar_agent_id q)"

lemma sessions_unique_map:
  assumes "\<And>r. ar_owner (f r) = ar_owner r" "\<And>r. ar_agent_id (f r) = ar_agent_id r"
    "\<And>r. ar_main_session_id (f r) = ar_main_session_id r"
  shows "sessions_unique (map f rows) \<longleftrightarrow> sessions_unique rows"
  by (simp add: sessions_unique_def assms)

lemma sessions_unique_append:
  assumes "sessions_unique rows" "\<forall>r \<in> set new. ar_main_session_id r = None"
  shows "sessions_unique (rows @ new)"
  unfolding sessions_unique_def
proof (intro ballI impI)
  fix r q assume m: "r \<in> set (rows @ new)" "q \<in> set (rows @ new)"
    "ar_main_session_id r \<noteq> None \<and> ar_main_session_id r = ar_main_session_id q"
  from m(3) have "ar_main_session_id r \<noteq> None" "ar_main_session_id q \<noteq> None" by metis+
  with m assms(2) have "r \<in> set rows" "q \<in> set rows" by auto
  with assms(1) m(3) show "ar_owner r = ar_owner q \<and> ar_agent_id r = ar_agent_id q"
    unfolding sessions_unique_def by blast
qed

definition core_ok :: "agent_row list \<Rightarrow> bool" where
  "core_ok rows \<longleftrightarrow> unique_on (\<lambda>r. (ar_owner r, ar_agent_id r)) rows \<and> sessions_unique rows
     \<and> list_all (\<lambda>r. case ar_owner r of None \<Rightarrow> True | Some owner \<Rightarrow> 0 < owner) rows"

definition agents_ok :: "state_db \<Rightarrow> bool" where
  "agents_ok db \<longleftrightarrow> core_ok (product_agents db)"

lemma agents_ok_core: "agents_ok db \<longleftrightarrow> core_ok (map core (product_agents db))"
  by (simp add: agents_ok_def core_ok_def unique_on_def sessions_unique_map list_all_iff comp_def)

lemma core_ok_new:
  assumes "core_ok rows" "distinct new" "\<forall>a \<in> set new. \<not> list_ex (agent_key owner a) rows" "0 < owner"
  shows "core_ok (rows @ map (inactive_core now owner) new)"
proof -
  have "(\<lambda>r. (ar_owner r, ar_agent_id r)) ` set rows \<inter> (\<lambda>a. (Some owner, a)) ` set new = {}"
    using assms(3) by (auto simp: list_ex_iff agent_key_def)
  then have "unique_on (\<lambda>r. (ar_owner r, ar_agent_id r)) (rows @ map (inactive_core now owner) new)"
    using assms(1,2) by (simp add: core_ok_def unique_on_def comp_def inactive_core_def distinct_map inj_on_def)
  moreover have "sessions_unique (rows @ map (inactive_core now owner) new)"
    using assms(1) by (intro sessions_unique_append) (auto simp: core_ok_def inactive_core_def)
  ultimately show ?thesis
    using assms(1,4) by (auto simp: core_ok_def list_all_iff inactive_core_def)
qed

lemma agents_ok_seed:
  assumes "agents_ok db" "seed_builtins cs now owner db = (res, db')" "0 < owner"
  shows "agents_ok db'"
proof (cases "live_package_catalog cs")
  case (Inl e)
  with assms show ?thesis by (simp add: seed_builtins_def)
next
  case (Inr c)
  obtain new where n: "map core (fold (seed_package now owner) (cat_packages c) (product_agents db))
      = map core (product_agents db) @ map (inactive_core now owner) new"
    "distinct new" "\<forall>a \<in> set new. \<not> list_ex (agent_key owner a) (product_agents db)"
    using seed_packages_core by blast
  have "\<forall>a \<in> set new. \<not> list_ex (agent_key owner a) (map core (product_agents db))"
    using n(3) by (simp add: list_ex_core)
  from core_ok_new [OF _ n(2) this assms(3), of now] n(1) assms(1,2) Inr show ?thesis
    by (auto simp: seed_builtins_def agents_ok_core)
qed

section \<open>Runtime marks, claiming and activation\<close>

lemma agents_ok_mark:
  assumes "agents_ok db" "mark_runtime now owner agent_id state err db = (res, db')"
  shows "agents_ok db'"
proof -
  let ?w = "\<lambda>r. r\<lparr>ar_runtime_state := state, ar_updated_at := now, ar_last_error := err\<rparr>"
  have db': "db' = db\<lparr>product_agents := update_where (agent_key owner agent_id) ?w (product_agents db)\<rparr>"
    using assms(2) by (auto simp: mark_runtime_def Let_def split: if_splits)
  have "sessions_unique (update_where p ?w rows) \<longleftrightarrow> sessions_unique rows" for p rows
    unfolding update_where_def by (rule sessions_unique_map) simp_all
  then show ?thesis using assms(1)
    unfolding agents_ok_def db'
    by (auto simp: core_ok_def unique_on_update list_all_iff elim!: set_update_whereE)
qed

lemma claim_cases:
  assumes "claim_legacy_and_seed cs now owner db = (res, db')"
  obtains (failed) e where "res = Inl e" "db' = db"
  | (claimed) rows where "0 < owner" "res = Inr ()"
      "seed_builtins cs now owner (db\<lparr>product_agents := rows\<rparr>) = (Inr (), db')"
      "rows = (if \<exists>r \<in> set (product_agents db). ar_owner r = Some owner then product_agents db
        else update_where (\<lambda>r. ar_owner r = None) (\<lambda>r. r\<lparr>ar_owner := Some owner\<rparr>) (product_agents db))"
proof (cases res)
  case (Inl e)
  with assms show ?thesis
    by (intro failed [of e]) (auto simp: claim_legacy_and_seed_def Let_def split: sum.splits prod.splits if_splits)
next
  case (Inr u)
  let ?rows = "if count_where (\<lambda>r. ar_owner r = Some owner) (product_agents db) = 0
                  then update_where (\<lambda>r. ar_owner r = None) (\<lambda>r. r\<lparr>ar_owner := Some owner\<rparr>) (product_agents db)
                  else product_agents db"
  have "validate_owner owner = Inr ()" "seed_builtins cs now owner (db\<lparr>product_agents := ?rows\<rparr>) = (Inr (), db')"
    using assms Inr by (auto simp: claim_legacy_and_seed_def Let_def split: sum.splits prod.splits)
  then show ?thesis
    using Inr by (intro claimed [of ?rows]) (auto simp: validate_owner_def result_simps count_where_zero)
qed

lemma agents_ok_claim:
  assumes "agents_ok db" "claim_legacy_and_seed cs now owner db = (res, db')"
  shows "agents_ok db'"
  using assms(2)
proof (cases rule: claim_cases)
  case (claimed rows)
  have "agents_ok (db\<lparr>product_agents := rows\<rparr>)"
  proof (cases "\<exists>r \<in> set (product_agents db). ar_owner r = Some owner")
    case True
    with assms(1) claimed(4) show ?thesis by simp
  next
    case False
    let ?w = "\<lambda>r. r\<lparr>ar_owner := Some owner\<rparr>" and ?p = "\<lambda>r. ar_owner r = None"
    have rows: "rows = update_where ?p ?w (product_agents db)" using claimed(4) False by simp
    have inj: "inj_on (\<lambda>r. (ar_owner r, ar_agent_id r)) (set (product_agents db))"
      and "distinct (product_agents db)"
      using assms(1) by (auto simp: agents_ok_def core_ok_def unique_on_def distinct_map)
    moreover have "inj_on (\<lambda>r. (ar_owner (if ?p r then ?w r else r), ar_agent_id (if ?p r then ?w r else r)))
        (set (product_agents db))"
    proof (rule inj_onI)
      fix r q assume m: "r \<in> set (product_agents db)" "q \<in> set (product_agents db)"
        "(ar_owner (if ?p r then ?w r else r), ar_agent_id (if ?p r then ?w r else r))
          = (ar_owner (if ?p q then ?w q else q), ar_agent_id (if ?p q then ?w q else q))"
      then have "(ar_owner r, ar_agent_id r) = (ar_owner q, ar_agent_id q)"
        using False by (cases "?p r"; cases "?p q") auto
      with inj_onD [OF inj, of r q] m(1,2) show "r = q" by simp
    qed
    ultimately have "distinct (map (\<lambda>r. (ar_owner (if ?p r then ?w r else r), ar_agent_id (if ?p r then ?w r else r))) (product_agents db))"
      unfolding distinct_map by blast
    then have "unique_on (\<lambda>r. (ar_owner r, ar_agent_id r)) rows"
      by (simp add: rows unique_on_def update_where_def comp_def)
    moreover have "sessions_unique rows"
      unfolding sessions_unique_def
    proof (intro ballI impI)
      fix r' q' assume m: "r' \<in> set rows" "q' \<in> set rows"
        "ar_main_session_id r' \<noteq> None \<and> ar_main_session_id r' = ar_main_session_id q'"
      from m(1) obtain r where r: "r \<in> set (product_agents db)" "r' = (if ?p r then ?w r else r)"
        unfolding rows by (rule set_update_whereE)
      from m(2) obtain q where q: "q \<in> set (product_agents db)" "q' = (if ?p q then ?w q else q)"
        unfolding rows by (rule set_update_whereE)
      have "ar_main_session_id r' = ar_main_session_id r" "ar_main_session_id q' = ar_main_session_id q"
        using r(2) q(2) by simp_all
      with m(3) have "ar_main_session_id r \<noteq> None \<and> ar_main_session_id r = ar_main_session_id q" by metis
      with assms(1) r(1) q(1) have "ar_owner r = ar_owner q \<and> ar_agent_id r = ar_agent_id q"
        unfolding agents_ok_def core_ok_def sessions_unique_def by blast
      then show "ar_owner r' = ar_owner q' \<and> ar_agent_id r' = ar_agent_id q'"
        using r(2) q(2) by simp
    qed
    ultimately show ?thesis using assms(1) claimed(1)
      by (auto simp: agents_ok_def core_ok_def list_all_iff rows elim!: set_update_whereE)
  qed
  from agents_ok_seed [OF this claimed(3,1)] show ?thesis .
qed (use assms in auto)

lemma agents_get_cases:
  assumes "agents_get cs now owner agent_id db = (res, db')"
  obtains (invalid) e where "res = Inl e" "db' = db"
  | (seeded) c where "0 < owner" "live_package_catalog cs = Inr c" "seed_builtins cs now owner db = (Inr (), db')"
      "res = (case find (agent_key owner agent_id) (product_agents db') of
            None \<Rightarrow> Inl (Context ''unknown AgentMesh360 product agent'' (Sql QueryReturnedNoRows))
          | Some row \<Rightarrow> with_context ''unknown AgentMesh360 product agent'' (agent_row_to_record row))"
proof (cases "validate_owner owner")
  case (Inl e)
  with assms show ?thesis by (intro invalid [of e]) (auto simp: agents_get_def)
next
  case val: (Inr u)
  show ?thesis
  proof (cases "live_package_catalog cs")
    case (Inl e)
    with assms val show ?thesis by (intro invalid [of e]) (auto simp: agents_get_def seed_builtins_def)
  next
    case (Inr c)
    with assms val show ?thesis
      by (intro seeded [of c]) (auto simp: agents_get_def seed_builtins_def validate_owner_def result_simps)
  qed
qed

lemma agents_ok_get:
  assumes "agents_ok db" "agents_get cs now owner agent_id db = (res, db')"
  shows "agents_ok db'"
  using assms(2) by (cases rule: agents_get_cases) (use assms(1) agents_ok_seed in auto)

lemma agents_ok_list:
  assumes "agents_ok db" "agents_list cs now owner db = (res, db')"
  shows "agents_ok db'"
proof (cases "validate_owner owner")
  case (Inl e)
  with assms show ?thesis by (simp add: agents_list_def)
next
  case (Inr u)
  then have pos: "0 < owner" by (simp add: validate_owner_def result_simps)
  obtain sr db1 where s: "seed_builtins cs now owner db = (sr, db1)" by fastforce
  have "db' = db1" using assms(2) Inr s by (auto simp: agents_list_def split: sum.splits)
  with agents_ok_seed [OF assms(1) s pos] show ?thesis by simp
qed

lemma seeded_find:
  assumes "seed_builtins cs now owner db = (Inr (), db')" "find (agent_key owner a) (product_agents db) = Some r"
  shows "\<exists>r'. find (agent_key owner a) (product_agents db') = Some r' \<and> core r' = core r"
proof -
  obtain c where "live_package_catalog cs = Inr c"
    using assms(1) by (cases "live_package_catalog cs") (auto simp: seed_builtins_def)
  with assms(1) have c: "db' = db\<lparr>product_agents := fold (seed_package now owner) (cat_packages c) (product_agents db)\<rparr>"
    by (simp add: seed_builtins_def)
  obtain new where n: "map core (product_agents db') = map core (product_agents db) @ map (inactive_core now owner) new"
    using seed_packages_core [of now owner "cat_packages c" "product_agents db"] c by auto
  have "map_option core (find (agent_key owner a) (product_agents db'))
      = find (agent_key owner a) (map core (product_agents db'))"
    by (simp add: find_map_core)
  also have "\<dots> = Some (core r)"
    using assms(2) by (simp add: n find_append find_map_core)
  finally show ?thesis by (auto simp: map_option_eq_Some)
qed

lemma activation_cases:
  assumes "prepare_activation uuid_v5 home cs mkdir_ok now owner agent_id db = (res, db')"
  obtains (failed) e where "res = Inl e" "db' = db"
  | (seeded) e where "res = Inl e" "0 < owner" "seed_builtins cs now owner db = (Inr (), db')"
  | (written) session workspace db1 db2 where "0 < owner" "mkdir_ok"
      "session = stable_main_session_id uuid_v5 owner agent_id"
      "seed_builtins cs now owner db = (Inr (), db1)"
      "\<not> session_conflict (agent_key owner agent_id) (activate_row session workspace now) (product_agents db1)"
      "db2 = db1\<lparr>product_agents := update_where (agent_key owner agent_id) (activate_row session workspace now) (product_agents db1)\<rparr>"
      "(db' = db2 \<and> \<not> is_ok res) \<or> (find (agent_key owner agent_id) (product_agents db1) \<noteq> None
         \<and> agents_get cs now owner agent_id db2 = (res, db'))"
proof (cases "and_then (validate_owner owner) (\<lambda>_.
          and_then (live_package_catalog cs) (\<lambda>catalog. package_for_agent catalog agent_id))")
  case (Inl e)
  with assms show ?thesis by (intro failed [of e]) (auto simp: prepare_activation_def)
next
  case p: (Inr package)
  then obtain c where c: "0 < owner" "live_package_catalog cs = Inr c"
    by (auto simp: validate_owner_def result_simps)
  obtain db1 where s: "seed_builtins cs now owner db = (Inr (), db1)"
    by (simp add: seed_builtins_def c)
  let ?session = "case fst (pm_persistence package) of AccountAgentStableV5 \<Rightarrow> stable_main_session_id uuid_v5 owner agent_id"
  let ?ws = "case snd (pm_persistence package) of AccountAgentDirectory \<Rightarrow>
           path_join (path_join (path_join home (lit ''workspaces'')) (int_to_str owner)) agent_id"
  let ?key = "agent_key owner agent_id" and ?w = "activate_row ?session ?ws now"
  note step = assms [unfolded prepare_activation_def p sum.case Let_def s split_conv]
  have sess: "?session = stable_main_session_id uuid_v5 owner agent_id"
    by (cases "fst (pm_persistence package)") simp
  consider "\<not> mkdir_ok" | "mkdir_ok" "session_conflict ?key ?w (product_agents db1)"
    | "mkdir_ok" "\<not> session_conflict ?key ?w (product_agents db1)" by blast
  then show ?thesis
  proof cases
    case 1
    with step show ?thesis by (intro failed) auto
  next
    case 2
    with step c s show ?thesis by (intro seeded) auto
  next
    case 3
    let ?db2 = "db1\<lparr>product_agents := update_where ?key ?w (product_agents db1)\<rparr>"
    have "count_where ?key (product_agents db1) = 1 \<Longrightarrow> find ?key (product_agents db1) \<noteq> None"
      using count_where_zero [of ?key "product_agents db1"] by (auto simp: find_None_iff)
    then have "(db' = ?db2 \<and> \<not> is_ok res) \<or> (find ?key (product_agents db1) \<noteq> None
        \<and> agents_get cs now owner agent_id ?db2 = (res, db'))"
      using step 3 by (cases "count_where ?key (product_agents db1) = 1") auto
    with 3 c s sess show ?thesis by (intro written [of ?session db1 ?ws ?db2]) auto
  qed
qed

lemma agents_ok_activation:
  assumes "agents_ok db" "prepare_activation uuid_v5 home cs mkdir_ok now owner agent_id db = (res, db')"
  shows "agents_ok db'"
  using assms(2)
proof (cases rule: activation_cases)
  case (written session workspace db1 db2)
  let ?key = "agent_key owner agent_id" and ?w = "activate_row session workspace now"
  have ok1: "agents_ok db1" by (rule agents_ok_seed [OF assms(1) written(4,1)])
  have "sessions_unique (update_where ?key ?w (product_agents db1))"
    unfolding sessions_unique_def
  proof (intro ballI impI)
    fix r' q' assume m: "r' \<in> set (update_where ?key ?w (product_agents db1))"
      "q' \<in> set (update_where ?key ?w (product_agents db1))"
      "ar_main_session_id r' \<noteq> None \<and> ar_main_session_id r' = ar_main_session_id q'"
    from m(1) obtain r where r: "r \<in> set (product_agents db1)" "r' = (if ?key r then ?w r else r)"
      by (rule set_update_whereE)
    from m(2) obtain q where q: "q \<in> set (product_agents db1)" "q' = (if ?key q then ?w q else q)"
      by (rule set_update_whereE)
    have k: "ar_owner r' = ar_owner r" "ar_agent_id r' = ar_agent_id r" "ar_owner q' = ar_owner q" "ar_agent_id q' = ar_agent_id q"
      using r(2) q(2) by (simp_all add: activate_row_def)
    have nc: "ar_main_session_id y = None \<or> ar_main_session_id y \<noteq> ar_main_session_id (?w x)"
      if "\<not> ?key y" "y \<in> set (product_agents db1)" "?key x" "x \<in> set (product_agents db1)" for x y
      using written(5) that unfolding session_conflict_def list_ex_iff by blast
    have "ar_owner r = ar_owner q \<and> ar_agent_id r = ar_agent_id q"
    proof (cases "?key r"; cases "?key q")
      assume "?key r" "?key q"
      then show ?thesis by (simp add: agent_key_def)
    next
      assume c: "?key r" "\<not> ?key q"
      with r(2) q(2) m(3) have "ar_main_session_id q \<noteq> None \<and> ar_main_session_id q = ar_main_session_id (?w r)" by metis
      with nc [OF c(2) q(1) c(1) r(1)] show ?thesis by blast
    next
      assume c: "\<not> ?key r" "?key q"
      with r(2) q(2) m(3) have "ar_main_session_id r \<noteq> None \<and> ar_main_session_id r = ar_main_session_id (?w q)" by metis
      with nc [OF c(1) r(1) c(2) q(1)] show ?thesis by blast
    next
      assume "\<not> ?key r" "\<not> ?key q"
      with m(3) r(2) q(2) have "ar_main_session_id r \<noteq> None \<and> ar_main_session_id r = ar_main_session_id q" by metis
      with ok1 r(1) q(1) show ?thesis
        unfolding agents_ok_def core_ok_def sessions_unique_def by blast
    qed
    with k show "ar_owner r' = ar_owner q' \<and> ar_agent_id r' = ar_agent_id q'" by simp
  qed
  then have ok2: "agents_ok db2"
    using ok1 unfolding written(6)
    by (auto simp: agents_ok_def core_ok_def unique_on_update activate_row_def list_all_iff elim!: set_update_whereE)
  from written(7) show ?thesis
  proof
    assume "find (agent_key owner agent_id) (product_agents db1) \<noteq> None
        \<and> agents_get cs now owner agent_id db2 = (res, db')"
    then show ?thesis using agents_ok_get [OF ok2] by blast
  qed (use ok2 in simp)
qed (use assms agents_ok_seed in auto)

section \<open>Properties of the registry\<close>

text \<open>What a successful activation leaves in the table.\<close>

lemma activated_row:
  assumes "prepare_activation uuid_v5 home cs mkdir_ok now owner agent_id db = (Inr a, db')"
  obtains row session workspace before where
    "find (agent_key owner agent_id) (product_agents db') = Some row"
    "core row = core (activate_row session workspace now before)"
    "session = stable_main_session_id uuid_v5 owner agent_id"
    "agent_row_to_record row = Inr a" "0 < owner"
    "(\<exists>r. find (agent_key owner agent_id) (product_agents db) = Some r \<and> core r = core before)
     \<or> (find (agent_key owner agent_id) (product_agents db) = None \<and> ar_main_session_id before = None)"
  using assms
proof (cases rule: activation_cases)
  case (written session workspace db1 db2)
  let ?key = "agent_key owner agent_id" and ?w = "activate_row session workspace now"
  from written(7) obtain before where before: "find ?key (product_agents db1) = Some before"
    and get: "agents_get cs now owner agent_id db2 = (Inr a, db')" by auto
  from get obtain row where row: "find ?key (product_agents db') = Some row" "agent_row_to_record row = Inr a"
      and s2: "seed_builtins cs now owner db2 = (Inr (), db')"
    by (cases rule: agents_get_cases) (auto simp: map_err_eq_Inr eq_commute [of "Inr a"] split: option.splits)
  have "find ?key (product_agents db2) = Some (?w before)"
    unfolding written(6) using before find_SomeD [OF before] find_update_where [of ?key ?key ?w "product_agents db1"]
    by (auto simp: agent_key_def activate_row_def)
  from seeded_find [OF s2 this] row(1) have core: "core row = core (?w before)" by auto
  have "(\<exists>r. find ?key (product_agents db) = Some r \<and> core r = core before)
     \<or> (find ?key (product_agents db) = None \<and> ar_main_session_id before = None)"
  proof (cases "find ?key (product_agents db)")
    case None
    obtain c where "live_package_catalog cs = Inr c"
      using written(4) by (cases "live_package_catalog cs") (auto simp: seed_builtins_def)
    then obtain new where n: "map core (product_agents db1) = map core (product_agents db) @ map (inactive_core now owner) new"
      using written(4) seed_packages_core [of now owner "cat_packages c" "product_agents db"] by (auto simp: seed_builtins_def)
    have "Some (core before) = find ?key (map core (product_agents db1))"
      using before by (simp add: find_map_core)
    also have "\<dots> = find ?key (map (inactive_core now owner) new)"
      using None by (simp add: n find_append find_map_core)
    finally have "core before \<in> set (map (inactive_core now owner) new)"
      by (metis find_SomeD)
    then obtain x where "core before = inactive_core now owner x" by auto
    then have "ar_main_session_id (core before) = None" by (simp only:) (simp add: inactive_core_def)
    with None show ?thesis by simp
  next
    case (Some r)
    with seeded_find [OF written(4) Some] before show ?thesis by auto
  qed
  then show ?thesis by (rule that [OF row(1) core written(3) row(2) written(1)])
qed auto

text \<open>activation is stable: whenever an agent of an account is activated again, after whatever changes of
  catalog, workspace root and time, it keeps its main session, workspace and activation time; a first
  activation gives it the session that is computed from account and agent alone, and the session belongs
  to exactly this agent of this account.\<close>

theorem activation_is_stable:
  assumes "agents_ok db"
    and "prepare_activation uuid_v5 home cs mkdir_ok now owner agent_id db = (Inr a, db1)"
    and "prepare_activation uuid_v5 home2 cs2 mkdir_ok2 now2 owner agent_id db1 = (Inr a2, db2)"
  shows "ag_main_session_id a2 = ag_main_session_id a \<and> ag_workspace_dir a2 = ag_workspace_dir a
    \<and> ag_activated_at a2 = ag_activated_at a
    \<and> (\<exists>session. ag_main_session_id a = Some session
        \<and> main_session_identity session db1 = Some (Some owner, agent_id)
        \<and> (find (agent_key owner agent_id) (product_agents db) = None
           \<longrightarrow> session = stable_main_session_id uuid_v5 owner agent_id))"
proof -
  from assms(2) obtain row session workspace before where r: "find (agent_key owner agent_id) (product_agents db1) = Some row"
    "core row = core (activate_row session workspace now before)"
    "session = stable_main_session_id uuid_v5 owner agent_id" "agent_row_to_record row = Inr a"
    and b: "(\<exists>r. find (agent_key owner agent_id) (product_agents db) = Some r \<and> core r = core before)
     \<or> (find (agent_key owner agent_id) (product_agents db) = None \<and> ar_main_session_id before = None)"
    by (rule activated_row)
  from assms(3) obtain row2 session2 workspace2 before2 where r2: "find (agent_key owner agent_id) (product_agents db2) = Some row2"
    "core row2 = core (activate_row session2 workspace2 now2 before2)" "agent_row_to_record row2 = Inr a2"
    "(\<exists>r. find (agent_key owner agent_id) (product_agents db1) = Some r \<and> core r = core before2)
     \<or> (find (agent_key owner agent_id) (product_agents db1) = None \<and> ar_main_session_id before2 = None)"
    by (rule activated_row)
  have c2: "core row = core before2" using r2(4) r(1) by simp
  have rec: "ag_main_session_id x = ar_main_session_id y \<and> ag_workspace_dir x = ar_workspace_dir y
      \<and> ag_activated_at x = ar_activated_at y" if "agent_row_to_record y = Inr x" for x y
    using that by (auto simp: agent_row_to_record_def split: option.splits)
  note f1 = core_eqD [OF r(2)] and f2 = core_eqD [OF r2(2)] and f3 = core_eqD [OF c2]
  obtain s where s: "ar_main_session_id row = Some s"
    using f1(3) by (simp add: activate_row_def)
  have same: "ar_main_session_id row2 = ar_main_session_id row" "ar_workspace_dir row2 = ar_workspace_dir row"
    "ar_activated_at row2 = ar_activated_at row"
    using f1 f2 f3 by (simp_all add: activate_row_def)
  have row: "row \<in> set (product_agents db1)" "ar_owner row = Some owner" "ar_agent_id row = agent_id"
    using find_SomeD [OF r(1)] by (simp_all add: agent_key_def)
  have ok1: "agents_ok db1" by (rule agents_ok_activation [OF assms(1,2)])
  obtain q where q: "find (\<lambda>r. ar_main_session_id r = Some s) (product_agents db1) = Some q"
    using row(1) s by (cases "find (\<lambda>r. ar_main_session_id r = Some s) (product_agents db1)") (auto simp: find_None_iff)
  then have "q \<in> set (product_agents db1)" "ar_main_session_id q = Some s" by (auto dest: find_SomeD)
  then have "ar_owner q = Some owner" "ar_agent_id q = agent_id"
    using ok1 row s unfolding agents_ok_def core_ok_def sessions_unique_def by (metis option.distinct(1))+
  then have "main_session_identity s db1 = Some (Some owner, agent_id)"
    using q by (simp add: main_session_identity_def)
  moreover have "s = stable_main_session_id uuid_v5 owner agent_id"
    if "find (agent_key owner agent_id) (product_agents db) = None"
    using b that f1(3) s r(3) by (auto simp: activate_row_def)
  ultimately show ?thesis using rec [OF r(4)] rec [OF r2(3)] same s by auto
qed

lemma seeded_all:
  "m \<in> set ms \<Longrightarrow> list_ex (agent_key owner (pa_agent_id (pm_agent m))) (fold (seed_package now owner) ms rows)"
proof (induction ms arbitrary: rows)
  case (Cons m' ms)
  let ?rows = "seed_package now owner m' rows"
  have keep: "list_ex (agent_key owner a) (fold (seed_package now owner) ms ?rows)" if "list_ex (agent_key owner a) ?rows" for a
  proof -
    obtain new where "map core (fold (seed_package now owner) ms ?rows) = map core ?rows @ map (inactive_core now owner) new"
      using seed_packages_core by blast
    with that list_ex_core [of "agent_key owner a" ?rows]
      list_ex_core [of "agent_key owner a" "fold (seed_package now owner) ms ?rows"]
    show ?thesis by simp
  qed
  have "list_ex (agent_key owner (pa_agent_id (pm_agent m'))) ?rows"
    using list_ex_core [of "agent_key owner (pa_agent_id (pm_agent m'))" ?rows]
      list_ex_core [of "agent_key owner (pa_agent_id (pm_agent m'))" rows]
    by (auto simp: seed_package_core inactive_core_def agent_key_def)
  with keep Cons show ?case by auto
qed simp

text \<open>seeding never disturbs an agent that exists: the rows before keep their order, states, sessions,
  workspaces and times, for every account; what it adds are inactive agents of this account without a
  session, and afterwards every package of the live catalog has its row.\<close>

theorem seeding_keeps_agents:
  assumes "seed_builtins cs now owner db = (Inr (), db')"
  shows "(\<exists>new. map core (product_agents db') = map core (product_agents db) @ map (inactive_core now owner) new)
    \<and> (\<exists>c. live_package_catalog cs = Inr c
        \<and> (\<forall>m \<in> set (cat_packages c). list_ex (agent_key owner (pa_agent_id (pm_agent m))) (product_agents db')))
    \<and> (agents_ok db \<and> 0 < owner \<longrightarrow> agents_ok db')"
proof -
  obtain c where c: "live_package_catalog cs = Inr c"
    using assms by (cases "live_package_catalog cs") (auto simp: seed_builtins_def)
  then have "db' = db\<lparr>product_agents := fold (seed_package now owner) (cat_packages c) (product_agents db)\<rparr>"
    using assms by (simp add: seed_builtins_def)
  then show ?thesis
    using c seeded_all seed_packages_core [of now owner "cat_packages c" "product_agents db"]
      agents_ok_seed [OF _ assms] by auto
qed

section \<open>The catalog over a run of refreshes\<close>

definition refresh_run :: "(rstr + package_catalog) list \<Rightarrow> catalog_state \<Rightarrow> catalog_state" where
  "refresh_run loads cs = fold (\<lambda>loaded cs. snd (refresh_catalog_locked loaded cs)) loads cs"

definition last_good :: "(rstr + package_catalog) list \<Rightarrow> package_catalog option" where
  "last_good loads = fold (\<lambda>loaded acc. case loaded of Inr c \<Rightarrow> Some c | Inl _ \<Rightarrow> acc) loads None"

text \<open>a failed refresh never takes the working catalog away: over any run of refreshes the live catalog is
  the one of the last load that succeeded, the generation counts the successes (up to saturation), and a
  failure is on record exactly when the last load failed.\<close>

theorem refreshes_keep_last_good_catalog:
  "cs_live (refresh_run loads initial_catalog_state) = last_good loads
    \<and> cs_generation (refresh_run loads initial_catalog_state) = min u64_max (length (filter is_ok loads))
    \<and> (cs_last_failure (refresh_run loads initial_catalog_state) = None \<longleftrightarrow> loads = [] \<or> is_ok (last loads))"
proof (induction loads rule: rev_induct)
  case Nil
  then show ?case by (simp add: refresh_run_def last_good_def initial_catalog_state_def u64_max_def)
next
  case (snoc l loads)
  then show ?case
    by (cases l) (auto simp: refresh_run_def last_good_def refresh_catalog_locked_def saturating_add_u64_def)
qed

section \<open>A concrete registry\<close>

definition sample_catalog_state :: catalog_state where
  "sample_catalog_state = \<lparr>cs_live = Some \<lparr>cat_schema_version = 1, cat_catalog_revision = 1,
     cat_packages = [sample_manifest]\<rparr>, cs_generation = 1, cs_last_failure = None\<rparr>"

lemma sample_seed:
  "seed_builtins sample_catalog_state [48] 7 empty_db = (Inr (), empty_db\<lparr>product_agents :=
     [(inactive_core [48] 7 [97])\<lparr>ar_display_name := [110], ar_description := [100], ar_version := [49]\<rparr>]\<rparr>)"
  by (simp add: seed_builtins_def sample_catalog_state_def live_package_catalog_def seed_package_def sample_manifest_def
      empty_db_def inactive_core_def)

lemma seeding_keeps_agents_witness:
  "map core (product_agents (snd (seed_builtins sample_catalog_state [48] 7 empty_db))) = [inactive_core [48] 7 [97]]"
  using seeding_keeps_agents [OF sample_seed] unfolding sample_seed
  by (simp add: core_def inactive_core_def)

lemma sample_activation:
  "is_ok (fst (prepare_activation (\<lambda>s. s) [47] sample_catalog_state True now 7 [97] empty_db))"
  "is_ok (fst (prepare_activation (\<lambda>s. s) [47] sample_catalog_state True now2 7 [97]
     (snd (prepare_activation (\<lambda>s. s) [47] sample_catalog_state True now 7 [97] empty_db))))"
  by (simp_all add: prepare_activation_def validate_owner_def live_package_catalog_def sample_catalog_state_def
      package_for_agent_def sample_manifest_def seed_builtins_def seed_package_def agent_key_def session_conflict_def
      update_where_def count_where_def activate_row_def agents_get_def agent_row_to_record_def empty_db_def Let_def)

lemma activation_is_stable_witness:
  "\<exists>a db1 a2 db2. prepare_activation (\<lambda>s. s) [47] sample_catalog_state True [48] 7 [97] empty_db = (Inr a, db1)
     \<and> prepare_activation (\<lambda>s. s) [47] sample_catalog_state True [49] 7 [97] db1 = (Inr a2, db2)
     \<and> ag_main_session_id a2 = Some (stable_main_session_id (\<lambda>s. s) 7 [97])"
proof -
  obtain r1 db1 where p1: "prepare_activation (\<lambda>s. s) [47] sample_catalog_state True [48] 7 [97] empty_db = (r1, db1)"
    by fastforce
  obtain r2 db2 where p2: "prepare_activation (\<lambda>s. s) [47] sample_catalog_state True [49] 7 [97] db1 = (r2, db2)"
    by fastforce
  obtain a where a: "r1 = Inr a" using sample_activation(1) [of "[48]"] p1 by (cases r1) auto
  obtain a2 where a2: "r2 = Inr a2" using sample_activation(2) [of "[49]" "[48]"] p1 p2 by (cases r2) auto
  have "agents_ok empty_db" by (simp add: agents_ok_def core_ok_def sessions_unique_def empty_db_def)
  from activation_is_stable [OF this p1 [unfolded a] p2 [unfolded a2]] p1 p2 a a2 show ?thesis
    by (auto simp: empty_db_def)
qed

end
