(* ===== verification/Model_Routing.thy ===== *)
theory Model_Routing
  imports Catalog_Policy Model_Assignments Session_Bindings Turn_Routes Agent_Registry
begin

text \<open>
  \<open>model_routing.rs\<close>: the route compiler, and the service that binds routes to sessions,
  switches them and answers the extension methods of the Host.
\<close>

section \<open>The route compiler\<close>

definition endpoint_origin_of :: "host_env \<Rightarrow> rstr \<Rightarrow> host_error + rstr" where
  "endpoint_origin_of h base_url =
     and_then (ok_or (url_parse h base_url) (Foreign ''url'')) (\<lambda>url.
     and_then (bail_if (url_host_str url = None) (Bail ''Provider endpoint host is unavailable'')) (\<lambda>_.
     Inr (url_origin url)))"

definition preset_of :: "provider_catalog \<Rightarrow> profile_record \<Rightarrow> provider_preset option" where
  "preset_of catalog profile =
    (case pp_preset_id profile of None \<Rightarrow> None | Some preset_id \<Rightarrow> catalog_provider catalog preset_id)"

definition preset_matches_route :: "provider_preset option \<Rightarrow> profile_record \<Rightarrow> bool" where
  "preset_matches_route preset profile =
    (case preset of None \<Rightarrow> False
     | Some p \<Rightarrow> ps_protocol p = pp_protocol profile \<and> ps_auth_kind p = pp_auth_kind profile)"

text \<open>The capability the route is compiled with, and the warning it costs.\<close>

definition route_capability ::
  "provider_preset option \<Rightarrow> bool \<Rightarrow> rstr \<Rightarrow> model_capability \<times> rstr list" where
  "route_capability preset matches_route model_id =
    (if matches_route then
       (case (case preset of None \<Rightarrow> None | Some p \<Rightarrow> preset_model p model_id) of
          Some m \<Rightarrow> (cm_capability m, [])
        | None \<Rightarrow> (unknown_capability,
            [lit ''model capability is not verified; using conservative unknown values'']))
     else (unknown_capability, []))"

definition route_classification :: "provider_preset option \<Rightarrow> rstr \<Rightarrow> provider_classification" where
  "route_classification preset origin =
    (case preset of None \<Rightarrow> CustomEndpoint
     | Some p \<Rightarrow> if origin \<in> set (ps_allowed_endpoint_origins p) then ps_classification p
                 else CustomEndpoint)"

definition compile_warnings ::
  "rstr \<Rightarrow> assignment_record \<Rightarrow> profile_record \<Rightarrow> provider_preset option \<Rightarrow> bool \<Rightarrow> rstr list" where
  "compile_warnings role assignment profile preset matches_route =
     (if ma_role assignment \<noteq> role then
        [lit ''role '' @ role @ lit '' uses fallback assignment role '' @ ma_role assignment] else [])
     @ (if pp_preset_id profile \<noteq> None \<and> preset = None then
        [lit ''provider preset is unavailable; using conservative capabilities''] else [])
     @ (if preset \<noteq> None \<and> \<not> matches_route then
        [lit ''profile protocol or authentication differs from its preset; quirks disabled''] else [])"

definition route_compile ::
  "host_env \<Rightarrow> provider_catalog \<Rightarrow> int \<Rightarrow> rstr \<Rightarrow> rstr option \<Rightarrow> rstr option \<Rightarrow> agent_model_policy
     \<Rightarrow> state_db \<Rightarrow> host_error + prepared_route" where
  "route_compile h catalog owner role agent_id session_id policy db =
     and_then (resolve_with_main_fallback owner role agent_id session_id db) (\<lambda>assignment.
     and_then (profiles_get h owner (ma_provider_profile_id assignment) db) (\<lambda>profile.
     and_then (bail_if (ma_model_id assignment \<notin> set (pp_enabled_models profile))
       (Bail ''assigned model is not enabled by the Provider Profile'')) (\<lambda>_.
     let preset = preset_of catalog profile;
         matches_route = preset_matches_route preset profile;
         (capability, capability_warnings) =
           route_capability preset matches_route (ma_model_id assignment);
         evaluation = evaluate_policy policy capability in
     and_then (bail_if (\<not> is_compatible evaluation)
       (Bailf ''assigned model does not satisfy Agent policy: {}''
         [str_join (lit '', '') (pe_blockers evaluation)])) (\<lambda>_.
     and_then (endpoint_origin_of h (pp_base_url profile)) (\<lambda>origin.
     Inr \<lparr>rt_provider_profile_id = pp_profile_id profile,
          rt_provider_preset_id = pp_preset_id profile,
          rt_provider_display_name = pp_display_name profile,
          rt_endpoint_classification = route_classification preset origin,
          rt_endpoint_origin = origin, rt_protocol = pp_protocol profile,
          rt_base_url = pp_base_url profile, rt_auth_kind = pp_auth_kind profile,
          rt_model_id = ma_model_id assignment,
          rt_profile_route_revision = pp_route_revision profile,
          rt_assignment_id = ma_assignment_id assignment, rt_assignment_role = ma_role assignment,
          rt_assignment_revision = ma_revision assignment,
          rt_catalog_revision = pc_catalog_revision catalog, rt_capability = capability,
          rt_quirks = (if matches_route then (case preset of None \<Rightarrow> [] | Some p \<Rightarrow> ps_quirks p) else []),
          rt_warnings = compile_warnings role assignment profile preset matches_route
            @ capability_warnings @ pe_unmet_preferences evaluation\<rparr>)))))"

section \<open>Bindings of a session\<close>

record binding_lookup =
  bl_session_id :: rstr
  bl_role :: rstr
  bl_agent_id :: "rstr option"

datatype binding_switch_kind = SwitchExplicit | SwitchMigration | SwitchRollback

record switch_request =
  sw_session_id :: rstr
  sw_role :: rstr
  sw_agent_id :: "rstr option"
  sw_kind :: binding_switch_kind
  sw_target_revision :: "nat option"

definition require_session_owner ::
  "int \<Rightarrow> rstr \<Rightarrow> rstr option \<Rightarrow> state_db \<Rightarrow> host_error + rstr option" where
  "require_session_owner owner session_id requested_agent_id db =
    (case main_session_identity session_id db of
       Some (actual_owner, actual_agent_id) \<Rightarrow>
         if actual_owner = Some owner then
           (if (case requested_agent_id of None \<Rightarrow> False | Some a \<Rightarrow> a \<noteq> actual_agent_id)
            then Inl (Bail ''session not found'')
            else Inr (Some actual_agent_id))
         else Inl (Bail ''session not found'')
     | None \<Rightarrow> Inr requested_agent_id)"

definition policy_for :: "catalog_state \<Rightarrow> rstr option \<Rightarrow> host_error + agent_model_policy" where
  "policy_for cs agent_id =
    (case agent_id of None \<Rightarrow> Inr default_policy | Some a \<Rightarrow> registry_model_policy cs a)"

definition ensure_agent_identity :: "session_binding \<Rightarrow> rstr option \<Rightarrow> host_error + unit" where
  "ensure_agent_identity binding requested =
     bail_if (sp_agent_id binding \<noteq> requested)
       (Bail ''Session Provider Binding agent identity does not match'')"

definition resolve_binding ::
  "host_env \<Rightarrow> provider_catalog \<Rightarrow> catalog_state \<Rightarrow> rstr \<Rightarrow> rstr \<Rightarrow> int \<Rightarrow> binding_lookup \<Rightarrow> state_db
     \<Rightarrow> (host_error + session_binding) \<times> state_db" where
  "resolve_binding h catalog cs uuid now owner req db =
    (case require_session_owner owner (bl_session_id req) (bl_agent_id req) db of
       Inl e \<Rightarrow> (Inl e, db)
     | Inr agent_id \<Rightarrow>
     case bindings_current h owner (bl_session_id req) (bl_role req) db of
       Inl e \<Rightarrow> (Inl e, db)
     | Inr (Some current) \<Rightarrow>
         (and_then (ensure_agent_identity current agent_id) (\<lambda>_. Inr current), db)
     | Inr None \<Rightarrow>
     case and_then (policy_for cs agent_id) (\<lambda>policy.
            route_compile h catalog owner (bl_role req) agent_id (Some (bl_session_id req)) policy db) of
       Inl e \<Rightarrow> (Inl e, db)
     | Inr route \<Rightarrow>
         bind_initial h uuid now owner (bl_session_id req) (bl_role req) agent_id route db)"

definition ensure_product_binding ::
  "host_env \<Rightarrow> provider_catalog \<Rightarrow> catalog_state \<Rightarrow> rstr \<Rightarrow> rstr \<Rightarrow> int \<Rightarrow> rstr \<Rightarrow> rstr \<Rightarrow> rstr \<Rightarrow> state_db
     \<Rightarrow> (host_error + session_binding) \<times> state_db" where
  "ensure_product_binding h catalog cs uuid now owner session_id agent_id role db =
     resolve_binding h catalog cs uuid now owner
       \<lparr>bl_session_id = session_id, bl_role = role, bl_agent_id = Some agent_id\<rparr> db"

definition binding_history ::
  "host_env \<Rightarrow> int \<Rightarrow> binding_lookup \<Rightarrow> state_db \<Rightarrow> host_error + session_binding list" where
  "binding_history h owner req db =
     and_then (require_session_owner owner (bl_session_id req) (bl_agent_id req) db) (\<lambda>agent_id.
     and_then (bindings_history h owner (bl_session_id req) (bl_role req) db) (\<lambda>history.
     and_then (case rev history of [] \<Rightarrow> Inr () | current # _ \<Rightarrow> ensure_agent_identity current agent_id) (\<lambda>_.
     Inr history)))"

text \<open>The reason and the route of a switch: a fresh compilation, or an older revision.\<close>

definition switch_route ::
  "host_env \<Rightarrow> provider_catalog \<Rightarrow> catalog_state \<Rightarrow> int \<Rightarrow> switch_request \<Rightarrow> rstr option \<Rightarrow> session_binding
     \<Rightarrow> state_db \<Rightarrow> host_error + binding_change_reason \<times> prepared_route" where
  "switch_route h catalog cs owner req agent_id current db =
    (case sw_kind req of
       SwitchRollback \<Rightarrow>
         and_then (ok_or (sw_target_revision req) (Bail ''rollback requires targetBindingRevision'')) (\<lambda>target.
         and_then (bail_if (target \<ge> sp_revision current)
           (Bail ''rollback target must be an older Binding revision'')) (\<lambda>_.
         and_then (bindings_revision h owner (sw_session_id req) (sw_role req) target db) (\<lambda>b.
         Inr (Rollback, sp_route b))))
     | kind \<Rightarrow>
         and_then (bail_if (sw_target_revision req \<noteq> None)
           (Bail ''targetBindingRevision is only valid for rollback'')) (\<lambda>_.
         and_then (policy_for cs agent_id) (\<lambda>policy.
         and_then (route_compile h catalog owner (sw_role req) agent_id (Some (sw_session_id req)) policy db) (\<lambda>route.
         Inr (if kind = SwitchExplicit then ExplicitSwitch else CompatibleMigration, route)))))"

definition switch_binding ::
  "host_env \<Rightarrow> provider_catalog \<Rightarrow> catalog_state \<Rightarrow> rstr \<Rightarrow> rstr \<Rightarrow> int \<Rightarrow> switch_request \<Rightarrow> state_db
     \<Rightarrow> (host_error + session_binding) \<times> state_db" where
  "switch_binding h catalog cs uuid now owner req db =
    (case and_then (require_session_owner owner (sw_session_id req) (sw_agent_id req) db) (\<lambda>agent_id.
          and_then (bindings_current h owner (sw_session_id req) (sw_role req) db) (\<lambda>current.
          and_then (ok_or current (Bail ''Session Provider Binding is not initialized'')) (\<lambda>current.
          and_then (ensure_agent_identity current agent_id) (\<lambda>_.
          and_then (switch_route h catalog cs owner req agent_id current db) (\<lambda>(reason, route).
          Inr (agent_id, reason, route)))))) of
       Inl e \<Rightarrow> (Inl e, db)
     | Inr (agent_id, reason, route) \<Rightarrow>
         bindings_append h uuid now owner (sw_session_id req) (sw_role req) agent_id reason route db)"

definition turn_route_history :: "int \<Rightarrow> binding_lookup \<Rightarrow> state_db \<Rightarrow> host_error + turn_record list" where
  "turn_route_history owner req db =
     and_then (require_session_owner owner (bl_session_id req) (bl_agent_id req) db) (\<lambda>_.
     turns_list_session owner (bl_session_id req) (bl_role req) db)"

section \<open>Extension methods\<close>

text \<open>
  \<open>handle\<close> after the parameters of a request have been decoded: one constructor per method,
  with its decoded parameters.
\<close>

datatype routing_request =
    ProviderCatalogRequest
  | AssignmentsList
  | AssignmentsUpsert assignment_input
  | AssignmentsDelete rstr
  | BindingResolve binding_lookup
  | BindingHistory binding_lookup
  | BindingSwitch switch_request
  | TurnRoutesList binding_lookup

datatype routing_response =
    CatalogResponse provider_catalog
  | AssignmentsResponse "assignment_record list"
  | AssignmentResponse assignment_record
  | DeleteAssignmentResponse bool
  | BindingResponse session_binding
  | BindingHistoryResponse "session_binding list"
  | TurnRoutesResponse "turn_record list"

definition map_ok :: "('a \<Rightarrow> 'b) \<Rightarrow> host_error + 'a \<Rightarrow> host_error + 'b" where
  "map_ok f r = and_then r (\<lambda>a. Inr (f a))"

fun routing_handle ::
  "host_env \<Rightarrow> provider_catalog \<Rightarrow> catalog_state \<Rightarrow> rstr \<Rightarrow> rstr \<Rightarrow> int \<Rightarrow> routing_request \<Rightarrow> state_db
     \<Rightarrow> (host_error + routing_response) \<times> state_db" where
  "routing_handle h catalog cs uuid now owner ProviderCatalogRequest db = (Inr (CatalogResponse catalog), db)"
| "routing_handle h catalog cs uuid now owner AssignmentsList db =
     (map_ok AssignmentsResponse (assignments_list owner db), db)"
| "routing_handle h catalog cs uuid now owner (AssignmentsUpsert inp) db =
     (let (r, db') = assignments_upsert h uuid now owner inp db in (map_ok AssignmentResponse r, db'))"
| "routing_handle h catalog cs uuid now owner (AssignmentsDelete assignment_id) db =
     (let (r, db') = assignments_delete owner assignment_id db
      in (map_ok (\<lambda>_. DeleteAssignmentResponse True) r, db'))"
| "routing_handle h catalog cs uuid now owner (BindingResolve req) db =
     (let (r, db') = resolve_binding h catalog cs uuid now owner req db in (map_ok BindingResponse r, db'))"
| "routing_handle h catalog cs uuid now owner (BindingHistory req) db =
     (map_ok BindingHistoryResponse (binding_history h owner req db), db)"
| "routing_handle h catalog cs uuid now owner (BindingSwitch req) db =
     (let (r, db') = switch_binding h catalog cs uuid now owner req db in (map_ok BindingResponse r, db'))"
| "routing_handle h catalog cs uuid now owner (TurnRoutesList req) db =
     (map_ok TurnRoutesResponse (turn_route_history owner req db), db)"

section \<open>The route compiler\<close>

text \<open>C6: a compiled route is justified by what the account has configured: it is the resolved assignment of
  an enabled model of an own profile, with the revisions of both as they stand; its capability satisfies the
  policy, is the catalog's only when the preset matches protocol and authentication, and is unknown
  otherwise; an endpoint is classified as anything but custom only when its origin is in the allowlist of
  the profile's own preset.\<close>

theorem compiled_route_is_justified:
  assumes "route_compile h catalog owner role agent_id session_id policy db = Inr route"
  shows "\<exists>a p. resolve_with_main_fallback owner role agent_id session_id db = Inr a
    \<and> profiles_get h owner (ma_provider_profile_id a) db = Inr p
    \<and> rt_model_id route = ma_model_id a \<and> ma_model_id a \<in> set (pp_enabled_models p)
    \<and> rt_provider_profile_id route = pp_profile_id p \<and> rt_base_url route = pp_base_url p
    \<and> rt_protocol route = pp_protocol p \<and> rt_auth_kind route = pp_auth_kind p
    \<and> rt_profile_route_revision route = pp_route_revision p
    \<and> rt_assignment_id route = ma_assignment_id a \<and> rt_assignment_revision route = ma_revision a
    \<and> rt_catalog_revision route = pc_catalog_revision catalog
    \<and> is_compatible (evaluate_policy policy (rt_capability route))
    \<and> (rt_capability route \<noteq> unknown_capability \<longrightarrow> (\<exists>preset m. preset_of catalog p = Some preset
          \<and> ps_protocol preset = rt_protocol route \<and> ps_auth_kind preset = rt_auth_kind route
          \<and> preset_model preset (rt_model_id route) = Some m \<and> rt_capability route = cm_capability m))
    \<and> (rt_endpoint_classification route \<noteq> CustomEndpoint \<longrightarrow> (\<exists>preset. preset_of catalog p = Some preset
          \<and> rt_endpoint_origin route \<in> set (ps_allowed_endpoint_origins preset)
          \<and> rt_endpoint_classification route = ps_classification preset))"
proof -
  from assms obtain a p origin cap where r: "resolve_with_main_fallback owner role agent_id session_id db = Inr a"
    "profiles_get h owner (ma_provider_profile_id a) db = Inr p" "ma_model_id a \<in> set (pp_enabled_models p)"
    and cap: "fst (route_capability (preset_of catalog p) (preset_matches_route (preset_of catalog p) p) (ma_model_id a)) = cap"
    and e: "is_compatible (evaluate_policy policy cap)"
    and route: "rt_provider_profile_id route = pp_profile_id p" "rt_model_id route = ma_model_id a"
      "rt_base_url route = pp_base_url p" "rt_protocol route = pp_protocol p" "rt_auth_kind route = pp_auth_kind p"
      "rt_profile_route_revision route = pp_route_revision p" "rt_assignment_id route = ma_assignment_id a"
      "rt_assignment_revision route = ma_revision a" "rt_catalog_revision route = pc_catalog_revision catalog"
      "rt_capability route = cap" "rt_endpoint_origin route = origin"
      "rt_endpoint_classification route = route_classification (preset_of catalog p) origin"
    by (auto simp: route_compile_def result_simps Let_def case_prod_beta)
  have "\<exists>preset m. preset_of catalog p = Some preset \<and> ps_protocol preset = pp_protocol p
      \<and> ps_auth_kind preset = pp_auth_kind p \<and> preset_model preset (ma_model_id a) = Some m \<and> cap = cm_capability m"
    if "cap \<noteq> unknown_capability"
    using cap that by (auto simp: route_capability_def preset_matches_route_def split: if_splits option.splits)
  moreover have "\<exists>preset. preset_of catalog p = Some preset \<and> origin \<in> set (ps_allowed_endpoint_origins preset)
      \<and> rt_endpoint_classification route = ps_classification preset"
    if "rt_endpoint_classification route \<noteq> CustomEndpoint"
    using that unfolding route by (auto simp: route_classification_def split: if_splits option.splits)
  ultimately show ?thesis using r e route by (intro exI [of _ a] exI [of _ p]) simp
qed

lemma sample_compiles: "\<exists>route. route_compile sample_env sample_catalog 7 (lit ''main'') (Some [65]) (Some [83])
    default_policy sample_account = Inr route \<and> rt_model_id route = [109]"
proof -
  have res: "resolve_with_main_fallback 7 (lit ''main'') (Some [65]) (Some [83]) sample_account
      = assignment_row_to_record (new_assignment [97] [48] 7 sample_assignment_input)"
    by (simp add: resolve_with_main_fallback_def normalized_main resolve_role_def get_exact_def sample_account_def
        assignment_key_def new_assignment_def sample_assignment_input_def database_scope_id_def
        assignment_row_to_record_def)
  have prof: "profiles_get sample_env 7 [112] sample_account
      = Inr (record_of_input 7 [112] [99] [52] 1 [48] [48] sample_profile_input)"
    by (simp add: sample_account_def profiles_get_def profile_key_def sample_profile_row_def new_profile_row_def
        profile_row_to_record_def record_of_input_def) (simp add: sample_env_def sample_profile_input_def)
  have rec: "assignment_row_to_record (new_assignment [97] [48] 7 sample_assignment_input)
      = Inr \<lparr>ma_assignment_id = lit ''ma_'' @ [97], ma_owner = 7, ma_scope_kind = ScopeAgent,
          ma_scope_id = Some [65], ma_role = lit ''main'', ma_provider_profile_id = [112], ma_model_id = [109],
          ma_revision = 1, ma_created_at = [48], ma_updated_at = [48]\<rparr>"
    by (simp add: assignment_row_to_record_def new_assignment_def sample_assignment_input_def database_scope_id_def)
  have comp: "is_compatible (evaluate_policy default_policy unknown_capability)"
    by (simp add: is_compatible_def evaluate_policy_def default_policy_def evaluate_requirement_def
        evaluate_context_window_def unknown_capability_def Let_def)
  have origin: "endpoint_origin_of sample_env [117] = Inr [117]"
    by (simp add: endpoint_origin_of_def sample_env_def sample_url_def)
  show ?thesis
    by (simp add: route_compile_def res rec prof comp origin record_of_input_def sample_profile_input_def preset_of_def
        preset_matches_route_def route_capability_def Let_def)
qed

lemma compiled_route_is_justified_witness:
  "\<exists>route. route_compile sample_env sample_catalog 7 (lit ''main'') (Some [65]) (Some [83])
     default_policy sample_account = Inr route \<and> is_compatible (evaluate_policy default_policy (rt_capability route))"
proof -
  obtain route where r: "route_compile sample_env sample_catalog 7 (lit ''main'') (Some [65]) (Some [83])
    default_policy sample_account = Inr route" using sample_compiles by blast
  from compiled_route_is_justified [OF r] r show ?thesis by blast
qed

section \<open>Binding and switching\<close>

lemma resolve_binding_cases:
  assumes "resolve_binding h catalog cs uuid now owner req db = (Inr b, db')"
  obtains (existing) agent where "require_session_owner owner (bl_session_id req) (bl_agent_id req) db = Inr agent"
      "bindings_current h owner (bl_session_id req) (bl_role req) db = Inr (Some b)" "sp_agent_id b = agent" "db' = db"
  | (compiled) agent policy route where
      "require_session_owner owner (bl_session_id req) (bl_agent_id req) db = Inr agent"
      "bindings_current h owner (bl_session_id req) (bl_role req) db = Inr None"
      "policy_for cs agent = Inr policy"
      "route_compile h catalog owner (bl_role req) agent (Some (bl_session_id req)) policy db = Inr route"
      "bind_initial h uuid now owner (bl_session_id req) (bl_role req) agent route db = (Inr b, db')"
proof (cases "require_session_owner owner (bl_session_id req) (bl_agent_id req) db")
  case (Inl e)
  with assms show ?thesis by (simp add: resolve_binding_def)
next
  case own: (Inr agent)
  show ?thesis
  proof (cases "bindings_current h owner (bl_session_id req) (bl_role req) db")
    case (Inl e)
    with assms own show ?thesis by (simp add: resolve_binding_def)
  next
    case cur: (Inr c)
    show ?thesis
    proof (cases c)
      case None
      with assms own cur show ?thesis
        by (auto simp: resolve_binding_def result_simps split: sum.splits intro: compiled)
    next
      case (Some c')
      with assms own cur show ?thesis
        by (auto simp: resolve_binding_def result_simps ensure_agent_identity_def intro: existing)
    qed
  qed
qed

lemma require_session_owner_cong:
  "product_agents db' = product_agents db \<Longrightarrow>
    require_session_owner owner s a db' = require_session_owner owner s a db"
  by (simp add: require_session_owner_def main_session_identity_def)

lemma bindings_current_cong:
  "session_bindings db' = session_bindings db \<Longrightarrow> bindings_current h owner s r db' = bindings_current h owner s r db"
  by (simp add: bindings_current_def query_current_def [abs_def] binding_rows_def)

text \<open>a session keeps its route. Once a binding has been resolved, resolving again gives the same binding
  and writes nothing, whatever has become of the catalog, the packages, the profiles and the assignments in
  the meantime: only the bindings and the agents' main sessions matter.\<close>

theorem resolved_binding_is_stable:
  assumes "bindings_ok h db" "route_from_json h (route_to_json h (sp_route b)) = Some (sp_route b)"
    and "resolve_binding h catalog cs uuid now owner req db = (Inr b, db1)"
    and "require_session_owner owner (bl_session_id req) (bl_agent_id req) db = Inr (sp_agent_id b)"
    and "session_bindings db2 = session_bindings db1" "product_agents db2 = product_agents db1"
  shows "resolve_binding h catalog2 cs2 uuid2 now2 owner req db2 = (Inr b, db2)"
proof -
  have "bindings_current h owner (bl_session_id req) (bl_role req) db1 = Inr (Some b)
      \<and> product_agents db1 = product_agents db"
    using assms(3)
  proof (cases rule: resolve_binding_cases)
    case (compiled agent policy route)
    from compiled(5) show ?thesis
    proof (cases rule: bind_initial_cases)
      case (bound s r agent' b')
      note ins = insert_bindingD [OF bound(5)]
      have ok: "bindings_ok h db1" by (rule bindings_ok_initial [OF assms(1) compiled(5)])
      have b: "b' = b" "sp_route b = route" using bound(4) ins(2) by simp_all
      then have "query_current h owner s r db1 = Inr (Some b)"
        using row_to_binding_of [OF assms(2)] ins(2)
        by (subst query_current_append [OF ok ins(1) [THEN arg_cong [of _ _ session_bindings], simplified]])
          (simp_all add: binding_key_def)
      with bound(1) ins(1) show ?thesis by (simp add: normalized_key_again)
    next
      case (existing s r agent' c)
      with compiled(2) show ?thesis by (simp add: normalized_key_again [OF existing(1)])
    qed simp
  qed simp
  then show ?thesis
    using assms(4) bindings_current_cong [OF assms(5)] require_session_owner_cong [of db2 db owner] assms(6)
    by (simp add: resolve_binding_def ensure_agent_identity_def)
qed

lemma switch_binding_cases:
  assumes "switch_binding h catalog cs uuid now owner req db = (Inr b, db')"
  obtains agent c reason route where
      "require_session_owner owner (sw_session_id req) (sw_agent_id req) db = Inr agent"
      "bindings_current h owner (sw_session_id req) (sw_role req) db = Inr (Some c)" "sp_agent_id c = agent"
      "switch_route h catalog cs owner req agent c db = Inr (reason, route)"
      "bindings_append h uuid now owner (sw_session_id req) (sw_role req) agent reason route db = (Inr b, db')"
  using assms by (auto simp: switch_binding_def result_simps ensure_agent_identity_def split: sum.splits)

text \<open>a rollback restores an older route: it succeeds only for a revision before the current one and
  appends, as the next revision, a binding with exactly the route of that revision; nothing of the history
  is lost, and the profile, the assignments and the catalog of today play no role.\<close>

theorem rollback_restores_older_route:
  assumes "bindings_ok h db" "sw_kind req = SwitchRollback"
    and "switch_binding h catalog cs uuid now owner req db = (Inr b, db')"
  shows "\<exists>target older current. sw_target_revision req = Some target
    \<and> bindings_revision h owner (sw_session_id req) (sw_role req) target db = Inr older
    \<and> bindings_current h owner (sw_session_id req) (sw_role req) db = Inr (Some current)
    \<and> target < sp_revision current \<and> sp_revision b = Suc (sp_revision current)
    \<and> sp_route b = sp_route older \<and> sp_change_reason b = Rollback \<and> sp_agent_id b = sp_agent_id current
    \<and> (\<exists>row. session_bindings db' = session_bindings db @ [row])"
proof -
  from assms(3) obtain agent c reason route where s: "bindings_current h owner (sw_session_id req) (sw_role req) db = Inr (Some c)"
      "switch_route h catalog cs owner req agent c db = Inr (reason, route)"
      "bindings_append h uuid now owner (sw_session_id req) (sw_role req) agent reason route db = (Inr b, db')"
    by (rule switch_binding_cases)
  from s(2) assms(2) obtain target older where t: "sw_target_revision req = Some target" "target < sp_revision c"
      "bindings_revision h owner (sw_session_id req) (sw_role req) target db = Inr older" "reason = Rollback"
      "route = sp_route older"
    by (auto simp: switch_route_def result_simps not_le)
  from s(3) show ?thesis
  proof (cases rule: bindings_append_cases)
    case (appended k r c' b')
    note ins = insert_bindingD [OF appended(6)]
    have "c' = c" using s(1) appended(1,3) by (simp add: normalized_key_again)
    with appended(5) ins t s(1) show ?thesis by auto
  qed simp
qed

section \<open>Concrete sessions\<close>

definition sample_lookup :: binding_lookup where
  "sample_lookup = \<lparr>bl_session_id = [115], bl_role = [109], bl_agent_id = None\<rparr>"

lemma sample_current:
  "bindings_current sample_env 7 [115] [109] sample_binding_db = Inr (Some sample_binding)"
  by (simp add: normalized_key_again [OF sample_key_normalized] query_current_def binding_rows_def
      sample_binding_db_def binding_key_def row_to_binding_of sample_route_codec sample_binding_def)

lemma sample_owner: "product_agents db = [] \<Longrightarrow> require_session_owner 7 s None db = Inr None"
  by (simp add: require_session_owner_def main_session_identity_def)

lemma resolved_binding_is_stable_witness:
  "resolve_binding sample_env sample_catalog initial_catalog_state [57] [57] 7 sample_lookup
     (sample_binding_db\<lparr>provider_profiles := [sample_profile_row]\<rparr>)
   = (Inr sample_binding, sample_binding_db\<lparr>provider_profiles := [sample_profile_row]\<rparr>)"
proof -
  have o': "require_session_owner 7 (bl_session_id sample_lookup) (bl_agent_id sample_lookup) sample_binding_db
      = Inr (sp_agent_id sample_binding)"
    by (simp add: sample_lookup_def sample_owner sample_binding_db_def empty_db_def sample_binding_def)
  have r: "resolve_binding sample_env sample_catalog initial_catalog_state [56] [56] 7 sample_lookup sample_binding_db
      = (Inr sample_binding, sample_binding_db)"
    by (simp add: resolve_binding_def o') (simp add: sample_lookup_def sample_current ensure_agent_identity_def)
  have c: "route_from_json sample_env (route_to_json sample_env (sp_route sample_binding)) = Some (sp_route sample_binding)"
    by (simp add: sample_binding_def sample_route_codec)
  show ?thesis
    by (rule resolved_binding_is_stable [OF sample_binding_ok c r o']) simp_all
qed

definition sample_two_bindings :: state_db where
  "sample_two_bindings = sample_binding_db\<lparr>session_bindings := session_bindings sample_binding_db
     @ [binding_row_of sample_env [50] [49] 7 [115] [109] None 2 ExplicitSwitch (sample_route\<lparr>rt_model_id := [120]\<rparr>)]\<rparr>"

definition sample_rollback :: switch_request where
  "sample_rollback = \<lparr>sw_session_id = [115], sw_role = [109], sw_agent_id = None, sw_kind = SwitchRollback,
     sw_target_revision = Some 1\<rparr>"

lemma sample_two_codec: "route_from_json sample_env (route_to_json sample_env (sample_route\<lparr>rt_model_id := [120]\<rparr>))
    = Some (sample_route\<lparr>rt_model_id := [120]\<rparr>)"
  by (simp add: sample_env_def sample_route_def)

lemma sample_two_ok: "bindings_ok sample_env sample_two_bindings"
proof (rule bindings_ok_append [OF sample_binding_ok])
  show "bindings_append sample_env [50] [49] 7 [115] [109] None ExplicitSwitch (sample_route\<lparr>rt_model_id := [120]\<rparr>)
      sample_binding_db = (Inr (binding_of (binding_row_of sample_env [50] [49] 7 [115] [109] None 2 ExplicitSwitch
        (sample_route\<lparr>rt_model_id := [120]\<rparr>)) ExplicitSwitch (sample_route\<lparr>rt_model_id := [120]\<rparr>)), sample_two_bindings)"
  proof -
    have "query_current sample_env 7 [115] [109] sample_binding_db = Inr (Some sample_binding)"
      using sample_current by (simp add: normalized_key_again [OF sample_key_normalized])
    then show ?thesis
      by (simp add: bindings_append_def binding_validate_owner_def sample_key_normalized
          normalize_optional_identifier_def sample_binding_def insert_binding_def insert_binding_row_def
          binding_of_def sample_two_bindings_def numeral_2_eq_2)
        (simp add: binding_row_of_def to_sql_u64_def sql_int_max_def binding_row_check_def sample_route_def
          sample_binding_db_def binding_conflict_def binding_key_def)
  qed
qed

lemma rollback_restores_older_route_witness:
  "\<exists>b db'. switch_binding sample_env sample_catalog initial_catalog_state [51] [50] 7 sample_rollback sample_two_bindings
     = (Inr b, db') \<and> sp_change_reason b = Rollback \<and> sp_revision b = 3"
proof -
  let ?two = "binding_of (binding_row_of sample_env [50] [49] 7 [115] [109] None 2 ExplicitSwitch
        (sample_route\<lparr>rt_model_id := [120]\<rparr>)) ExplicitSwitch (sample_route\<lparr>rt_model_id := [120]\<rparr>)"
  have own: "require_session_owner 7 [115] None sample_two_bindings = Inr None"
    by (simp add: sample_owner sample_two_bindings_def sample_binding_db_def empty_db_def)
  have q: "query_current sample_env 7 [115] [109] sample_two_bindings = Inr (Some ?two)"
    by (simp add: query_current_def binding_rows_def sample_two_bindings_def sample_binding_db_def binding_key_def
        row_to_binding_of sample_two_codec)
  have rev1: "bindings_revision sample_env 7 [115] [109] (Suc 0) sample_two_bindings = Inr sample_binding"
    by (simp add: bindings_revision_def sample_key_normalized to_sql_u64_def sql_int_max_def sample_two_bindings_def
        sample_binding_db_def binding_key_def row_to_binding_of sample_route_codec sample_binding_def)
  have r: "is_ok (fst (switch_binding sample_env sample_catalog initial_catalog_state [51] [50] 7 sample_rollback sample_two_bindings))"
    by (simp add: switch_binding_def sample_rollback_def own normalized_key_again [OF sample_key_normalized] q
        ensure_agent_identity_def switch_route_def rev1 bindings_append_def binding_validate_owner_def
        sample_key_normalized normalize_optional_identifier_def insert_binding_def insert_binding_row_def transact_def)
      (simp add: binding_row_of_def to_sql_u64_def sql_int_max_def binding_row_check_def sample_route_def
          sample_two_bindings_def sample_binding_db_def binding_conflict_def binding_key_def sample_binding_def)
  obtain res db' where s: "switch_binding sample_env sample_catalog initial_catalog_state [51] [50] 7 sample_rollback
      sample_two_bindings = (res, db')" by fastforce
  then obtain b where b: "res = Inr b" using r by (cases res) auto
  have kind: "sw_kind sample_rollback = SwitchRollback" by (simp add: sample_rollback_def)
  have cur: "bindings_current sample_env 7 (sw_session_id sample_rollback) (sw_role sample_rollback) sample_two_bindings
      = Inr (Some ?two)"
    by (simp add: sample_rollback_def normalized_key_again [OF sample_key_normalized] q)
  from rollback_restores_older_route [OF sample_two_ok kind s [unfolded b]] cur s b show ?thesis by auto
qed

text \<open>
  An account with a global assignment, next to another account whose agent has the main session
  \<open>s\<close>.
\<close>

definition shared_sessions :: state_db where
  "shared_sessions = empty_db\<lparr>
     product_agents := [\<lparr>ar_owner = Some 8, ar_agent_id = [65], ar_display_name = [], ar_description = [],
       ar_version = [], ar_sort_order = 0, ar_desired_state = [], ar_runtime_state = [],
       ar_main_session_id = Some [115], ar_workspace_dir = None, ar_activated_at = None, ar_updated_at = [],
       ar_last_error = None\<rparr>],
     provider_profiles := [sample_profile_row],
     model_assignments := [new_assignment [97] [48] 7
       (sample_assignment_input\<lparr>ain_scope_kind := ScopeGlobal, ain_scope_id := None\<rparr>)]\<rparr>"

definition lookup_main :: "rstr \<Rightarrow> binding_lookup" where
  "lookup_main s = \<lparr>bl_session_id = s, bl_role = lit ''main'', bl_agent_id = None\<rparr>"

text \<open>the ownership check looks at the session identifier as it was sent, the binding at the trimmed one.
  Account 7 may not resolve the main session of an agent of account 8, but with a space in front of the
  identifier it gets a binding for this very session.\<close>

theorem session_owner_check_is_bypassed:
  "main_session_identity [115] shared_sessions = Some (Some 8, [65])
    \<and> fst (resolve_binding sample_env sample_catalog initial_catalog_state [49] [48] 7 (lookup_main [115]) shared_sessions)
      = Inl (Bail ''session not found'')
    \<and> (\<exists>b db'. resolve_binding sample_env sample_catalog initial_catalog_state [49] [48] 7 (lookup_main [32, 115])
           shared_sessions = (Inr b, db') \<and> sp_owner b = 7 \<and> sp_session_id b = [115])"
proof -
  let ?a = "new_assignment [97] [48] 7 (sample_assignment_input\<lparr>ain_scope_kind := ScopeGlobal, ain_scope_id := None\<rparr>)"
  have own: "main_session_identity [115] shared_sessions = Some (Some 8, [65])"
    "main_session_identity [32, 115] shared_sessions = None"
    by (simp_all add: main_session_identity_def shared_sessions_def)
  have res: "resolve_with_main_fallback 7 (lit ''main'') None (Some [32, 115]) shared_sessions = assignment_row_to_record ?a"
    by (simp add: resolve_with_main_fallback_def normalized_main resolve_role_def get_exact_def shared_sessions_def
        assignment_key_def new_assignment_def sample_assignment_input_def database_scope_id_def
        assignment_row_to_record_def)
  have prof: "profiles_get sample_env 7 [112] shared_sessions
      = Inr (record_of_input 7 [112] [99] [52] 1 [48] [48] sample_profile_input)"
    by (simp add: shared_sessions_def profiles_get_def profile_key_def sample_profile_row_def new_profile_row_def
        profile_row_to_record_def record_of_input_def) (simp add: sample_env_def sample_profile_input_def)
  have rec: "assignment_row_to_record ?a = Inr \<lparr>ma_assignment_id = lit ''ma_'' @ [97], ma_owner = 7,
      ma_scope_kind = ScopeGlobal, ma_scope_id = None, ma_role = lit ''main'', ma_provider_profile_id = [112],
      ma_model_id = [109], ma_revision = 1, ma_created_at = [48], ma_updated_at = [48]\<rparr>"
    by (simp add: assignment_row_to_record_def new_assignment_def sample_assignment_input_def database_scope_id_def)
  have comp: "is_compatible (evaluate_policy default_policy unknown_capability)"
    by (simp add: is_compatible_def evaluate_policy_def default_policy_def evaluate_requirement_def
        evaluate_context_window_def unknown_capability_def Let_def)
  have origin: "endpoint_origin_of sample_env [117] = Inr [117]"
    by (simp add: endpoint_origin_of_def sample_env_def sample_url_def)
  obtain route where route: "route_compile sample_env sample_catalog 7 (lit ''main'') None (Some [32, 115]) default_policy
      shared_sessions = Inr route" "rt_profile_route_revision route = 1" "rt_assignment_revision route = 1"
      "rt_catalog_revision route = 1"
    by (simp add: route_compile_def res rec prof comp origin record_of_input_def sample_profile_input_def preset_of_def
        preset_matches_route_def route_capability_def Let_def sample_catalog_def)
  have key: "normalize_key 7 [32, 115] (lit ''main'') = Inr ([115], lit ''main'')"
    by (simp add: normalize_key_def binding_validate_owner_def normalize_session_id_def normalize_identifier_def
      trim_def trim_start_def trim_end_def is_whitespace_def str_len_def str_bytes_def utf8_encode_def lit_main
      is_control_def binding_identifier_byte_def is_ascii_alphanumeric_def is_ascii_digit_def is_ascii_lowercase_def)
  have q: "query_current sample_env 7 [115] (lit ''main'') shared_sessions = Inr None"
    by (simp add: query_current_def binding_rows_def shared_sessions_def empty_db_def)
  have check: "binding_row_check (binding_row_of sample_env [49] [48] 7 [115] (lit ''main'') None (Suc 0) Initial route)"
    "sb_profile_route_revision (binding_row_of sample_env [49] [48] 7 [115] (lit ''main'') None (Suc 0) Initial route) = 1"
    "sb_assignment_revision (binding_row_of sample_env [49] [48] 7 [115] (lit ''main'') None (Suc 0) Initial route) = 1"
    "sb_catalog_revision (binding_row_of sample_env [49] [48] 7 [115] (lit ''main'') None (Suc 0) Initial route) = 1"
    using route by (simp_all add: binding_row_check_def binding_row_of_def)
  have "\<exists>b db'. resolve_binding sample_env sample_catalog initial_catalog_state [49] [48] 7 (lookup_main [32, 115])
      shared_sessions = (Inr b, db') \<and> sp_owner b = 7 \<and> sp_session_id b = [115]"
    by (simp add: resolve_binding_def lookup_main_def require_session_owner_def own normalized_key_again [OF key] q
        policy_for_def route bind_initial_def key normalize_optional_identifier_def insert_binding_def
        insert_binding_row_def check to_sql_u64_def sql_int_max_def)
      (simp add: shared_sessions_def empty_db_def)
  then show ?thesis
    using own(1) by (simp add: resolve_binding_def lookup_main_def require_session_owner_def)
qed

end
