(* ===== verification/Provider_Service.thy ===== *)
theory Provider_Service
  imports Provider_Profiles
begin

text \<open>
  \<open>credential_vault.rs\<close> and \<open>providers.rs\<close>: secrets, credential handles, the vault
  trait with its implementations, and the Provider service that keeps the vault and the profile
  table in step. Both the vault and SQLite may fail at any call.
\<close>

section \<open>Secrets and handles\<close>

definition handle_prefix :: rstr where
  "handle_prefix = lit ''credential://vault/h_''"

text \<open>\<open>SecretValue::new\<close>: the secret itself, or \<open>InvalidSecret\<close>.\<close>

definition secret_new :: "rstr \<Rightarrow> vault_error + rstr" where
  "secret_new value =
    (if trim value \<noteq> value \<or> \<not> (8 \<le> length value \<and> length value \<le> 8192) then Inl InvalidSecret
     else if 0 \<in> set (str_bytes value) then Inl InvalidSecret
     else Inr value)"

definition last_four :: "rstr \<Rightarrow> rstr" where
  "last_four secret = rev (take 4 (rev secret))"

definition credential_ref_generate :: "rstr \<Rightarrow> rstr" where
  "credential_ref_generate uuid = handle_prefix @ uuid"

definition credential_ref_parse :: "host_env \<Rightarrow> rstr \<Rightarrow> vault_error + rstr" where
  "credential_ref_parse h value =
    (case strip_prefix value handle_prefix of
       None \<Rightarrow> Inl InvalidHandle
     | Some opaque \<Rightarrow> if uuid_parses h opaque then Inr value else Inl InvalidHandle)"

section \<open>The vault interface\<close>

text \<open>
  The trait \<open>CredentialVault\<close>: three operations over the state of the vault. The service is
  written against the record. The locale states what a vault promises in terms of the bytes it holds
  behind each handle: a successful \<open>put\<close> or \<open>delete\<close> changes the one handle, an
  operation that fails changes no handle, and \<open>get\<close> answers with a valid secret only where its
  bytes are held and with \<open>NotFound\<close> only where nothing is held. Every operation may fail at any
  time, a \<open>get\<close> of a stored secret included.
\<close>

record 'v vault_ops =
  v_put :: "rstr \<Rightarrow> rstr \<Rightarrow> 'v \<Rightarrow> (vault_error + unit) \<times> 'v"
  v_get :: "rstr \<Rightarrow> 'v \<Rightarrow> vault_error + rstr"
  v_delete :: "rstr \<Rightarrow> 'v \<Rightarrow> (vault_error + unit) \<times> 'v"

locale credential_vault =
  fixes V :: "'v vault_ops" and holds :: "'v \<Rightarrow> rstr \<Rightarrow> nat list option"
  assumes put_ok: "v_put V r s v = (Inr (), v') \<Longrightarrow> holds v' = (holds v)(r \<mapsto> str_bytes s)"
    and put_fails: "v_put V r s v = (Inl e, v') \<Longrightarrow> holds v' = holds v"
    and delete_ok: "v_delete V r v = (Inr (), v') \<Longrightarrow> holds v' = (holds v)(r := None)"
    and delete_fails: "v_delete V r v = (Inl e, v') \<Longrightarrow> holds v' = holds v"
    and get_ok: "v_get V r v = Inr s \<Longrightarrow> holds v r = Some (str_bytes s) \<and> secret_new s = Inr s"
    and get_missing: "v_get V r v = Inl VaultNotFound \<Longrightarrow> holds v r = None"

text \<open>\<open>MemoryCredentialVault\<close>: a map from handles to the bytes of the secret.\<close>

definition memory_put :: "rstr \<Rightarrow> rstr \<Rightarrow> (rstr \<rightharpoonup> rstr) \<Rightarrow> (vault_error + unit) \<times> (rstr \<rightharpoonup> rstr)" where
  "memory_put r s v = (Inr (), v(r \<mapsto> s))"

definition memory_get :: "rstr \<Rightarrow> (rstr \<rightharpoonup> rstr) \<Rightarrow> vault_error + rstr" where
  "memory_get r v = (case v r of None \<Rightarrow> Inl VaultNotFound | Some s \<Rightarrow> secret_new s)"

definition memory_delete :: "rstr \<Rightarrow> (rstr \<rightharpoonup> rstr) \<Rightarrow> (vault_error + unit) \<times> (rstr \<rightharpoonup> rstr)" where
  "memory_delete r v = (Inr (), v(r := None))"

definition memory_vault :: "(rstr \<rightharpoonup> rstr) vault_ops" where
  "memory_vault = \<lparr>v_put = memory_put, v_get = memory_get, v_delete = memory_delete\<rparr>"

definition memory_holds :: "(rstr \<rightharpoonup> rstr) \<Rightarrow> rstr \<Rightarrow> nat list option" where
  "memory_holds v r = map_option str_bytes (v r)"

text \<open>\<open>SystemCredentialVault\<close> outside macOS: every operation is unsupported.\<close>

definition unsupported_vault :: "unit vault_ops" where
  "unsupported_vault = \<lparr>v_put = (\<lambda>_ _ v. (Inl UnsupportedPlatform, v)),
     v_get = (\<lambda>_ _. Inl UnsupportedPlatform), v_delete = (\<lambda>_ v. (Inl UnsupportedPlatform, v))\<rparr>"

lemma secret_new_Inr: "secret_new k = Inr s \<Longrightarrow> s = k"
  by (auto simp: secret_new_def split: if_splits)

lemma secret_new_Inl: "secret_new k = Inl e \<Longrightarrow> e = InvalidSecret"
  by (auto simp: secret_new_def split: if_splits)

interpretation memory: credential_vault memory_vault memory_holds
proof
  fix r s v
  assume "v_get memory_vault r v = Inr s"
  then have "v r = Some s \<and> secret_new s = Inr s"
    by (cases "v r") (auto simp: memory_vault_def memory_get_def dest: secret_new_Inr)
  then show "memory_holds v r = Some (str_bytes s) \<and> secret_new s = Inr s"
    by (simp add: memory_holds_def)
next
  fix r v
  assume "v_get memory_vault r v = Inl VaultNotFound"
  then show "memory_holds v r = None"
    by (auto simp: memory_vault_def memory_get_def memory_holds_def split: option.splits dest: secret_new_Inl)
qed (auto simp: memory_vault_def memory_put_def memory_delete_def memory_holds_def)

interpretation unsupported: credential_vault unsupported_vault "\<lambda>_ _. None"
  by unfold_locales (auto simp: unsupported_vault_def)

section \<open>Store calls that SQLite fails\<close>

text \<open>
  A call of the profile store opens the database and runs one or more statements, and any of them may
  fail with an error of SQLite. \<open>SqlFailsBefore\<close>: one fails before the write of the call is
  committed. \<open>SqlFailsAfter\<close>: the write is committed and reading the record back fails.
\<close>

datatype sql_outcome = SqlRuns | SqlFailsBefore host_error | SqlFailsAfter host_error

definition store_call ::
  "sql_outcome \<Rightarrow> (state_db \<Rightarrow> (host_error + 'a) \<times> state_db) \<Rightarrow> state_db \<Rightarrow> (host_error + 'a) \<times> state_db" where
  "store_call oc f db =
    (case oc of
       SqlRuns \<Rightarrow> f db
     | SqlFailsBefore e \<Rightarrow> (Inl e, db)
     | SqlFailsAfter e \<Rightarrow> (case f db of (Inl e', db') \<Rightarrow> (Inl e', db') | (Inr _, db') \<Rightarrow> (Inl e, db')))"

definition store_read :: "host_error option \<Rightarrow> host_error + 'a \<Rightarrow> host_error + 'a" where
  "store_read failure r = (case failure of None \<Rightarrow> r | Some e \<Rightarrow> Inl e)"

fun fails_after :: "sql_outcome \<Rightarrow> bool" where
  "fails_after (SqlFailsAfter e) = True"
| "fails_after _ = False"

lemma store_call_cases:
  assumes "store_call oc f db = (res, db')"
  obtains (before) e where "oc = SqlFailsBefore e" "res = Inl e" "db' = db"
  | (ran) "f db = (res, db')"
  | (after) e x where "oc = SqlFailsAfter e" "f db = (Inr x, db')" "res = Inl e"
proof (cases oc)
  case (SqlFailsAfter e)
  obtain r db1 where "f db = (r, db1)" by fastforce
  with assms SqlFailsAfter ran after show ?thesis
    by (cases r) (simp_all add: store_call_def)
qed (use assms before ran in \<open>simp_all add: store_call_def\<close>)

lemma store_call_db:
  "store_call oc f db = (res, db') \<Longrightarrow> db' = db \<or> (\<exists>r. f db = (r, db'))"
  by (erule store_call_cases) auto

lemma store_read_Inr [result_simps]: "store_read failure r = Inr x \<longleftrightarrow> failure = None \<and> r = Inr x"
  by (auto simp: store_read_def split: option.splits)

section \<open>The Provider service\<close>

text \<open>
  The state of the service is the vault and the database. \<open>create\<close> stores the secret before
  the profile and takes it back when the profile cannot be written.
\<close>

definition provider_create ::
  "'v vault_ops \<Rightarrow> host_env \<Rightarrow> sql_outcome \<Rightarrow> rstr \<Rightarrow> rstr \<Rightarrow> rstr \<Rightarrow> int \<Rightarrow> profile_input \<Rightarrow> rstr
     \<Rightarrow> 'v \<times> state_db \<Rightarrow> (host_error + profile_record) \<times> 'v \<times> state_db" where
  "provider_create V h oc now ref_uuid profile_uuid owner inp api_key st =
    (let (v, db) = st in
     case profile_input_normalized h inp of
       Inl e \<Rightarrow> (Inl e, v, db)
     | Inr inp \<Rightarrow>
     case secret_new api_key of
       Inl e \<Rightarrow> (Inl (Vault e), v, db)
     | Inr secret \<Rightarrow>
     let cref = credential_ref_generate ref_uuid; profile_id = lit ''pp_'' @ profile_uuid in
     case v_put V cref secret v of
       (Inl e, v1) \<Rightarrow> (Inl (Context ''store provider credential'' (Vault e)), v1, db)
     | (Inr _, v1) \<Rightarrow>
     case store_call oc (profiles_insert h now owner profile_id cref (last_four secret) inp) db of
       (Inr profile, db1) \<Rightarrow> (Inr profile, v1, db1)
     | (Inl store_error, db1) \<Rightarrow>
     case v_delete V cref v1 of
       (Inl _, v2) \<Rightarrow>
         (Inl (Bail ''create provider profile failed and credential cleanup was incomplete''), v2, db1)
     | (Inr _, v2) \<Rightarrow> (Inl store_error, v2, db1))"

definition provider_update ::
  "host_env \<Rightarrow> sql_outcome \<Rightarrow> rstr \<Rightarrow> int \<Rightarrow> rstr \<Rightarrow> profile_input \<Rightarrow> state_db
     \<Rightarrow> (host_error + profile_record) \<times> state_db" where
  "provider_update h oc now owner profile_id inp db =
    (case profile_input_normalized h inp of
       Inl e \<Rightarrow> (Inl e, db)
     | Inr inp \<Rightarrow> store_call oc (profiles_update h now owner profile_id inp) db)"

definition provider_replace_secret ::
  "'v vault_ops \<Rightarrow> host_env \<Rightarrow> host_error option \<Rightarrow> sql_outcome \<Rightarrow> rstr \<Rightarrow> int \<Rightarrow> rstr \<Rightarrow> rstr
     \<Rightarrow> 'v \<times> state_db \<Rightarrow> (host_error + profile_record) \<times> 'v \<times> state_db" where
  "provider_replace_secret V h failure oc now owner profile_id api_key st =
    (let (v, db) = st in
     case store_read failure (profiles_get h owner profile_id db) of
       Inl e \<Rightarrow> (Inl e, v, db)
     | Inr profile \<Rightarrow>
     case credential_ref_parse h (pp_credential_ref profile) of
       Inl e \<Rightarrow> (Inl (Vault e), v, db)
     | Inr cref \<Rightarrow>
     case secret_new api_key of
       Inl e \<Rightarrow> (Inl (Vault e), v, db)
     | Inr secret \<Rightarrow>
     case v_put V cref secret v of
       (Inl e, v1) \<Rightarrow> (Inl (Context ''replace provider credential'' (Vault e)), v1, db)
     | (Inr _, v1) \<Rightarrow>
     let (r, db1) = store_call oc
           (profiles_update_credential_metadata h now owner profile_id (last_four secret)) db
     in (r, v1, db1))"

definition provider_delete ::
  "'v vault_ops \<Rightarrow> host_env \<Rightarrow> host_error option \<Rightarrow> sql_outcome \<Rightarrow> int \<Rightarrow> rstr
     \<Rightarrow> 'v \<times> state_db \<Rightarrow> (host_error + unit) \<times> 'v \<times> state_db" where
  "provider_delete V h failure oc owner profile_id st =
    (let (v, db) = st in
     case store_read failure (profiles_get h owner profile_id db) of
       Inl e \<Rightarrow> (Inl e, v, db)
     | Inr profile \<Rightarrow>
     case credential_ref_parse h (pp_credential_ref profile) of
       Inl e \<Rightarrow> (Inl (Vault e), v, db)
     | Inr cref \<Rightarrow>
     case v_delete V cref v of
       (Inl e, v1) \<Rightarrow> (Inl (Context ''delete provider credential'' (Vault e)), v1, db)
     | (Inr _, v1) \<Rightarrow> let (r, db1) = store_call oc (profiles_delete owner profile_id) db in (r, v1, db1))"

section \<open>What the service keeps of vault and table\<close>

text \<open>
  Every profile has its credential in the vault, and no two profiles share a handle. \<open>lost\<close> are
  the identifiers of the profiles whose row SQLite kept although the service took its credential back.
\<close>

definition credential_held :: "('v \<Rightarrow> rstr \<Rightarrow> nat list option) \<Rightarrow> 'v \<Rightarrow> profile_row \<Rightarrow> bool" where
  "credential_held holds v r \<longleftrightarrow>
     (\<exists>s. holds v (pr_credential_ref r) = Some (str_bytes s) \<and> secret_new s = Inr s)"

definition service_ok :: "('v \<Rightarrow> rstr \<Rightarrow> nat list option) \<Rightarrow> rstr set \<Rightarrow> 'v \<times> state_db \<Rightarrow> bool" where
  "service_ok holds lost st \<longleftrightarrow> profiles_ok (snd st)
     \<and> (\<forall>r \<in> set (provider_profiles (snd st)). pr_profile_id r \<notin> lost \<longrightarrow> credential_held holds (fst st) r)"

definition input_codec_ok :: "host_env \<Rightarrow> profile_input \<Rightarrow> bool" where
  "input_codec_ok h inp = (case profile_input_normalized h inp of Inl _ \<Rightarrow> True
     | Inr i \<Rightarrow> models_from_json h (models_to_json h (in_enabled_models i)) = Some (in_enabled_models i))"

lemma credential_held_cong:
  "holds v' (pr_credential_ref r) = holds v (pr_credential_ref r) \<Longrightarrow> credential_held holds v' r = credential_held holds v r"
  by (simp add: credential_held_def)

lemma credential_held_put:
  "secret_new s = Inr s \<Longrightarrow> holds v' (pr_credential_ref r) = Some (str_bytes s) \<Longrightarrow> credential_held holds v' r"
  by (auto simp: credential_held_def)

lemma service_ok_vault:
  "service_ok holds lost (v, db) \<Longrightarrow> holds v' = holds v \<Longrightarrow> service_ok holds lost (v', db)"
  by (simp add: service_ok_def credential_held_def)

lemma service_ok_rewrite:
  assumes "service_ok holds lost (v, db)" "profiles_ok db'"
    and "provider_profiles db' = update_where p f (provider_profiles db)"
    and "\<And>r. pr_profile_id (f r) = pr_profile_id r" "\<And>r. pr_credential_ref (f r) = pr_credential_ref r"
  shows "service_ok holds lost (v, db')"
proof -
  have "credential_held holds v r" if r: "r \<in> set (provider_profiles db')" "pr_profile_id r \<notin> lost" for r
  proof -
    from r(1) [unfolded assms(3)] obtain s where "s \<in> set (provider_profiles db)" "r = (if p s then f s else s)"
      by (rule set_update_whereE)
    with r(2) assms(1,4,5) show ?thesis by (auto simp: service_ok_def credential_held_def split: if_splits)
  qed
  with assms(2) show ?thesis by (simp add: service_ok_def)
qed

lemma service_ok_lost: "service_ok holds lost st \<Longrightarrow> lost \<subseteq> lost' \<Longrightarrow> service_ok holds lost' st"
  by (auto simp: service_ok_def)

lemma profiles_get_row:
  assumes "profiles_get h owner profile_id db = Inr p"
  obtains row where "row \<in> set (provider_profiles db)" "profile_key owner profile_id row"
    "pp_credential_ref p = pr_credential_ref row" "profile_row_to_record h row = Inr p"
  using assms by (auto simp: profiles_get_def profile_row_to_record_def result_simps split: option.splits
      dest!: find_SomeD)

text \<open>What a failing call of \<open>insert\<close> leaves behind: nothing, or the committed row.\<close>

definition insert_left :: "sql_outcome \<Rightarrow> profile_row \<Rightarrow> state_db \<Rightarrow> state_db \<Rightarrow> bool" where
  "insert_left oc row db db' \<longleftrightarrow> db' = db
     \<or> fails_after oc \<and> (\<forall>r \<in> set (provider_profiles db). \<not> profile_conflict row r)
       \<and> db' = db\<lparr>provider_profiles := provider_profiles db @ [row]\<rparr>"

lemma store_insert_cases:
  assumes "store_call oc (profiles_insert h now owner pid cref l4 inp) db = (res, db')"
    and "models_from_json h (models_to_json h (in_enabled_models inp)) = Some (in_enabled_models inp)"
  obtains (failed) e where "res = Inl e" "insert_left oc (new_profile_row h now owner pid cref l4 inp) db db'"
  | (stored) "profiles_insert h now owner pid cref l4 inp db = (res, db')" "is_ok res"
proof -
  have ok: "is_ok r" if "r = profile_row_to_record h (new_profile_row h now owner pid cref l4 inp)" for r
    using assms(2) that by (simp add: profile_row_to_record_def new_profile_row_def)
  from assms(1) show ?thesis
  proof (cases rule: store_call_cases)
    case (before e)
    then show ?thesis by (intro failed [of e]) (simp_all add: insert_left_def)
  next
    case ran
    then show ?thesis
      by (cases rule: profiles_insert_cases) (use ok ran failed stored in \<open>auto simp: insert_left_def\<close>)
  next
    case (after e x)
    from after(2) show ?thesis
    proof (cases rule: profiles_insert_cases)
      case (inserted row)
      with after show ?thesis by (intro failed [of e]) (simp_all add: insert_left_def)
    qed simp
  qed
qed

lemma insert_left_ok: "insert_left oc row db db' \<Longrightarrow> pr_route_revision row = 1 \<Longrightarrow> profiles_ok db \<Longrightarrow> profiles_ok db'"
  by (auto simp: insert_left_def intro: profiles_ok_append)

lemma insert_left_rows:
  "insert_left oc row db db' \<Longrightarrow> r \<in> set (provider_profiles db')
    \<Longrightarrow> r \<in> set (provider_profiles db) \<or> fails_after oc \<and> r = row"
  by (auto simp: insert_left_def)

context credential_vault begin

lemma create_cases:
  fixes h :: host_env and now ref_uuid profile_uuid api_key :: rstr and owner :: int
  defines "ref \<equiv> credential_ref_generate ref_uuid"
    and "row \<equiv> new_profile_row h now owner (lit ''pp_'' @ profile_uuid) (credential_ref_generate ref_uuid)
      (last_four api_key)"
  assumes "provider_create V h oc now ref_uuid profile_uuid owner inp api_key (v, db) = (res, v', db')"
    and "input_codec_ok h inp"
  obtains (early) e where "res = Inl e" "holds v' = holds v" "db' = db"
  | (undone) e inp' where "res = Inl e" "insert_left oc (row inp') db db'" "holds v' = (holds v)(ref := None)"
  | (stuck) inp' where
      "res = Inl (Bail ''create provider profile failed and credential cleanup was incomplete'')"
      "insert_left oc (row inp') db db'" "holds v' = (holds v)(ref \<mapsto> str_bytes api_key)"
  | (created) inp' where "profile_input_normalized h inp = Inr inp'" "secret_new api_key = Inr api_key"
      "profiles_insert h now owner (lit ''pp_'' @ profile_uuid) ref (last_four api_key) inp' db = (res, db')"
      "is_ok res" "holds v' = (holds v)(ref \<mapsto> str_bytes api_key)"
proof (cases "profile_input_normalized h inp")
  case (Inl e)
  with assms(3) show ?thesis by (intro early) (auto simp: provider_create_def)
next
  case norm: (Inr inp')
  show ?thesis
  proof (cases "secret_new api_key")
    case (Inl e)
    with assms(3) norm show ?thesis by (intro early) (auto simp: provider_create_def)
  next
    case (Inr s)
    then have sec: "secret_new api_key = Inr api_key" by (metis secret_new_Inr)
    obtain pr v1 where put: "v_put V ref api_key v = (pr, v1)" by fastforce
    obtain ir db1 where ins: "store_call oc (profiles_insert h now owner (lit ''pp_'' @ profile_uuid) ref
        (last_four api_key) inp') db = (ir, db1)" by fastforce
    obtain dr v2 where del: "v_delete V ref v1 = (dr, v2)" by fastforce
    note step = assms(3) [unfolded provider_create_def Let_def split_conv norm sec sum.case ref_def [symmetric] put ins del]
    have codec: "models_from_json h (models_to_json h (in_enabled_models inp')) = Some (in_enabled_models inp')"
      using assms(4) norm by (simp add: input_codec_ok_def)
    show ?thesis
    proof (cases pr)
      case (Inl e)
      with step put_fails [of ref api_key v e v1] put show ?thesis by (intro early) auto
    next
      case (Inr u)
      then have put': "holds v1 = (holds v)(ref \<mapsto> str_bytes api_key)" using put put_ok by simp
      from ins codec show ?thesis
      proof (cases rule: store_insert_cases)
        case (failed e)
        then have left: "insert_left oc (row inp') db db1" by (simp add: row_def ref_def)
        show ?thesis
        proof (cases dr)
          case (Inl d)
          then have "holds v2 = holds v1" using delete_fails del by auto
          with step failed(1) left Inl \<open>pr = Inr u\<close> put' show ?thesis by (intro stuck [of inp']) auto
        next
          case (Inr d)
          then have "holds v2 = (holds v1)(ref := None)" using delete_ok del by simp
          with step failed(1) left Inr \<open>pr = Inr u\<close> put' show ?thesis by (intro undone [of e inp']) auto
        qed
      next
        case stored
        with step Inr norm sec put' show ?thesis by (intro created [of inp']) (auto simp: is_ok_def split: sum.splits)
      qed
    qed
  qed
qed

lemma replace_cases:
  assumes "provider_replace_secret V h failure oc now owner profile_id api_key (v, db) = (res, v', db')"
  obtains (unchanged) e where "res = Inl e" "holds v' = holds v" "db' = db"
  | (replaced) p where "profiles_get h owner profile_id db = Inr p" "secret_new api_key = Inr api_key"
      "holds v' = (holds v)(pp_credential_ref p \<mapsto> str_bytes api_key)"
      "store_call oc (profiles_update_credential_metadata h now owner profile_id (last_four api_key)) db = (res, db')"
proof (cases "store_read failure (profiles_get h owner profile_id db)")
  case (Inl e)
  with assms show ?thesis by (intro unchanged [of e]) (auto simp: provider_replace_secret_def)
next
  case read: (Inr p)
  then have get: "profiles_get h owner profile_id db = Inr p" by (simp add: store_read_Inr)
  show ?thesis
  proof (cases "credential_ref_parse h (pp_credential_ref p)")
    case (Inl e)
    with assms read show ?thesis by (auto simp: provider_replace_secret_def intro: unchanged)
  next
    case parse: (Inr c)
    then have c: "c = pp_credential_ref p"
      by (auto simp: credential_ref_parse_def split: option.splits if_splits)
    show ?thesis
    proof (cases "secret_new api_key")
      case (Inl e)
      with assms read parse show ?thesis by (auto simp: provider_replace_secret_def intro: unchanged)
    next
      case (Inr s)
      then have sec: "secret_new api_key = Inr api_key" by (metis secret_new_Inr)
      obtain pr v1 where put: "v_put V c api_key v = (pr, v1)" by fastforce
      note step = assms(1) [unfolded provider_replace_secret_def Let_def split_conv read parse sec sum.case put]
      show ?thesis
      proof (cases pr)
        case (Inl e)
        with step put_fails [of c api_key v e v1] put show ?thesis by (auto intro: unchanged)
      next
        case (Inr u)
        then have "holds v1 = (holds v)(pp_credential_ref p \<mapsto> str_bytes api_key)" using put put_ok c by simp
        with step Inr get sec c show ?thesis by (intro replaced [of p]) (auto split: prod.splits)
      qed
    qed
  qed
qed

lemma delete_cases:
  assumes "provider_delete V h failure oc owner profile_id (v, db) = (res, v', db')"
  obtains (unchanged) e where "res = Inl e" "holds v' = holds v" "db' = db"
  | (deleted) p where "profiles_get h owner profile_id db = Inr p"
      "holds v' = (holds v)(pp_credential_ref p := None)"
      "store_call oc (profiles_delete owner profile_id) db = (res, db')"
proof (cases "store_read failure (profiles_get h owner profile_id db)")
  case (Inl e)
  with assms show ?thesis by (intro unchanged [of e]) (auto simp: provider_delete_def)
next
  case read: (Inr p)
  then have get: "profiles_get h owner profile_id db = Inr p" by (simp add: store_read_Inr)
  show ?thesis
  proof (cases "credential_ref_parse h (pp_credential_ref p)")
    case (Inl e)
    with assms read show ?thesis by (auto simp: provider_delete_def intro: unchanged)
  next
    case parse: (Inr c)
    then have c: "c = pp_credential_ref p"
      by (auto simp: credential_ref_parse_def split: option.splits if_splits)
    obtain dr v1 where del: "v_delete V c v = (dr, v1)" by fastforce
    note step = assms(1) [unfolded provider_delete_def Let_def split_conv read parse sum.case del]
    show ?thesis
    proof (cases dr)
      case (Inl e)
      with step delete_fails del show ?thesis by (auto intro: unchanged)
    next
      case (Inr u)
      then have "holds v1 = (holds v)(pp_credential_ref p := None)" using del delete_ok c by simp
      with step Inr get c show ?thesis by (intro deleted [of p]) (auto split: prod.splits)
    qed
  qed
qed

lemma service_ok_create:
  assumes "service_ok holds lost (v, db)" "input_codec_ok h inp"
    and "\<forall>r \<in> set (provider_profiles db). pr_credential_ref r \<noteq> credential_ref_generate ref_uuid"
    and "provider_create V h oc now ref_uuid profile_uuid owner inp api_key (v, db) = (res, st')"
  shows "service_ok holds (if fails_after oc then insert (lit ''pp_'' @ profile_uuid) lost else lost) st'"
proof -
  obtain v' db' where st': "st' = (v', db')" by fastforce
  have ok: "profiles_ok db"
    and held: "credential_held holds v r" if "r \<in> set (provider_profiles db)" "pr_profile_id r \<notin> lost" for r
    using assms(1) that by (auto simp: service_ok_def)
  have old: "credential_held holds v' r"
    if "r \<in> set (provider_profiles db)" "pr_profile_id r \<notin> lost" "holds v' = (holds v)(credential_ref_generate ref_uuid := x)" for r x
    using held that assms(3) credential_held_cong [of holds v' r v] by simp
  from assms(4) [unfolded st'] assms(2) show ?thesis
  proof (cases rule: create_cases)
    case (early e)
    show ?thesis unfolding st' early(3)
      by (rule service_ok_lost [OF service_ok_vault [OF assms(1) early(2)]]) auto
  next
    case (undone e inp')
    then show ?thesis using insert_left_ok [OF undone(2)] assms(1) old unfolding st' service_ok_def
      by (auto dest: insert_left_rows)
  next
    case (stuck inp')
    then show ?thesis using insert_left_ok [OF stuck(2)] assms(1) old unfolding st' service_ok_def
      by (auto dest: insert_left_rows)
  next
    case (created inp')
    from created(3) show ?thesis
    proof (cases rule: profiles_insert_cases)
      case (conflict e)
      with created show ?thesis by simp
    next
      case (inserted row)
      have "credential_held holds v' row"
        using created(2,5) inserted(1) by (intro credential_held_put) auto
      with profiles_ok_insert [OF _ created(3)] old [OF _ _ created(5)] assms(1) inserted(2)
      show ?thesis unfolding st' service_ok_def by auto
    qed
  qed
qed

lemma service_ok_update:
  assumes "service_ok holds lost (v, db)" "provider_update h oc now owner profile_id inp db = (res, db')"
  shows "service_ok holds lost (v, db')"
proof (cases "profile_input_normalized h inp")
  case (Inl e)
  with assms show ?thesis by (auto simp: provider_update_def)
next
  case (Inr inp')
  then have "store_call oc (profiles_update h now owner profile_id inp') db = (res, db')"
    using assms(2) by (simp add: provider_update_def)
  then consider "db' = db" | r where "profiles_update h now owner profile_id inp' db = (r, db')"
    using store_call_db by blast
  then show ?thesis
  proof cases
    case 2
    have "profiles_ok db'" using profiles_ok_update [OF _ 2] assms(1) by (simp add: service_ok_def)
    from 2 show ?thesis
    proof (cases rule: profiles_update_cases)
      case (updated current revision)
      from updated(4) show ?thesis
        by (intro service_ok_rewrite [OF assms(1) \<open>profiles_ok db'\<close>, where p = "profile_key owner profile_id"
              and f = "profile_write h now inp' revision"]) simp_all
    qed (use assms(1) in simp)
  qed (use assms(1) in simp)
qed

lemma service_ok_replace:
  assumes "service_ok holds lost (v, db)"
    and "provider_replace_secret V h failure oc now owner profile_id api_key (v, db) = (res, st')"
  shows "service_ok holds lost st'"
proof -
  obtain v' db' where st': "st' = (v', db')" by fastforce
  from assms(2) [unfolded st'] show ?thesis
  proof (cases rule: replace_cases)
    case (unchanged e)
    with st' show ?thesis using service_ok_vault [OF assms(1)] by simp
  next
    case (replaced p)
    have held: "credential_held holds v' r" if "r \<in> set (provider_profiles db)" "pr_profile_id r \<notin> lost" for r
    proof (cases "pr_credential_ref r = pp_credential_ref p")
      case True
      with replaced(2,3) show ?thesis by (intro credential_held_put) auto
    next
      case False
      with that assms(1) replaced(3) credential_held_cong [of holds v' r v] show ?thesis
        by (simp add: service_ok_def)
    qed
    then have kept: "service_ok holds lost (v', db)" using assms(1) by (simp add: service_ok_def)
    from store_call_db [OF replaced(4)] consider "db' = db"
      | "db' = snd (profiles_update_credential_metadata h now owner profile_id (last_four api_key) db)" by auto
    then show ?thesis
    proof cases
      case 2
      have "profiles_ok db'" using assms(1) unfolding 2 by (intro profiles_ok_metadata) (simp add: service_ok_def)
      then show ?thesis unfolding st'
        by (rule service_ok_rewrite [OF kept, where p = "profile_key owner profile_id"
              and f = "\<lambda>r. r\<lparr>pr_credential_last_four := last_four api_key, pr_updated_at := now\<rparr>"])
          (simp_all add: 2 profiles_metadata_db)
    qed (use kept st' in simp)
  qed
qed

lemma service_ok_delete:
  assumes "service_ok holds lost (v, db)" "provider_delete V h failure oc owner profile_id (v, db) = (res, st')"
  shows "service_ok holds (if oc = SqlRuns then lost else insert profile_id lost) st'"
proof -
  obtain v' db' where st': "st' = (v', db')" by fastforce
  from assms(2) [unfolded st'] show ?thesis
  proof (cases rule: delete_cases)
    case (unchanged e)
    show ?thesis unfolding st' unchanged(3)
      by (rule service_ok_lost [OF service_ok_vault [OF assms(1) unchanged(2)]]) auto
  next
    case (deleted p)
    from deleted(1) obtain row where row: "row \<in> set (provider_profiles db)" "profile_key owner profile_id row"
      "pp_credential_ref p = pr_credential_ref row" by (rule profiles_get_row)
    have ok: "profiles_ok db" using assms(1) by (simp add: service_ok_def)
    have other: "credential_held holds v' r"
      if "r \<in> set (provider_profiles db)" "pr_profile_id r \<notin> lost" "pr_profile_id r \<noteq> profile_id" for r
    proof -
      have "pr_credential_ref r \<noteq> pp_credential_ref p"
        using ok row that by (auto simp: profiles_ok_def profile_key_def dest: unique_onD)
      with deleted(2) assms(1) that credential_held_cong [of holds v' r v] show ?thesis
        by (simp add: service_ok_def)
    qed
    have same: "r = row" if "r \<in> set (provider_profiles db)" "pr_profile_id r = profile_id" for r
      using ok row that by (auto simp: profiles_ok_def profile_key_def dest: unique_onD)
    from deleted(3) consider "oc \<noteq> SqlRuns" "db' = db"
      | "db' = snd (profiles_delete owner profile_id db)"
      by (cases rule: store_call_cases) auto
    then show ?thesis
    proof cases
      case 1
      with ok other show ?thesis unfolding st' by (auto simp: service_ok_def)
    next
      case 2
      have "pr_profile_id r \<noteq> profile_id" if "r \<in> set (provider_profiles db')" for r
        using that same row(2) unfolding 2 profiles_delete_db by (auto simp: delete_where_def)
      moreover have "set (provider_profiles db') \<subseteq> set (provider_profiles db)"
        unfolding 2 profiles_delete_db by (auto simp: delete_where_def)
      moreover have "profiles_ok db'" unfolding 2 by (rule profiles_ok_delete [OF ok])
      ultimately show ?thesis using other unfolding st' by (auto simp: service_ok_def)
    qed
  qed
qed

end


definition sample_key :: rstr where
  "sample_key = [115, 107, 45, 49, 50, 51, 52, 53]"

lemma sample_key_ok: "secret_new sample_key = Inr sample_key"
  by (simp add: secret_new_def sample_key_def trim_def trim_start_def trim_end_def is_whitespace_def
      str_bytes_def utf8_encode_def)

lemma sample_input_normalized: "profile_input_normalized sample_env sample_profile_input = Inr sample_profile_input"
  by (simp add: profile_input_normalized_def sample_profile_input_def sample_env_def normalize_base_url_def
      trim_def trim_start_def trim_end_def is_whitespace_def sample_url_def trim_end_matches_def
      normalize_model_id_def str_len_def str_bytes_def utf8_encode_def model_id_byte_def
      is_ascii_alphanumeric_def is_ascii_digit_def is_ascii_lowercase_def)

lemma sample_codec: "input_codec_ok sample_env sample_profile_input"
  by (simp add: input_codec_ok_def sample_input_normalized) (simp add: sample_env_def sample_profile_input_def)

end
