(* ===== verification/Credential_Lease.thy ===== *)
theory Credential_Lease
  imports Provider_Service Session_Bindings
begin

text \<open>
  \<open>credential_lease.rs\<close>: the projection of an immutable binding, or of a profile under
  probe, to the sampler configuration, with the credential behind the resolver hook only.
\<close>

section \<open>The sampler configuration\<close>

text \<open>
  \<open>SamplerConfig\<close> of \<open>xai-grok-sampler\<close>, restricted to the fields of plain data; the
  remaining fields keep their defaults in every projection. \<open>sc_bearer_resolver\<close> is the secret
  that \<open>current_bearer\<close> of the resolver answers with; serde skips the field.
\<close>

record sampler_config =
  sc_api_key :: "rstr option"
  sc_base_url :: rstr
  sc_model :: rstr
  sc_max_completion_tokens :: "nat option"
  sc_api_backend :: api_backend
  sc_auth_scheme :: auth_scheme
  sc_extra_headers :: "(rstr \<times> rstr) list"
  sc_context_window :: nat
  sc_force_http1 :: bool
  sc_max_retries :: "nat option"
  sc_stream_tool_calls :: bool
  sc_idle_timeout_secs :: "nat option"
  sc_client_identifier :: "rstr option"
  sc_deployment_id :: "rstr option"
  sc_user_id :: "rstr option"
  sc_client_version :: "rstr option"
  sc_supports_backend_search :: bool
  sc_bearer_resolver :: "rstr option"

definition default_sampler_config :: sampler_config where
  "default_sampler_config = \<lparr>sc_api_key = None, sc_base_url = [], sc_model = [],
     sc_max_completion_tokens = None, sc_api_backend = ChatCompletions,
     sc_auth_scheme = BearerScheme, sc_extra_headers = [], sc_context_window = 0,
     sc_force_http1 = False, sc_max_retries = None, sc_stream_tool_calls = False,
     sc_idle_timeout_secs = None, sc_client_identifier = None, sc_deployment_id = None,
     sc_user_id = None, sc_client_version = None, sc_supports_backend_search = False,
     sc_bearer_resolver = None\<rparr>"

text \<open>What a serialized configuration carries: every field but the skipped resolver.\<close>

definition serialized_config :: "sampler_config \<Rightarrow> sampler_config" where
  "serialized_config c = c\<lparr>sc_bearer_resolver := None\<rparr>"

definition protocol_headers :: "provider_protocol \<Rightarrow> (rstr \<times> rstr) list" where
  "protocol_headers protocol =
    (if protocol = AnthropicMessages then [(lit ''anthropic-version'', lit ''2023-06-01'')] else [])"

section \<open>Leases\<close>

record credential_lease =
  cl_provider_profile_id :: rstr
  cl_profile_route_revision :: nat
  cl_secret :: rstr

record leased_route =
  lr_binding :: session_binding
  lr_sampler_config :: sampler_config

definition lease_profile ::
  "'v vault_ops \<Rightarrow> host_env \<Rightarrow> profile_record \<Rightarrow> 'v \<Rightarrow> host_error + credential_lease" where
  "lease_profile V h profile v =
     and_then (bail_if (\<not> pp_credential_configured profile)
       (Bail ''bound Provider credential is not configured'')) (\<lambda>_.
     and_then (with_context ''bound Provider credential handle is invalid''
       (map_err Vault (credential_ref_parse h (pp_credential_ref profile)))) (\<lambda>cref.
     and_then (with_context ''bound Provider credential is unavailable''
       (map_err Vault (v_get V cref v))) (\<lambda>secret.
     Inr \<lparr>cl_provider_profile_id = pp_profile_id profile,
          cl_profile_route_revision = pp_route_revision profile, cl_secret = secret\<rparr>)))"

definition validate_profile_revision :: "session_binding \<Rightarrow> profile_record \<Rightarrow> host_error + unit" where
  "validate_profile_revision binding profile =
    (let route = sp_route binding in
     and_then (bail_if (pp_owner profile \<noteq> sp_owner binding
         \<or> pp_profile_id profile \<noteq> rt_provider_profile_id route)
       (Bail ''bound Provider Profile ownership does not match'')) (\<lambda>_.
     and_then (bail_if (pp_route_revision profile < rt_profile_route_revision route)
       (Bail ''bound Provider route revision is unavailable'')) (\<lambda>_.
     bail_if (pp_route_revision profile = rt_profile_route_revision route
         \<and> (pp_protocol profile \<noteq> rt_protocol route \<or> pp_base_url profile \<noteq> rt_base_url route
            \<or> pp_auth_kind profile \<noteq> rt_auth_kind route))
       (Bail ''bound Provider route does not match its Profile revision''))))"

text \<open>\<open>u32::try_from\<close> on the declared output limit.\<close>

definition u32_limit :: "nat option \<Rightarrow> host_error + nat option" where
  "u32_limit tokens =
    (case tokens of None \<Rightarrow> Inr None
     | Some n \<Rightarrow> if n < 2 ^ 32 then Inr (Some n)
                 else Inl (Bail ''bound model max output tokens exceed Sampling limits''))"

definition project :: "session_binding \<Rightarrow> credential_lease \<Rightarrow> host_error + leased_route" where
  "project binding lease =
    (let route = sp_route binding in
     and_then (bail_if (cl_provider_profile_id lease \<noteq> rt_provider_profile_id route
         \<or> cl_profile_route_revision lease < rt_profile_route_revision route)
       (Bail ''Credential Lease does not match the bound Provider route'')) (\<lambda>_.
     and_then (u32_limit (cap_max_output_tokens (rt_capability route))) (\<lambda>max_tokens.
     Inr \<lparr>lr_binding = binding,
          lr_sampler_config = default_sampler_config\<lparr>
            sc_api_key := None, sc_base_url := rt_base_url route, sc_model := rt_model_id route,
            sc_max_completion_tokens := max_tokens, sc_api_backend := route_api_backend route,
            sc_auth_scheme := route_auth_scheme route,
            sc_extra_headers := protocol_headers (rt_protocol route),
            sc_context_window :=
              (case cap_context_window (rt_capability route) of None \<Rightarrow> 0 | Some n \<Rightarrow> n),
            sc_bearer_resolver := Some (cl_secret lease)\<rparr>\<rparr>)))"

definition lease_resolve ::
  "'v vault_ops \<Rightarrow> host_env \<Rightarrow> int \<Rightarrow> rstr \<Rightarrow> rstr \<Rightarrow> 'v \<times> state_db \<Rightarrow> host_error + leased_route" where
  "lease_resolve V h owner session_id role st =
    (let (v, db) = st in
     and_then (bindings_current h owner session_id role db) (\<lambda>current.
     and_then (ok_or current (Bail ''Session Provider Binding is not initialized'')) (\<lambda>binding.
     and_then (bail_if (sp_owner binding \<noteq> owner)
       (Bail ''Session Provider Binding account does not match'')) (\<lambda>_.
     and_then (with_context ''resolve bound Provider Profile''
       (profiles_get h owner (rt_provider_profile_id (sp_route binding)) db)) (\<lambda>profile.
     and_then (validate_profile_revision binding profile) (\<lambda>_.
     and_then (lease_profile V h profile v) (project binding)))))))"

section \<open>Probes\<close>

definition probe_sampler_config ::
  "rstr \<Rightarrow> rstr \<Rightarrow> provider_protocol \<Rightarrow> provider_auth_kind \<Rightarrow> rstr \<Rightarrow> sampler_config" where
  "probe_sampler_config base_url model_id protocol auth_kind secret =
     default_sampler_config\<lparr>sc_api_key := None, sc_base_url := base_url, sc_model := model_id,
       sc_max_completion_tokens := Some 32, sc_api_backend := protocol_backend protocol,
       sc_auth_scheme := auth_kind_scheme auth_kind,
       sc_extra_headers := protocol_headers protocol, sc_bearer_resolver := Some secret\<rparr>"

definition project_probe :: "profile_record \<Rightarrow> rstr \<Rightarrow> credential_lease \<Rightarrow> host_error + sampler_config" where
  "project_probe profile model_id lease =
     and_then (bail_if (cl_provider_profile_id lease \<noteq> pp_profile_id profile
         \<or> cl_profile_route_revision lease \<noteq> pp_route_revision profile)
       (Bail ''Credential Lease does not match the Provider Profile under Probe'')) (\<lambda>_.
     Inr (probe_sampler_config (pp_base_url profile) model_id (pp_protocol profile)
            (pp_auth_kind profile) (cl_secret lease)))"

definition resolve_profile_probe ::
  "'v vault_ops \<Rightarrow> host_env \<Rightarrow> int \<Rightarrow> rstr \<Rightarrow> rstr \<Rightarrow> 'v \<times> state_db \<Rightarrow> host_error + sampler_config" where
  "resolve_profile_probe V h owner profile_id model_id st =
    (let (v, db) = st in
     and_then (with_context ''resolve Provider Profile for Probe''
       (profiles_get h owner profile_id db)) (\<lambda>profile.
     and_then (bail_if (model_id \<notin> set (pp_enabled_models profile))
       (Bail ''Probe model is not enabled by the Provider Profile'')) (\<lambda>_.
     and_then (lease_profile V h profile v) (project_probe profile model_id))))"

text \<open>A probe of a profile that has not been saved; it reads no store and no vault.\<close>

definition prepare_ephemeral_probe ::
  "host_env \<Rightarrow> profile_input \<Rightarrow> rstr \<Rightarrow> rstr \<Rightarrow> host_error + sampler_config" where
  "prepare_ephemeral_probe h inp model_id api_key =
     and_then (profile_input_normalized h inp) (\<lambda>profile.
     and_then (normalize_model_id model_id) (\<lambda>model_id.
     and_then (bail_if (model_id \<notin> set (in_enabled_models profile))
       (Bail ''connection test model is not enabled by the Provider Profile'')) (\<lambda>_.
     and_then (with_context ''validate Provider connection test secret''
       (map_err Vault (secret_new api_key))) (\<lambda>secret.
     Inr (probe_sampler_config (in_base_url profile) model_id (in_protocol profile)
            (in_auth_kind profile) secret)))))"

section \<open>What a lease carries\<close>

text \<open>The projection of a binding, but for the secret.\<close>

definition config_of_route :: "prepared_route \<Rightarrow> sampler_config" where
  "config_of_route route = default_sampler_config\<lparr>sc_base_url := rt_base_url route, sc_model := rt_model_id route,
     sc_max_completion_tokens := cap_max_output_tokens (rt_capability route),
     sc_api_backend := route_api_backend route, sc_auth_scheme := route_auth_scheme route,
     sc_extra_headers := protocol_headers (rt_protocol route),
     sc_context_window := (case cap_context_window (rt_capability route) of None \<Rightarrow> 0 | Some n \<Rightarrow> n)\<rparr>"

lemma project_Inr:
  "project binding lease = Inr l \<longleftrightarrow> cl_provider_profile_id lease = rt_provider_profile_id (sp_route binding)
     \<and> rt_profile_route_revision (sp_route binding) \<le> cl_profile_route_revision lease
     \<and> (case cap_max_output_tokens (rt_capability (sp_route binding)) of None \<Rightarrow> True | Some n \<Rightarrow> n < 2 ^ 32)
     \<and> l = \<lparr>lr_binding = binding,
          lr_sampler_config = (config_of_route (sp_route binding))\<lparr>sc_bearer_resolver := Some (cl_secret lease)\<rparr>\<rparr>"
proof -
  have u: "u32_limit x = Inr y \<longleftrightarrow> y = x \<and> (case x of None \<Rightarrow> True | Some n \<Rightarrow> n < 2 ^ 32)" for x y
    by (auto simp: u32_limit_def split: option.splits)
  have "default_sampler_config\<lparr>sc_api_key := None\<rparr> = default_sampler_config"
    by (simp add: default_sampler_config_def)
  then show ?thesis
    by (auto simp: project_def Let_def result_simps u config_of_route_def default_sampler_config_def)
qed

lemma lease_profile_Inr:
  "lease_profile V h p v = Inr l \<longleftrightarrow> pp_credential_configured p
     \<and> credential_ref_parse h (pp_credential_ref p) = Inr (pp_credential_ref p)
     \<and> (\<exists>secret. v_get V (pp_credential_ref p) v = Inr secret
         \<and> l = \<lparr>cl_provider_profile_id = pp_profile_id p, cl_profile_route_revision = pp_route_revision p,
                cl_secret = secret\<rparr>)"
proof -
  have "credential_ref_parse h x = Inr y \<Longrightarrow> y = x" for x y
    by (auto simp: credential_ref_parse_def split: option.splits if_splits)
  then show ?thesis
    by (cases "credential_ref_parse h (pp_credential_ref p)") (fastforce simp: lease_profile_def result_simps)+
qed

lemma validate_profile_revision_Inr:
  "validate_profile_revision b p = Inr u \<longleftrightarrow> pp_owner p = sp_owner b
     \<and> pp_profile_id p = rt_provider_profile_id (sp_route b)
     \<and> rt_profile_route_revision (sp_route b) \<le> pp_route_revision p
     \<and> (pp_route_revision p = rt_profile_route_revision (sp_route b) \<longrightarrow> pp_protocol p = rt_protocol (sp_route b)
         \<and> pp_base_url p = rt_base_url (sp_route b) \<and> pp_auth_kind p = rt_auth_kind (sp_route b))"
  by (auto simp: validate_profile_revision_def Let_def result_simps)

lemma lease_resolve_Inr:
  "lease_resolve V h owner s role (v, db) = Inr l \<longleftrightarrow> (\<exists>b p secret.
     bindings_current h owner s role db = Inr (Some b) \<and> sp_owner b = owner
     \<and> profiles_get h owner (rt_provider_profile_id (sp_route b)) db = Inr p
     \<and> validate_profile_revision b p = Inr () \<and> pp_credential_configured p
     \<and> credential_ref_parse h (pp_credential_ref p) = Inr (pp_credential_ref p)
     \<and> v_get V (pp_credential_ref p) v = Inr secret
     \<and> (case cap_max_output_tokens (rt_capability (sp_route b)) of None \<Rightarrow> True | Some n \<Rightarrow> n < 2 ^ 32)
     \<and> l = \<lparr>lr_binding = b,
          lr_sampler_config = (config_of_route (sp_route b))\<lparr>sc_bearer_resolver := Some secret\<rparr>\<rparr>)"
proof -
  have ok: "project b \<lparr>cl_provider_profile_id = pp_profile_id p, cl_profile_route_revision = pp_route_revision p,
        cl_secret = secret\<rparr> = Inr l
      \<longleftrightarrow> (case cap_max_output_tokens (rt_capability (sp_route b)) of None \<Rightarrow> True | Some n \<Rightarrow> n < 2 ^ 32)
        \<and> l = \<lparr>lr_binding = b,
          lr_sampler_config = (config_of_route (sp_route b))\<lparr>sc_bearer_resolver := Some secret\<rparr>\<rparr>"
    if "validate_profile_revision b p = Inr ()" for b p secret
    using that by (simp add: project_Inr validate_profile_revision_Inr)
  show ?thesis (is "?lhs \<longleftrightarrow> ?rhs")
  proof
    assume ?lhs
    then obtain b p lease where r: "bindings_current h owner s role db = Inr (Some b)" "sp_owner b = owner"
        "profiles_get h owner (rt_provider_profile_id (sp_route b)) db = Inr p"
        "validate_profile_revision b p = Inr ()" "lease_profile V h p v = Inr lease" "project b lease = Inr l"
      by (auto simp: lease_resolve_def result_simps)
    from r(5) [unfolded lease_profile_Inr] obtain secret where
      "pp_credential_configured p" "credential_ref_parse h (pp_credential_ref p) = Inr (pp_credential_ref p)"
      "v_get V (pp_credential_ref p) v = Inr secret"
      "lease = \<lparr>cl_provider_profile_id = pp_profile_id p, cl_profile_route_revision = pp_route_revision p,
                cl_secret = secret\<rparr>" by blast
    with r ok [OF r(4), of secret] show ?rhs by blast
  next
    assume ?rhs
    then obtain b p secret where r: "bindings_current h owner s role db = Inr (Some b)" "sp_owner b = owner"
        "profiles_get h owner (rt_provider_profile_id (sp_route b)) db = Inr p"
        "validate_profile_revision b p = Inr ()" "pp_credential_configured p"
        "credential_ref_parse h (pp_credential_ref p) = Inr (pp_credential_ref p)"
        "v_get V (pp_credential_ref p) v = Inr secret"
        "case cap_max_output_tokens (rt_capability (sp_route b)) of None \<Rightarrow> True | Some n \<Rightarrow> n < 2 ^ 32"
        "l = \<lparr>lr_binding = b,
          lr_sampler_config = (config_of_route (sp_route b))\<lparr>sc_bearer_resolver := Some secret\<rparr>\<rparr>" by blast
    have "lease_profile V h p v = Inr \<lparr>cl_provider_profile_id = pp_profile_id p,
        cl_profile_route_revision = pp_route_revision p, cl_secret = secret\<rparr>"
      using r(5-7) by (simp add: lease_profile_def)
    with r ok [OF r(4), of secret] show ?lhs by (simp add: lease_resolve_def)
  qed
qed

lemma config_of_route_fields [simp]:
  "sc_api_key (config_of_route r) = None" "sc_base_url (config_of_route r) = rt_base_url r"
  "sc_model (config_of_route r) = rt_model_id r" "sc_bearer_resolver (config_of_route r) = None"
  "sc_api_backend (config_of_route r) = route_api_backend r" "sc_auth_scheme (config_of_route r) = route_auth_scheme r"
  by (simp_all add: config_of_route_def default_sampler_config_def)

lemma serialized_config_of_route [simp]:
  "serialized_config (config_of_route r\<lparr>sc_bearer_resolver := x\<rparr>) = config_of_route r"
  by (simp add: serialized_config_def config_of_route_def default_sampler_config_def)

text \<open>C5: a lease is justified: it exists only for the current binding of this account, a profile of the
  account that is the bound one and at no older route revision, and the secret that the vault holds for
  this profile; the configuration points to the bound endpoint and model, whatever the profile has
  become since.\<close>

theorem lease_is_justified:
  assumes "lease_resolve memory_vault h owner session_id role (v, db) = Inr l"
  shows "\<exists>b p secret. bindings_current h owner session_id role db = Inr (Some b) \<and> sp_owner b = owner
    \<and> profiles_get h owner (rt_provider_profile_id (sp_route b)) db = Inr p
    \<and> rt_profile_route_revision (sp_route b) \<le> pp_route_revision p
    \<and> v (pp_credential_ref p) = Some secret \<and> secret_new secret = Inr secret
    \<and> lr_binding l = b
    \<and> sc_base_url (lr_sampler_config l) = rt_base_url (sp_route b)
    \<and> sc_model (lr_sampler_config l) = rt_model_id (sp_route b)
    \<and> sc_bearer_resolver (lr_sampler_config l) = Some secret"
proof -
  from assms [unfolded lease_resolve_Inr] obtain b p secret where
    b: "bindings_current h owner session_id role db = Inr (Some b)" "sp_owner b = owner"
      "profiles_get h owner (rt_provider_profile_id (sp_route b)) db = Inr p"
    and r: "validate_profile_revision b p = Inr ()" and g: "v_get memory_vault (pp_credential_ref p) v = Inr secret"
    and l: "l = \<lparr>lr_binding = b,
          lr_sampler_config = (config_of_route (sp_route b))\<lparr>sc_bearer_resolver := Some secret\<rparr>\<rparr>"
    by blast
  have "v (pp_credential_ref p) = Some secret \<and> secret_new secret = Inr secret"
    using g by (auto simp: memory_vault_def memory_get_def secret_new_def split: option.splits if_splits)
  with b r l show ?thesis by (auto simp: validate_profile_revision_Inr)
qed

text \<open>a lease shows nothing but the binding. Two leases of the same current binding, over whatever vaults
  and databases, before or after a change of the profile or a replacement of the secret, have the same
  binding and the same serialized configuration, without an API key: the secret stands behind the
  resolver only, which is not serialized.\<close>

theorem lease_depends_on_binding_only:
  assumes "lease_resolve V h owner session_id role (v1, db1) = Inr l1"
    and "lease_resolve V h owner session_id role (v2, db2) = Inr l2"
    and "bindings_current h owner session_id role db1 = bindings_current h owner session_id role db2"
  shows "lr_binding l1 = lr_binding l2
    \<and> serialized_config (lr_sampler_config l1) = serialized_config (lr_sampler_config l2)
    \<and> sc_api_key (lr_sampler_config l1) = None
    \<and> serialized_config (lr_sampler_config l1) = config_of_route (sp_route (lr_binding l1))"
  using assms unfolding lease_resolve_Inr by auto

section \<open>A concrete lease\<close>

definition sample_leased_db :: state_db where
  "sample_leased_db = sample_binding_db\<lparr>provider_profiles :=
     [new_profile_row sample_env [48] 7 [112] (handle_prefix @ [49]) [52] sample_profile_input]\<rparr>"

definition sample_binding0 :: session_binding where
  "sample_binding0 = binding_of (binding_row_of sample_env [49] [48] 7 [115] [109] None 1 Initial sample_route)
     Initial sample_route"

lemma sample_lease:
  assumes "secret_new key = Inr key"
  shows "lease_resolve memory_vault sample_env 7 [115] [109] ([handle_prefix @ [49] \<mapsto> key], sample_leased_db)
    = Inr \<lparr>lr_binding = sample_binding0,
          lr_sampler_config = (config_of_route sample_route)\<lparr>sc_bearer_resolver := Some key\<rparr>\<rparr>"
proof -
  have cur: "bindings_current sample_env 7 [115] [109] sample_leased_db = Inr (Some sample_binding0)"
    by (simp add: normalized_key_again [OF sample_key_normalized] query_current_def binding_rows_def
        sample_leased_db_def sample_binding_db_def binding_key_def row_to_binding_of sample_route_codec sample_binding0_def)
  have prof: "profiles_get sample_env 7 [112] sample_leased_db
      = Inr (record_of_input 7 [112] (handle_prefix @ [49]) [52] 1 [48] [48] sample_profile_input)"
    by (simp add: profiles_get_def sample_leased_db_def profile_key_def profile_row_to_record_def new_profile_row_def
        record_of_input_def) (simp add: sample_env_def sample_profile_input_def)
  have "credential_ref_parse sample_env (handle_prefix @ [49]) = Inr (handle_prefix @ [49])"
    by (simp add: credential_ref_parse_def sample_env_def)
  moreover have "v_get memory_vault (handle_prefix @ [49]) [handle_prefix @ [49] \<mapsto> key] = Inr key"
    using assms by (simp add: memory_vault_def memory_get_def)
  ultimately show ?thesis
    unfolding lease_resolve_Inr using cur prof
    by (simp add: validate_profile_revision_Inr sample_binding0_def)
      (simp add: sample_route_def record_of_input_def sample_profile_input_def unknown_capability_def)
qed

lemma lease_is_justified_witness:
  "\<exists>l. lease_resolve memory_vault sample_env 7 [115] [109] ([handle_prefix @ [49] \<mapsto> sample_key], sample_leased_db) = Inr l
     \<and> sc_bearer_resolver (lr_sampler_config l) = Some sample_key"
  using lease_is_justified [OF sample_lease [OF sample_key_ok]] by (simp add: sample_lease [OF sample_key_ok])

lemma lease_depends_on_binding_only_witness:
  "\<exists>l1 l2. lease_resolve memory_vault sample_env 7 [115] [109] ([handle_prefix @ [49] \<mapsto> sample_key], sample_leased_db) = Inr l1
     \<and> lease_resolve memory_vault sample_env 7 [115] [109] ([handle_prefix @ [49] \<mapsto> 97 # sample_key], sample_leased_db) = Inr l2
     \<and> serialized_config (lr_sampler_config l1) = serialized_config (lr_sampler_config l2)
     \<and> sc_bearer_resolver (lr_sampler_config l1) \<noteq> sc_bearer_resolver (lr_sampler_config l2)"
proof -
  have key: "secret_new (97 # sample_key) = Inr (97 # sample_key)"
    by (simp add: secret_new_def sample_key_def trim_def trim_start_def trim_end_def is_whitespace_def
        str_bytes_def utf8_encode_def)
  from lease_depends_on_binding_only [OF sample_lease [OF sample_key_ok] sample_lease [OF key] refl]
  show ?thesis by (simp add: sample_lease [OF sample_key_ok] sample_lease [OF key])
qed

end
