(* ===== verification/Client_Access.thy ===== *)
theory Client_Access
  imports Prelude
begin

text \<open>
  \<open>access.rs\<close>: the gate of the client. A bootstrap with the server leaves the state
  \<open>Granted\<close> until a deadline, \<open>Denied\<close> or \<open>Unverified\<close>; guards handed to other
  components read the shared state. Instants, durations and wall times are counts of nanoseconds;
  the clock readings are arguments. The parsers and the ranges of \<open>chrono\<close> and of \<open>Instant\<close>
  are the record \<open>time_env\<close>.
\<close>

section \<open>Time\<close>

record time_env =
  parse_rfc3339 :: "rstr \<Rightarrow> int option"
  parse_naive :: "rstr \<Rightarrow> int option"
  datetime_in_range :: "int \<Rightarrow> bool"
  instant_limit :: nat
  chrono_duration_limit :: nat

definition nanos :: nat where
  "nanos = 1000000000"

definition trusted_time_max_age :: nat where
  "trusted_time_max_age = 600 * nanos"

definition trusted_time_max_wall_drift :: nat where
  "trusted_time_max_wall_drift = 120 * nanos"

datatype bootstrap_error =
  MissingToken | AuthenticationRequired | VerificationUnavailable | UnsupportedContract

datatype trusted_time_error = TimeUnavailable | TimeStale

record trusted_server_time =
  ts_server_time :: int
  ts_observed_at :: nat
  ts_observed_wall :: int
  ts_fresh_until :: nat

definition instant_checked_add :: "time_env \<Rightarrow> nat \<Rightarrow> nat \<Rightarrow> nat option" where
  "instant_checked_add T t d = (if t + d \<le> instant_limit T then Some (t + d) else None)"

definition trusted_time_new_at ::
  "time_env \<Rightarrow> int \<Rightarrow> nat \<Rightarrow> int \<Rightarrow> nat \<Rightarrow> bootstrap_error + trusted_server_time" where
  "trusted_time_new_at T server_time observed_at observed_wall membership_valid_for =
     and_then (ok_or (instant_checked_add T observed_at (min trusted_time_max_age membership_valid_for))
       UnsupportedContract) (\<lambda>fresh_until.
     Inr \<lparr>ts_server_time = server_time, ts_observed_at = observed_at,
          ts_observed_wall = observed_wall, ts_fresh_until = fresh_until\<rparr>)"

definition current_time_at ::
  "time_env \<Rightarrow> trusted_server_time \<Rightarrow> nat \<Rightarrow> int \<Rightarrow> trusted_time_error + int" where
  "current_time_at T t now wall =
    (if now \<ge> ts_fresh_until t then Inl TimeStale
     else if now < ts_observed_at t then Inl TimeUnavailable
     else if wall < ts_observed_wall t then Inl TimeStale
     else
       let elapsed = now - ts_observed_at t; wall_elapsed = nat (wall - ts_observed_wall t) in
       if nat \<bar>int wall_elapsed - int elapsed\<bar> > trusted_time_max_wall_drift then Inl TimeStale
       else if elapsed > chrono_duration_limit T then Inl TimeUnavailable
       else if \<not> datetime_in_range T (ts_server_time t + int elapsed) then Inl TimeUnavailable
       else Inr (ts_server_time t + int elapsed))"

section \<open>The bootstrap contract\<close>

record bootstrap_response =
  br_schema_version :: nat
  br_server_time :: rstr
  br_account_id :: int
  br_subscription_status :: rstr
  br_period_end :: "rstr option"
  br_can_enter_client :: bool
  br_access_reason :: rstr

datatype access_state =
    Unverified
  | Granted (granted_response: bootstrap_response) (granted_until: nat)
      (granted_time: trusted_server_time)
  | Denied bootstrap_response

definition granted_bootstrap_validity :: "time_env \<Rightarrow> bootstrap_response \<Rightarrow> bootstrap_error + int \<times> nat" where
  "granted_bootstrap_validity T r =
     and_then (ok_or (parse_rfc3339 T (br_server_time r)) UnsupportedContract) (\<lambda>server_time.
     and_then (ok_or (br_period_end r) UnsupportedContract) (\<lambda>value.
     and_then (ok_or (parse_naive T value) UnsupportedContract) (\<lambda>period_end.
     and_then (bail_if (period_end - server_time < 0) UnsupportedContract) (\<lambda>_.
     and_then (bail_if (period_end - server_time = 0) UnsupportedContract) (\<lambda>_.
     Inr (server_time, nat (period_end - server_time)))))))"

text \<open>What the HTTP request ended in: no response, or a status and the decoded body.\<close>

datatype http_outcome =
    SendFailed
  | HttpResponse nat "bootstrap_response option"

definition bootstrap_result ::
  "time_env \<Rightarrow> http_outcome \<Rightarrow> nat \<Rightarrow> int \<Rightarrow> bootstrap_error + bootstrap_response \<times> access_state" where
  "bootstrap_result T http now wall =
    (case http of
       SendFailed \<Rightarrow> Inl VerificationUnavailable
     | HttpResponse status body \<Rightarrow>
         if status = 401 \<or> status = 403 then Inl AuthenticationRequired
         else if \<not> (200 \<le> status \<and> status < 300) then Inl VerificationUnavailable
         else
           and_then (ok_or body UnsupportedContract) (\<lambda>r.
           and_then (bail_if (br_schema_version r \<noteq> 1) UnsupportedContract) (\<lambda>_.
           if br_can_enter_client r then
             and_then (granted_bootstrap_validity T r) (\<lambda>(server_time, valid_for).
             and_then (ok_or (instant_checked_add T now valid_for) UnsupportedContract) (\<lambda>valid_until.
             and_then (trusted_time_new_at T server_time now wall valid_for) (\<lambda>trusted_time.
             Inr (r, Granted r valid_until trusted_time))))
           else Inr (r, Denied r))))"

definition bootstrap ::
  "time_env \<Rightarrow> rstr \<Rightarrow> http_outcome \<Rightarrow> nat \<Rightarrow> int \<Rightarrow> access_state
     \<Rightarrow> (bootstrap_error + bootstrap_response) \<times> access_state" where
  "bootstrap T token http now wall st =
    (if trim token = [] then (Inl MissingToken, Unverified)
     else case bootstrap_result T http now wall of
       Inr (r, next_state) \<Rightarrow> (Inr r, next_state)
     | Inl e \<Rightarrow> (Inl e, Unverified))"

definition invalidate :: "access_state \<Rightarrow> access_state" where
  "invalidate st = Unverified"

section \<open>Reading the gate\<close>

text \<open>The errors of the gate, with the values their JSON data carries.\<close>

datatype access_error =
    AccountChanged int
  | SubscriptionExpired rstr
  | SubscriptionRequired rstr rstr
  | AccessUnverified

definition require_state :: "access_state \<Rightarrow> int option \<Rightarrow> nat \<Rightarrow> access_error + unit" where
  "require_state st expected now =
    (case st of
       Granted r valid_until _ \<Rightarrow>
         if now < valid_until \<and> (case expected of None \<Rightarrow> True | Some a \<Rightarrow> a = br_account_id r)
         then Inr ()
         else if now < valid_until then Inl (AccountChanged (br_account_id r))
         else Inl (SubscriptionExpired (br_subscription_status r))
     | Denied r \<Rightarrow> Inl (SubscriptionRequired (br_access_reason r) (br_subscription_status r))
     | Unverified \<Rightarrow> Inl AccessUnverified)"

definition guard_require :: "int \<Rightarrow> access_state \<Rightarrow> nat \<Rightarrow> access_error + unit" where
  "guard_require owner st now = require_state st (Some owner) now"

definition is_granted :: "access_state \<Rightarrow> nat \<Rightarrow> bool" where
  "is_granted st now = is_ok (require_state st None now)"

definition remaining_validity :: "access_state \<Rightarrow> nat \<Rightarrow> nat option" where
  "remaining_validity st now =
    (case st of
       Granted _ valid_until _ \<Rightarrow> if now \<le> valid_until then Some (valid_until - now) else None
     | _ \<Rightarrow> None)"

definition current_account_id :: "access_state \<Rightarrow> nat \<Rightarrow> int option" where
  "current_account_id st now =
    (case st of
       Granted r valid_until _ \<Rightarrow> if now < valid_until then Some (br_account_id r) else None
     | _ \<Rightarrow> None)"

definition trusted_server_now :: "time_env \<Rightarrow> access_state \<Rightarrow> nat \<Rightarrow> int \<Rightarrow> trusted_time_error + int" where
  "trusted_server_now T st now wall =
    (case st of
       Granted _ valid_until t \<Rightarrow>
         if now < valid_until then current_time_at T t now wall else Inl TimeUnavailable
     | _ \<Rightarrow> Inl TimeUnavailable)"

fun bootstrap_error_reason :: "bootstrap_error \<Rightarrow> string" where
  "bootstrap_error_reason MissingToken = ''authentication_required''"
| "bootstrap_error_reason AuthenticationRequired = ''authentication_required''"
| "bootstrap_error_reason VerificationUnavailable = ''access_verification_failed''"
| "bootstrap_error_reason UnsupportedContract = ''unsupported_bootstrap_contract''"

section \<open>Every grant comes from a valid bootstrap\<close>

text \<open>The states the gate goes through: any sequence of bootstraps and invalidations.\<close>

inductive access_reaches :: "time_env \<Rightarrow> access_state \<Rightarrow> bool" for T where
  access_start: "access_reaches T Unverified"
| access_bootstrap: "access_reaches T st \<Longrightarrow> access_reaches T (snd (bootstrap T token http now wall st))"
| access_invalidate: "access_reaches T st \<Longrightarrow> access_reaches T (invalidate st)"

definition grant_ok :: "time_env \<Rightarrow> bootstrap_response \<Rightarrow> nat \<Rightarrow> trusted_server_time \<Rightarrow> bool" where
  "grant_ok T r valid_until t \<longleftrightarrow> br_can_enter_client r \<and> br_schema_version r = 1
     \<and> (\<exists>p period_end. br_period_end r = Some p \<and> parse_naive T p = Some period_end
          \<and> parse_rfc3339 T (br_server_time r) = Some (ts_server_time t)
          \<and> ts_server_time t < period_end
          \<and> valid_until = ts_observed_at t + nat (period_end - ts_server_time t)
          \<and> ts_fresh_until t = ts_observed_at t
              + min trusted_time_max_age (nat (period_end - ts_server_time t)))"

lemma instant_checked_add_eq_Some [result_simps]:
  "instant_checked_add T t d = Some u \<longleftrightarrow> u = t + d \<and> t + d \<le> instant_limit T"
  by (auto simp: instant_checked_add_def)

lemma granted_bootstrap_validity_eq_Inr:
  "granted_bootstrap_validity T r = Inr (server_time, d) \<longleftrightarrow>
     (\<exists>p period_end. parse_rfc3339 T (br_server_time r) = Some server_time \<and> br_period_end r = Some p
        \<and> parse_naive T p = Some period_end \<and> server_time < period_end
        \<and> d = nat (period_end - server_time))"
  unfolding granted_bootstrap_validity_def by (auto simp: result_simps)

lemma bootstrap_result_eq_Inr:
  assumes "bootstrap_result T http now wall = Inr (r, st)"
  shows "(\<exists>until t. st = Granted r until t \<and> grant_ok T r until t \<and> ts_observed_at t = now
            \<and> ts_observed_wall t = wall) \<or> (st = Denied r \<and> \<not> br_can_enter_client r)"
  using assms
  by (auto simp: bootstrap_result_def trusted_time_new_at_def grant_ok_def result_simps
      granted_bootstrap_validity_eq_Inr split: http_outcome.splits if_splits)

lemma bootstrap_cases:
  obtains (granted) r until t where "bootstrap T token http now wall st = (Inr r, Granted r until t)"
      "grant_ok T r until t" "ts_observed_at t = now" "ts_observed_wall t = wall"
  | (denied) r where "bootstrap T token http now wall st = (Inr r, Denied r)" "\<not> br_can_enter_client r"
  | (failed) e where "bootstrap T token http now wall st = (Inl e, Unverified)"
proof (cases "trim token = []")
  case True
  then show ?thesis by (intro failed) (simp add: bootstrap_def)
next
  case False
  show ?thesis
  proof (cases "bootstrap_result T http now wall")
    case (Inl e)
    then show ?thesis by (intro failed) (use False in \<open>simp add: bootstrap_def\<close>)
  next
    case (Inr p)
    then obtain r st' where p: "bootstrap_result T http now wall = Inr (r, st')" by (cases p) auto
    have "bootstrap T token http now wall st = (Inr r, st')" using False p by (simp add: bootstrap_def)
    with bootstrap_result_eq_Inr [OF p] show ?thesis by (auto intro: granted denied)
  qed
qed

lemma access_reaches_grant_ok:
  "access_reaches T st \<Longrightarrow> st = Granted r until t \<Longrightarrow> grant_ok T r until t"
proof (induction arbitrary: r until t rule: access_reaches.induct)
  case (access_bootstrap st token http now wall)
  show ?case
    by (rule bootstrap_cases [of T token http now wall st]) (use access_bootstrap.prems in auto)
qed (auto simp: invalidate_def)

inductive_cases access_reachesE: "access_reaches T st"

text \<open>every reachable granted state comes from a version 1 response that lets the account
  enter; the deadline lies as far after the observation as the period end lies after the server
  time, and the trusted clock is fresh for at most ten minutes and never beyond the deadline.\<close>

theorem granted_state_is_justified:
  assumes "access_reaches T (Granted r until t)"
  shows "br_can_enter_client r \<and> br_schema_version r = 1
    \<and> (\<exists>p period_end. br_period_end r = Some p \<and> parse_naive T p = Some period_end
         \<and> parse_rfc3339 T (br_server_time r) = Some (ts_server_time t)
         \<and> ts_server_time t < period_end
         \<and> int until - int (ts_observed_at t) = period_end - ts_server_time t)
    \<and> ts_fresh_until t \<le> until \<and> ts_fresh_until t \<le> ts_observed_at t + trusted_time_max_age"
  using access_reaches_grant_ok [OF assms refl] unfolding grant_ok_def by auto

text \<open>C1: the gate fails closed. After a bootstrap, whatever the state before, a guard of an account
  lets a request pass only when the bootstrap succeeded with a response for this very account that
  lets it enter, and only before the deadline of that response.\<close>

theorem bootstrap_fails_closed:
  assumes "bootstrap T token http now wall st = (result, st')" "guard_require owner st' t = Inr ()"
  shows "\<exists>r p period_end server_time. result = Inr r \<and> br_account_id r = owner \<and> br_can_enter_client r
    \<and> br_period_end r = Some p \<and> parse_naive T p = Some period_end
    \<and> parse_rfc3339 T (br_server_time r) = Some server_time
    \<and> int t < int now + (period_end - server_time)"
  using assms
  by (rule_tac bootstrap_cases [of T token http now wall st])
    (force simp: guard_require_def require_state_def grant_ok_def split: if_splits)+

text \<open>the trusted clock of a reachable state never runs backwards behind the server time, never
  reaches the end of the paid period, stays within ten minutes of the server time, and advances by
  exactly the elapsed monotonic time.\<close>

theorem trusted_clock_bounds:
  assumes "access_reaches T (Granted r until t)"
    and "trusted_server_now T (Granted r until t) now wall = Inr x"
  shows "x = ts_server_time t + (int now - int (ts_observed_at t)) \<and> ts_server_time t \<le> x
    \<and> x < ts_server_time t + int trusted_time_max_age
    \<and> (\<exists>p period_end. br_period_end r = Some p \<and> parse_naive T p = Some period_end \<and> x < period_end)
    \<and> \<bar>(wall - ts_observed_wall t) - (int now - int (ts_observed_at t))\<bar> \<le> int trusted_time_max_wall_drift"
proof -
  from access_reaches_grant_ok [OF assms(1) refl] obtain p period_end where
    g: "br_period_end r = Some p" "parse_naive T p = Some period_end" "ts_server_time t < period_end"
      "until = ts_observed_at t + nat (period_end - ts_server_time t)"
      "ts_fresh_until t \<le> ts_observed_at t + trusted_time_max_age"
    unfolding grant_ok_def by auto
  from assms(2) have c: "now < until" "now < ts_fresh_until t" "ts_observed_at t \<le> now"
      "ts_observed_wall t \<le> wall" "x = ts_server_time t + int (now - ts_observed_at t)"
      "nat \<bar>int (nat (wall - ts_observed_wall t)) - int (now - ts_observed_at t)\<bar> \<le> trusted_time_max_wall_drift"
    by (auto simp: trusted_server_now_def current_time_at_def Let_def split: if_splits)
  from c(3) have e: "int (now - ts_observed_at t) = int now - int (ts_observed_at t)" by simp
  from c(6) c(4) e have
    "\<bar>(wall - ts_observed_wall t) - (int now - int (ts_observed_at t))\<bar> \<le> int trusted_time_max_wall_drift"
    by simp
  moreover have "x < ts_server_time t + int trusted_time_max_age" "ts_server_time t \<le> x" "x < period_end"
    using c g e by linarith+
  ultimately show ?thesis using c(5) e g(1,2) by auto
qed

definition sample_time_env :: time_env where
  "sample_time_env = \<lparr>parse_rfc3339 = (\<lambda>s. Some 0), parse_naive = (\<lambda>s. Some 3600000000000),
     datetime_in_range = (\<lambda>_. True), instant_limit = 10 ^ 20, chrono_duration_limit = 10 ^ 20\<rparr>"

definition sample_response :: bootstrap_response where
  "sample_response = \<lparr>br_schema_version = 1, br_server_time = [], br_account_id = 7,
     br_subscription_status = [], br_period_end = Some [], br_can_enter_client = True,
     br_access_reason = []\<rparr>"

definition sample_trusted_time :: trusted_server_time where
  "sample_trusted_time = \<lparr>ts_server_time = 0, ts_observed_at = 5, ts_observed_wall = 9,
     ts_fresh_until = 600000000005\<rparr>"

lemma sample_bootstrap:
  "bootstrap sample_time_env [65] (HttpResponse 200 (Some sample_response)) 5 9 Unverified
     = (Inr sample_response, Granted sample_response 3600000000005 sample_trusted_time)"
  by (simp add: bootstrap_def bootstrap_result_def sample_time_env_def sample_response_def
      granted_bootstrap_validity_def instant_checked_add_def trusted_time_new_at_def
      sample_trusted_time_def trusted_time_max_age_def nanos_def trim_def trim_end_def trim_start_def
      is_whitespace_def)

lemma sample_reaches:
  "access_reaches sample_time_env (Granted sample_response 3600000000005 sample_trusted_time)"
  using access_bootstrap [OF access_start, of sample_time_env "[65]"
      "HttpResponse 200 (Some sample_response)" 5 9]
  by (simp add: sample_bootstrap)

lemma granted_state_is_justified_witness: "ts_fresh_until sample_trusted_time \<le> 3600000000005"
  using granted_state_is_justified [OF sample_reaches] by blast

lemma bootstrap_fails_closed_witness: "br_can_enter_client sample_response \<and> br_account_id sample_response = 7"
  using bootstrap_fails_closed [OF sample_bootstrap, of 7 100]
  by (auto simp: guard_require_def require_state_def sample_response_def)

lemma trusted_clock_bounds_witness: "(100 :: int) < int trusted_time_max_age"
  using trusted_clock_bounds [OF sample_reaches, of 105 109 100]
  by (simp add: trusted_server_now_def current_time_at_def sample_trusted_time_def sample_time_env_def
      trusted_time_max_wall_drift_def nanos_def Let_def)

end
