(* ===== verification/Turn_Submission.thy ===== *)
theory Turn_Submission
  imports Model_Routing Credential_Lease Client_Access
begin

text \<open>
  \<open>turn_submission.rs\<close>: the state machine of one product-agent turn. The submit function of
  the caller acts on a world of its own and may, like any concurrent writer, change the database
  before the route is recorded.
\<close>

record bound_turn =
  bt_owner :: int
  bt_turn_id :: rstr
  bt_leased :: leased_route

record active_turn =
  at_sampler_config :: sampler_config
  at_turn_route :: turn_record

datatype product_turn = Prepared "bound_turn option" | Active active_turn

type_synonym ('w, 't) submit_fn =
  "sampler_config \<Rightarrow> 'w \<times> state_db \<Rightarrow> (host_error + 't) \<times> 'w \<times> state_db"

definition coordinator_prepare ::
  "'v vault_ops \<Rightarrow> host_env \<Rightarrow> int \<Rightarrow> rstr \<Rightarrow> rstr \<Rightarrow> rstr \<Rightarrow> 'v \<times> state_db \<Rightarrow> host_error + bound_turn" where
  "coordinator_prepare V h owner session_id role turn_id st =
     and_then (lease_resolve V h owner session_id role st) (\<lambda>leased.
     Inr \<lparr>bt_owner = owner, bt_turn_id = turn_id, bt_leased = leased\<rparr>)"

definition bound_submit ::
  "rstr \<Rightarrow> rstr \<Rightarrow> ('w, 't) submit_fn \<Rightarrow> bound_turn \<Rightarrow> 'w \<times> state_db
     \<Rightarrow> (host_error + 't \<times> active_turn) \<times> 'w \<times> state_db" where
  "bound_submit uuid now submit b st =
    (let (w, db) = st; config = lr_sampler_config (bt_leased b); binding = lr_binding (bt_leased b) in
     case validate_submission (bt_owner b) (bt_turn_id b) binding db of
       Inl e \<Rightarrow> (Inl e, w, db)
     | Inr _ \<Rightarrow>
     case submit config (w, db) of
       (Inl e, w1, db1) \<Rightarrow> (Inl (Context ''submit bound turn to Sampling actor'' e), w1, db1)
     | (Inr accepted, w1, db1) \<Rightarrow>
     case record_submitted uuid now (bt_owner b) (bt_turn_id b) binding db1 of
       (Inl e, db2) \<Rightarrow> (Inl (Context ''record accepted bound turn route'' e), w1, db2)
     | (Inr record, db2) \<Rightarrow>
         (Inr (accepted, \<lparr>at_sampler_config = config, at_turn_route = record\<rparr>), w1, db2))"

definition submit_again ::
  "('w, 't) submit_fn \<Rightarrow> active_turn \<Rightarrow> 'w \<times> state_db \<Rightarrow> (host_error + 't) \<times> 'w \<times> state_db" where
  "submit_again submit a st =
    (let (r, st') = submit (at_sampler_config a) st
     in (with_context ''resubmit active bound turn'' r, st'))"

definition sampler_config_snapshot :: "product_turn \<Rightarrow> host_error + sampler_config" where
  "sampler_config_snapshot t =
    (case t of
       Prepared (Some b) \<Rightarrow> Inr (lr_sampler_config (bt_leased b))
     | Prepared None \<Rightarrow> Inl (Bail ''bound turn submission is unavailable'')
     | Active a \<Rightarrow> Inr (at_sampler_config a))"

definition product_submit ::
  "rstr \<Rightarrow> rstr \<Rightarrow> ('w, 't) submit_fn \<Rightarrow> product_turn \<Rightarrow> 'w \<times> state_db
     \<Rightarrow> (host_error + 't) \<times> product_turn \<times> 'w \<times> state_db" where
  "product_submit uuid now submit t st =
    (case t of
       Prepared None \<Rightarrow> (Inl (Bail ''bound turn submission is unavailable''), Prepared None, st)
     | Prepared (Some b) \<Rightarrow>
         (case bound_submit uuid now submit b st of
            (Inl e, st') \<Rightarrow> (Inl e, Prepared None, st')
          | (Inr (receipt, active), st') \<Rightarrow> (Inr receipt, Active active, st'))
     | Active a \<Rightarrow>
         (let (r, st') = submit_again submit a st in (r, Active a, st')))"

section \<open>The session route context\<close>

record route_context =
  rc_owner :: int
  rc_agent_id :: rstr
  rc_default_role :: rstr

definition route_context_new :: "int \<Rightarrow> rstr \<Rightarrow> route_context" where
  "route_context_new owner agent_id =
     \<lparr>rc_owner = owner, rc_agent_id = agent_id, rc_default_role = lit ''main''\<rparr>"

definition delegate_for_role :: "route_context \<Rightarrow> rstr \<Rightarrow> route_context" where
  "delegate_for_role ctx role = ctx\<lparr>rc_default_role := role\<rparr>"

text \<open>
  \<open>prepare_turn_for_role\<close>: the gate at the instant \<open>t\<close>, then the binding, then the lease;
  a binding made on the way stays when the lease fails.
\<close>

definition prepare_turn_for_role ::
  "'v vault_ops \<Rightarrow> host_env \<Rightarrow> provider_catalog \<Rightarrow> catalog_state \<Rightarrow> rstr \<Rightarrow> rstr \<Rightarrow> access_state \<Rightarrow> nat
     \<Rightarrow> route_context \<Rightarrow> rstr \<Rightarrow> rstr \<Rightarrow> rstr \<Rightarrow> 'v \<times> state_db
     \<Rightarrow> (host_error + product_turn) \<times> 'v \<times> state_db" where
  "prepare_turn_for_role V h catalog cs uuid now access t ctx session_id role turn_id st =
    (let (v, db) = st in
     case guard_require (rc_owner ctx) access t of
       Inl _ \<Rightarrow> (Inl (Bail ''AgentMesh360 subscription access is unavailable''), v, db)
     | Inr _ \<Rightarrow>
     case ensure_product_binding h catalog cs uuid now (rc_owner ctx) session_id (rc_agent_id ctx) role db of
       (Inl e, db1) \<Rightarrow> (Inl e, v, db1)
     | (Inr _, db1) \<Rightarrow>
         (map_ok (\<lambda>b. Prepared (Some b))
            (coordinator_prepare V h (rc_owner ctx) session_id role turn_id (v, db1)), v, db1))"

definition prepare_turn ::
  "'v vault_ops \<Rightarrow> host_env \<Rightarrow> provider_catalog \<Rightarrow> catalog_state \<Rightarrow> rstr \<Rightarrow> rstr \<Rightarrow> access_state \<Rightarrow> nat
     \<Rightarrow> route_context \<Rightarrow> rstr \<Rightarrow> rstr \<Rightarrow> 'v \<times> state_db
     \<Rightarrow> (host_error + product_turn) \<times> 'v \<times> state_db" where
  "prepare_turn V h catalog cs uuid now access t ctx session_id turn_id st =
     prepare_turn_for_role V h catalog cs uuid now access t ctx session_id (rc_default_role ctx) turn_id st"

section \<open>The life of a turn\<close>

text \<open>
  The outcome of one submission of a prepared turn: it ends before the submit function is called, or the
  submit function refuses, or it accepts and the record fails, or all goes well.
\<close>

lemma bound_submit_cases:
  assumes "bound_submit uuid now submit b (w, db) = (res, w', db')"
  obtains (refused) e where "res = Inl e" "w' = w" "db' = db"
      "validate_submission (bt_owner b) (bt_turn_id b) (lr_binding (bt_leased b)) db = Inl e"
  | (rejected) e where "res = Inl (Context ''submit bound turn to Sampling actor'' e)"
      "submit (lr_sampler_config (bt_leased b)) (w, db) = (Inl e, w', db')"
  | (unrecorded) e receipt where "res = Inl (Context ''record accepted bound turn route'' e)"
      "submit (lr_sampler_config (bt_leased b)) (w, db) = (Inr receipt, w', db')"
  | (accepted) receipt db1 r where
      "submit (lr_sampler_config (bt_leased b)) (w, db) = (Inr receipt, w', db1)"
      "record_submitted uuid now (bt_owner b) (bt_turn_id b) (lr_binding (bt_leased b)) db1 = (Inr r, db')"
      "res = Inr (receipt, \<lparr>at_sampler_config = lr_sampler_config (bt_leased b), at_turn_route = r\<rparr>)"
proof (cases "validate_submission (bt_owner b) (bt_turn_id b) (lr_binding (bt_leased b)) db")
  case (Inl e)
  with assms show ?thesis by (intro refused [of e]) (auto simp: bound_submit_def)
next
  case val: (Inr u)
  obtain sr w1 db1 where s: "submit (lr_sampler_config (bt_leased b)) (w, db) = (sr, w1, db1)"
    using prod_cases3 by blast
  show ?thesis
  proof (cases sr)
    case (Inl e)
    with assms val s show ?thesis by (intro rejected [of e]) (auto simp: bound_submit_def)
  next
    case (Inr receipt)
    obtain rr db2 where r: "record_submitted uuid now (bt_owner b) (bt_turn_id b) (lr_binding (bt_leased b)) db1 = (rr, db2)"
      by fastforce
    show ?thesis
    proof (cases rr)
      case (Inl e)
      have "db2 = db1" using r Inl by (cases rule: record_cases) auto
      with assms val s \<open>sr = Inr receipt\<close> r Inl show ?thesis
        by (intro unrecorded [of e receipt]) (auto simp: bound_submit_def)
    next
      case (Inr rec)
      with assms val s \<open>sr = Inr receipt\<close> r show ?thesis
        by (intro accepted [of receipt db1 rec]) (auto simp: bound_submit_def)
    qed
  qed
qed

text \<open>C7: the route of a turn is recorded after the sampling actor has accepted it and never otherwise. When a
  prepared turn succeeds, the actor was given exactly the leased configuration and accepted, the record
  that stands for the turn names the leased binding, and the turn is active with this configuration. On
  every failure the turn is spent and the database is the one before, or as the actor left it.\<close>

theorem submission_is_recorded_after_acceptance:
  assumes "product_submit uuid now submit (Prepared (Some b)) (w, db) = (res, t', w', db')"
    and "config = lr_sampler_config (bt_leased b)" "binding = lr_binding (bt_leased b)"
  shows "(\<forall>receipt. res = Inr receipt \<longrightarrow> (\<exists>a db1. submit config (w, db) = (Inr receipt, w', db1)
        \<and> t' = Active a \<and> at_sampler_config a = config
        \<and> tn_binding_revision (at_turn_route a) = sp_revision binding
        \<and> tn_binding_snapshot_hash (at_turn_route a) = sp_snapshot_hash binding
        \<and> list_ex (persisted_binding (bt_owner b) binding) (session_bindings db1)
        \<and> (db' = db1 \<or> (\<exists>row. db' = db1\<lparr>turn_routes := turn_routes db1 @ [row]\<rparr>))))
    \<and> (\<not> is_ok res \<longrightarrow> t' = Prepared None \<and> ((w', db') = (w, db) \<or> (w', db') = snd (submit config (w, db))))"
proof -
  obtain r0 w0 db0 where b: "bound_submit uuid now submit b (w, db) = (r0, w0, db0)"
    using prod_cases3 by blast
  then show ?thesis
  proof (cases rule: bound_submit_cases)
    case (accepted receipt db1 r)
    from accepted(2) have "tn_binding_revision r = sp_revision binding
        \<and> tn_binding_snapshot_hash r = sp_snapshot_hash binding
        \<and> list_ex (persisted_binding (bt_owner b) binding) (session_bindings db1)
        \<and> (db0 = db1 \<or> (\<exists>row. db0 = db1\<lparr>turn_routes := turn_routes db1 @ [row]\<rparr>))"
      by (cases rule: record_cases) (auto simp: assms(3) split: if_splits)
    with assms b accepted show ?thesis by (auto simp: product_submit_def)
  qed (use assms b in \<open>auto simp: product_submit_def\<close>)
qed

text \<open>Submitting one turn again and again, with whatever submit functions.\<close>

fun submit_run :: "(rstr \<times> rstr \<times> ('w, 't) submit_fn) list \<Rightarrow> product_turn \<Rightarrow> 'w \<times> state_db \<Rightarrow> product_turn \<times> 'w \<times> state_db" where
  "submit_run [] t st = (t, st)"
| "submit_run ((uuid, now, submit) # calls) t st =
     (let (_, t', st') = product_submit uuid now submit t st in submit_run calls t' st')"

definition keeps_turns :: "('w, 't) submit_fn \<Rightarrow> bool" where
  "keeps_turns submit \<longleftrightarrow> (\<forall>config st. turn_routes (snd (snd (submit config st))) = turn_routes (snd st))"

lemma keeps_turnsD: "keeps_turns submit \<Longrightarrow> submit config (w, db) = (r, w', db') \<Longrightarrow> turn_routes db' = turn_routes db"
  by (metis keeps_turns_def snd_conv)

lemma active_run:
  assumes "list_all (\<lambda>(_, _, submit). keeps_turns submit) calls" "submit_run calls (Active a) st = (t', st')"
  shows "t' = Active a \<and> turn_routes (snd st') = turn_routes (snd st)"
  using assms
proof (induction calls arbitrary: st)
  case (Cons c calls)
  obtain uuid now submit where c: "c = (uuid, now, submit)" by (cases c)
  obtain r w1 db1 where s: "submit (at_sampler_config a) st = (r, w1, db1)" using prod_cases3 by blast
  have "turn_routes db1 = turn_routes (snd st)"
    using Cons.prems(1) c s by (cases st) (auto dest: keeps_turnsD)
  with Cons c s show ?case by (auto simp: product_submit_def submit_again_def)
qed simp

lemma spent_run: "submit_run calls (Prepared None) st = (Prepared None, st)"
  by (induction calls) (auto simp: product_submit_def)

text \<open>however often a prepared turn is submitted, at most one route is recorded for it, and from the
  first acceptance on every submission uses the leased configuration; a turn whose first submission
  fails is spent, and nothing can be recorded for it any more.\<close>

theorem turn_is_recorded_at_most_once:
  assumes "list_all (\<lambda>(_, _, submit). keeps_turns submit) calls"
    and "submit_run calls (Prepared (Some b)) (w, db) = (t', w', db')" "calls \<noteq> []"
  shows "(\<exists>rows. turn_routes db' = turn_routes db @ rows \<and> length rows \<le> 1 \<and> (t' = Prepared None \<longrightarrow> rows = []))
    \<and> (\<forall>a. t' = Active a \<longrightarrow> at_sampler_config a = lr_sampler_config (bt_leased b))
    \<and> t' \<noteq> Prepared (Some b)"
proof -
  obtain uuid now submit rest where c: "calls = (uuid, now, submit) # rest"
    using assms(3) by (cases calls) auto
  have k: "keeps_turns submit" "list_all (\<lambda>(_, _, submit). keeps_turns submit) rest"
    using assms(1) c by simp_all
  obtain r0 w0 db0 where b: "bound_submit uuid now submit b (w, db) = (r0, w0, db0)"
    using prod_cases3 by blast
  note run = assms(2) [unfolded c]
  from b show ?thesis
  proof (cases rule: bound_submit_cases)
    case (accepted receipt db1 r)
    let ?a = "\<lparr>at_sampler_config = lr_sampler_config (bt_leased b), at_turn_route = r\<rparr>"
    have "submit_run rest (Active ?a) (w0, db0) = (t', w', db')"
      using run b accepted by (simp add: product_submit_def)
    from active_run [OF k(2) this] have t: "t' = Active ?a" "turn_routes db' = turn_routes db0" by simp_all
    from accepted(2) have "\<exists>rows. turn_routes db0 = turn_routes db1 @ rows \<and> length rows \<le> 1"
      by (cases rule: record_cases) (auto split: if_splits)
    with t keeps_turnsD [OF k(1) accepted(1)] show ?thesis by auto
  next
    case (refused e)
    then have "submit_run rest (Prepared None) (w0, db0) = (t', w', db')"
      using run b by (simp add: product_submit_def)
    with refused show ?thesis by (auto simp: spent_run)
  next
    case (rejected e)
    then have "submit_run rest (Prepared None) (w0, db0) = (t', w', db')"
      using run b by (simp add: product_submit_def)
    with keeps_turnsD [OF k(1) rejected(2)] show ?thesis by (auto simp: spent_run)
  next
    case (unrecorded e receipt)
    then have "submit_run rest (Prepared None) (w0, db0) = (t', w', db')"
      using run b by (simp add: product_submit_def)
    with keeps_turnsD [OF k(1) unrecorded(2)] show ?thesis by (auto simp: spent_run)
  qed
qed

section \<open>A concrete turn\<close>

text \<open>A submit function that logs the models it is asked for.\<close>

definition log_submit :: "(rstr list, nat) submit_fn" where
  "log_submit config st = (Inr (length (fst st)), fst st @ [sc_model config], snd st)"

definition sample_bound :: bound_turn where
  "sample_bound = \<lparr>bt_owner = 7, bt_turn_id = [116], bt_leased =
     \<lparr>lr_binding = sample_binding, lr_sampler_config = config_of_route sample_route\<rparr>\<rparr>"

lemma sample_bound_submit:
  "product_submit [120] [48] log_submit (Prepared (Some sample_bound)) ([], sample_binding_db)
   = (Inr 0, Active \<lparr>at_sampler_config = config_of_route sample_route,
                 at_turn_route = turn_of (turn_row_of [120] [48] 7 [116] sample_binding) OpenaiChat\<rparr>,
      [[109]], sample_binding_db\<lparr>turn_routes := [turn_row_of [120] [48] 7 [116] sample_binding]\<rparr>)"
proof -
  have "validate_submission 7 [116] sample_binding sample_binding_db = Inr ()"
    by (simp add: validate_submission_def turn_normalize_id_def trim_def trim_start_def trim_end_def
        is_whitespace_def str_len_def str_bytes_def utf8_encode_def is_control_def sample_binding_def
        query_turn_def sample_binding_db_def empty_db_def)
  then show ?thesis
    by (simp add: product_submit_def bound_submit_def sample_bound_def log_submit_def sample_turn_recorded)
      (simp add: sample_route_def)
qed

lemma submission_is_recorded_after_acceptance_witness:
  "\<exists>a. fst (snd (product_submit [120] [48] log_submit (Prepared (Some sample_bound)) ([], sample_binding_db))) = Active a
     \<and> tn_binding_revision (at_turn_route a) = 1"
  using submission_is_recorded_after_acceptance [OF sample_bound_submit refl refl]
  by (simp add: sample_bound_submit turn_of_def sample_binding_def)

lemma turn_is_recorded_at_most_once_witness:
  "\<exists>t w' db'. submit_run [([120], [48], log_submit), ([121], [49], log_submit)] (Prepared (Some sample_bound))
     ([], sample_binding_db) = (t, w', db') \<and> length (turn_routes db') \<le> 1"
proof -
  have "keeps_turns log_submit" by (simp add: keeps_turns_def log_submit_def)
  obtain t w' db' where r: "submit_run [([120], [48], log_submit), ([121], [49], log_submit)]
     (Prepared (Some sample_bound)) ([], sample_binding_db) = (t, w', db')" using prod_cases3 by blast
  from turn_is_recorded_at_most_once [OF _ r] \<open>keeps_turns log_submit\<close> r
  have "length (turn_routes db') \<le> 1" by (auto simp: sample_binding_db_def empty_db_def)
  with r show ?thesis by blast
qed

end
