(* ===== verification/Agent_Overlays.thy ===== *)
theory Agent_Overlays
  imports Agent_Registry
begin

text \<open>
  \<open>agent_overlays.rs\<close>: the user's customizations of an agent, guarded by an expected
  revision, and their application to the definition of the agent.
\<close>

datatype overlay_kind = AgentMd | UserMd

fun overlay_kind_as_str :: "overlay_kind \<Rightarrow> string" where
  "overlay_kind_as_str AgentMd = ''agent_md''"
| "overlay_kind_as_str UserMd = ''user_md''"

fun overlay_heading :: "overlay_kind \<Rightarrow> string" where
  "overlay_heading AgentMd = ''User-defined behavior overlay (agent.md)''"
| "overlay_heading UserMd = ''User preferences for this Agent (user.md)''"

record overlay_record =
  ol_kind :: overlay_kind
  ol_content :: rstr
  ol_revision :: nat
  ol_customized :: bool
  ol_updated_at :: "rstr option"

definition empty_overlay :: "overlay_kind \<Rightarrow> overlay_record" where
  "empty_overlay kind = \<lparr>ol_kind = kind, ol_content = [], ol_revision = 0, ol_customized = False,
     ol_updated_at = None\<rparr>"

section \<open>Content\<close>

definition max_overlay_characters :: nat where
  "max_overlay_characters = 8000"

text \<open>\<open>replace\<close> of carriage return and line feed by line feed.\<close>

fun replace_crlf :: "rstr \<Rightarrow> rstr" where
  "replace_crlf [] = []"
| "replace_crlf [c] = [c]"
| "replace_crlf (c # d # s) =
     (if c = 13 \<and> d = 10 then 10 # replace_crlf s else c # replace_crlf (d # s))"

definition trim_matches :: "(nat \<Rightarrow> bool) \<Rightarrow> rstr \<Rightarrow> rstr" where
  "trim_matches p s = rev (dropWhile p (rev (dropWhile p s)))"

text \<open>The quotes and brackets around a token: double and single quote, backquote, comma,
  semicolon, round and square brackets.\<close>

definition token_punctuation :: "nat \<Rightarrow> bool" where
  "token_punctuation c \<longleftrightarrow> c \<in> {34, 39, 96, 44, 59, 40, 41, 91, 93}"

definition secret_token :: "rstr \<Rightarrow> bool" where
  "secret_token token =
    (let token = to_ascii_lowercase (trim_matches token_punctuation token) in
     str_len token \<ge> 20
     \<and> (starts_with token (lit ''sk-'') \<or> starts_with token (lit ''xai-'')
        \<or> starts_with token (lit ''aiza'') \<or> starts_with token (lit ''ghp_'')
        \<or> starts_with token (lit ''github_pat_'')))"

definition contains_obvious_secret :: "rstr \<Rightarrow> bool" where
  "contains_obvious_secret value =
    (let lower = to_ascii_lowercase value in
     str_contains lower (lit ''-----begin private key-----'')
     \<or> str_contains lower (lit ''-----begin rsa private key-----'')
     \<or> str_contains lower (lit ''-----begin ec private key-----'')
     \<or> str_contains lower (lit ''authorization: bearer '')
     \<or> list_ex secret_token (split_whitespace value))"

definition normalize_content :: "rstr \<Rightarrow> host_error + rstr" where
  "normalize_content value =
    (let value = replace_crlf value in
     if length value > max_overlay_characters then
       Inl (Bail ''agent customization exceeds 8000 characters'')
     else if list_ex (\<lambda>c. is_control c \<and> c \<noteq> 10 \<and> c \<noteq> 9) value then
       Inl (Bail ''agent customization contains unsupported control characters'')
     else if contains_obvious_secret value then
       Inl (Bail ''agent customization appears to contain a secret; remove credentials before saving'')
     else Inr (trim value))"

definition overlay_agent_byte :: "nat \<Rightarrow> bool" where
  "overlay_agent_byte b \<longleftrightarrow> is_ascii_lowercase b \<or> is_ascii_digit b \<or> b = 45"

definition validate_identity :: "int \<Rightarrow> rstr \<Rightarrow> host_error + unit" where
  "validate_identity owner agent_id =
     and_then (bail_if (owner \<le> 0) (Bail ''owner account id must be positive'')) (\<lambda>_.
     bail_if (str_len agent_id < 3 \<or> str_len agent_id > 100
         \<or> \<not> list_all overlay_agent_byte (str_bytes agent_id))
       (Bail ''agent id is invalid''))"

section \<open>The store\<close>

definition overlay_key :: "int \<Rightarrow> rstr \<Rightarrow> overlay_kind \<Rightarrow> overlay_row \<Rightarrow> bool" where
  "overlay_key owner agent_id kind r \<longleftrightarrow> ov_owner r = owner \<and> ov_agent_id r = agent_id
     \<and> ov_kind r = lit (overlay_kind_as_str kind)"

definition overlay_get :: "int \<Rightarrow> rstr \<Rightarrow> overlay_kind \<Rightarrow> state_db \<Rightarrow> host_error + overlay_record" where
  "overlay_get owner agent_id kind db =
     and_then (validate_identity owner agent_id) (\<lambda>_.
     case find (overlay_key owner agent_id kind) (agent_overlays db) of
       None \<Rightarrow> Inr (empty_overlay kind)
     | Some row \<Rightarrow>
         Inr \<lparr>ol_kind = kind, ol_content = ov_content row, ol_revision = ov_revision row,
              ol_customized = (ov_content row \<noteq> []), ol_updated_at = Some (ov_updated_at row)\<rparr>)"

definition current_overlay_revision :: "int \<Rightarrow> rstr \<Rightarrow> overlay_kind \<Rightarrow> state_db \<Rightarrow> nat" where
  "current_overlay_revision owner agent_id kind db =
    (case find (overlay_key owner agent_id kind) (agent_overlays db) of
       None \<Rightarrow> 0 | Some row \<Rightarrow> ov_revision row)"

text \<open>\<open>INSERT .. ON CONFLICT(owner_account_id, agent_id, overlay_kind) DO UPDATE\<close>.\<close>

definition overlay_write ::
  "int \<Rightarrow> rstr \<Rightarrow> overlay_kind \<Rightarrow> rstr \<Rightarrow> nat \<Rightarrow> rstr \<Rightarrow> overlay_row list \<Rightarrow> overlay_row list" where
  "overlay_write owner agent_id kind content revision now rows =
    (if list_ex (overlay_key owner agent_id kind) rows then
       update_where (overlay_key owner agent_id kind)
         (\<lambda>r. r\<lparr>ov_content := content, ov_revision := revision, ov_updated_at := now\<rparr>) rows
     else rows @ [\<lparr>ov_owner = owner, ov_agent_id = agent_id,
         ov_kind = lit (overlay_kind_as_str kind), ov_content = content, ov_revision = revision,
         ov_updated_at = now\<rparr>])"

definition overlay_upsert ::
  "catalog_state \<Rightarrow> rstr \<Rightarrow> int \<Rightarrow> rstr \<Rightarrow> overlay_kind \<Rightarrow> rstr \<Rightarrow> nat \<Rightarrow> state_db
     \<Rightarrow> (host_error + overlay_record) \<times> state_db" where
  "overlay_upsert cs now owner agent_id kind content expected_revision db =
    (case validate_identity owner agent_id of
       Inl e \<Rightarrow> (Inl e, db)
     | Inr _ \<Rightarrow>
     case agents_get cs now owner agent_id db of
       (Inl e, db1) \<Rightarrow> (Inl e, db1)
     | (Inr _, db1) \<Rightarrow>
     case normalize_content content of
       Inl e \<Rightarrow> (Inl e, db1)
     | Inr content \<Rightarrow>
     let current = current_overlay_revision owner agent_id kind db1 in
     if current \<noteq> expected_revision then
       (Inl (Bail ''agent customization revision conflict; reload before saving''), db1)
     else
     case to_sql_u64 (saturating_add_u64 current 1) of
       Inl e \<Rightarrow> (Inl e, db1)
     | Inr revision \<Rightarrow>
         (Inr \<lparr>ol_kind = kind, ol_content = content, ol_revision = revision,
               ol_customized = (content \<noteq> []), ol_updated_at = Some now\<rparr>,
          db1\<lparr>agent_overlays :=
            overlay_write owner agent_id kind content revision now (agent_overlays db1)\<rparr>))"

definition overlay_clear ::
  "catalog_state \<Rightarrow> rstr \<Rightarrow> int \<Rightarrow> rstr \<Rightarrow> overlay_kind \<Rightarrow> nat \<Rightarrow> state_db
     \<Rightarrow> (host_error + overlay_record) \<times> state_db" where
  "overlay_clear cs now owner agent_id kind expected_revision db =
     overlay_upsert cs now owner agent_id kind [] expected_revision db"

record customization_snapshot =
  cu_agent_id :: rstr
  cu_package_name :: rstr
  cu_package_version :: rstr
  cu_package_description :: rstr
  cu_agent_md :: overlay_record
  cu_user_md :: overlay_record

definition overlay_snapshot ::
  "catalog_state \<Rightarrow> rstr \<Rightarrow> int \<Rightarrow> rstr \<Rightarrow> state_db \<Rightarrow> (host_error + customization_snapshot) \<times> state_db" where
  "overlay_snapshot cs now owner agent_id db =
    (case agents_get cs now owner agent_id db of
       (Inl e, db1) \<Rightarrow> (Inl e, db1)
     | (Inr agent, db1) \<Rightarrow>
         (and_then (overlay_get owner agent_id AgentMd db1) (\<lambda>agent_md.
          and_then (overlay_get owner agent_id UserMd db1) (\<lambda>user_md.
          Inr \<lparr>cu_agent_id = ag_agent_id agent, cu_package_name = ag_display_name agent,
               cu_package_version = ag_version agent,
               cu_package_description = ag_description agent,
               cu_agent_md = agent_md, cu_user_md = user_md\<rparr>)), db1))"

section \<open>Application\<close>

text \<open>
  The part of \<open>AgentDefinition\<close> the overlays touch; the other fields are the \<open>more\<close> part of
  the record.
\<close>

record agent_definition =
  ad_prompt_body :: "rstr option"

definition push_overlay :: "overlay_record \<Rightarrow> rstr \<Rightarrow> rstr" where
  "push_overlay overlay prompt =
    (if ol_content overlay = [] then prompt
     else prompt @ [10, 10, 35, 35, 32] @ lit (overlay_heading (ol_kind overlay)) @ [10]
          @ ol_content overlay)"

definition apply_to_definition ::
  "int \<Rightarrow> rstr \<Rightarrow> 'a agent_definition_scheme \<Rightarrow> state_db
     \<Rightarrow> host_error + 'a agent_definition_scheme \<times> nat \<times> nat" where
  "apply_to_definition owner agent_id def' db =
     and_then (overlay_get owner agent_id AgentMd db) (\<lambda>agent_md.
     and_then (overlay_get owner agent_id UserMd db) (\<lambda>user_md.
     let prompt = (case ad_prompt_body def' of None \<Rightarrow> [] | Some p \<Rightarrow> p);
         prompt = push_overlay user_md (push_overlay agent_md prompt) in
     Inr (def'\<lparr>ad_prompt_body := (if prompt = [] then None else Some prompt)\<rparr>,
          ol_revision agent_md, ol_revision user_md)))"

section \<open>Normalised content\<close>

lemma replace_crlf_id: "13 \<notin> set s \<Longrightarrow> replace_crlf s = s"
  by (induction s rule: replace_crlf.induct) auto

lemma starts_with_Cons [simp]: "starts_with (c # s) (d # p) \<longleftrightarrow> c = d \<and> starts_with s p"
  by (auto simp: starts_with_def)

lemma str_contains_append2: "str_contains s p \<Longrightarrow> str_contains (t @ s) p"
  by (induction t) auto

lemma starts_with_more: "starts_with s p \<Longrightarrow> starts_with (s @ t) p"
proof -
  assume "starts_with s p"
  then have "s = p @ drop (length p) s" by (metis append_take_drop_id starts_with_def)
  then show ?thesis by (metis append_assoc starts_with_append)
qed

lemma str_contains_append1: "str_contains s p \<Longrightarrow> str_contains (s @ t) p"
proof (induction s)
  case Nil
  then have "p = []" by simp
  then show ?case by (cases t) (simp_all add: starts_with_def)
next
  case (Cons c s)
  then show ?case using starts_with_more [of "c # s" p t] by auto
qed

lemma trim_split: obtains a b where "s = a @ trim s @ b" "list_all is_whitespace a" "list_all is_whitespace b"
proof -
  let ?m = "dropWhile is_whitespace s"
  have "s = takeWhile is_whitespace s @ trim s @ rev (takeWhile is_whitespace (rev ?m))"
    by (simp add: trim_def trim_start_def trim_end_def rev_append [symmetric] del: rev_append)
  then show thesis
    by (rule that) (auto simp: list_all_iff dest: set_takeWhileD)
qed

declare trim_trim [simp]

lemma to_ascii_lowercase_append [simp]: "to_ascii_lowercase (s @ t) = to_ascii_lowercase s @ to_ascii_lowercase t"
  by (simp add: to_ascii_lowercase_def)

lemma split_whitespace_from_blank:
  "list_all is_whitespace b \<Longrightarrow> split_whitespace_from token b = (if token = [] then [] else [rev token])"
  by (induction b arbitrary: token) auto

lemma split_whitespace_from_end:
  "list_all is_whitespace b \<Longrightarrow> split_whitespace_from token (s @ b) = split_whitespace_from token s"
  by (induction s arbitrary: token) (auto simp: split_whitespace_from_blank)

lemma split_whitespace_from_start:
  "list_all is_whitespace a \<Longrightarrow> split_whitespace_from [] (a @ s) = split_whitespace_from [] s"
  by (induction a) auto

lemma split_whitespace_trim: "split_whitespace (trim s) = split_whitespace s"
proof -
  obtain a b where "s = a @ trim s @ b" "list_all is_whitespace a" "list_all is_whitespace b"
    by (rule trim_split)
  then show ?thesis
    unfolding split_whitespace_def by (metis split_whitespace_from_end split_whitespace_from_start)
qed

lemma contains_obvious_secret_trim:
  assumes "contains_obvious_secret (trim s)"
  shows "contains_obvious_secret s"
proof -
  obtain a b where s: "s = a @ trim s @ b" by (rule trim_split)
  have "str_contains (to_ascii_lowercase (trim s)) p \<Longrightarrow> str_contains (to_ascii_lowercase s) p" for p
    by (subst s) (simp add: str_contains_append1 str_contains_append2)
  with assms show ?thesis
    unfolding contains_obvious_secret_def Let_def split_whitespace_trim by blast
qed

lemma normalize_content_ok:
  assumes "normalize_content v = Inr c"
  shows "length c \<le> 8000" "trim c = c" "list_all (\<lambda>x. is_control x \<longrightarrow> x = 10 \<or> x = 9) c"
    "\<not> contains_obvious_secret c" "normalize_content c = Inr c"
proof -
  let ?v = "replace_crlf v"
  from assms have v: "length ?v \<le> 8000" "\<not> list_ex (\<lambda>c. is_control c \<and> c \<noteq> 10 \<and> c \<noteq> 9) ?v"
    "\<not> contains_obvious_secret ?v" "c = trim ?v"
    by (auto simp: normalize_content_def max_overlay_characters_def Let_def split: if_splits)
  obtain a b where s: "?v = a @ c @ b" using trim_split [of ?v] v(4) by metis
  show l: "length c \<le> 8000" using v(1) s by simp
  show t: "trim c = c" using v(4) by simp
  show k: "list_all (\<lambda>x. is_control x \<longrightarrow> x = 10 \<or> x = 9) c"
    using v(2) unfolding s by (auto simp: list_all_iff list_ex_iff)
  show n: "\<not> contains_obvious_secret c" using v(3,4) contains_obvious_secret_trim by blast
  have "13 \<notin> set c" using k by (auto simp: list_all_iff is_control_def)
  then have "replace_crlf c = c" by (rule replace_crlf_id)
  moreover have "\<not> list_ex (\<lambda>c. is_control c \<and> c \<noteq> 10 \<and> c \<noteq> 9) c"
    using k by (auto simp: list_all_iff list_ex_iff)
  ultimately show "normalize_content c = Inr c"
    using l t n by (simp add: normalize_content_def max_overlay_characters_def)
qed

section \<open>The table of overlays\<close>

definition overlays_ok :: "state_db \<Rightarrow> bool" where
  "overlays_ok db \<longleftrightarrow> unique_on (\<lambda>r. (ov_owner r, ov_agent_id r, ov_kind r)) (agent_overlays db)
     \<and> (\<forall>r \<in> set (agent_overlays db). 0 < ov_owner r \<and> 1 \<le> ov_revision r \<and> ov_revision r \<le> sql_int_max
          \<and> normalize_content (ov_content r) = Inr (ov_content r))"

lemma overlay_kind_as_str_inject [simp]: "overlay_kind_as_str k = overlay_kind_as_str k' \<longleftrightarrow> k = k'"
  by (cases k; cases k') auto

lemma agents_get_frame:
  assumes "agents_get cs now owner agent_id db = (res, db')"
  shows "db' = db\<lparr>product_agents := product_agents db'\<rparr>"
  using assms by (cases rule: agents_get_cases)
    (auto simp: seed_builtins_def split: sum.splits)

lemma overlay_upsert_cases:
  assumes "overlay_upsert cs now owner agent_id kind content expected db = (res, db')"
  obtains (failed) e where "res = Inl e" "agent_overlays db' = agent_overlays db"
      "\<exists>r db1. agents_get cs now owner agent_id db = (r, db1) \<and> db' = db1 \<or> db' = db"
  | (saved) a db1 c where "validate_identity owner agent_id = Inr ()"
      "agents_get cs now owner agent_id db = (Inr a, db1)" "normalize_content content = Inr c"
      "current_overlay_revision owner agent_id kind db = expected" "expected + 1 \<le> sql_int_max"
      "res = Inr \<lparr>ol_kind = kind, ol_content = c, ol_revision = expected + 1,
               ol_customized = (c \<noteq> []), ol_updated_at = Some now\<rparr>"
      "db' = db1\<lparr>agent_overlays := overlay_write owner agent_id kind c (expected + 1) now (agent_overlays db)\<rparr>"
proof -
  obtain r db1 where g: "agents_get cs now owner agent_id db = (r, db1)" by fastforce
  have o: "agent_overlays db1 = agent_overlays db" using agents_get_frame [OF g] by (metis state_db.select_convs(2) state_db.surjective state_db.update_convs(1))
  then have cur: "current_overlay_revision owner agent_id kind db1 = current_overlay_revision owner agent_id kind db"
    by (simp add: current_overlay_revision_def)
  show thesis
  proof (cases res)
    case (Inl e)
    have "db' = db \<or> db' = db1"
      using assms Inl g by (auto simp: overlay_upsert_def Let_def split: sum.splits if_splits)
    then show thesis using o g Inl by (intro failed [of e]) auto
  next
    case (Inr x)
    let ?s = "saturating_add_u64 (current_overlay_revision owner agent_id kind db) 1"
    from assms Inr g obtain a c where
      w: "validate_identity owner agent_id = Inr ()" "r = Inr a" "normalize_content content = Inr c"
      "current_overlay_revision owner agent_id kind db = expected" "?s \<le> sql_int_max"
      "x = \<lparr>ol_kind = kind, ol_content = c, ol_revision = ?s, ol_customized = (c \<noteq> []), ol_updated_at = Some now\<rparr>"
      "db' = db1\<lparr>agent_overlays := overlay_write owner agent_id kind c ?s now (agent_overlays db)\<rparr>"
      by (auto simp: overlay_upsert_def Let_def cur o to_sql_u64_def split: sum.splits if_splits)
    have "?s = expected + 1"
      using w(4,5) by (simp add: saturating_add_u64_def u64_max_def sql_int_max_def split: if_splits)
    with w g Inr show thesis by (intro saved [of a db1 c]) auto
  qed
qed

lemma find_overlay_write:
  assumes "unique_on (\<lambda>r. (ov_owner r, ov_agent_id r, ov_kind r)) rows"
  shows "find (overlay_key o' a' k') (overlay_write owner agent_id kind c n now rows) =
    (if o' = owner \<and> a' = agent_id \<and> k' = kind
     then Some \<lparr>ov_owner = owner, ov_agent_id = agent_id, ov_kind = lit (overlay_kind_as_str kind),
         ov_content = c, ov_revision = n, ov_updated_at = now\<rparr>
     else find (overlay_key o' a' k') rows)"
proof (cases "find (overlay_key owner agent_id kind) rows")
  case None
  then show ?thesis
    by (auto simp: overlay_write_def list_ex_find find_append overlay_key_def split: option.splits)
next
  case (Some r)
  let ?w = "\<lambda>r. r\<lparr>ov_content := c, ov_revision := n, ov_updated_at := now\<rparr>"
  have "find (overlay_key o' a' k') (update_where (overlay_key owner agent_id kind) ?w rows) =
      (case find (overlay_key o' a' k') rows of None \<Rightarrow> None
       | Some r \<Rightarrow> Some (if overlay_key owner agent_id kind r then ?w r else r))"
    by (rule find_update_where) (simp add: overlay_key_def)
  moreover have "overlay_key owner agent_id kind r" using Some by (auto dest: find_SomeD)
  ultimately show ?thesis using Some
    by (cases r) (auto simp: overlay_write_def list_ex_find overlay_key_def split: option.splits
        dest!: find_SomeD)
qed

lemma overlays_ok_write:
  assumes "overlays_ok db" "0 < owner" "normalize_content c = Inr c" "1 \<le> n" "n \<le> sql_int_max"
    "agent_overlays db' = overlay_write owner agent_id kind c n now (agent_overlays db)"
  shows "overlays_ok db'"
proof (cases "list_ex (overlay_key owner agent_id kind) (agent_overlays db)")
  case True
  then show ?thesis using assms
    by (auto simp: overlays_ok_def overlay_write_def unique_on_update elim!: set_update_whereE)
next
  case False
  then show ?thesis using assms
    by (auto simp: overlays_ok_def overlay_write_def list_ex_iff overlay_key_def intro!: unique_on_append)
qed

lemma overlays_ok_upsert:
  assumes "overlays_ok db" "overlay_upsert cs now owner agent_id kind content expected db = (res, db')"
  shows "overlays_ok db'"
  using assms(2)
proof (cases rule: overlay_upsert_cases)
  case (failed e)
  then show ?thesis using assms(1) by (simp add: overlays_ok_def)
next
  case (saved a db1 c)
  have "0 < owner" using saved(1) by (simp add: validate_identity_def result_simps)
  then show ?thesis
    using overlays_ok_write [OF assms(1) _ normalize_content_ok(5) [OF saved(3)], of owner "expected + 1" db'] saved
    by simp
qed

section \<open>Properties\<close>

text \<open>customizations are saved under optimistic concurrency. A save succeeds only when the
  expected revision is the stored one; it stores the normalised content under the next revision,
  reads back exactly as answered and leaves every other customization, of any agent and account,
  alone. A failed save changes no customization.\<close>

theorem overlay_save_is_optimistic:
  assumes "overlays_ok db"
    and "overlay_upsert cs now owner agent_id kind content expected db = (res, db')"
  shows "case res of
      Inl _ \<Rightarrow> agent_overlays db' = agent_overlays db
    | Inr saved \<Rightarrow> current_overlay_revision owner agent_id kind db = expected
        \<and> ol_revision saved = expected + 1 \<and> normalize_content content = Inr (ol_content saved)
        \<and> overlay_get owner agent_id kind db' = Inr saved
        \<and> (\<forall>o' a' k'. (o', a', k') \<noteq> (owner, agent_id, kind) \<longrightarrow> overlay_get o' a' k' db' = overlay_get o' a' k' db)"
  using assms(2)
proof (cases rule: overlay_upsert_cases)
  case (saved a db1 c)
  have u: "unique_on (\<lambda>r. (ov_owner r, ov_agent_id r, ov_kind r)) (agent_overlays db)"
    using assms(1) by (simp add: overlays_ok_def)
  have "overlay_get o' a' k' db' = overlay_get o' a' k' db" if "(o', a', k') \<noteq> (owner, agent_id, kind)" for o' a' k'
    using that saved(7) by (auto simp: overlay_get_def find_overlay_write [OF u])
  moreover have "overlay_get owner agent_id kind db' = res"
    using saved by (simp add: overlay_get_def find_overlay_write [OF u])
  ultimately show ?thesis using saved by simp
qed simp

text \<open>no update is lost. When two editors start from the same revision and the first save
  succeeds, the second is refused, whatever it wants to write, and changes nothing.\<close>

theorem overlay_no_lost_update:
  assumes "overlays_ok db"
    and "overlay_upsert cs now owner agent_id kind content expected db = (Inr saved, db1)"
    and "overlay_upsert cs' now' owner agent_id kind content' expected db1 = (res, db2)"
  shows "\<not> is_ok res \<and> overlay_get owner agent_id kind db2 = Inr saved"
proof -
  have u: "unique_on (\<lambda>r. (ov_owner r, ov_agent_id r, ov_kind r)) (agent_overlays db)"
    using assms(1) by (simp add: overlays_ok_def)
  from assms(2) show ?thesis
  proof (cases rule: overlay_upsert_cases)
    case first: (saved a d c)
    then have "current_overlay_revision owner agent_id kind db1 = expected + 1"
      by (simp add: current_overlay_revision_def find_overlay_write [OF u])
    moreover have g: "overlay_get owner agent_id kind db1 = Inr saved"
      using first by (simp add: overlay_get_def find_overlay_write [OF u])
    from assms(3) show ?thesis
    proof (cases rule: overlay_upsert_cases)
      case (failed e)
      then have "overlay_get owner agent_id kind db2 = overlay_get owner agent_id kind db1"
        by (simp add: overlay_get_def)
      with g failed show ?thesis by simp
    qed (use calculation in auto)
  qed simp
qed

text \<open>what is saved as a customization is clean: at most 8000 characters, no surrounding white
  space, no control characters but line feed and tab, nothing that looks like a credential. Saving
  what was read back is accepted and changes nothing in it.\<close>

theorem saved_content_is_clean:
  assumes "normalize_content content = Inr c"
  shows "length c \<le> 8000 \<and> trim c = c \<and> (\<forall>x \<in> set c. is_control x \<longrightarrow> x = 10 \<or> x = 9)
    \<and> \<not> contains_obvious_secret c \<and> normalize_content c = Inr c"
  using normalize_content_ok [OF assms] by (simp add: list_all_iff)

section \<open>Applied to a concrete customization\<close>

definition sample_agents_db :: state_db where
  "sample_agents_db = empty_db\<lparr>product_agents :=
     [(inactive_core [48] 7 [97, 98, 99])\<lparr>ar_display_name := [110], ar_description := [100], ar_version := [49]\<rparr>]\<rparr>"

definition sample_abc_catalog :: catalog_state where
  "sample_abc_catalog = \<lparr>cs_live = Some \<lparr>cat_schema_version = 1, cat_catalog_revision = 1,
     cat_packages = [sample_manifest\<lparr>pm_agent := \<lparr>pa_agent_id = [97, 98, 99], pa_display_name = [110],
       pa_description = [100], pa_sort_order = 0\<rparr>\<rparr>]\<rparr>, cs_generation = 1, cs_last_failure = None\<rparr>"

lemma sample_overlay_save: "overlay_upsert sample_abc_catalog now 7 [97, 98, 99] UserMd (32 # [104, 105]) 0 empty_db
   = (Inr \<lparr>ol_kind = UserMd, ol_content = [104, 105], ol_revision = 1, ol_customized = True, ol_updated_at = Some now\<rparr>,
      sample_agents_db\<lparr>product_agents := [(inactive_core now 7 [97, 98, 99])\<lparr>ar_display_name := [110],
          ar_description := [100], ar_version := [49]\<rparr>],
        agent_overlays := [\<lparr>ov_owner = 7, ov_agent_id = [97, 98, 99], ov_kind = lit ''user_md'',
          ov_content = [104, 105], ov_revision = 1, ov_updated_at = now\<rparr>]\<rparr>)"
proof -
  have "normalize_content (32 # [104, 105]) = Inr [104, 105]"
    by (simp add: normalize_content_def max_overlay_characters_def is_control_def trim_def trim_start_def trim_end_def
        is_whitespace_def contains_obvious_secret_def split_whitespace_def secret_token_def trim_matches_def
        token_punctuation_def to_ascii_lowercase_def str_len_def str_bytes_def utf8_encode_def starts_with_def lit_def Let_def)
  moreover have "validate_identity 7 [97, 98, 99] = Inr ()"
    by (simp add: validate_identity_def str_len_def str_bytes_def utf8_encode_def overlay_agent_byte_def
        is_ascii_lowercase_def)
  ultimately show ?thesis
    by (simp add: overlay_upsert_def agents_get_def validate_owner_def seed_builtins_def sample_abc_catalog_def
        live_package_catalog_def seed_package_def sample_manifest_def agent_key_def agent_row_to_record_def empty_db_def
        sample_agents_db_def inactive_core_def current_overlay_revision_def overlay_write_def to_sql_u64_def
        saturating_add_u64_def u64_max_def sql_int_max_def)
qed

lemma overlays_ok_empty: "overlays_ok empty_db"
  by (simp add: overlays_ok_def empty_db_def)

lemma overlay_save_is_optimistic_witness:
  "current_overlay_revision 7 [97, 98, 99] UserMd empty_db = 0"
  using overlay_save_is_optimistic [OF overlays_ok_empty sample_overlay_save [of "[48]"]] by simp

lemma overlay_no_lost_update_witness:
  "\<not> is_ok (fst (overlay_upsert sample_abc_catalog [49] 7 [97, 98, 99] UserMd [] 0
      (snd (overlay_upsert sample_abc_catalog [48] 7 [97, 98, 99] UserMd (32 # [104, 105]) 0 empty_db))))"
proof -
  obtain res db2 where second: "overlay_upsert sample_abc_catalog [49] 7 [97, 98, 99] UserMd [] 0
      (snd (overlay_upsert sample_abc_catalog [48] 7 [97, 98, 99] UserMd (32 # [104, 105]) 0 empty_db)) = (res, db2)"
    by fastforce
  from overlay_no_lost_update [OF overlays_ok_empty sample_overlay_save [of "[48]"], of sample_abc_catalog "[49]" "[]" res db2]
    second show ?thesis by (simp add: sample_overlay_save)
qed

lemma saved_content_is_clean_witness: "normalize_content [] = Inr [] \<and> trim ([] :: rstr) = []"
  using saved_content_is_clean [of "[]" "[]"]
  by (simp add: normalize_content_def trim_def trim_start_def trim_end_def contains_obvious_secret_def
      split_whitespace_def to_ascii_lowercase_def Let_def)

end
