(* ===== verification/Host_Steps.thy ===== *)
theory Host_Steps
  imports Turn_Submission Agent_Overlays
begin

text \<open>
  The stores together: the statements the control plane runs on the state database on behalf of an
  account as one step relation, the invariant of the whole database over every sequence of such
  steps, and the separation of the accounts.
\<close>

section \<open>Steps\<close>

text \<open>
  \<open>host_step h owner db db'\<close>: an operation for the account \<open>owner\<close> takes the database from
  \<open>db\<close> to \<open>db'\<close>, whether it succeeds or not. Clocks, fresh identifiers, the package catalog
  and the arguments of the request are free.
\<close>

inductive host_step :: "host_env \<Rightarrow> int \<Rightarrow> state_db \<Rightarrow> state_db \<Rightarrow> bool" for h where
  step_list: "agents_list cs now owner db = (r_list, db') \<Longrightarrow> host_step h owner db db'"
| step_get: "agents_get cs now owner agent_id db = (r_agent, db') \<Longrightarrow> host_step h owner db db'"
| step_claim: "claim_legacy_and_seed cs now owner db = (r_unit, db') \<Longrightarrow> host_step h owner db db'"
| step_activate: "prepare_activation uuid_v5 home cs mkdir_ok now owner agent_id db = (r_agent, db') \<Longrightarrow> host_step h owner db db'"
| step_mark: "mark_runtime now owner agent_id runtime err db = (r_unit, db') \<Longrightarrow> host_step h owner db db'"
| step_overlay: "overlay_upsert cs now owner agent_id kind content expected db = (r_overlay, db') \<Longrightarrow> host_step h owner db db'"
| step_profile_insert: "profiles_insert h now owner pid cref l4 inp db = (r_profile, db') \<Longrightarrow> host_step h owner db db'"
| step_profile_update: "profiles_update h now owner pid inp db = (r_profile, db') \<Longrightarrow> host_step h owner db db'"
| step_profile_metadata: "profiles_update_credential_metadata h now owner pid l4 db = (r_profile, db') \<Longrightarrow> host_step h owner db db'"
| step_profile_delete: "profiles_delete owner pid db = (r_unit, db') \<Longrightarrow> host_step h owner db db'"
| step_assign: "assignments_upsert h uuid now owner ainp db = (r_assignment, db') \<Longrightarrow> host_step h owner db db'"
| step_unassign: "assignments_delete owner assignment_id db = (r_unit, db') \<Longrightarrow> host_step h owner db db'"
| step_bind: "bind_initial h uuid now owner session_id role agent route db = (r_binding, db') \<Longrightarrow> host_step h owner db db'"
| step_rebind: "bindings_append h uuid now owner session_id role agent reason route db = (r_binding, db') \<Longrightarrow> host_step h owner db db'"
| step_turn: "record_submitted uuid now owner turn_id binding db = (r_turn, db') \<Longrightarrow> host_step h owner db db'"

inductive host_runs :: "host_env \<Rightarrow> int list \<Rightarrow> state_db \<Rightarrow> state_db \<Rightarrow> bool" for h where
  runs_Nil: "host_runs h [] db db"
| runs_Cons: "host_step h owner db db1 \<Longrightarrow> host_runs h owners db1 db' \<Longrightarrow> host_runs h (owner # owners) db db'"

section \<open>The invariant of the database\<close>

definition db_ok :: "host_env \<Rightarrow> state_db \<Rightarrow> bool" where
  "db_ok h db \<longleftrightarrow> agents_ok db \<and> overlays_ok db \<and> profiles_ok db \<and> assignments_ok db \<and> bindings_ok h db \<and> turns_ok db"

lemma db_ok_empty [simp]: "db_ok h empty_db"
  by (simp add: db_ok_def empty_db_def agents_ok_def core_ok_def sessions_unique_def overlays_ok_def profiles_ok_def
      assignments_ok_def bindings_ok_def turns_ok_def)

text \<open>An operation changes its own table only; what the invariant says of the other tables stays.\<close>

lemmas table_oks = agents_ok_def overlays_ok_def profiles_ok_def assignments_ok_def bindings_ok_def turns_ok_def

lemma write_agents_frame [table_simps]:
  "overlays_ok (db\<lparr>product_agents := x\<rparr>) = overlays_ok db"
  "profiles_ok (db\<lparr>product_agents := x\<rparr>) = profiles_ok db"
  "assignments_ok (db\<lparr>product_agents := x\<rparr>) = assignments_ok db"
  "bindings_ok h (db\<lparr>product_agents := x\<rparr>) = bindings_ok h db"
  "turns_ok (db\<lparr>product_agents := x\<rparr>) = turns_ok db"
  by (simp_all add: table_oks names_binding_def [abs_def])

lemma write_overlays_frame [table_simps]:
  "agents_ok (db\<lparr>agent_overlays := x\<rparr>) = agents_ok db"
  "profiles_ok (db\<lparr>agent_overlays := x\<rparr>) = profiles_ok db"
  "assignments_ok (db\<lparr>agent_overlays := x\<rparr>) = assignments_ok db"
  "bindings_ok h (db\<lparr>agent_overlays := x\<rparr>) = bindings_ok h db"
  "turns_ok (db\<lparr>agent_overlays := x\<rparr>) = turns_ok db"
  by (simp_all add: table_oks names_binding_def [abs_def])

lemma write_profiles_frame [table_simps]:
  "agents_ok (db\<lparr>provider_profiles := x\<rparr>) = agents_ok db"
  "overlays_ok (db\<lparr>provider_profiles := x\<rparr>) = overlays_ok db"
  "bindings_ok h (db\<lparr>provider_profiles := x\<rparr>) = bindings_ok h db"
  "turns_ok (db\<lparr>provider_profiles := x\<rparr>) = turns_ok db"
  by (simp_all add: table_oks names_binding_def [abs_def])

lemma write_assignments_frame [table_simps]:
  "agents_ok (db\<lparr>model_assignments := x\<rparr>) = agents_ok db"
  "overlays_ok (db\<lparr>model_assignments := x\<rparr>) = overlays_ok db"
  "profiles_ok (db\<lparr>model_assignments := x\<rparr>) = profiles_ok db"
  "bindings_ok h (db\<lparr>model_assignments := x\<rparr>) = bindings_ok h db"
  "turns_ok (db\<lparr>model_assignments := x\<rparr>) = turns_ok db"
  by (simp_all add: table_oks names_binding_def [abs_def])

lemma write_bindings_frame [table_simps]:
  "agents_ok (db\<lparr>session_bindings := x\<rparr>) = agents_ok db"
  "overlays_ok (db\<lparr>session_bindings := x\<rparr>) = overlays_ok db"
  "profiles_ok (db\<lparr>session_bindings := x\<rparr>) = profiles_ok db"
  "assignments_ok (db\<lparr>session_bindings := x\<rparr>) = assignments_ok db"
  by (simp_all add: table_oks)

lemma write_turns_frame [table_simps]:
  "agents_ok (db\<lparr>turn_routes := x\<rparr>) = agents_ok db"
  "overlays_ok (db\<lparr>turn_routes := x\<rparr>) = overlays_ok db"
  "profiles_ok (db\<lparr>turn_routes := x\<rparr>) = profiles_ok db"
  "assignments_ok (db\<lparr>turn_routes := x\<rparr>) = assignments_ok db"
  "bindings_ok h (db\<lparr>turn_routes := x\<rparr>) = bindings_ok h db"
  by (simp_all add: table_oks)

section \<open>Which table an operation writes\<close>

lemma seed_frame: "seed_builtins cs now owner db = (r, db') \<Longrightarrow> \<exists>rows. db' = db\<lparr>product_agents := rows\<rparr>"
  by (cases "live_package_catalog cs") (auto simp: seed_builtins_def intro: exI [of _ "product_agents db"])

lemma get_frame: "agents_get cs now owner agent_id db = (r, db') \<Longrightarrow> \<exists>rows. db' = db\<lparr>product_agents := rows\<rparr>"
  using agents_get_frame by blast

lemma list_frame: "agents_list cs now owner db = (r, db') \<Longrightarrow> \<exists>rows. db' = db\<lparr>product_agents := rows\<rparr>"
  using seed_frame [of cs now owner db]
  by (auto simp: agents_list_def intro: exI [of _ "product_agents db"] split: sum.splits prod.splits)

lemma claim_frame: "claim_legacy_and_seed cs now owner db = (r, db') \<Longrightarrow> \<exists>rows. db' = db\<lparr>product_agents := rows\<rparr>"
  by (erule claim_cases) (auto dest!: seed_frame intro: exI [of _ "product_agents db"])

lemma activate_frame: "prepare_activation u home cs ok now owner agent_id db = (r, db') \<Longrightarrow> \<exists>rows. db' = db\<lparr>product_agents := rows\<rparr>"
  by (erule activation_cases) (auto dest!: seed_frame get_frame intro: exI [of _ "product_agents db"])

lemma mark_frame: "mark_runtime now owner agent_id s e db = (r, db') \<Longrightarrow>
    db' = db\<lparr>product_agents := update_where (agent_key owner agent_id) (\<lambda>r. r\<lparr>ar_runtime_state := s,
                   ar_updated_at := now, ar_last_error := e\<rparr>) (product_agents db)\<rparr>"
  by (auto simp: mark_runtime_def Let_def split: if_splits)

lemma overlay_frame: "overlay_upsert cs now owner agent_id kind content expected db = (r, db') \<Longrightarrow>
    \<exists>rows. db' = db\<lparr>product_agents := rows, agent_overlays := agent_overlays db'\<rparr>"
  by (erule overlay_upsert_cases) (auto dest!: get_frame intro: exI [of _ "product_agents db"])

section \<open>Every step keeps the invariant\<close>

lemma db_ok_agents:
  assumes "db_ok h db" "\<exists>rows. db' = db\<lparr>product_agents := rows\<rparr>" "agents_ok db'"
  shows "db_ok h db'"
  using assms by (auto simp: db_ok_def table_simps)

lemma agents_ok_overlay:
  assumes "agents_ok db" "overlay_upsert cs now owner agent_id kind content expected db = (r, db')"
  shows "agents_ok db'"
  using assms(2) by (cases rule: overlay_upsert_cases) (use assms(1) agents_ok_get in \<open>auto simp: table_simps\<close>)

lemma db_ok_profiles:
  assumes "db_ok h db" "provider_profiles db' = rows" "db' = db\<lparr>provider_profiles := rows\<rparr>" "profiles_ok db'" "assignments_ok db'"
  shows "db_ok h db'"
  using assms(1,4,5) unfolding assms(3) by (simp add: db_ok_def table_simps)

lemma db_ok_binding:
  assumes "db_ok h db" "bindings_ok h db'" "insert_binding h uuid now owner s role agent n reason route db = Inr (b, db')"
  shows "db_ok h db'"
proof -
  obtain row where db': "db' = db\<lparr>session_bindings := session_bindings db @ [row]\<rparr>"
    using insert_bindingD(1) [OF assms(3)] by blast
  have "turns_ok db'" by (rule turns_ok_more_bindings [of db]) (use assms(1) in \<open>auto simp: db' db_ok_def\<close>)
  then show ?thesis using assms(1,2) by (simp add: db' db_ok_def table_simps)
qed

lemma db_ok_step:
  assumes "host_step h owner db db'" "db_ok h db"
  shows "db_ok h db'"
  using assms(1)
proof cases
  case step_list
  then show ?thesis using agents_ok_list list_frame assms(2) by (intro db_ok_agents [OF assms(2)]) (auto simp: db_ok_def)
next
  case step_get
  then show ?thesis using agents_ok_get get_frame assms(2) by (intro db_ok_agents [OF assms(2)]) (auto simp: db_ok_def)
next
  case step_claim
  then show ?thesis using agents_ok_claim claim_frame assms(2) by (intro db_ok_agents [OF assms(2)]) (auto simp: db_ok_def)
next
  case step_activate
  then show ?thesis using agents_ok_activation activate_frame assms(2)
    by (intro db_ok_agents [OF assms(2)]) (auto simp: db_ok_def)
next
  case (step_mark now agent_id runtime err r)
  then show ?thesis using agents_ok_mark [OF _ step_mark] mark_frame [OF step_mark] assms(2)
    by (intro db_ok_agents [OF assms(2)]) (blast, simp add: db_ok_def)
next
  case (step_overlay cs now agent_id kind content expected r)
  obtain rows ovs where db': "db' = db\<lparr>product_agents := rows, agent_overlays := ovs\<rparr>"
    using overlay_frame [OF step_overlay] by blast
  have "agents_ok db'" "overlays_ok db'"
    using agents_ok_overlay [OF _ step_overlay] overlays_ok_upsert [OF _ step_overlay] assms(2) by (auto simp: db_ok_def)
  then show ?thesis using assms(2) unfolding db' by (simp add: db_ok_def table_simps)
next
  case (step_profile_insert now pid cref l4 inp r)
  have "\<exists>rows. db' = db\<lparr>provider_profiles := rows\<rparr>"
    using step_profile_insert by (cases rule: profiles_insert_cases) (auto intro: exI [of _ "provider_profiles db"])
  then show ?thesis using assms(2) profiles_ok_insert [OF _ step_profile_insert] assignments_ok_profile_insert [OF _ step_profile_insert]
    by (auto simp: db_ok_def table_simps)
next
  case (step_profile_update now pid inp r)
  have "\<exists>rows. db' = db\<lparr>provider_profiles := rows\<rparr>"
    using step_profile_update by (cases rule: profiles_update_cases) (auto intro: exI [of _ "provider_profiles db"])
  then show ?thesis using assms(2) profiles_ok_update [OF _ step_profile_update] assignments_ok_profile_update [OF _ step_profile_update]
    by (auto simp: db_ok_def table_simps)
next
  case (step_profile_metadata now pid l4 r)
  then have db': "db' = snd (profiles_update_credential_metadata h now owner pid l4 db)" by simp
  show ?thesis using assms(2) profiles_ok_metadata [of db h now owner pid l4]
      assignments_ok_profile_metadata [of db h now owner pid l4]
    unfolding db' profiles_metadata_db by (simp add: db_ok_def table_simps)
next
  case (step_profile_delete pid r)
  then have db': "db' = snd (profiles_delete owner pid db)" by simp
  show ?thesis using assms(2) profiles_ok_delete [of db owner pid] assignments_ok_profile_delete [of db owner pid]
    unfolding db' profiles_delete_db by (simp add: db_ok_def table_simps)
next
  case (step_assign uuid now ainp r)
  have "\<exists>rows. db' = db\<lparr>model_assignments := rows\<rparr>"
    using step_assign by (cases rule: upsert_cases) (auto intro: exI [of _ "model_assignments db"])
  then show ?thesis using assms(2) assignments_ok_upsert [OF _ step_assign] by (auto simp: db_ok_def table_simps)
next
  case (step_unassign aid r)
  then show ?thesis using assms(2) assignments_ok_delete [OF _ step_unassign] assignments_delete_db [OF step_unassign]
    by (auto simp: db_ok_def table_simps)
next
  case (step_bind uuid now session_id role agent route r)
  have ok: "bindings_ok h db'" using bindings_ok_initial [OF _ step_bind] assms(2) by (simp add: db_ok_def)
  from step_bind show ?thesis by (cases rule: bind_initial_cases) (use assms(2) db_ok_binding [OF assms(2) ok] in auto)
next
  case (step_rebind uuid now session_id role agent reason route r)
  have ok: "bindings_ok h db'" using bindings_ok_append [OF _ step_rebind] assms(2) by (simp add: db_ok_def)
  from step_rebind show ?thesis by (cases rule: bindings_append_cases) (use assms(2) db_ok_binding [OF assms(2) ok] in auto)
next
  case (step_turn uuid now turn_id binding r)
  have "\<exists>rows. db' = db\<lparr>turn_routes := rows\<rparr>"
    using step_turn by (cases rule: record_cases) (auto intro: exI [of _ "turn_routes db"] split: if_splits)
  then show ?thesis using assms(2) turns_ok_record [OF _ step_turn] by (auto simp: db_ok_def table_simps)
qed

lemma db_ok_runs: "host_runs h owners db db' \<Longrightarrow> db_ok h db \<Longrightarrow> db_ok h db'"
  by (induction rule: host_runs.induct) (auto intro: db_ok_step)

section \<open>Accounts are separate\<close>

lemma seed_package_slice:
  "b \<noteq> owner \<Longrightarrow> filter (\<lambda>r. ar_owner r = Some b) (seed_package now owner m rows) = filter (\<lambda>r. ar_owner r = Some b) rows"
  unfolding seed_package_def Let_def
  by (auto simp: agent_key_def intro!: agents.slice_update)

lemma seed_slice:
  assumes "seed_builtins cs now owner db = (r, db')" "b \<noteq> owner"
  shows "account_view b db' = account_view b db"
proof -
  have "filter (\<lambda>r. ar_owner r = Some b) (fold (seed_package now owner) ms rows) = filter (\<lambda>r. ar_owner r = Some b) rows" for ms rows
    by (induction ms arbitrary: rows) (simp_all add: seed_package_slice [OF assms(2)])
  then show ?thesis using assms(1) by (cases "live_package_catalog cs") (auto simp: seed_builtins_def account_view_def)
qed

lemma get_slice:
  assumes "agents_get cs now owner agent_id db = (r, db')" "b \<noteq> owner"
  shows "account_view b db' = account_view b db"
  using assms(1) by (cases rule: agents_get_cases) (use seed_slice assms(2) in auto)

lemma update_agents_slice:
  assumes "\<And>r. p r \<Longrightarrow> ar_owner r \<noteq> Some b" "\<And>r. p r \<Longrightarrow> ar_owner (f r) \<noteq> Some b"
  shows "account_view b (db\<lparr>product_agents := update_where p f (product_agents db)\<rparr>) = account_view b db"
proof -
  have "filter (\<lambda>r. ar_owner r = Some b) (update_where p f (product_agents db)) = filter (\<lambda>r. ar_owner r = Some b) (product_agents db)"
    by (rule agents.slice_update) (use assms in auto)
  then show ?thesis by (simp add: account_view_def)
qed

lemma update_profiles_slice:
  assumes "\<And>r. pr_owner (f r) = pr_owner r" "b \<noteq> owner"
  shows "account_view b (db\<lparr>provider_profiles := update_where (profile_key owner pid) f (provider_profiles db)\<rparr>) = account_view b db"
proof -
  have "filter (\<lambda>r. Some (pr_owner r) = Some b) (update_where (profile_key owner pid) f (provider_profiles db))
      = filter (\<lambda>r. Some (pr_owner r) = Some b) (provider_profiles db)"
    by (rule profiles.slice_update) (use assms in \<open>auto simp: profile_key_def\<close>)
  then show ?thesis by (simp add: account_view_def)
qed

lemma overlay_write_slice:
  assumes "b \<noteq> owner"
  shows "filter (\<lambda>r. Some (ov_owner r) = Some b) (overlay_write owner agent_id kind c n now rows)
     = filter (\<lambda>r. Some (ov_owner r) = Some b) rows"
proof (cases "list_ex (overlay_key owner agent_id kind) rows")
  case True
  then show ?thesis unfolding overlay_write_def
    by (simp only: if_True) (rule overlays.slice_update; use assms in \<open>auto simp: overlay_key_def\<close>)
qed (use assms in \<open>simp add: overlay_write_def\<close>)

lemma binding_slice:
  assumes "insert_binding h uuid now owner s role agent n reason route db = (Inr (x, db'))" "b \<noteq> owner"
  shows "account_view b db' = account_view b db"
  using insert_bindingD(1) [OF assms(1)] assms(2) by (simp add: account_view_def)

text \<open>Deleting a profile cascades by the identifier of the profile alone; the invariant makes the
  assignments it takes along the account's own.\<close>

lemma profile_delete_slice:
  assumes "db_ok h db" "b \<noteq> owner"
  shows "account_view b (snd (profiles_delete owner pid db)) = account_view b db"
proof -
  have p: "filter (\<lambda>r. Some (pr_owner r) = Some b) (delete_where (profile_key owner pid) (provider_profiles db))
      = filter (\<lambda>r. Some (pr_owner r) = Some b) (provider_profiles db)"
    by (rule profiles.slice_delete) (use assms(2) in \<open>auto simp: profile_key_def\<close>)
  have "as_owner a \<noteq> b" if a: "a \<in> set (model_assignments db)" "as_provider_profile_id a = pid"
      and ex: "list_ex (profile_key owner pid) (provider_profiles db)" for a
  proof -
    from ex obtain r where r: "r \<in> set (provider_profiles db)" "pr_owner r = owner" "pr_profile_id r = pid"
      by (auto simp: list_ex_iff profile_key_def)
    from assms(1) a obtain q where q: "q \<in> set (provider_profiles db)" "pr_owner q = as_owner a" "pr_profile_id q = pid"
      by (auto simp: db_ok_def assignments_ok_def list_ex_iff profile_key_def)
    have "unique_on pr_profile_id (provider_profiles db)" using assms(1) by (simp add: db_ok_def profiles_ok_def)
    from unique_onD [OF this r(1) q(1)] r q assms(2) show ?thesis by simp
  qed
  then have "filter (\<lambda>r. Some (as_owner r) = Some b) (delete_where
        (\<lambda>a. list_ex (profile_key owner pid) (provider_profiles db) \<and> as_provider_profile_id a = pid) (model_assignments db))
      = filter (\<lambda>r. Some (as_owner r) = Some b) (model_assignments db)"
    by (intro assignments.slice_delete) auto
  with p show ?thesis unfolding profiles_delete_db by (simp add: account_view_def)
qed

lemma step_separates:
  assumes "host_step h owner db db'" "db_ok h db" "b \<noteq> owner"
  shows "account_view b db' = account_view b db"
  using assms(1)
proof cases
  case (step_list cs now r)
  then show ?thesis using seed_slice [OF _ assms(3)] by (auto simp: agents_list_def split: sum.splits prod.splits)
next
  case step_get
  then show ?thesis using get_slice assms(3) by blast
next
  case (step_claim cs now r)
  then show ?thesis
  proof (cases rule: claim_cases)
    case (claimed rows)
    have "account_view b (db\<lparr>product_agents := rows\<rparr>) = account_view b db"
      unfolding claimed(4) using update_agents_slice [of "\<lambda>r. ar_owner r = None" b "\<lambda>r. r\<lparr>ar_owner := Some owner\<rparr>" db] assms(3)
      by (simp add: account_view_def)
    with seed_slice [OF claimed(3) assms(3)] show ?thesis by simp
  qed simp
next
  case (step_activate u home cs ok now agent_id r)
  then show ?thesis
  proof (cases rule: activation_cases)
    case (written session workspace db1 db2)
    have "account_view b db2 = account_view b db1"
      unfolding written(6) by (rule update_agents_slice) (use assms(3) in \<open>auto simp: agent_key_def activate_row_def\<close>)
    with written(7) seed_slice [OF written(4) assms(3)] get_slice [OF _ assms(3)] show ?thesis by auto
  qed (use seed_slice assms(3) in auto)
next
  case (step_mark now agent_id s e r)
  show ?thesis unfolding mark_frame [OF step_mark]
    by (rule update_agents_slice) (use assms(3) in \<open>auto simp: agent_key_def\<close>)
next
  case (step_overlay cs now agent_id kind content expected r)
  then show ?thesis
  proof (cases rule: overlay_upsert_cases)
    case (saved a db1 c)
    have "agent_overlays db1 = agent_overlays db" using get_frame [OF saved(2)] by auto
    then have "account_view b db' = account_view b db1"
      using overlay_write_slice [OF assms(3)] unfolding saved(7) by (simp add: account_view_def)
    with get_slice [OF saved(2) assms(3)] show ?thesis by simp
  qed (use get_slice assms(3) in auto)
next
  case step_profile_insert
  then show ?thesis by (cases rule: profiles_insert_cases) (use assms(3) in \<open>auto simp: account_view_def\<close>)
next
  case (step_profile_update now pid inp r)
  then show ?thesis
    by (cases rule: profiles_update_cases) (use assms(3) update_profiles_slice [where owner = owner] in \<open>auto simp: profile_write_def\<close>)
next
  case (step_profile_metadata now pid l4 r)
  then have "db' = snd (profiles_update_credential_metadata h now owner pid l4 db)" by simp
  then show ?thesis unfolding profiles_metadata_db using assms(3) by (simp add: update_profiles_slice)
next
  case (step_profile_delete pid r)
  then have "db' = snd (profiles_delete owner pid db)" by simp
  then show ?thesis using profile_delete_slice assms(2,3) by simp
next
  case (step_assign uuid now ainp r)
  then show ?thesis
  proof (cases rule: upsert_cases)
    case (updated i profile models row c)
    have "filter (\<lambda>r. Some (as_owner r) = Some b) (update_where
          (assignment_key owner (ain_scope_kind i) (database_scope_id i) (ain_role i))
          (assignment_target now i (ma_revision c + (if target_changed c i then 1 else 0))) (model_assignments db))
        = filter (\<lambda>r. Some (as_owner r) = Some b) (model_assignments db)"
      by (rule assignments.slice_update) (use assms(3) in \<open>auto simp: assignment_key_def assignment_target_def\<close>)
    then show ?thesis by (simp add: account_view_def updated(8))
  qed (use assms(3) in \<open>auto simp: account_view_def new_assignment_def\<close>)
next
  case (step_unassign aid r)
  then obtain p where p: "db' = db\<lparr>model_assignments := delete_where p (model_assignments db)\<rparr>" "\<forall>r. p r \<longrightarrow> as_owner r = owner"
    using assignments_delete_db by blast
  have "filter (\<lambda>r. Some (as_owner r) = Some b) (delete_where p (model_assignments db)) = filter (\<lambda>r. Some (as_owner r) = Some b) (model_assignments db)"
    by (rule assignments.slice_delete) (use assms(3) p(2) in auto)
  then show ?thesis by (simp add: account_view_def p(1))
next
  case step_bind
  then show ?thesis by (cases rule: bind_initial_cases) (use assms(3) binding_slice in auto)
next
  case step_rebind
  then show ?thesis by (cases rule: bindings_append_cases) (use assms(3) binding_slice in auto)
next
  case step_turn
  then show ?thesis
    by (cases rule: record_cases) (use assms(3) in \<open>auto simp: account_view_def split: if_splits\<close>)
qed

section \<open>Properties\<close>

text \<open>C4: starting from an empty database, every sequence of operations of any accounts, successful
  or not, leaves a database that satisfies all invariants of the six tables together: keys and
  identifiers unique, revisions positive and storable, one main session per agent, customizations clean,
  every assignment on a profile of its own account, binding histories gapless with their first revision
  initial, every recorded turn backed by the binding revision it names.\<close>

theorem database_invariant:
  assumes "host_runs h owners empty_db db"
  shows "db_ok h db"
  using db_ok_runs [OF assms] by simp

text \<open>However the operations of other accounts are interleaved, they leave all rows an account has in the
  six tables, in their order, exactly as they are.\<close>

lemma runs_separate:
  assumes "host_runs h owners db db'" "db_ok h db" "b \<notin> set owners"
  shows "account_view b db' = account_view b db"
  using assms
proof (induction rule: host_runs.induct)
  case (runs_Cons owner db db1 owners db')
  then show ?case using step_separates [OF runs_Cons.hyps(1)] db_ok_step [OF runs_Cons.hyps(1)] by simp
qed simp

lemma sample_run: "host_runs sample_env [7] empty_db (snd (overlay_upsert sample_abc_catalog [48] 7 [97, 98, 99] UserMd (32 # [104, 105]) 0 empty_db))"
  by (rule runs_Cons [OF step_overlay runs_Nil]) (rule surjective_pairing)

lemma database_invariant_witness:
  "db_ok sample_env (snd (overlay_upsert sample_abc_catalog [48] 7 [97, 98, 99] UserMd (32 # [104, 105]) 0 empty_db))"
  by (rule database_invariant [OF sample_run])

end
