(* ===== verification/Sampling_Errors.thy ===== *)
theory Sampling_Errors
  imports Control_Types
begin

text \<open>
  \<open>error.rs\<close> of \<open>xai-grok-sampling-types\<close>: the errors of a sampling request, the
  predicates the retry loop and the session ask them, and the messages made of an error body.
\<close>

section \<open>Errors\<close>

datatype empty_reason = ReasoningOnly | NoVisibleContent

fun empty_reason_as_str :: "empty_reason \<Rightarrow> string" where
  "empty_reason_as_str ReasoningOnly = ''reasoning_only''"
| "empty_reason_as_str NoVisibleContent = ''no_visible_content''"

record empty_response_context =
  ec_reason :: empty_reason
  ec_had_reasoning :: bool
  ec_content_len :: nat
  ec_tool_call_count :: nat
  ec_finish_reason :: "rstr option"
  ec_completion_tokens :: "nat option"
  ec_reasoning_tokens :: "nat option"
  ec_prompt_tokens :: "nat option"
  ec_model :: rstr
  ec_first_choice_seen :: bool

definition finish_reason_str :: "empty_response_context \<Rightarrow> rstr" where
  "finish_reason_str c = (case ec_finish_reason c of None \<Rightarrow> lit ''none'' | Some r \<Rightarrow> r)"

record response_model_metadata =
  md_context_window :: "nat option"
  md_max_completion_tokens :: "nat option"
  md_models_etag :: "rstr option"

text \<open>
  An error of \<open>reqwest\<close> and one of \<open>serde_json\<close>, as the accessors the sources call see them.
\<close>

record reqwest_error =
  rq_is_timeout :: bool
  rq_is_connect :: bool
  rq_is_status :: bool
  rq_is_request :: bool
  rq_is_body :: bool
  rq_status :: "nat option"
  rq_url :: "rstr option"
  rq_display :: rstr

record serde_error =
  je_line :: nat
  je_column :: nat
  je_display :: rstr

datatype sampling_error =
    AuthError rstr
  | InvalidConfiguration rstr
  | HttpError reqwest_error
  | SerializationError serde_error
  | ApiError nat rstr "response_model_metadata option" "nat option" "bool option"
  | EventStreamError rstr
  | StreamError rstr rstr
  | IdleTimeout nat
  | EmptyResponse empty_response_context
  | MaxTokensTruncation
  | DoomLoopDetected "rstr list" "nat option"

text \<open>
  \<open>serde::de::Error::custom\<close>, the \<open>Display\<close> of a status code, and the two error envelopes as
  \<open>serde_json\<close> decodes them from a text: the optional type and message of the standard one, the
  message and the optional code of the flat one.
\<close>

record error_env =
  ee_custom :: "rstr \<Rightarrow> serde_error"
  ee_status_text :: "nat \<Rightarrow> rstr"
  ee_standard :: "rstr \<Rightarrow> (rstr option \<times> rstr option) option"
  ee_flat :: "rstr \<Rightarrow> (rstr \<times> rstr option) option"

definition serialization_prefix :: rstr where
  "serialization_prefix = lit ''serialization error: ''"

definition serialization_message :: "error_env \<Rightarrow> rstr \<Rightarrow> sampling_error" where
  "serialization_message E msg = SerializationError (ee_custom E msg)"

definition serialization_from_rendered :: "error_env \<Rightarrow> rstr \<Rightarrow> sampling_error" where
  "serialization_from_rendered E rendered =
     serialization_message E
       (case strip_prefix rendered serialization_prefix of None \<Rightarrow> rendered | Some r \<Rightarrow> r)"

text \<open>\<open>Display\<close>, by the templates of the variants.\<close>

fun error_text :: "error_env \<Rightarrow> sampling_error \<Rightarrow> rstr" where
  "error_text E (AuthError m) = m"
| "error_text E (InvalidConfiguration m) = lit ''invalid client configuration: '' @ m"
| "error_text E (HttpError e) = lit ''request error: '' @ rq_display e"
| "error_text E (SerializationError e) = serialization_prefix @ je_display e"
| "error_text E (ApiError status m _ _ _) =
     lit ''API error (status '' @ ee_status_text E status @ lit ''): '' @ m"
| "error_text E (EventStreamError m) = lit ''reqwest error stream: '' @ m"
| "error_text E (StreamError kind m) = lit ''stream error ('' @ kind @ lit ''): '' @ m"
| "error_text E (IdleTimeout secs) =
     lit ''inference idle timeout after '' @ nat_to_str secs @ lit ''s with no chunks''"
| "error_text E (EmptyResponse c) =
     lit ''empty response from model ('' @ lit (empty_reason_as_str (ec_reason c)) @ lit '')''"
| "error_text E MaxTokensTruncation = lit ''response truncated by max_tokens''"
| "error_text E (DoomLoopDetected triggers _) =
     lit ''doom loop detected: '' @ str_join (lit '', '') triggers"

section \<open>Predicates\<close>

definition api_status :: "sampling_error \<Rightarrow> nat option" where
  "api_status e = (case e of ApiError status _ _ _ _ \<Rightarrow> Some status | _ \<Rightarrow> None)"

definition is_auth_error :: "sampling_error \<Rightarrow> bool" where
  "is_auth_error e \<longleftrightarrow> (case e of AuthError _ \<Rightarrow> True | _ \<Rightarrow> api_status e = Some 401)"

definition is_rate_limited :: "sampling_error \<Rightarrow> bool" where
  "is_rate_limited e \<longleftrightarrow> api_status e = Some 429"

definition is_payload_too_large :: "sampling_error \<Rightarrow> bool" where
  "is_payload_too_large e \<longleftrightarrow> api_status e = Some 413"

definition is_likely_body_rejected :: "sampling_error \<Rightarrow> bool" where
  "is_likely_body_rejected e \<longleftrightarrow>
    (case e of
       HttpError r \<Rightarrow> (rq_is_request r \<or> rq_is_body r) \<and> \<not> rq_is_timeout r \<and> \<not> rq_is_connect r
     | _ \<Rightarrow> False)"

definition is_encrypted_content_error :: "sampling_error \<Rightarrow> bool" where
  "is_encrypted_content_error e \<longleftrightarrow>
    (case e of
       ApiError status message _ _ _ \<Rightarrow> status = 400 \<and> str_contains message (lit ''encrypted_content'')
     | _ \<Rightarrow> False)"

definition is_image_processing_error :: "sampling_error \<Rightarrow> bool" where
  "is_image_processing_error e \<longleftrightarrow>
    (case e of
       ApiError status message _ _ _ \<Rightarrow>
         status \<in> {400, 500} \<and> str_contains message (lit ''Could not process image'')
     | _ \<Rightarrow> False)"

definition is_retryable_reqwest :: "reqwest_error \<Rightarrow> bool" where
  "is_retryable_reqwest r \<longleftrightarrow>
    (if rq_is_timeout r \<or> rq_is_connect r then True
     else if rq_is_status r then
       (case rq_status r of Some s \<Rightarrow> 500 \<le> s \<and> s < 600 \<or> s = 429 | None \<Rightarrow> False)
     else rq_is_request r \<or> rq_is_body r)"

fun is_retryable :: "sampling_error \<Rightarrow> bool" where
  "is_retryable (AuthError _) = False"
| "is_retryable (InvalidConfiguration _) = False"
| "is_retryable (HttpError r) = is_retryable_reqwest r"
| "is_retryable (SerializationError _) = False"
| "is_retryable (ApiError status _ _ _ _) = (status \<in> {429, 500, 502, 503, 504, 520})"
| "is_retryable (EventStreamError _) = True"
| "is_retryable (StreamError _ _) = True"
| "is_retryable (IdleTimeout _) = False"
| "is_retryable (EmptyResponse _) = True"
| "is_retryable MaxTokensTruncation = False"
| "is_retryable (DoomLoopDetected _ _) = True"

definition error_model_metadata :: "sampling_error \<Rightarrow> response_model_metadata option" where
  "error_model_metadata e = (case e of ApiError _ _ md _ _ \<Rightarrow> md | _ \<Rightarrow> None)"

definition retry_after :: "sampling_error \<Rightarrow> nat option" where
  "retry_after e = (case e of ApiError _ _ _ secs _ \<Rightarrow> secs | _ \<Rightarrow> None)"

definition should_retry_header :: "sampling_error \<Rightarrow> bool option" where
  "should_retry_header e = (case e of ApiError _ _ _ _ hint \<Rightarrow> hint | _ \<Rightarrow> None)"

definition message_is_context_length :: "rstr \<Rightarrow> bool" where
  "message_is_context_length message =
    (let m = to_ascii_lowercase message in
     list_ex (\<lambda>p. str_contains m (lit p))
       [''too long for this model'', ''prompt is too long'', ''maximum prompt length'',
        ''maximum context length'', ''context_length_exceeded''])"

definition is_context_length_error :: "sampling_error \<Rightarrow> bool" where
  "is_context_length_error e \<longleftrightarrow>
    (case e of
       ApiError _ message _ _ _ \<Rightarrow> message_is_context_length message
     | StreamError _ message \<Rightarrow> message_is_context_length message
     | _ \<Rightarrow> False)"

section \<open>Error bodies\<close>

definition try_parse_error :: "error_env \<Rightarrow> rstr \<Rightarrow> (rstr \<times> rstr) option" where
  "try_parse_error E data =
    (case ee_standard E data of
       Some (kind, message) \<Rightarrow>
         Some (case kind of None \<Rightarrow> lit ''unknown'' | Some k \<Rightarrow> k,
               case message of None \<Rightarrow> lit ''unknown error'' | Some m \<Rightarrow> m)
     | None \<Rightarrow>
         (case ee_flat E data of
            Some (error, code) \<Rightarrow> Some (case code of None \<Rightarrow> lit ''server_error'' | Some c \<Rightarrow> c, error)
          | None \<Rightarrow> None))"

definition max_user_error_chars :: nat where
  "max_user_error_chars = 280"

definition http_suffix :: "nat \<Rightarrow> rstr" where
  "http_suffix code = lit '' (HTTP '' @ nat_to_str code @ lit '').''"

definition status_user_message :: "nat \<Rightarrow> rstr" where
  "status_user_message code =
    (if 502 \<le> code \<and> code \<le> 504 then
       lit ''Grok is temporarily unavailable. Please try again in a moment.'' @ http_suffix code
     else if 520 \<le> code \<and> code \<le> 524 then
       lit ''Connection to Grok timed out or was interrupted. Please try again.'' @ http_suffix code
     else if 500 \<le> code \<and> code < 600 then
       lit ''Something went wrong on the server'' @ http_suffix code
     else lit ''Request failed'' @ http_suffix code)"

definition truncate_user_error :: "rstr \<Rightarrow> rstr" where
  "truncate_user_error s =
    (let s = trim s in
     if length s \<le> max_user_error_chars then s else take max_user_error_chars s @ [0x2026])"

definition structured_error_message :: "error_env \<Rightarrow> nat list \<Rightarrow> rstr option" where
  "structured_error_message E bytes =
    (case Option.bind (from_utf8 bytes) (try_parse_error E) of
       None \<Rightarrow> None
     | Some (error_type, message) \<Rightarrow>
         Some (truncate_user_error
           (if error_type = lit ''unknown'' \<or> error_type = lit ''server_error'' then message
            else error_type @ lit '': '' @ message)))"

definition parse_error_bytes :: "error_env \<Rightarrow> nat list \<Rightarrow> rstr" where
  "parse_error_bytes E bytes =
    (case structured_error_message E bytes of None \<Rightarrow> lit ''upstream error'' | Some m \<Rightarrow> m)"

definition user_facing_api_error_message :: "error_env \<Rightarrow> nat \<Rightarrow> nat list \<Rightarrow> rstr" where
  "user_facing_api_error_message E status bytes =
    (case structured_error_message E bytes of None \<Rightarrow> status_user_message status | Some m \<Rightarrow> m)"

definition try_parse_stream_error :: "error_env \<Rightarrow> rstr \<Rightarrow> sampling_error option" where
  "try_parse_stream_error E data = map_option (\<lambda>(kind, message). StreamError kind message) (try_parse_error E data)"

end
