(* ===== verification/Provider_Probes.thy ===== *)
theory Provider_Probes
  imports Credential_Lease Model_Assignments Catalog_Policy Sampling_Errors
begin

text \<open>
  \<open>provider_probes.rs\<close>: the checks of a Provider that a user asks for. A probe of a saved
  profile is recorded in the table \<open>provider_probe_results\<close>; a connection test takes a profile
  that has not been saved, and model discovery asks the official endpoint of a preset for its
  models. Each operation answers with its result and with what it has sent to the network.
\<close>

section \<open>Levels, results and requests\<close>

datatype probe_level = LocalValidation | MetadataLevel | MinimalInference

fun probe_level_as_str :: "probe_level \<Rightarrow> string" where
  "probe_level_as_str LocalValidation = ''local_validation''"
| "probe_level_as_str MetadataLevel = ''metadata''"
| "probe_level_as_str MinimalInference = ''minimal_inference''"

definition may_incur_cost :: "probe_level \<Rightarrow> bool" where
  "may_incur_cost level \<longleftrightarrow> level = MinimalInference"

definition parse_level :: "rstr \<Rightarrow> host_error + probe_level" where
  "parse_level v =
    (if v = lit ''local_validation'' then Inr LocalValidation
     else if v = lit ''metadata'' then Inr MetadataLevel
     else if v = lit ''minimal_inference'' then Inr MinimalInference
     else Inl (Bail ''unsupported Provider Probe level''))"

datatype probe_status = ProbePassed | ProbeFailed | ProbeUnsupported | ConfirmationRequired

fun probe_status_as_str :: "probe_status \<Rightarrow> string" where
  "probe_status_as_str ProbePassed = ''passed''"
| "probe_status_as_str ProbeFailed = ''failed''"
| "probe_status_as_str ProbeUnsupported = ''unsupported''"
| "probe_status_as_str ConfirmationRequired = ''confirmation_required''"

definition probe_status_parse :: "rstr \<Rightarrow> host_error + probe_status" where
  "probe_status_parse v =
    (if v = lit ''passed'' then Inr ProbePassed
     else if v = lit ''failed'' then Inr ProbeFailed
     else if v = lit ''unsupported'' then Inr ProbeUnsupported
     else if v = lit ''confirmation_required'' then Inr ConfirmationRequired
     else Inl (Bail ''unsupported Provider Probe status''))"

fun probe_protocol_str :: "provider_protocol \<Rightarrow> string" where
  "probe_protocol_str OpenaiResponses = ''openai_responses''"
| "probe_protocol_str OpenaiChat = ''openai_chat''"
| "probe_protocol_str AnthropicMessages = ''anthropic_messages''"

definition probe_parse_protocol :: "rstr \<Rightarrow> host_error + provider_protocol" where
  "probe_parse_protocol v =
    (if v = lit ''openai_responses'' then Inr OpenaiResponses
     else if v = lit ''openai_chat'' then Inr OpenaiChat
     else if v = lit ''anthropic_messages'' then Inr AnthropicMessages
     else Inl (Bail ''unsupported Provider Probe protocol''))"

fun classification_str :: "provider_classification \<Rightarrow> string" where
  "classification_str Official = ''official''"
| "classification_str Aggregator = ''aggregator''"
| "classification_str Gateway = ''gateway''"
| "classification_str CustomEndpoint = ''custom''"
| "classification_str LocalEndpoint = ''local''"

definition parse_classification :: "rstr \<Rightarrow> host_error + provider_classification" where
  "parse_classification v =
    (if v = lit ''official'' then Inr Official
     else if v = lit ''aggregator'' then Inr Aggregator
     else if v = lit ''gateway'' then Inr Gateway
     else if v = lit ''custom'' then Inr CustomEndpoint
     else if v = lit ''local'' then Inr LocalEndpoint
     else Inl (Bail ''unsupported Provider Probe endpoint classification''))"

lemma probe_codes_parse [simp]:
  "parse_level (lit (probe_level_as_str l)) = Inr l"
  "probe_status_parse (lit (probe_status_as_str s)) = Inr s"
  "probe_parse_protocol (lit (probe_protocol_str p)) = Inr p"
  "parse_classification (lit (classification_str c)) = Inr c"
proof -
  show "parse_level (lit (probe_level_as_str l)) = Inr l" by (cases l) (simp_all add: parse_level_def)
  show "probe_status_parse (lit (probe_status_as_str s)) = Inr s" by (cases s) (simp_all add: probe_status_parse_def)
  show "probe_parse_protocol (lit (probe_protocol_str p)) = Inr p" by (cases p) (simp_all add: probe_parse_protocol_def)
  show "parse_classification (lit (classification_str c)) = Inr c" by (cases c) (simp_all add: parse_classification_def)
qed

record run_probe_request =
  rp_profile_id :: rstr
  rp_model_id :: rstr
  rp_level :: probe_level
  rp_confirm_paid_inference :: bool

record test_connection_request =
  tc_profile :: profile_input
  tc_api_key :: rstr
  tc_model_id :: rstr
  tc_confirm_paid_inference :: bool

record discover_models_request =
  dm_profile :: profile_input
  dm_api_key :: rstr

record discovered_model =
  dd_model_id :: rstr
  dd_display_name :: rstr

record discovery_result =
  dr_status :: probe_status
  dr_network_attempted :: bool
  dr_may_incur_cost :: bool
  dr_authentication_verified :: bool
  dr_models :: "discovered_model list"
  dr_truncated :: bool
  dr_endpoint_origin :: rstr
  dr_summary_code :: string
  dr_summary_message :: string
  dr_started_at :: rstr
  dr_completed_at :: rstr
  dr_latency_ms :: nat

record probe_result =
  pb_probe_id :: rstr
  pb_profile_id :: rstr
  pb_model_id :: rstr
  pb_level :: probe_level
  pb_status :: probe_status
  pb_network_attempted :: bool
  pb_may_incur_cost :: bool
  pb_classification :: provider_classification
  pb_endpoint_origin :: rstr
  pb_protocol :: provider_protocol
  pb_assignment_count :: nat
  pb_summary_code :: rstr
  pb_summary_message :: rstr
  pb_warnings :: "rstr list"
  pb_started_at :: rstr
  pb_completed_at :: rstr
  pb_latency_ms :: nat

record connection_result =
  ct_model_id :: rstr
  ct_status :: probe_status
  ct_network_attempted :: bool
  ct_may_incur_cost :: bool
  ct_classification :: provider_classification
  ct_endpoint_origin :: rstr
  ct_protocol :: provider_protocol
  ct_summary_code :: string
  ct_summary_message :: string
  ct_started_at :: rstr
  ct_completed_at :: rstr
  ct_latency_ms :: nat

section \<open>The world of a probe\<close>

text \<open>
  The fields of \<open>ConversationRequest\<close> a probe sets; the others keep their defaults. The
  temperature is the literal \<open>0.0\<close>.
\<close>

datatype reasoning_effort = ReasonNone | ReasonMinimal | ReasonLow | ReasonMedium | ReasonHigh | ReasonXhigh

record inference_request =
  ir_items :: "rstr list"
  ir_model :: "rstr option"
  ir_max_output_tokens :: "nat option"
  ir_temperature :: "int option"
  ir_reasoning_effort :: "reasoning_effort option"
  ir_x_grok_req_id :: "rstr option"

text \<open>What \<open>timeout(.., conversation_collect(..))\<close> gives: the text of the assistant, an error, or
  nothing within the time limit.\<close>

datatype inference_outcome = InferenceText rstr | InferenceError sampling_error | InferenceTimeout

record discovery_request =
  dq_url :: rstr
  dq_headers :: "(rstr \<times> nat list) list"

datatype discovery_transport = TransportTimeout | TransportFailed | Responded nat "body_item list"

text \<open>
  The surroundings of one call: the answer of the \<open>n\<close>-th call of \<open>require_access\<close>, the
  clock readings, a fresh UUID, and the sampler and HTTP clients. \<open>pw_header_value\<close> tells whether
  \<open>HeaderValue::from_bytes\<close> accepts the bytes, \<open>pw_http_client\<close> whether the HTTP client
  can be built.
\<close>

record probe_world =
  pw_access :: "nat \<Rightarrow> host_error + unit"
  pw_started_at :: rstr
  pw_completed_at :: rstr
  pw_elapsed_ms :: nat
  pw_uuid :: rstr
  pw_sampling_client :: "sampler_config \<Rightarrow> bool"
  pw_inference :: "sampler_config \<Rightarrow> inference_request \<Rightarrow> inference_outcome"
  pw_http_client :: bool
  pw_header_value :: "nat list \<Rightarrow> bool"
  pw_http :: "discovery_request \<Rightarrow> discovery_transport"
  pw_json :: "nat list \<Rightarrow> json_value option"

text \<open>What an operation has sent: an inference request with the configuration of its client, or
  the request for the models of a Provider.\<close>

datatype probe_event = InferenceSent sampler_config inference_request | ModelsRequested discovery_request

definition latency_ms :: "probe_world \<Rightarrow> nat" where
  "latency_ms w = min u64_max (pw_elapsed_ms w)"

section \<open>Endpoints\<close>

definition probe_endpoint_origin :: "host_env \<Rightarrow> rstr \<Rightarrow> host_error + rstr" where
  "probe_endpoint_origin h base_url =
     and_then (with_context ''parse Provider Probe endpoint'' (ok_or (url_parse h base_url) (Foreign ''url''))) (\<lambda>url.
     if url_host_str url = None then Inl (Bail ''Provider Probe endpoint host is unavailable'')
     else Inr (url_origin url))"

definition classify_endpoint ::
  "provider_catalog \<Rightarrow> rstr option \<Rightarrow> provider_protocol \<Rightarrow> provider_auth_kind \<Rightarrow> rstr \<Rightarrow> provider_classification" where
  "classify_endpoint catalog preset_id protocol auth_kind origin =
    (case Option.bind preset_id (catalog_provider catalog) of
       Some preset \<Rightarrow>
         if ps_protocol preset = protocol \<and> ps_auth_kind preset = auth_kind
            \<and> origin \<in> set (ps_allowed_endpoint_origins preset)
         then ps_classification preset else CustomEndpoint
     | None \<Rightarrow> CustomEndpoint)"

definition endpoint_classification :: "provider_catalog \<Rightarrow> profile_record \<Rightarrow> rstr \<Rightarrow> provider_classification" where
  "endpoint_classification catalog p origin =
     classify_endpoint catalog (pp_preset_id p) (pp_protocol p) (pp_auth_kind p) origin"

definition input_endpoint_classification :: "provider_catalog \<Rightarrow> profile_input \<Rightarrow> rstr \<Rightarrow> provider_classification" where
  "input_endpoint_classification catalog p origin =
     classify_endpoint catalog (in_preset_id p) (in_protocol p) (in_auth_kind p) origin"

section \<open>The minimal inference\<close>

definition minimal_inference_request :: "rstr \<Rightarrow> string \<Rightarrow> rstr option \<Rightarrow> rstr \<Rightarrow> inference_request" where
  "minimal_inference_request model_id purpose preset_id uuid =
     \<lparr>ir_items = [lit ''Reply exactly: OK''], ir_model = Some model_id, ir_max_output_tokens = Some 16,
      ir_temperature = Some 0,
      ir_reasoning_effort =
        (if preset_id \<in> {Some (lit ''glm''), Some (lit ''glm-coding-plan'')} \<and> model_id = lit ''glm-5.2''
         then Some ReasonNone else None),
      ir_x_grok_req_id = Some (lit ''agentmesh360-'' @ lit purpose @ lit ''-'' @ uuid)\<rparr>"

definition names_missing_model :: "rstr \<Rightarrow> bool" where
  "names_missing_model message =
    (let message = to_ascii_lowercase message in
     str_contains message (lit ''model'')
     \<and> (str_contains message (lit ''not found'') \<or> str_contains message (lit ''does not exist'')
        \<or> str_contains message (lit ''invalid'')))"

fun minimal_inference_failure :: "sampling_error \<Rightarrow> string \<times> string" where
  "minimal_inference_failure (AuthError _) =
     (''minimal_inference_authentication_failed'', ''The Provider rejected the API credential.'')"
| "minimal_inference_failure (ApiError status message _ _ _) =
    (if status = 401 then
       (''minimal_inference_authentication_failed'', ''The Provider rejected the API credential.'')
     else if status = 403 then
       (''minimal_inference_permission_denied'', ''The API credential cannot use the selected model.'')
     else if status = 404 then
       (''minimal_inference_model_not_found'', ''The selected model or inference endpoint was not found.'')
     else if status = 429 then
       (''minimal_inference_rate_limited'', ''The Provider rate limited the connection test.'')
     else if names_missing_model message then
       (''minimal_inference_model_not_found'', ''The selected model or inference endpoint was not found.'')
     else
       (''minimal_inference_request_failed'', ''The Provider rejected or failed the minimal inference request.''))"
| "minimal_inference_failure (HttpError _) =
     (''minimal_inference_network_failed'', ''The connection test could not reach the Provider.'')"
| "minimal_inference_failure (EventStreamError _) =
     (''minimal_inference_network_failed'', ''The connection test could not reach the Provider.'')"
| "minimal_inference_failure (IdleTimeout _) =
     (''minimal_inference_timeout'', ''The minimal inference request timed out.'')"
| "minimal_inference_failure _ =
     (''minimal_inference_request_failed'', ''The Provider rejected or failed the minimal inference request.'')"

definition run_minimal_inference ::
  "probe_world \<Rightarrow> sampler_config \<Rightarrow> inference_request \<Rightarrow> probe_status \<times> string \<times> string" where
  "run_minimal_inference w config request =
    (case pw_inference w config request of
       InferenceText text' \<Rightarrow>
         if trim text' \<noteq> [] then
           (ProbePassed, ''minimal_inference_responded'', ''The selected model returned a non-empty response.'')
         else
           (ProbeFailed, ''minimal_inference_empty_response'', ''The Provider returned success without model text.'')
     | InferenceError e \<Rightarrow> (ProbeFailed, minimal_inference_failure e)
     | InferenceTimeout \<Rightarrow>
         (ProbeFailed, ''minimal_inference_timeout'', ''The minimal inference request timed out.''))"

text \<open>\<open>LeasedProbeRoute::into_client\<close>.\<close>

definition probe_client :: "probe_world \<Rightarrow> sampler_config \<Rightarrow> host_error + sampler_config" where
  "probe_client w config =
     with_context ''prepare existing Grok Sampling client for Provider Probe''
       (if pw_sampling_client w config then Inr config else Inl (Foreign ''xai_grok_sampler''))"

definition official_preset :: "provider_classification \<Rightarrow> rstr option \<Rightarrow> rstr option" where
  "official_preset classification preset_id = (if classification = Official then preset_id else None)"

section \<open>Connection tests\<close>

text \<open>
  A connection test of a profile that has not been saved. Nothing is stored.
\<close>

definition test_connection ::
  "host_env \<Rightarrow> provider_catalog \<Rightarrow> probe_world \<Rightarrow> test_connection_request
     \<Rightarrow> (host_error + connection_result) \<times> probe_event list" where
  "test_connection h catalog w request =
    (let prepared =
       and_then (pw_access w 0) (\<lambda>_.
       and_then (bail_if (\<not> tc_confirm_paid_inference request)
         (Bail ''explicit confirmation is required because the connection test may incur Provider cost'')) (\<lambda>_.
       and_then (profile_input_normalized h (tc_profile request)) (\<lambda>profile.
       and_then (normalize_model_id (tc_model_id request)) (\<lambda>model_id.
       and_then (bail_if (model_id \<notin> set (in_enabled_models profile))
         (Bail ''connection test model is not enabled by the Provider Profile'')) (\<lambda>_.
       and_then (probe_endpoint_origin h (in_base_url profile)) (\<lambda>origin.
       and_then (prepare_ephemeral_probe h profile model_id (tc_api_key request)) (\<lambda>config.
       and_then (with_context ''prepare Provider connection test client'' (probe_client w config)) (\<lambda>config.
       and_then (pw_access w 1) (\<lambda>_.
       Inr (profile, model_id, origin, config)))))))))) in
     case prepared of
       Inl e \<Rightarrow> (Inl e, [])
     | Inr (profile, model_id, origin, config) \<Rightarrow>
         let classification = input_endpoint_classification catalog profile origin;
             preset_id = official_preset classification (in_preset_id profile);
             inference = minimal_inference_request model_id ''connection-test'' preset_id (pw_uuid w);
             (status, code, message) = run_minimal_inference w config inference in
         (Inr \<lparr>ct_model_id = model_id, ct_status = status, ct_network_attempted = True,
              ct_may_incur_cost = True, ct_classification = classification, ct_endpoint_origin = origin,
              ct_protocol = in_protocol profile, ct_summary_code = code, ct_summary_message = message,
              ct_started_at = pw_started_at w, ct_completed_at = pw_completed_at w,
              ct_latency_ms = latency_ms w\<rparr>,
          [InferenceSent config inference]))"

section \<open>Recorded probes\<close>

record probe_row =
  pq_probe_id :: rstr
  pq_owner :: int
  pq_profile_id :: rstr
  pq_model_id :: rstr
  pq_level :: rstr
  pq_status :: rstr
  pq_network_attempted :: bool
  pq_may_incur_cost :: bool
  pq_classification :: rstr
  pq_endpoint_origin :: rstr
  pq_protocol :: rstr
  pq_assignment_count :: nat
  pq_summary_code :: rstr
  pq_summary_message :: rstr
  pq_warnings_json :: rstr
  pq_started_at :: rstr
  pq_completed_at :: rstr
  pq_latency_ms :: nat

text \<open>\<open>i64::try_from(..).unwrap_or(i64::MAX)\<close>.\<close>

definition i64_saturating :: "nat \<Rightarrow> nat" where
  "i64_saturating n = (if n \<le> sql_int_max then n else sql_int_max)"

definition probe_row_of :: "host_env \<Rightarrow> int \<Rightarrow> probe_result \<Rightarrow> probe_row" where
  "probe_row_of h owner r =
     \<lparr>pq_probe_id = pb_probe_id r, pq_owner = owner, pq_profile_id = pb_profile_id r,
      pq_model_id = pb_model_id r, pq_level = lit (probe_level_as_str (pb_level r)),
      pq_status = lit (probe_status_as_str (pb_status r)),
      pq_network_attempted = pb_network_attempted r, pq_may_incur_cost = pb_may_incur_cost r,
      pq_classification = lit (classification_str (pb_classification r)),
      pq_endpoint_origin = pb_endpoint_origin r, pq_protocol = lit (probe_protocol_str (pb_protocol r)),
      pq_assignment_count = i64_saturating (pb_assignment_count r),
      pq_summary_code = pb_summary_code r, pq_summary_message = pb_summary_message r,
      pq_warnings_json = models_to_json h (pb_warnings r), pq_started_at = pb_started_at r,
      pq_completed_at = pb_completed_at r, pq_latency_ms = i64_saturating (pb_latency_ms r)\<rparr>"

text \<open>
  The insertion, with the two constraints of the table a written row can violate: the account is
  positive and the probe id is new. The codec of the warnings is that of a list of strings.
\<close>

definition probe_record ::
  "host_env \<Rightarrow> int \<Rightarrow> probe_result \<Rightarrow> probe_row list \<Rightarrow> (host_error + unit) \<times> probe_row list" where
  "probe_record h owner result rows =
    (let row = probe_row_of h owner result in
     if \<not> 0 < owner then
       (Inl (Context ''record Provider Probe result'' (Sql (ConstraintCheck ''provider_probe_results''))), rows)
     else if pq_probe_id row \<in> pq_probe_id ` set rows then
       (Inl (Context ''record Provider Probe result'' (Sql (ConstraintUnique ''provider_probe_results''))), rows)
     else (Inr (), rows @ [row]))"

definition probe_of_row :: "host_env \<Rightarrow> probe_row \<Rightarrow> host_error + probe_result" where
  "probe_of_row h row =
     and_then (map_err (\<lambda>_. Sql (FromSqlConversion 0)) (parse_level (pq_level row))) (\<lambda>level.
     and_then (map_err (\<lambda>_. Sql (FromSqlConversion 0)) (probe_status_parse (pq_status row))) (\<lambda>status.
     and_then (map_err (\<lambda>_. Sql (FromSqlConversion 0)) (parse_classification (pq_classification row))) (\<lambda>classification.
     and_then (map_err (\<lambda>_. Sql (FromSqlConversion 0)) (probe_parse_protocol (pq_protocol row))) (\<lambda>protocol.
     and_then (ok_or (models_from_json h (pq_warnings_json row)) (Sql (FromSqlConversion 13))) (\<lambda>warnings.
     Inr \<lparr>pb_probe_id = pq_probe_id row, pb_profile_id = pq_profile_id row, pb_model_id = pq_model_id row,
          pb_level = level, pb_status = status, pb_network_attempted = pq_network_attempted row,
          pb_may_incur_cost = pq_may_incur_cost row, pb_classification = classification,
          pb_endpoint_origin = pq_endpoint_origin row, pb_protocol = protocol,
          pb_assignment_count = pq_assignment_count row, pb_summary_code = pq_summary_code row,
          pb_summary_message = pq_summary_message row, pb_warnings = warnings,
          pb_started_at = pq_started_at row, pb_completed_at = pq_completed_at row,
          pb_latency_ms = pq_latency_ms row\<rparr>)))))"

text \<open>\<open>ORDER BY completed_at DESC, probe_id DESC LIMIT 100\<close>.\<close>

definition newest_first :: "probe_row list \<Rightarrow> probe_row list" where
  "newest_first rows = take 100 (rev (sort_key (\<lambda>r. (pq_completed_at r, pq_probe_id r)) rows))"

definition probes_list ::
  "host_env \<Rightarrow> int \<Rightarrow> rstr option \<Rightarrow> probe_row list \<Rightarrow> host_error + probe_result list" where
  "probes_list h owner profile_id rows =
    (let profile_id = (case profile_id of None \<Rightarrow> None
                       | Some v \<Rightarrow> if trim v = [] then None else Some (trim v)) in
     with_context ''read Provider Probe results''
       (collect_results (map (probe_of_row h)
         (newest_first (filter (\<lambda>r. pq_owner r = owner
            \<and> (profile_id = None \<or> Some (pq_profile_id r) = profile_id)) rows)))))"

definition finish_and_record ::
  "host_env \<Rightarrow> probe_world \<Rightarrow> int \<Rightarrow> probe_result \<Rightarrow> probe_row list \<Rightarrow> (host_error + probe_result) \<times> probe_row list" where
  "finish_and_record h w owner result rows =
    (let result = result\<lparr>pb_completed_at := pw_completed_at w, pb_latency_ms := latency_ms w\<rparr> in
     case probe_record h owner result rows of
       (Inl e, rows) \<Rightarrow> (Inl e, rows)
     | (Inr _, rows) \<Rightarrow> (Inr result, rows))"

text \<open>The result \<open>run\<close> starts from: what is known before the level is looked at.\<close>

definition initial_result ::
  "host_env \<Rightarrow> provider_catalog \<Rightarrow> probe_world \<Rightarrow> int \<Rightarrow> run_probe_request \<Rightarrow> profile_record \<Rightarrow> state_db
     \<Rightarrow> host_error + probe_result" where
  "initial_result h catalog w owner request profile db =
    (let model_id = trim (rp_model_id request) in
     and_then (bail_if (model_id \<notin> set (pp_enabled_models profile))
       (Bail ''Probe model is not enabled by the Provider Profile'')) (\<lambda>_.
     and_then (probe_endpoint_origin h (pp_base_url profile)) (\<lambda>origin.
     and_then (assignments_list owner db) (\<lambda>assignments.
     let classification = endpoint_classification catalog profile origin;
         count = count_where (\<lambda>a. ma_provider_profile_id a = pp_profile_id profile
                                  \<and> ma_model_id a = model_id) assignments;
         warnings = (if classification = CustomEndpoint then [lit ''endpoint_not_catalog_verified''] else [])
                  @ (if count = 0 then [lit ''model_not_assigned''] else []) in
     Inr \<lparr>pb_probe_id = lit ''probe_'' @ pw_uuid w, pb_profile_id = pp_profile_id profile,
          pb_model_id = model_id, pb_level = rp_level request, pb_status = ProbePassed,
          pb_network_attempted = False, pb_may_incur_cost = may_incur_cost (rp_level request),
          pb_classification = classification, pb_endpoint_origin = origin,
          pb_protocol = pp_protocol profile, pb_assignment_count = count,
          pb_summary_code = [], pb_summary_message = [], pb_warnings = warnings,
          pb_started_at = pw_started_at w, pb_completed_at = [], pb_latency_ms = 0\<rparr>))))"

definition with_summary :: "probe_status \<Rightarrow> string \<Rightarrow> string \<Rightarrow> probe_result \<Rightarrow> probe_result" where
  "with_summary status code message r =
     r\<lparr>pb_status := status, pb_summary_code := lit code, pb_summary_message := lit message\<rparr>"

text \<open>
  The levels. \<open>Inl\<close> is an error that leaves \<open>run\<close> at once; a failure on the way to the
  client is a result like any other and gets recorded.
\<close>

definition probe_inference ::
  "'v vault_ops \<Rightarrow> host_env \<Rightarrow> probe_world \<Rightarrow> int \<Rightarrow> profile_record \<Rightarrow> probe_result \<Rightarrow> 'v \<times> state_db
     \<Rightarrow> (host_error + probe_result) \<times> probe_event list" where
  "probe_inference V h w owner profile result st =
    (case pw_access w 1 of
       Inl e \<Rightarrow> (Inl e, [])
     | Inr _ \<Rightarrow>
    (case resolve_profile_probe V h owner (pp_profile_id profile) (pb_model_id result) st of
       Inl _ \<Rightarrow> (Inr (with_summary ProbeFailed ''probe_credential_unavailable''
                  ''The saved Provider credential is unavailable.'' result), [])
     | Inr config \<Rightarrow>
    (case probe_client w config of
       Inl _ \<Rightarrow> (Inr (with_summary ProbeFailed ''probe_client_unavailable''
                  ''The Provider client could not be prepared.'' result), [])
     | Inr config \<Rightarrow>
    (case pw_access w 2 of
       Inl e \<Rightarrow> (Inl e, [])
     | Inr _ \<Rightarrow>
         let preset_id = official_preset (pb_classification result) (pp_preset_id profile);
             inference = minimal_inference_request (pb_model_id result) ''provider-probe'' preset_id (pw_uuid w);
             (status, code, message) = run_minimal_inference w config inference in
         (Inr (with_summary status code message (result\<lparr>pb_network_attempted := True\<rparr>)),
          [InferenceSent config inference])))))"

definition probe_at_level ::
  "'v vault_ops \<Rightarrow> host_env \<Rightarrow> probe_world \<Rightarrow> int \<Rightarrow> run_probe_request \<Rightarrow> profile_record \<Rightarrow> probe_result \<Rightarrow> 'v \<times> state_db
     \<Rightarrow> (host_error + probe_result) \<times> probe_event list" where
  "probe_at_level V h w owner request profile result st =
    (case rp_level request of
       LocalValidation \<Rightarrow>
         (case resolve_profile_probe V h owner (pp_profile_id profile) (pb_model_id result) st of
            Inr _ \<Rightarrow> (Inr (with_summary ProbePassed ''local_validation_passed''
              ''Profile, model, endpoint, protocol, and Vault credential are valid.'' result), [])
          | Inl _ \<Rightarrow> (Inr (with_summary ProbeFailed ''local_validation_failed''
              ''The saved Profile or Vault credential is unavailable.'' result), []))
     | MetadataLevel \<Rightarrow> (Inr (with_summary ProbeUnsupported ''metadata_probe_not_declared''
         ''The current Provider Catalog does not declare a non-billing metadata probe.'' result), [])
     | MinimalInference \<Rightarrow>
         if \<not> rp_confirm_paid_inference request then
           (Inr (with_summary ConfirmationRequired ''paid_inference_confirmation_required''
              ''Explicit confirmation is required because this probe may incur Provider cost.'' result), [])
         else probe_inference V h w owner profile result st)"

definition probe_run ::
  "'v vault_ops \<Rightarrow> host_env \<Rightarrow> provider_catalog \<Rightarrow> probe_world \<Rightarrow> int \<Rightarrow> run_probe_request
     \<Rightarrow> 'v \<times> state_db \<Rightarrow> probe_row list \<Rightarrow> (host_error + probe_result) \<times> probe_event list \<times> probe_row list" where
  "probe_run V h catalog w owner request st rows =
    (let prepared =
       and_then (pw_access w 0) (\<lambda>_.
       and_then (profiles_get h owner (trim (rp_profile_id request)) (snd st)) (\<lambda>profile.
       and_then (initial_result h catalog w owner request profile (snd st)) (\<lambda>result.
       Inr (profile, result)))) in
     case prepared of
       Inl e \<Rightarrow> (Inl e, [], rows)
     | Inr (profile, result) \<Rightarrow>
         (case probe_at_level V h w owner request profile result st of
            (Inl e, sent) \<Rightarrow> (Inl e, sent, rows)
          | (Inr result, sent) \<Rightarrow>
              let (answer, rows) = finish_and_record h w owner result rows in (answer, sent, rows)))"

section \<open>What a run records and sends\<close>

lemma probe_client_Inr [result_simps]: "probe_client w config = Inr c \<longleftrightarrow> c = config \<and> pw_sampling_client w config"
  by (auto simp: probe_client_def result_simps)

lemma run_minimal_inference_status: "fst (run_minimal_inference w config req) \<in> {ProbePassed, ProbeFailed}"
  by (simp add: run_minimal_inference_def split: inference_outcome.splits)

lemma with_summary_fields [simp]:
  "pb_level (with_summary s code m r) = pb_level r" "pb_status (with_summary s code m r) = s"
  "pb_network_attempted (with_summary s code m r) = pb_network_attempted r"
  "pb_may_incur_cost (with_summary s code m r) = pb_may_incur_cost r"
  "pb_probe_id (with_summary s code m r) = pb_probe_id r" "pb_model_id (with_summary s code m r) = pb_model_id r"
  "pb_profile_id (with_summary s code m r) = pb_profile_id r" "pb_warnings (with_summary s code m r) = pb_warnings r"
  by (simp_all add: with_summary_def)

definition warning_lists :: "rstr list list" where
  "warning_lists =
     [[], [lit ''endpoint_not_catalog_verified''], [lit ''model_not_assigned''],
      [lit ''endpoint_not_catalog_verified'', lit ''model_not_assigned'']]"

lemma initial_resultD:
  assumes "initial_result h catalog w owner request profile db = Inr r"
  shows "trim (rp_model_id request) \<in> set (pp_enabled_models profile)" "pb_model_id r = trim (rp_model_id request)"
    "pb_profile_id r = pp_profile_id profile" "pb_level r = rp_level request"
    "pb_network_attempted r = False" "pb_may_incur_cost r = may_incur_cost (rp_level request)"
    "pb_warnings r \<in> set warning_lists"
  using assms by (auto simp: initial_result_def warning_lists_def Let_def result_simps split: if_splits)

text \<open>
  A result as \<open>run\<close> makes it: the cost is that of the level, only a minimal inference goes to the
  network, each level has its own statuses, and there are two warnings.
\<close>

definition probe_wf :: "probe_result \<Rightarrow> bool" where
  "probe_wf r \<longleftrightarrow> pb_may_incur_cost r = may_incur_cost (pb_level r) \<and> pb_warnings r \<in> set warning_lists
     \<and> (case pb_level r of
          LocalValidation \<Rightarrow> \<not> pb_network_attempted r \<and> pb_status r \<in> {ProbePassed, ProbeFailed}
        | MetadataLevel \<Rightarrow> \<not> pb_network_attempted r \<and> pb_status r = ProbeUnsupported
        | MinimalInference \<Rightarrow>
            if pb_network_attempted r then pb_status r \<in> {ProbePassed, ProbeFailed}
            else pb_status r \<in> {ProbeFailed, ConfirmationRequired})"

lemma probe_wf_finished [simp]: "probe_wf (r\<lparr>pb_completed_at := t, pb_latency_ms := n\<rparr>) = probe_wf r"
  by (cases "pb_level r") (simp_all add: probe_wf_def)

text \<open>What must hold for an inference to be sent for a saved profile.\<close>

definition inference_justified ::
  "'v vault_ops \<Rightarrow> host_env \<Rightarrow> probe_world \<Rightarrow> int \<Rightarrow> run_probe_request \<Rightarrow> profile_record \<Rightarrow> sampler_config
     \<Rightarrow> inference_request \<Rightarrow> 'v \<times> state_db \<Rightarrow> bool" where
  "inference_justified V h w owner request profile config inference st \<longleftrightarrow>
     rp_level request = MinimalInference \<and> rp_confirm_paid_inference request
     \<and> pw_access w 1 = Inr () \<and> pw_access w 2 = Inr ()
     \<and> resolve_profile_probe V h owner (pp_profile_id profile) (trim (rp_model_id request)) st = Inr config
     \<and> ir_model inference = Some (trim (rp_model_id request)) \<and> ir_max_output_tokens inference = Some 16"

lemma probe_inference_result:
  assumes "probe_inference V h w owner profile result st = (res, sent)"
    and "pb_level result = MinimalInference" "\<not> pb_network_attempted result" "pb_may_incur_cost result"
      "pb_warnings result \<in> set warning_lists"
  shows "\<And>r. res = Inr r \<Longrightarrow> probe_wf r \<and> pb_network_attempted r = (sent \<noteq> [])"
    and "sent \<noteq> [] \<Longrightarrow> pw_access w 1 = Inr () \<and> pw_access w 2 = Inr () \<and> (\<exists>config inference.
      sent = [InferenceSent config inference] \<and> ir_model inference = Some (pb_model_id result)
      \<and> ir_max_output_tokens inference = Some 16
      \<and> resolve_profile_probe V h owner (pp_profile_id profile) (pb_model_id result) st = Inr config)"
proof -
  have s: "s \<in> {ProbePassed, ProbeFailed}" if "run_minimal_inference w config i = (s, c, m)" for config i s c m
    using run_minimal_inference_status [of w config i] that by simp
  show "probe_wf r \<and> pb_network_attempted r = (sent \<noteq> [])" if "res = Inr r" for r
    using assms that by (auto simp: probe_inference_def Let_def probe_wf_def may_incur_cost_def
        split: sum.splits prod.splits dest!: s)
  show "sent \<noteq> [] \<Longrightarrow> pw_access w 1 = Inr () \<and> pw_access w 2 = Inr () \<and> (\<exists>config inference.
      sent = [InferenceSent config inference] \<and> ir_model inference = Some (pb_model_id result)
      \<and> ir_max_output_tokens inference = Some 16
      \<and> resolve_profile_probe V h owner (pp_profile_id profile) (pb_model_id result) st = Inr config)"
    using assms(1) by (auto simp: probe_inference_def Let_def result_simps minimal_inference_request_def
        split: sum.splits prod.splits)
qed

lemma probe_at_level_result:
  assumes "probe_at_level V h w owner request profile result st = (res, sent)"
    and i: "initial_result h catalog w owner request profile db = Inr result"
  shows "\<And>r. res = Inr r \<Longrightarrow> probe_wf r \<and> pb_network_attempted r = (sent \<noteq> [])"
    and "sent \<noteq> [] \<Longrightarrow> \<exists>config inference. sent = [InferenceSent config inference]
      \<and> inference_justified V h w owner request profile config inference st"
proof -
  note i = initial_resultD [OF i]
  have inf: "probe_inference V h w owner profile result st = (res, sent)"
    if "rp_level request = MinimalInference" "rp_confirm_paid_inference request"
    using assms(1) that by (simp add: probe_at_level_def)
  have other: "sent = [] \<and> (\<exists>r. res = Inr r \<and> probe_wf r \<and> \<not> pb_network_attempted r)"
    if "\<not> (rp_level request = MinimalInference \<and> rp_confirm_paid_inference request)"
  proof -
    have wf: "probe_wf (with_summary s code m result)"
      if "rp_level request = LocalValidation \<and> s \<in> {ProbePassed, ProbeFailed}
        \<or> rp_level request = MetadataLevel \<and> s = ProbeUnsupported
        \<or> rp_level request = MinimalInference \<and> s = ConfirmationRequired" for s code m
      using that i(4-7) by (auto simp: probe_wf_def)
    show ?thesis
    proof (cases "rp_level request")
      case LocalValidation
      then show ?thesis using assms(1) wf i(5)
        by (cases "resolve_profile_probe V h owner (pp_profile_id profile) (pb_model_id result) st")
          (auto simp: probe_at_level_def)
    qed (use that assms(1) wf i(5) in \<open>auto simp: probe_at_level_def\<close>)
  qed
  show "probe_wf r \<and> pb_network_attempted r = (sent \<noteq> [])" if "res = Inr r" for r
  proof (cases "rp_level request = MinimalInference \<and> rp_confirm_paid_inference request")
    case True
    then show ?thesis using probe_inference_result(1) [OF inf _ _ _ _ that] i by (simp add: may_incur_cost_def)
  next
    case False
    from other [OF False] that show ?thesis by auto
  qed
  show "\<exists>config inference. sent = [InferenceSent config inference]
      \<and> inference_justified V h w owner request profile config inference st" if "sent \<noteq> []"
  proof -
    from that other have c: "rp_level request = MinimalInference" "rp_confirm_paid_inference request" by auto
    from probe_inference_result(2) [OF inf [OF c] _ _ _ _ that] i c show ?thesis
      by (auto simp: inference_justified_def may_incur_cost_def)
  qed
qed

lemma finish_and_record_cases:
  assumes "finish_and_record h w owner result rows = (res, rows')"
  obtains (failed) e where "res = Inl e" "rows' = rows"
  | (recorded) r where "res = Inr r" "r = result\<lparr>pb_completed_at := pw_completed_at w, pb_latency_ms := latency_ms w\<rparr>"
      "rows' = rows @ [probe_row_of h owner r]" "0 < owner" "pb_probe_id r \<notin> pq_probe_id ` set rows"
  using assms by (auto simp: finish_and_record_def probe_record_def Let_def probe_row_of_def split: if_splits)

lemma probe_run_result:
  assumes "probe_run V h catalog w owner request st rows = (res, sent, rows')"
  shows "\<And>e. res = Inl e \<Longrightarrow> rows' = rows"
    and "\<And>r. res = Inr r \<Longrightarrow> probe_wf r \<and> pb_network_attempted r = (sent \<noteq> [])
      \<and> rows' = rows @ [probe_row_of h owner r] \<and> 0 < owner \<and> pb_probe_id r \<notin> pq_probe_id ` set rows"
    and "sent \<noteq> [] \<Longrightarrow> pw_access w 0 = Inr () \<and> (\<exists>profile config inference.
      profiles_get h owner (trim (rp_profile_id request)) (snd st) = Inr profile
      \<and> trim (rp_model_id request) \<in> set (pp_enabled_models profile)
      \<and> sent = [InferenceSent config inference]
      \<and> inference_justified V h w owner request profile config inference st)"
proof -
  have *: "(\<forall>e. res = Inl e \<longrightarrow> rows' = rows)
    \<and> (\<forall>r. res = Inr r \<longrightarrow> probe_wf r \<and> pb_network_attempted r = (sent \<noteq> [])
      \<and> rows' = rows @ [probe_row_of h owner r] \<and> 0 < owner \<and> pb_probe_id r \<notin> pq_probe_id ` set rows)
    \<and> (sent \<noteq> [] \<longrightarrow> pw_access w 0 = Inr () \<and> (\<exists>profile config inference.
      profiles_get h owner (trim (rp_profile_id request)) (snd st) = Inr profile
      \<and> trim (rp_model_id request) \<in> set (pp_enabled_models profile)
      \<and> sent = [InferenceSent config inference]
      \<and> inference_justified V h w owner request profile config inference st))"
  proof (cases "and_then (pw_access w 0) (\<lambda>_.
       and_then (profiles_get h owner (trim (rp_profile_id request)) (snd st)) (\<lambda>profile.
       and_then (initial_result h catalog w owner request profile (snd st)) (\<lambda>result.
       Inr (profile, result))))")
    case (Inl e)
    with assms have "res = Inl e" "sent = []" "rows' = rows" by (simp_all add: probe_run_def)
    then show ?thesis by simp
  next
    case (Inr pr)
    then obtain profile result where pr: "pr = (profile, result)" "pw_access w 0 = Inr ()"
        "profiles_get h owner (trim (rp_profile_id request)) (snd st) = Inr profile"
      and i: "initial_result h catalog w owner request profile (snd st) = Inr result"
      by (auto simp: result_simps)
    obtain answer sent' where l: "probe_at_level V h w owner request profile result st = (answer, sent')"
      by (rule prod.exhaust)
    note r = probe_at_level_result [OF l i] and m = initial_resultD(1) [OF i]
    show ?thesis
    proof (cases answer)
      case (Inl e)
      have "res = Inl e" "sent = sent'" "rows' = rows"
        using assms \<open>and_then _ _ = _\<close> l pr(1) Inl by (simp_all add: probe_run_def Let_def)
      with pr r(2) m show ?thesis by simp
    next
      case (Inr r1)
      obtain res' rows2 where f: "finish_and_record h w owner r1 rows = (res', rows2)" by (rule prod.exhaust)
      have e: "res = res'" "sent = sent'" "rows' = rows2"
        using assms \<open>and_then _ _ = _\<close> l pr(1) f Inr by (simp_all add: probe_run_def Let_def)
      note wf = r(1) [OF Inr]
      from f show ?thesis
      proof (cases rule: finish_and_record_cases)
        case (failed e)
        with e r(2) pr m show ?thesis by simp
      next
        case (recorded r2)
        then have "probe_wf r2 \<and> pb_network_attempted r2 = (sent \<noteq> [])"
          using wf e by simp
        with recorded e r(2) pr m show ?thesis by simp
      qed
    qed
  qed
  from * show "\<And>e. res = Inl e \<Longrightarrow> rows' = rows" by blast
  from * show "\<And>r. res = Inr r \<Longrightarrow> probe_wf r \<and> pb_network_attempted r = (sent \<noteq> [])
      \<and> rows' = rows @ [probe_row_of h owner r] \<and> 0 < owner \<and> pb_probe_id r \<notin> pq_probe_id ` set rows" by blast
  from * show "sent \<noteq> [] \<Longrightarrow> pw_access w 0 = Inr () \<and> (\<exists>profile config inference.
      profiles_get h owner (trim (rp_profile_id request)) (snd st) = Inr profile
      \<and> trim (rp_model_id request) \<in> set (pp_enabled_models profile)
      \<and> sent = [InferenceSent config inference]
      \<and> inference_justified V h w owner request profile config inference st)" by blast
qed

lemma resolve_profile_probe_Inr:
  "resolve_profile_probe V h owner pid m (v, db) = Inr config \<longleftrightarrow> (\<exists>p secret.
     profiles_get h owner pid db = Inr p \<and> m \<in> set (pp_enabled_models p) \<and> pp_credential_configured p
     \<and> credential_ref_parse h (pp_credential_ref p) = Inr (pp_credential_ref p)
     \<and> v_get V (pp_credential_ref p) v = Inr secret
     \<and> config = probe_sampler_config (pp_base_url p) m (pp_protocol p) (pp_auth_kind p) secret)"
  by (auto simp: resolve_profile_probe_def result_simps lease_profile_Inr project_probe_def)

lemma profiles_get_id: "profiles_get h owner pid db = Inr p \<Longrightarrow> pp_profile_id p = pid \<and> pp_owner p = owner"
  by (auto simp: profiles_get_def profile_row_to_record_def profile_key_def result_simps find_Some_iff split: option.splits)

text \<open>C22: a paid inference is justified. When the run of a probe sends anything, it is one inference request
  for the requested model, with at most 16 output tokens: the level was the minimal inference, the caller has
  confirmed the cost, all three access checks have passed, and the profile belongs to the account and enables
  the model. The client is that of the profile, with its endpoint and the secret the vault holds behind its
  handle. The answer says truthfully whether the network was used and whether there may be a cost.\<close>

theorem paid_inference_is_justified:
  assumes "probe_run V h catalog w owner request (v, db) rows = (res, sent, rows')"
  shows "(\<forall>r. res = Inr r \<longrightarrow> pb_network_attempted r = (sent \<noteq> []) \<and> pb_may_incur_cost r = may_incur_cost (pb_level r))
    \<and> (sent = [] \<or> (\<exists>profile secret inference.
      sent = [InferenceSent (probe_sampler_config (pp_base_url profile) (trim (rp_model_id request))
                (pp_protocol profile) (pp_auth_kind profile) secret) inference]
      \<and> rp_level request = MinimalInference \<and> rp_confirm_paid_inference request
      \<and> pw_access w 0 = Inr () \<and> pw_access w 1 = Inr () \<and> pw_access w 2 = Inr ()
      \<and> profiles_get h owner (trim (rp_profile_id request)) db = Inr profile \<and> pp_owner profile = owner
      \<and> trim (rp_model_id request) \<in> set (pp_enabled_models profile)
      \<and> v_get V (pp_credential_ref profile) v = Inr secret
      \<and> ir_model inference = Some (trim (rp_model_id request)) \<and> ir_max_output_tokens inference = Some 16))"
proof (intro conjI allI impI)
  fix r assume "res = Inr r"
  from probe_run_result(2) [OF assms this]
  show "pb_network_attempted r = (sent \<noteq> [])" "pb_may_incur_cost r = may_incur_cost (pb_level r)"
    by (simp_all add: probe_wf_def)
next
  show "sent = [] \<or> (\<exists>profile secret inference.
      sent = [InferenceSent (probe_sampler_config (pp_base_url profile) (trim (rp_model_id request))
                (pp_protocol profile) (pp_auth_kind profile) secret) inference]
      \<and> rp_level request = MinimalInference \<and> rp_confirm_paid_inference request
      \<and> pw_access w 0 = Inr () \<and> pw_access w 1 = Inr () \<and> pw_access w 2 = Inr ()
      \<and> profiles_get h owner (trim (rp_profile_id request)) db = Inr profile \<and> pp_owner profile = owner
      \<and> trim (rp_model_id request) \<in> set (pp_enabled_models profile)
      \<and> v_get V (pp_credential_ref profile) v = Inr secret
      \<and> ir_model inference = Some (trim (rp_model_id request)) \<and> ir_max_output_tokens inference = Some 16)"
  proof (cases "sent = []")
    case False
    from probe_run_result(3) [OF assms this] obtain profile config inference where
      a: "pw_access w 0 = Inr ()" "profiles_get h owner (trim (rp_profile_id request)) db = Inr profile"
        "trim (rp_model_id request) \<in> set (pp_enabled_models profile)" "sent = [InferenceSent config inference]"
      and j: "inference_justified V h w owner request profile config inference (v, db)" by auto
    from profiles_get_id [OF a(2)] have id: "pp_profile_id profile = trim (rp_profile_id request)" "pp_owner profile = owner"
      by simp_all
    from j obtain secret where "v_get V (pp_credential_ref profile) v = Inr secret"
      "config = probe_sampler_config (pp_base_url profile) (trim (rp_model_id request)) (pp_protocol profile)
         (pp_auth_kind profile) secret"
      using a(2) by (auto simp: inference_justified_def id resolve_profile_probe_Inr)
    with a j id show ?thesis unfolding inference_justified_def by blast
  qed simp
qed

text \<open>
  The same for a connection test, which takes the profile and the key from the request.
\<close>

lemma connection_test_is_justified:
  assumes "test_connection h catalog w request = (res, sent)"
  shows "sent \<noteq> [] \<longleftrightarrow> (\<exists>r. res = Inr r)"
    and "sent \<noteq> [] \<Longrightarrow> tc_confirm_paid_inference request \<and> pw_access w 0 = Inr () \<and> pw_access w 1 = Inr ()
      \<and> (\<exists>config inference profile model_id. sent = [InferenceSent config inference]
        \<and> profile_input_normalized h (tc_profile request) = Inr profile
        \<and> normalize_model_id (tc_model_id request) = Inr model_id \<and> model_id \<in> set (in_enabled_models profile)
        \<and> prepare_ephemeral_probe h profile model_id (tc_api_key request) = Inr config
        \<and> ir_model inference = Some model_id \<and> ir_max_output_tokens inference = Some 16)"
  using assms by (auto simp: test_connection_def Let_def result_simps minimal_inference_request_def
      split: sum.splits prod.splits)

section \<open>The history of probes\<close>

text \<open>
  \<open>probe_history V h log rows\<close>: the table after runs for any accounts, with whatever catalog,
  profiles, vault and world; \<open>log\<close> is the answers they gave, with their accounts.
\<close>

inductive probe_history :: "'v vault_ops \<Rightarrow> host_env \<Rightarrow> (int \<times> probe_result) list \<Rightarrow> probe_row list \<Rightarrow> bool" for V h where
  no_probes: "probe_history V h [] []"
| probe_answered: "probe_history V h log rows \<Longrightarrow> probe_run V h catalog w owner request st rows = (Inr r, sent, rows')
    \<Longrightarrow> probe_history V h (log @ [(owner, r)]) rows'"
| probe_refused: "probe_history V h log rows \<Longrightarrow> probe_run V h catalog w owner request st rows = (Inl e, sent, rows')
    \<Longrightarrow> probe_history V h log rows'"

lemma probe_row_of_fields [simp]:
  "pq_probe_id (probe_row_of h owner r) = pb_probe_id r" "pq_owner (probe_row_of h owner r) = owner"
  "pq_profile_id (probe_row_of h owner r) = pb_profile_id r"
  "pq_completed_at (probe_row_of h owner r) = pb_completed_at r"
  by (simp_all add: probe_row_of_def)

lemma probe_history_rows:
  "probe_history V h log rows \<Longrightarrow> rows = map (\<lambda>(owner, r). probe_row_of h owner r) log
     \<and> distinct (map pq_probe_id rows) \<and> (\<forall>(owner, r) \<in> set log. probe_wf r)"
proof (induction rule: probe_history.induct)
  case (probe_answered log rows catalog w owner request st r sent rows')
  from probe_run_result(2) [OF probe_answered.hyps(2) refl] probe_answered.IH
  show ?case by auto
next
  case (probe_refused log rows catalog w owner request st e sent rows')
  have "rows' = rows" by (rule probe_run_result(1) [OF probe_refused.hyps(2) refl])
  then show ?case using probe_refused.IH by blast
qed simp

text \<open>A result as it is read back: the numbers stop at the largest integer of the database.\<close>

definition stored_result :: "probe_result \<Rightarrow> probe_result" where
  "stored_result r = r\<lparr>pb_assignment_count := i64_saturating (pb_assignment_count r),
     pb_latency_ms := i64_saturating (pb_latency_ms r)\<rparr>"

lemma stored_result_fields [simp]:
  "pb_completed_at (stored_result r) = pb_completed_at r" "pb_probe_id (stored_result r) = pb_probe_id r"
  by (simp_all add: stored_result_def)

text \<open>Documented behaviour of the codec, for the warnings a probe can have.\<close>

definition warnings_codec_ok :: "host_env \<Rightarrow> bool" where
  "warnings_codec_ok h \<longleftrightarrow> (\<forall>ws \<in> set warning_lists. models_from_json h (models_to_json h ws) = Some ws)"

lemma probe_of_row_of:
  assumes "warnings_codec_ok h" "probe_wf r"
  shows "probe_of_row h (probe_row_of h owner r) = Inr (stored_result r)"
  using assms by (simp add: probe_of_row_def probe_row_of_def stored_result_def warnings_codec_ok_def probe_wf_def)

lemma probe_wf_stored [simp]: "probe_wf (stored_result r) = probe_wf r"
  by (cases "pb_level r") (simp_all add: probe_wf_def stored_result_def)

lemma newest_first_props:
  fixes rows :: "probe_row list"
  assumes "distinct (map pq_probe_id rows)"
  defines "key \<equiv> \<lambda>r. (pq_completed_at r, pq_probe_id r)"
  shows "length (newest_first rows) = min 100 (length rows)" "set (newest_first rows) \<subseteq> set rows"
    "sorted_wrt (\<lambda>a b. key b < key a) (newest_first rows)"
    "\<And>r. r \<in> set rows \<Longrightarrow> r \<notin> set (newest_first rows) \<Longrightarrow> length (newest_first rows) = 100"
    "\<And>r q. r \<in> set rows \<Longrightarrow> r \<notin> set (newest_first rows) \<Longrightarrow> q \<in> set (newest_first rows) \<Longrightarrow> key r < key q"
proof -
  define xs where "xs = rev (sort_key key rows)"
  have nf: "newest_first rows = take 100 xs" by (simp add: newest_first_def xs_def key_def)
  have st: "set xs = set rows" by (simp add: xs_def)
  have "distinct (map key rows)"
    using assms(1) by (auto simp: distinct_map key_def inj_on_def)
  then have "distinct (map key (sort_key key rows))"
    by (metis distinct_map distinct_sort set_sort)
  then have "sorted_wrt (<) (map key (sort_key key rows))"
    by (simp add: strict_sorted_iff)
  then have s: "sorted_wrt (\<lambda>a b. key b < key a) xs"
    by (simp add: xs_def sorted_wrt_rev sorted_wrt_map)
  show "length (newest_first rows) = min 100 (length rows)" by (simp add: nf xs_def)
  show "set (newest_first rows) \<subseteq> set rows" using set_take_subset [of 100 xs] by (simp add: nf st)
  show "sorted_wrt (\<lambda>a b. key b < key a) (newest_first rows)" unfolding nf using s by (rule sorted_wrt_take)
  show "length (newest_first rows) = 100" if "r \<in> set rows" "r \<notin> set (newest_first rows)" for r
  proof (rule ccontr)
    assume "length (newest_first rows) \<noteq> 100"
    then have "length xs \<le> 100" by (simp add: nf)
    with that show False by (simp add: nf st)
  qed
  show "key r < key q" if "r \<in> set rows" "r \<notin> set (newest_first rows)" "q \<in> set (newest_first rows)" for r q
  proof -
    have "r \<in> set (drop 100 xs)"
      using that(1,2) unfolding nf by (metis Un_iff append_take_drop_id set_append st)
    moreover from s have "sorted_wrt (\<lambda>a b. key b < key a) (take 100 xs @ drop 100 xs)" by simp
    ultimately show ?thesis using that(3) unfolding nf sorted_wrt_append by blast
  qed
qed

lemma rows_of_owner:
  "set (filter (\<lambda>row. pq_owner row = owner \<and> W (pq_profile_id row)) (map (\<lambda>(owner, r). probe_row_of h owner r) log))
     = probe_row_of h owner ` {r. (owner, r) \<in> set log \<and> W (pb_profile_id r)}"
  (is "?L = ?R")
proof
  show "?L \<subseteq> ?R" by auto
  show "?R \<subseteq> ?L"
  proof
    fix row assume "row \<in> ?R"
    then obtain r where r: "row = probe_row_of h owner r" "(owner, r) \<in> set log" "W (pb_profile_id r)" by blast
    then have "row \<in> (\<lambda>(owner, r). probe_row_of h owner r) ` set log" by (auto intro: rev_image_eqI)
    with r show "row \<in> ?L" by simp
  qed
qed

text \<open>The answers of a history that a list for an account, and for a profile, is about.\<close>

definition wanted_probes :: "int \<Rightarrow> rstr option \<Rightarrow> (int \<times> probe_result) list \<Rightarrow> probe_result set" where
  "wanted_probes owner profile_id log = {r. (owner, r) \<in> set log
    \<and> (case profile_id of None \<Rightarrow> True | Some v \<Rightarrow> trim v = [] \<or> pb_profile_id r = trim v)}"

text \<open>C23: recorded probes are listed. After any runs for any accounts the list of an account's probes is
  never an error: it has at most 100 entries, newest first, each a well-formed answer that a run gave to
  this account (with its numbers as the database keeps them), for the profile that was asked for; and an
  answer that is missing is older than the 100 that are there.\<close>

theorem recorded_probes_are_listed:
  assumes "probe_history V h log rows" and "warnings_codec_ok h"
  shows "\<exists>rs. probes_list h owner profile_id rows = Inr rs \<and> length rs \<le> 100
    \<and> sorted_wrt (\<lambda>a b. (pb_completed_at b, pb_probe_id b) < (pb_completed_at a, pb_probe_id a)) rs
    \<and> set rs \<subseteq> stored_result ` wanted_probes owner profile_id log \<and> (\<forall>r \<in> set rs. probe_wf r)
    \<and> (\<forall>r \<in> wanted_probes owner profile_id log. stored_result r \<in> set rs \<or> length rs = 100
        \<and> (\<forall>q \<in> set rs. (pb_completed_at r, pb_probe_id r) < (pb_completed_at q, pb_probe_id q)))"
proof -
  define wanted where "wanted = wanted_probes owner profile_id log"
  note wanted_def = wanted_def [unfolded wanted_probes_def]
  let ?P = "\<lambda>row. pq_owner row = owner \<and> (case profile_id of None \<Rightarrow> True
      | Some v \<Rightarrow> trim v = [] \<or> pq_profile_id row = trim v)"
  define sel where "sel = filter ?P rows"
  have hist: "rows = map (\<lambda>(owner, r). probe_row_of h owner r) log" "distinct (map pq_probe_id rows)"
      "\<forall>(owner, r) \<in> set log. probe_wf r"
    using probe_history_rows [OF assms(1)] by blast+
  have sel: "set sel = probe_row_of h owner ` wanted"
    unfolding sel_def hist(1) wanted_def by (rule rows_of_owner)
  have d: "distinct (map pq_probe_id sel)" using hist(2) by (simp add: sel_def distinct_map_filter)
  note nf = newest_first_props [OF d]
  have stored: "\<exists>r \<in> wanted. row = probe_row_of h owner r \<and> probe_wf r \<and> probe_of_row h row = Inr (stored_result r)"
    if "row \<in> set sel" for row
  proof -
    from that obtain r where r: "r \<in> wanted" "row = probe_row_of h owner r" unfolding sel by blast
    then have "probe_wf r" using hist(3) by (auto simp: wanted_def)
    with r probe_of_row_of [OF assms(2)] show ?thesis by blast
  qed
  define view where "view row = projr (probe_of_row h row)" for row
  have view: "probe_of_row h row = Inr (view row)" "pb_completed_at (view row) = pq_completed_at row"
      "pb_probe_id (view row) = pq_probe_id row" "view row \<in> stored_result ` wanted" "probe_wf (view row)"
    if "row \<in> set sel" for row
    using stored [OF that] by (force simp: view_def)+
  note sub = subsetD [OF nf(2)]
  note nview = view [OF sub]
  have "filter (\<lambda>r. pq_owner r = owner \<and> (f = None \<or> Some (pq_profile_id r) = f)) rows = sel"
    if "f = (case profile_id of None \<Rightarrow> None | Some v \<Rightarrow> if trim v = [] then None else Some (trim v))" for f
    using that unfolding sel_def by (intro filter_cong) (auto split: option.splits)
  then have "probes_list h owner profile_id rows = with_context ''read Provider Probe results''
      (collect_results (map (probe_of_row h) (newest_first sel)))"
    by (simp only: probes_list_def Let_def)
  also have "map (probe_of_row h) (newest_first sel) = map (\<lambda>row. Inr (view row)) (newest_first sel)"
    using nview(1) by simp
  finally have list: "probes_list h owner profile_id rows = Inr (map view (newest_first sel))" by simp
  have srt: "sorted_wrt (\<lambda>a b. (pb_completed_at b, pb_probe_id b) < (pb_completed_at a, pb_probe_id a))
      (map view (newest_first sel))"
    unfolding sorted_wrt_map by (rule sorted_wrt_mono_rel [OF _ nf(3)]) (simp only: nview(2,3))
  have rest: "stored_result r \<in> set (map view (newest_first sel)) \<or> length (map view (newest_first sel)) = 100
      \<and> (\<forall>q \<in> set (map view (newest_first sel)). (pb_completed_at r, pb_probe_id r) < (pb_completed_at q, pb_probe_id q))"
    if r: "r \<in> wanted" for r
  proof -
    have m: "probe_row_of h owner r \<in> set sel" using sel r by blast
    have v: "view (probe_row_of h owner r) = stored_result r"
      using hist(3) r probe_of_row_of [OF assms(2)] by (auto simp: view_def wanted_def)
    show ?thesis
    proof (cases "probe_row_of h owner r \<in> set (newest_first sel)")
      case True
      then show ?thesis using v by (metis image_eqI set_map)
    next
      case False
      then have "length (newest_first sel) = 100" by (rule nf(4) [OF m])
      moreover have "(pb_completed_at r, pb_probe_id r) < (pq_completed_at q, pq_probe_id q)"
        if "q \<in> set (newest_first sel)" for q
        using nf(5) [OF m False that] by simp
      ultimately show ?thesis by (simp add: nview(2,3))
    qed
  qed
  from list nf(1) srt nview(4,5) rest show ?thesis
    unfolding wanted_probes_def wanted_def [symmetric] by (intro exI [of _ "map view (newest_first sel)"]) auto
qed

section \<open>A concrete run\<close>

definition sample_probe_world :: probe_world where
  "sample_probe_world = \<lparr>pw_access = (\<lambda>_. Inr ()), pw_started_at = [49], pw_completed_at = [50],
     pw_elapsed_ms = 5, pw_uuid = [49], pw_sampling_client = (\<lambda>_. True),
     pw_inference = (\<lambda>_ _. InferenceText (lit ''OK'')), pw_http_client = True, pw_header_value = (\<lambda>_. True),
     pw_http = (\<lambda>_. Responded 200 [BodyChunk [123, 125]]),
     pw_json = (\<lambda>_. Some (JsonObject [(lit ''models'', JsonArray [JsonObject [(lit ''id'', JsonString (lit ''grok-4''))]])]))\<rparr>"

definition sample_probe_request :: run_probe_request where
  "sample_probe_request = \<lparr>rp_profile_id = [112], rp_model_id = [109], rp_level = MinimalInference,
     rp_confirm_paid_inference = True\<rparr>"

definition sample_probe_run :: "(host_error + probe_result) \<times> probe_event list \<times> probe_row list" where
  "sample_probe_run = probe_run memory_vault sample_env sample_catalog sample_probe_world 7 sample_probe_request
     ([handle_prefix @ [49] \<mapsto> sample_key], sample_leased_db) []"

definition sample_probe_record :: profile_record where
  "sample_probe_record = record_of_input 7 [112] (handle_prefix @ [49]) [52] 1 [48] [48] sample_profile_input"

lemma sample_probe_profile:
  "profiles_get sample_env 7 [112] sample_leased_db
     = Inr sample_probe_record"
  by (simp add: profiles_get_def sample_leased_db_def profile_key_def profile_row_to_record_def new_profile_row_def
      sample_probe_record_def record_of_input_def) (simp add: sample_env_def sample_profile_input_def)

lemma sample_probe_resolves:
  "resolve_profile_probe memory_vault sample_env 7 [112] [109] ([handle_prefix @ [49] \<mapsto> sample_key], sample_leased_db)
     = Inr (probe_sampler_config [117] [109] OpenaiChat BearerApiKey sample_key)"
proof -
  have "credential_ref_parse sample_env (handle_prefix @ [49]) = Inr (handle_prefix @ [49])"
    by (simp add: credential_ref_parse_def sample_env_def)
  moreover have "v_get memory_vault (handle_prefix @ [49]) [handle_prefix @ [49] \<mapsto> sample_key] = Inr sample_key"
    using sample_key_ok by (simp add: memory_vault_def memory_get_def)
  ultimately show ?thesis
    unfolding resolve_profile_probe_Inr sample_probe_profile
    by (simp add: sample_probe_record_def record_of_input_def sample_profile_input_def)
qed

lemma sample_initial_result:
  obtains r where "initial_result sample_env sample_catalog sample_probe_world 7 sample_probe_request
     sample_probe_record sample_leased_db = Inr r"
proof -
  have "trim [109] = [109]" by (simp add: trim_def trim_start_def trim_end_def is_whitespace_def)
  moreover have "probe_endpoint_origin sample_env [117] = Inr [117]"
    by (simp add: probe_endpoint_origin_def sample_env_def sample_url_def)
  moreover have "assignments_list 7 sample_leased_db = Inr []"
    by (simp add: assignments_list_def sample_leased_db_def sample_binding_db_def empty_db_def)
  ultimately show ?thesis
    by (intro that) (simp add: initial_result_def sample_probe_request_def sample_probe_record_def record_of_input_def sample_profile_input_def Let_def)
qed

lemma sample_probe_run_answer:
  obtains r row config inference where "sample_probe_run = (Inr r, [InferenceSent config inference], [row])"
proof -
  obtain r where r: "initial_result sample_env sample_catalog sample_probe_world 7 sample_probe_request
     sample_probe_record sample_leased_db = Inr r" by (rule sample_initial_result)
  have t: "trim [112] = [112]" "trim [109] = [109]"
    by (simp_all add: trim_def trim_start_def trim_end_def is_whitespace_def)
  have m: "pb_model_id r = [109]" using initial_resultD(2) [OF r] by (simp add: sample_probe_request_def t)
  have p: "pp_profile_id sample_probe_record = [112]" by (simp add: sample_probe_record_def record_of_input_def)
  have w: "pw_access sample_probe_world = (\<lambda>_. Inr ())" "pw_sampling_client sample_probe_world c"
    "trim (lit ''OK'') \<noteq> []" "pw_inference sample_probe_world = (\<lambda>_ _. InferenceText (lit ''OK''))" for c
    by (simp_all add: sample_probe_world_def trim_def trim_start_def trim_end_def is_whitespace_def lit_def)
  obtain q sent where l: "probe_at_level memory_vault sample_env sample_probe_world 7 sample_probe_request sample_probe_record r
      ([handle_prefix @ [49] \<mapsto> sample_key], sample_leased_db) = (Inr q, [sent])"
    and "\<exists>c i. sent = InferenceSent c i"
    by (simp add: probe_at_level_def probe_inference_def sample_probe_resolves m p w probe_client_def run_minimal_inference_def
        sample_probe_request_def Let_def)
  then obtain config inference where e: "sent = InferenceSent config inference" by blast
  have req: "rp_profile_id sample_probe_request = [112]" by (simp add: sample_probe_request_def)
  obtain q' row where f: "finish_and_record sample_env sample_probe_world 7 q [] = (Inr q', [row])"
    by (simp add: finish_and_record_def probe_record_def Let_def)
  have "sample_probe_run = (Inr q', [InferenceSent config inference], [row])"
    using l e f by (simp add: sample_probe_run_def probe_run_def w req t sample_probe_profile r Let_def)
  then show ?thesis by (rule that)
qed

lemma paid_inference_is_justified_witness:
  "\<exists>r row config inference. sample_probe_run = (Inr r, [InferenceSent config inference], [row])
     \<and> pb_network_attempted r \<and> ir_max_output_tokens inference = Some 16"
proof -
  obtain r row config inference where s: "sample_probe_run = (Inr r, [InferenceSent config inference], [row])"
    by (rule sample_probe_run_answer)
  from paid_inference_is_justified [OF s [unfolded sample_probe_run_def]] s show ?thesis by auto
qed

lemma sample_warnings_codec: "warnings_codec_ok sample_env"
  by (simp add: warnings_codec_ok_def warning_lists_def sample_env_def lit_def)

lemma recorded_probes_are_listed_witness:
  "\<exists>rs. probes_list sample_env 7 None (snd (snd sample_probe_run)) = Inr rs \<and> rs \<noteq> [] \<and> length rs \<le> 100"
proof -
  obtain r row config inference where s: "sample_probe_run = (Inr r, [InferenceSent config inference], [row])"
    by (rule sample_probe_run_answer)
  have h: "probe_history memory_vault sample_env ([] @ [(7, r)]) [row]"
    by (rule probe_answered [OF no_probes s [unfolded sample_probe_run_def]])
  have "r \<in> wanted_probes 7 None ([] @ [(7, r)])" by (simp add: wanted_probes_def)
  with recorded_probes_are_listed [OF h sample_warnings_codec, of 7 None] show ?thesis
    by (simp add: s) (metis empty_iff list.set(1) list.size(3) zero_neq_numeral)
qed
end
