(* ===== verification/Account_Separation.thy ===== *)
theory Account_Separation
  imports Host_Steps Provider_Probes
begin

text \<open>
  All tables of the state database whose rows belong to an account: the six of the stores and
  \<open>provider_probe_results\<close>, the table of the recorded probes. The other tables of \<open>state.rs\<close>
  (installed packages and the caches of the package trust) have no account.
\<close>

section \<open>The table of probes\<close>

interpretation probes: owned_table "\<lambda>r. (pq_owner r, pq_probe_id r)"
    "\<lambda>r. Some (pq_owner r)" "\<lambda>k. Some (fst k)"
  by unfold_locales simp

lemma probe_record_slice:
  assumes "probe_record h owner result rows = (r, rows')" "b \<noteq> owner"
  shows "filter (\<lambda>q. Some (pq_owner q) = Some b) rows' = filter (\<lambda>q. Some (pq_owner q) = Some b) rows"
proof -
  have "rows' = rows \<or> rows' = rows @ [probe_row_of h owner result]"
    using assms(1) by (auto simp: probe_record_def Let_def split: if_splits)
  then show ?thesis using probes.slice_append [of "probe_row_of h owner result" b rows] assms(2) by auto
qed

lemma probe_record_ok:
  assumes "probe_record h owner result rows = (r, rows')" "distinct (map pq_probe_id rows)"
  shows "distinct (map pq_probe_id rows')"
  using assms by (auto simp: probe_record_def Let_def split: if_splits)

section \<open>Steps over all tables\<close>

text \<open>
  An operation for the account \<open>owner\<close>: one of the stores, or the recording of a probe with
  whatever result, as every run of \<open>probes/run\<close> that gets that far ends with.
\<close>

inductive account_step ::
  "host_env \<Rightarrow> int \<Rightarrow> state_db \<times> probe_row list \<Rightarrow> state_db \<times> probe_row list \<Rightarrow> bool" for h where
  step_store: "host_step h owner db db' \<Longrightarrow> account_step h owner (db, probes) (db', probes)"
| step_probe: "probe_record h owner result probes = (r, probes')
     \<Longrightarrow> account_step h owner (db, probes) (db, probes')"

inductive account_runs ::
  "host_env \<Rightarrow> int list \<Rightarrow> state_db \<times> probe_row list \<Rightarrow> state_db \<times> probe_row list \<Rightarrow> bool" for h where
  no_steps: "account_runs h [] st st"
| more_steps: "account_step h owner st st1 \<Longrightarrow> account_runs h owners st1 st'
     \<Longrightarrow> account_runs h (owner # owners) st st'"

inductive_cases account_stepE: "account_step h owner st st'"

text \<open>What the database holds for one account, in all tables.\<close>

definition full_account_view :: "int \<Rightarrow> state_db \<times> probe_row list \<Rightarrow> state_db \<times> probe_row list" where
  "full_account_view b st =
     (account_view b (fst st), filter (\<lambda>r. Some (pq_owner r) = Some b) (snd st))"

text \<open>A run of a probe is such a step.\<close>

lemma probe_run_step:
  assumes "probe_run V h catalog w owner request (v, db) probes = (res, sent, probes')"
  shows "probes' = probes \<or> account_step h owner (db, probes) (db, probes')"
  using assms
  by (auto simp: probe_run_def finish_and_record_def Let_def intro: step_probe
      split: sum.splits prod.splits)

lemma account_step_separates:
  assumes "account_step h owner st st'" "db_ok h (fst st)" "b \<noteq> owner"
  shows "full_account_view b st' = full_account_view b st"
  using assms(1)
proof (rule account_stepE)
  fix db db' probes
  assume "st = (db, probes)" "st' = (db', probes)" "host_step h owner db db'"
  then show ?thesis using step_separates assms(2,3) by (simp add: full_account_view_def)
next
  fix result probes r probes' db
  assume "st = (db, probes)" "st' = (db, probes')" "probe_record h owner result probes = (r, probes')"
  then show ?thesis using probe_record_slice assms(3) by (simp add: full_account_view_def)
qed

lemma account_step_ok: "account_step h owner st st' \<Longrightarrow> db_ok h (fst st) \<Longrightarrow> db_ok h (fst st')"
  by (erule account_stepE) (auto dest: db_ok_step)

lemma full_account_view_list:
  assumes "full_account_view b st = full_account_view b st'"
  shows "probes_list h b profile_id (snd st) = probes_list h b profile_id (snd st')"
proof -
  have "filter (\<lambda>r. pq_owner r = b) (snd st) = filter (\<lambda>r. pq_owner r = b) (snd st')"
    using assms by (simp add: full_account_view_def)
  then show ?thesis by (simp only: probes_list_def Let_def filter_filter [symmetric])
qed

lemma account_runs_separate:
  "account_runs h owners st st' \<Longrightarrow> db_ok h (fst st) \<Longrightarrow> b \<notin> set owners
    \<Longrightarrow> full_account_view b st' = full_account_view b st"
proof (induction rule: account_runs.induct)
  case (more_steps owner st st1 owners st')
  have "db_ok h (fst st1)" by (rule account_step_ok [OF more_steps.hyps(1) more_steps.prems(1)])
  moreover have "full_account_view b st1 = full_account_view b st"
    by (rule account_step_separates [OF more_steps.hyps(1) more_steps.prems(1)]) (use more_steps.prems(2) in simp)
  ultimately show ?case using more_steps.IH more_steps.prems(2) by simp
qed simp

section \<open>Accounts are separate\<close>

text \<open>C2: accounts are separate. On a database that satisfies its invariant, however the operations of other
  accounts are interleaved, they leave all rows an account has exactly as they are and in their order, in
  every table with rows of accounts: the agents, customizations, profiles, assignments, bindings, turn routes and recorded probes; and the
  account lists the same probes as before.\<close>

theorem accounts_are_separate:
  assumes "account_runs h owners (db, probes) (db', probes')" "db_ok h db" "b \<notin> set owners"
  shows "account_view b db' = account_view b db
    \<and> filter (\<lambda>r. pq_owner r = b) probes' = filter (\<lambda>r. pq_owner r = b) probes
    \<and> probes_list h b profile_id probes' = probes_list h b profile_id probes"
proof -
  have v: "full_account_view b (db', probes') = full_account_view b (db, probes)"
    using account_runs_separate [OF assms(1) _ assms(3)] assms(2) by simp
  with full_account_view_list [OF v, of h profile_id] show ?thesis by (simp add: full_account_view_def)
qed

lemma accounts_are_separate_witness:
  "\<forall>r. filter (\<lambda>q. pq_owner q = 8) (snd (probe_record sample_env 7 r [])) = []
    \<and> account_view 8 (snd (overlay_upsert sample_abc_catalog [48] 7 [97, 98, 99] UserMd (32 # [104, 105]) 0 empty_db))
       = account_view 8 empty_db"
proof
  fix r
  obtain x db' where o: "overlay_upsert sample_abc_catalog [48] 7 [97, 98, 99] UserMd (32 # [104, 105]) 0 empty_db = (x, db')"
    by fastforce
  obtain y probes' where p: "probe_record sample_env 7 r [] = (y, probes')" by fastforce
  have "account_runs sample_env [7, 7] (empty_db, []) (db', probes')"
    by (rule more_steps [OF step_store [OF step_overlay [OF o]] more_steps [OF step_probe [OF p] no_steps]])
  from accounts_are_separate [OF this, of 8]
  show "filter (\<lambda>q. pq_owner q = 8) (snd (probe_record sample_env 7 r [])) = []
    \<and> account_view 8 (snd (overlay_upsert sample_abc_catalog [48] 7 [97, 98, 99] UserMd (32 # [104, 105]) 0 empty_db))
       = account_view 8 empty_db"
    by (simp add: o p)
qed

end
