(* ===== verification/Package_Trust.thy ===== *)
theory Package_Trust
  imports Agent_Packages Client_Access
begin

text \<open>
  \<open>package_trust.rs\<close>: which publishers may sign Agent Packages. A bundle of publisher keys is
  accepted when a trusted root has signed it; the keys that are active in it form the store of
  trusted publishers. Base64, Ed25519, the timestamp parser and the JSON decoder are arguments
  (\<open>trust_env\<close>). The hexadecimal text of a digest is here as well.
\<close>

section \<open>Documents\<close>

datatype publisher_key_status = KeyActive | KeyRetired | KeyRevoked

fun key_status_as_str :: "publisher_key_status \<Rightarrow> string" where
  "key_status_as_str KeyActive = ''active''"
| "key_status_as_str KeyRetired = ''retired''"
| "key_status_as_str KeyRevoked = ''revoked''"

record publisher_key_record =
  tk_key_id :: rstr
  tk_publisher :: rstr
  tk_algorithm :: rstr
  tk_public_key :: rstr
  tk_status :: publisher_key_status
  tk_not_before :: rstr
  tk_not_after :: rstr

record publisher_trust_bundle =
  tb_schema_version :: nat
  tb_sequence :: nat
  tb_root_key_id :: rstr
  tb_generated_at :: rstr
  tb_expires_at :: rstr
  tb_keys :: "publisher_key_record list"
  tb_signature :: rstr

text \<open>
  \<open>parse_bundle\<close> is \<open>serde_json\<close> for the bundle; \<open>b64_decode\<close> and \<open>b64_encode\<close> the standard
  alphabet of the \<open>base64\<close> crate; \<open>ed_key\<close> says which 32 bytes are a verifying key,
  \<open>ed_signature\<close> which bytes a signature, \<open>ed_verify\<close> is \<open>verify_strict\<close> of a key, a payload and
  a signature; \<open>rfc3339\<close> gives the instant of a timestamp in nanoseconds.
\<close>

record trust_env =
  parse_bundle :: "rstr \<Rightarrow> publisher_trust_bundle option"
  b64_decode :: "rstr \<Rightarrow> nat list option"
  b64_encode :: "nat list \<Rightarrow> rstr"
  ed_key :: "nat list \<Rightarrow> bool"
  ed_signature :: "nat list \<Rightarrow> bool"
  ed_verify :: "nat list \<Rightarrow> nat list \<Rightarrow> nat list \<Rightarrow> bool"
  rfc3339 :: "rstr \<Rightarrow> int option"

section \<open>Hexadecimal digests\<close>

definition hex_digit :: "nat \<Rightarrow> nat" where
  "hex_digit n = (if n < 10 then 48 + n else 87 + n)"

definition lower_hex :: "nat list \<Rightarrow> rstr" where
  "lower_hex bytes = concat (map (\<lambda>b. [hex_digit (b div 16), hex_digit (b mod 16)]) bytes)"

definition hex_byte :: "nat \<Rightarrow> bool" where
  "hex_byte b \<longleftrightarrow> is_ascii_digit b \<or> 97 \<le> b \<and> b \<le> 102"

section \<open>Validation of a bundle\<close>

definition trust_identifier_byte :: "nat \<Rightarrow> bool" where
  "trust_identifier_byte b \<longleftrightarrow> is_ascii_lowercase b \<or> is_ascii_digit b \<or> b \<in> {45, 46, 95}"

definition validate_trust_identifier :: "string \<Rightarrow> rstr \<Rightarrow> host_error + unit" where
  "validate_trust_identifier field value =
     bail_if (value = [] \<or> str_len value > 128 \<or> \<not> list_all trust_identifier_byte (str_bytes value)
        \<or> hd value \<in> {45, 46, 95} \<or> last value \<in> {45, 46, 95})
       (Bailf ''Agent Package publisher trust {field} is invalid'' [lit field])"

definition parse_trust_timestamp :: "trust_env \<Rightarrow> string \<Rightarrow> rstr \<Rightarrow> host_error + int" where
  "parse_trust_timestamp E field value =
     ok_or (rfc3339 E value) (Context (''Agent Package publisher trust '' @ field @ '' is invalid'') (Foreign ''chrono''))"

definition decode_canonical_base64 :: "trust_env \<Rightarrow> string \<Rightarrow> rstr \<Rightarrow> host_error + nat list" where
  "decode_canonical_base64 E field value =
     and_then (ok_or (b64_decode E value) (Context (''decode '' @ field) (Foreign ''base64''))) (\<lambda>bytes.
     and_then (bail_if (b64_encode E bytes \<noteq> value)
       (Bailf ''{field} must use canonical base64'' [lit field])) (\<lambda>_. Inr bytes))"

definition decode_public_key :: "trust_env \<Rightarrow> rstr \<Rightarrow> host_error + nat list" where
  "decode_public_key E value =
     and_then (decode_canonical_base64 E ''Agent Package publisher public key'' value) (\<lambda>bytes.
     and_then (bail_if (length bytes \<noteq> 32) (Bail ''Agent Package publisher public key must be 32 bytes'')) (\<lambda>_.
     and_then (bail_if (\<not> ed_key E bytes)
       (Context ''validate Agent Package publisher Ed25519 public key'' (Foreign ''ed25519''))) (\<lambda>_.
     Inr bytes)))"

fun validate_key_records ::
  "trust_env \<Rightarrow> int \<Rightarrow> rstr option \<Rightarrow> publisher_key_record list \<Rightarrow> host_error + unit" where
  "validate_key_records E now previous [] = Inr ()"
| "validate_key_records E now previous (r # rs) =
     and_then (validate_trust_identifier ''keyId'' (tk_key_id r)) (\<lambda>_.
     and_then (validate_trust_identifier ''publisher'' (tk_publisher r)) (\<lambda>_.
     and_then (bail_if (case previous of None \<Rightarrow> False | Some p \<Rightarrow> p \<ge> tk_key_id r)
       (Bail ''Agent Package publisher trust keys must be uniquely sorted by keyId'')) (\<lambda>_.
     and_then (bail_if (tk_algorithm r \<noteq> lit ''ed25519'')
       (Bail ''Agent Package publisher trust key algorithm is unsupported'')) (\<lambda>_.
     and_then (decode_public_key E (tk_public_key r)) (\<lambda>_.
     and_then (parse_trust_timestamp E ''notBefore'' (tk_not_before r)) (\<lambda>not_before.
     and_then (parse_trust_timestamp E ''notAfter'' (tk_not_after r)) (\<lambda>not_after.
     and_then (bail_if (not_before \<ge> not_after)
       (Bail ''Agent Package publisher key validity window is invalid'')) (\<lambda>_.
     and_then (bail_if (tk_status r = KeyActive \<and> (now < not_before \<or> now \<ge> not_after))
       (Bail ''active Agent Package publisher key is outside its validity window'')) (\<lambda>_.
     validate_key_records E now (Some (tk_key_id r)) rs)))))))))"

definition validate_bundle ::
  "trust_env \<Rightarrow> publisher_trust_bundle \<Rightarrow> int \<Rightarrow> nat \<Rightarrow> host_error + unit" where
  "validate_bundle E bundle now minimum_sequence =
     and_then (bail_if (tb_schema_version bundle \<noteq> 1)
       (Bailf ''unsupported Agent Package publisher trust schema version: {}'' [nat_to_str (tb_schema_version bundle)])) (\<lambda>_.
     and_then (bail_if (tb_sequence bundle = 0 \<or> tb_sequence bundle < minimum_sequence)
       (Bail ''Agent Package publisher trust sequence is stale'')) (\<lambda>_.
     and_then (validate_trust_identifier ''rootKeyId'' (tb_root_key_id bundle)) (\<lambda>_.
     and_then (parse_trust_timestamp E ''generatedAt'' (tb_generated_at bundle)) (\<lambda>generated_at.
     and_then (parse_trust_timestamp E ''expiresAt'' (tb_expires_at bundle)) (\<lambda>expires_at.
     and_then (bail_if (generated_at \<ge> expires_at \<or> now < generated_at \<or> now \<ge> expires_at)
       (Bail ''Agent Package publisher trust bundle is outside its validity window'')) (\<lambda>_.
     and_then (bail_if (length (tb_keys bundle) > 64)
       (Bail ''Agent Package publisher trust bundle contains too many keys'')) (\<lambda>_.
     and_then (validate_key_records E now None (tb_keys bundle)) (\<lambda>_.
     bail_if (tb_signature bundle = [])
       (Bail ''Agent Package publisher trust signature must not be empty'')))))))))"

text \<open>The text a root signs: one line per field of the header and one per key.\<close>

definition key_line :: "publisher_key_record \<Rightarrow> rstr" where
  "key_line k = lit ''key='' @ str_join [124] [tk_key_id k, tk_publisher k, tk_algorithm k, tk_public_key k,
     lit (key_status_as_str (tk_status k)), tk_not_before k, tk_not_after k]"

definition trust_bundle_lines :: "publisher_trust_bundle \<Rightarrow> rstr list" where
  "trust_bundle_lines b =
     [lit ''agentmesh360-publisher-trust-v1'', lit ''schemaVersion='' @ nat_to_str (tb_schema_version b),
      lit ''sequence='' @ nat_to_str (tb_sequence b), lit ''rootKeyId='' @ tb_root_key_id b,
      lit ''generatedAt='' @ tb_generated_at b, lit ''expiresAt='' @ tb_expires_at b]
     @ map key_line (tb_keys b)"

definition trust_bundle_signature_payload :: "publisher_trust_bundle \<Rightarrow> rstr" where
  "trust_bundle_signature_payload b = text_lines (trust_bundle_lines b)"

section \<open>Roots\<close>

record trusted_root_key =
  rk_key_id :: rstr
  rk_public_key :: "nat list"

type_synonym trusted_root_store = "(rstr \<times> trusted_root_key) list"

definition embedded_roots :: trusted_root_store where
  "embedded_roots = []"

fun index_root_keys :: "trust_env \<Rightarrow> trusted_root_store \<Rightarrow> trusted_root_key list \<Rightarrow> host_error + trusted_root_store" where
  "index_root_keys E indexed [] = Inr indexed"
| "index_root_keys E indexed (k # ks) =
     and_then (validate_trust_identifier ''root keyId'' (rk_key_id k)) (\<lambda>_.
     and_then (bail_if (\<not> ed_key E (rk_public_key k))
       (Context ''validate Agent Package trusted root'' (Foreign ''ed25519''))) (\<lambda>_.
     and_then (bail_if (map_of indexed (rk_key_id k) \<noteq> None) (Bail ''Agent Package trusted roots must be unique'')) (\<lambda>_.
     index_root_keys E ((rk_key_id k, k) # indexed) ks)))"

definition roots_from_keys :: "trust_env \<Rightarrow> trusted_root_key list \<Rightarrow> host_error + trusted_root_store" where
  "roots_from_keys E ks =
     and_then (bail_if (ks = [] \<or> length ks > 64) (Bail ''Agent Package trusted root count is invalid'')) (\<lambda>_.
     index_root_keys E [] ks)"

definition verify_signed_payload ::
  "trust_env \<Rightarrow> trusted_root_store \<Rightarrow> rstr \<Rightarrow> rstr \<Rightarrow> nat list \<Rightarrow> string \<Rightarrow> host_error + unit" where
  "verify_signed_payload E roots root_key_id signature payload subject =
     and_then (ok_or (map_of roots root_key_id) (Bailf ''{subject} root is not trusted'' [lit subject])) (\<lambda>root.
     and_then (bail_if (\<not> ed_key E (rk_public_key root))
       (Context (''load '' @ subject @ '' root'') (Foreign ''ed25519''))) (\<lambda>_.
     and_then (decode_canonical_base64 E (subject @ '' signature'') signature) (\<lambda>signature_bytes.
     and_then (bail_if (\<not> ed_signature E signature_bytes)
       (Context (''parse '' @ subject @ '' signature'') (Foreign ''ed25519''))) (\<lambda>_.
     bail_if (\<not> ed_verify E (rk_public_key root) payload signature_bytes)
       (Context (''verify '' @ subject @ '' signature'') (Foreign ''ed25519''))))))"

definition verify_bundle :: "trust_env \<Rightarrow> trusted_root_store \<Rightarrow> publisher_trust_bundle \<Rightarrow> host_error + unit" where
  "verify_bundle E roots b =
     verify_signed_payload E roots (tb_root_key_id b) (tb_signature b)
       (str_bytes (trust_bundle_signature_payload b)) ''Agent Package publisher trust''"

section \<open>The store of trusted publishers\<close>

record trusted_publisher_key =
  pk_key_id :: rstr
  pk_publisher :: rstr
  pk_public_key :: "nat list"

record trusted_publisher_store =
  tp_keys :: "(rstr \<times> trusted_publisher_key) list"
  tp_trust_sequence :: nat
  tp_root_key_id :: "rstr option"
  tp_expires_at :: "int option"

definition embedded_publishers :: trusted_publisher_store where
  "embedded_publishers = \<lparr>tp_keys = [], tp_trust_sequence = 0, tp_root_key_id = None, tp_expires_at = None\<rparr>"

definition publishers_for_offline_authoring :: "trusted_publisher_key \<Rightarrow> trusted_publisher_store" where
  "publishers_for_offline_authoring k =
     \<lparr>tp_keys = [(pk_key_id k, k)], tp_trust_sequence = 0, tp_root_key_id = None, tp_expires_at = None\<rparr>"

text \<open>\<open>HashMap::insert\<close>: an entry of the same key is replaced.\<close>

definition hash_insert :: "'k \<Rightarrow> 'v \<Rightarrow> ('k \<times> 'v) list \<Rightarrow> ('k \<times> 'v) list" where
  "hash_insert k v m = (k, v) # filter (\<lambda>(k', _). k' \<noteq> k) m"

fun collect_active_keys ::
  "trust_env \<Rightarrow> (rstr \<times> trusted_publisher_key) list \<Rightarrow> publisher_key_record list
     \<Rightarrow> host_error + (rstr \<times> trusted_publisher_key) list" where
  "collect_active_keys E keys [] = Inr keys"
| "collect_active_keys E keys (r # rs) =
     (if tk_status r \<noteq> KeyActive then collect_active_keys E keys rs
      else
        and_then (decode_public_key E (tk_public_key r)) (\<lambda>public_key.
        collect_active_keys E (hash_insert (tk_key_id r)
          \<lparr>pk_key_id = tk_key_id r, pk_publisher = tk_publisher r, pk_public_key = public_key\<rparr> keys) rs))"

definition from_signed_bundle_at ::
  "trust_env \<Rightarrow> rstr \<Rightarrow> trusted_root_store \<Rightarrow> int \<Rightarrow> nat \<Rightarrow> host_error + trusted_publisher_store" where
  "from_signed_bundle_at E document roots now minimum_sequence =
     and_then (bail_if (document = [] \<or> str_len document > 64 * 1024)
       (Bail ''Agent Package publisher trust bundle size is invalid'')) (\<lambda>_.
     and_then (ok_or (parse_bundle E document)
       (Context ''parse Agent Package publisher trust bundle'' (Foreign ''serde_json''))) (\<lambda>bundle.
     and_then (validate_bundle E bundle now minimum_sequence) (\<lambda>_.
     and_then (verify_bundle E roots bundle) (\<lambda>_.
     and_then (collect_active_keys E [] (tb_keys bundle)) (\<lambda>keys.
     and_then (with_context ''read verified Agent Package publisher trust expiry''
       (parse_trust_timestamp E ''expiresAt'' (tb_expires_at bundle))) (\<lambda>expires_at.
     Inr \<lparr>tp_keys = keys, tp_trust_sequence = tb_sequence bundle, tp_root_key_id = Some (tb_root_key_id bundle),
          tp_expires_at = Some expires_at\<rparr>))))))"

fun trusted_time_message :: "trusted_time_error \<Rightarrow> string" where
  "trusted_time_message TimeUnavailable = ''AgentMesh360 trusted server time is unavailable''"
| "trusted_time_message TimeStale = ''AgentMesh360 trusted server time is stale''"

text \<open>\<open>clock\<close> is what the gate's \<open>trusted_server_now\<close> answers at the call.\<close>

definition fresh_time :: "string \<Rightarrow> trusted_time_error + int \<Rightarrow> host_error + int" where
  "fresh_time what clock = map_err (\<lambda>e. Context what (Bail (trusted_time_message e))) clock"

definition from_signed_bundle ::
  "trust_env \<Rightarrow> rstr \<Rightarrow> trusted_root_store \<Rightarrow> trusted_time_error + int \<Rightarrow> nat \<Rightarrow> host_error + trusted_publisher_store" where
  "from_signed_bundle E document roots clock minimum_sequence =
     and_then (fresh_time ''Agent Package publisher trust requires fresh Core server time'' clock) (\<lambda>now.
     from_signed_bundle_at E document roots now minimum_sequence)"

definition publisher_get :: "trusted_publisher_store \<Rightarrow> rstr \<Rightarrow> host_error + trusted_publisher_key" where
  "publisher_get s key_id = ok_or (map_of (tp_keys s) key_id) (Bail ''Agent Package signature key is not trusted'')"

definition trusts_publisher :: "trusted_publisher_store \<Rightarrow> rstr \<Rightarrow> bool" where
  "trusts_publisher s publisher \<longleftrightarrow> list_ex (\<lambda>(_, k). pk_publisher k = publisher) (tp_keys s)"

record publisher_trust_audit =
  ta_trust_sequence :: nat
  ta_root_key_id :: "rstr option"
  ta_expires_at :: "int option"
  ta_active_key_count :: nat

definition publisher_audit :: "trusted_publisher_store \<Rightarrow> publisher_trust_audit" where
  "publisher_audit s = \<lparr>ta_trust_sequence = tp_trust_sequence s, ta_root_key_id = tp_root_key_id s,
     ta_expires_at = tp_expires_at s, ta_active_key_count = length (tp_keys s)\<rparr>"

section \<open>What a signed payload determines\<close>

text \<open>
  Documented behaviour of the arguments: a timestamp of RFC 3339 and a Base64 text contain neither a
  line feed nor a vertical bar.
\<close>

definition plain_texts :: "trust_env \<Rightarrow> bool" where
  "plain_texts E \<longleftrightarrow> (\<forall>v t. rfc3339 E v = Some t \<longrightarrow> 10 \<notin> set v \<and> 124 \<notin> set v)
     \<and> (\<forall>bytes. 10 \<notin> set (b64_encode E bytes) \<and> 124 \<notin> set (b64_encode E bytes))"

definition plain_field :: "rstr \<Rightarrow> bool" where
  "plain_field s \<longleftrightarrow> 10 \<notin> set s \<and> 124 \<notin> set s"

lemma plain_fieldD: "plain_field s \<Longrightarrow> 10 \<notin> set s" "plain_field s \<Longrightarrow> 124 \<notin> set s"
  by (simp_all add: plain_field_def)

lemma list_all_str_bytes:
  assumes "list_all P (str_bytes s)" "\<And>b. P b \<Longrightarrow> b < 0x80"
  shows "list_all P s"
proof -
  have "P c" if "c \<in> set s" for c
  proof -
    have b: "\<forall>b \<in> set (utf8_encode c). P b" using assms(1) that by (auto simp: list_all_iff str_bytes_def)
    have "c < 0x80"
    proof (rule ccontr)
      assume "\<not> c < 0x80"
      then have "hd (utf8_encode c) \<ge> 0x80" by (simp add: utf8_encode_def)
      moreover have "hd (utf8_encode c) \<in> set (utf8_encode c)" by simp
      ultimately show False using b assms(2) by fastforce
    qed
    with b show ?thesis by (simp add: utf8_encode_def)
  qed
  then show ?thesis by (simp add: list_all_iff)
qed

lemma trust_identifier_plain:
  assumes "validate_trust_identifier field value = Inr u"
  shows "plain_field value"
proof -
  have "list_all trust_identifier_byte (str_bytes value)"
    using assms by (simp add: validate_trust_identifier_def bail_if_eq_Inr)
  then have "list_all trust_identifier_byte value"
    by (rule list_all_str_bytes) (auto simp: trust_identifier_byte_def is_ascii_lowercase_def is_ascii_digit_def)
  moreover have "\<not> trust_identifier_byte 10" "\<not> trust_identifier_byte 124"
    by (simp_all add: trust_identifier_byte_def is_ascii_lowercase_def is_ascii_digit_def)
  ultimately show ?thesis unfolding plain_field_def list_all_iff by blast
qed

lemma canonical_base64_plain:
  "plain_texts E \<Longrightarrow> decode_canonical_base64 E field value = Inr bytes \<Longrightarrow> plain_field value"
  by (auto simp: decode_canonical_base64_def result_simps plain_texts_def plain_field_def)

lemma timestamp_plain: "plain_texts E \<Longrightarrow> parse_trust_timestamp E field value = Inr t \<Longrightarrow> plain_field value"
  by (auto simp: parse_trust_timestamp_def result_simps plain_texts_def plain_field_def)

lemma lit_plain [simp]: "10 \<notin> set (lit (key_status_as_str st))" "124 \<notin> set (lit (key_status_as_str st))"
  by (cases st; simp add: lit_def)+

lemma nat_to_str_plain [simp]: "10 \<notin> set (nat_to_str n)" "124 \<notin> set (nat_to_str n)"
  using nat_to_str_digits by fastforce+

lemma key_status_as_str_inject [simp]: "key_status_as_str a = key_status_as_str b \<longleftrightarrow> a = b"
  by (cases a; cases b) auto

definition plain_key :: "publisher_key_record \<Rightarrow> bool" where
  "plain_key k \<longleftrightarrow> plain_field (tk_key_id k) \<and> plain_field (tk_publisher k) \<and> tk_algorithm k = lit ''ed25519''
     \<and> plain_field (tk_public_key k) \<and> plain_field (tk_not_before k) \<and> plain_field (tk_not_after k)"

lemma validate_key_records_ok:
  assumes "validate_key_records E now previous rs = Inr u"
  shows "(\<forall>p. previous = Some p \<longrightarrow> (\<forall>r \<in> set rs. p < tk_key_id r)) \<and> sorted_wrt (<) (map tk_key_id rs)
    \<and> (\<forall>r \<in> set rs. (plain_texts E \<longrightarrow> plain_key r)
        \<and> (\<exists>pk. decode_public_key E (tk_public_key r) = Inr pk)
        \<and> (\<exists>b a. rfc3339 E (tk_not_before r) = Some b \<and> rfc3339 E (tk_not_after r) = Some a \<and> b < a
            \<and> (tk_status r = KeyActive \<longrightarrow> b \<le> now \<and> now < a)))"
  using assms
proof (induction E now previous rs rule: validate_key_records.induct)
  case (2 E now previous r rs)
  from 2(2) obtain pk nb na where s: "validate_trust_identifier ''keyId'' (tk_key_id r) = Inr ()"
      "validate_trust_identifier ''publisher'' (tk_publisher r) = Inr ()"
      "\<forall>p. previous = Some p \<longrightarrow> p < tk_key_id r" "tk_algorithm r = lit ''ed25519''"
      "decode_public_key E (tk_public_key r) = Inr pk"
      "parse_trust_timestamp E ''notBefore'' (tk_not_before r) = Inr nb"
      "parse_trust_timestamp E ''notAfter'' (tk_not_after r) = Inr na" "nb < na"
      "tk_status r = KeyActive \<longrightarrow> nb \<le> now \<and> now < na"
      "validate_key_records E now (Some (tk_key_id r)) rs = Inr u"
    by (auto simp: result_simps not_le not_less split: option.splits)
  have k: "plain_key r" if "plain_texts E"
  proof -
    have "plain_field (tk_public_key r)"
      using s(5) canonical_base64_plain [OF that] by (auto simp: decode_public_key_def result_simps)
    then show ?thesis
      using s(4) trust_identifier_plain [OF s(1)] trust_identifier_plain [OF s(2)] timestamp_plain [OF that s(6)]
        timestamp_plain [OF that s(7)] by (simp add: plain_key_def)
  qed
  have ih: "(\<forall>q \<in> set rs. tk_key_id r < tk_key_id q) \<and> sorted_wrt (<) (map tk_key_id rs)
    \<and> (\<forall>r \<in> set rs. (plain_texts E \<longrightarrow> plain_key r)
        \<and> (\<exists>pk. decode_public_key E (tk_public_key r) = Inr pk)
        \<and> (\<exists>b a. rfc3339 E (tk_not_before r) = Some b \<and> rfc3339 E (tk_not_after r) = Some a \<and> b < a
            \<and> (tk_status r = KeyActive \<longrightarrow> b \<le> now \<and> now < a)))"
    using "2.IH" [OF s(10)] by simp
  show ?case
  proof (intro conjI)
    show "\<forall>p. previous = Some p \<longrightarrow> (\<forall>q \<in> set (r # rs). p < tk_key_id q)"
      using s(3) ih by (auto intro: less_trans)
    show "sorted_wrt (<) (map tk_key_id (r # rs))" using ih by simp
    show "\<forall>q \<in> set (r # rs). (plain_texts E \<longrightarrow> plain_key q)
        \<and> (\<exists>pk. decode_public_key E (tk_public_key q) = Inr pk)
        \<and> (\<exists>b a. rfc3339 E (tk_not_before q) = Some b \<and> rfc3339 E (tk_not_after q) = Some a \<and> b < a
            \<and> (tk_status q = KeyActive \<longrightarrow> b \<le> now \<and> now < a))"
      using ih k s(5-9) by (auto simp: parse_trust_timestamp_def result_simps)
  qed
qed simp

lemma validate_bundle_ok:
  assumes "validate_bundle E b now m = Inr u"
  shows "tb_schema_version b = 1" "1 \<le> tb_sequence b" "m \<le> tb_sequence b"
    "\<exists>g e. rfc3339 E (tb_generated_at b) = Some g \<and> rfc3339 E (tb_expires_at b) = Some e \<and> g \<le> now \<and> now < e"
    "length (tb_keys b) \<le> 64" "validate_key_records E now None (tb_keys b) = Inr ()" "tb_signature b \<noteq> []"
    "plain_texts E \<Longrightarrow> plain_field (tb_root_key_id b) \<and> plain_field (tb_generated_at b) \<and> plain_field (tb_expires_at b)"
  using assms trust_identifier_plain timestamp_plain [of E "''generatedAt''"] timestamp_plain [of E "''expiresAt''"]
  by (auto simp: validate_bundle_def result_simps parse_trust_timestamp_def not_less not_le)

lemma literal_fields: "10 \<notin> set (lit ''key='')" "10 \<notin> set (lit ''ed25519'')" "124 \<notin> set (lit ''ed25519'')"
  by (simp_all add: lit_def)

lemma key_line_inject:
  assumes "plain_key j" "plain_key k"
  shows "key_line j = key_line k \<longleftrightarrow> j = k"
proof
  assume "key_line j = key_line k"
  then have "str_join [124] [tk_key_id j, tk_publisher j, tk_algorithm j, tk_public_key j,
       lit (key_status_as_str (tk_status j)), tk_not_before j, tk_not_after j]
     = str_join [124] [tk_key_id k, tk_publisher k, tk_algorithm k, tk_public_key k,
       lit (key_status_as_str (tk_status k)), tk_not_before k, tk_not_after k]"
    by (simp only: key_line_def same_append_eq)
  then have "[tk_key_id j, tk_publisher j, tk_algorithm j, tk_public_key j,
       lit (key_status_as_str (tk_status j)), tk_not_before j, tk_not_after j]
     = [tk_key_id k, tk_publisher k, tk_algorithm k, tk_public_key k,
       lit (key_status_as_str (tk_status k)), tk_not_before k, tk_not_after k]"
    by (rule str_join_inject) (use assms literal_fields in \<open>simp_all add: plain_key_def plain_field_def\<close>)
  then show "j = k" by (intro publisher_key_record.equality) auto
qed simp

lemma key_line_plain: "plain_key k \<Longrightarrow> 10 \<notin> set (key_line k)"
  using literal_fields by (simp add: key_line_def plain_key_def plain_field_def)

lemma map_inject_on: "(\<And>x y. x \<in> set xs \<Longrightarrow> y \<in> set ys \<Longrightarrow> f x = f y \<longleftrightarrow> x = y) \<Longrightarrow> map f xs = map f ys \<longleftrightarrow> xs = ys"
  by (induction xs arbitrary: ys; case_tac ys) auto

lemma trust_bundle_payload_inject:
  assumes "plain_texts E" "validate_bundle E b now m = Inr ()" "validate_bundle E b' now' m' = Inr ()"
    and "trust_bundle_signature_payload b = trust_bundle_signature_payload b'"
  shows "b'\<lparr>tb_signature := tb_signature b\<rparr> = b"
proof -
  have keys: "\<forall>k \<in> set (tb_keys b). plain_key k" "\<forall>k \<in> set (tb_keys b'). plain_key k"
    using validate_key_records_ok [OF validate_bundle_ok(6) [OF assms(2)]]
      validate_key_records_ok [OF validate_bundle_ok(6) [OF assms(3)]] assms(1) by auto
  have "\<forall>l \<in> set (trust_bundle_lines c). 10 \<notin> set l"
    if "validate_bundle E c n i = Inr ()" "\<forall>k \<in> set (tb_keys c). plain_key k" for c n i
    using validate_bundle_ok(8) [OF that(1) assms(1)] that(2)
    by (auto simp: trust_bundle_lines_def plain_field_def key_line_plain) (simp add: lit_def)+
  then have "trust_bundle_lines b = trust_bundle_lines b'"
    using assms(2-4) keys unfolding trust_bundle_signature_payload_def by (intro text_lines_inject) auto
  then have e: "tb_schema_version b = tb_schema_version b'" "tb_sequence b = tb_sequence b'"
      "tb_root_key_id b = tb_root_key_id b'" "tb_generated_at b = tb_generated_at b'"
      "tb_expires_at b = tb_expires_at b'" "map key_line (tb_keys b) = map key_line (tb_keys b')"
    by (simp_all add: trust_bundle_lines_def)
  from e(6) have "tb_keys b = tb_keys b'"
    using keys by (subst (asm) map_inject_on) (auto simp: key_line_inject)
  with e show ?thesis by simp
qed

section \<open>What the store holds\<close>

lemma map_of_hash_insert: "map_of (hash_insert k v m) = (map_of m)(k \<mapsto> v)"
  by (auto simp: hash_insert_def fun_eq_iff map_of_filter_in map_of_eq_None_iff split: if_splits)
    (induction m; auto)+

definition active_key :: "trust_env \<Rightarrow> publisher_key_record list \<Rightarrow> rstr \<Rightarrow> trusted_publisher_key \<Rightarrow> bool" where
  "active_key E rs k key \<longleftrightarrow> (\<exists>r \<in> set rs. tk_status r = KeyActive \<and> tk_key_id r = k
     \<and> (\<exists>bytes. decode_public_key E (tk_public_key r) = Inr bytes
         \<and> key = \<lparr>pk_key_id = k, pk_publisher = tk_publisher r, pk_public_key = bytes\<rparr>))"

lemma collect_active_keys_ok:
  assumes "collect_active_keys E keys rs = Inr keys'" "distinct (map tk_key_id rs)"
  shows "map_of keys' k = Some key \<longleftrightarrow> active_key E rs k key
     \<or> map_of keys k = Some key \<and> \<not> (\<exists>r \<in> set rs. tk_status r = KeyActive \<and> tk_key_id r = k)"
  using assms
proof (induction E keys rs rule: collect_active_keys.induct)
  case (2 E keys r rs)
  show ?case
  proof (cases "tk_status r = KeyActive")
    case False
    with 2 show ?thesis by (auto simp: active_key_def)
  next
    case True
    with 2(3) obtain bytes where d: "decode_public_key E (tk_public_key r) = Inr bytes"
      and c: "collect_active_keys E (hash_insert (tk_key_id r)
          \<lparr>pk_key_id = tk_key_id r, pk_publisher = tk_publisher r, pk_public_key = bytes\<rparr> keys) rs = Inr keys'"
      by (auto simp: result_simps)
    have n: "q \<in> set rs \<Longrightarrow> tk_key_id q \<noteq> tk_key_id r" for q using 2(4) by (metis distinct.simps(2) image_eqI list.set_map list.simps(9))
    have "map_of keys' k = Some key \<longleftrightarrow> active_key E rs k key
        \<or> map_of (hash_insert (tk_key_id r) \<lparr>pk_key_id = tk_key_id r, pk_publisher = tk_publisher r, pk_public_key = bytes\<rparr> keys) k = Some key
          \<and> \<not> (\<exists>r \<in> set rs. tk_status r = KeyActive \<and> tk_key_id r = k)"
      using "2.IH"(2) [OF _ c] True 2(4) by simp
    moreover have "active_key E (r # rs) k key \<longleftrightarrow> active_key E rs k key
        \<or> k = tk_key_id r \<and> key = \<lparr>pk_key_id = k, pk_publisher = tk_publisher r, pk_public_key = bytes\<rparr>"
      using True d by (auto simp: active_key_def)
    moreover have "\<not> active_key E rs (tk_key_id r) key" using n by (auto simp: active_key_def)
    ultimately show ?thesis using True n by (cases "k = tk_key_id r") (auto simp: map_of_hash_insert)
  qed
qed (simp add: active_key_def)

section \<open>What the signature of a root vouches for\<close>

lemma from_signed_bundle_ok:
  assumes "from_signed_bundle_at E document roots now m = Inr s"
  shows "\<exists>b root signature. parse_bundle E document = Some b \<and> map_of roots (tb_root_key_id b) = Some root
    \<and> b64_decode E (tb_signature b) = Some signature
    \<and> ed_verify E (rk_public_key root) (str_bytes (trust_bundle_signature_payload b)) signature
    \<and> 1 \<le> tb_sequence b \<and> m \<le> tb_sequence b \<and> tp_trust_sequence s = tb_sequence b
    \<and> tp_root_key_id s = Some (tb_root_key_id b)
    \<and> (\<exists>g e. rfc3339 E (tb_generated_at b) = Some g \<and> g \<le> now \<and> now < e \<and> tp_expires_at s = Some e)
    \<and> (\<forall>k key. publisher_get s k = Inr key \<longleftrightarrow> active_key E (tb_keys b) k key)
    \<and> (\<forall>r \<in> set (tb_keys b). tk_status r = KeyActive \<longrightarrow> (\<exists>b a. rfc3339 E (tk_not_before r) = Some b
          \<and> rfc3339 E (tk_not_after r) = Some a \<and> b \<le> now \<and> now < a))"
proof -
  from assms obtain b keys e where b: "parse_bundle E document = Some b" "validate_bundle E b now m = Inr ()"
      "verify_bundle E roots b = Inr ()" "collect_active_keys E [] (tb_keys b) = Inr keys"
      "rfc3339 E (tb_expires_at b) = Some e"
      "s = \<lparr>tp_keys = keys, tp_trust_sequence = tb_sequence b, tp_root_key_id = Some (tb_root_key_id b), tp_expires_at = Some e\<rparr>"
    by (auto simp: from_signed_bundle_at_def result_simps parse_trust_timestamp_def)
  note v = validate_bundle_ok [OF b(2)]
  note k = validate_key_records_ok [OF v(6)]
  have d: "distinct (map tk_key_id (tb_keys b))" using k by (simp add: strict_sorted_iff)
  from b(3) obtain root signature where root: "map_of roots (tb_root_key_id b) = Some root"
      "b64_decode E (tb_signature b) = Some signature"
      "ed_verify E (rk_public_key root) (str_bytes (trust_bundle_signature_payload b)) signature"
    by (auto simp: verify_bundle_def verify_signed_payload_def decode_canonical_base64_def result_simps)
  have "publisher_get s i = Inr key \<longleftrightarrow> active_key E (tb_keys b) i key" for i key
    using collect_active_keys_ok [OF b(4) d, of i key] by (simp add: publisher_get_def ok_or_eq_Inr b(6))
  with b root v(2-4) k show ?thesis by auto
qed

section \<open>Properties\<close>

text \<open>a root's signature covers the whole bundle. The signed text determines every field of a
  valid bundle but the signature itself: the sequence, the validity window and every key with its
  publisher, status and window; no two valid bundles can share a signature by shifting field
  boundaries.\<close>

theorem trust_signature_covers_bundle:
  assumes "plain_texts E" "validate_bundle E b now m = Inr ()" "validate_bundle E b' now' m' = Inr ()"
  shows "trust_bundle_signature_payload b = trust_bundle_signature_payload b'
    \<longleftrightarrow> b'\<lparr>tb_signature := tb_signature b\<rparr> = b"
proof
  assume "b'\<lparr>tb_signature := tb_signature b\<rparr> = b"
  then have "trust_bundle_lines b = trust_bundle_lines b'" by (cases b; cases b') (simp add: trust_bundle_lines_def)
  then show "trust_bundle_signature_payload b = trust_bundle_signature_payload b'"
    by (simp add: trust_bundle_signature_payload_def)
qed (rule trust_bundle_payload_inject [OF assms])

text \<open>a store of trusted publishers exists only on the word of a trusted root. It comes from a
  bundle whose signature a root key of the store verifies, inside its validity window and at no older
  sequence than required; it knows exactly the keys the bundle lists as active, each inside its own
  window: a retired, revoked or missing key is never found.\<close>

theorem publishers_are_justified:
  assumes "from_signed_bundle_at E document roots now m = Inr s"
  shows "\<exists>b root signature. parse_bundle E document = Some b \<and> map_of roots (tb_root_key_id b) = Some root
    \<and> b64_decode E (tb_signature b) = Some signature
    \<and> ed_verify E (rk_public_key root) (str_bytes (trust_bundle_signature_payload b)) signature
    \<and> 1 \<le> tb_sequence b \<and> m \<le> tb_sequence b \<and> tp_trust_sequence s = tb_sequence b
    \<and> tp_root_key_id s = Some (tb_root_key_id b)
    \<and> (\<exists>g e. rfc3339 E (tb_generated_at b) = Some g \<and> g \<le> now \<and> now < e \<and> tp_expires_at s = Some e)
    \<and> (\<forall>k key. publisher_get s k = Inr key \<longleftrightarrow> active_key E (tb_keys b) k key)
    \<and> (\<forall>r \<in> set (tb_keys b). tk_status r = KeyActive \<longrightarrow> (\<exists>b a. rfc3339 E (tk_not_before r) = Some b
          \<and> rfc3339 E (tk_not_after r) = Some a \<and> b \<le> now \<and> now < a))"
  by (rule from_signed_bundle_ok [OF assms])

section \<open>Applied to a concrete bundle\<close>

definition sample_key_record :: publisher_key_record where
  "sample_key_record = \<lparr>tk_key_id = [107], tk_publisher = [112], tk_algorithm = lit ''ed25519'', tk_public_key = [65],
     tk_status = KeyActive, tk_not_before = [48], tk_not_after = [57]\<rparr>"

definition sample_bundle :: publisher_trust_bundle where
  "sample_bundle = \<lparr>tb_schema_version = 1, tb_sequence = 3, tb_root_key_id = [114], tb_generated_at = [48],
     tb_expires_at = [57], tb_keys = [sample_key_record, sample_key_record\<lparr>tk_key_id := [108], tk_status := KeyRevoked\<rparr>],
     tb_signature = [65]\<rparr>"

text \<open>One text decodes: to 32 zero bytes, which are a key and a signature of everything.\<close>

definition sample_trust_env :: trust_env where
  "sample_trust_env = \<lparr>parse_bundle = (\<lambda>d. if d = [98] then Some sample_bundle else None),
     b64_decode = (\<lambda>t. if t = [65] then Some (replicate 32 0) else None), b64_encode = (\<lambda>_. [65]),
     ed_key = (\<lambda>_. True), ed_signature = (\<lambda>_. True), ed_verify = (\<lambda>_ _ _. True),
     rfc3339 = (\<lambda>t. case t of [c] \<Rightarrow> if 48 \<le> c \<and> c \<le> 57 then Some (int (c - 48)) else None | _ \<Rightarrow> None)\<rparr>"

definition sample_roots :: trusted_root_store where
  "sample_roots = [([114], \<lparr>rk_key_id = [114], rk_public_key = replicate 32 0\<rparr>)]"

lemma sample_plain_texts: "plain_texts sample_trust_env"
  by (auto simp: plain_texts_def sample_trust_env_def split: list.splits if_splits)

lemma sample_bundle_valid: "validate_bundle sample_trust_env sample_bundle 5 2 = Inr ()"
  by (simp add: validate_bundle_def sample_bundle_def sample_key_record_def sample_trust_env_def
      validate_trust_identifier_def parse_trust_timestamp_def decode_public_key_def decode_canonical_base64_def
      trust_identifier_byte_def is_ascii_lowercase_def is_ascii_digit_def str_len_def str_bytes_def utf8_encode_def
      less_list_code)

lemma trust_signature_covers_bundle_witness:
  "trust_bundle_signature_payload sample_bundle = trust_bundle_signature_payload (sample_bundle\<lparr>tb_signature := [66]\<rparr>)"
proof -
  have v: "validate_bundle sample_trust_env (sample_bundle\<lparr>tb_signature := [66]\<rparr>) 5 2 = Inr ()"
    using sample_bundle_valid by (simp add: validate_bundle_def sample_bundle_def)
  show ?thesis
    using trust_signature_covers_bundle [OF sample_plain_texts sample_bundle_valid v] by simp
qed

lemma sample_publishers: "from_signed_bundle_at sample_trust_env [98] sample_roots 5 2 = Inr
   \<lparr>tp_keys = [([107], \<lparr>pk_key_id = [107], pk_publisher = [112], pk_public_key = replicate 32 0\<rparr>)],
    tp_trust_sequence = 3, tp_root_key_id = Some [114], tp_expires_at = Some 9\<rparr>"
proof -
  have "verify_bundle sample_trust_env sample_roots sample_bundle = Inr ()"
    by (simp add: verify_bundle_def verify_signed_payload_def sample_roots_def sample_bundle_def sample_trust_env_def
        decode_canonical_base64_def)
  moreover have "parse_bundle sample_trust_env [98] = Some sample_bundle" by (simp add: sample_trust_env_def)
  ultimately show ?thesis using sample_bundle_valid
    by (simp add: from_signed_bundle_at_def str_len_def str_bytes_def utf8_encode_def)
      (simp add: sample_bundle_def sample_key_record_def decode_public_key_def decode_canonical_base64_def
        sample_trust_env_def parse_trust_timestamp_def hash_insert_def)
qed

lemma publishers_are_justified_witness: "(2 :: nat) \<le> tb_sequence sample_bundle"
  using publishers_are_justified [OF sample_publishers] by (auto simp: sample_trust_env_def)

end
