(* ===== verification/Package_Artifact.thy ===== *)
theory Package_Artifact
  imports Package_Trust
begin

text \<open>
  \<open>package_artifact.rs\<close>: the signature envelope of an Agent Package, the extraction of the archive
  into a staging directory and the verification of a package directory against its file manifest. A
  directory is a list of nodes by path, the path being the list of its segments; the tar and zstd
  decoders and the JSON decoders are arguments (\<open>artifact_env\<close>).
\<close>

section \<open>Documents\<close>

record signature_envelope =
  se_schema_version :: nat
  se_key_id :: rstr
  se_publisher :: rstr
  se_package_id :: rstr
  se_version :: rstr
  se_artifact_sha256 :: rstr
  se_signature :: rstr

record package_file_record =
  pf_path :: rstr
  pf_size :: nat
  pf_sha256 :: rstr

record package_file_manifest =
  fm_schema_version :: nat
  fm_files :: "package_file_record list"

text \<open>
  An entry as the tar reader hands it out: its kind, its path, the size in its header and the bytes a
  copy of it yields; each of them may fail.
\<close>

datatype tar_kind = TarDirectory | TarFile | TarOther

record tar_entry =
  ta_kind :: tar_kind
  ta_path :: "rstr option"
  ta_size :: "nat option"
  ta_data :: "nat list option"

record artifact_env =
  ae_package :: package_env
  ae_trust :: trust_env
  parse_envelope :: "rstr \<Rightarrow> signature_envelope option"
  parse_file_manifest :: "rstr \<Rightarrow> package_file_manifest option"
  read_archive :: "nat list \<Rightarrow> tar_entry option list option"

definition sha256_hex :: "artifact_env \<Rightarrow> nat list \<Rightarrow> rstr" where
  "sha256_hex E bytes = lower_hex (sha256 (ae_package E) bytes)"

definition max_artifact_bytes :: nat where "max_artifact_bytes = 32 * 1024 * 1024"
definition max_unpacked_bytes :: nat where "max_unpacked_bytes = 128 * 1024 * 1024"
definition max_file_bytes :: nat where "max_file_bytes = 32 * 1024 * 1024"
definition max_file_count :: nat where "max_file_count = 1024"
definition max_archive_entry_count :: nat where "max_archive_entry_count = 2048"

section \<open>The signature envelope\<close>

definition safe_identifier_byte :: "nat \<Rightarrow> bool" where
  "safe_identifier_byte b \<longleftrightarrow> is_ascii_lowercase b \<or> is_ascii_digit b \<or> b \<in> {45, 46, 95}"

definition is_safe_identifier :: "rstr \<Rightarrow> bool" where
  "is_safe_identifier value \<longleftrightarrow> value \<noteq> [] \<and> list_all safe_identifier_byte (str_bytes value)
     \<and> hd value \<notin> {45, 46, 95} \<and> last value \<notin> {45, 46, 95}"

definition validate_sha256 :: "string \<Rightarrow> rstr \<Rightarrow> host_error + unit" where
  "validate_sha256 field value =
     bail_if (str_len value \<noteq> 64 \<or> \<not> list_all hex_byte (str_bytes value))
       (Bailf ''Agent Package {field} is not a lowercase SHA-256 digest'' [lit field])"

definition validate_envelope :: "artifact_env \<Rightarrow> signature_envelope \<Rightarrow> host_error + unit" where
  "validate_envelope E envelope =
     and_then (bail_if (se_schema_version envelope \<noteq> 1)
       (Bailf ''unsupported Agent Package signature schema version: {}'' [nat_to_str (se_schema_version envelope)])) (\<lambda>_.
     and_then (bail_if (\<not> is_safe_identifier (se_key_id envelope)) (Bail ''Agent Package signature keyId is invalid'')) (\<lambda>_.
     and_then (bail_if (\<not> is_safe_identifier (se_publisher envelope)) (Bail ''Agent Package signature publisher is invalid'')) (\<lambda>_.
     and_then (bail_if (\<not> is_safe_identifier (se_package_id envelope)) (Bail ''Agent Package signature packageId is invalid'')) (\<lambda>_.
     and_then (bail_if (\<not> semver_parses (ae_package E) (se_version envelope))
       (Context ''invalid signed Agent Package version'' (Foreign ''semver''))) (\<lambda>_.
     and_then (validate_sha256 ''artifactSha256'' (se_artifact_sha256 envelope)) (\<lambda>_.
     bail_if (se_signature envelope = []) (Bail ''Agent Package signature must not be empty'')))))))"

definition envelope_lines :: "signature_envelope \<Rightarrow> rstr list" where
  "envelope_lines e = [lit ''agentmesh360-package-signature-v1'', lit ''keyId='' @ se_key_id e,
     lit ''publisher='' @ se_publisher e, lit ''packageId='' @ se_package_id e,
     lit ''version='' @ se_version e, lit ''artifactSha256='' @ se_artifact_sha256 e]"

definition signature_payload :: "signature_envelope \<Rightarrow> rstr" where
  "signature_payload e = text_lines (envelope_lines e)"

definition verify_signature ::
  "artifact_env \<Rightarrow> trusted_publisher_store \<Rightarrow> signature_envelope \<Rightarrow> host_error + unit" where
  "verify_signature E store envelope =
     and_then (publisher_get store (se_key_id envelope)) (\<lambda>trusted.
     and_then (bail_if (pk_publisher trusted \<noteq> se_publisher envelope)
       (Bail ''Agent Package signature key is not trusted for this publisher'')) (\<lambda>_.
     and_then (bail_if (\<not> ed_key (ae_trust E) (pk_public_key trusted))
       (Context ''load trusted Agent Package publisher key'' (Foreign ''ed25519''))) (\<lambda>_.
     and_then (ok_or (b64_decode (ae_trust E) (se_signature envelope))
       (Context ''decode Agent Package signature'' (Foreign ''base64''))) (\<lambda>signature_bytes.
     and_then (bail_if (\<not> ed_signature (ae_trust E) signature_bytes)
       (Context ''parse Agent Package signature'' (Foreign ''ed25519''))) (\<lambda>_.
     bail_if (\<not> ed_verify (ae_trust E) (pk_public_key trusted) (str_bytes (signature_payload envelope)) signature_bytes)
       (Context ''verify Agent Package signature'' (Foreign ''ed25519'')))))))"

section \<open>Directories\<close>

datatype node = DirectoryNode | FileNode "nat list" | SymlinkNode | SpecialNode

type_synonym path_key = "rstr list"

type_synonym tree = "(path_key \<times> node) list"

text \<open>Paths are equal when their segments are: \<open>a//b\<close> and \<open>a/./b\<close> are the path \<open>a/b\<close>.\<close>

fun component_text :: "path_component \<Rightarrow> rstr" where
  "component_text (Normal s) = s"
| "component_text RootDir = [47]"
| "component_text CurDir = [46]"
| "component_text ParentDir = [46, 46]"

definition path_key :: "rstr \<Rightarrow> path_key" where
  "path_key value = map component_text (path_components value)"

definition path_text :: "path_key \<Rightarrow> rstr" where
  "path_text key = str_join [47] key"

definition normalized_package_path :: "rstr \<Rightarrow> host_error + path_key" where
  "normalized_package_path value =
     and_then (bail_if (value = [] \<or> path_is_absolute value \<or> 92 \<in> set value \<or> 0 \<in> set value
         \<or> list_ex (\<lambda>c. \<not> is_normal c) (path_components value))
       (Bail ''Agent Package path is not a normalized relative path'')) (\<lambda>_. Inr (path_key value))"

definition package_manifest_path :: path_key where "package_manifest_path = [lit ''agentmesh-agent.toml'']"
definition file_manifest_path :: path_key where "file_manifest_path = [lit ''package-files.v1.json'']"

text \<open>\<open>create_dir_all\<close>: the prefixes that are missing are created, one that is not a directory is an error.\<close>

fun create_dirs :: "path_key \<Rightarrow> path_key \<Rightarrow> tree \<Rightarrow> host_error + tree" where
  "create_dirs done [] t = Inr t"
| "create_dirs done (s # rest) t =
     (case map_of t (done @ [s]) of
        None \<Rightarrow> create_dirs (done @ [s]) rest (t @ [(done @ [s], DirectoryNode)])
      | Some DirectoryNode \<Rightarrow> create_dirs (done @ [s]) rest t
      | Some _ \<Rightarrow> Inl (Context ''create private directory'' (Foreign ''io'')))"

definition create_new_file :: "path_key \<Rightarrow> nat list \<Rightarrow> tree \<Rightarrow> host_error + tree" where
  "create_new_file key bytes t =
     (if map_of t key \<noteq> None then Inl (Context ''create staged Package file'' (Foreign ''io''))
      else Inr (t @ [(key, FileNode bytes)]))"

definition read_bounded_text :: "tree \<Rightarrow> path_key \<Rightarrow> nat \<Rightarrow> host_error + rstr" where
  "read_bounded_text t key max_bytes =
     (case map_of t key of
        Some (FileNode bytes) \<Rightarrow>
          and_then (bail_if (length bytes > max_bytes) (Bail ''Agent Package metadata exceeds the allowed size'')) (\<lambda>_.
          ok_or (from_utf8 bytes) (Context ''Agent Package metadata must be UTF-8'' (Foreign ''utf8'')))
      | _ \<Rightarrow> Inl (Context ''open Package metadata'' (Foreign ''io'')))"

definition digest_file_manifest :: "artifact_env \<Rightarrow> tree \<Rightarrow> host_error + rstr" where
  "digest_file_manifest E t =
     (case map_of t file_manifest_path of
        None \<Rightarrow> Inl (Context ''read Package file manifest metadata'' (Foreign ''io''))
      | Some (FileNode bytes) \<Rightarrow>
          and_then (bail_if (length bytes > max_file_bytes) (Bail ''Agent Package file manifest is invalid'')) (\<lambda>_.
          Inr (sha256_hex E bytes))
      | Some _ \<Rightarrow> Inl (Bail ''Agent Package file manifest is invalid''))"

section \<open>The file manifest\<close>

definition verify_file_record ::
  "artifact_env \<Rightarrow> tree \<Rightarrow> path_key list \<Rightarrow> path_key list \<Rightarrow> rstr option \<Rightarrow> package_file_record \<Rightarrow> host_error + path_key" where
  "verify_file_record E t expected_files seen previous_path r =
     and_then (normalized_package_path (pf_path r)) (\<lambda>path.
     and_then (bail_if (case previous_path of None \<Rightarrow> False | Some p \<Rightarrow> p \<ge> pf_path r)
       (Bail ''Agent Package file manifest must be uniquely sorted by path'')) (\<lambda>_.
     and_then (bail_if (path \<in> set seen \<or> path \<notin> set expected_files)
       (Bail ''Agent Package file manifest contains an unknown or duplicate path'')) (\<lambda>_.
     and_then (bail_if (pf_size r > max_file_bytes)
       (Bail ''Agent Package file manifest declares an oversized file'')) (\<lambda>_.
     and_then (validate_sha256 ''files.sha256'' (pf_sha256 r)) (\<lambda>_.
     case map_of t path of
       Some (FileNode bytes) \<Rightarrow>
         and_then (bail_if (length bytes \<noteq> pf_size r)
           (Bail ''Agent Package file size does not match its file manifest'')) (\<lambda>_.
         and_then (bail_if (sha256_hex E bytes \<noteq> pf_sha256 r)
           (Bail ''Agent Package file digest does not match its file manifest'')) (\<lambda>_. Inr path))
     | _ \<Rightarrow> Inl (Context ''read staged Package file'' (Foreign ''io'')))))))"

fun verify_file_records ::
  "artifact_env \<Rightarrow> tree \<Rightarrow> path_key list \<Rightarrow> path_key list \<Rightarrow> rstr option \<Rightarrow> package_file_record list \<Rightarrow> host_error + unit" where
  "verify_file_records E t expected_files seen previous_path [] = Inr ()"
| "verify_file_records E t expected_files seen previous_path (r # rs) =
     and_then (verify_file_record E t expected_files seen previous_path r) (\<lambda>path.
     verify_file_records E t expected_files (path # seen) (Some (pf_path r)) rs)"

definition verify_file_manifest :: "artifact_env \<Rightarrow> tree \<Rightarrow> path_key list \<Rightarrow> host_error + unit" where
  "verify_file_manifest E t extracted_files =
     and_then (read_bounded_text t file_manifest_path max_file_bytes) (\<lambda>document.
     and_then (ok_or (parse_file_manifest E document)
       (Context ''parse Agent Package file manifest'' (Foreign ''serde_json''))) (\<lambda>manifest.
     and_then (bail_if (fm_schema_version manifest \<noteq> 1)
       (Bailf ''unsupported Agent Package file manifest schema version: {}'' [nat_to_str (fm_schema_version manifest)])) (\<lambda>_.
     let expected_files = filter (\<lambda>p. p \<noteq> file_manifest_path) extracted_files in
     and_then (bail_if (length (fm_files manifest) \<noteq> length expected_files)
       (Bail ''Agent Package file manifest does not cover every file'')) (\<lambda>_.
     verify_file_records E t expected_files [] None (fm_files manifest)))))"

definition verify_reference :: "tree \<Rightarrow> rstr \<Rightarrow> host_error + unit" where
  "verify_reference t reference =
     and_then (normalized_package_path reference) (\<lambda>path.
     bail_if (\<not> (case map_of t path of Some (FileNode _) \<Rightarrow> True | _ \<Rightarrow> False))
       (Bailf ''Agent Package references a missing file: {}'' [path_text path]))"

fun verify_references :: "tree \<Rightarrow> rstr list \<Rightarrow> host_error + unit" where
  "verify_references t [] = Inr ()"
| "verify_references t (r # rs) = and_then (verify_reference t r) (\<lambda>_. verify_references t rs)"

definition verify_referenced_paths :: "tree \<Rightarrow> package_manifest \<Rightarrow> host_error + unit" where
  "verify_referenced_paths t m =
     verify_references t (sk_canonical_workflow (pm_skills m) # map snd (sk_adapters (pm_skills m)))"

section \<open>An installed directory\<close>

text \<open>
  The walk visits every node once. The additions of the entry count and of the sizes are checked in
  the source; with the limits above they cannot overflow.
\<close>

record walk_state =
  wk_entries :: nat
  wk_files :: "path_key list"
  wk_size :: nat

definition walk_entry :: "path_key \<times> node \<Rightarrow> walk_state \<Rightarrow> host_error + walk_state" where
  "walk_entry entry w =
     and_then (bail_if (wk_entries w + 1 > max_archive_entry_count)
       (Bail ''installed Agent Package contains too many entries'')) (\<lambda>_.
     let w = w\<lparr>wk_entries := wk_entries w + 1\<rparr> in
     and_then (bail_if (snd entry = SymlinkNode) (Bail ''installed Agent Package contains a symlink'')) (\<lambda>_.
     and_then (normalized_package_path (path_text (fst entry))) (\<lambda>normalized.
     case snd entry of
       DirectoryNode \<Rightarrow> Inr w
     | SymlinkNode \<Rightarrow> Inl (Bail ''installed Agent Package contains an invalid or duplicate file'')
     | SpecialNode \<Rightarrow> Inl (Bail ''installed Agent Package contains an invalid or duplicate file'')
     | FileNode bytes \<Rightarrow>
         and_then (bail_if (normalized \<in> set (wk_files w))
           (Bail ''installed Agent Package contains an invalid or duplicate file'')) (\<lambda>_.
         let w = w\<lparr>wk_files := wk_files w @ [normalized]\<rparr> in
         and_then (bail_if (length (wk_files w) > max_file_count)
           (Bail ''installed Agent Package contains too many files'')) (\<lambda>_.
         and_then (bail_if (length bytes > max_file_bytes)
           (Bail ''installed Agent Package file exceeds the allowed size'')) (\<lambda>_.
         and_then (bail_if (wk_size w + length bytes > max_unpacked_bytes)
           (Bail ''installed Agent Package size exceeds the allowed limit'')) (\<lambda>_.
         Inr (w\<lparr>wk_size := wk_size w + length bytes\<rparr>))))))))"

fun walk_entries :: "tree \<Rightarrow> walk_state \<Rightarrow> host_error + walk_state" where
  "walk_entries [] w = Inr w"
| "walk_entries (e # es) w = and_then (walk_entry e w) (walk_entries es)"

definition verify_installed_package_tree :: "artifact_env \<Rightarrow> tree \<Rightarrow> rstr \<Rightarrow> host_error + package_manifest" where
  "verify_installed_package_tree E t expected_file_manifest_sha256 =
     and_then (validate_sha256 ''fileManifestSha256'' expected_file_manifest_sha256) (\<lambda>_.
     and_then (digest_file_manifest E t) (\<lambda>actual.
     and_then (bail_if (actual \<noteq> expected_file_manifest_sha256)
       (Bail ''installed Agent Package file manifest digest is invalid'')) (\<lambda>_.
     and_then (walk_entries t \<lparr>wk_entries = 0, wk_files = [], wk_size = 0\<rparr>) (\<lambda>w.
     and_then (bail_if (package_manifest_path \<notin> set (wk_files w) \<or> file_manifest_path \<notin> set (wk_files w))
       (Bail ''installed Agent Package is missing a required manifest'')) (\<lambda>_.
     and_then (verify_file_manifest E t (wk_files w)) (\<lambda>_.
     and_then (read_bounded_text t package_manifest_path max_file_bytes) (\<lambda>document.
     and_then (parse_document (ae_package E) document) (\<lambda>manifest.
     and_then (verify_referenced_paths t manifest) (\<lambda>_. Inr manifest)))))))))"

section \<open>Extraction of an archive\<close>

record extraction =
  ex_tree :: tree
  ex_files :: "path_key list"
  ex_size :: nat
  ex_entries :: nat

definition extract_entry :: "tar_entry option \<Rightarrow> extraction \<Rightarrow> host_error + extraction" where
  "extract_entry read x =
     and_then (ok_or read (Context ''read Agent Package archive entry'' (Foreign ''tar''))) (\<lambda>entry.
     let x = x\<lparr>ex_entries := ex_entries x + 1\<rparr> in
     and_then (bail_if (ex_entries x > max_archive_entry_count) (Bail ''Agent Package archive contains too many entries'')) (\<lambda>_.
     and_then (ok_or (ta_path entry) (Context ''read Agent Package entry path'' (Foreign ''tar''))) (\<lambda>path.
     and_then (normalized_package_path path) (\<lambda>normalized.
     case ta_kind entry of
       TarDirectory \<Rightarrow> and_then (create_dirs [] normalized (ex_tree x)) (\<lambda>t. Inr (x\<lparr>ex_tree := t\<rparr>))
     | TarOther \<Rightarrow> Inl (Bail ''Agent Package archive contains a non-file entry'')
     | TarFile \<Rightarrow>
         and_then (bail_if (normalized \<in> set (ex_files x)) (Bail ''Agent Package archive contains a duplicate file path'')) (\<lambda>_.
         let x = x\<lparr>ex_files := ex_files x @ [normalized]\<rparr> in
         and_then (bail_if (length (ex_files x) > max_file_count) (Bail ''Agent Package archive contains too many files'')) (\<lambda>_.
         and_then (ok_or (ta_size entry) (Context ''read Package entry size'' (Foreign ''tar''))) (\<lambda>size.
         and_then (bail_if (size > max_file_bytes) (Bail ''Agent Package file exceeds the allowed size'')) (\<lambda>_.
         and_then (bail_if (ex_size x + size > max_unpacked_bytes)
           (Bail ''Agent Package unpacked size exceeds the allowed limit'')) (\<lambda>_.
         let x = x\<lparr>ex_size := ex_size x + size\<rparr> in
         and_then (create_dirs [] (butlast normalized) (ex_tree x)) (\<lambda>t.
         and_then (ok_or (ta_data entry) (Context ''extract staged Package file'' (Foreign ''io''))) (\<lambda>bytes.
         and_then (create_new_file normalized bytes t) (\<lambda>t.
         and_then (bail_if (length bytes \<noteq> size) (Bail ''Agent Package file size changed while extracting'')) (\<lambda>_.
         Inr (x\<lparr>ex_tree := t\<rparr>))))))))))))))"

fun extract_entries :: "tar_entry option list \<Rightarrow> extraction \<Rightarrow> host_error + extraction" where
  "extract_entries [] x = Inr x"
| "extract_entries (e # es) x = and_then (extract_entry e x) (extract_entries es)"

definition extract_and_verify ::
  "artifact_env \<Rightarrow> nat list \<Rightarrow> signature_envelope \<Rightarrow> host_error + package_manifest \<times> rstr \<times> tree" where
  "extract_and_verify E artifact envelope =
     and_then (ok_or (read_archive E artifact) (Context ''decode Agent Package zstd artifact'' (Foreign ''zstd''))) (\<lambda>entries.
     and_then (extract_entries entries \<lparr>ex_tree = [], ex_files = [], ex_size = 0, ex_entries = 0\<rparr>) (\<lambda>x.
     and_then (bail_if (package_manifest_path \<notin> set (ex_files x) \<or> file_manifest_path \<notin> set (ex_files x))
       (Bail ''Agent Package is missing a required manifest'')) (\<lambda>_.
     and_then (verify_file_manifest E (ex_tree x) (ex_files x)) (\<lambda>_.
     and_then (read_bounded_text (ex_tree x) package_manifest_path max_file_bytes) (\<lambda>document.
     and_then (parse_document (ae_package E) document) (\<lambda>manifest.
     and_then (bail_if (pm_package_id manifest \<noteq> se_package_id envelope \<or> pm_version manifest \<noteq> se_version envelope
         \<or> pm_publisher manifest \<noteq> se_publisher envelope)
       (Bail ''Agent Package identity does not match its signed envelope'')) (\<lambda>_.
     and_then (verify_referenced_paths (ex_tree x) manifest) (\<lambda>_.
     and_then (digest_file_manifest E (ex_tree x)) (\<lambda>digest.
     Inr (manifest, digest, ex_tree x))))))))))"

record verified_package =
  vp_manifest :: package_manifest
  vp_artifact_sha256 :: rstr
  vp_envelope_sha256 :: rstr
  vp_file_manifest_sha256 :: rstr
  vp_signature_key_id :: rstr
  vp_staging :: tree

definition digest_artifact :: "artifact_env \<Rightarrow> nat list \<Rightarrow> host_error + rstr" where
  "digest_artifact E artifact =
     and_then (bail_if (artifact = [] \<or> length artifact > max_artifact_bytes)
       (Bail ''Agent Package artifact size is outside the allowed range'')) (\<lambda>_.
     Inr (sha256_hex E artifact))"

text \<open>On an error the staging directory is removed again: only a verified package has one.\<close>

definition verify_to_staging ::
  "artifact_env \<Rightarrow> trusted_publisher_store \<Rightarrow> nat list \<Rightarrow> rstr \<Rightarrow> host_error + verified_package" where
  "verify_to_staging E store artifact envelope_document =
     and_then (ok_or (parse_envelope E envelope_document)
       (Context ''parse Agent Package signature'' (Foreign ''serde_json''))) (\<lambda>envelope.
     and_then (validate_envelope E envelope) (\<lambda>_.
     and_then (digest_artifact E artifact) (\<lambda>artifact_sha256.
     and_then (bail_if (artifact_sha256 \<noteq> se_artifact_sha256 envelope)
       (Bail ''Agent Package artifact digest does not match signed envelope'')) (\<lambda>_.
     and_then (verify_signature E store envelope) (\<lambda>_.
     and_then (extract_and_verify E artifact envelope) (\<lambda>(manifest, file_manifest_sha256, staging).
     Inr \<lparr>vp_manifest = manifest, vp_artifact_sha256 = artifact_sha256,
          vp_envelope_sha256 = sha256_hex E (str_bytes envelope_document),
          vp_file_manifest_sha256 = file_manifest_sha256, vp_signature_key_id = se_key_id envelope,
          vp_staging = staging\<rparr>))))))"

section \<open>Paths and directories\<close>

definition key_ok :: "path_key \<Rightarrow> bool" where
  "key_ok k \<longleftrightarrow> k \<noteq> [] \<and> (\<forall>s \<in> set k. s \<noteq> [] \<and> s \<noteq> [46] \<and> s \<noteq> [46, 46] \<and> 47 \<notin> set s)"

text \<open>What a file system guarantees: paths are unique and made of proper segments.\<close>

definition tree_ok :: "tree \<Rightarrow> bool" where
  "tree_ok t \<longleftrightarrow> distinct (map fst t) \<and> (\<forall>k \<in> fst ` set t. key_ok k)"

lemma segment_components_proper:
  "\<forall>s \<in> set ss. s \<noteq> [] \<and> s \<noteq> [46] \<and> s \<noteq> [46, 46] \<Longrightarrow> segment_components ss = map Normal ss"
  by (induction ss) auto

lemma path_key_text:
  assumes "key_ok k"
  shows "path_key (path_text k) = k" "path_components (path_text k) = map Normal k"
proof -
  have s: "str_split 47 (path_text k) = k"
    using assms unfolding path_text_def key_ok_def by (intro str_split_join) auto
  obtain x xs where k: "k = x # xs" using assms by (cases k) (auto simp: key_ok_def)
  have c: "segment_components k = map Normal k"
    by (rule segment_components_proper) (use assms in \<open>simp add: key_ok_def\<close>)
  have x: "x \<noteq> []" "x \<noteq> [46]" using assms by (auto simp: k key_ok_def)
  show p: "path_components (path_text k) = map Normal k"
    unfolding path_components_def s using c x by (simp add: k)
  show "path_key (path_text k) = k" by (simp add: path_key_def p comp_def)
qed

lemma segment_components_normal_ok:
  "list_all is_normal (segment_components ss) \<Longrightarrow> s \<in> set (map component_text (segment_components ss))
    \<Longrightarrow> s \<in> set ss \<and> s \<noteq> [] \<and> s \<noteq> [46] \<and> s \<noteq> [46, 46]"
  by (induction ss rule: segment_components.induct) (auto simp: is_normal_def split: if_splits)

lemma str_split_no_separator: "p \<in> set (str_split d s) \<Longrightarrow> d \<notin> set p"
  by (induction d s arbitrary: p rule: str_split.induct) (auto split: list.splits if_splits)

lemma str_split_starts: "str_split d s = [] # ss \<Longrightarrow> ss \<noteq> [] \<Longrightarrow> hd s = d"
  by (cases s) (auto split: list.splits if_splits)

lemma normalized_package_path_ok:
  assumes "normalized_package_path value = Inr k"
  shows "key_ok k" "k = path_key value"
proof -
  from assms have n: "list_all is_normal (path_components value)" and a: "\<not> path_is_absolute value" "value \<noteq> []"
    and k: "k = path_key value"
    by (auto simp: normalized_package_path_def result_simps list_all_iff list_ex_iff)
  obtain s ss where s: "str_split 47 value = s # ss" by (cases "str_split 47 value") auto
  have sep: "\<forall>p \<in> set (s # ss). 47 \<notin> set p" using str_split_no_separator [of _ 47 "value"] s by auto
  have "s \<noteq> []"
  proof
    assume e: "s = []"
    show False
    proof (cases "ss = []")
      case True
      with e s have "value = []" by (cases "value") (auto split: list.splits if_splits)
      with a show False by simp
    next
      case False
      with e s have "hd value = 47" by (intro str_split_starts) auto
      with a show False by (cases "value") (auto simp: path_is_absolute_def starts_with_def)
    qed
  qed
  with n s have c: "path_components value = segment_components (s # ss)" and l: "list_all is_normal (segment_components (s # ss))"
    by (auto simp: path_components_def is_normal_def split: if_splits)
  have "\<forall>x \<in> set k. x \<noteq> [] \<and> x \<noteq> [46] \<and> x \<noteq> [46, 46] \<and> 47 \<notin> set x"
    using segment_components_normal_ok [OF l] sep unfolding k path_key_def c by blast
  moreover have "s \<noteq> [46]" using n s \<open>s \<noteq> []\<close> by (auto simp: path_components_def is_normal_def split: if_splits)
  then have "k \<noteq> []" using \<open>s \<noteq> []\<close> by (simp add: k path_key_def c)
  ultimately show "key_ok k" by (simp add: key_ok_def)
  show "k = path_key value" by (rule k)
qed

lemma map_of_distinct: "distinct (map fst t) \<Longrightarrow> map_of t k = Some v \<longleftrightarrow> (k, v) \<in> set t"
  by (metis map_of_eq_Some_iff)

section \<open>The walk and the file manifest\<close>

definition file_keys :: "tree \<Rightarrow> path_key list" where
  "file_keys t = map fst (filter (\<lambda>(k, n). case n of FileNode _ \<Rightarrow> True | _ \<Rightarrow> False) t)"

lemma file_keys_simps [simp]:
  "file_keys [] = []"
  "file_keys ((k, FileNode b) # t) = k # file_keys t"
  "file_keys ((k, DirectoryNode) # t) = file_keys t"
  by (simp_all add: file_keys_def)

lemma walk_entry_ok:
  assumes "walk_entry (k, n) w = Inr w'" "key_ok k"
  shows "n = DirectoryNode \<and> w' = w\<lparr>wk_entries := wk_entries w + 1\<rparr>
    \<or> (\<exists>b. n = FileNode b \<and> k \<notin> set (wk_files w) \<and> wk_files w' = wk_files w @ [k])"
proof (cases n)
  case (FileNode b)
  with assms(1) obtain k' where "normalized_package_path (path_text k) = Inr k'" "k' \<notin> set (wk_files w)"
      "wk_files w' = wk_files w @ [k']"
    by (auto simp: walk_entry_def result_simps Let_def)
  then show ?thesis using normalized_package_path_ok(2) path_key_text(1) [OF assms(2)] FileNode by auto
qed (use assms in \<open>auto simp: walk_entry_def result_simps Let_def\<close>)

lemma walk_entries_ok:
  "walk_entries t w = Inr w' \<Longrightarrow> \<forall>k \<in> fst ` set t. key_ok k \<Longrightarrow>
     wk_files w' = wk_files w @ file_keys t \<and> (\<forall>(k, n) \<in> set t. n \<noteq> SymlinkNode \<and> n \<noteq> SpecialNode)"
proof (induction t w rule: walk_entries.induct)
  case (2 e es w)
  obtain k n where e: "e = (k, n)" by (cases e)
  from 2(2) obtain w1 where w1: "walk_entry (k, n) w = Inr w1" "walk_entries es w1 = Inr w'" by (auto simp: result_simps e)
  from walk_entry_ok [OF w1(1)] 2(3) "2.IH" [OF w1(2)] show ?case by (auto simp: e)
qed simp

lemma verify_file_record_ok:
  assumes "verify_file_record E t expected seen previous r = Inr k"
  shows "k = path_key (pf_path r)" "k \<notin> set seen" "k \<in> set expected"
    "\<exists>bytes. map_of t k = Some (FileNode bytes) \<and> length bytes = pf_size r \<and> sha256_hex E bytes = pf_sha256 r"
proof -
  from assms obtain k' where n: "normalized_package_path (pf_path r) = Inr k'" and m: "k' \<notin> set seen" "k' \<in> set expected"
    and c: "(case map_of t k' of
       Some (FileNode bytes) \<Rightarrow>
         and_then (bail_if (length bytes \<noteq> pf_size r)
           (Bail ''Agent Package file size does not match its file manifest'')) (\<lambda>_.
         and_then (bail_if (sha256_hex E bytes \<noteq> pf_sha256 r)
           (Bail ''Agent Package file digest does not match its file manifest'')) (\<lambda>_. Inr k'))
     | _ \<Rightarrow> Inl (Context ''read staged Package file'' (Foreign ''io''))) = Inr k"
    unfolding verify_file_record_def and_then_eq_Inr bail_if_eq_Inr by blast
  from c obtain bytes where b: "map_of t k' = Some (FileNode bytes)" by (auto split: option.splits node.splits)
  with c have "length bytes = pf_size r" "sha256_hex E bytes = pf_sha256 r" "k' = k" by (auto simp: result_simps)
  with b m normalized_package_path_ok(2) [OF n] show "k = path_key (pf_path r)" "k \<notin> set seen" "k \<in> set expected"
    "\<exists>bytes. map_of t k = Some (FileNode bytes) \<and> length bytes = pf_size r \<and> sha256_hex E bytes = pf_sha256 r"
    by auto
qed

lemma verify_file_records_ok:
  "verify_file_records E t expected seen previous rs = Inr u \<Longrightarrow>
     distinct (map (\<lambda>r. path_key (pf_path r)) rs) \<and> set (map (\<lambda>r. path_key (pf_path r)) rs) \<inter> set seen = {}
     \<and> set (map (\<lambda>r. path_key (pf_path r)) rs) \<subseteq> set expected
     \<and> (\<forall>r \<in> set rs. \<exists>bytes. map_of t (path_key (pf_path r)) = Some (FileNode bytes)
          \<and> length bytes = pf_size r \<and> sha256_hex E bytes = pf_sha256 r)"
proof (induction E t expected seen previous rs rule: verify_file_records.induct)
  case (2 E t expected seen previous r rs)
  from 2(2) obtain k where k: "verify_file_record E t expected seen previous r = Inr k"
    "verify_file_records E t expected (k # seen) (Some (pf_path r)) rs = Inr u" by (auto simp: result_simps)
  from verify_file_record_ok [OF k(1)] "2.IH" [OF k(2)] show ?case by auto
qed simp

lemma verify_file_manifest_ok:
  assumes "verify_file_manifest E t files = Inr u" "distinct files"
  obtains bytes document manifest where "map_of t file_manifest_path = Some (FileNode bytes)" "from_utf8 bytes = Some document"
    "parse_file_manifest E document = Some manifest"
    "set (map (\<lambda>r. path_key (pf_path r)) (fm_files manifest)) = set files - {file_manifest_path}"
    "\<forall>r \<in> set (fm_files manifest). \<exists>bytes. map_of t (path_key (pf_path r)) = Some (FileNode bytes)
       \<and> length bytes = pf_size r \<and> sha256_hex E bytes = pf_sha256 r"
proof -
  let ?expected = "filter (\<lambda>p. p \<noteq> file_manifest_path) files"
  from assms(1) obtain document manifest where d: "read_bounded_text t file_manifest_path max_file_bytes = Inr document"
      "parse_file_manifest E document = Some manifest" "length (fm_files manifest) = length ?expected"
      "verify_file_records E t ?expected [] None (fm_files manifest) = Inr u"
    by (auto simp: verify_file_manifest_def result_simps Let_def)
  note v = verify_file_records_ok [OF d(4)]
  from d(1) obtain bytes where b: "map_of t file_manifest_path = Some (FileNode bytes)" "from_utf8 bytes = Some document"
    by (auto simp: read_bounded_text_def result_simps split: option.splits node.splits)
  have "card (set (map (\<lambda>r. path_key (pf_path r)) (fm_files manifest))) = card (set ?expected)"
    using v d(3) assms(2) by (metis distinct_card distinct_filter length_map)
  then have "set (map (\<lambda>r. path_key (pf_path r)) (fm_files manifest)) = set ?expected"
    using v by (intro card_subset_eq) auto
  then have "set (map (\<lambda>r. path_key (pf_path r)) (fm_files manifest)) = set files - {file_manifest_path}" by auto
  with v b d(2) that show thesis by blast
qed

text \<open>The contents of a directory: its files and their bytes.\<close>

definition file_contents :: "tree \<Rightarrow> (path_key \<times> nat list) set" where
  "file_contents t = {(k, bytes). map_of t k = Some (FileNode bytes)}"

lemma set_file_keys: "distinct (map fst t) \<Longrightarrow> k \<in> set (file_keys t) \<longleftrightarrow> (\<exists>b. map_of t k = Some (FileNode b))"
  by (auto simp: file_keys_def map_of_distinct split: node.splits intro: rev_image_eqI)

lemma distinct_file_keys: "distinct (map fst t) \<Longrightarrow> distinct (file_keys t)"
  by (simp add: file_keys_def distinct_map_filter)

lemma verify_tree_ok:
  assumes "verify_installed_package_tree E t d = Inr m" "tree_ok t"
  obtains bytes document manifest toml where "map_of t file_manifest_path = Some (FileNode bytes)" "sha256_hex E bytes = d"
    "from_utf8 bytes = Some document" "parse_file_manifest E document = Some manifest"
    "set (map (\<lambda>r. path_key (pf_path r)) (fm_files manifest)) = set (file_keys t) - {file_manifest_path}"
    "\<forall>r \<in> set (fm_files manifest). \<exists>bytes. map_of t (path_key (pf_path r)) = Some (FileNode bytes)
       \<and> length bytes = pf_size r \<and> sha256_hex E bytes = pf_sha256 r"
    "read_bounded_text t package_manifest_path max_file_bytes = Inr toml" "parse_document (ae_package E) toml = Inr m"
    "verify_referenced_paths t m = Inr ()"
proof -
  from assms(1) obtain w toml where w: "walk_entries t \<lparr>wk_entries = 0, wk_files = [], wk_size = 0\<rparr> = Inr w"
      "digest_file_manifest E t = Inr d" "verify_file_manifest E t (wk_files w) = Inr ()"
      "read_bounded_text t package_manifest_path max_file_bytes = Inr toml" "parse_document (ae_package E) toml = Inr m"
      "verify_referenced_paths t m = Inr ()"
    by (auto simp: verify_installed_package_tree_def result_simps)
  have f: "wk_files w = file_keys t" using walk_entries_ok [OF w(1)] assms(2) by (simp add: tree_ok_def)
  have d: "distinct (wk_files w)" using distinct_file_keys assms(2) by (simp add: f tree_ok_def)
  show thesis
  proof (rule verify_file_manifest_ok [OF w(3) d])
    fix bytes document manifest
    assume b: "map_of t file_manifest_path = Some (FileNode bytes)" "from_utf8 bytes = Some document"
      "parse_file_manifest E document = Some manifest"
      "set (map (\<lambda>r. path_key (pf_path r)) (fm_files manifest)) = set (wk_files w) - {file_manifest_path}"
      "\<forall>r \<in> set (fm_files manifest). \<exists>bytes. map_of t (path_key (pf_path r)) = Some (FileNode bytes)
         \<and> length bytes = pf_size r \<and> sha256_hex E bytes = pf_sha256 r"
    have "sha256_hex E bytes = d" using w(2) b(1) by (auto simp: digest_file_manifest_def result_simps)
    then show thesis using b w(4-6) by (intro that) (simp_all add: f)
  qed
qed

section \<open>Digests\<close>

text \<open>Documented behaviour of SHA-256: a digest is a list of bytes.\<close>

definition digest_bytes :: "artifact_env \<Rightarrow> bool" where
  "digest_bytes E \<longleftrightarrow> (\<forall>x. list_all (\<lambda>b. b < 256) (sha256 (ae_package E) x))"

lemma hex_digit_inject: "a < 16 \<Longrightarrow> b < 16 \<Longrightarrow> hex_digit a = hex_digit b \<longleftrightarrow> a = b"
  by (auto simp: hex_digit_def)

lemma lower_hex_inject:
  "list_all (\<lambda>b. b < 256) xs \<Longrightarrow> list_all (\<lambda>b. b < 256) ys \<Longrightarrow> lower_hex xs = lower_hex ys \<Longrightarrow> xs = ys"
proof (induction xs arbitrary: ys)
  case Nil
  then show ?case by (cases ys) (auto simp: lower_hex_def)
next
  case (Cons x xs)
  then obtain y zs where ys: "ys = y # zs" by (cases ys) (auto simp: lower_hex_def)
  with Cons.prems have "hex_digit (x div 16) = hex_digit (y div 16)" "hex_digit (x mod 16) = hex_digit (y mod 16)"
      "lower_hex xs = lower_hex zs" "x < 256" "y < 256" by (auto simp: lower_hex_def)
  then have "x div 16 = y div 16" "x mod 16 = y mod 16" using hex_digit_inject by auto
  then have "x = y" by (metis div_mult_mod_eq)
  with Cons.IH [of zs] Cons.prems ys \<open>lower_hex xs = lower_hex zs\<close> show ?case by simp
qed

lemma sha256_hex_inject: "digest_bytes E \<Longrightarrow> sha256_hex E x = sha256_hex E y
    \<longleftrightarrow> sha256 (ae_package E) x = sha256 (ae_package E) y"
  unfolding sha256_hex_def digest_bytes_def using lower_hex_inject by metis

lemma file_contents_iff: "(k, b) \<in> file_contents t \<longleftrightarrow> map_of t k = Some (FileNode b)"
  by (simp add: file_contents_def)

lemma read_bounded_text_cong:
  "(\<And>b. map_of t k = Some (FileNode b) \<longleftrightarrow> map_of t' k = Some (FileNode b))
     \<Longrightarrow> read_bounded_text t k n = read_bounded_text t' k n"
  unfolding read_bounded_text_def by (cases "map_of t k"; cases "map_of t' k") (auto split: node.splits)

section \<open>Properties\<close>

text \<open>C14: tampering with an installed package is detected. Two directories that pass verification
  against the same file manifest digest have the same files with the same bytes, and the same manifest;
  the only way around is a collision of SHA-256 between the contents of two files at the same path.\<close>

theorem tampering_is_detected:
  assumes "tree_ok t" "tree_ok t'" "digest_bytes E"
    and "verify_installed_package_tree E t d = Inr m" "verify_installed_package_tree E t' d = Inr m'"
  shows "file_contents t' = file_contents t \<and> m' = m
    \<or> (\<exists>k x y. (k, x) \<in> file_contents t \<and> (k, y) \<in> file_contents t' \<and> x \<noteq> y
         \<and> sha256 (ae_package E) x = sha256 (ae_package E) y)"
proof (rule ccontr)
  assume "\<not> ?thesis"
  then have neq: "\<not> (file_contents t' = file_contents t \<and> m' = m)"
    and no: "\<And>k x y. (k, x) \<in> file_contents t \<Longrightarrow> (k, y) \<in> file_contents t'
        \<Longrightarrow> sha256_hex E x = sha256_hex E y \<Longrightarrow> x = y"
    using sha256_hex_inject [OF assms(3)] by blast+
  obtain f doc man toml where t: "map_of t file_manifest_path = Some (FileNode f)" "sha256_hex E f = d"
    "from_utf8 f = Some doc" "parse_file_manifest E doc = Some man"
    "set (map (\<lambda>r. path_key (pf_path r)) (fm_files man)) = set (file_keys t) - {file_manifest_path}"
    "\<forall>r \<in> set (fm_files man). \<exists>b. map_of t (path_key (pf_path r)) = Some (FileNode b)
       \<and> length b = pf_size r \<and> sha256_hex E b = pf_sha256 r"
    "read_bounded_text t package_manifest_path max_file_bytes = Inr toml" "parse_document (ae_package E) toml = Inr m"
    by (rule verify_tree_ok [OF assms(4,1)])
  obtain f' doc' man' toml' where t': "map_of t' file_manifest_path = Some (FileNode f')" "sha256_hex E f' = d"
    "from_utf8 f' = Some doc'" "parse_file_manifest E doc' = Some man'"
    "set (map (\<lambda>r. path_key (pf_path r)) (fm_files man')) = set (file_keys t') - {file_manifest_path}"
    "\<forall>r \<in> set (fm_files man'). \<exists>b. map_of t' (path_key (pf_path r)) = Some (FileNode b)
       \<and> length b = pf_size r \<and> sha256_hex E b = pf_sha256 r"
    "read_bounded_text t' package_manifest_path max_file_bytes = Inr toml'" "parse_document (ae_package E) toml' = Inr m'"
    by (rule verify_tree_ok [OF assms(5,2)])
  have ff: "f' = f" using no [of file_manifest_path f f'] t(1,2) t'(1,2) by (simp add: file_contents_iff)
  with t(3,4) t'(3,4) have man: "man' = man" by simp
  have dt: "distinct (map fst t)" "distinct (map fst t')" using assms(1,2) by (auto simp: tree_ok_def)
  have same: "map_of t k = Some (FileNode b) \<longleftrightarrow> map_of t' k = Some (FileNode b)" for k b
  proof (cases "k = file_manifest_path")
    case True
    then show ?thesis using t(1) t'(1) ff by auto
  next
    case False
    show ?thesis
    proof (cases "k \<in> set (map (\<lambda>r. path_key (pf_path r)) (fm_files man))")
      case True
      then obtain r where r: "r \<in> set (fm_files man)" "k = path_key (pf_path r)" by auto
      obtain x where x: "map_of t k = Some (FileNode x)" "sha256_hex E x = pf_sha256 r" using t(6) r by blast
      obtain y where y: "map_of t' k = Some (FileNode y)" "sha256_hex E y = pf_sha256 r" using t'(6) r man by blast
      have "x = y" using no [of k x y] x y by (simp add: file_contents_iff)
      with x y show ?thesis by simp
    next
      case no_record: False
      then have "k \<notin> set (file_keys t)" "k \<notin> set (file_keys t')" using t(5) t'(5) man False by auto
      then show ?thesis using set_file_keys dt by blast
    qed
  qed
  then have "file_contents t' = file_contents t" by (simp add: file_contents_def)
  moreover have "toml' = toml" using read_bounded_text_cong [of t _ t'] same t(7) t'(7) by auto
  then have "m' = m" using t(8) t'(8) by simp
  ultimately show False using neq by blast
qed

lemma safe_identifier_no_newline: "is_safe_identifier v \<Longrightarrow> 10 \<notin> set v"
proof -
  assume "is_safe_identifier v"
  then have "list_all safe_identifier_byte (str_bytes v)" by (simp add: is_safe_identifier_def)
  then have "list_all safe_identifier_byte v"
    by (rule list_all_str_bytes) (auto simp: safe_identifier_byte_def is_ascii_lowercase_def is_ascii_digit_def)
  moreover have "\<not> safe_identifier_byte 10" by (simp add: safe_identifier_byte_def is_ascii_lowercase_def is_ascii_digit_def)
  ultimately show ?thesis unfolding list_all_iff by blast
qed

lemma sha256_no_newline: "validate_sha256 field v = Inr u \<Longrightarrow> 10 \<notin> set v"
proof -
  assume "validate_sha256 field v = Inr u"
  then have "list_all hex_byte (str_bytes v)" by (simp add: validate_sha256_def bail_if_eq_Inr)
  then have "list_all hex_byte v"
    by (rule list_all_str_bytes) (auto simp: hex_byte_def is_ascii_digit_def)
  moreover have "\<not> hex_byte 10" by (simp add: hex_byte_def is_ascii_digit_def)
  ultimately show ?thesis unfolding list_all_iff by blast
qed

text \<open>Documented behaviour of \<open>semver\<close>: a version has no line feed.\<close>

definition semver_plain :: "artifact_env \<Rightarrow> bool" where
  "semver_plain E \<longleftrightarrow> (\<forall>v. semver_parses (ae_package E) v \<longrightarrow> 10 \<notin> set v)"

lemma validate_envelope_ok:
  assumes "validate_envelope E e = Inr u"
  shows "se_schema_version e = 1" "is_safe_identifier (se_key_id e)" "is_safe_identifier (se_publisher e)"
    "is_safe_identifier (se_package_id e)" "semver_parses (ae_package E) (se_version e)"
    "validate_sha256 ''artifactSha256'' (se_artifact_sha256 e) = Inr ()" "se_signature e \<noteq> []"
  using assms by (auto simp: validate_envelope_def result_simps)

lemma envelope_payload_inject:
  assumes "semver_plain E" "validate_envelope E e = Inr u" "validate_envelope E e' = Inr u'"
    and "signature_payload e = signature_payload e'"
  shows "e'\<lparr>se_signature := se_signature e\<rparr> = e"
proof -
  have "\<forall>l \<in> set (envelope_lines x). 10 \<notin> set l" if "validate_envelope E x = Inr v" for x v
  proof -
    have l: "10 \<notin> set (lit ''agentmesh360-package-signature-v1'')" "10 \<notin> set (lit ''keyId='')"
      "10 \<notin> set (lit ''publisher='')" "10 \<notin> set (lit ''packageId='')" "10 \<notin> set (lit ''version='')"
      "10 \<notin> set (lit ''artifactSha256='')" by (simp_all add: lit_def)
    note v = validate_envelope_ok [OF that]
    have "10 \<notin> set (se_version x)" using v(5) assms(1) by (simp add: semver_plain_def)
    with l safe_identifier_no_newline [OF v(2)] safe_identifier_no_newline [OF v(3)] safe_identifier_no_newline [OF v(4)]
      sha256_no_newline [OF v(6)] show ?thesis by (simp add: envelope_lines_def)
  qed
  then have "envelope_lines e = envelope_lines e'"
    using assms(2-4) unfolding signature_payload_def by (intro text_lines_inject) blast+
  then show ?thesis using validate_envelope_ok(1) [OF assms(2)] validate_envelope_ok(1) [OF assms(3)]
    by (cases e; cases e') (simp add: envelope_lines_def)
qed

lemma extract_and_verify_identity:
  assumes "extract_and_verify E artifact envelope = Inr (m, d, t)"
  shows "pm_package_id m = se_package_id envelope" "pm_version m = se_version envelope"
    "pm_publisher m = se_publisher envelope" "digest_file_manifest E t = Inr d" "verify_referenced_paths t m = Inr ()"
    "validate_manifest (ae_package E) m = Inr ()"
  using assms by (auto simp: extract_and_verify_def result_simps parse_document_def)

text \<open>C13: a package reaches staging only with the word of its publisher. The signing key is active in
  the store for the publisher the package names; its signature verifies over a text that contains the
  digest of exactly these artifact bytes; the manifest is valid and its identity, version and publisher
  are the signed ones; and no other valid envelope has the same signed text.\<close>

theorem staged_package_is_signed:
  assumes "verify_to_staging E store artifact document = Inr v"
  shows "\<exists>envelope key signature. parse_envelope E document = Some envelope
    \<and> publisher_get store (vp_signature_key_id v) = Inr key
    \<and> pk_publisher key = pm_publisher (vp_manifest v)
    \<and> ed_verify (ae_trust E) (pk_public_key key) (str_bytes (signature_payload envelope)) signature
    \<and> se_artifact_sha256 envelope = sha256_hex E artifact \<and> vp_artifact_sha256 v = sha256_hex E artifact
    \<and> se_package_id envelope = pm_package_id (vp_manifest v) \<and> se_version envelope = pm_version (vp_manifest v)
    \<and> validate_manifest (ae_package E) (vp_manifest v) = Inr ()
    \<and> digest_file_manifest E (vp_staging v) = Inr (vp_file_manifest_sha256 v)
    \<and> (\<forall>other. semver_plain E \<and> validate_envelope E other = Inr () \<and> signature_payload other = signature_payload envelope
          \<longrightarrow> other\<lparr>se_signature := se_signature envelope\<rparr> = envelope)"
proof -
  from assms obtain e m d t where e: "parse_envelope E document = Some e" "validate_envelope E e = Inr ()"
      "sha256_hex E artifact = se_artifact_sha256 e" "verify_signature E store e = Inr ()"
      "extract_and_verify E artifact e = Inr (m, d, t)"
      "v = \<lparr>vp_manifest = m, vp_artifact_sha256 = se_artifact_sha256 e, vp_envelope_sha256 = sha256_hex E (str_bytes document),
          vp_file_manifest_sha256 = d, vp_signature_key_id = se_key_id e, vp_staging = t\<rparr>"
    by (auto simp: verify_to_staging_def digest_artifact_def result_simps)
  from e(4) obtain key signature where k: "publisher_get store (se_key_id e) = Inr key" "pk_publisher key = se_publisher e"
      "ed_verify (ae_trust E) (pk_public_key key) (str_bytes (signature_payload e)) signature"
    by (auto simp: verify_signature_def result_simps)
  have "other\<lparr>se_signature := se_signature e\<rparr> = e"
    if "semver_plain E" "validate_envelope E other = Inr ()" "signature_payload other = signature_payload e" for other
    using envelope_payload_inject [OF that(1) e(2) that(2)] that(3) by simp
  with e k extract_and_verify_identity [OF e(5)] show ?thesis by auto
qed

section \<open>Applied to a concrete package\<close>

text \<open>A package of three one-byte files; the digest is 31 zero bytes and the length.\<close>

definition sample_digest :: "nat list \<Rightarrow> nat list" where
  "sample_digest bytes = replicate 31 0 @ [length bytes mod 256]"

definition sample_file_manifest :: package_file_manifest where
  "sample_file_manifest = \<lparr>fm_schema_version = 1, fm_files =
     [\<lparr>pf_path = lit ''agentmesh-agent.toml'', pf_size = 1, pf_sha256 = lower_hex (sample_digest [49])\<rparr>,
      \<lparr>pf_path = [119], pf_size = 1, pf_sha256 = lower_hex (sample_digest [49])\<rparr>]\<rparr>"

definition sample_artifact :: "nat list" where
  "sample_artifact = [7]"

definition sample_envelope :: signature_envelope where
  "sample_envelope = \<lparr>se_schema_version = 1, se_key_id = [107], se_publisher = [112], se_package_id = [112],
     se_version = [49], se_artifact_sha256 = lower_hex (sample_digest sample_artifact), se_signature = [65]\<rparr>"

definition sample_tar_file :: "rstr \<Rightarrow> nat \<Rightarrow> tar_entry option" where
  "sample_tar_file path b = Some \<lparr>ta_kind = TarFile, ta_path = Some path, ta_size = Some 1, ta_data = Some [b]\<rparr>"

definition sample_artifact_env :: artifact_env where
  "sample_artifact_env = \<lparr>ae_package = sample_package_env\<lparr>sha256 := sample_digest\<rparr>, ae_trust = sample_trust_env,
     parse_envelope = (\<lambda>d. if d = [101] then Some sample_envelope else None),
     parse_file_manifest = (\<lambda>d. if d = [50] then Some sample_file_manifest else None),
     read_archive = (\<lambda>a. Some [sample_tar_file (lit ''agentmesh-agent.toml'') 49,
        sample_tar_file (lit ''package-files.v1.json'') 50, sample_tar_file [119] 51])\<rparr>"

definition sample_tree :: tree where
  "sample_tree = [(package_manifest_path, FileNode [49]), (file_manifest_path, FileNode [50]), ([[119]], FileNode [51])]"

lemma sample_env_simps [simp]:
  "sha256_hex sample_artifact_env bytes = lower_hex (sample_digest bytes)"
  "ae_package sample_artifact_env = sample_package_env\<lparr>sha256 := sample_digest\<rparr>"
  "ae_trust sample_artifact_env = sample_trust_env"
  "parse_file_manifest sample_artifact_env [50] = Some sample_file_manifest"
  by (simp_all add: sample_artifact_env_def sha256_hex_def)

lemma sample_paths [simp]:
  "normalized_package_path (lit ''agentmesh-agent.toml'') = Inr package_manifest_path"
  "normalized_package_path (lit ''package-files.v1.json'') = Inr file_manifest_path"
  "normalized_package_path [119] = Inr [[119]]"
  "package_manifest_path \<noteq> file_manifest_path" "file_manifest_path \<noteq> package_manifest_path"
  "package_manifest_path \<noteq> [[119]]" "file_manifest_path \<noteq> [[119]]" "[[119]] \<noteq> package_manifest_path" "[[119]] \<noteq> file_manifest_path"
  by (simp_all add: normalized_package_path_def path_is_absolute_def starts_with_def path_components_def is_normal_def
      path_key_def package_manifest_path_def file_manifest_path_def lit_def)

lemma sample_digest_hex: "lower_hex (sample_digest [b]) = replicate 63 48 @ [49]"
proof -
  have "concat (replicate n [48, 48 :: nat]) @ [48] = replicate (Suc (2 * n)) 48" for n
    by (induction n) simp_all
  from this [of 31] show ?thesis by (simp add: sample_digest_def lower_hex_def hex_digit_def)
qed

lemma sample_sha [simp]:
  "validate_sha256 field (lower_hex (sample_digest [b])) = Inr ()" "lower_hex (sample_digest [b]) = lower_hex (sample_digest [c])"
proof -
  have "str_bytes (replicate n 48 @ [49]) = replicate n 48 @ [49]" for n
    by (induction n) (simp_all add: str_bytes_def utf8_encode_def)
  then show "validate_sha256 field (lower_hex (sample_digest [b])) = Inr ()"
    by (auto simp: sample_digest_hex validate_sha256_def str_len_def hex_byte_def is_ascii_digit_def list_all_iff)
qed (simp add: sample_digest_hex)

lemma sample_parse: "parse_document (sample_package_env\<lparr>sha256 := sample_digest\<rparr>) [49] = Inr sample_manifest"
proof -
  have "validate_manifest (sample_package_env\<lparr>sha256 := f\<rparr>) m = validate_manifest sample_package_env m" for f m
    by (simp add: validate_manifest_def validate_source_repository_def)
  moreover have "validate_manifest sample_package_env sample_manifest = Inr ()"
    using sample_manifest_valid [of "[49]"] by (simp add: sample_manifest_def)
  moreover have "toml_parse sample_package_env [49] = Some sample_manifest" by (simp add: sample_package_env_def)
  ultimately show ?thesis by (simp add: parse_document_def)
qed

lemma sample_records:
  assumes "map_of t package_manifest_path = Some (FileNode [49])" "map_of t file_manifest_path = Some (FileNode [50])"
    "map_of t [[119]] = Some (FileNode [51])"
    and "set files = {package_manifest_path, file_manifest_path, [[119]]}" "length files = 3" "distinct files"
  shows "verify_file_manifest sample_artifact_env t files = Inr ()" "verify_referenced_paths t sample_manifest = Inr ()"
    "read_bounded_text t package_manifest_path max_file_bytes = Inr [49]"
    "digest_file_manifest sample_artifact_env t = Inr (lower_hex (sample_digest [50]))"
proof -
  have "card (set (filter (\<lambda>p. p \<noteq> file_manifest_path) files)) = card {package_manifest_path, [[119 :: nat]]}"
    by (rule arg_cong [of _ _ card]) (use assms(4) in auto)
  then have l: "length (filter (\<lambda>p. p \<noteq> file_manifest_path) files) = 2"
    using distinct_card [of "filter (\<lambda>p. p \<noteq> file_manifest_path) files"] assms(6)
    by (metis card_2_iff distinct_filter sample_paths(8))
  have "\<not> [119] \<le> lit ''agentmesh-agent.toml''" by (simp add: lit_def less_eq_list_code)
  then show "verify_file_manifest sample_artifact_env t files = Inr ()"
    using assms(1-4) l
    by (simp add: verify_file_manifest_def read_bounded_text_def max_file_bytes_def sample_file_manifest_def Let_def
        verify_file_record_def del: One_nat_def)
  show "verify_referenced_paths t sample_manifest = Inr ()"
    using assms(3) by (simp add: verify_referenced_paths_def sample_manifest_def verify_reference_def)
  show "read_bounded_text t package_manifest_path max_file_bytes = Inr [49]"
    "digest_file_manifest sample_artifact_env t = Inr (lower_hex (sample_digest [50]))"
    using assms(1,2) by (simp_all add: read_bounded_text_def digest_file_manifest_def max_file_bytes_def)
qed

lemma sample_keys_ok: "key_ok package_manifest_path" "key_ok file_manifest_path" "key_ok [[119]]"
  by (simp_all add: key_ok_def package_manifest_path_def file_manifest_path_def lit_def)

lemma sample_walk [simp]:
  "normalized_package_path (path_text package_manifest_path) = Inr package_manifest_path"
  "normalized_package_path (path_text file_manifest_path) = Inr file_manifest_path"
  "normalized_package_path (path_text [[119]]) = Inr [[119]]"
  "butlast package_manifest_path = []" "butlast file_manifest_path = []"
  using sample_paths(1-3) by (simp_all add: path_text_def package_manifest_path_def file_manifest_path_def)

lemma sample_tree_verified:
  assumes "t = sample_tree \<or> t = rev sample_tree"
  shows "tree_ok t \<and> verify_installed_package_tree sample_artifact_env t (lower_hex (sample_digest [50])) = Inr sample_manifest"
proof -
  have o: "tree_ok t" using assms sample_keys_ok by (auto simp: tree_ok_def sample_tree_def)
  have m: "map_of t package_manifest_path = Some (FileNode [49])" "map_of t file_manifest_path = Some (FileNode [50])"
    "map_of t [[119]] = Some (FileNode [51])" using assms by (auto simp: sample_tree_def)
  obtain w where w: "walk_entries t \<lparr>wk_entries = 0, wk_files = [], wk_size = 0\<rparr> = Inr w"
    "set (wk_files w) = {package_manifest_path, file_manifest_path, [[119]]}" "length (wk_files w) = 3" "distinct (wk_files w)"
    using assms by (auto simp: sample_tree_def walk_entry_def max_archive_entry_count_def max_file_count_def
        max_file_bytes_def max_unpacked_bytes_def Let_def insert_commute)
  note r = sample_records [OF m w(2-4)]
  show ?thesis using o w r sample_parse by (simp add: verify_installed_package_tree_def)
qed

lemma tampering_is_detected_witness: "file_contents (rev sample_tree) = file_contents sample_tree"
proof -
  have "digest_bytes sample_artifact_env" by (simp add: digest_bytes_def sample_digest_def list_all_iff)
  moreover have "map_of (rev sample_tree) = map_of sample_tree"
    by (simp add: sample_tree_def fun_eq_iff)
  ultimately show ?thesis
    using tampering_is_detected [of sample_tree "rev sample_tree" sample_artifact_env "lower_hex (sample_digest [50])"]
      sample_tree_verified by (auto simp: file_contents_def)
qed

definition sample_publisher_store :: trusted_publisher_store where
  "sample_publisher_store =
     \<lparr>tp_keys = [([107], \<lparr>pk_key_id = [107], pk_publisher = [112], pk_public_key = replicate 32 0\<rparr>)],
      tp_trust_sequence = 3, tp_root_key_id = Some [114], tp_expires_at = Some 9\<rparr>"

definition sample_staged :: verified_package where
  "sample_staged = \<lparr>vp_manifest = sample_manifest, vp_artifact_sha256 = lower_hex (sample_digest sample_artifact),
     vp_envelope_sha256 = lower_hex (sample_digest [101]), vp_file_manifest_sha256 = lower_hex (sample_digest [50]),
     vp_signature_key_id = [107], vp_staging = sample_tree\<rparr>"

lemma sample_staging: "verify_to_staging sample_artifact_env sample_publisher_store sample_artifact [101] = Inr sample_staged"
proof -
  have x: "extract_entries [sample_tar_file (lit ''agentmesh-agent.toml'') 49,
        sample_tar_file (lit ''package-files.v1.json'') 50, sample_tar_file [119] 51]
      \<lparr>ex_tree = [], ex_files = [], ex_size = 0, ex_entries = 0\<rparr>
    = Inr \<lparr>ex_tree = sample_tree, ex_files = [package_manifest_path, file_manifest_path, [[119]]], ex_size = 3, ex_entries = 3\<rparr>"
    by (simp add: sample_tar_file_def extract_entry_def max_archive_entry_count_def max_file_count_def Let_def
        max_file_bytes_def max_unpacked_bytes_def create_new_file_def sample_tree_def)
  note r = sample_records [of sample_tree "[package_manifest_path, file_manifest_path, [[119]]]"]
  have "extract_and_verify sample_artifact_env sample_artifact sample_envelope
      = Inr (sample_manifest, lower_hex (sample_digest [50]), sample_tree)"
    using x r sample_parse
    by (simp add: extract_and_verify_def sample_artifact_env_def [THEN arg_cong, of read_archive])
      (simp add: sample_tree_def sample_envelope_def sample_manifest_def)
  moreover have "validate_envelope sample_artifact_env sample_envelope = Inr ()"
    by (simp add: validate_envelope_def sample_envelope_def is_safe_identifier_def safe_identifier_byte_def
        sample_package_env_def str_bytes_def utf8_encode_def is_ascii_lowercase_def is_ascii_digit_def sample_artifact_def)
  moreover have "verify_signature sample_artifact_env sample_publisher_store sample_envelope = Inr ()"
    by (simp add: verify_signature_def publisher_get_def sample_envelope_def sample_trust_env_def sample_publisher_store_def)
  moreover have "parse_envelope sample_artifact_env [101] = Some sample_envelope" by (simp add: sample_artifact_env_def)
  moreover have "se_artifact_sha256 sample_envelope = lower_hex (sample_digest sample_artifact)"
    "se_key_id sample_envelope = [107]" "str_bytes [101] = [101]"
    by (simp_all add: sample_envelope_def str_bytes_def utf8_encode_def)
  ultimately show ?thesis
    by (simp add: verify_to_staging_def digest_artifact_def max_artifact_bytes_def sample_artifact_def sample_staged_def)
qed

lemma staged_package_is_signed_witness:
  "vp_artifact_sha256 sample_staged = lower_hex (sample_digest sample_artifact)"
  using staged_package_is_signed [OF sample_staging] by auto

end
