(* ===== verification/Utf8.thy ===== *)
theory Utf8
  imports Package_Artifact
begin

text \<open>
  UTF-8 both ways: the decoder of \<open>String::from_utf8\<close> and the bytes of a \<open>String\<close> are inverse to each
  other on the texts Rust can hold.
\<close>

section \<open>UTF-8\<close>

definition rust_text :: "rstr \<Rightarrow> bool" where
  "rust_text s \<longleftrightarrow> (\<forall>c \<in> set s. c < 0x110000 \<and> \<not> (0xD800 \<le> c \<and> c \<le> 0xDFFF))"

lemma rust_text_simps [simp]:
  "rust_text []" "rust_text (c # s) \<longleftrightarrow> c < 0x110000 \<and> \<not> (0xD800 \<le> c \<and> c \<le> 0xDFFF) \<and> rust_text s"
  by (simp_all add: rust_text_def)

lemma str_bytes_simps: "str_bytes [] = []" "str_bytes (c # s) = utf8_encode c @ str_bytes s"
  by (simp_all add: str_bytes_def)

lemma digits_64:
  fixes x y z w :: nat
  assumes "y < 64" "z < 64" "w < 64"
  shows "(x * 64 + y) div 64 = x" "(x * 64 + y) mod 64 = y"
    "(x * 4096 + y * 64 + z) div 4096 = x" "(x * 4096 + y * 64 + z) div 64 mod 64 = y" "(x * 4096 + y * 64 + z) mod 64 = z"
    "(x * 262144 + y * 4096 + z * 64 + w) div 262144 = x" "(x * 262144 + y * 4096 + z * 64 + w) div 4096 mod 64 = y"
    "(x * 262144 + y * 4096 + z * 64 + w) div 64 mod 64 = z" "(x * 262144 + y * 4096 + z * 64 + w) mod 64 = w"
proof -
  have s: "(a * 64 + b) div 64 = a" "(a * 64 + b) mod 64 = b" if "b < 64" for a b :: nat using that by simp_all
  have e: "x * 4096 + y * 64 + z = (x * 64 + y) * 64 + z" "x * 262144 + y * 4096 + z * 64 + w = ((x * 64 + y) * 64 + z) * 64 + w"
    by simp_all
  have d: "(n :: nat) div 4096 = n div 64 div 64" "n div 262144 = n div 64 div 64 div 64" for n by (simp_all add: div_mult2_eq [symmetric])
  show "(x * 64 + y) div 64 = x" "(x * 64 + y) mod 64 = y" by (rule s [OF assms(1)])+
  show "(x * 4096 + y * 64 + z) div 4096 = x" "(x * 4096 + y * 64 + z) div 64 mod 64 = y" "(x * 4096 + y * 64 + z) mod 64 = z"
    unfolding e d by (simp_all only: s [OF assms(1)] s [OF assms(2)])
  show "(x * 262144 + y * 4096 + z * 64 + w) div 262144 = x" "(x * 262144 + y * 4096 + z * 64 + w) div 4096 mod 64 = y"
    "(x * 262144 + y * 4096 + z * 64 + w) div 64 mod 64 = z" "(x * 262144 + y * 4096 + z * 64 + w) mod 64 = w"
    unfolding e d by (simp_all only: s [OF assms(1)] s [OF assms(2)] s [OF assms(3)])
qed

lemma split_digits_64:
  obtains x y z w :: nat where "c = x * 262144 + y * 4096 + z * 64 + w" "y < 64" "z < 64" "w < 64"
proof
  show "c = c div 64 div 64 div 64 * 262144 + c div 64 div 64 mod 64 * 4096 + c div 64 mod 64 * 64 + c mod 64"
    using div_mult_mod_eq [of c 64] div_mult_mod_eq [of "c div 64" 64] div_mult_mod_eq [of "c div 64 div 64" 64] by linarith
qed simp_all

lemma decode_encoded:
  assumes "c < 0x110000" "\<not> (0xD800 \<le> c \<and> c \<le> 0xDFFF)"
  shows "from_utf8 (utf8_encode c @ bs) = map_option ((#) c) (from_utf8 bs)"
proof -
  obtain x y z w where c: "c = x * 262144 + y * 4096 + z * 64 + w" and l: "y < 64" "z < 64" "w < 64"
    by (rule split_digits_64)
  note digits = digits_64(6-9) [OF l, of x, folded c]
  consider (one) "c < 0x80" | (two) "0x80 \<le> c" "c < 0x800" | (three) "0x800 \<le> c" "c < 0x10000" | (four) "0x10000 \<le> c" by linarith
  then show ?thesis
  proof cases
    case two
    have xy: "x = 0" "y = 0" using two l c by linarith+
    have "2 \<le> z" "z < 32" using two l c xy by simp_all
    note x = xy this
    have "c div 64 = z" using digits_64(1) [OF l(3) l(1,2), of z] by (simp add: c x)
    with two x l digits show ?thesis by (simp add: utf8_encode_def utf8_continuation_def) (simp add: c x)
  next
    case three
    have x: "x = 0" "y < 16" using three l c by linarith+
    have y: "y = 0 \<longrightarrow> 0x20 \<le> z" "y = 13 \<longrightarrow> z \<le> 0x1F" using assms(2) three x l c by (intro impI, linarith)+
    have "c div 4096 = y" using digits_64(3) [OF l(2,3) l(1), of y] by (simp add: c x)
    with three x y l digits show ?thesis by (simp add: utf8_encode_def utf8_continuation_def) (simp add: c x)
  next
    case four
    have x: "x \<le> 4" using four assms(1) l c by linarith
    have y: "x = 0 \<longrightarrow> 0x10 \<le> y" "x = 4 \<longrightarrow> y \<le> 0xF" using four assms(1) l c by (intro impI, linarith)+
    from four x y l digits show ?thesis by (simp add: utf8_encode_def utf8_continuation_def) (simp add: c)
  qed (simp add: utf8_encode_def)
qed

lemma from_utf8_str_bytes: "rust_text s \<Longrightarrow> from_utf8 (str_bytes s) = Some s"
  by (induction s) (simp_all add: str_bytes_simps decode_encoded del: from_utf8.simps(2))

lemma encode_two:
  assumes "0xC2 \<le> b" "b \<le> 0xDF" "utf8_continuation c"
  shows "utf8_encode ((b - 0xC0) * 64 + (c - 0x80)) = [b, c]" "rust_text [(b - 0xC0) * 64 + (c - 0x80)]"
proof -
  obtain x y where b: "b = 0xC0 + x" "c = 0x80 + y" "2 \<le> x" "x < 32" "y < 64"
  proof
    show "b = 0xC0 + (b - 0xC0)" "c = 0x80 + (c - 0x80)" "2 \<le> b - 0xC0" "b - 0xC0 < 32" "c - 0x80 < 64"
      using assms unfolding utf8_continuation_def by linarith+
  qed
  show "utf8_encode ((b - 0xC0) * 64 + (c - 0x80)) = [b, c]" "rust_text [(b - 0xC0) * 64 + (c - 0x80)]"
    using b by (auto simp: utf8_encode_def)
qed

lemma encode_three:
  assumes "0xE0 \<le> b" "b \<le> 0xEF" "utf8_continuation c" "utf8_continuation d" "b = 0xE0 \<longrightarrow> 0xA0 \<le> c" "b = 0xED \<longrightarrow> c \<le> 0x9F"
  shows "utf8_encode ((b - 0xE0) * 4096 + (c - 0x80) * 64 + (d - 0x80)) = [b, c, d]"
    "rust_text [(b - 0xE0) * 4096 + (c - 0x80) * 64 + (d - 0x80)]"
proof -
  obtain x y z where b: "b = 0xE0 + x" "c = 0x80 + y" "d = 0x80 + z"
    using assms unfolding utf8_continuation_def by (metis le_Suc_ex)
  then have l: "x < 16" "y < 64" "z < 64" "x = 0 \<longrightarrow> 0x20 \<le> y" "x = 13 \<longrightarrow> y < 0x20"
    using assms unfolding utf8_continuation_def by auto
  have "0x800 \<le> x * 4096 + y * 64 + z" "x * 4096 + y * 64 + z < 0x10000"
    "\<not> (0xD800 \<le> x * 4096 + y * 64 + z \<and> x * 4096 + y * 64 + z \<le> 0xDFFF)"
    using l by (cases "x = 0"; cases "x < 13"; cases "x = 13"; simp; linarith)+
  then show "utf8_encode ((b - 0xE0) * 4096 + (c - 0x80) * 64 + (d - 0x80)) = [b, c, d]"
      "rust_text [(b - 0xE0) * 4096 + (c - 0x80) * 64 + (d - 0x80)]"
    using digits_64(3-5) [OF l(2,3), of 0 x] b by (simp_all add: utf8_encode_def)
qed

lemma encode_four:
  assumes "0xF0 \<le> b" "b \<le> 0xF4" "utf8_continuation c" "utf8_continuation d" "utf8_continuation e"
    "b = 0xF0 \<longrightarrow> 0x90 \<le> c" "b = 0xF4 \<longrightarrow> c \<le> 0x8F"
  shows "utf8_encode ((b - 0xF0) * 262144 + (c - 0x80) * 4096 + (d - 0x80) * 64 + (e - 0x80)) = [b, c, d, e]"
    "rust_text [(b - 0xF0) * 262144 + (c - 0x80) * 4096 + (d - 0x80) * 64 + (e - 0x80)]"
proof -
  obtain x y z w where b: "b = 0xF0 + x" "c = 0x80 + y" "d = 0x80 + z" "e = 0x80 + w"
    using assms unfolding utf8_continuation_def by (metis le_Suc_ex)
  then have l: "x \<le> 4" "y < 64" "z < 64" "w < 64" "x = 0 \<longrightarrow> 0x10 \<le> y" "x = 4 \<longrightarrow> y < 0x10"
    using assms unfolding utf8_continuation_def by auto
  have "0x10000 \<le> x * 262144 + y * 4096 + z * 64 + w" using l by (cases "x = 0") auto
  moreover have "x * 262144 + y * 4096 + z * 64 + w < 0x110000" using l by (cases "x = 4") auto
  ultimately show "utf8_encode ((b - 0xF0) * 262144 + (c - 0x80) * 4096 + (d - 0x80) * 64 + (e - 0x80)) = [b, c, d, e]"
      "rust_text [(b - 0xF0) * 262144 + (c - 0x80) * 4096 + (d - 0x80) * 64 + (e - 0x80)]"
    using digits_64(6-9) [OF l(2-4), of x] b by (simp_all add: utf8_encode_def)
qed

lemma str_bytes_from_utf8: "from_utf8 bs = Some s \<Longrightarrow> str_bytes s = bs \<and> rust_text s"
proof (induction bs arbitrary: s rule: from_utf8.induct)
  case (2 b bs)
  note ih = "2.IH" and prem = "2.prems"
  consider (one) "b < 0x80" | (two) "0xC2 \<le> b" "b \<le> 0xDF" | (three) "0xE0 \<le> b" "b \<le> 0xEF" | (four) "0xF0 \<le> b" "b \<le> 0xF4"
    using prem by (auto split: if_splits)
  then show ?case
  proof cases
    case one
    with prem obtain t where t: "from_utf8 bs = Some t" "s = b # t" by auto
    show ?thesis using ih(1) [OF one t(1)] one t(2) by (simp add: str_bytes_simps utf8_encode_def)
  next
    case two
    with prem obtain c r t where h: "bs = c # r" "utf8_continuation c" "from_utf8 r = Some t"
        "s = ((b - 0xC0) * 64 + (c - 0x80)) # t"
      by (cases bs) (auto split: if_splits)
    have "str_bytes t = r \<and> rust_text t" by (rule ih(2) [OF _ _ h(1,2,3)]) (use two in simp_all)
    then show ?thesis using encode_two [OF two h(2)] by (simp add: h str_bytes_simps)
  next
    case three
    with prem obtain c d r t where h: "bs = c # d # r" "utf8_continuation c \<and> utf8_continuation d
          \<and> (b = 0xE0 \<longrightarrow> 0xA0 \<le> c) \<and> (b = 0xED \<longrightarrow> c \<le> 0x9F)" "from_utf8 r = Some t"
        "s = ((b - 0xE0) * 4096 + (c - 0x80) * 64 + (d - 0x80)) # t"
      by (auto split: if_splits list.splits)
    have "str_bytes t = r \<and> rust_text t" by (rule ih(3) [OF _ _ _ h(1) refl h(2,3)]) (use three in simp_all)
    then show ?thesis using encode_three [OF three, of c d] h(2) by (simp add: h str_bytes_simps)
  next
    case four
    with prem obtain c d e r t where h: "bs = c # d # e # r" "utf8_continuation c \<and> utf8_continuation d \<and> utf8_continuation e
          \<and> (b = 0xF0 \<longrightarrow> 0x90 \<le> c) \<and> (b = 0xF4 \<longrightarrow> c \<le> 0x8F)" "from_utf8 r = Some t"
        "s = ((b - 0xF0) * 262144 + (c - 0x80) * 4096 + (d - 0x80) * 64 + (e - 0x80)) # t"
      by (auto split: if_splits list.splits)
    have "str_bytes t = r \<and> rust_text t" by (rule ih(4) [OF _ _ _ _ h(1) refl refl h(2,3)]) (use four in simp_all)
    then show ?thesis using encode_four [OF four, of c d e] h(2) by (simp add: h str_bytes_simps)
  qed
qed (simp add: str_bytes_def)


lemma from_utf8_iff: "from_utf8 bs = Some s \<longleftrightarrow> rust_text s \<and> str_bytes s = bs"
  using str_bytes_from_utf8 from_utf8_str_bytes by blast

end
