(* ===== verification/Provider_Runs.thy ===== *)
theory Provider_Runs
  imports Provider_Service Utf8
begin

text \<open>
  The Provider service over every vault that keeps its promises: the vault of macOS over a Keychain,
  runs in which any call of the vault or of SQLite may fail, and what holds of them.
\<close>

section \<open>The vault of macOS\<close>

text \<open>
  \<open>security_framework::passwords\<close>, which is not part of this repository: generic passwords by
  service and account, with the error codes of the Keychain. Reading answers with the bytes.
\<close>

record 'k keychain_ops =
  kc_set :: "rstr \<Rightarrow> rstr \<Rightarrow> nat list \<Rightarrow> 'k \<Rightarrow> (int + unit) \<times> 'k"
  kc_get :: "rstr \<Rightarrow> rstr \<Rightarrow> 'k \<Rightarrow> int + nat list"
  kc_delete :: "rstr \<Rightarrow> rstr \<Rightarrow> 'k \<Rightarrow> (int + unit) \<times> 'k"

definition keychain_service :: rstr where
  "keychain_service = lit ''com.agentmesh360.client.provider''"

definition map_keychain_read_error :: "int \<Rightarrow> vault_error" where
  "map_keychain_read_error code = (if code = - 25300 then VaultNotFound else VaultUnavailable)"

definition system_put :: "'k keychain_ops \<Rightarrow> rstr \<Rightarrow> rstr \<Rightarrow> 'k \<Rightarrow> (vault_error + unit) \<times> 'k" where
  "system_put K r s k =
    (case kc_set K keychain_service r (str_bytes s) k of
       (Inl _, k') \<Rightarrow> (Inl VaultUnavailable, k')
     | (Inr u, k') \<Rightarrow> (Inr u, k'))"

definition system_get :: "'k keychain_ops \<Rightarrow> rstr \<Rightarrow> 'k \<Rightarrow> vault_error + rstr" where
  "system_get K r k =
    (case kc_get K keychain_service r k of
       Inl code \<Rightarrow> Inl (map_keychain_read_error code)
     | Inr bytes \<Rightarrow> (case from_utf8 bytes of None \<Rightarrow> Inl VaultUnavailable | Some s \<Rightarrow> secret_new s))"

definition system_delete :: "'k keychain_ops \<Rightarrow> rstr \<Rightarrow> 'k \<Rightarrow> (vault_error + unit) \<times> 'k" where
  "system_delete K r k =
    (case kc_delete K keychain_service r k of
       (Inr u, k') \<Rightarrow> (Inr u, k')
     | (Inl code, k') \<Rightarrow> if code = - 25300 then (Inr (), k') else (Inl VaultUnavailable, k'))"

definition system_vault :: "'k keychain_ops \<Rightarrow> 'k vault_ops" where
  "system_vault K = \<lparr>v_put = system_put K, v_get = system_get K, v_delete = system_delete K\<rparr>"

text \<open>
  What the vault relies on: setting, reading and deleting act on the items of the Keychain, an operation
  that fails has changed no item, and -25300 (\<open>errSecItemNotFound\<close>) means that there is no such item.
\<close>

definition keychain_ok :: "'k keychain_ops \<Rightarrow> ('k \<Rightarrow> rstr \<times> rstr \<Rightarrow> nat list option) \<Rightarrow> bool" where
  "keychain_ok K items \<longleftrightarrow>
     (\<forall>s a bytes k k'. kc_set K s a bytes k = (Inr (), k') \<longrightarrow> items k' = (items k)((s, a) \<mapsto> bytes))
     \<and> (\<forall>s a bytes k k' code. kc_set K s a bytes k = (Inl code, k') \<longrightarrow> items k' = items k)
     \<and> (\<forall>s a k k'. kc_delete K s a k = (Inr (), k') \<longrightarrow> items k' = (items k)((s, a) := None))
     \<and> (\<forall>s a k k' code. kc_delete K s a k = (Inl code, k') \<longrightarrow>
          items k' = items k \<and> (code = - 25300 \<longrightarrow> items k (s, a) = None))
     \<and> (\<forall>s a k bytes. kc_get K s a k = Inr bytes \<longrightarrow> items k (s, a) = Some bytes)
     \<and> (\<forall>s a k. kc_get K s a k = Inl (- 25300) \<longrightarrow> items k (s, a) = None)"

definition system_holds :: "('k \<Rightarrow> rstr \<times> rstr \<Rightarrow> nat list option) \<Rightarrow> 'k \<Rightarrow> rstr \<Rightarrow> nat list option" where
  "system_holds items k r = items k (keychain_service, r)"

lemma system_vault_simps [simp]:
  "v_put (system_vault K) = system_put K" "v_get (system_vault K) = system_get K"
  "v_delete (system_vault K) = system_delete K"
  by (simp_all add: system_vault_def)

lemma keychain_okD:
  assumes "keychain_ok K items"
  shows "kc_set K s a bytes k = (Inr (), k') \<Longrightarrow> items k' = (items k)((s, a) \<mapsto> bytes)"
    and "kc_set K s a bytes k = (Inl code, k') \<Longrightarrow> items k' = items k"
    and "kc_delete K s a k = (Inr (), k') \<Longrightarrow> items k' = (items k)((s, a) := None)"
    and "kc_delete K s a k = (Inl code, k') \<Longrightarrow> items k' = items k"
    and "kc_delete K s a k = (Inl (- 25300), k') \<Longrightarrow> items k (s, a) = None"
    and "kc_get K s a k = Inr bytes \<Longrightarrow> items k (s, a) = Some bytes"
    and "kc_get K s a k = Inl (- 25300) \<Longrightarrow> items k (s, a) = None"
  using assms unfolding keychain_ok_def by metis+

lemma system_vault_is_a_vault:
  assumes "keychain_ok K items"
  shows "credential_vault (system_vault K) (system_holds items)"
proof
  note ok = keychain_okD [OF assms]
  fix r s v e v'
  show "system_holds items v' = (system_holds items v)(r \<mapsto> str_bytes s)"
    if "v_put (system_vault K) r s v = (Inr (), v')"
    using that ok(1) [where s = keychain_service and a = r and k = v and k' = v']
    by (auto simp: system_put_def system_holds_def split: prod.splits sum.splits)
  show "system_holds items v' = system_holds items v" if "v_put (system_vault K) r s v = (Inl e, v')"
    using that ok(2) [where s = keychain_service and a = r and k = v and k' = v']
    by (auto simp: system_put_def system_holds_def split: prod.splits sum.splits)
  show "system_holds items v' = (system_holds items v)(r := None)"
    if "v_delete (system_vault K) r v = (Inr (), v')"
    using that ok(3,4,5) [where s = keychain_service and a = r and k = v and k' = v']
    by (auto simp: system_delete_def system_holds_def split: prod.splits sum.splits if_splits)
  show "system_holds items v' = system_holds items v" if "v_delete (system_vault K) r v = (Inl e, v')"
    using that ok(4) [where s = keychain_service and a = r and k = v and k' = v']
    by (auto simp: system_delete_def system_holds_def split: prod.splits sum.splits if_splits)
  show "system_holds items v r = Some (str_bytes s) \<and> secret_new s = Inr s"
    if "v_get (system_vault K) r v = Inr s"
  proof -
    from that obtain bytes t where b: "kc_get K keychain_service r v = Inr bytes" "from_utf8 bytes = Some t"
        "secret_new t = Inr s"
      by (auto simp: system_get_def split: option.splits sum.splits)
    have "str_bytes s = bytes \<and> secret_new s = Inr s"
      using b(2,3) secret_new_Inr [OF b(3)] by (auto simp: from_utf8_iff)
    with ok(6) [OF b(1)] show ?thesis by (simp add: system_holds_def)
  qed
  show "system_holds items v r = None" if "v_get (system_vault K) r v = Inl VaultNotFound"
  proof -
    from that have "kc_get K keychain_service r v = Inl (- 25300)"
      by (auto simp: system_get_def map_keychain_read_error_def split: option.splits sum.splits if_splits
          dest: secret_new_Inl)
    with ok(7) show ?thesis by (simp add: system_holds_def)
  qed
qed

section \<open>Runs of the service\<close>

text \<open>
  What a run of the service can reach over a vault, from any vault and an empty database, whatever
  calls of the vault and of SQLite fail; a credential handle is fresh when it is generated. \<open>lost\<close>
  collects the profiles of the two failures the service does not undo: a \<open>create\<close> that cannot
  read its committed row back, and a \<open>delete\<close> whose row SQLite does not delete after the
  credential is gone.
\<close>

inductive service_reaches :: "'v vault_ops \<Rightarrow> host_env \<Rightarrow> rstr set \<Rightarrow> 'v \<times> state_db \<Rightarrow> bool" for V h where
  start: "service_reaches V h {} (v, empty_db)"
| create: "service_reaches V h lost (v, db) \<Longrightarrow> input_codec_ok h inp
     \<Longrightarrow> \<forall>r \<in> set (provider_profiles db). pr_credential_ref r \<noteq> credential_ref_generate ref_uuid
     \<Longrightarrow> provider_create V h oc now ref_uuid profile_uuid owner inp api_key (v, db) = (res, st')
     \<Longrightarrow> service_reaches V h (if fails_after oc then insert (lit ''pp_'' @ profile_uuid) lost else lost) st'"
| update: "service_reaches V h lost (v, db) \<Longrightarrow> provider_update h oc now owner profile_id inp db = (res, db')
     \<Longrightarrow> service_reaches V h lost (v, db')"
| replace: "service_reaches V h lost (v, db)
     \<Longrightarrow> provider_replace_secret V h failure oc now owner profile_id api_key (v, db) = (res, st')
     \<Longrightarrow> service_reaches V h lost st'"
| delete: "service_reaches V h lost (v, db)
     \<Longrightarrow> provider_delete V h failure oc owner profile_id (v, db) = (res', st')
     \<Longrightarrow> service_reaches V h (if oc = SqlRuns then lost else insert profile_id lost) st'"

context credential_vault begin

lemma service_reaches_ok: "service_reaches V h lost st \<Longrightarrow> service_ok holds lost st"
proof (induction rule: service_reaches.induct)
  case (start v)
  then show ?case by (simp add: service_ok_def profiles_ok_def empty_db_def)
qed (auto dest: service_ok_create service_ok_update service_ok_replace service_ok_delete simp del: split_paired_All)

lemma held_is_found:
  "credential_held holds v r \<Longrightarrow> v_get V (pr_credential_ref r) v \<noteq> Inl VaultNotFound"
  using get_missing by (fastforce simp: credential_held_def)

end

section \<open>A Keychain that runs out\<close>

text \<open>
  A Keychain for the concrete runs: it takes a given number of writes and then refuses them, as a locked
  one does; what it does not have it answers with -25300.
\<close>

definition sample_keychain :: "(nat \<times> (rstr \<times> rstr \<rightharpoonup> nat list)) keychain_ops" where
  "sample_keychain =
     \<lparr>kc_set = (\<lambda>s a bytes (n, m). if n = 0 then (Inl (- 25308), n, m) else (Inr (), n - 1, m((s, a) \<mapsto> bytes))),
      kc_get = (\<lambda>s a (n, m). case m (s, a) of None \<Rightarrow> Inl (- 25300) | Some bytes \<Rightarrow> Inr bytes),
      kc_delete = (\<lambda>s a (n, m). case m (s, a) of None \<Rightarrow> (Inl (- 25300), n, m)
         | Some _ \<Rightarrow> (Inr (), n, m((s, a) := None)))\<rparr>"

lemma sample_keychain_ok: "keychain_ok sample_keychain snd"
  by (auto simp: keychain_ok_def sample_keychain_def split: prod.splits if_splits option.splits)

lemmas sample_vault = system_vault_is_a_vault [OF sample_keychain_ok]

definition sample_service :: "(host_error + profile_record) \<times> (nat \<times> (rstr \<times> rstr \<rightharpoonup> nat list)) \<times> state_db" where
  "sample_service = provider_create (system_vault sample_keychain) sample_env SqlRuns [48] [49] [112] 7
     sample_profile_input sample_key ((Suc 0, Map.empty), empty_db)"

definition sample_profile_db :: state_db where
  "sample_profile_db = empty_db\<lparr>provider_profiles := [new_profile_row sample_env [48] 7 (lit ''pp_'' @ [112])
     (credential_ref_generate [49]) [50, 51, 52, 53] sample_profile_input]\<rparr>"

definition sample_items :: "rstr \<times> rstr \<rightharpoonup> nat list" where
  "sample_items = [(keychain_service, credential_ref_generate [49]) \<mapsto> str_bytes sample_key]"

lemma sample_insert:
  "profiles_insert sample_env [48] 7 (lit ''pp_'' @ [112]) (credential_ref_generate [49]) (last_four sample_key)
     sample_profile_input empty_db
   = (Inr (record_of_input 7 (lit ''pp_'' @ [112]) (credential_ref_generate [49]) [50, 51, 52, 53] 1 [48] [48]
        sample_profile_input), sample_profile_db)"
  by (simp add: profiles_insert_def empty_db_def profiles_get_def profile_key_def profile_row_to_record_def
      new_profile_row_def record_of_input_def sample_env_def sample_profile_input_def sample_profile_db_def
      protocol_parse_def auth_kind_parse_def last_four_def sample_key_def)

lemma sample_service_eval: "sample_service =
    (Inr (record_of_input 7 (lit ''pp_'' @ [112]) (credential_ref_generate [49]) [50, 51, 52, 53] 1 [48] [48]
       sample_profile_input), (0, sample_items), sample_profile_db)"
  by (simp add: sample_service_def provider_create_def sample_input_normalized sample_key_ok Let_def
      store_call_def sample_insert system_put_def sample_keychain_def sample_items_def)

text \<open>A second \<open>create\<close> finds the Keychain refusing, and leaves everything as it is.\<close>

lemma sample_refused:
  "provider_create (system_vault sample_keychain) sample_env SqlRuns [48] [50] [113] 7 sample_profile_input
     sample_key ((0, sample_items), sample_profile_db)
   = (Inl (Context ''store provider credential'' (Vault VaultUnavailable)), (0, sample_items), sample_profile_db)"
  by (simp add: provider_create_def sample_input_normalized sample_key_ok Let_def system_put_def sample_keychain_def)

lemma sample_service_reached:
  "service_reaches (system_vault sample_keychain) sample_env {} ((0, sample_items), sample_profile_db)"
  using service_reaches.create [OF service_reaches.start sample_codec, of "[49]" "system_vault sample_keychain"
      SqlRuns "[48]" "[112]" 7 sample_key "(Suc 0, Map.empty)"]
  by (simp add: empty_db_def [THEN arg_cong, of provider_profiles] sample_service_def [symmetric] sample_service_eval)

lemma sample_refused_reached:
  "service_reaches (system_vault sample_keychain) sample_env {} ((0, sample_items), sample_profile_db)"
  using service_reaches.create [OF sample_service_reached sample_codec _ sample_refused]
  by (simp add: sample_profile_db_def credential_ref_generate_def)

section \<open>Properties\<close>

text \<open>C3: whatever calls of the vault and of SQLite fail in a run of create, update, replace and delete, over
  any vault that keeps its promises and with handles that are fresh when they are generated, every stored profile has a valid secret in the vault behind its own
  handle, and reading it never answers that it was not found; the exceptions are the profiles in
  \<open>lost\<close>, those a create could not read back after committing their row and those whose row SQLite
  failed to delete. No two profiles share a handle or an identifier, or a name within an account.\<close>

theorem profiles_keep_credentials:
  assumes "credential_vault V holds" "service_reaches V h lost (v, db)"
  shows "profiles_ok db \<and> (\<forall>r \<in> set (provider_profiles db). pr_profile_id r \<notin> lost \<longrightarrow>
    (\<exists>s. holds v (pr_credential_ref r) = Some (str_bytes s) \<and> secret_new s = Inr s)
    \<and> v_get V (pr_credential_ref r) v \<noteq> Inl VaultNotFound)"
  using credential_vault.service_reaches_ok [OF assms] credential_vault.held_is_found [OF assms(1)]
  by (auto simp: service_ok_def credential_held_def)

lemma profiles_keep_credentials_witness:
  "system_get sample_keychain (credential_ref_generate [49]) (0, sample_items) \<noteq> Inl VaultNotFound"
  using profiles_keep_credentials [OF sample_vault sample_refused_reached]
  by (simp add: sample_profile_db_def)

text \<open>C35: \<open>create\<close> with a fresh handle is all or nothing over the database and any vault that keeps its
  promises, with two exceptions, whatever calls of the vault and of SQLite fail. When it succeeds, the profile can be read back, its handle holds exactly the
  given secret, the record shows the last four characters only, and every other handle is untouched. When
  it fails, the vault holds what it held before, unless the error says that the cleanup was incomplete
  and only the new handle keeps the secret; and the database is unchanged, unless the row was committed
  and reading it back failed.\<close>

theorem provider_create_atomic:
  assumes "credential_vault V holds"
    and "provider_create V h oc now ref_uuid profile_uuid owner inp api_key (v, db) = (res, v', db')"
    and "input_codec_ok h inp"
    and "holds v (credential_ref_generate ref_uuid) = None"
  shows "case res of
      Inr p \<Rightarrow> profiles_get h owner (pp_profile_id p) db' = Inr p
        \<and> pp_owner p = owner \<and> pp_credential_ref p = credential_ref_generate ref_uuid
        \<and> pp_credential_last_four p = last_four api_key
        \<and> holds v' = (holds v)(pp_credential_ref p \<mapsto> str_bytes api_key)
    | Inl e \<Rightarrow>
        (holds v' = holds v
          \<or> e = Bail ''create provider profile failed and credential cleanup was incomplete''
            \<and> holds v' = (holds v)(credential_ref_generate ref_uuid \<mapsto> str_bytes api_key))
        \<and> (db' = db
          \<or> fails_after oc \<and> (\<exists>row. db' = db\<lparr>provider_profiles := provider_profiles db @ [row]\<rparr>
              \<and> pr_owner row = owner \<and> pr_profile_id row = lit ''pp_'' @ profile_uuid
              \<and> pr_credential_ref row = credential_ref_generate ref_uuid))"
  using assms(2,3)
proof (cases rule: credential_vault.create_cases [OF assms(1), consumes 2, case_names early undone stuck created])
  case (undone e inp')
  have "holds v' = holds v" using undone(3) assms(4) by auto
  with undone show ?thesis by (auto simp: insert_left_def)
next
  case (stuck inp')
  then show ?thesis by (auto simp: insert_left_def)
next
  case (created inp')
  from created(3) show ?thesis
  proof (cases rule: profiles_insert_cases)
    case (inserted row)
    have res: "res = Inr (record_of_input owner (lit ''pp_'' @ profile_uuid) (credential_ref_generate ref_uuid)
        (last_four api_key) 1 now now inp')"
      using assms(3) created(1) inserted(1,4)
      by (simp add: input_codec_ok_def profile_row_to_record_def new_profile_row_def record_of_input_def)
    from inserted(5) [unfolded res] created(5) show ?thesis unfolding res by (simp add: record_of_input_def)
  next
    case (conflict e)
    with created show ?thesis by simp
  qed
qed simp

lemma provider_create_atomic_witness:
  "system_holds snd (0, sample_items) (credential_ref_generate [49]) = Some (str_bytes sample_key)"
  using provider_create_atomic [OF sample_vault _ sample_codec,
      of SqlRuns "[48]" "[49]" "[112]" 7 sample_key "(Suc 0, Map.empty)" empty_db
      "fst sample_service" "fst (snd sample_service)" "snd (snd sample_service)"]
  by (simp add: sample_service_eval record_of_input_def system_holds_def sample_service_def [symmetric] sample_items_def)

text \<open>The exceptions are real: a \<open>create\<close> that cannot read its committed row back deletes the credential
  and leaves the profile without one, and so does a \<open>delete\<close> whose row SQLite does not delete.\<close>

theorem failed_read_back_loses_credential:
  assumes "credential_vault V holds" "profile_input_normalized h inp = Inr inp'" "secret_new api_key = Inr api_key"
    and "profiles_insert h now owner (lit ''pp_'' @ profile_uuid) (credential_ref_generate ref_uuid)
      (last_four api_key) inp' db = (Inr p, db1)"
    and "v_put V (credential_ref_generate ref_uuid) api_key v = (Inr (), v1)"
    and "v_delete V (credential_ref_generate ref_uuid) v1 = (Inr (), v2)"
  shows "\<exists>row \<in> set (provider_profiles db1). pr_credential_ref row = credential_ref_generate ref_uuid
    \<and> holds v2 (credential_ref_generate ref_uuid) = None
    \<and> provider_create V h (SqlFailsAfter e) now ref_uuid profile_uuid owner inp api_key (v, db) = (Inl e, v2, db1)"
proof -
  have "provider_create V h (SqlFailsAfter e) now ref_uuid profile_uuid owner inp api_key (v, db) = (Inl e, v2, db1)"
    using assms(2-6) by (simp add: provider_create_def Let_def store_call_def)
  moreover have "holds v2 (credential_ref_generate ref_uuid) = None"
    using credential_vault.delete_ok [OF assms(1,6)] by simp
  moreover have "\<exists>row \<in> set (provider_profiles db1). pr_credential_ref row = credential_ref_generate ref_uuid"
    using assms(4) by (cases rule: profiles_insert_cases) auto
  ultimately show ?thesis by blast
qed

theorem failed_delete_loses_credential:
  assumes "credential_vault V holds" "profiles_get h owner profile_id db = Inr p"
    and "credential_ref_parse h (pp_credential_ref p) = Inr (pp_credential_ref p)"
    and "v_delete V (pp_credential_ref p) v = (Inr (), v1)"
  shows "provider_delete V h None (SqlFailsBefore e) owner profile_id (v, db) = (Inl e, v1, db)
    \<and> holds v1 (pp_credential_ref p) = None"
  using assms(2-4) credential_vault.delete_ok [OF assms(1,4)]
  by (simp add: provider_delete_def store_read_def store_call_def)

text \<open>Whether an operation of the vault succeeds does not depend on which of two secrets it is given.\<close>

definition secret_blind :: "'v vault_ops \<Rightarrow> rstr \<Rightarrow> rstr \<Rightarrow> bool" where
  "secret_blind V key1 key2 \<longleftrightarrow>
     (\<forall>r v. fst (v_put V r key1 v) = fst (v_put V r key2 v)
        \<and> fst (v_delete V r (snd (v_put V r key1 v))) = fst (v_delete V r (snd (v_put V r key2 v))))"

text \<open>C36: the secret leaves the vault through the last four characters at most: two runs of \<open>create\<close>
  or \<open>replace_secret\<close> with valid secrets that end alike, over a vault whose successes and failures do
  not depend on the secret it is given, and with the same failures of SQLite, give the same answer and the
  same database, so no table, record or error carries more of the secret.\<close>

theorem secrets_stay_in_the_vault:
  assumes "secret_new key1 = Inr key1" "secret_new key2 = Inr key2" "last_four key1 = last_four key2"
    and "secret_blind V key1 key2"
  shows "fst (provider_create V h oc now ru pu owner inp key1 (v, db))
      = fst (provider_create V h oc now ru pu owner inp key2 (v, db))
    \<and> snd (snd (provider_create V h oc now ru pu owner inp key1 (v, db)))
      = snd (snd (provider_create V h oc now ru pu owner inp key2 (v, db)))
    \<and> fst (provider_replace_secret V h failure oc now owner profile_id key1 (v, db))
      = fst (provider_replace_secret V h failure oc now owner profile_id key2 (v, db))
    \<and> snd (snd (provider_replace_secret V h failure oc now owner profile_id key1 (v, db)))
      = snd (snd (provider_replace_secret V h failure oc now owner profile_id key2 (v, db)))"
proof -
  have put: "fst (v_put V r key1 v) = fst (v_put V r key2 v)"
    and del: "fst (v_delete V r (snd (v_put V r key1 v))) = fst (v_delete V r (snd (v_put V r key2 v)))" for r
    using assms(4) by (simp_all add: secret_blind_def)
  have "fst (provider_create V h oc now ru pu owner inp key1 (v, db))
      = fst (provider_create V h oc now ru pu owner inp key2 (v, db))
    \<and> snd (snd (provider_create V h oc now ru pu owner inp key1 (v, db)))
      = snd (snd (provider_create V h oc now ru pu owner inp key2 (v, db)))"
    using assms(1-3) put [of "credential_ref_generate ru"] del [of "credential_ref_generate ru"]
    by (auto simp: provider_create_def Let_def split: sum.splits prod.splits)
  moreover have "fst (provider_replace_secret V h failure oc now owner profile_id key1 (v, db))
      = fst (provider_replace_secret V h failure oc now owner profile_id key2 (v, db))
    \<and> snd (snd (provider_replace_secret V h failure oc now owner profile_id key1 (v, db)))
      = snd (snd (provider_replace_secret V h failure oc now owner profile_id key2 (v, db)))"
  proof (cases "store_read failure (profiles_get h owner profile_id db)")
    case (Inr p)
    show ?thesis
    proof (cases "credential_ref_parse h (pp_credential_ref p)")
      case c: (Inr c)
      show ?thesis using Inr c assms(1-3) put [of c]
        by (auto simp: provider_replace_secret_def Let_def split: sum.splits prod.splits)
    qed (simp add: provider_replace_secret_def Inr)
  qed (simp add: provider_replace_secret_def)
  ultimately show ?thesis by blast
qed

lemma sample_keychain_blind: "secret_blind (system_vault sample_keychain) key1 key2"
  by (auto simp: secret_blind_def system_put_def system_delete_def sample_keychain_def split: prod.splits if_splits option.splits)

lemma secrets_stay_in_the_vault_witness:
  "fst (provider_create (system_vault sample_keychain) sample_env SqlRuns [48] [49] [112] 7 sample_profile_input
      (97 # sample_key) ((Suc 0, Map.empty), empty_db)) = fst sample_service"
proof -
  have "secret_new (97 # sample_key) = Inr (97 # sample_key)"
    by (simp add: secret_new_def sample_key_def trim_def trim_start_def trim_end_def is_whitespace_def
        str_bytes_def utf8_encode_def)
  moreover have "last_four (97 # sample_key) = last_four sample_key"
    by (simp add: last_four_def sample_key_def)
  ultimately show ?thesis
    using secrets_stay_in_the_vault [OF _ sample_key_ok _ sample_keychain_blind, of "97 # sample_key" sample_env SqlRuns
        "[48]" "[49]" "[112]" 7 sample_profile_input "(Suc 0, Map.empty)" empty_db]
    by (simp add: sample_service_def)
qed

text \<open>\<open>delete\<close> takes the secret of exactly the deleted profile out of the vault and the profile out of the
  table, and when SQLite does not fail it leaves both as they were on every error.\<close>

theorem provider_delete_forgets:
  assumes "credential_vault V holds" "profiles_ok db"
    and "provider_delete V h failure SqlRuns owner profile_id (v, db) = (res, v', db')"
  shows "(res = Inr () \<longrightarrow> (\<exists>row \<in> set (provider_profiles db). profile_key owner profile_id row
        \<and> holds v' = (holds v)(pr_credential_ref row := None)
        \<and> profiles_get h owner profile_id db' = Inl (Bail ''provider profile not found'')))
    \<and> (res \<noteq> Inr () \<longrightarrow> holds v' = holds v \<and> db' = db)"
  using assms(3)
proof (cases rule: credential_vault.delete_cases [OF assms(1), consumes 1, case_names unchanged deleted])
  case (deleted p)
  from deleted(1) obtain row where row: "row \<in> set (provider_profiles db)" "profile_key owner profile_id row"
    "pp_credential_ref p = pr_credential_ref row" by (rule profiles_get_row)
  have "list_ex (profile_key owner profile_id) (provider_profiles db)"
    using row by (auto simp: list_ex_iff)
  then have one: "count_where (profile_key owner profile_id) (provider_profiles db) = 1"
    using profile_key_unique [OF assms(2)] by simp
  have db': "db' = snd (profiles_delete owner profile_id db)" "res = fst (profiles_delete owner profile_id db)"
    using deleted(3) by (simp_all add: store_call_def)
  have "profiles_get h owner profile_id db' = Inl (Bail ''provider profile not found'')"
    unfolding db' by (auto simp: profiles_delete_db profiles_get_def find_None_iff split: option.splits
        dest: find_SomeD)
  moreover have "res = Inr ()" using one unfolding db' by (simp add: profiles_delete_def Let_def)
  ultimately show ?thesis using row deleted(2) by auto
qed simp

end
