(* ===== verification/Model_Discovery.thy ===== *)
theory Model_Discovery
  imports Provider_Probes
begin

text \<open>
  Model discovery of \<open>provider_probes.rs\<close>: the request for the language models of an official
  preset, the reading of the answer within its limits, and the list of models it yields.
\<close>

section \<open>Reading the models\<close>

definition max_discovery_body :: nat where
  "max_discovery_body = 1048576"

definition max_discovered_models :: nat where
  "max_discovered_models = 512"

definition normalized_model_display_name :: "rstr \<Rightarrow> rstr option" where
  "normalized_model_display_name value =
    (let value = trim value in
     if value = [] \<or> length value > 100 \<or> list_ex (\<lambda>c. is_control c \<or> c = 0x7f) value then None
     else Some value)"

text \<open>
  The \<open>BTreeMap\<close> from model ids to names, as the list of its entries in the order of the keys;
  \<open>entry(k).or_insert(v)\<close> keeps the value a key already has.
\<close>

definition or_insert :: "rstr \<Rightarrow> rstr \<Rightarrow> (rstr \<times> rstr) list \<Rightarrow> (rstr \<times> rstr) list" where
  "or_insert k v m = (if k \<in> fst ` set m then m else insort_key fst (k, v) m)"

definition display_name_of :: "json_value \<Rightarrow> rstr \<Rightarrow> rstr" where
  "display_name_of entry model_id =
    (let value = (case json_get (lit ''display_name'') entry of
                    Some v \<Rightarrow> Some v | None \<Rightarrow> json_get (lit ''displayName'') entry) in
     case Option.bind (Option.bind value json_as_str) normalized_model_display_name of
       Some name \<Rightarrow> name | None \<Rightarrow> model_id)"

definition add_alias :: "json_value \<Rightarrow> (rstr \<times> rstr) list \<Rightarrow> (rstr \<times> rstr) list" where
  "add_alias v models =
    (case json_as_str v of
       None \<Rightarrow> models
     | Some alias \<Rightarrow>
         (case normalize_model_id alias of Inl _ \<Rightarrow> models | Inr alias \<Rightarrow> or_insert alias alias models))"

definition add_entry :: "bool \<Rightarrow> json_value \<Rightarrow> (rstr \<times> rstr) list \<Rightarrow> (rstr \<times> rstr) list" where
  "add_entry xai entry models =
    (case Option.bind (json_get (lit ''id'') entry) json_as_str of
       None \<Rightarrow> models
     | Some model_id \<Rightarrow>
         let models = (case normalize_model_id model_id of
                         Inl _ \<Rightarrow> models
                       | Inr model_id \<Rightarrow> or_insert model_id (display_name_of entry model_id) models) in
         if xai then
           (case Option.bind (json_get (lit ''aliases'') entry) json_as_array of
              None \<Rightarrow> models | Some aliases \<Rightarrow> fold add_alias aliases models)
         else models)"

definition discovered_map :: "rstr \<Rightarrow> json_value \<Rightarrow> (rstr \<times> rstr) list" where
  "discovered_map preset_id document =
    (let xai = (preset_id = lit ''xai'');
         entries = Option.bind (json_get (if xai then lit ''models'' else lit ''data'') document) json_as_array in
     case entries of None \<Rightarrow> [] | Some es \<Rightarrow> fold (add_entry xai) es [])"

definition parse_discovered_models :: "rstr \<Rightarrow> json_value \<Rightarrow> discovered_model list \<times> bool" where
  "parse_discovered_models preset_id document =
    (let models = discovered_map preset_id document in
     (map (\<lambda>(model_id, name). \<lparr>dd_model_id = model_id, dd_display_name = name\<rparr>)
        (take max_discovered_models models),
      length models > max_discovered_models))"

section \<open>Outcomes\<close>

definition model_discovery_result ::
  "probe_world \<Rightarrow> rstr \<Rightarrow> probe_status \<Rightarrow> bool \<Rightarrow> discovered_model list \<Rightarrow> bool \<Rightarrow> string \<Rightarrow> string \<Rightarrow> discovery_result" where
  "model_discovery_result w origin status verified models truncated code message =
     \<lparr>dr_status = status, dr_network_attempted = True, dr_may_incur_cost = False,
      dr_authentication_verified = verified, dr_models = models, dr_truncated = truncated,
      dr_endpoint_origin = origin, dr_summary_code = code, dr_summary_message = message,
      dr_started_at = pw_started_at w, dr_completed_at = pw_completed_at w, dr_latency_ms = latency_ms w\<rparr>"

definition model_discovery_http_failure :: "nat \<Rightarrow> string \<times> string" where
  "model_discovery_http_failure status =
    (if status = 401 \<or> status = 403 then
       (''model_discovery_authentication_failed'', ''The Provider rejected the API credential.'')
     else if status = 429 then
       (''model_discovery_rate_limited'', ''The Provider rate limited the model request.'')
     else if status = 404 then
       (''model_discovery_endpoint_not_found'', ''The Provider model endpoint was not found.'')
     else if 500 \<le> status \<and> status < 600 then
       (''model_discovery_provider_unavailable'', ''The Provider model service is temporarily unavailable.'')
     else (''model_discovery_request_rejected'', ''The Provider rejected the model request.''))"

text \<open>The loop over the body; a failure is the summary it is reported with.\<close>

fun read_discovery_body :: "nat list \<Rightarrow> body_item list \<Rightarrow> (string \<times> string) + nat list" where
  "read_discovery_body body [] = Inr body"
| "read_discovery_body body (BodyFailed # items) =
     Inl (''model_discovery_response_failed'', ''The Provider model response could not be read.'')"
| "read_discovery_body body (BodyChunk bytes # items) =
    (if length body + length bytes > max_discovery_body then
       Inl (''model_discovery_response_too_large'', ''The Provider model response exceeded the safe size limit.'')
     else read_discovery_body (body @ bytes) items)"

definition discovered_models ::
  "probe_world \<Rightarrow> rstr \<Rightarrow> body_item list \<Rightarrow> (string \<times> string) + discovered_model list \<times> bool" where
  "discovered_models w preset_id items =
     and_then (read_discovery_body [] items) (\<lambda>body.
     and_then (ok_or (pw_json w body)
       (''model_discovery_invalid_response'', ''The Provider model response was not valid JSON.'')) (\<lambda>document.
     let (models, truncated) = parse_discovered_models preset_id document in
     if models = [] then Inl (''model_discovery_no_models'',
       ''The Provider accepted the credential but returned no usable language models.'')
     else Inr (models, truncated)))"

definition discovery_outcome :: "probe_world \<Rightarrow> rstr \<Rightarrow> rstr \<Rightarrow> discovery_transport \<Rightarrow> discovery_result" where
  "discovery_outcome w preset_id origin transport =
    (case transport of
       TransportTimeout \<Rightarrow> model_discovery_result w origin ProbeFailed False [] False
         ''model_discovery_timeout'' ''The Provider model request timed out.''
     | TransportFailed \<Rightarrow> model_discovery_result w origin ProbeFailed False [] False
         ''model_discovery_network_failed'' ''The Provider model request could not reach the service.''
     | Responded status items \<Rightarrow>
         if \<not> (200 \<le> status \<and> status < 300) then
           (let (code, message) = model_discovery_http_failure status in
            model_discovery_result w origin ProbeFailed False [] False code message)
         else
           (case discovered_models w preset_id items of
              Inl (code, message) \<Rightarrow> model_discovery_result w origin ProbeFailed True [] False code message
            | Inr (models, truncated) \<Rightarrow> model_discovery_result w origin ProbePassed True models truncated
                ''model_discovery_succeeded''
                ''The Provider credential was accepted and available models were returned.''))"

section \<open>The request\<close>

definition discovery_target ::
  "provider_catalog \<Rightarrow> profile_input \<Rightarrow> host_error + rstr \<times> rstr" where
  "discovery_target catalog profile =
     and_then (ok_or (in_preset_id profile)
       (Bail ''dynamic model discovery requires an official Provider preset'')) (\<lambda>preset_id.
     and_then (ok_or (case catalog_provider catalog preset_id of
           Some preset \<Rightarrow> if ps_classification preset = Official then Some preset else None
         | None \<Rightarrow> None)
       (Bail ''dynamic model discovery requires an official Provider preset'')) (\<lambda>preset.
     and_then (ok_or (ps_default_base_url preset)
       (Bail ''official Provider model endpoint is unavailable'')) (\<lambda>base_url.
     and_then (bail_if (in_protocol profile \<noteq> ps_protocol preset \<or> in_auth_kind profile \<noteq> ps_auth_kind preset
         \<or> in_base_url profile \<noteq> base_url)
       (Bail ''official Provider connection settings do not match the trusted Catalog'')) (\<lambda>_.
     Inr (preset_id, base_url)))))"

definition discovery_url :: "rstr \<Rightarrow> rstr \<Rightarrow> rstr" where
  "discovery_url preset_id base_url =
     base_url @ (if preset_id = lit ''xai'' then lit ''/language-models'' else lit ''/models'')"

definition auth_header_value :: "provider_auth_kind \<Rightarrow> rstr \<Rightarrow> nat list" where
  "auth_header_value auth_kind secret =
    (case auth_kind of
       BearerApiKey \<Rightarrow> lit ''Bearer '' @ str_bytes secret
     | XApiKeyKind \<Rightarrow> str_bytes secret)"

definition discovery_headers :: "provider_auth_kind \<Rightarrow> nat list \<Rightarrow> (rstr \<times> nat list) list" where
  "discovery_headers auth_kind value =
    (case auth_kind of
       BearerApiKey \<Rightarrow> [(lit ''authorization'', value)]
     | XApiKeyKind \<Rightarrow> [(lit ''x-api-key'', value), (lit ''anthropic-version'', lit ''2023-06-01'')])"

definition prepare_discovery ::
  "host_env \<Rightarrow> provider_catalog \<Rightarrow> probe_world \<Rightarrow> discover_models_request
     \<Rightarrow> host_error + rstr \<times> rstr \<times> discovery_request" where
  "prepare_discovery h catalog w request =
     and_then (pw_access w 0) (\<lambda>_.
     and_then (profile_input_normalized h (dm_profile request)) (\<lambda>profile.
     and_then (discovery_target catalog profile) (\<lambda>target.
     and_then (probe_endpoint_origin h (snd target)) (\<lambda>origin.
     and_then (with_context ''validate Provider model discovery secret''
       (map_err Vault (secret_new (dm_api_key request)))) (\<lambda>secret.
     and_then (bail_if (\<not> pw_http_client w)
       (Context ''prepare Provider model discovery client'' (Foreign ''reqwest''))) (\<lambda>_.
     and_then (bail_if (\<not> pw_header_value w (auth_header_value (in_auth_kind profile) secret))
       (Context ''prepare Provider model discovery authorization'' (Foreign ''http''))) (\<lambda>_.
     and_then (pw_access w 1) (\<lambda>_.
     Inr (fst target, origin, \<lparr>dq_url = discovery_url (fst target) (snd target),
            dq_headers = discovery_headers (in_auth_kind profile)
              (auth_header_value (in_auth_kind profile) secret)\<rparr>)))))))))"

definition discover_models ::
  "host_env \<Rightarrow> provider_catalog \<Rightarrow> probe_world \<Rightarrow> discover_models_request
     \<Rightarrow> (host_error + discovery_result) \<times> probe_event list" where
  "discover_models h catalog w request =
    (case prepare_discovery h catalog w request of
       Inl e \<Rightarrow> (Inl e, [])
     | Inr (preset_id, origin, http_request) \<Rightarrow>
         (Inr (discovery_outcome w preset_id origin (pw_http w http_request)), [ModelsRequested http_request]))"

section \<open>The extension methods\<close>

definition probe_methods :: "string list" where
  "probe_methods =
    [''x.agentmesh360/providers/test-connection'', ''x.agentmesh360/providers/discover-models'',
     ''x.agentmesh360/providers/probes/run'', ''x.agentmesh360/providers/probes/list'']"

definition probe_handles :: "rstr \<Rightarrow> bool" where
  "probe_handles name \<longleftrightarrow> name \<in> lit ` set probe_methods"

text \<open>
  The parameters of a call as \<open>parse_params\<close> decodes them for each of the four request types.
\<close>

record probe_params =
  qp_discover :: "host_error + discover_models_request"
  qp_test :: "host_error + test_connection_request"
  qp_run :: "host_error + run_probe_request"
  qp_list :: "host_error + rstr option"

datatype probe_reply =
    ReplyDiscovery discovery_result
  | ReplyConnection connection_result
  | ReplyProbe probe_result
  | ReplyProbes "probe_result list"

text \<open>The dispatch: the answer, what was sent, and the table of recorded probes.\<close>

definition probe_handle ::
  "'v vault_ops \<Rightarrow> host_env \<Rightarrow> provider_catalog \<Rightarrow> probe_world \<Rightarrow> int \<Rightarrow> rstr \<Rightarrow> probe_params
     \<Rightarrow> 'v \<times> state_db \<Rightarrow> probe_row list \<Rightarrow> (host_error + probe_reply) \<times> probe_event list \<times> probe_row list" where
  "probe_handle V h catalog w owner name params st rows =
    (if name = lit ''x.agentmesh360/providers/discover-models'' then
       (case qp_discover params of
          Inl e \<Rightarrow> (Inl e, [], rows)
        | Inr request \<Rightarrow>
            let (r, sent) = discover_models h catalog w request in
            (and_then r (\<lambda>r. Inr (ReplyDiscovery r)), sent, rows))
     else if name = lit ''x.agentmesh360/providers/test-connection'' then
       (case qp_test params of
          Inl e \<Rightarrow> (Inl e, [], rows)
        | Inr request \<Rightarrow>
            let (r, sent) = test_connection h catalog w request in
            (and_then r (\<lambda>r. Inr (ReplyConnection r)), sent, rows))
     else if name = lit ''x.agentmesh360/providers/probes/run'' then
       (case qp_run params of
          Inl e \<Rightarrow> (Inl e, [], rows)
        | Inr request \<Rightarrow>
            let (r, sent, rows) = probe_run V h catalog w owner request st rows in
            (and_then r (\<lambda>r. Inr (ReplyProbe r)), sent, rows))
     else if name = lit ''x.agentmesh360/providers/probes/list'' then
       (case qp_list params of
          Inl e \<Rightarrow> (Inl e, [], rows)
        | Inr profile_id \<Rightarrow>
            (and_then (probes_list h owner profile_id rows) (\<lambda>rs. Inr (ReplyProbes rs)), [], rows))
     else (Inl (Bailf ''unknown AgentMesh360 Provider Probe extension method: {other}'' [name]), [], rows))"

text \<open>
  Whatever method is called: without access at the first check nothing is sent and nothing is recorded,
  and a call sends at most one request.
\<close>

lemma no_access_no_effect:
  assumes "pw_access w 0 = Inl e"
  shows "test_connection h catalog w r1 = (Inl e, [])" "discover_models h catalog w r2 = (Inl e, [])"
    "probe_run V h catalog w owner r3 st rows = (Inl e, [], rows)"
  using assms by (simp_all add: test_connection_def discover_models_def prepare_discovery_def probe_run_def)

lemma single_request:
  "length (snd (test_connection h catalog w r1)) \<le> 1" "length (snd (discover_models h catalog w r2)) \<le> 1"
  "length (fst (snd (probe_run V h catalog w owner r3 st rows))) \<le> 1"
proof -
  show "length (snd (test_connection h catalog w r1)) \<le> 1"
    by (simp add: test_connection_def Let_def split: sum.split prod.split)
  show "length (snd (discover_models h catalog w r2)) \<le> 1"
    by (simp add: discover_models_def split: sum.split prod.split)
  obtain res sent rows' where r: "probe_run V h catalog w owner r3 st rows = (res, sent, rows')" by (rule prod_cases3)
  show "length (fst (snd (probe_run V h catalog w owner r3 st rows))) \<le> 1"
    using probe_run_result(3) [OF r] by (cases "sent = []") (auto simp: r)
qed

lemma probe_handle_sends:
  assumes "probe_handle V h catalog w owner name params st rows = (res, sent, rows')"
  shows "length sent \<le> 1" "pw_access w 0 = Inl e \<Longrightarrow> sent = [] \<and> rows' = rows"
    "\<not> probe_handles name \<Longrightarrow> (\<exists>e. res = Inl e) \<and> sent = [] \<and> rows' = rows"
proof -
  have "sent = [] \<or> (\<exists>r. sent = snd (test_connection h catalog w r)) \<or> (\<exists>r. sent = snd (discover_models h catalog w r))
      \<or> (\<exists>r. sent = fst (snd (probe_run V h catalog w owner r st rows)))"
    using assms by (auto simp: probe_handle_def case_prod_beta Let_def prod_eq_iff split: if_splits sum.splits)
  then show "length sent \<le> 1" using single_request by (metis list.size(3) zero_le)
  show "sent = [] \<and> rows' = rows" if "pw_access w 0 = Inl e"
    using assms by (auto simp: probe_handle_def no_access_no_effect [OF that] split: if_splits sum.splits)
  show "(\<exists>e. res = Inl e) \<and> sent = [] \<and> rows' = rows" if "\<not> probe_handles name"
    using assms that by (auto simp: probe_handle_def probe_handles_def probe_methods_def)
qed

section \<open>The models are the first claims\<close>

text \<open>
  The specification: the names an answer claims for model ids, in the order of the document, and the
  first claim for an id counts.
\<close>

definition alias_claims :: "json_value \<Rightarrow> (rstr \<times> rstr) list" where
  "alias_claims v =
    (case json_as_str v of None \<Rightarrow> [] | Some alias \<Rightarrow>
       (case normalize_model_id alias of Inl _ \<Rightarrow> [] | Inr a \<Rightarrow> [(a, a)]))"

definition entry_claims :: "bool \<Rightarrow> json_value \<Rightarrow> (rstr \<times> rstr) list" where
  "entry_claims xai entry =
    (case Option.bind (json_get (lit ''id'') entry) json_as_str of
       None \<Rightarrow> []
     | Some model_id \<Rightarrow>
         (case normalize_model_id model_id of Inl _ \<Rightarrow> [] | Inr m \<Rightarrow> [(m, display_name_of entry m)])
         @ (if xai then
              (case Option.bind (json_get (lit ''aliases'') entry) json_as_array of
                 None \<Rightarrow> [] | Some aliases \<Rightarrow> concat (map alias_claims aliases))
            else []))"

definition document_claims :: "rstr \<Rightarrow> json_value \<Rightarrow> (rstr \<times> rstr) list" where
  "document_claims preset_id document =
    (let xai = (preset_id = lit ''xai'') in
     case Option.bind (json_get (if xai then lit ''models'' else lit ''data'') document) json_as_array of
       None \<Rightarrow> [] | Some es \<Rightarrow> concat (map (entry_claims xai) es))"

definition insert_claims :: "(rstr \<times> rstr) list \<Rightarrow> (rstr \<times> rstr) list \<Rightarrow> (rstr \<times> rstr) list" where
  "insert_claims cs m = fold (\<lambda>(k, v). or_insert k v) cs m"

lemma insert_claims_simps [simp]:
  "insert_claims [] m = m" "insert_claims ((k, v) # cs) m = insert_claims cs (or_insert k v m)"
  "insert_claims (cs @ cs') m = insert_claims cs' (insert_claims cs m)"
  by (simp_all add: insert_claims_def)

lemma fold_insert_claims: "(\<And>x m. f x m = insert_claims (g x) m) \<Longrightarrow> fold f xs m = insert_claims (concat (map g xs)) m"
  by (induction xs arbitrary: m) simp_all

lemma add_alias_claims: "add_alias v m = insert_claims (alias_claims v) m"
  by (simp add: add_alias_def alias_claims_def split: option.splits sum.splits)

lemma add_entry_claims: "add_entry xai entry m = insert_claims (entry_claims xai entry) m"
  by (simp add: add_entry_def entry_claims_def Let_def fold_insert_claims [of add_alias alias_claims, OF add_alias_claims]
      split: option.splits sum.splits)

lemma discovered_map_claims: "discovered_map preset_id document = insert_claims (document_claims preset_id document) []"
  by (simp add: discovered_map_def document_claims_def Let_def
      fold_insert_claims [of "add_entry b" "entry_claims b" for b, OF add_entry_claims] split: option.splits)

text \<open>The map: its keys are sorted and distinct, and an insertion leaves the keys it has.\<close>

lemma map_fst_insort_key: "map fst (insort_key fst x m) = insort (fst x) (map fst m)"
  by (induction m) auto

lemma map_of_insort_key: "k \<notin> fst ` set m \<Longrightarrow> map_of (insort_key fst (k, v) m) = (map_of m)(k \<mapsto> v)"
  by (induction m) (auto simp: fun_eq_iff)

lemma or_insert_keys:
  assumes "sorted_wrt (<) (map fst m)"
  shows "sorted_wrt (<) (map fst (or_insert k v m))"
  using assms by (auto simp: or_insert_def map_fst_insort_key strict_sorted_iff sorted_insort distinct_insort)

lemma map_of_or_insert: "map_of (or_insert k v m) = (\<lambda>k'. case map_of m k' of Some v' \<Rightarrow> Some v' | None \<Rightarrow> if k' = k then Some v else None)"
proof (cases "k \<in> fst ` set m")
  case True
  then have "map_of m k \<noteq> None" by (simp add: map_of_eq_None_iff)
  with True show ?thesis by (auto simp: or_insert_def fun_eq_iff split: option.splits)
next
  case False
  then have "map_of m k = None" by (simp add: map_of_eq_None_iff)
  with False show ?thesis by (auto simp: or_insert_def map_of_insort_key fun_eq_iff split: option.splits)
qed

lemma insert_claims_sorted: "sorted_wrt (<) (map fst m) \<Longrightarrow> sorted_wrt (<) (map fst (insert_claims cs m))"
proof (induction cs arbitrary: m)
  case (Cons c cs)
  obtain k v where "c = (k, v)" by (rule prod.exhaust)
  with Cons.IH [OF or_insert_keys [OF Cons.prems]] show ?case by simp
qed simp

lemma map_of_insert_claims: "map_of (insert_claims cs m) = map_of (m @ cs)"
proof (induction cs arbitrary: m)
  case (Cons c cs)
  obtain k v where "c = (k, v)" by (rule prod.exhaust)
  then show ?case
    by (simp add: Cons.IH map_of_or_insert map_add_def fun_eq_iff split: option.splits)
qed simp

lemma normalized_model_id_valid: "normalize_model_id s = Inr m \<Longrightarrow> normalize_model_id m = Inr m"
  by (auto simp: normalize_model_id_def Let_def trim_trim split: if_splits)

lemma claims_valid: "(k, v) \<in> set (document_claims preset_id document) \<Longrightarrow> normalize_model_id k = Inr k"
proof -
  have a: "normalize_model_id k = Inr k" if "(k, v) \<in> set (alias_claims x)" for x
    using that by (auto simp: alias_claims_def dest: normalized_model_id_valid normalized_model_id_valid [OF sym] split: option.splits sum.splits)
  have e: "normalize_model_id k = Inr k" if kv: "(k, v) \<in> set (entry_claims xai entry)" for xai entry
  proof (cases "Option.bind (json_get (lit ''id'') entry) json_as_str")
    case (Some s)
    with kv consider m where "normalize_model_id s = Inr m" "k = m" | x where "(k, v) \<in> set (alias_claims x)"
      unfolding entry_claims_def Some
      by (cases "normalize_model_id s"; cases xai; cases "Option.bind (json_get (lit ''aliases'') entry) json_as_array")
        auto
    then show ?thesis by cases (use a normalized_model_id_valid in blast)+
  qed (use kv in \<open>simp add: entry_claims_def\<close>)
  assume "(k, v) \<in> set (document_claims preset_id document)"
  then obtain xai entry where "(k, v) \<in> set (entry_claims xai entry)"
    by (auto simp: document_claims_def Let_def split: option.splits)
  then show "normalize_model_id k = Inr k" by (rule e)
qed

text \<open>discovered models are the first claims. The models read from an answer are those its document
  claims, under valid identifiers: sorted by identifier without repetition, each with the name of its first
  claim, at most 512. The list is marked truncated exactly when an identifier is missing, and the missing
  ones are greater than all that are there.\<close>

theorem discovered_models_are_first_claims:
  assumes "parse_discovered_models preset_id document = (models, truncated)"
  shows "length models \<le> 512 \<and> sorted_wrt (<) (map dd_model_id models)
    \<and> (\<forall>d \<in> set models. normalize_model_id (dd_model_id d) = Inr (dd_model_id d)
        \<and> map_of (document_claims preset_id document) (dd_model_id d) = Some (dd_display_name d))
    \<and> (truncated \<longleftrightarrow> (\<exists>k \<in> fst ` set (document_claims preset_id document). k \<notin> dd_model_id ` set models))
    \<and> (\<forall>k \<in> fst ` set (document_claims preset_id document). k \<notin> dd_model_id ` set models
        \<longrightarrow> length models = 512 \<and> (\<forall>d \<in> set models. dd_model_id d < k))"
proof -
  define m where "m = discovered_map preset_id document"
  define view where "view = (\<lambda>(model_id, name). \<lparr>dd_model_id = model_id, dd_display_name = name\<rparr>)"
  have models: "models = map view (take 512 m)" and trunc: "truncated \<longleftrightarrow> length m > 512"
    using assms by (auto simp: parse_discovered_models_def max_discovered_models_def Let_def m_def view_def)
  have fst_view: "dd_model_id \<circ> view = fst" by (auto simp: view_def fun_eq_iff)
  have s: "sorted_wrt (<) (map fst m)"
    unfolding m_def discovered_map_claims by (rule insert_claims_sorted) simp
  have mo: "map_of m = map_of (document_claims preset_id document)"
    by (simp add: m_def discovered_map_claims map_of_insert_claims)
  have dom: "fst ` set m = fst ` set (document_claims preset_id document)"
    using mo by (metis dom_map_of_conv_image_fst)
  have ids: "map dd_model_id models = take 512 (map fst m)" by (simp add: models fst_view take_map)
  have ids': "dd_model_id ` set models = set (take 512 (map fst m))" by (metis ids list.set_map)
  have s2: "sorted_wrt (<) (take 512 (map fst m) @ drop 512 (map fst m))" using s by simp
  have before: "\<forall>x \<in> set (take 512 (map fst m)). \<forall>y \<in> set (drop 512 (map fst m)). x < y"
    using s2 unfolding sorted_wrt_append by blast
  have d: "distinct (map fst m)" using s by (simp add: strict_sorted_iff)
  have missing: "k \<in> set (drop 512 (map fst m))" if "k \<in> fst ` set m" "k \<notin> dd_model_id ` set models" for k
    using that unfolding ids' by (metis Un_iff append_take_drop_id list.set_map set_append)
  have 1: "normalize_model_id (dd_model_id d) = Inr (dd_model_id d)
        \<and> map_of (document_claims preset_id document) (dd_model_id d) = Some (dd_display_name d)"
    if "d \<in> set models" for d
  proof -
    from that obtain k v where kv: "(k, v) \<in> set m" "d = view (k, v)"
      unfolding models by (metis (no_types, opaque_lifting) imageE in_set_takeD list.set_map surj_pair)
    then have "map_of m k = Some v" using d by simp
    moreover from this have "(k, v) \<in> set (document_claims preset_id document)" unfolding mo by (rule map_of_SomeD)
    ultimately show ?thesis using claims_valid kv(2) by (simp add: view_def mo)
  qed
  have 2: "truncated \<longleftrightarrow> (\<exists>k \<in> fst ` set m. k \<notin> dd_model_id ` set models)"
  proof
    assume truncated
    then have "drop 512 (map fst m) \<noteq> []" by (simp add: trunc)
    then obtain k where k: "k \<in> set (drop 512 (map fst m))" by (meson list.set_sel(1))
    then have "k \<notin> set (take 512 (map fst m))" using s2 unfolding sorted_wrt_append by blast
    then show "\<exists>k \<in> fst ` set m. k \<notin> dd_model_id ` set models"
      unfolding ids' using in_set_dropD [OF k] by (metis list.set_map)
  next
    assume "\<exists>k \<in> fst ` set m. k \<notin> dd_model_id ` set models"
    then have "drop 512 (map fst m) \<noteq> []" using missing by fastforce
    then show truncated by (simp add: trunc)
  qed
  have 3: "length models = 512 \<and> (\<forall>d \<in> set models. dd_model_id d < k)"
    if k: "k \<in> fst ` set m" "k \<notin> dd_model_id ` set models" for k
  proof
    have "truncated" using k 2 by blast
    then show "length models = 512" by (simp add: models trunc)
    show "\<forall>d \<in> set models. dd_model_id d < k"
      using missing [OF k] before ids' by (metis imageI)
  qed
  have "length models \<le> 512" by (simp add: models)
  moreover have "sorted_wrt (<) (map dd_model_id models)" unfolding ids using s by (rule sorted_wrt_take)
  ultimately show ?thesis using 1 2 3 unfolding dom by blast
qed

section \<open>What discovery sends\<close>

lemma discovery_target_Inr:
  "discovery_target catalog profile = Inr (preset_id, url) \<longleftrightarrow> in_preset_id profile = Some preset_id \<and> in_base_url profile = url
     \<and> (\<exists>preset. catalog_provider catalog preset_id = Some preset \<and> ps_classification preset = Official
         \<and> ps_default_base_url preset = Some url \<and> in_protocol profile = ps_protocol preset
         \<and> in_auth_kind profile = ps_auth_kind preset)"
  by (auto simp: discovery_target_def result_simps split: option.splits if_splits)

lemma catalog_provider_Some: "catalog_provider c preset_id = Some p \<Longrightarrow> p \<in> set (pc_providers c) \<and> ps_preset_id p = preset_id"
  by (auto simp: catalog_provider_def find_Some_iff)

lemma read_discovery_body_bound:
  "read_discovery_body body items = Inr b \<Longrightarrow> length body \<le> max_discovery_body \<Longrightarrow> length b \<le> max_discovery_body"
  by (induction body items rule: read_discovery_body.induct) (auto split: if_splits)

lemma discovered_models_Inr:
  assumes "discovered_models w preset_id items = Inr (models, truncated)"
  shows "models \<noteq> []" "\<exists>body document. read_discovery_body [] items = Inr body \<and> length body \<le> max_discovery_body
    \<and> pw_json w body = Some document \<and> parse_discovered_models preset_id document = (models, truncated)"
proof -
  from assms obtain body document where b: "read_discovery_body [] items = Inr body" "pw_json w body = Some document"
      "(let (models, truncated) = parse_discovered_models preset_id document in
     if models = [] then Inl (''model_discovery_no_models'',
       ''The Provider accepted the credential but returned no usable language models.'')
     else Inr (models, truncated)) = Inr (models, truncated)"
    by (auto simp: discovered_models_def result_simps)
  obtain ms t where "parse_discovered_models preset_id document = (ms, t)" by (rule prod.exhaust)
  with b(3) have "models \<noteq> []" "parse_discovered_models preset_id document = (models, truncated)"
    by (auto split: if_splits)
  with b(1,2) read_discovery_body_bound [OF b(1)] show "models \<noteq> []"
    "\<exists>body document. read_discovery_body [] items = Inr body \<and> length body \<le> max_discovery_body
    \<and> pw_json w body = Some document \<and> parse_discovered_models preset_id document = (models, truncated)" by auto
qed

lemma model_discovery_result_fields [simp]:
  "dr_models (model_discovery_result w origin s v ms t c m) = ms" "dr_status (model_discovery_result w origin s v ms t c m) = s"
  "dr_may_incur_cost (model_discovery_result w origin s v ms t c m) = False"
  "dr_truncated (model_discovery_result w origin s v ms t c m) = t"
  by (simp_all add: model_discovery_result_def)

lemma discovery_outcome_models:
  assumes "r = discovery_outcome w preset_id origin transport"
  shows "dr_models r \<noteq> [] \<longleftrightarrow> dr_status r = ProbePassed" "\<not> dr_may_incur_cost r"
    "dr_models r \<noteq> [] \<Longrightarrow> \<exists>status items body document. transport = Responded status items
      \<and> 200 \<le> status \<and> status < 300 \<and> read_discovery_body [] items = Inr body \<and> length body \<le> max_discovery_body
      \<and> pw_json w body = Some document \<and> parse_discovered_models preset_id document = (dr_models r, dr_truncated r)"
proof -
  consider (failed) v c m where "r = model_discovery_result w origin ProbeFailed v [] False c m"
    | (passed) status items models truncated c m where "transport = Responded status items" "200 \<le> status" "status < 300"
        "discovered_models w preset_id items = Inr (models, truncated)"
        "r = model_discovery_result w origin ProbePassed True models truncated c m"
  proof (cases transport)
    case (Responded status items)
    show thesis
    proof (cases "200 \<le> status \<and> status < 300")
      case False
      obtain c m where "model_discovery_http_failure status = (c, m)" by (rule prod.exhaust)
      with False show thesis by (intro failed) (auto simp: assms discovery_outcome_def Responded)
    next
      case True
      show thesis
      proof (cases "discovered_models w preset_id items")
        case (Inl e)
        obtain c m where "e = (c, m)" by (rule prod.exhaust)
        with True Inl show thesis by (intro failed) (simp add: assms discovery_outcome_def Responded)
      next
        case (Inr mt)
        obtain ms t where "mt = (ms, t)" by (rule prod.exhaust)
        with True Inr show thesis
          by (intro passed [OF Responded, of ms t]) (simp_all add: assms discovery_outcome_def Responded)
      qed
    qed
  qed (rule failed, simp add: assms discovery_outcome_def)+
  then have "(dr_models r \<noteq> [] \<longleftrightarrow> dr_status r = ProbePassed) \<and> \<not> dr_may_incur_cost r \<and> (dr_models r \<noteq> [] \<longrightarrow>
      (\<exists>status items body document. transport = Responded status items
      \<and> 200 \<le> status \<and> status < 300 \<and> read_discovery_body [] items = Inr body \<and> length body \<le> max_discovery_body
      \<and> pw_json w body = Some document \<and> parse_discovered_models preset_id document = (dr_models r, dr_truncated r)))"
  proof cases
    case passed
    from discovered_models_Inr [OF passed(4)] passed show ?thesis by simp
  qed simp
  then show "dr_models r \<noteq> [] \<longleftrightarrow> dr_status r = ProbePassed" "\<not> dr_may_incur_cost r"
    "dr_models r \<noteq> [] \<Longrightarrow> \<exists>status items body document. transport = Responded status items
      \<and> 200 \<le> status \<and> status < 300 \<and> read_discovery_body [] items = Inr body \<and> length body \<le> max_discovery_body
      \<and> pw_json w body = Some document \<and> parse_discovered_models preset_id document = (dr_models r, dr_truncated r)"
    by blast+
qed

lemma prepare_discovery_Inr:
  assumes "prepare_discovery h catalog w request = Inr (preset_id, origin, q)"
  obtains profile target secret where "pw_access w 0 = Inr ()"
      "profile_input_normalized h (dm_profile request) = Inr profile" "discovery_target catalog profile = Inr target"
      "pw_access w 1 = Inr ()" "secret_new (dm_api_key request) = Inr secret" "preset_id = fst target"
      "q = \<lparr>dq_url = discovery_url preset_id (snd target),
             dq_headers = discovery_headers (in_auth_kind profile) (auth_header_value (in_auth_kind profile) secret)\<rparr>"
proof -
  from assms obtain profile target origin' secret u1 u2 where
    "pw_access w 0 = Inr u1" "profile_input_normalized h (dm_profile request) = Inr profile"
    "discovery_target catalog profile = Inr target" "secret_new (dm_api_key request) = Inr secret"
    "pw_access w 1 = Inr u2"
    "(fst target, origin', \<lparr>dq_url = discovery_url (fst target) (snd target),
            dq_headers = discovery_headers (in_auth_kind profile)
              (auth_header_value (in_auth_kind profile) secret)\<rparr>) = (preset_id, origin, q)"
    unfolding prepare_discovery_def and_then_eq_Inr bail_if_eq_Inr map_err_eq_Inr sum.inject by blast
  then show thesis by (intro that) auto
qed

text \<open>C24: discovery asks official endpoints. When model discovery sends anything, it is one request for the
  models at the default endpoint of an official preset of the catalog, which the profile names and agrees with
  in protocol, authentication and base URL, after both access checks; the key of the request is in its
  authentication header and nowhere else. The answer is made from the response alone, never claims a cost,
  and lists models exactly when it has passed: from a success response of at most one MiB.\<close>

theorem discovery_asks_official_endpoints:
  assumes "discover_models h catalog w request = (res, sent)"
  shows "sent = [] \<and> (\<exists>e. res = Inl e) \<or> (\<exists>profile preset url origin secret q r. sent = [ModelsRequested q] \<and> res = Inr r
      \<and> pw_access w 0 = Inr () \<and> pw_access w 1 = Inr ()
      \<and> profile_input_normalized h (dm_profile request) = Inr profile
      \<and> preset \<in> set (pc_providers catalog) \<and> ps_classification preset = Official
      \<and> in_preset_id profile = Some (ps_preset_id preset) \<and> ps_default_base_url preset = Some url
      \<and> in_base_url profile = url \<and> in_protocol profile = ps_protocol preset \<and> in_auth_kind profile = ps_auth_kind preset
      \<and> dq_url q \<in> {url @ lit ''/models'', url @ lit ''/language-models''}
      \<and> secret_new (dm_api_key request) = Inr secret
      \<and> dq_headers q = discovery_headers (ps_auth_kind preset) (auth_header_value (ps_auth_kind preset) secret)
      \<and> r = discovery_outcome w (ps_preset_id preset) origin (pw_http w q) \<and> \<not> dr_may_incur_cost r
      \<and> (dr_models r \<noteq> [] \<longleftrightarrow> dr_status r = ProbePassed)
      \<and> (dr_models r \<noteq> [] \<longrightarrow> (\<exists>status items body. pw_http w q = Responded status items \<and> 200 \<le> status \<and> status < 300
          \<and> read_discovery_body [] items = Inr body \<and> length body \<le> 1048576)))"
proof (cases "prepare_discovery h catalog w request")
  case (Inl e)
  with assms have "sent = [] \<and> (\<exists>e. res = Inl e)" by (auto simp: discover_models_def)
  then show ?thesis by (rule disjI1)
next
  case (Inr prepared)
  obtain preset_id origin q where pr: "prepared = (preset_id, origin, q)" by (cases prepared)
  from Inr [unfolded pr] obtain profile target secret where a': "pw_access w 0 = Inr ()"
      "profile_input_normalized h (dm_profile request) = Inr profile" "discovery_target catalog profile = Inr target"
      "pw_access w 1 = Inr ()" "secret_new (dm_api_key request) = Inr secret"
    and q': "preset_id = fst target" "q = \<lparr>dq_url = discovery_url preset_id (snd target),
             dq_headers = discovery_headers (in_auth_kind profile) (auth_header_value (in_auth_kind profile) secret)\<rparr>"
    by (rule prepare_discovery_Inr)
  obtain url where url: "target = (preset_id, url)" using q'(1) by (cases target) simp
  define r where "r = discovery_outcome w preset_id origin (pw_http w q)"
  have q2: "q = \<lparr>dq_url = discovery_url preset_id url, dq_headers = discovery_headers (in_auth_kind profile)
             (auth_header_value (in_auth_kind profile) secret)\<rparr>"
    using q'(2) unfolding url snd_conv .
  note a = a'(1,2) a'(3) [unfolded url] a'(4,5) q2 r_def
  have s: "sent = [ModelsRequested q]" "res = Inr r"
    using assms Inr by (simp_all add: discover_models_def pr r_def)
  from a(3) [unfolded discovery_target_Inr] obtain preset where
    p: "catalog_provider catalog preset_id = Some preset" "ps_classification preset = Official"
      "ps_default_base_url preset = Some url" "in_protocol profile = ps_protocol preset"
      "in_auth_kind profile = ps_auth_kind preset" "in_preset_id profile = Some preset_id" "in_base_url profile = url"
    by blast
  have id: "preset \<in> set (pc_providers catalog)" "ps_preset_id preset = preset_id"
    using catalog_provider_Some [OF p(1)] by simp_all
  note r = discovery_outcome_models [OF a(7)]
  have u: "dq_url q \<in> {url @ lit ''/models'', url @ lit ''/language-models''}"
    by (simp add: a(6) discovery_url_def)
  have hd: "dq_headers q = discovery_headers (ps_auth_kind preset) (auth_header_value (ps_auth_kind preset) secret)"
    by (simp add: a(6) p(5))
  have b: "dr_models r \<noteq> [] \<longrightarrow> (\<exists>status items body. pw_http w q = Responded status items \<and> 200 \<le> status \<and> status < 300
          \<and> read_discovery_body [] items = Inr body \<and> length body \<le> 1048576)"
    using r(3) unfolding max_discovery_body_def by blast
  have r': "r = discovery_outcome w (ps_preset_id preset) origin (pw_http w q)" using a(7) id(2) by simp
  have n: "in_preset_id profile = Some (ps_preset_id preset)" using p(6) id(2) by simp
  show ?thesis
    by (rule disjI2, rule exI [of _ profile], rule exI [of _ preset], rule exI [of _ url], rule exI [of _ origin],
        rule exI [of _ secret], rule exI [of _ q], rule exI [of _ r],
        intro conjI a(1,2,4,5) p(2,3,4,5,7) id(1) n u hd r' r(1,2) b s)
qed

section \<open>A concrete discovery\<close>

definition sample_discovery_request :: discover_models_request where
  "sample_discovery_request = \<lparr>dm_profile = \<lparr>in_preset_id = Some [111], in_display_name = [110], in_protocol = OpenaiChat,
     in_base_url = [117], in_auth_kind = BearerApiKey, in_enabled_models = []\<rparr>, dm_api_key = sample_key\<rparr>"

definition sample_models_document :: json_value where
  "sample_models_document = JsonObject [(lit ''data'', JsonArray
     [JsonObject [(lit ''id'', JsonString [98]), (lit ''display_name'', JsonString [66])],
      JsonObject [(lit ''id'', JsonString [97])], JsonObject [(lit ''id'', JsonString [32, 98])], JsonNull])]"

lemma sample_models:
  "parse_discovered_models [111] sample_models_document =
     ([\<lparr>dd_model_id = [97], dd_display_name = [97]\<rparr>, \<lparr>dd_model_id = [98], dd_display_name = [66]\<rparr>], False)"
proof -
  have n: "normalize_model_id [97] = Inr [97]" "normalize_model_id [98] = Inr [98]" "normalize_model_id [32, 98] = Inr [98]"
    by (simp_all add: normalize_model_id_def trim_def trim_start_def trim_end_def
        is_whitespace_def str_len_def str_bytes_def utf8_encode_def model_id_byte_def is_ascii_alphanumeric_def
        is_ascii_digit_def is_ascii_lowercase_def)
  have d: "normalized_model_display_name [66] = Some [66]"
    by (simp add: normalized_model_display_name_def trim_def trim_start_def trim_end_def is_whitespace_def is_control_def)
  have x: "[111] \<noteq> lit ''xai''" by (simp add: lit_def)
  show ?thesis
    by (simp add: parse_discovered_models_def discovered_map_def sample_models_document_def add_entry_def display_name_of_def
        or_insert_def max_discovered_models_def x n d)
qed

lemma discovered_models_are_first_claims_witness:
  "sorted_wrt (<) (map dd_model_id (fst (parse_discovered_models [111] sample_models_document)))
     \<and> length (fst (parse_discovered_models [111] sample_models_document)) = 2"
  using discovered_models_are_first_claims [OF sample_models] by (simp add: sample_models)

definition sample_discovery_world :: probe_world where
  "sample_discovery_world = sample_probe_world\<lparr>pw_json := (\<lambda>_. Some sample_models_document)\<rparr>"

lemma sample_discovery:
  obtains r q where "discover_models sample_env sample_catalog sample_discovery_world sample_discovery_request
    = (Inr r, [ModelsRequested q])"
proof -
  let ?p = "dm_profile sample_discovery_request"
  have t: "trim [x] = [x]" if "x \<in> {110, 111, 117}" for x :: nat
    using that by (auto simp: trim_def trim_start_def trim_end_def is_whitespace_def)
  have "normalize_base_url sample_env [117] = Inr [117]"
    by (simp add: normalize_base_url_def sample_env_def sample_url_def t trim_end_matches_def)
  then have n: "profile_input_normalized sample_env ?p = Inr ?p"
    by (simp add: profile_input_normalized_def sample_discovery_request_def t Let_def)
  have d: "discovery_target sample_catalog ?p = Inr ([111], [117])"
    by (simp add: discovery_target_Inr catalog_provider_def sample_catalog_def sample_preset_def sample_discovery_request_def)
  have o': "probe_endpoint_origin sample_env [117] = Inr [117]"
    by (simp add: probe_endpoint_origin_def sample_env_def sample_url_def)
  have k: "secret_new (dm_api_key sample_discovery_request) = Inr sample_key"
    using sample_key_ok by (simp add: sample_discovery_request_def)
  have w: "pw_access sample_discovery_world n = Inr ()" "pw_http_client sample_discovery_world"
    "pw_header_value sample_discovery_world v" for n v
    by (simp_all add: sample_discovery_world_def sample_probe_world_def)
  show ?thesis
    by (rule that) (simp add: discover_models_def prepare_discovery_def n d o' k w)
qed

lemma discovery_asks_official_endpoints_witness:
  "\<exists>r q. discover_models sample_env sample_catalog sample_discovery_world sample_discovery_request
      = (Inr r, [ModelsRequested q]) \<and> \<not> dr_may_incur_cost r"
proof -
  obtain r q where s: "discover_models sample_env sample_catalog sample_discovery_world sample_discovery_request
    = (Inr r, [ModelsRequested q])" by (rule sample_discovery)
  from discovery_asks_official_endpoints [OF s] have "\<not> dr_may_incur_cost r"
    by (elim disjE exE conjE) simp_all
  with s show ?thesis by blast
qed
end
