(* ===== verification/Package_Release.thy ===== *)
theory Package_Release
  imports Package_Artifact
begin

text \<open>
  \<open>package_release.rs\<close>: the release manifest of an Agent Package, which binds the client artifact, its
  signature envelope and the bundles exported for other hosts by their digests; its assembly and its
  verification. The JSON codec of the manifest and the canonical text of a version are arguments
  (\<open>release_env\<close>).
\<close>

section \<open>Documents\<close>

fun skill_host_as_str :: "skill_host \<Rightarrow> string" where
  "skill_host_as_str Codex = ''codex''"
| "skill_host_as_str ClaudeCode = ''claude-code''"
| "skill_host_as_str Openclaw = ''openclaw''"

lemma skill_host_as_str_inject [simp]: "skill_host_as_str a = skill_host_as_str b \<longleftrightarrow> a = b"
  by (cases a; cases b) simp_all

record client_artifact_release =
  ca_file_name :: rstr
  ca_sha256 :: rstr
  ca_file_manifest_sha256 :: rstr
  ca_envelope_file_name :: rstr
  ca_envelope_sha256 :: rstr
  ca_signature_key_id :: rstr

record host_plan_release =
  hp_projection_file_name :: rstr
  hp_projection_sha256 :: rstr
  hp_signed_plan_sha256 :: rstr

record host_bundle_release =
  hb_host :: skill_host
  hb_entrypoint :: rstr
  hb_file_name :: rstr
  hb_sha256 :: rstr

record agent_release_manifest =
  rm_schema_version :: nat
  rm_package_id :: rstr
  rm_agent_id :: rstr
  rm_version :: rstr
  rm_publisher :: rstr
  rm_client_artifact :: client_artifact_release
  rm_host_plan :: host_plan_release
  rm_host_bundles :: "host_bundle_release list"

record release_descriptor =
  rd_package_id :: rstr
  rd_agent_id :: rstr
  rd_version :: rstr
  rd_publisher :: rstr
  rd_release_file_name :: rstr
  rd_release_sha256 :: rstr
  rd_artifact_file_name :: rstr
  rd_artifact_sha256 :: rstr
  rd_artifact_file_manifest_sha256 :: rstr
  rd_envelope_file_name :: rstr
  rd_envelope_sha256 :: rstr
  rd_envelope_signature_key_id :: rstr
  rd_host_projection_file_name :: rstr
  rd_host_projection_sha256 :: rstr
  rd_host_bundles :: "host_bundle_release list"

record agent_release_build =
  ab_package_id :: rstr
  ab_agent_id :: rstr
  ab_version :: rstr
  ab_file_name :: rstr
  ab_document :: "nat list"
  ab_sha256 :: rstr

text \<open>The receipt of an export for other hosts, with one bundle file per host.\<close>

record host_bundle_receipt =
  br_host :: skill_host
  br_entrypoint :: rstr
  br_bundle_path :: rstr
  br_bundle_sha256 :: rstr

record host_export_receipt =
  he_package_id :: rstr
  he_agent_id :: rstr
  he_version :: rstr
  he_source_artifact_sha256 :: rstr
  he_source_projection_sha256 :: rstr
  he_source_plan_sha256 :: rstr
  he_signature_key_id :: rstr
  he_bundles :: "host_bundle_receipt list"

record release_env =
  rl_artifact :: artifact_env
  semver_text :: "rstr \<Rightarrow> rstr"
  parse_envelope_bytes :: "nat list \<Rightarrow> signature_envelope option"
  parse_release :: "nat list \<Rightarrow> agent_release_manifest option"
  release_json :: "agent_release_manifest \<Rightarrow> nat list"

definition max_release_manifest_bytes :: nat where "max_release_manifest_bytes = 1024 * 1024"
definition max_release_input_bytes :: nat where "max_release_input_bytes = 1024 * 1024"

section \<open>File names\<close>

definition release_stem :: "rstr \<Rightarrow> rstr \<Rightarrow> rstr" where
  "release_stem package_id version = package_id @ [45] @ version"

definition validate_output_file_name :: "rstr \<Rightarrow> host_error + unit" where
  "validate_output_file_name value =
     bail_if (value = [] \<or> str_len value > 512 \<or> length (path_components value) \<noteq> 1
        \<or> \<not> list_all is_normal (take 1 (path_components value)))
       (Bail ''Agent Package authoring output file name is invalid'')"

definition host_bundle_file_name :: "rstr \<Rightarrow> rstr \<Rightarrow> skill_host \<Rightarrow> host_error + rstr" where
  "host_bundle_file_name package_id version host =
     (let file_name = release_stem package_id version @ [45] @ lit (skill_host_as_str host) @ lit ''.amskill.tar.zst'' in
      and_then (validate_output_file_name file_name) (\<lambda>_. Inr file_name))"

section \<open>Verification\<close>

fun verify_release_bundles ::
  "rstr \<Rightarrow> rstr \<Rightarrow> skill_host list \<Rightarrow> string option \<Rightarrow> host_bundle_release list \<Rightarrow> host_error + unit" where
  "verify_release_bundles package_id version hosts previous [] = Inr ()"
| "verify_release_bundles package_id version hosts previous (b # bs) =
     and_then (validate_sha256 ''hostBundles.sha256'' (hb_sha256 b)) (\<lambda>_.
     and_then (validate_relative_package_path ''release.hostBundles.entrypoint'' (hb_entrypoint b)) (\<lambda>_.
     and_then (normalized_package_path (hb_entrypoint b)) (\<lambda>_.
     and_then (bail_if (hb_host b \<in> set hosts) (Bail ''Agent Release Manifest contains a duplicate Host bundle'')) (\<lambda>_.
     and_then (bail_if (case previous of None \<Rightarrow> False | Some p \<Rightarrow> lit p \<ge> lit (skill_host_as_str (hb_host b)))
       (Bail ''Agent Release Manifest Host bundles must be uniquely sorted'')) (\<lambda>_.
     and_then (host_bundle_file_name package_id version (hb_host b)) (\<lambda>expected_file.
     and_then (bail_if (hb_file_name b \<noteq> expected_file)
       (Bail ''Agent Release Manifest Host bundle file name differs from its identity'')) (\<lambda>_.
     verify_release_bundles package_id version (hb_host b # hosts) (Some (skill_host_as_str (hb_host b))) bs)))))))"

definition verify_agent_release_document :: "release_env \<Rightarrow> nat list \<Rightarrow> host_error + agent_release_manifest" where
  "verify_agent_release_document E document =
     and_then (bail_if (document = [] \<or> length document > max_release_manifest_bytes)
       (Bail ''Agent Release Manifest size is invalid'')) (\<lambda>_.
     and_then (ok_or (parse_release E document) (Context ''parse Agent Release Manifest'' (Foreign ''serde_json''))) (\<lambda>m.
     let client = rm_client_artifact m; plan = rm_host_plan m; stem = release_stem (rm_package_id m) (rm_version m) in
     and_then (bail_if (rm_schema_version m \<noteq> 1) (Bail ''Agent Release Manifest identity or schema is invalid'')) (\<lambda>_.
     and_then (validate_identifier ''release.packageId'' (rm_package_id m) True) (\<lambda>_.
     and_then (validate_identifier ''release.agentId'' (rm_agent_id m) False) (\<lambda>_.
     and_then (validate_identifier ''release.publisher'' (rm_publisher m) True) (\<lambda>_.
     and_then (bail_if (\<not> is_safe_identifier (ca_signature_key_id client) \<or> str_len (ca_signature_key_id client) > 128
         \<or> str_len (rm_version m) > 128) (Bail ''Agent Release Manifest identity or schema is invalid'')) (\<lambda>_.
     and_then (bail_if (\<not> semver_parses (ae_package (rl_artifact E)) (rm_version m))
       (Context ''parse Agent Release Manifest version'' (Foreign ''semver''))) (\<lambda>_.
     and_then (bail_if (semver_text E (rm_version m) \<noteq> rm_version m)
       (Bail ''Agent Release Manifest version must use canonical SemVer'')) (\<lambda>_.
     and_then (validate_sha256 ''clientArtifact.sha256'' (ca_sha256 client)) (\<lambda>_.
     and_then (validate_sha256 ''clientArtifact.fileManifestSha256'' (ca_file_manifest_sha256 client)) (\<lambda>_.
     and_then (validate_sha256 ''clientArtifact.signatureEnvelopeSha256'' (ca_envelope_sha256 client)) (\<lambda>_.
     and_then (validate_sha256 ''hostSkillPlan.projectionSha256'' (hp_projection_sha256 plan)) (\<lambda>_.
     and_then (validate_sha256 ''hostSkillPlan.signedPlanSha256'' (hp_signed_plan_sha256 plan)) (\<lambda>_.
     and_then (bail_if (ca_file_name client \<noteq> stem @ lit ''.ampkg.tar.zst''
         \<or> ca_envelope_file_name client \<noteq> stem @ lit ''.signature.v1.json''
         \<or> hp_projection_file_name plan \<noteq> stem @ lit ''.host-skills.v1.json'')
       (Bail ''Agent Release Manifest file names differ from its identity'')) (\<lambda>_.
     and_then (verify_release_bundles (rm_package_id m) (rm_version m) [] None (rm_host_bundles m)) (\<lambda>_.
     and_then (bail_if (release_json E m \<noteq> document)
       (Bail ''Agent Release Manifest must use canonical deterministic JSON'')) (\<lambda>_.
     Inr m)))))))))))))))))"

definition release_sha256 :: "release_env \<Rightarrow> nat list \<Rightarrow> rstr" where
  "release_sha256 E bytes = sha256_hex (rl_artifact E) bytes"

definition verify_agent_release_descriptor :: "release_env \<Rightarrow> nat list \<Rightarrow> host_error + release_descriptor" where
  "verify_agent_release_descriptor E document =
     and_then (verify_agent_release_document E document) (\<lambda>m.
     let client = rm_client_artifact m; plan = rm_host_plan m in
     Inr \<lparr>rd_package_id = rm_package_id m, rd_agent_id = rm_agent_id m, rd_version = rm_version m,
          rd_publisher = rm_publisher m,
          rd_release_file_name = release_stem (rm_package_id m) (rm_version m) @ lit ''.agent-release.v1.json'',
          rd_release_sha256 = release_sha256 E document,
          rd_artifact_file_name = ca_file_name client, rd_artifact_sha256 = ca_sha256 client,
          rd_artifact_file_manifest_sha256 = ca_file_manifest_sha256 client,
          rd_envelope_file_name = ca_envelope_file_name client, rd_envelope_sha256 = ca_envelope_sha256 client,
          rd_envelope_signature_key_id = ca_signature_key_id client,
          rd_host_projection_file_name = hp_projection_file_name plan,
          rd_host_projection_sha256 = hp_projection_sha256 plan, rd_host_bundles = rm_host_bundles m\<rparr>)"

definition verified_descriptor :: "release_env \<Rightarrow> agent_release_build \<Rightarrow> host_error + release_descriptor" where
  "verified_descriptor E b =
     and_then (verify_agent_release_descriptor E (ab_document b)) (\<lambda>d.
     and_then (bail_if (rd_package_id d \<noteq> ab_package_id b \<or> rd_agent_id d \<noteq> ab_agent_id b \<or> rd_version d \<noteq> ab_version b
         \<or> rd_release_file_name d \<noteq> ab_file_name b \<or> rd_release_sha256 d \<noteq> ab_sha256 b)
       (Bail ''Agent Release build metadata differs from its verified document'')) (\<lambda>_.
     Inr d))"

section \<open>Assembly\<close>

text \<open>\<open>files\<close> is what the file system has at a path; a file does not change while it is read.\<close>

definition read_bounded_regular_file :: "(rstr \<Rightarrow> node option) \<Rightarrow> rstr \<Rightarrow> nat \<Rightarrow> host_error + nat list" where
  "read_bounded_regular_file files path max_bytes =
     (case files path of
        None \<Rightarrow> Inl (Context ''inspect Host Skill export input'' (Foreign ''io''))
      | Some (FileNode bytes) \<Rightarrow>
          and_then (bail_if (length bytes > max_bytes) (Bail ''Host Skill export input is not an allowed regular file'')) (\<lambda>_.
          Inr bytes)
      | Some _ \<Rightarrow> Inl (Bail ''Host Skill export input is not an allowed regular file''))"

text \<open>\<open>Path::file_name\<close>: the last component, when it is a normal one.\<close>

definition path_file_name :: "rstr \<Rightarrow> rstr option" where
  "path_file_name path = (case rev (path_components path) of Normal s # _ \<Rightarrow> Some s | _ \<Rightarrow> None)"

fun assemble_bundles ::
  "release_env \<Rightarrow> (rstr \<Rightarrow> node option) \<Rightarrow> package_manifest \<Rightarrow> skill_host list \<Rightarrow> host_bundle_receipt list
     \<Rightarrow> host_error + host_bundle_release list" where
  "assemble_bundles E files m seen_hosts [] = Inr []"
| "assemble_bundles E files m seen_hosts (b # bs) =
     and_then (bail_if (br_host b \<in> set seen_hosts) (Bail ''Agent Release contains a duplicate Host bundle'')) (\<lambda>_.
     and_then (ok_or (map_of (rev (sk_adapters (pm_skills m))) (br_host b))
       (Bail ''Agent Release contains an unknown Host bundle'')) (\<lambda>expected_entrypoint.
     and_then (bail_if (br_entrypoint b \<noteq> expected_entrypoint)
       (Bail ''Agent Release Host bundle entrypoint differs from its Manifest'')) (\<lambda>_.
     and_then (validate_sha256 ''bundleSha256'' (br_bundle_sha256 b)) (\<lambda>_.
     and_then (host_bundle_file_name (pm_package_id m) (pm_version m) (br_host b)) (\<lambda>expected_file_name.
     and_then (ok_or (path_file_name (br_bundle_path b)) (Bail ''Agent Release Host bundle file name is invalid'')) (\<lambda>actual_file_name.
     and_then (bail_if (actual_file_name \<noteq> expected_file_name)
       (Bail ''Agent Release Host bundle file name differs from its identity'')) (\<lambda>_.
     and_then (with_context ''read H2d1 Host bundle for Agent Release''
       (read_bounded_regular_file files (br_bundle_path b) max_artifact_bytes)) (\<lambda>contents.
     and_then (bail_if (contents = [] \<or> release_sha256 E contents \<noteq> br_bundle_sha256 b)
       (Bail ''Agent Release Host bundle bytes differ from the H2d1 receipt'')) (\<lambda>_.
     and_then (assemble_bundles E files m (br_host b # seen_hosts) bs) (\<lambda>rest.
     Inr (\<lparr>hb_host = br_host b, hb_entrypoint = br_entrypoint b, hb_file_name = expected_file_name,
           hb_sha256 = br_bundle_sha256 b\<rparr> # rest)))))))))))"

definition assemble_agent_release ::
  "release_env \<Rightarrow> (rstr \<Rightarrow> node option) \<Rightarrow> verified_package \<Rightarrow> nat list \<Rightarrow> nat list \<Rightarrow> host_export_receipt
     \<Rightarrow> host_error + agent_release_build" where
  "assemble_agent_release E files v envelope_document projection_document exports =
     (let m = vp_manifest v; stem = release_stem (pm_package_id m) (pm_version m) in
     and_then (bail_if (envelope_document = [] \<or> length envelope_document > max_release_input_bytes
         \<or> projection_document = [] \<or> length projection_document > max_release_input_bytes)
       (Bail ''Agent Release input size is invalid'')) (\<lambda>_.
     and_then (validate_sha256 ''artifactSha256'' (vp_artifact_sha256 v)) (\<lambda>_.
     and_then (validate_sha256 ''envelopeSha256'' (vp_envelope_sha256 v)) (\<lambda>_.
     and_then (validate_sha256 ''fileManifestSha256'' (vp_file_manifest_sha256 v)) (\<lambda>_.
     and_then (validate_sha256 ''projectionSha256'' (he_source_projection_sha256 exports)) (\<lambda>_.
     and_then (validate_sha256 ''planSha256'' (he_source_plan_sha256 exports)) (\<lambda>_.
     and_then (with_context ''reverify staged Package before Agent Release assembly''
       (verify_installed_package_tree (rl_artifact E) (vp_staging v) (vp_file_manifest_sha256 v))) (\<lambda>current_manifest.
     and_then (bail_if (current_manifest \<noteq> m) (Bail ''staged Package Manifest changed before Agent Release assembly'')) (\<lambda>_.
     and_then (bail_if (release_sha256 E envelope_document \<noteq> vp_envelope_sha256 v)
       (Bail ''Agent Release signature Envelope differs from the H1-verified bytes'')) (\<lambda>_.
     and_then (ok_or (parse_envelope_bytes E envelope_document)
       (Context ''parse Agent Release signature Envelope'' (Foreign ''serde_json''))) (\<lambda>envelope.
     and_then (bail_if (se_schema_version envelope \<noteq> 1 \<or> se_package_id envelope \<noteq> pm_package_id m
         \<or> se_version envelope \<noteq> pm_version m \<or> se_publisher envelope \<noteq> pm_publisher m
         \<or> se_artifact_sha256 envelope \<noteq> vp_artifact_sha256 v \<or> se_key_id envelope \<noteq> vp_signature_key_id v)
       (Bail ''Agent Release signature Envelope identity differs from H1 verification'')) (\<lambda>_.
     and_then (bail_if (release_sha256 E projection_document \<noteq> he_source_projection_sha256 exports)
       (Bail ''Agent Release Host projection differs from the H2d1 export input'')) (\<lambda>_.
     and_then (bail_if (he_package_id exports \<noteq> pm_package_id m \<or> he_agent_id exports \<noteq> pa_agent_id (pm_agent m)
         \<or> he_version exports \<noteq> pm_version m \<or> he_source_artifact_sha256 exports \<noteq> vp_artifact_sha256 v
         \<or> he_signature_key_id exports \<noteq> vp_signature_key_id v)
       (Bail ''Agent Release Host export receipt identity differs from H1 verification'')) (\<lambda>_.
     and_then (bail_if (length (remdups (map fst (sk_adapters (pm_skills m)))) \<noteq> length (he_bundles exports))
       (Bail ''Agent Release Host bundle coverage differs from the Package Manifest'')) (\<lambda>_.
     and_then (assemble_bundles E files m [] (he_bundles exports)) (\<lambda>bundles.
     and_then (validate_output_file_name (stem @ lit ''.ampkg.tar.zst'')) (\<lambda>_.
     and_then (validate_output_file_name (stem @ lit ''.signature.v1.json'')) (\<lambda>_.
     and_then (validate_output_file_name (stem @ lit ''.host-skills.v1.json'')) (\<lambda>_.
     and_then (validate_output_file_name (stem @ lit ''.agent-release.v1.json'')) (\<lambda>_.
     let manifest = \<lparr>rm_schema_version = 1, rm_package_id = pm_package_id m, rm_agent_id = pa_agent_id (pm_agent m),
           rm_version = pm_version m, rm_publisher = pm_publisher m,
           rm_client_artifact = \<lparr>ca_file_name = stem @ lit ''.ampkg.tar.zst'', ca_sha256 = vp_artifact_sha256 v,
             ca_file_manifest_sha256 = vp_file_manifest_sha256 v, ca_envelope_file_name = stem @ lit ''.signature.v1.json'',
             ca_envelope_sha256 = vp_envelope_sha256 v, ca_signature_key_id = vp_signature_key_id v\<rparr>,
           rm_host_plan = \<lparr>hp_projection_file_name = stem @ lit ''.host-skills.v1.json'',
             hp_projection_sha256 = he_source_projection_sha256 exports, hp_signed_plan_sha256 = he_source_plan_sha256 exports\<rparr>,
           rm_host_bundles = sort_key (\<lambda>b. lit (skill_host_as_str (hb_host b))) bundles\<rparr>;
         document = release_json E manifest in
     and_then (verify_agent_release_document E document) (\<lambda>_.
     Inr \<lparr>ab_package_id = rm_package_id manifest, ab_agent_id = rm_agent_id manifest, ab_version = rm_version manifest,
          ab_file_name = stem @ lit ''.agent-release.v1.json'', ab_document = document,
          ab_sha256 = release_sha256 E document\<rparr>)))))))))))))))))))))"

section \<open>What an assembled release binds\<close>

definition bundle_justified :: "release_env \<Rightarrow> (rstr \<Rightarrow> node option) \<Rightarrow> package_manifest \<Rightarrow> host_bundle_release \<Rightarrow> bool" where
  "bundle_justified E files m b \<longleftrightarrow> map_of (rev (sk_adapters (pm_skills m))) (hb_host b) = Some (hb_entrypoint b)
     \<and> (\<exists>path bytes. files path = Some (FileNode bytes) \<and> bytes \<noteq> [] \<and> hb_sha256 b = release_sha256 E bytes)"

lemma read_bounded_regular_file_ok:
  "read_bounded_regular_file files path n = Inr bytes \<Longrightarrow> files path = Some (FileNode bytes) \<and> length bytes \<le> n"
  by (auto simp: read_bounded_regular_file_def result_simps split: option.splits node.splits)

lemma assemble_bundles_ok:
  assumes "assemble_bundles E files m hosts bs = Inr out"
  shows "(\<forall>b \<in> set out. bundle_justified E files m b) \<and> distinct (map hb_host out) \<and> set (map hb_host out) \<inter> set hosts = {}
    \<and> length out = length bs"
  using assms
proof (induction E files m hosts bs arbitrary: out rule: assemble_bundles.induct)
  case (2 E files m hosts b bs)
  from 2(2) obtain name bytes rest where o: "br_host b \<notin> set hosts"
      "map_of (rev (sk_adapters (pm_skills m))) (br_host b) = Some (br_entrypoint b)"
      "files (br_bundle_path b) = Some (FileNode bytes)" "bytes \<noteq> []" "release_sha256 E bytes = br_bundle_sha256 b"
      "assemble_bundles E files m (br_host b # hosts) bs = Inr rest"
      "out = \<lparr>hb_host = br_host b, hb_entrypoint = br_entrypoint b, hb_file_name = name, hb_sha256 = br_bundle_sha256 b\<rparr> # rest"
    by (auto simp: result_simps dest!: read_bounded_regular_file_ok)
  have "bundle_justified E files m (hd out)" using o(2,4) o(3,5,7) [symmetric] unfolding bundle_justified_def by (metis host_bundle_release.select_convs(1,2,4) list.sel(1))
  with "2.IH" [OF o(6)] o(1,7) show ?case by auto
qed simp

lemma verify_document_ok:
  assumes "verify_agent_release_document E document = Inr m"
  shows "parse_release E document = Some m" "release_json E m = document"
  using assms unfolding verify_agent_release_document_def Let_def by (auto simp: result_simps)

text \<open>a release binds what was verified. The document of an assembled release verifies again, under the
  digests of the artifact and the manifest of files that passed staging, of the envelope and of the
  projection that were handed in; and it has one bundle for each adapter of the package, each with
  the digest of the file that was read.\<close>

theorem assembled_release_binds_inputs:
  assumes "assemble_agent_release E files v envelope projection exports = Inr b" "inj (release_json E)"
  shows "\<exists>r. verified_descriptor E b = Inr r \<and> rd_package_id r = pm_package_id (vp_manifest v)
    \<and> rd_artifact_sha256 r = vp_artifact_sha256 v \<and> rd_artifact_file_manifest_sha256 r = vp_file_manifest_sha256 v
    \<and> rd_envelope_sha256 r = release_sha256 E envelope \<and> rd_host_projection_sha256 r = release_sha256 E projection
    \<and> (\<forall>x \<in> set (rd_host_bundles r). bundle_justified E files (vp_manifest v) x)
    \<and> set (map hb_host (rd_host_bundles r)) = fst ` set (sk_adapters (pm_skills (vp_manifest v)))"
proof -
  let ?m = "vp_manifest v"
  let ?stem = "release_stem (pm_package_id ?m) (pm_version ?m)"
  from assms(1) obtain bundles manifest m' where a: "assemble_bundles E files ?m [] (he_bundles exports) = Inr bundles"
      "length (remdups (map fst (sk_adapters (pm_skills ?m)))) = length (he_bundles exports)"
      "verify_agent_release_document E (release_json E manifest) = Inr m'"
      "release_sha256 E envelope = vp_envelope_sha256 v" "release_sha256 E projection = he_source_projection_sha256 exports"
    and m: "manifest = \<lparr>rm_schema_version = 1, rm_package_id = pm_package_id ?m, rm_agent_id = pa_agent_id (pm_agent ?m),
           rm_version = pm_version ?m, rm_publisher = pm_publisher ?m,
           rm_client_artifact = \<lparr>ca_file_name = ?stem @ lit ''.ampkg.tar.zst'', ca_sha256 = vp_artifact_sha256 v,
             ca_file_manifest_sha256 = vp_file_manifest_sha256 v, ca_envelope_file_name = ?stem @ lit ''.signature.v1.json'',
             ca_envelope_sha256 = vp_envelope_sha256 v, ca_signature_key_id = vp_signature_key_id v\<rparr>,
           rm_host_plan = \<lparr>hp_projection_file_name = ?stem @ lit ''.host-skills.v1.json'',
             hp_projection_sha256 = he_source_projection_sha256 exports, hp_signed_plan_sha256 = he_source_plan_sha256 exports\<rparr>,
           rm_host_bundles = sort_key (\<lambda>b. lit (skill_host_as_str (hb_host b))) bundles\<rparr>"
    and b: "b = \<lparr>ab_package_id = pm_package_id ?m, ab_agent_id = pa_agent_id (pm_agent ?m), ab_version = pm_version ?m,
          ab_file_name = ?stem @ lit ''.agent-release.v1.json'', ab_document = release_json E manifest,
          ab_sha256 = release_sha256 E (release_json E manifest)\<rparr>"
    unfolding assemble_agent_release_def Let_def and_then_eq_Inr bail_if_eq_Inr by (auto simp: result_simps)
  have m': "m' = manifest" using verify_document_ok(2) [OF a(3)] assms(2) by (simp add: inj_eq)
  note ok = assemble_bundles_ok [OF a(1)]
  have "set (map hb_host bundles) \<subseteq> fst ` set (sk_adapters (pm_skills ?m))"
    using ok by (force simp: bundle_justified_def dest!: map_of_SomeD)
  moreover have "card (set (map hb_host bundles)) = card (fst ` set (sk_adapters (pm_skills ?m)))"
  proof -
    have "card (set (map hb_host bundles)) = length bundles" using ok distinct_card by (metis length_map)
    then show ?thesis using ok a(2) by (simp add: length_remdups_card_conv)
  qed
  ultimately have hosts: "set (map hb_host bundles) = fst ` set (sk_adapters (pm_skills ?m))"
    by (intro card_subset_eq) auto
  have r: "verify_agent_release_descriptor E (ab_document b) = Inr
     \<lparr>rd_package_id = pm_package_id ?m, rd_agent_id = pa_agent_id (pm_agent ?m), rd_version = pm_version ?m,
          rd_publisher = pm_publisher ?m, rd_release_file_name = ?stem @ lit ''.agent-release.v1.json'',
          rd_release_sha256 = release_sha256 E (release_json E manifest),
          rd_artifact_file_name = ?stem @ lit ''.ampkg.tar.zst'', rd_artifact_sha256 = vp_artifact_sha256 v,
          rd_artifact_file_manifest_sha256 = vp_file_manifest_sha256 v,
          rd_envelope_file_name = ?stem @ lit ''.signature.v1.json'', rd_envelope_sha256 = vp_envelope_sha256 v,
          rd_envelope_signature_key_id = vp_signature_key_id v,
          rd_host_projection_file_name = ?stem @ lit ''.host-skills.v1.json'',
          rd_host_projection_sha256 = he_source_projection_sha256 exports,
          rd_host_bundles = sort_key (\<lambda>b. lit (skill_host_as_str (hb_host b))) bundles\<rparr>"
    using a(3) unfolding m' by (simp add: verify_agent_release_descriptor_def Let_def b) (simp add: m)
  show ?thesis
    unfolding verified_descriptor_def r using ok hosts a(4,5) by (simp add: b)
qed

section \<open>Applied to a concrete release\<close>

text \<open>An injective code of manifests: each text and list with its length in front.\<close>

definition text_code :: "rstr \<Rightarrow> nat list" where
  "text_code s = length s # s"

lemma text_code_inject [simp]: "text_code s @ x = text_code t @ y \<longleftrightarrow> s = t \<and> x = y"
  by (auto simp: text_code_def)

fun host_code :: "skill_host \<Rightarrow> nat" where
  "host_code Codex = 0" | "host_code ClaudeCode = 1" | "host_code Openclaw = 2"

lemma host_code_inject [simp]: "host_code a = host_code b \<longleftrightarrow> a = b"
  by (cases a; cases b) simp_all

fun bundles_code :: "host_bundle_release list \<Rightarrow> nat list" where
  "bundles_code [] = [0]"
| "bundles_code (b # bs) = 1 # host_code (hb_host b)
     # text_code (hb_entrypoint b) @ text_code (hb_file_name b) @ text_code (hb_sha256 b) @ bundles_code bs"

lemma text_code_same [simp]: "text_code s = text_code t \<longleftrightarrow> s = t"
  using text_code_inject [of s "[]" t "[]"] by simp

lemma bundles_code_inject [simp]: "bundles_code bs = bundles_code cs \<longleftrightarrow> bs = cs"
proof (induction bs arbitrary: cs)
  case (Cons b bs)
  note ih = Cons.IH
  show ?case
  proof (cases cs)
    case (Cons c ds)
    have "b = c \<longleftrightarrow> hb_host b = hb_host c \<and> hb_entrypoint b = hb_entrypoint c \<and> hb_file_name b = hb_file_name c
      \<and> hb_sha256 b = hb_sha256 c" by (cases b; cases c) simp
    then show ?thesis by (auto simp: Cons ih)
  qed simp
next
  case Nil
  show ?case by (cases cs) simp_all
qed

definition manifest_code :: "agent_release_manifest \<Rightarrow> nat list" where
  "manifest_code m = rm_schema_version m # text_code (rm_package_id m) @ text_code (rm_agent_id m) @ text_code (rm_version m)
     @ text_code (rm_publisher m) @ text_code (ca_file_name (rm_client_artifact m)) @ text_code (ca_sha256 (rm_client_artifact m))
     @ text_code (ca_file_manifest_sha256 (rm_client_artifact m)) @ text_code (ca_envelope_file_name (rm_client_artifact m))
     @ text_code (ca_envelope_sha256 (rm_client_artifact m)) @ text_code (ca_signature_key_id (rm_client_artifact m))
     @ text_code (hp_projection_file_name (rm_host_plan m)) @ text_code (hp_projection_sha256 (rm_host_plan m))
     @ text_code (hp_signed_plan_sha256 (rm_host_plan m)) @ bundles_code (rm_host_bundles m)"

lemma manifest_code_inj: "inj manifest_code"
proof (rule injI)
  fix a b :: agent_release_manifest
  assume "manifest_code a = manifest_code b"
  then have h: "rm_schema_version a = rm_schema_version b" "rm_package_id a = rm_package_id b" "rm_agent_id a = rm_agent_id b"
    "rm_version a = rm_version b" "rm_publisher a = rm_publisher b" "rm_host_bundles a = rm_host_bundles b"
    and c: "rm_client_artifact a = rm_client_artifact b" and p: "rm_host_plan a = rm_host_plan b"
    by (simp_all add: manifest_code_def client_artifact_release.equality host_plan_release.equality)
  then show "a = b" by (intro agent_release_manifest.equality) simp_all
qed

definition sample_stem :: rstr where
  "sample_stem = [112, 45, 49]"

definition sample_release :: agent_release_manifest where
  "sample_release = \<lparr>rm_schema_version = 1, rm_package_id = [112], rm_agent_id = [97], rm_version = [49], rm_publisher = [112],
     rm_client_artifact = \<lparr>ca_file_name = sample_stem @ lit ''.ampkg.tar.zst'',
       ca_sha256 = lower_hex (sample_digest sample_artifact), ca_file_manifest_sha256 = lower_hex (sample_digest [50]),
       ca_envelope_file_name = sample_stem @ lit ''.signature.v1.json'', ca_envelope_sha256 = lower_hex (sample_digest [101]),
       ca_signature_key_id = [107]\<rparr>,
     rm_host_plan = \<lparr>hp_projection_file_name = sample_stem @ lit ''.host-skills.v1.json'',
       hp_projection_sha256 = lower_hex (sample_digest [1]), hp_signed_plan_sha256 = lower_hex (sample_digest [2])\<rparr>,
     rm_host_bundles = []\<rparr>"

definition sample_release_env :: release_env where
  "sample_release_env = \<lparr>rl_artifact = sample_artifact_env, semver_text = (\<lambda>v. v),
     parse_envelope_bytes = (\<lambda>d. if d = [101] then Some sample_envelope else None),
     parse_release = (\<lambda>d. if d = manifest_code sample_release then Some sample_release else None),
     release_json = manifest_code\<rparr>"

definition sample_exports :: host_export_receipt where
  "sample_exports = \<lparr>he_package_id = [112], he_agent_id = [97], he_version = [49],
     he_source_artifact_sha256 = lower_hex (sample_digest sample_artifact),
     he_source_projection_sha256 = lower_hex (sample_digest [1]), he_source_plan_sha256 = lower_hex (sample_digest [2]),
     he_signature_key_id = [107], he_bundles = []\<rparr>"

definition sample_build :: agent_release_build where
  "sample_build = \<lparr>ab_package_id = [112], ab_agent_id = [97], ab_version = [49],
     ab_file_name = sample_stem @ lit ''.agent-release.v1.json'', ab_document = manifest_code sample_release,
     ab_sha256 = lower_hex (sample_digest (manifest_code sample_release))\<rparr>"

lemma sample_release_simps [simp]:
  "rl_artifact sample_release_env = sample_artifact_env" "semver_text sample_release_env v = v"
  "parse_release sample_release_env (manifest_code sample_release) = Some sample_release"
  "release_json sample_release_env = manifest_code" "release_sha256 sample_release_env bytes = lower_hex (sample_digest bytes)"
  "parse_envelope_bytes sample_release_env [101] = Some sample_envelope"
  by (simp_all add: sample_release_env_def release_sha256_def)

lemma sample_release_verifies:
  "verify_agent_release_document sample_release_env (manifest_code sample_release) = Inr sample_release"
proof -
  have d: "validate_sha256 field (lower_hex (sample_digest b)) = Inr ()" if "b \<in> {[50], [101], [1], [2], [7]}" for field b
    using that by auto
  have i: "validate_identifier f [112] True = Inr ()" "validate_identifier f [97] False = Inr ()" for f
    by (simp_all add: validate_identifier_def str_len_def str_bytes_def utf8_encode_def package_identifier_byte_def
        is_ascii_lowercase_def is_ascii_digit_def)
  have k: "is_safe_identifier [107]"
    by (simp add: is_safe_identifier_def safe_identifier_byte_def str_bytes_def utf8_encode_def is_ascii_lowercase_def)
  have l: "manifest_code sample_release \<noteq> []" by (simp add: manifest_code_def)
  have n: "\<not> max_release_manifest_bytes < length (manifest_code sample_release)"
    by (simp add: max_release_manifest_bytes_def manifest_code_def text_code_def sample_release_def sample_digest_hex sample_artifact_def
        sample_stem_def)
  have s: "release_stem [112] [49] = sample_stem" by (simp add: release_stem_def sample_stem_def)
  have v: "semver_parses sample_package_env [49]" by (simp add: sample_package_env_def)
  have e: "str_len [107] = 1" "str_len [49] = 1" by (simp_all add: str_len_def str_bytes_def utf8_encode_def)
  show ?thesis
    unfolding verify_agent_release_document_def using l n
    by (simp add: Let_def) (simp add: sample_release_def i k s v e sample_artifact_def)
qed

lemma sample_names:
  "validate_output_file_name (sample_stem @ lit ''.ampkg.tar.zst'') = Inr ()"
  "validate_output_file_name (sample_stem @ lit ''.signature.v1.json'') = Inr ()"
  "validate_output_file_name (sample_stem @ lit ''.host-skills.v1.json'') = Inr ()"
  "validate_output_file_name (sample_stem @ lit ''.agent-release.v1.json'') = Inr ()"
  by (simp_all add: validate_output_file_name_def sample_stem_def lit_def path_components_def is_normal_def str_len_def
      str_bytes_def utf8_encode_def)

lemma sample_assembled:
  "assemble_agent_release sample_release_env (\<lambda>_. None) sample_staged [101] [1] sample_exports = Inr sample_build"
proof -
  have s: "release_stem [112] [49] = sample_stem" by (simp add: release_stem_def sample_stem_def)
  have f: "pm_package_id sample_manifest = [112]" "pm_version sample_manifest = [49]" "pm_publisher sample_manifest = [112]"
    "pa_agent_id (pm_agent sample_manifest) = [97]" "sk_adapters (pm_skills sample_manifest) = []"
    by (simp_all add: sample_manifest_def)
  have t: "verify_installed_package_tree sample_artifact_env sample_tree (lower_hex (sample_digest [50])) = Inr sample_manifest"
    using sample_tree_verified [of sample_tree] by simp
  have v: "verify_agent_release_document sample_release_env (manifest_code
     \<lparr>rm_schema_version = 1, rm_package_id = [112], rm_agent_id = [97], rm_version = [49], rm_publisher = [112],
     rm_client_artifact = \<lparr>ca_file_name = sample_stem @ lit ''.ampkg.tar.zst'',
       ca_sha256 = lower_hex (sample_digest sample_artifact), ca_file_manifest_sha256 = lower_hex (sample_digest [50]),
       ca_envelope_file_name = sample_stem @ lit ''.signature.v1.json'', ca_envelope_sha256 = lower_hex (sample_digest [101]),
       ca_signature_key_id = [107]\<rparr>,
     rm_host_plan = \<lparr>hp_projection_file_name = sample_stem @ lit ''.host-skills.v1.json'',
       hp_projection_sha256 = lower_hex (sample_digest [1]), hp_signed_plan_sha256 = lower_hex (sample_digest [2])\<rparr>,
     rm_host_bundles = []\<rparr>) = Inr sample_release"
    using sample_release_verifies by (simp only: sample_release_def)
  have a: "validate_sha256 field (lower_hex (sample_digest sample_artifact)) = Inr ()" for field
    by (simp add: sample_artifact_def)
  show ?thesis
    unfolding assemble_agent_release_def Let_def
    by (simp add: sample_staged_def sample_exports_def f t a s sample_names v max_release_input_bytes_def sample_envelope_def
        sample_build_def flip: One_nat_def) (simp add: sample_release_def)
qed

lemma assembled_release_binds_inputs_witness:
  "\<exists>r. verified_descriptor sample_release_env sample_build = Inr r
    \<and> rd_artifact_sha256 r = lower_hex (sample_digest sample_artifact)"
  using assembled_release_binds_inputs [OF sample_assembled] manifest_code_inj
  by (auto simp: sample_staged_def)

end
