(* ===== verification/Registry_Snapshot.thy ===== *)
theory Registry_Snapshot
  imports Package_Release
begin

text \<open>
  \<open>package_registry_snapshot.rs\<close>: the signed registry of remote packages. A snapshot is accepted when
  its records have the right shape, its publishers are trusted and a root has signed it; projections of
  a record are checked against a release manifest, and a release build is bound to a record.
\<close>

section \<open>Documents\<close>

record remote_host_bundle =
  rh_host :: skill_host
  rh_entrypoint :: rstr
  rh_bundle_url :: rstr
  rh_bundle_sha256 :: rstr

record remote_package =
  rp_package_id :: rstr
  rp_agent_id :: rstr
  rp_version :: rstr
  rp_publisher :: rstr
  rp_release_manifest_url :: rstr
  rp_release_manifest_sha256 :: rstr
  rp_artifact_url :: rstr
  rp_artifact_sha256 :: rstr
  rp_envelope_url :: rstr
  rp_envelope_sha256 :: rstr
  rp_host_projection_url :: rstr
  rp_host_projection_sha256 :: rstr
  rp_host_bundles :: "remote_host_bundle list"

record registry_snapshot =
  rs_schema_version :: nat
  rs_revision :: nat
  rs_root_key_id :: rstr
  rs_trust_bundle_sequence :: nat
  rs_generated_at :: rstr
  rs_expires_at :: rstr
  rs_packages :: "remote_package list"
  rs_signature :: rstr

record verified_registry =
  vr_revision :: nat
  vr_trust_bundle_sequence :: nat
  vr_root_key_id :: rstr
  vr_generated_at :: int
  vr_expires_at :: int
  vr_packages :: "remote_package list"

record registry_audit =
  va_revision :: nat
  va_trust_bundle_sequence :: nat
  va_root_key_id :: rstr
  va_package_count :: nat

definition registry_audit_of :: "verified_registry \<Rightarrow> registry_audit" where
  "registry_audit_of r = \<lparr>va_revision = vr_revision r, va_trust_bundle_sequence = vr_trust_bundle_sequence r,
     va_root_key_id = vr_root_key_id r, va_package_count = length (vr_packages r)\<rparr>"

record registry_env =
  re_release :: release_env
  parse_snapshot :: "rstr \<Rightarrow> registry_snapshot option"

abbreviation re_trust :: "registry_env \<Rightarrow> trust_env" where
  "re_trust E \<equiv> ae_trust (rl_artifact (re_release E))"

abbreviation re_package :: "registry_env \<Rightarrow> package_env" where
  "re_package E \<equiv> ae_package (rl_artifact (re_release E))"

section \<open>Fields\<close>

definition registry_identifier_byte :: "bool \<Rightarrow> bool \<Rightarrow> nat \<Rightarrow> bool" where
  "registry_identifier_byte allow_period allow_underscore b \<longleftrightarrow> is_ascii_lowercase b \<or> is_ascii_digit b \<or> b = 45
     \<or> allow_period \<and> b = 46 \<or> allow_underscore \<and> b = 95"

definition validate_registry_identifier :: "string \<Rightarrow> rstr \<Rightarrow> bool \<Rightarrow> bool \<Rightarrow> host_error + unit" where
  "validate_registry_identifier field value allow_period allow_underscore =
     bail_if (value = [] \<or> str_len value > 128
        \<or> \<not> list_all (registry_identifier_byte allow_period allow_underscore) (str_bytes value)
        \<or> hd value \<in> {45, 46, 95} \<or> last value \<in> {45, 46, 95})
       (Bailf ''Agent Package registry {field} is invalid'' [lit field])"

definition validate_registry_version :: "registry_env \<Rightarrow> rstr \<Rightarrow> host_error + unit" where
  "validate_registry_version E value =
     and_then (bail_if (value = [] \<or> str_len value > 128) (Bail ''Agent Package registry version size is invalid'')) (\<lambda>_.
     and_then (bail_if (\<not> semver_parses (re_package E) value)
       (Context ''invalid Agent Package version'' (Foreign ''semver''))) (\<lambda>_.
     bail_if (semver_text (re_release E) value \<noteq> value)
       (Bail ''Agent Package registry version must use canonical SemVer'')))"

definition validate_https_url :: "registry_env \<Rightarrow> string \<Rightarrow> rstr \<Rightarrow> host_error + unit" where
  "validate_https_url E field value =
     and_then (bail_if (value = [] \<or> str_len value > 4096) (Bailf ''Agent Package registry {field} size is invalid'' [lit field])) (\<lambda>_.
     and_then (ok_or (pe_url_parse (re_package E) value)
       (Context (''parse Agent Package registry '' @ field) (Foreign ''url''))) (\<lambda>url.
     and_then (bail_if (url_scheme url \<noteq> lit ''https'' \<or> url_host_str url = None \<or> url_username url \<noteq> []
         \<or> url_password url \<noteq> None \<or> url_query url \<noteq> None \<or> url_fragment url \<noteq> None)
       (Bailf ''Agent Package registry {field} must be an HTTPS URL without credentials, query, or fragment'' [lit field])) (\<lambda>_.
     bail_if (url_as_str url \<noteq> value)
       (Bailf ''Agent Package registry {field} must use canonical URL encoding'' [lit field]))))"

definition validate_registry_sha256 :: "string \<Rightarrow> rstr \<Rightarrow> host_error + unit" where
  "validate_registry_sha256 field value =
     bail_if (str_len value \<noteq> 64 \<or> \<not> list_all hex_byte (str_bytes value))
       (Bailf ''Agent Package registry {field} must be a lowercase SHA-256 digest'' [lit field])"

definition parse_registry_timestamp :: "registry_env \<Rightarrow> string \<Rightarrow> rstr \<Rightarrow> host_error + int" where
  "parse_registry_timestamp E field value =
     ok_or (rfc3339 (re_trust E) value) (Context (''Agent Package registry '' @ field @ '' is invalid'') (Foreign ''chrono''))"

text \<open>\<open>Url::path_segments\<close> of the \<open>url\<close> crate: the path without its leading slash, split at slashes.\<close>

definition url_path_segments :: "parsed_url \<Rightarrow> rstr list option" where
  "url_path_segments url = (case url_path url of c # r \<Rightarrow> if c = 47 then Some (str_split 47 r) else None | [] \<Rightarrow> None)"

definition validate_release_location :: "registry_env \<Rightarrow> string \<Rightarrow> rstr \<Rightarrow> rstr \<Rightarrow> host_error + unit" where
  "validate_release_location E field value expected_file_name =
     and_then (validate_https_url E field value) (\<lambda>_.
     and_then (ok_or (pe_url_parse (re_package E) value) (Context (''parse Agent Release '' @ field) (Foreign ''url''))) (\<lambda>url.
     and_then (ok_or (case url_path_segments url of None \<Rightarrow> None
           | Some segments \<Rightarrow> if last segments = [] then None else Some (last segments))
       (Bailf ''Agent Release {field} has no file name'' [lit field])) (\<lambda>file_name.
     bail_if (file_name \<noteq> expected_file_name)
       (Bailf ''Agent Release {field} file name differs from the verified Release Manifest'' [lit field]))))"

section \<open>Validation of a snapshot\<close>

fun validate_host_bundles ::
  "registry_env \<Rightarrow> skill_host list \<Rightarrow> string option \<Rightarrow> remote_host_bundle list \<Rightarrow> host_error + unit" where
  "validate_host_bundles E hosts previous [] = Inr ()"
| "validate_host_bundles E hosts previous (b # bs) =
     and_then (bail_if (rh_host b \<in> set hosts) (Bail ''Agent Package registry Host bundles must be unique'')) (\<lambda>_.
     and_then (bail_if (case previous of None \<Rightarrow> False | Some p \<Rightarrow> lit p \<ge> lit (skill_host_as_str (rh_host b)))
       (Bail ''Agent Package registry Host bundles must be sorted'')) (\<lambda>_.
     and_then (validate_relative_package_path ''registry.hostBundles.entrypoint'' (rh_entrypoint b)) (\<lambda>_.
     and_then (validate_https_url E ''hostBundles.bundleUrl'' (rh_bundle_url b)) (\<lambda>_.
     and_then (validate_registry_sha256 ''hostBundles.bundleSha256'' (rh_bundle_sha256 b)) (\<lambda>_.
     validate_host_bundles E (rh_host b # hosts) (Some (skill_host_as_str (rh_host b))) bs)))))"

definition validate_remote_record_shape :: "registry_env \<Rightarrow> remote_package \<Rightarrow> host_error + unit" where
  "validate_remote_record_shape E p =
     and_then (validate_registry_identifier ''packageId'' (rp_package_id p) True False) (\<lambda>_.
     and_then (validate_registry_identifier ''agentId'' (rp_agent_id p) False False) (\<lambda>_.
     and_then (validate_registry_identifier ''publisher'' (rp_publisher p) True False) (\<lambda>_.
     and_then (validate_registry_version E (rp_version p)) (\<lambda>_.
     and_then (validate_https_url E ''releaseManifestUrl'' (rp_release_manifest_url p)) (\<lambda>_.
     and_then (validate_registry_sha256 ''releaseManifestSha256'' (rp_release_manifest_sha256 p)) (\<lambda>_.
     and_then (validate_https_url E ''artifactUrl'' (rp_artifact_url p)) (\<lambda>_.
     and_then (validate_registry_sha256 ''artifactSha256'' (rp_artifact_sha256 p)) (\<lambda>_.
     and_then (validate_https_url E ''envelopeUrl'' (rp_envelope_url p)) (\<lambda>_.
     and_then (validate_registry_sha256 ''envelopeSha256'' (rp_envelope_sha256 p)) (\<lambda>_.
     and_then (validate_https_url E ''hostProjectionUrl'' (rp_host_projection_url p)) (\<lambda>_.
     and_then (validate_registry_sha256 ''hostProjectionSha256'' (rp_host_projection_sha256 p)) (\<lambda>_.
     validate_host_bundles E [] None (rp_host_bundles p)))))))))))))"

fun validate_records ::
  "registry_env \<Rightarrow> trusted_publisher_store \<Rightarrow> rstr option \<Rightarrow> rstr list \<Rightarrow> remote_package list \<Rightarrow> host_error + unit" where
  "validate_records E publishers previous agent_ids [] = Inr ()"
| "validate_records E publishers previous agent_ids (p # ps) =
     and_then (validate_remote_record_shape E p) (\<lambda>_.
     and_then (bail_if (\<not> trusts_publisher publishers (rp_publisher p))
       (Bail ''Agent Package registry publisher is not trusted'')) (\<lambda>_.
     and_then (bail_if (case previous of None \<Rightarrow> False | Some q \<Rightarrow> q \<ge> rp_package_id p)
       (Bail ''Agent Package registry records must be uniquely sorted by packageId'')) (\<lambda>_.
     and_then (bail_if (rp_agent_id p \<in> set agent_ids) (Bail ''Agent Package registry agentId must be unique'')) (\<lambda>_.
     validate_records E publishers (Some (rp_package_id p)) (rp_agent_id p # agent_ids) ps))))"

definition validate_snapshot ::
  "registry_env \<Rightarrow> registry_snapshot \<Rightarrow> int \<Rightarrow> nat \<Rightarrow> publisher_trust_audit \<Rightarrow> trusted_publisher_store
     \<Rightarrow> host_error + int \<times> int" where
  "validate_snapshot E s now minimum_revision publisher_trust publishers =
     and_then (bail_if (rs_schema_version s \<noteq> 2)
       (Bailf ''unsupported Agent Package registry snapshot schema version: {}'' [nat_to_str (rs_schema_version s)])) (\<lambda>_.
     and_then (bail_if (rs_revision s = 0 \<or> rs_revision s < minimum_revision)
       (Bail ''Agent Package registry snapshot revision is stale'')) (\<lambda>_.
     and_then (validate_registry_identifier ''rootKeyId'' (rs_root_key_id s) True True) (\<lambda>_.
     and_then (bail_if (rs_trust_bundle_sequence s = 0 \<or> rs_trust_bundle_sequence s \<noteq> ta_trust_sequence publisher_trust)
       (Bail ''Agent Package registry snapshot trust sequence does not match'')) (\<lambda>_.
     and_then (bail_if (ta_root_key_id publisher_trust \<noteq> Some (rs_root_key_id s))
       (Bail ''Agent Package registry snapshot trust root does not match'')) (\<lambda>_.
     and_then (parse_registry_timestamp E ''generatedAt'' (rs_generated_at s)) (\<lambda>generated_at.
     and_then (parse_registry_timestamp E ''expiresAt'' (rs_expires_at s)) (\<lambda>expires_at.
     and_then (bail_if (generated_at \<ge> expires_at \<or> now < generated_at \<or> now \<ge> expires_at)
       (Bail ''Agent Package registry snapshot is outside its validity window'')) (\<lambda>_.
     and_then (bail_if (length (rs_packages s) > 256)
       (Bail ''Agent Package registry snapshot contains too many packages'')) (\<lambda>_.
     and_then (validate_records E publishers None [] (rs_packages s)) (\<lambda>_.
     and_then (bail_if (rs_signature s = []) (Bail ''Agent Package registry snapshot signature must not be empty'')) (\<lambda>_.
     Inr (generated_at, expires_at))))))))))))"

section \<open>The signed text\<close>

definition encode_text :: "registry_env \<Rightarrow> rstr \<Rightarrow> rstr" where
  "encode_text E value = b64_encode (re_trust E) (str_bytes value)"

definition host_line :: "registry_env \<Rightarrow> rstr \<Rightarrow> remote_host_bundle \<Rightarrow> rstr" where
  "host_line E package_id b = lit ''host='' @ str_join [124] [encode_text E package_id, lit (skill_host_as_str (rh_host b)),
     encode_text E (rh_entrypoint b), encode_text E (rh_bundle_url b), rh_bundle_sha256 b]"

definition package_line :: "registry_env \<Rightarrow> remote_package \<Rightarrow> rstr" where
  "package_line E p = lit ''package='' @ str_join [124] [encode_text E (rp_package_id p), encode_text E (rp_agent_id p),
     encode_text E (rp_version p), encode_text E (rp_publisher p), encode_text E (rp_release_manifest_url p),
     rp_release_manifest_sha256 p, encode_text E (rp_artifact_url p), rp_artifact_sha256 p,
     encode_text E (rp_envelope_url p), rp_envelope_sha256 p, encode_text E (rp_host_projection_url p),
     rp_host_projection_sha256 p, nat_to_str (length (rp_host_bundles p))]"

definition package_lines :: "registry_env \<Rightarrow> remote_package \<Rightarrow> rstr list" where
  "package_lines E p = package_line E p # map (host_line E (rp_package_id p)) (rp_host_bundles p)"

definition registry_lines :: "registry_env \<Rightarrow> registry_snapshot \<Rightarrow> rstr list" where
  "registry_lines E s =
     [lit ''agentmesh360-package-registry-v2'', lit ''schemaVersion='' @ nat_to_str (rs_schema_version s),
      lit ''revision='' @ nat_to_str (rs_revision s), lit ''rootKeyId='' @ rs_root_key_id s,
      lit ''trustBundleSequence='' @ nat_to_str (rs_trust_bundle_sequence s),
      lit ''generatedAt='' @ rs_generated_at s, lit ''expiresAt='' @ rs_expires_at s]
     @ concat (map (package_lines E) (rs_packages s))"

definition registry_signature_payload :: "registry_env \<Rightarrow> registry_snapshot \<Rightarrow> rstr" where
  "registry_signature_payload E s = text_lines (registry_lines E s)"

section \<open>Verification\<close>

definition verify_registry_at ::
  "registry_env \<Rightarrow> trusted_root_store \<Rightarrow> rstr \<Rightarrow> int \<Rightarrow> nat \<Rightarrow> trusted_publisher_store \<Rightarrow> host_error + verified_registry" where
  "verify_registry_at E roots document now minimum_revision publishers =
     and_then (bail_if (document = [] \<or> str_len document > 1024 * 1024)
       (Bail ''Agent Package registry snapshot size is invalid'')) (\<lambda>_.
     and_then (ok_or (parse_snapshot E document)
       (Context ''parse Agent Package registry snapshot'' (Foreign ''serde_json''))) (\<lambda>s.
     and_then (validate_snapshot E s now minimum_revision (publisher_audit publishers) publishers) (\<lambda>(generated_at, expires_at).
     and_then (verify_signed_payload (re_trust E) roots (rs_root_key_id s) (rs_signature s)
       (str_bytes (registry_signature_payload E s)) ''Agent Package registry snapshot'') (\<lambda>_.
     Inr \<lparr>vr_revision = rs_revision s, vr_trust_bundle_sequence = rs_trust_bundle_sequence s,
          vr_root_key_id = rs_root_key_id s, vr_generated_at = generated_at, vr_expires_at = expires_at,
          vr_packages = rs_packages s\<rparr>))))"

definition verify_registry ::
  "registry_env \<Rightarrow> trusted_root_store \<Rightarrow> rstr \<Rightarrow> trusted_time_error + int \<Rightarrow> nat \<Rightarrow> trusted_publisher_store
     \<Rightarrow> host_error + verified_registry" where
  "verify_registry E roots document clock minimum_revision publishers =
     and_then (fresh_time ''Agent Package registry requires fresh Core server time'' clock) (\<lambda>now.
     verify_registry_at E roots document now minimum_revision publishers)"

section \<open>Projections\<close>

record release_reference =
  rr_url :: rstr
  rr_sha256 :: rstr

record client_projection =
  cp_package_id :: rstr
  cp_agent_id :: rstr
  cp_version :: rstr
  cp_publisher :: rstr
  cp_release_manifest :: release_reference
  cp_artifact_url :: rstr
  cp_artifact_sha256 :: rstr
  cp_envelope_url :: rstr
  cp_envelope_sha256 :: rstr

record host_projection =
  hj_package_id :: rstr
  hj_agent_id :: rstr
  hj_version :: rstr
  hj_publisher :: rstr
  hj_release_manifest :: release_reference
  hj_host_projection_url :: rstr
  hj_host_projection_sha256 :: rstr
  hj_bundles :: "remote_host_bundle list"

definition release_reference_of :: "remote_package \<Rightarrow> release_reference" where
  "release_reference_of p = \<lparr>rr_url = rp_release_manifest_url p, rr_sha256 = rp_release_manifest_sha256 p\<rparr>"

definition client_projection_of :: "remote_package \<Rightarrow> client_projection" where
  "client_projection_of p = \<lparr>cp_package_id = rp_package_id p, cp_agent_id = rp_agent_id p, cp_version = rp_version p,
     cp_publisher = rp_publisher p, cp_release_manifest = release_reference_of p, cp_artifact_url = rp_artifact_url p,
     cp_artifact_sha256 = rp_artifact_sha256 p, cp_envelope_url = rp_envelope_url p,
     cp_envelope_sha256 = rp_envelope_sha256 p\<rparr>"

definition host_projection_of :: "remote_package \<Rightarrow> host_projection" where
  "host_projection_of p = \<lparr>hj_package_id = rp_package_id p, hj_agent_id = rp_agent_id p, hj_version = rp_version p,
     hj_publisher = rp_publisher p, hj_release_manifest = release_reference_of p,
     hj_host_projection_url = rp_host_projection_url p, hj_host_projection_sha256 = rp_host_projection_sha256 p,
     hj_bundles = rp_host_bundles p\<rparr>"

definition verify_projection_release_reference ::
  "registry_env \<Rightarrow> nat list \<Rightarrow> release_reference \<Rightarrow> rstr \<Rightarrow> rstr \<Rightarrow> rstr \<Rightarrow> rstr \<Rightarrow> host_error + release_descriptor" where
  "verify_projection_release_reference E document reference package_id agent_id version publisher =
     and_then (with_context ''verify Agent Release Manifest'' (verify_agent_release_descriptor (re_release E) document)) (\<lambda>r.
     and_then (bail_if (rd_release_sha256 r \<noteq> rr_sha256 reference)
       (Bail ''Agent Release Manifest digest differs from the verified Registry'')) (\<lambda>_.
     and_then (validate_release_location E ''releaseManifestUrl'' (rr_url reference) (rd_release_file_name r)) (\<lambda>_.
     and_then (bail_if (rd_package_id r \<noteq> package_id \<or> rd_agent_id r \<noteq> agent_id \<or> rd_version r \<noteq> version
         \<or> rd_publisher r \<noteq> publisher)
       (Bail ''Agent Release projection identity differs from the Release Manifest'')) (\<lambda>_.
     Inr r))))"

definition client_verify_release :: "registry_env \<Rightarrow> client_projection \<Rightarrow> nat list \<Rightarrow> host_error + release_descriptor" where
  "client_verify_release E p document =
     and_then (verify_projection_release_reference E document (cp_release_manifest p) (cp_package_id p) (cp_agent_id p)
       (cp_version p) (cp_publisher p)) (\<lambda>r.
     and_then (bail_if (cp_artifact_sha256 p \<noteq> rd_artifact_sha256 r \<or> cp_envelope_sha256 p \<noteq> rd_envelope_sha256 r)
       (Bail ''Agent Release Client projection digest differs from the Release Manifest'')) (\<lambda>_.
     and_then (validate_release_location E ''artifactUrl'' (cp_artifact_url p) (rd_artifact_file_name r)) (\<lambda>_.
     and_then (validate_release_location E ''envelopeUrl'' (cp_envelope_url p) (rd_envelope_file_name r)) (\<lambda>_.
     Inr r))))"

fun verify_bundles_against ::
  "registry_env \<Rightarrow> remote_host_bundle list \<Rightarrow> host_bundle_release list \<Rightarrow> host_error + unit" where
  "verify_bundles_against E (b # bs) (e # es) =
     and_then (bail_if (rh_host b \<noteq> hb_host e \<or> rh_entrypoint b \<noteq> hb_entrypoint e \<or> rh_bundle_sha256 b \<noteq> hb_sha256 e)
       (Bail ''Agent Release Host bundle differs from the Release Manifest'')) (\<lambda>_.
     and_then (validate_release_location E ''hostBundles.bundleUrl'' (rh_bundle_url b) (hb_file_name e)) (\<lambda>_.
     verify_bundles_against E bs es))"
| "verify_bundles_against E bs es = Inr ()"

definition host_verify_release :: "registry_env \<Rightarrow> host_projection \<Rightarrow> nat list \<Rightarrow> host_error + unit" where
  "host_verify_release E p document =
     and_then (verify_projection_release_reference E document (hj_release_manifest p) (hj_package_id p) (hj_agent_id p)
       (hj_version p) (hj_publisher p)) (\<lambda>r.
     and_then (bail_if (hj_host_projection_sha256 p \<noteq> rd_host_projection_sha256 r)
       (Bail ''Agent Release Host projection digest differs from the Release Manifest'')) (\<lambda>_.
     and_then (validate_release_location E ''hostProjectionUrl'' (hj_host_projection_url p) (rd_host_projection_file_name r)) (\<lambda>_.
     and_then (bail_if (length (hj_bundles p) \<noteq> length (rd_host_bundles r))
       (Bail ''Agent Release Host projection bundle coverage differs from the Release Manifest'')) (\<lambda>_.
     verify_bundles_against E (hj_bundles p) (rd_host_bundles r)))))"

section \<open>Binding a release to a record\<close>

record release_locations =
  lo_release_manifest_url :: rstr
  lo_artifact_url :: rstr
  lo_envelope_url :: rstr
  lo_host_projection_url :: rstr
  lo_host_bundles :: "(skill_host \<times> rstr) list"

fun index_bundle_urls :: "(skill_host \<times> rstr) list \<Rightarrow> (skill_host \<times> rstr) list \<Rightarrow> host_error + (skill_host \<times> rstr) list" where
  "index_bundle_urls urls [] = Inr urls"
| "index_bundle_urls urls ((host, url) # rest) =
     and_then (bail_if (map_of urls host \<noteq> None) (Bail ''Agent Release Registry locations contain a duplicate Host'')) (\<lambda>_.
     index_bundle_urls ((host, url) # urls) rest)"

text \<open>The bundles of the release take their locations out of the map; what is left is returned.\<close>

fun bind_bundles ::
  "registry_env \<Rightarrow> (skill_host \<times> rstr) list \<Rightarrow> host_bundle_release list
     \<Rightarrow> host_error + remote_host_bundle list \<times> (skill_host \<times> rstr) list" where
  "bind_bundles E urls [] = Inr ([], urls)"
| "bind_bundles E urls (b # bs) =
     and_then (ok_or (map_of urls (hb_host b)) (Bail ''Agent Release Registry location Host is unknown'')) (\<lambda>bundle_url.
     and_then (validate_release_location E ''hostBundles.bundleUrl'' bundle_url (hb_file_name b)) (\<lambda>_.
     and_then (bind_bundles E (filter (\<lambda>(h, _). h \<noteq> hb_host b) urls) bs) (\<lambda>(rest, left).
     Inr (\<lparr>rh_host = hb_host b, rh_entrypoint = hb_entrypoint b, rh_bundle_url = bundle_url,
           rh_bundle_sha256 = hb_sha256 b\<rparr> # rest, left))))"

definition bind_verified_release_record ::
  "registry_env \<Rightarrow> agent_release_build \<Rightarrow> release_locations \<Rightarrow> host_error + remote_package" where
  "bind_verified_release_record E build locations =
     and_then (with_context ''verify H2d2 Agent Release build before Registry binding''
       (verified_descriptor (re_release E) build)) (\<lambda>r.
     and_then (validate_release_location E ''releaseManifestUrl'' (lo_release_manifest_url locations) (rd_release_file_name r)) (\<lambda>_.
     and_then (validate_release_location E ''artifactUrl'' (lo_artifact_url locations) (rd_artifact_file_name r)) (\<lambda>_.
     and_then (validate_release_location E ''envelopeUrl'' (lo_envelope_url locations) (rd_envelope_file_name r)) (\<lambda>_.
     and_then (validate_release_location E ''hostProjectionUrl'' (lo_host_projection_url locations)
       (rd_host_projection_file_name r)) (\<lambda>_.
     and_then (index_bundle_urls [] (lo_host_bundles locations)) (\<lambda>urls.
     and_then (bail_if (length urls \<noteq> length (rd_host_bundles r))
       (Bail ''Agent Release Registry locations do not cover every Host bundle'')) (\<lambda>_.
     and_then (bind_bundles E urls (rd_host_bundles r)) (\<lambda>(bundles, left).
     and_then (bail_if (left \<noteq> []) (Bail ''Agent Release Registry locations contain an unknown Host'')) (\<lambda>_.
     let p = \<lparr>rp_package_id = rd_package_id r, rp_agent_id = rd_agent_id r, rp_version = rd_version r,
           rp_publisher = rd_publisher r, rp_release_manifest_url = lo_release_manifest_url locations,
           rp_release_manifest_sha256 = rd_release_sha256 r, rp_artifact_url = lo_artifact_url locations,
           rp_artifact_sha256 = rd_artifact_sha256 r, rp_envelope_url = lo_envelope_url locations,
           rp_envelope_sha256 = rd_envelope_sha256 r, rp_host_projection_url = lo_host_projection_url locations,
           rp_host_projection_sha256 = rd_host_projection_sha256 r,
           rp_host_bundles = sort_key (\<lambda>b. lit (skill_host_as_str (rh_host b))) bundles\<rparr> in
     and_then (validate_remote_record_shape E p) (\<lambda>_. Inr p))))))))))"

section \<open>What a valid snapshot looks like\<close>

lemma plain_hex: "list_all hex_byte (str_bytes s) \<Longrightarrow> plain_field s"
proof -
  assume "list_all hex_byte (str_bytes s)"
  then have "list_all hex_byte s" by (rule list_all_str_bytes) (auto simp: hex_byte_def is_ascii_digit_def)
  then show ?thesis by (fastforce simp: plain_field_def list_all_iff hex_byte_def is_ascii_digit_def)
qed

lemma registry_sha256_plain: "validate_registry_sha256 field s = Inr u \<Longrightarrow> plain_field s"
  by (auto simp: validate_registry_sha256_def bail_if_eq_Inr intro: plain_hex)

lemma registry_identifier_plain:
  assumes "validate_registry_identifier field s p u = Inr x"
  shows "plain_field s"
proof -
  have "list_all (registry_identifier_byte p u) (str_bytes s)"
    using assms by (simp add: validate_registry_identifier_def bail_if_eq_Inr)
  then have "list_all (registry_identifier_byte p u) s"
    by (rule list_all_str_bytes) (auto simp: registry_identifier_byte_def is_ascii_lowercase_def is_ascii_digit_def)
  then show ?thesis
    by (fastforce simp: plain_field_def list_all_iff registry_identifier_byte_def is_ascii_lowercase_def is_ascii_digit_def)
qed

definition bundle_shape :: "remote_host_bundle \<Rightarrow> bool" where
  "bundle_shape b \<longleftrightarrow> plain_field (rh_bundle_sha256 b)"

definition package_shape :: "remote_package \<Rightarrow> bool" where
  "package_shape p \<longleftrightarrow> plain_field (rp_release_manifest_sha256 p) \<and> plain_field (rp_artifact_sha256 p)
     \<and> plain_field (rp_envelope_sha256 p) \<and> plain_field (rp_host_projection_sha256 p)
     \<and> (\<forall>b \<in> set (rp_host_bundles p). bundle_shape b)"

lemma validate_host_bundles_ok:
  "validate_host_bundles E hosts previous bs = Inr u \<Longrightarrow> \<forall>b \<in> set bs. bundle_shape b"
proof (induction E hosts previous bs rule: validate_host_bundles.induct)
  case (2 E hosts previous b bs)
  then have "validate_registry_sha256 ''hostBundles.bundleSha256'' (rh_bundle_sha256 b) = Inr ()"
    and r: "validate_host_bundles E (rh_host b # hosts) (Some (skill_host_as_str (rh_host b))) bs = Inr u"
    by (auto simp: result_simps)
  then show ?case using "2.IH" [OF r] registry_sha256_plain by (auto simp: bundle_shape_def)
qed simp

lemma validate_record_ok: "validate_remote_record_shape E p = Inr u \<Longrightarrow> package_shape p"
  using registry_sha256_plain validate_host_bundles_ok
  unfolding validate_remote_record_shape_def package_shape_def and_then_eq_Inr by blast

lemma validate_records_ok:
  assumes "validate_records E publishers previous agents ps = Inr u"
  shows "(\<forall>p \<in> set ps. validate_remote_record_shape E p = Inr () \<and> trusts_publisher publishers (rp_publisher p))
    \<and> sorted_wrt (<) (map rp_package_id ps) \<and> (\<forall>q. previous = Some q \<longrightarrow> (\<forall>p \<in> set ps. q < rp_package_id p))
    \<and> distinct (map rp_agent_id ps) \<and> set agents \<inter> set (map rp_agent_id ps) = {}"
  using assms
proof (induction E publishers previous agents ps rule: validate_records.induct)
  case (2 E publishers previous agents p ps)
  from 2(2) have h: "validate_remote_record_shape E p = Inr ()" "trusts_publisher publishers (rp_publisher p)"
      "\<forall>q. previous = Some q \<longrightarrow> q < rp_package_id p" "rp_agent_id p \<notin> set agents"
      and r: "validate_records E publishers (Some (rp_package_id p)) (rp_agent_id p # agents) ps = Inr u"
    by (auto simp: result_simps not_le split: option.splits)
  have ih: "(\<forall>p \<in> set ps. validate_remote_record_shape E p = Inr () \<and> trusts_publisher publishers (rp_publisher p))
    \<and> sorted_wrt (<) (map rp_package_id ps) \<and> (\<forall>x \<in> set ps. rp_package_id p < rp_package_id x)
    \<and> distinct (map rp_agent_id ps) \<and> rp_agent_id p \<notin> set (map rp_agent_id ps) \<and> set agents \<inter> set (map rp_agent_id ps) = {}"
    using "2.IH" [OF r] by auto
  show ?case
  proof (intro conjI)
    show "\<forall>q. previous = Some q \<longrightarrow> (\<forall>x \<in> set (p # ps). q < rp_package_id x)"
      using h(3) ih by (auto intro: less_trans)
  qed (use ih h in auto)
qed simp

lemma validate_snapshot_ok:
  assumes "validate_snapshot E s now m audit publishers = Inr (g, e)"
  shows "rs_schema_version s = 2" "1 \<le> rs_revision s" "m \<le> rs_revision s"
    "1 \<le> rs_trust_bundle_sequence s" "rs_trust_bundle_sequence s = ta_trust_sequence audit"
    "ta_root_key_id audit = Some (rs_root_key_id s)"
    "rfc3339 (re_trust E) (rs_generated_at s) = Some g" "rfc3339 (re_trust E) (rs_expires_at s) = Some e"
    "g \<le> now" "now < e" "validate_records E publishers None [] (rs_packages s) = Inr ()"
    "plain_field (rs_root_key_id s)"
  using assms registry_identifier_plain
  by (auto simp: validate_snapshot_def result_simps parse_registry_timestamp_def not_less not_le)

section \<open>The signed text determines the snapshot\<close>

definition b64_invertible :: "registry_env \<Rightarrow> bool" where
  "b64_invertible E \<longleftrightarrow> (\<forall>bytes. b64_decode (re_trust E) (b64_encode (re_trust E) bytes) = Some bytes)"

text \<open>Rust strings hold Unicode scalar values.\<close>

definition bundle_texts :: "remote_host_bundle \<Rightarrow> bool" where
  "bundle_texts b \<longleftrightarrow> scalar_values (rh_entrypoint b) \<and> scalar_values (rh_bundle_url b)"

definition package_texts :: "remote_package \<Rightarrow> bool" where
  "package_texts p \<longleftrightarrow> scalar_values (rp_package_id p) \<and> scalar_values (rp_agent_id p) \<and> scalar_values (rp_version p)
     \<and> scalar_values (rp_publisher p) \<and> scalar_values (rp_release_manifest_url p) \<and> scalar_values (rp_artifact_url p)
     \<and> scalar_values (rp_envelope_url p) \<and> scalar_values (rp_host_projection_url p)
     \<and> (\<forall>b \<in> set (rp_host_bundles p). bundle_texts b)"

lemma encode_text_inject:
  assumes "b64_invertible E" "scalar_values s" "scalar_values t"
  shows "encode_text E s = encode_text E t \<longleftrightarrow> s = t"
proof
  assume "encode_text E s = encode_text E t"
  then have "str_bytes s = str_bytes t"
    using assms(1) unfolding encode_text_def b64_invertible_def by (metis option.inject)
  then show "s = t" by (simp add: str_bytes_inject [OF assms(2,3)])
qed simp

lemma encode_text_plain: "plain_texts (re_trust E) \<Longrightarrow> 10 \<notin> set (encode_text E s) \<and> 124 \<notin> set (encode_text E s)"
  by (simp add: encode_text_def plain_texts_def)

lemma host_name_plain: "10 \<notin> set (lit (skill_host_as_str h)) \<and> 124 \<notin> set (lit (skill_host_as_str h))"
  by (cases h) (simp_all add: lit_def)

lemma prefix_plain: "10 \<notin> set (lit ''host='')" "10 \<notin> set (lit ''package='')"
  by (simp_all add: lit_def)

lemma str_join_fields_inject:
  assumes "str_join [124] ps = str_join [124] qs" "ps \<noteq> []" "qs \<noteq> []" "\<forall>p \<in> set ps. plain_field p" "\<forall>q \<in> set qs. plain_field q"
  shows "ps = qs"
  by (rule str_join_inject [OF assms(1-3)]) (use assms(4,5) in \<open>simp_all add: plain_field_def\<close>)

lemma host_line_inject:
  assumes "plain_texts (re_trust E)" "b64_invertible E" "bundle_shape b" "bundle_shape c" "bundle_texts b" "bundle_texts c"
    and "host_line E i b = host_line E i c"
  shows "b = c"
proof -
  have "[encode_text E i, lit (skill_host_as_str (rh_host b)), encode_text E (rh_entrypoint b),
       encode_text E (rh_bundle_url b), rh_bundle_sha256 b]
     = [encode_text E i, lit (skill_host_as_str (rh_host c)), encode_text E (rh_entrypoint c),
       encode_text E (rh_bundle_url c), rh_bundle_sha256 c]"
    by (rule str_join_fields_inject)
      (use assms encode_text_plain [OF assms(1)] host_name_plain in
        \<open>simp_all add: host_line_def bundle_shape_def plain_field_def\<close>)
  then show ?thesis
    using assms encode_text_inject [OF assms(2)] by (intro remote_host_bundle.equality) (auto simp: bundle_texts_def)
qed

lemma package_line_inject:
  assumes "plain_texts (re_trust E)" "b64_invertible E" "package_shape p" "package_shape q" "package_texts p" "package_texts q"
    and "package_line E p = package_line E q"
  shows "p\<lparr>rp_host_bundles := []\<rparr> = q\<lparr>rp_host_bundles := []\<rparr> \<and> length (rp_host_bundles p) = length (rp_host_bundles q)"
proof -
  have "[encode_text E (rp_package_id p), encode_text E (rp_agent_id p),
     encode_text E (rp_version p), encode_text E (rp_publisher p), encode_text E (rp_release_manifest_url p),
     rp_release_manifest_sha256 p, encode_text E (rp_artifact_url p), rp_artifact_sha256 p,
     encode_text E (rp_envelope_url p), rp_envelope_sha256 p, encode_text E (rp_host_projection_url p),
     rp_host_projection_sha256 p, nat_to_str (length (rp_host_bundles p))]
   = [encode_text E (rp_package_id q), encode_text E (rp_agent_id q),
     encode_text E (rp_version q), encode_text E (rp_publisher q), encode_text E (rp_release_manifest_url q),
     rp_release_manifest_sha256 q, encode_text E (rp_artifact_url q), rp_artifact_sha256 q,
     encode_text E (rp_envelope_url q), rp_envelope_sha256 q, encode_text E (rp_host_projection_url q),
     rp_host_projection_sha256 q, nat_to_str (length (rp_host_bundles q))]"
    by (rule str_join_fields_inject)
      (use assms(3,4,7) encode_text_plain [OF assms(1)] in \<open>simp_all add: package_line_def package_shape_def plain_field_def\<close>)
  then show ?thesis
    using assms(5,6) encode_text_inject [OF assms(2)]
    by (intro conjI remote_package.equality) (auto simp: package_texts_def)
qed

lemma package_lines_inject:
  assumes "plain_texts (re_trust E)" "b64_invertible E" "package_shape p" "package_shape q" "package_texts p" "package_texts q"
    and "package_lines E p @ x = package_lines E q @ y"
  shows "p = q \<and> x = y"
proof -
  have l: "package_line E p = package_line E q"
    and t: "map (host_line E (rp_package_id p)) (rp_host_bundles p) @ x = map (host_line E (rp_package_id q)) (rp_host_bundles q) @ y"
    using assms(7) by (simp_all add: package_lines_def)
  note i = package_line_inject [OF assms(1-6) l]
  have id: "rp_package_id p = rp_package_id q" using i by (metis remote_package.select_convs(1) remote_package.surjective remote_package.update_convs(13))
  have b: "map (host_line E (rp_package_id p)) (rp_host_bundles p) = map (host_line E (rp_package_id p)) (rp_host_bundles q)" and xy: "x = y"
    using t i unfolding id by (simp_all add: append_eq_append_conv)
  have "rp_host_bundles p = rp_host_bundles q"
    using b assms(3-6) host_line_inject [OF assms(1,2)]
    by (subst (asm) map_inject_on) (auto simp: package_shape_def package_texts_def)
  with i xy show ?thesis by (cases p; cases q) simp
qed

lemma packages_inject:
  assumes "plain_texts (re_trust E)" "b64_invertible E"
    and "\<forall>p \<in> set ps. package_shape p \<and> package_texts p" "\<forall>p \<in> set qs. package_shape p \<and> package_texts p"
    and "concat (map (package_lines E) ps) = concat (map (package_lines E) qs)"
  shows "ps = qs"
  using assms(3-5)
proof (induction ps arbitrary: qs)
  case Nil
  then show ?case by (cases qs) (auto simp: package_lines_def)
next
  case (Cons p ps)
  then obtain q r where qs: "qs = q # r" by (cases qs) (auto simp: package_lines_def)
  have e: "p = q \<and> concat (map (package_lines E) ps) = concat (map (package_lines E) r)"
    by (rule package_lines_inject [OF assms(1,2)]) (use Cons.prems in \<open>simp_all add: qs\<close>)
  have "ps = r"
    by (rule Cons.IH) (use Cons.prems(1,2) e in \<open>simp_all add: qs\<close>)
  with e show ?case by (simp add: qs)
qed

lemma registry_line_plain:
  assumes "plain_texts (re_trust E)" "validate_snapshot E s now m audit publishers = Inr ge"
  shows "\<forall>l \<in> set (registry_lines E s). 10 \<notin> set l"
proof -
  obtain g e where ge: "ge = (g, e)" by (cases ge)
  note v = validate_snapshot_ok [OF assms(2) [unfolded ge]]
  have shape: "package_shape p" if "p \<in> set (rs_packages s)" for p
    using that validate_records_ok [OF v(11)] validate_record_ok by blast
  have t: "10 \<notin> set (rs_generated_at s)" "10 \<notin> set (rs_expires_at s)"
    using v(7,8) assms(1) by (auto simp: plain_texts_def)
  have h: "10 \<notin> set (host_line E i b)" if "bundle_shape b" for i b
    using that encode_text_plain [OF assms(1)] host_name_plain prefix_plain by (simp add: host_line_def bundle_shape_def plain_field_def)
  have p: "10 \<notin> set (package_line E p)" if "package_shape p" for p
    using that encode_text_plain [OF assms(1)] prefix_plain by (simp add: package_line_def package_shape_def plain_field_def)
  have "10 \<notin> set l" if "p \<in> set (rs_packages s)" "l \<in> set (package_lines E p)" for p l
    using that shape [OF that(1)] h p by (auto simp: package_lines_def package_shape_def)
  moreover have "10 \<notin> set (lit ''agentmesh360-package-registry-v2'')" "10 \<notin> set (lit ''schemaVersion='')"
    "10 \<notin> set (lit ''revision='')" "10 \<notin> set (lit ''rootKeyId='')" "10 \<notin> set (lit ''trustBundleSequence='')"
    "10 \<notin> set (lit ''generatedAt='')" "10 \<notin> set (lit ''expiresAt='')" by (simp_all add: lit_def)
  ultimately show ?thesis using t v(12) by (auto simp: registry_lines_def plain_field_def)
qed

lemma registry_payload_inject:
  assumes "plain_texts (re_trust E)" "b64_invertible E"
    and "validate_snapshot E s now m audit publishers = Inr ge" "validate_snapshot E s' now' m' audit' publishers' = Inr ge'"
    and "\<forall>p \<in> set (rs_packages s) \<union> set (rs_packages s'). package_texts p"
    and "registry_signature_payload E s = registry_signature_payload E s'"
  shows "s'\<lparr>rs_signature := rs_signature s\<rparr> = s"
proof -
  have shape: "\<forall>p \<in> set (rs_packages t). package_shape p"
    if "validate_snapshot E t n i a b = Inr x" for t n i a b x
    using that validate_records_ok validate_snapshot_ok(11) validate_record_ok by (cases x) blast
  have "registry_lines E s = registry_lines E s'"
    using registry_line_plain [OF assms(1,3)] registry_line_plain [OF assms(1,4)] assms(6)
    unfolding registry_signature_payload_def by (intro text_lines_inject) auto
  then have e: "rs_schema_version s = rs_schema_version s'" "rs_revision s = rs_revision s'" "rs_root_key_id s = rs_root_key_id s'"
      "rs_trust_bundle_sequence s = rs_trust_bundle_sequence s'" "rs_generated_at s = rs_generated_at s'"
      "rs_expires_at s = rs_expires_at s'" "concat (map (package_lines E) (rs_packages s)) = concat (map (package_lines E) (rs_packages s'))"
    by (simp_all add: registry_lines_def)
  have "rs_packages s = rs_packages s'"
    by (rule packages_inject [OF assms(1,2) _ _ e(7)]) (use shape [OF assms(3)] shape [OF assms(4)] assms(5) in auto)
  with e show ?thesis by simp
qed

section \<open>Binding and projecting agree\<close>

lemma verify_release_bundles_sorted:
  assumes "verify_release_bundles i v hosts previous bs = Inr u"
  shows "sorted_wrt (<) (map (\<lambda>b. lit (skill_host_as_str (hb_host b))) bs)
    \<and> (\<forall>q. previous = Some q \<longrightarrow> (\<forall>b \<in> set bs. lit q < lit (skill_host_as_str (hb_host b))))"
  using assms
proof (induction i v hosts previous bs rule: verify_release_bundles.induct)
  case (2 i v hosts previous b bs)
  from 2(2) have h: "\<forall>q. previous = Some q \<longrightarrow> lit q < lit (skill_host_as_str (hb_host b))"
    and r: "verify_release_bundles i v (hb_host b # hosts) (Some (skill_host_as_str (hb_host b))) bs = Inr u"
    by (auto simp: result_simps not_le split: option.splits)
  from "2.IH" [OF r] h show ?case by (auto intro: less_trans)
qed simp

lemma bind_bundles_ok:
  assumes "bind_bundles E urls bs = Inr (out, left)"
  shows "map rh_host out = map hb_host bs \<and> verify_bundles_against E out bs = Inr () \<and> length out = length bs"
  using assms
proof (induction E urls bs arbitrary: out left rule: bind_bundles.induct)
  case (2 E urls b bs)
  from 2(2) obtain url rest where u: "validate_release_location E ''hostBundles.bundleUrl'' url (hb_file_name b) = Inr ()"
    "bind_bundles E (filter (\<lambda>(h, _). h \<noteq> hb_host b) urls) bs = Inr (rest, left)"
    "out = \<lparr>rh_host = hb_host b, rh_entrypoint = hb_entrypoint b, rh_bundle_url = url, rh_bundle_sha256 = hb_sha256 b\<rparr> # rest"
    by (auto simp: result_simps)
  from "2.IH" [OF u(2)] u(1,3) show ?case by simp
qed simp

lemma verified_descriptor_ok:
  assumes "verified_descriptor E b = Inr r"
  shows "verify_agent_release_descriptor E (ab_document b) = Inr r"
    "sorted_wrt (<) (map (\<lambda>b. lit (skill_host_as_str (hb_host b))) (rd_host_bundles r))"
proof -
  show d: "verify_agent_release_descriptor E (ab_document b) = Inr r"
    using assms by (auto simp: verified_descriptor_def result_simps)
  then obtain m where m: "verify_agent_release_document E (ab_document b) = Inr m" "rd_host_bundles r = rm_host_bundles m"
    by (auto simp: verify_agent_release_descriptor_def Let_def result_simps)
  from m(1) have "verify_release_bundles (rm_package_id m) (rm_version m) [] None (rm_host_bundles m) = Inr ()"
    unfolding verify_agent_release_document_def Let_def and_then_eq_Inr by auto
  then show "sorted_wrt (<) (map (\<lambda>b. lit (skill_host_as_str (hb_host b))) (rd_host_bundles r))"
    using verify_release_bundles_sorted m(2) by metis
qed

section \<open>Three kinds of signed texts\<close>

lemma str_bytes_append: "str_bytes (s @ t) = str_bytes s @ str_bytes t"
  by (simp add: str_bytes_def)

lemma str_bytes_ascii: "\<forall>c \<in> set s. c < 0x80 \<Longrightarrow> str_bytes s = s"
  by (induction s) (simp_all add: str_bytes_def utf8_encode_def)

lemma payload_first_line:
  assumes "\<forall>c \<in> set (lit l). c < 0x80"
  shows "str_bytes (text_lines (lit l # ls)) = lit l @ 10 # str_bytes (text_lines ls)"
  using str_bytes_ascii [OF assms] by (simp add: str_bytes_append str_bytes_ascii [of "[10]"] flip: append_Cons)
    (simp add: str_bytes_def utf8_encode_def)

section \<open>Properties\<close>

text \<open>C32: a registry is accepted only on the word of a trusted root. Its signature verifies with a root of
  the store, the one that signed the publisher bundle in use, of the same trust sequence; it is inside
  its validity window and not older than required; each record has a trusted publisher and no two
  share a package id or an agent id.\<close>

theorem registry_is_justified:
  assumes "verify_registry_at E roots document now minimum publishers = Inr r"
  shows "\<exists>s root signature. parse_snapshot E document = Some s \<and> map_of roots (rs_root_key_id s) = Some root
    \<and> ed_verify (re_trust E) (rk_public_key root) (str_bytes (registry_signature_payload E s)) signature
    \<and> vr_packages r = rs_packages s \<and> vr_revision r = rs_revision s \<and> minimum \<le> rs_revision s \<and> 1 \<le> rs_revision s
    \<and> tp_root_key_id publishers = Some (vr_root_key_id r) \<and> tp_trust_sequence publishers = vr_trust_bundle_sequence r
    \<and> vr_generated_at r \<le> now \<and> now < vr_expires_at r
    \<and> distinct (map rp_package_id (vr_packages r)) \<and> distinct (map rp_agent_id (vr_packages r))
    \<and> (\<forall>p \<in> set (vr_packages r). \<exists>k key. (k, key) \<in> set (tp_keys publishers) \<and> pk_publisher key = rp_publisher p)"
proof -
  from assms obtain s g e where s: "parse_snapshot E document = Some s"
      "validate_snapshot E s now minimum (publisher_audit publishers) publishers = Inr (g, e)"
      "verify_signed_payload (re_trust E) roots (rs_root_key_id s) (rs_signature s)
        (str_bytes (registry_signature_payload E s)) ''Agent Package registry snapshot'' = Inr ()"
      "r = \<lparr>vr_revision = rs_revision s, vr_trust_bundle_sequence = rs_trust_bundle_sequence s,
          vr_root_key_id = rs_root_key_id s, vr_generated_at = g, vr_expires_at = e, vr_packages = rs_packages s\<rparr>"
    by (auto simp: verify_registry_at_def result_simps)
  note v = validate_snapshot_ok [OF s(2)]
  note rec = validate_records_ok [OF v(11)]
  from s(3) obtain root signature where root: "map_of roots (rs_root_key_id s) = Some root"
      "ed_verify (re_trust E) (rk_public_key root) (str_bytes (registry_signature_payload E s)) signature"
    by (auto simp: verify_signed_payload_def result_simps)
  have "distinct (map rp_package_id (rs_packages s))" using rec by (simp add: strict_sorted_iff)
  moreover have "\<exists>k key. (k, key) \<in> set (tp_keys publishers) \<and> pk_publisher key = rp_publisher p"
    if "p \<in> set (rs_packages s)" for p
    using rec that by (fastforce simp: trusts_publisher_def list_ex_iff)
  ultimately show ?thesis
    using s(1,4) root v rec by (intro exI [of _ s] exI [of _ root] exI [of _ signature]) (simp add: publisher_audit_def)
qed

text \<open>C33: a root's signature covers the whole registry. The signed text determines every field of a valid
  snapshot but the signature: the header, each record with its digests and locations, and each bundle
  of other hosts.\<close>

theorem registry_signature_covers_snapshot:
  assumes "plain_texts (re_trust E)" "b64_invertible E"
    and "validate_snapshot E s now m audit publishers = Inr ge" "validate_snapshot E s' now' m' audit' publishers' = Inr ge'"
    and "\<forall>p \<in> set (rs_packages s) \<union> set (rs_packages s'). package_texts p"
  shows "registry_signature_payload E s = registry_signature_payload E s' \<longleftrightarrow> s'\<lparr>rs_signature := rs_signature s\<rparr> = s"
proof
  assume "s'\<lparr>rs_signature := rs_signature s\<rparr> = s"
  then have "registry_lines E s = registry_lines E s'" by (cases s; cases s') (simp add: registry_lines_def)
  then show "registry_signature_payload E s = registry_signature_payload E s'" by (simp add: registry_signature_payload_def)
qed (rule registry_payload_inject [OF assms])

text \<open>a record bound to a release passes every check of its readers. Whoever projects the record for
  the client or for another host and fetches the release manifest it names accepts it, and reads the
  digests of the release that was bound.\<close>

theorem bound_release_verifies:
  assumes "bind_verified_release_record E build locations = Inr p"
  shows "\<exists>r. client_verify_release E (client_projection_of p) (ab_document build) = Inr r
    \<and> host_verify_release E (host_projection_of p) (ab_document build) = Inr ()
    \<and> rd_artifact_sha256 r = rp_artifact_sha256 p \<and> rd_envelope_sha256 r = rp_envelope_sha256 p
    \<and> validate_remote_record_shape E p = Inr ()"
proof -
  from assms obtain r urls bundles left where r: "verified_descriptor (re_release E) build = Inr r"
      "validate_release_location E ''releaseManifestUrl'' (rp_release_manifest_url p) (rd_release_file_name r) = Inr ()"
      "validate_release_location E ''artifactUrl'' (rp_artifact_url p) (rd_artifact_file_name r) = Inr ()"
      "validate_release_location E ''envelopeUrl'' (rp_envelope_url p) (rd_envelope_file_name r) = Inr ()"
      "validate_release_location E ''hostProjectionUrl'' (rp_host_projection_url p) (rd_host_projection_file_name r) = Inr ()"
    and b: "bind_bundles E urls (rd_host_bundles r) = Inr (bundles, left)"
    and p: "rp_package_id p = rd_package_id r" "rp_agent_id p = rd_agent_id r" "rp_version p = rd_version r"
      "rp_publisher p = rd_publisher r" "rp_release_manifest_sha256 p = rd_release_sha256 r"
      "rp_artifact_sha256 p = rd_artifact_sha256 r" "rp_envelope_sha256 p = rd_envelope_sha256 r"
      "rp_host_projection_sha256 p = rd_host_projection_sha256 r"
      "rp_host_bundles p = sort_key (\<lambda>b. lit (skill_host_as_str (rh_host b))) bundles"
      "validate_remote_record_shape E p = Inr ()"
    by (auto simp: bind_verified_release_record_def Let_def result_simps)
  note d = verified_descriptor_ok [OF r(1)]
  note bb = bind_bundles_ok [OF b]
  have "map (\<lambda>b. lit (skill_host_as_str (rh_host b))) bundles = map (\<lambda>h. lit (skill_host_as_str h)) (map rh_host bundles)" by simp
  also have "\<dots> = map (\<lambda>b. lit (skill_host_as_str (hb_host b))) (rd_host_bundles r)" using bb by simp
  finally have "sorted (map (\<lambda>b. lit (skill_host_as_str (rh_host b))) bundles)"
    using d(2) by (simp add: strict_sorted_iff)
  then have hb: "rp_host_bundles p = bundles" using p(9) by (simp add: sort_key_id_if_sorted)
  have ref: "verify_projection_release_reference E (ab_document build) (release_reference_of p) (rp_package_id p) (rp_agent_id p)
      (rp_version p) (rp_publisher p) = Inr r"
    using d(1) r(2) p by (simp add: verify_projection_release_reference_def release_reference_of_def)
  then have "client_verify_release E (client_projection_of p) (ab_document build) = Inr r"
    using r(3,4) p by (simp add: client_verify_release_def client_projection_of_def)
  moreover have "host_verify_release E (host_projection_of p) (ab_document build) = Inr ()"
    using ref r(5) p bb hb by (simp add: host_verify_release_def host_projection_of_def)
  ultimately show ?thesis using p by auto
qed

text \<open>signatures cannot be moved between documents. The bytes that are signed for a publisher bundle,
  a registry and a package are different whatever the documents hold: no signed text serves two kinds of document.\<close>

theorem signed_texts_are_separate:
  shows "str_bytes (trust_bundle_signature_payload b) \<noteq> str_bytes (registry_signature_payload E s)
    \<and> str_bytes (trust_bundle_signature_payload b) \<noteq> str_bytes (signature_payload e)
    \<and> str_bytes (registry_signature_payload E s) \<noteq> str_bytes (signature_payload e)"
proof -
  let ?t = "''agentmesh360-publisher-trust-v1''" and ?r = "''agentmesh360-package-registry-v2''" and ?p = "''agentmesh360-package-signature-v1''"
  have a: "\<forall>c \<in> set (lit l). c < 0x80" "10 \<notin> set (lit l)" if "l \<in> {?t, ?r, ?p}" for l
    using that by (auto simp: lit_def)
  have lines: "\<exists>x. str_bytes (trust_bundle_signature_payload b) = lit ?t @ 10 # x"
    "\<exists>x. str_bytes (registry_signature_payload E s) = lit ?r @ 10 # x" "\<exists>x. str_bytes (signature_payload e) = lit ?p @ 10 # x"
    using payload_first_line [OF a(1), of ?t] payload_first_line [OF a(1), of ?r] payload_first_line [OF a(1), of ?p]
    by (auto simp: trust_bundle_signature_payload_def trust_bundle_lines_def registry_signature_payload_def
        registry_lines_def signature_payload_def envelope_lines_def simp del: text_lines_simps)
  have "lit l @ 10 # x \<noteq> lit l' @ 10 # y" if "l \<noteq> l'" "l \<in> {?t, ?r, ?p}" "l' \<in> {?t, ?r, ?p}" for l l' x y
    using that separated_inject [of 10 "lit l" "lit l'" x y] a(2) by auto
  from this [of ?t ?r] this [of ?t ?p] this [of ?r ?p] lines show ?thesis by force
qed

section \<open>Applied to a concrete registry\<close>

definition sample_record :: remote_package where
  "sample_record = \<lparr>rp_package_id = [112], rp_agent_id = [97], rp_version = [49], rp_publisher = [112],
     rp_release_manifest_url = sample_stem @ lit ''.agent-release.v1.json'',
     rp_release_manifest_sha256 = lower_hex (sample_digest (manifest_code sample_release)),
     rp_artifact_url = sample_stem @ lit ''.ampkg.tar.zst'', rp_artifact_sha256 = lower_hex (sample_digest sample_artifact),
     rp_envelope_url = sample_stem @ lit ''.signature.v1.json'', rp_envelope_sha256 = lower_hex (sample_digest [101]),
     rp_host_projection_url = sample_stem @ lit ''.host-skills.v1.json'',
     rp_host_projection_sha256 = lower_hex (sample_digest [1]), rp_host_bundles = []\<rparr>"

definition sample_snapshot :: registry_snapshot where
  "sample_snapshot = \<lparr>rs_schema_version = 2, rs_revision = 4, rs_root_key_id = [114], rs_trust_bundle_sequence = 3,
     rs_generated_at = [48], rs_expires_at = [57], rs_packages = [sample_record], rs_signature = [65]\<rparr>"

definition sample_registry_env :: "trust_env \<Rightarrow> registry_env" where
  "sample_registry_env T = \<lparr>re_release = sample_release_env\<lparr>rl_artifact := sample_artifact_env\<lparr>ae_trust := T\<rparr>\<rparr>,
     parse_snapshot = (\<lambda>d. if d = [115] then Some sample_snapshot else None)\<rparr>"

definition sample_locations :: release_locations where
  "sample_locations = \<lparr>lo_release_manifest_url = rp_release_manifest_url sample_record,
     lo_artifact_url = rp_artifact_url sample_record, lo_envelope_url = rp_envelope_url sample_record,
     lo_host_projection_url = rp_host_projection_url sample_record, lo_host_bundles = []\<rparr>"

lemma sample_registry_simps [simp]:
  "re_trust (sample_registry_env T) = T" "re_package (sample_registry_env T) = sample_package_env\<lparr>sha256 := sample_digest\<rparr>"
  "semver_text (re_release (sample_registry_env T)) v = v" "re_release (sample_registry_env sample_trust_env) = sample_release_env"
  "parse_snapshot (sample_registry_env T) [115] = Some sample_snapshot"
  by (simp_all add: sample_registry_env_def sample_release_env_def sample_artifact_env_def)

lemma sample_url_ok:
  assumes "u \<noteq> []" "\<forall>c \<in> set u. c < 0x80" "length u \<le> 4096"
  shows "validate_https_url (sample_registry_env T) field u = Inr ()"
  using assms str_bytes_ascii [OF assms(2)]
  by (simp add: validate_https_url_def str_len_def sample_package_env_def sample_url_def)

lemma sample_location_ok:
  assumes "u \<noteq> []" "\<forall>c \<in> set u. c < 0x80 \<and> c \<noteq> 47" "length u \<le> 4096"
  shows "validate_release_location (sample_registry_env T) field u u = Inr ()"
proof -
  have "str_split 47 u = [u]" using assms(2) by (intro str_split_no_sep) auto
  then show ?thesis using assms sample_url_ok [of u T field]
    by (simp add: validate_release_location_def url_path_segments_def sample_package_env_def)
qed

lemma sample_urls:
  assumes "u \<in> {sample_stem @ lit ''.agent-release.v1.json'', sample_stem @ lit ''.ampkg.tar.zst'',
    sample_stem @ lit ''.signature.v1.json'', sample_stem @ lit ''.host-skills.v1.json''}"
  shows "u \<noteq> [] \<and> (\<forall>c \<in> set u. c < 0x80 \<and> c \<noteq> 47) \<and> length u \<le> 4096"
  using assms by (auto simp: sample_stem_def lit_def)

lemma sample_urls_ok [simp]:
  fixes field :: string
  shows "validate_release_location (sample_registry_env T) field (rp_release_manifest_url sample_record)
      (sample_stem @ lit ''.agent-release.v1.json'') = Inr ()"
    "validate_release_location (sample_registry_env T) field (rp_artifact_url sample_record) (sample_stem @ lit ''.ampkg.tar.zst'') = Inr ()"
    "validate_release_location (sample_registry_env T) field (rp_envelope_url sample_record) (sample_stem @ lit ''.signature.v1.json'') = Inr ()"
    "validate_release_location (sample_registry_env T) field (rp_host_projection_url sample_record)
      (sample_stem @ lit ''.host-skills.v1.json'') = Inr ()"
    "validate_https_url (sample_registry_env T) field (rp_release_manifest_url sample_record) = Inr ()"
    "validate_https_url (sample_registry_env T) field (rp_artifact_url sample_record) = Inr ()"
    "validate_https_url (sample_registry_env T) field (rp_envelope_url sample_record) = Inr ()"
    "validate_https_url (sample_registry_env T) field (rp_host_projection_url sample_record) = Inr ()"
  unfolding sample_record_def remote_package.select_convs
  by (rule sample_location_ok sample_url_ok; insert sample_urls; blast)+

lemma sample_registry_sha: "validate_registry_sha256 field (lower_hex (sample_digest bytes)) = Inr ()"
proof -
  have d: "hex_byte (hex_digit n)" "hex_digit n < 0x80" if "n < 16" for n
    using that by (auto simp: hex_byte_def hex_digit_def is_ascii_digit_def)
  let ?k = "length bytes mod 256"
  have "concat (replicate n [48, 48 :: nat]) = replicate (2 * n) 48" for n by (induction n) simp_all
  then have h: "lower_hex (sample_digest bytes) = replicate 62 48 @ [hex_digit (?k div 16), hex_digit (?k mod 16)]"
    by (simp add: sample_digest_def lower_hex_def map_replicate_const [symmetric]) (simp add: hex_digit_def)
  have k: "?k div 16 < 16" "?k mod 16 < 16" by auto
  have a: "str_bytes (lower_hex (sample_digest bytes)) = lower_hex (sample_digest bytes)"
    using d [OF k(1)] d [OF k(2)] by (intro str_bytes_ascii) (auto simp: h)
  have "list_all hex_byte (lower_hex (sample_digest bytes))"
    using d [OF k(1)] d [OF k(2)] by (simp add: h list_all_iff) (simp add: hex_byte_def is_ascii_digit_def)
  moreover have "length (lower_hex (sample_digest bytes)) = 64" by (simp add: h)
  ultimately show ?thesis by (simp add: validate_registry_sha256_def str_len_def a)
qed

lemma sample_shape: "validate_remote_record_shape (sample_registry_env T) sample_record = Inr ()"
proof -
  have i: "validate_registry_identifier f [c] p u = Inr ()" if "c \<in> {97, 112}" for f c p u
    using that by (auto simp: validate_registry_identifier_def str_len_def str_bytes_def utf8_encode_def registry_identifier_byte_def
        is_ascii_lowercase_def)
  have v: "validate_registry_version (sample_registry_env T) [49] = Inr ()"
    by (simp add: validate_registry_version_def str_len_def str_bytes_def utf8_encode_def sample_package_env_def)
  have f: "rp_package_id sample_record = [112]" "rp_agent_id sample_record = [97]" "rp_version sample_record = [49]"
    "rp_publisher sample_record = [112]" "rp_host_bundles sample_record = []"
    "rp_release_manifest_sha256 sample_record = lower_hex (sample_digest (manifest_code sample_release))"
    "rp_artifact_sha256 sample_record = lower_hex (sample_digest sample_artifact)"
    "rp_envelope_sha256 sample_record = lower_hex (sample_digest [101])"
    "rp_host_projection_sha256 sample_record = lower_hex (sample_digest [1])"
    by (simp_all add: sample_record_def)
  show ?thesis by (simp add: validate_remote_record_shape_def f i v sample_registry_sha)
qed

lemma sample_snapshot_valid:
  assumes "rfc3339 T [48] = Some 0" "rfc3339 T [57] = Some 9" "m \<le> 4"
  shows "validate_snapshot (sample_registry_env T) sample_snapshot 5 m (publisher_audit sample_publisher_store) sample_publisher_store
    = Inr (0, 9)"
proof -
  have i: "validate_registry_identifier f [114] p u = Inr ()" for f p u
    by (simp add: validate_registry_identifier_def str_len_def str_bytes_def utf8_encode_def registry_identifier_byte_def
        is_ascii_lowercase_def)
  have "rp_publisher sample_record = [112]" by (simp add: sample_record_def)
  then have r: "validate_records (sample_registry_env T) sample_publisher_store None [] [sample_record] = Inr ()"
    by (simp add: sample_shape trusts_publisher_def sample_publisher_store_def)
  show ?thesis
    unfolding validate_snapshot_def
    by (simp add: sample_snapshot_def publisher_audit_def i r del: validate_records.simps)
      (simp add: sample_publisher_store_def parse_registry_timestamp_def assms(1,2) assms(3) [THEN leD])
qed

lemma registry_is_justified_witness: "tp_root_key_id sample_publisher_store = Some [114]"
proof -
  have "verify_signed_payload sample_trust_env sample_roots [114] [65] payload subject = Inr ()" for payload subject
    by (simp add: verify_signed_payload_def sample_roots_def sample_trust_env_def decode_canonical_base64_def)
  then have "verify_registry_at (sample_registry_env sample_trust_env) sample_roots [115] 5 2 sample_publisher_store
    = Inr \<lparr>vr_revision = 4, vr_trust_bundle_sequence = 3, vr_root_key_id = [114], vr_generated_at = 0, vr_expires_at = 9,
        vr_packages = [sample_record]\<rparr>"
    using sample_snapshot_valid [of sample_trust_env 2]
    by (simp add: verify_registry_at_def str_len_def str_bytes_def utf8_encode_def)
      (simp add: sample_snapshot_def sample_trust_env_def)
  from registry_is_justified [OF this] show ?thesis by auto
qed

definition sample_invertible_env :: trust_env where
  "sample_invertible_env = sample_trust_env\<lparr>b64_encode := map ((+) 125), b64_decode := \<lambda>t. Some (map (\<lambda>c. c - 125) t)\<rparr>"

lemma registry_signature_covers_snapshot_witness:
  "registry_signature_payload (sample_registry_env sample_invertible_env) sample_snapshot
    = registry_signature_payload (sample_registry_env sample_invertible_env) (sample_snapshot\<lparr>rs_signature := [66]\<rparr>)"
proof -
  let ?E = "sample_registry_env sample_invertible_env"
  have p: "plain_texts (re_trust ?E)"
    using sample_plain_texts by (auto simp: plain_texts_def sample_invertible_env_def)
  have b: "b64_invertible ?E" by (simp add: b64_invertible_def sample_invertible_env_def comp_def)
  have v: "validate_snapshot ?E sample_snapshot 5 2 (publisher_audit sample_publisher_store) sample_publisher_store = Inr (0, 9)"
    by (rule sample_snapshot_valid) (simp_all add: sample_invertible_env_def sample_trust_env_def)
  then have w: "validate_snapshot ?E (sample_snapshot\<lparr>rs_signature := [66]\<rparr>) 5 2 (publisher_audit sample_publisher_store)
      sample_publisher_store = Inr (0, 9)"
    by (simp add: validate_snapshot_def sample_snapshot_def)
  have "package_texts sample_record"
    by (simp add: package_texts_def sample_record_def scalar_values_def sample_stem_def lit_def)
  then have "\<forall>p \<in> set (rs_packages sample_snapshot) \<union> set (rs_packages (sample_snapshot\<lparr>rs_signature := [66]\<rparr>)). package_texts p"
    by (simp add: sample_snapshot_def)
  from registry_signature_covers_snapshot [OF p b v w this] show ?thesis by simp
qed

lemma bound_release_verifies_witness:
  "validate_remote_record_shape (sample_registry_env sample_trust_env) sample_record = Inr ()"
proof -
  let ?E = "sample_registry_env sample_trust_env"
  have r: "verified_descriptor sample_release_env sample_build = Inr
     \<lparr>rd_package_id = [112], rd_agent_id = [97], rd_version = [49], rd_publisher = [112],
      rd_release_file_name = sample_stem @ lit ''.agent-release.v1.json'',
      rd_release_sha256 = lower_hex (sample_digest (manifest_code sample_release)),
      rd_artifact_file_name = sample_stem @ lit ''.ampkg.tar.zst'', rd_artifact_sha256 = lower_hex (sample_digest sample_artifact),
      rd_artifact_file_manifest_sha256 = lower_hex (sample_digest [50]),
      rd_envelope_file_name = sample_stem @ lit ''.signature.v1.json'', rd_envelope_sha256 = lower_hex (sample_digest [101]),
      rd_envelope_signature_key_id = [107],
      rd_host_projection_file_name = sample_stem @ lit ''.host-skills.v1.json'',
      rd_host_projection_sha256 = lower_hex (sample_digest [1]), rd_host_bundles = []\<rparr>"
    using sample_release_verifies
    by (simp add: verified_descriptor_def verify_agent_release_descriptor_def sample_build_def Let_def)
      (simp add: sample_release_def release_stem_def sample_stem_def)
  have l: "lo_release_manifest_url sample_locations = rp_release_manifest_url sample_record"
    "lo_artifact_url sample_locations = rp_artifact_url sample_record" "lo_envelope_url sample_locations = rp_envelope_url sample_record"
    "lo_host_projection_url sample_locations = rp_host_projection_url sample_record" "lo_host_bundles sample_locations = []"
    by (simp_all add: sample_locations_def)
  have p: "sample_record = \<lparr>rp_package_id = [112], rp_agent_id = [97], rp_version = [49], rp_publisher = [112],
     rp_release_manifest_url = rp_release_manifest_url sample_record,
     rp_release_manifest_sha256 = lower_hex (sample_digest (manifest_code sample_release)),
     rp_artifact_url = rp_artifact_url sample_record, rp_artifact_sha256 = lower_hex (sample_digest sample_artifact),
     rp_envelope_url = rp_envelope_url sample_record, rp_envelope_sha256 = lower_hex (sample_digest [101]),
     rp_host_projection_url = rp_host_projection_url sample_record,
     rp_host_projection_sha256 = lower_hex (sample_digest [1]), rp_host_bundles = []\<rparr>"
    by (simp add: sample_record_def)
  have "bind_verified_release_record ?E sample_build sample_locations = Inr sample_record"
    unfolding bind_verified_release_record_def Let_def sample_registry_simps r
    by (simp add: l flip: One_nat_def) (simp flip: p One_nat_def add: sample_shape)
  from bound_release_verifies [OF this] show ?thesis by auto
qed

end
