(* ===== verification/Trust_Cache.thy ===== *)
theory Trust_Cache
  imports Registry_Snapshot
begin

text \<open>
  \<open>package_trust_cache.rs\<close>: the one row that keeps the last accepted publisher bundle and registry.
  Documents are verified before they are written and again whenever they are read; versions never
  go back, and a version is never accepted with two contents.
\<close>

section \<open>The cached row\<close>

text \<open>The sequence and the revision are \<open>i64\<close> in the row and \<open>u64\<close> in the documents.\<close>

record cached_trust_row =
  ct_root_key_id :: rstr
  ct_trust_sequence :: int
  ct_trust_document :: rstr
  ct_trust_document_sha256 :: rstr
  ct_trust_expires_at :: rstr
  ct_registry_revision :: int
  ct_registry_document :: rstr
  ct_registry_document_sha256 :: rstr
  ct_registry_expires_at :: rstr
  ct_verified_at :: rstr
  ct_updated_at :: rstr

record cache_audit =
  pa_root_key_id :: rstr
  pa_trust_sequence :: nat
  pa_trust_expires_at :: int
  pa_registry_revision :: nat
  pa_registry_expires_at :: int
  pa_package_count :: nat
  pa_verified_at :: int

record verified_trust_cache =
  vc_audit :: cache_audit
  vc_publishers :: trusted_publisher_store
  vc_registry :: verified_registry

text \<open>\<open>to_rfc3339_opts\<close> of \<open>chrono\<close> with whole seconds and with as many digits as needed.\<close>

record cache_env =
  ce_registry :: registry_env
  format_secs :: "int \<Rightarrow> rstr"
  format_auto :: "int \<Rightarrow> rstr"

abbreviation ce_trust :: "cache_env \<Rightarrow> trust_env" where
  "ce_trust E \<equiv> re_trust (ce_registry E)"

definition document_sha256 :: "cache_env \<Rightarrow> rstr \<Rightarrow> rstr" where
  "document_sha256 E document = sha256_hex (rl_artifact (re_release (ce_registry E))) (str_bytes document)"

definition positive_u64 :: "string \<Rightarrow> int \<Rightarrow> host_error + nat" where
  "positive_u64 field value =
     (if value < 0 then Inl (Context (''Agent Package trust cache '' @ field @ '' invalid'') (Foreign ''try_from_int''))
      else if value = 0 then Inl (Bailf ''Agent Package trust cache {field} invalid'' [lit field])
      else Inr (nat value))"

definition positive_i64 :: "string \<Rightarrow> nat \<Rightarrow> host_error + int" where
  "positive_i64 field value =
     (if value \<ge> 2 ^ 63 then Inl (Context (''Agent Package trust cache '' @ field @ '' too large'') (Foreign ''try_from_int''))
      else if value = 0 then Inl (Bailf ''Agent Package trust cache {field} invalid'' [lit field])
      else Inr (int value))"

definition parse_cache_timestamp :: "cache_env \<Rightarrow> string \<Rightarrow> rstr \<Rightarrow> host_error + int" where
  "parse_cache_timestamp E field value =
     ok_or (rfc3339 (ce_trust E) value) (Context (''Agent Package trust cache '' @ field @ '' invalid'') (Foreign ''chrono''))"

definition reject_equivocation :: "string \<Rightarrow> nat \<Rightarrow> nat \<Rightarrow> rstr \<Rightarrow> rstr \<Rightarrow> host_error + unit" where
  "reject_equivocation subject accepted current accepted_digest current_digest =
     bail_if (accepted = current \<and> accepted_digest \<noteq> current_digest)
       (Bailf ''Agent Package {subject} equivocation at the accepted version'' [lit subject])"

definition cache_audit_of ::
  "rstr \<Rightarrow> trusted_publisher_store \<Rightarrow> verified_registry \<Rightarrow> int \<Rightarrow> host_error + cache_audit" where
  "cache_audit_of root_key_id publishers registry verified_at =
     and_then (ok_or (ta_expires_at (publisher_audit publishers))
       (Bail ''verified Agent Package publisher trust has no expiry'')) (\<lambda>trust_expires_at.
     Inr \<lparr>pa_root_key_id = root_key_id, pa_trust_sequence = ta_trust_sequence (publisher_audit publishers),
          pa_trust_expires_at = trust_expires_at, pa_registry_revision = vr_revision registry,
          pa_registry_expires_at = vr_expires_at registry, pa_package_count = length (vr_packages registry),
          pa_verified_at = verified_at\<rparr>)"

section \<open>Accepting documents\<close>

text \<open>What the three readings of the trusted clock answer in one call.\<close>

record clock_readings =
  cr_trust :: "trusted_time_error + int"
  cr_registry :: "trusted_time_error + int"
  cr_write :: "trusted_time_error + int"

definition minimum_version :: "string \<Rightarrow> int option \<Rightarrow> host_error + nat" where
  "minimum_version field current = (case current of None \<Rightarrow> Inr 1 | Some v \<Rightarrow> positive_u64 field v)"

definition reject_cached_equivocation ::
  "cached_trust_row option \<Rightarrow> nat \<Rightarrow> rstr \<Rightarrow> nat \<Rightarrow> rstr \<Rightarrow> host_error + unit" where
  "reject_cached_equivocation current sequence trust_sha256 revision registry_sha256 =
     (case current of None \<Rightarrow> Inr ()
      | Some row \<Rightarrow>
        and_then (positive_u64 ''trust sequence'' (ct_trust_sequence row)) (\<lambda>s.
        and_then (reject_equivocation ''publisher trust'' sequence s trust_sha256 (ct_trust_document_sha256 row)) (\<lambda>_.
        and_then (positive_u64 ''registry revision'' (ct_registry_revision row)) (\<lambda>r.
        reject_equivocation ''registry'' revision r registry_sha256 (ct_registry_document_sha256 row)))))"

definition verify_cache_update ::
  "cache_env \<Rightarrow> trusted_root_store \<Rightarrow> cached_trust_row option \<Rightarrow> rstr \<Rightarrow> rstr \<Rightarrow> clock_readings
     \<Rightarrow> host_error + trusted_publisher_store \<times> verified_registry \<times> rstr \<times> int" where
  "verify_cache_update E roots current trust_document registry_document clock =
     and_then (minimum_version ''trust sequence'' (map_option ct_trust_sequence current)) (\<lambda>minimum_sequence.
     and_then (minimum_version ''registry revision'' (map_option ct_registry_revision current)) (\<lambda>minimum_revision.
     and_then (with_context ''verify Agent Package publisher trust before caching''
       (from_signed_bundle (ce_trust E) trust_document roots (cr_trust clock) minimum_sequence)) (\<lambda>publishers.
     and_then (with_context ''verify Agent Package registry before caching''
       (verify_registry (ce_registry E) roots registry_document (cr_registry clock) minimum_revision publishers)) (\<lambda>registry.
     and_then (ok_or (ta_root_key_id (publisher_audit publishers))
       (Bail ''verified Agent Package publisher trust has no root'')) (\<lambda>root_key_id.
     and_then (ok_or (ta_expires_at (publisher_audit publishers))
       (Bail ''verified Agent Package publisher trust has no expiry'')) (\<lambda>trust_expires_at.
     and_then (reject_cached_equivocation current (ta_trust_sequence (publisher_audit publishers))
       (document_sha256 E trust_document) (vr_revision registry) (document_sha256 E registry_document)) (\<lambda>_.
     and_then (bail_if (vr_root_key_id registry \<noteq> root_key_id
         \<or> vr_trust_bundle_sequence registry \<noteq> ta_trust_sequence (publisher_audit publishers))
       (Bail ''verified Agent Package trust and registry binding split'')) (\<lambda>_.
     Inr (publishers, registry, root_key_id, trust_expires_at)))))))))"

definition cache_row ::
  "cache_env \<Rightarrow> rstr \<Rightarrow> rstr \<Rightarrow> trusted_publisher_store \<times> verified_registry \<times> rstr \<times> int \<Rightarrow> int
     \<Rightarrow> host_error + cached_trust_row" where
  "cache_row E trust_document registry_document = (\<lambda>(publishers, registry, root_key_id, trust_expires_at) verified_at.
     and_then (positive_i64 ''trust sequence'' (ta_trust_sequence (publisher_audit publishers))) (\<lambda>sequence.
     and_then (positive_i64 ''registry revision'' (vr_revision registry)) (\<lambda>revision.
     Inr \<lparr>ct_root_key_id = root_key_id, ct_trust_sequence = sequence, ct_trust_document = trust_document,
          ct_trust_document_sha256 = document_sha256 E trust_document,
          ct_trust_expires_at = format_auto E trust_expires_at, ct_registry_revision = revision,
          ct_registry_document = registry_document,
          ct_registry_document_sha256 = document_sha256 E registry_document,
          ct_registry_expires_at = format_auto E (vr_expires_at registry),
          ct_verified_at = format_secs E verified_at, ct_updated_at = format_secs E verified_at\<rparr>)))"

definition verified_write_time :: "cache_env \<Rightarrow> clock_readings \<Rightarrow> host_error + int" where
  "verified_write_time E clock =
     and_then (fresh_time ''Agent Package trust cache write requires fresh Core server time'' (cr_write clock)) (\<lambda>now.
     parse_cache_timestamp E ''verification time'' (format_secs E now))"

text \<open>
  A document that is not sent is the cached one (\<open>304 Not Modified\<close>). The upsert sets every column
  of the one row; after any error before the commit the row is what it was.
\<close>

definition accept_conditional_documents ::
  "cache_env \<Rightarrow> trusted_root_store \<Rightarrow> rstr option \<Rightarrow> rstr option \<Rightarrow> clock_readings \<Rightarrow> cached_trust_row option
     \<Rightarrow> (host_error + cache_audit) \<times> cached_trust_row option" where
  "accept_conditional_documents E roots trust_document registry_document clock current =
     (let write =
        and_then (ok_or (case trust_document of Some d \<Rightarrow> Some d | None \<Rightarrow> map_option ct_trust_document current)
          (Bail ''Agent Package publisher trust cache is unavailable'')) (\<lambda>trust.
        and_then (ok_or (case registry_document of Some d \<Rightarrow> Some d | None \<Rightarrow> map_option ct_registry_document current)
          (Bail ''Agent Package registry cache is unavailable'')) (\<lambda>registry.
        and_then (verify_cache_update E roots current trust registry clock) (\<lambda>v.
        and_then (verified_write_time E clock) (\<lambda>verified_at.
        and_then (cache_row E trust registry v verified_at) (\<lambda>row. Inr (row, v, verified_at))))))
      in case write of
           Inl e \<Rightarrow> (Inl e, current)
         | Inr (row, (publishers, registry, root_key_id, _), verified_at) \<Rightarrow>
             (cache_audit_of root_key_id publishers registry verified_at, Some row))"

definition accept_documents ::
  "cache_env \<Rightarrow> trusted_root_store \<Rightarrow> rstr \<Rightarrow> rstr \<Rightarrow> clock_readings \<Rightarrow> cached_trust_row option
     \<Rightarrow> (host_error + cache_audit) \<times> cached_trust_row option" where
  "accept_documents E roots trust_document registry_document clock current =
     accept_conditional_documents E roots (Some trust_document) (Some registry_document) clock current"

section \<open>Reading the cache\<close>

definition load_cached_row ::
  "cache_env \<Rightarrow> trusted_root_store \<Rightarrow> clock_readings \<Rightarrow> cached_trust_row \<Rightarrow> host_error + verified_trust_cache" where
  "load_cached_row E roots clock cached =
     and_then (bail_if (document_sha256 E (ct_trust_document cached) \<noteq> ct_trust_document_sha256 cached
         \<or> document_sha256 E (ct_registry_document cached) \<noteq> ct_registry_document_sha256 cached)
       (Bail ''Agent Package trust cache document digest mismatch'')) (\<lambda>_.
     and_then (positive_u64 ''trust sequence'' (ct_trust_sequence cached)) (\<lambda>trust_sequence.
     and_then (positive_u64 ''registry revision'' (ct_registry_revision cached)) (\<lambda>registry_revision.
     and_then (with_context ''reverify cached Agent Package publisher trust''
       (from_signed_bundle (ce_trust E) (ct_trust_document cached) roots (cr_trust clock) trust_sequence)) (\<lambda>publishers.
     and_then (with_context ''reverify cached Agent Package registry''
       (verify_registry (ce_registry E) roots (ct_registry_document cached) (cr_registry clock) registry_revision publishers)) (\<lambda>registry.
     and_then (parse_cache_timestamp E ''trust expiry'' (ct_trust_expires_at cached)) (\<lambda>trust_expires_at.
     and_then (parse_cache_timestamp E ''registry expiry'' (ct_registry_expires_at cached)) (\<lambda>registry_expires_at.
     and_then (parse_cache_timestamp E ''verification time'' (ct_verified_at cached)) (\<lambda>verified_at.
     and_then (parse_cache_timestamp E ''update time'' (ct_updated_at cached)) (\<lambda>updated_at.
     and_then (bail_if (ta_trust_sequence (publisher_audit publishers) \<noteq> trust_sequence
         \<or> ta_root_key_id (publisher_audit publishers) \<noteq> Some (ct_root_key_id cached)
         \<or> ta_expires_at (publisher_audit publishers) \<noteq> Some trust_expires_at
         \<or> vr_revision registry \<noteq> registry_revision \<or> vr_root_key_id registry \<noteq> ct_root_key_id cached
         \<or> vr_trust_bundle_sequence registry \<noteq> trust_sequence \<or> vr_expires_at registry \<noteq> registry_expires_at
         \<or> updated_at \<noteq> verified_at)
       (Bail ''Agent Package trust cache metadata does not match signed documents'')) (\<lambda>_.
     and_then (cache_audit_of (ct_root_key_id cached) publishers registry verified_at) (\<lambda>audit.
     Inr \<lparr>vc_audit = audit, vc_publishers = publishers, vc_registry = registry\<rparr>)))))))))))"

definition load_verified ::
  "cache_env \<Rightarrow> trusted_root_store \<Rightarrow> clock_readings \<Rightarrow> cached_trust_row option \<Rightarrow> host_error + verified_trust_cache option" where
  "load_verified E roots clock cache =
     (case cache of None \<Rightarrow> Inr None | Some cached \<Rightarrow> and_then (load_cached_row E roots clock cached) (\<lambda>v. Inr (Some v)))"

definition load_verified_audit ::
  "cache_env \<Rightarrow> trusted_root_store \<Rightarrow> clock_readings \<Rightarrow> cached_trust_row option \<Rightarrow> host_error + cache_audit option" where
  "load_verified_audit E roots clock cache =
     and_then (load_verified E roots clock cache) (\<lambda>v. Inr (map_option vc_audit v))"

definition load_verified_package ::
  "cache_env \<Rightarrow> trusted_root_store \<Rightarrow> clock_readings \<Rightarrow> cached_trust_row option \<Rightarrow> rstr
     \<Rightarrow> host_error + (remote_package \<times> trusted_publisher_store) option" where
  "load_verified_package E roots clock cache package_id =
     and_then (load_verified E roots clock cache) (\<lambda>v. Inr (case v of None \<Rightarrow> None
       | Some v \<Rightarrow> map_option (\<lambda>r. (r, vc_publishers v)) (find (\<lambda>r. rp_package_id r = package_id) (vr_packages (vc_registry v)))))"

record package_summary =
  sm_package_id :: rstr
  sm_agent_id :: rstr
  sm_version :: rstr
  sm_publisher :: rstr

record remote_catalog =
  rc_registry_revision :: nat
  rc_registry_expires_at :: int
  rc_packages :: "package_summary list"

definition load_verified_catalog ::
  "cache_env \<Rightarrow> trusted_root_store \<Rightarrow> clock_readings \<Rightarrow> cached_trust_row option \<Rightarrow> host_error + remote_catalog option" where
  "load_verified_catalog E roots clock cache =
     and_then (load_verified E roots clock cache) (\<lambda>v. Inr (map_option (\<lambda>v.
       \<lparr>rc_registry_revision = vr_revision (vc_registry v), rc_registry_expires_at = vr_expires_at (vc_registry v),
        rc_packages = map (\<lambda>r. \<lparr>sm_package_id = rp_package_id r, sm_agent_id = rp_agent_id r, sm_version = rp_version r,
           sm_publisher = rp_publisher r\<rparr>) (vr_packages (vc_registry v))\<rparr>) v))"

definition verifies_installed_signature ::
  "cache_env \<Rightarrow> trusted_root_store \<Rightarrow> clock_readings \<Rightarrow> cached_trust_row option \<Rightarrow> rstr \<Rightarrow> rstr \<Rightarrow> rstr \<Rightarrow> rstr \<Rightarrow> rstr
     \<Rightarrow> host_error + bool" where
  "verifies_installed_signature E roots clock cache package_id agent_id version publisher signature_key_id =
     and_then (load_verified E roots clock cache) (\<lambda>v. Inr (case v of None \<Rightarrow> False
       | Some v \<Rightarrow> (case find (\<lambda>r. rp_package_id r = package_id) (vr_packages (vc_registry v)) of None \<Rightarrow> False
         | Some r \<Rightarrow> (case publisher_get (vc_publishers v) signature_key_id of Inl _ \<Rightarrow> False
           | Inr key \<Rightarrow> rp_agent_id r = agent_id \<and> rp_version r = version \<and> rp_publisher r = publisher
               \<and> pk_publisher key = publisher))))"

section \<open>What a successful acceptance did\<close>

lemma positive_u64_eq [result_simps]: "positive_u64 field v = Inr n \<longleftrightarrow> 0 < v \<and> n = nat v"
  by (auto simp: positive_u64_def)

lemma positive_i64_eq [result_simps]: "positive_i64 field n = Inr v \<longleftrightarrow> 0 < n \<and> n < 2 ^ 63 \<and> v = int n"
  by (auto simp: positive_i64_def)

lemma parse_cache_timestamp_eq [result_simps]:
  "parse_cache_timestamp E field t = Inr i \<longleftrightarrow> rfc3339 (ce_trust E) t = Some i"
  by (simp add: parse_cache_timestamp_def ok_or_eq_Inr)

lemma minimum_version_eq:
  "minimum_version field current = Inr m \<longleftrightarrow> (case current of None \<Rightarrow> m = 1 | Some v \<Rightarrow> 0 < v \<and> m = nat v)"
  by (auto simp: minimum_version_def positive_u64_eq split: option.splits)

lemma reject_cached_equivocation_ok:
  assumes "reject_cached_equivocation (Some row) sequence t revision r = Inr u"
  shows "sequence = nat (ct_trust_sequence row) \<Longrightarrow> t = ct_trust_document_sha256 row"
    "revision = nat (ct_registry_revision row) \<Longrightarrow> r = ct_registry_document_sha256 row"
  using assms by (auto simp: reject_cached_equivocation_def reject_equivocation_def result_simps)

text \<open>The documents that are verified, whatever was sent.\<close>

definition sent_or_cached :: "rstr option \<Rightarrow> (cached_trust_row \<Rightarrow> rstr) \<Rightarrow> cached_trust_row option \<Rightarrow> rstr option" where
  "sent_or_cached sent column current = (case sent of Some d \<Rightarrow> Some d | None \<Rightarrow> map_option column current)"

lemma accept_cases:
  obtains (refused) e where "accept_conditional_documents E roots td rd clock current = (Inl e, current)"
  | (accepted) trust registry publishers reg root expires verified_at row
    where "sent_or_cached td ct_trust_document current = Some trust" "sent_or_cached rd ct_registry_document current = Some registry"
      "verify_cache_update E roots current trust registry clock = Inr (publishers, reg, root, expires)"
      "verified_write_time E clock = Inr verified_at"
      "cache_row E trust registry (publishers, reg, root, expires) verified_at = Inr row"
      "accept_conditional_documents E roots td rd clock current
        = (cache_audit_of root publishers reg verified_at, Some row)"
proof (cases "and_then (ok_or (sent_or_cached td ct_trust_document current)
          (Bail ''Agent Package publisher trust cache is unavailable'')) (\<lambda>trust.
        and_then (ok_or (sent_or_cached rd ct_registry_document current)
          (Bail ''Agent Package registry cache is unavailable'')) (\<lambda>registry.
        and_then (verify_cache_update E roots current trust registry clock) (\<lambda>v.
        and_then (verified_write_time E clock) (\<lambda>verified_at.
        and_then (cache_row E trust registry v verified_at) (\<lambda>row. Inr (row, v, verified_at))))))")
  case (Inl e)
  then show ?thesis using refused by (simp add: accept_conditional_documents_def sent_or_cached_def)
next
  case (Inr x)
  moreover obtain row publishers reg root expires verified_at where "x = (row, (publishers, reg, root, expires), verified_at)"
    by (metis surj_pair)
  ultimately obtain trust registry where w: "sent_or_cached td ct_trust_document current = Some trust"
      "sent_or_cached rd ct_registry_document current = Some registry"
      "verify_cache_update E roots current trust registry clock = Inr (publishers, reg, root, expires)"
      "verified_write_time E clock = Inr verified_at"
      "cache_row E trust registry (publishers, reg, root, expires) verified_at = Inr row"
    by (auto simp: and_then_eq_Inr ok_or_eq_Inr)
  show ?thesis
    by (rule accepted [OF w]) (use w in \<open>simp add: accept_conditional_documents_def ok_or_def flip: sent_or_cached_def\<close>)
qed

lemma from_signed_bundle_eq:
  "from_signed_bundle E document roots clock m = Inr s
    \<longleftrightarrow> (\<exists>now. clock = Inr now \<and> from_signed_bundle_at E document roots now m = Inr s)"
  by (auto simp: from_signed_bundle_def fresh_time_def result_simps)

lemma verify_registry_eq:
  "verify_registry E roots document clock m publishers = Inr r
    \<longleftrightarrow> (\<exists>now. clock = Inr now \<and> verify_registry_at E roots document now m publishers = Inr r)"
  by (auto simp: verify_registry_def fresh_time_def result_simps)

lemma verify_cache_update_ok:
  assumes "verify_cache_update E roots current trust registry clock = Inr (publishers, reg, root, expires)"
  shows "\<exists>m. from_signed_bundle (ce_trust E) trust roots (cr_trust clock) m = Inr publishers
      \<and> (\<forall>row. current = Some row \<longrightarrow> 0 < ct_trust_sequence row \<and> m = nat (ct_trust_sequence row))"
    "\<exists>m. verify_registry (ce_registry E) roots registry (cr_registry clock) m publishers = Inr reg
      \<and> (\<forall>row. current = Some row \<longrightarrow> 0 < ct_registry_revision row \<and> m = nat (ct_registry_revision row))"
    "tp_root_key_id publishers = Some root" "tp_expires_at publishers = Some expires"
    "vr_root_key_id reg = root" "vr_trust_bundle_sequence reg = tp_trust_sequence publishers"
    "reject_cached_equivocation current (tp_trust_sequence publishers) (document_sha256 E trust) (vr_revision reg)
      (document_sha256 E registry) = Inr ()"
  using assms
  by (auto simp: verify_cache_update_def and_then_eq_Inr ok_or_eq_Inr bail_if_eq_Inr map_err_eq_Inr minimum_version_eq
      publisher_audit_def split: option.splits)

lemma cache_row_ok:
  assumes "cache_row E trust registry (publishers, reg, root, expires) verified_at = Inr row"
  shows "ct_root_key_id row = root" "ct_trust_sequence row = int (tp_trust_sequence publishers)" "ct_trust_document row = trust"
    "ct_trust_document_sha256 row = document_sha256 E trust" "ct_trust_expires_at row = format_auto E expires"
    "ct_registry_revision row = int (vr_revision reg)" "ct_registry_document row = registry"
    "ct_registry_document_sha256 row = document_sha256 E registry"
    "ct_registry_expires_at row = format_auto E (vr_expires_at reg)"
    "ct_verified_at row = format_secs E verified_at" "ct_updated_at row = format_secs E verified_at"
    "0 < tp_trust_sequence publishers" "0 < vr_revision reg"
  using assms by (auto simp: cache_row_def result_simps publisher_audit_def)

lemma bundle_sequence:
  "from_signed_bundle E document roots clock m = Inr s \<Longrightarrow> m \<le> tp_trust_sequence s"
  using from_signed_bundle_ok by (fastforce simp: from_signed_bundle_eq)

lemma verify_registry_at_ok:
  assumes "verify_registry_at E roots document now m publishers = Inr r"
  obtains s g e where "parse_snapshot E document = Some s"
    "validate_snapshot E s now m (publisher_audit publishers) publishers = Inr (g, e)"
    "verify_signed_payload (re_trust E) roots (rs_root_key_id s) (rs_signature s)
       (str_bytes (registry_signature_payload E s)) ''Agent Package registry snapshot'' = Inr ()"
    "r = \<lparr>vr_revision = rs_revision s, vr_trust_bundle_sequence = rs_trust_bundle_sequence s,
          vr_root_key_id = rs_root_key_id s, vr_generated_at = g, vr_expires_at = e, vr_packages = rs_packages s\<rparr>"
  using assms by (auto simp: verify_registry_at_def result_simps)

lemma registry_revision:
  "verify_registry E roots document clock m publishers = Inr r \<Longrightarrow> m \<le> vr_revision r"
  by (auto simp: verify_registry_eq elim!: verify_registry_at_ok dest: validate_snapshot_ok(3))

section \<open>Runs\<close>

text \<open>Any number of updates, with any documents and any readings of the clock.\<close>

inductive cache_runs :: "cache_env \<Rightarrow> trusted_root_store \<Rightarrow> cached_trust_row option \<Rightarrow> cached_trust_row option \<Rightarrow> bool"
  for E roots where
  cache_start: "cache_runs E roots c c"
| cache_update: "cache_runs E roots c d
    \<Longrightarrow> cache_runs E roots c (snd (accept_conditional_documents E roots trust registry clock d))"

definition row_not_older :: "cached_trust_row \<Rightarrow> cached_trust_row \<Rightarrow> bool" where
  "row_not_older r s \<longleftrightarrow> ct_trust_sequence r \<le> ct_trust_sequence s \<and> ct_registry_revision r \<le> ct_registry_revision s
     \<and> (ct_trust_sequence r = ct_trust_sequence s \<longrightarrow> ct_trust_document_sha256 r = ct_trust_document_sha256 s)
     \<and> (ct_registry_revision r = ct_registry_revision s \<longrightarrow> ct_registry_document_sha256 r = ct_registry_document_sha256 s)"

lemma row_not_older_refl [simp]: "row_not_older r r"
  by (simp add: row_not_older_def)

lemma row_not_older_trans: "row_not_older r s \<Longrightarrow> row_not_older s t \<Longrightarrow> row_not_older r t"
  by (auto simp: row_not_older_def)

lemma cache_update_not_older:
  assumes "snd (accept_conditional_documents E roots td rd clock (Some row)) = c"
  shows "\<exists>row'. c = Some row' \<and> row_not_older row row'"
proof (cases rule: accept_cases [of E roots td rd clock "Some row"])
  case (accepted trust registry publishers reg root expires verified_at row')
  note v = verify_cache_update_ok [OF accepted(3)] and r = cache_row_ok [OF accepted(5)]
  have "nat (ct_trust_sequence row) \<le> tp_trust_sequence publishers" "nat (ct_registry_revision row) \<le> vr_revision reg"
    "0 < ct_trust_sequence row" "0 < ct_registry_revision row"
    using v(1,2) bundle_sequence registry_revision by auto
  then have "row_not_older row row'"
    using reject_cached_equivocation_ok [OF v(7)] by (auto simp: row_not_older_def r nat_le_iff)
  then show ?thesis using accepted(6) assms by auto
qed (use assms in auto)

section \<open>Reading back\<close>

lemma from_signed_bundle_unique:
  assumes "from_signed_bundle E document roots clock m = Inr s" "from_signed_bundle E document roots clock' m' = Inr s'"
  shows "s = s'"
  using assms by (auto simp: from_signed_bundle_eq from_signed_bundle_at_def result_simps parse_trust_timestamp_def)

lemma verify_registry_unique:
  assumes "verify_registry E roots document clock m p = Inr r" "verify_registry E roots document clock' m' p' = Inr r'"
  shows "r = r'"
proof -
  from assms obtain now now' where a: "verify_registry_at E roots document now m p = Inr r"
      "verify_registry_at E roots document now' m' p' = Inr r'" by (auto simp: verify_registry_eq)
  obtain s g e where s: "parse_snapshot E document = Some s" "validate_snapshot E s now m (publisher_audit p) p = Inr (g, e)"
      "r = \<lparr>vr_revision = rs_revision s, vr_trust_bundle_sequence = rs_trust_bundle_sequence s,
          vr_root_key_id = rs_root_key_id s, vr_generated_at = g, vr_expires_at = e, vr_packages = rs_packages s\<rparr>"
    by (rule verify_registry_at_ok [OF a(1)])
  obtain t g' e' where t: "parse_snapshot E document = Some t" "validate_snapshot E t now' m' (publisher_audit p') p' = Inr (g', e')"
      "r' = \<lparr>vr_revision = rs_revision t, vr_trust_bundle_sequence = rs_trust_bundle_sequence t,
          vr_root_key_id = rs_root_key_id t, vr_generated_at = g', vr_expires_at = e', vr_packages = rs_packages t\<rparr>"
    by (rule verify_registry_at_ok [OF a(2)])
  show ?thesis using s t validate_snapshot_ok(7,8) [OF s(2)] validate_snapshot_ok(7,8) [OF t(2)] by simp
qed

lemma validate_bundle_raise: "validate_bundle E b now m = Inr u \<Longrightarrow> m' \<le> tb_sequence b \<Longrightarrow> validate_bundle E b now m' = Inr ()"
  by (auto simp: validate_bundle_def result_simps)

lemma from_signed_bundle_raise:
  assumes "from_signed_bundle E document roots clock m = Inr s"
  shows "from_signed_bundle E document roots clock (tp_trust_sequence s) = Inr s"
  using assms validate_bundle_raise
  by (auto simp: from_signed_bundle_eq from_signed_bundle_at_def result_simps) fastforce?

lemma verify_registry_raise:
  assumes "verify_registry E roots document clock m p = Inr r"
  shows "verify_registry E roots document clock (vr_revision r) p = Inr r"
proof -
  have "validate_snapshot E s now (rs_revision s) a p = Inr x" if "validate_snapshot E s now m a p = Inr x" for s now a x
    using that by (auto simp: validate_snapshot_def and_then_eq_Inr bail_if_eq_Inr)
  then show ?thesis using assms by (fastforce simp: verify_registry_eq verify_registry_at_def result_simps)
qed

text \<open>
  Documented behaviour of \<open>chrono\<close>: a time of the years 0 to 9999 in UTC is printed so that the
  parser reads it again, with all digits or cut to whole seconds.
\<close>

definition four_digit_year :: "int \<Rightarrow> bool" where
  "four_digit_year t \<longleftrightarrow> - 62167219200000000000 \<le> t \<and> t < 253402300800000000000"

definition timestamps_reread :: "cache_env \<Rightarrow> bool" where
  "timestamps_reread E \<longleftrightarrow> (\<forall>t. four_digit_year t \<longrightarrow> rfc3339 (ce_trust E) (format_auto E t) = Some t
     \<and> rfc3339 (ce_trust E) (format_secs E t) = Some (t - t mod 1000000000))"

lemma four_digit_seconds: "four_digit_year t \<Longrightarrow> four_digit_year (t - t mod 1000000000)"
proof -
  assume t: "four_digit_year t"
  have "- 62167219200000000000 div 1000000000 \<le> t div 1000000000"
    using t unfolding four_digit_year_def by (intro zdiv_mono1) simp_all
  then have "- 62167219200000000000 \<le> t - t mod 1000000000" by (simp add: minus_mod_eq_mult_div)
  moreover have "t - t mod 1000000000 \<le> t" by simp
  ultimately show ?thesis using t unfolding four_digit_year_def by linarith
qed

section \<open>Properties\<close>

text \<open>C16: the cache never goes back and never serves two contents for one version. Over every run of
  updates with any documents and clock readings the trust sequence and the registry revision never
  fall, and while one of them stays the same the digest of its document does; a cached row is never lost.\<close>

theorem cache_never_goes_back:
  assumes "cache_runs E roots (Some r) c"
  shows "\<exists>s. c = Some s \<and> ct_trust_sequence r \<le> ct_trust_sequence s \<and> ct_registry_revision r \<le> ct_registry_revision s
    \<and> (ct_trust_sequence r = ct_trust_sequence s \<longrightarrow> ct_trust_document_sha256 r = ct_trust_document_sha256 s)
    \<and> (ct_registry_revision r = ct_registry_revision s \<longrightarrow> ct_registry_document_sha256 r = ct_registry_document_sha256 s)"
proof -
  have "\<exists>s. c = Some s \<and> row_not_older r s"
    using assms
  proof (induction "Some r" c rule: cache_runs.induct)
    case (cache_update d trust registry clock)
    then obtain s where s: "d = Some s" "row_not_older r s" by auto
    from cache_update_not_older [of E roots trust registry clock s] show ?case
      using s row_not_older_trans by blast
  qed auto
  then show ?thesis by (auto simp: row_not_older_def)
qed

text \<open>what was accepted is what is read. After an update the cache, read at the times of its
  verification, gives the audit the update answered, and the catalog of the registry it verified; at
  any other time it gives the same or an error, never something else.\<close>

theorem accepted_documents_load:
  assumes "accept_conditional_documents E roots trust registry clock current = (Inr audit, cache)"
    and "timestamps_reread E" "four_digit_year (pa_trust_expires_at audit)" "four_digit_year (pa_registry_expires_at audit)"
    and "cr_write clock = Inr now" "four_digit_year now"
  shows "load_verified_audit E roots clock cache = Inr (Some audit)
    \<and> (\<forall>clock' x. load_verified_audit E roots clock' cache = Inr x \<longrightarrow> x = Some audit)"
proof (cases rule: accept_cases [of E roots trust registry clock current])
  case (accepted td rd publishers reg root expires verified_at row)
  note v = verify_cache_update_ok [OF accepted(3)] and r = cache_row_ok [OF accepted(5)]
  have c: "cache = Some row" and a: "audit = \<lparr>pa_root_key_id = root, pa_trust_sequence = tp_trust_sequence publishers,
      pa_trust_expires_at = expires, pa_registry_revision = vr_revision reg, pa_registry_expires_at = vr_expires_at reg,
      pa_package_count = length (vr_packages reg), pa_verified_at = verified_at\<rparr>"
    using accepted(6) assms(1) v(4) by (auto simp: cache_audit_of_def publisher_audit_def)
  have w: "verified_at = now - now mod 1000000000" and w4: "four_digit_year verified_at"
    using accepted(4) assms(2,5,6) four_digit_seconds
    by (auto simp: verified_write_time_def fresh_time_def result_simps timestamps_reread_def)
  have t: "rfc3339 (ce_trust E) (format_auto E expires) = Some expires"
      "rfc3339 (ce_trust E) (format_auto E (vr_expires_at reg)) = Some (vr_expires_at reg)"
      "rfc3339 (ce_trust E) (format_secs E verified_at) = Some verified_at"
    using assms(2-4) w4 w by (auto simp: timestamps_reread_def a mod_diff_left_eq)
  have p: "from_signed_bundle (ce_trust E) td roots (cr_trust clock) (tp_trust_sequence publishers) = Inr publishers"
    using v(1) from_signed_bundle_raise by blast
  have g: "verify_registry (ce_registry E) roots rd (cr_registry clock) (vr_revision reg) publishers = Inr reg"
    using v(2) verify_registry_raise by blast
  have "load_cached_row E roots clock row = Inr \<lparr>vc_audit = audit, vc_publishers = publishers, vc_registry = reg\<rparr>"
    unfolding load_cached_row_def using r(12,13) v(3-6)
    by (simp add: r positive_u64_def parse_cache_timestamp_def t p g publisher_audit_def cache_audit_of_def a)
  moreover have "vc_audit x = audit" if "load_cached_row E roots clock' row = Inr x" for clock' x
  proof -
    from that obtain p' g' where "from_signed_bundle (ce_trust E) td roots (cr_trust clock') (tp_trust_sequence publishers) = Inr p'"
        "verify_registry (ce_registry E) roots rd (cr_registry clock') (vr_revision reg) p' = Inr g'"
        "cache_audit_of root p' g' verified_at = Inr (vc_audit x)"
      by (auto simp: load_cached_row_def result_simps r t)
    then have "p' = publishers" "g' = reg" "cache_audit_of root p' g' verified_at = Inr (vc_audit x)"
      using from_signed_bundle_unique p verify_registry_unique g by blast+
    then show ?thesis by (simp add: cache_audit_of_def publisher_audit_def v(4) a)
  qed
  ultimately show ?thesis by (auto simp: c load_verified_audit_def load_verified_def and_then_eq_Inr)
qed (use assms(1) in simp)

text \<open>C15: an installed package counts as signed only while its signer is trusted. A positive answer means
  that, at the clock readings of the call, a root signed a registry that lists the package with this
  agent, version and publisher, and the same root a bundle in which the key of the installation is an
  active key of the publisher.\<close>

theorem installed_signature_needs_active_key:
  assumes "verifies_installed_signature E roots clock cache package_id agent_id version publisher key_id = Inr True"
  shows "\<exists>row b s key now now'. cache = Some row \<and> cr_trust clock = Inr now \<and> cr_registry clock = Inr now'
    \<and> parse_bundle (ce_trust E) (ct_trust_document row) = Some b \<and> verify_bundle (ce_trust E) roots b = Inr ()
    \<and> tb_sequence b = nat (ct_trust_sequence row) \<and> validate_bundle (ce_trust E) b now (tb_sequence b) = Inr ()
    \<and> active_key (ce_trust E) (tb_keys b) key_id key \<and> pk_publisher key = publisher
    \<and> parse_snapshot (ce_registry E) (ct_registry_document row) = Some s \<and> rs_revision s = nat (ct_registry_revision row)
    \<and> rs_root_key_id s = tb_root_key_id b
    \<and> verify_signed_payload (ce_trust E) roots (rs_root_key_id s) (rs_signature s)
        (str_bytes (registry_signature_payload (ce_registry E) s)) ''Agent Package registry snapshot'' = Inr ()
    \<and> (\<exists>e. rfc3339 (ce_trust E) (rs_expires_at s) = Some e \<and> now' < e)
    \<and> (\<exists>p \<in> set (rs_packages s). rp_package_id p = package_id \<and> rp_agent_id p = agent_id \<and> rp_version p = version
        \<and> rp_publisher p = publisher)"
proof -
  from assms obtain vo where vo: "load_verified E roots clock cache = Inr vo" "vo \<noteq> None"
    by (auto simp: verifies_installed_signature_def and_then_eq_Inr split: option.splits)
  then obtain v where v: "vo = Some v" by auto
  with vo(1) obtain row where row: "cache = Some row" "load_cached_row E roots clock row = Inr v"
    by (auto simp: load_verified_def and_then_eq_Inr split: option.splits)
  from assms obtain p key where p: "find (\<lambda>r. rp_package_id r = package_id) (vr_packages (vc_registry v)) = Some p"
      "publisher_get (vc_publishers v) key_id = Inr key"
      "rp_agent_id p = agent_id" "rp_version p = version" "rp_publisher p = publisher" "pk_publisher key = publisher"
    by (auto simp: verifies_installed_signature_def vo(1) v split: option.splits sum.splits)
  note c = row p
  from c(2) have l: "from_signed_bundle (ce_trust E) (ct_trust_document row) roots (cr_trust clock) (nat (ct_trust_sequence row))
        = Inr (vc_publishers v)"
      "verify_registry (ce_registry E) roots (ct_registry_document row) (cr_registry clock) (nat (ct_registry_revision row))
        (vc_publishers v) = Inr (vc_registry v)"
      "tp_trust_sequence (vc_publishers v) = nat (ct_trust_sequence row)"
      "tp_root_key_id (vc_publishers v) = Some (ct_root_key_id row)" "vr_root_key_id (vc_registry v) = ct_root_key_id row"
      "vr_revision (vc_registry v) = nat (ct_registry_revision row)"
    by (auto simp: load_cached_row_def result_simps publisher_audit_def)
  from l(1) obtain now where now: "cr_trust clock = Inr now"
      "from_signed_bundle_at (ce_trust E) (ct_trust_document row) roots now (nat (ct_trust_sequence row)) = Inr (vc_publishers v)"
    by (auto simp: from_signed_bundle_eq)
  from l(2) obtain now' where now': "cr_registry clock = Inr now'"
      "verify_registry_at (ce_registry E) roots (ct_registry_document row) now' (nat (ct_registry_revision row))
        (vc_publishers v) = Inr (vc_registry v)"
    by (auto simp: verify_registry_eq)
  from now'(2) obtain s g e where s: "parse_snapshot (ce_registry E) (ct_registry_document row) = Some s"
      "validate_snapshot (ce_registry E) s now' (nat (ct_registry_revision row)) (publisher_audit (vc_publishers v)) (vc_publishers v) = Inr (g, e)"
      "verify_signed_payload (ce_trust E) roots (rs_root_key_id s) (rs_signature s)
        (str_bytes (registry_signature_payload (ce_registry E) s)) ''Agent Package registry snapshot'' = Inr ()"
      "vc_registry v = \<lparr>vr_revision = rs_revision s, vr_trust_bundle_sequence = rs_trust_bundle_sequence s,
          vr_root_key_id = rs_root_key_id s, vr_generated_at = g, vr_expires_at = e, vr_packages = rs_packages s\<rparr>"
    by (rule verify_registry_at_ok)
  obtain b where b: "parse_bundle (ce_trust E) (ct_trust_document row) = Some b" "verify_bundle (ce_trust E) roots b = Inr ()"
      "validate_bundle (ce_trust E) b now (nat (ct_trust_sequence row)) = Inr ()"
      "tp_trust_sequence (vc_publishers v) = tb_sequence b" "tp_root_key_id (vc_publishers v) = Some (tb_root_key_id b)"
    using now(2) by (auto simp: from_signed_bundle_at_def result_simps dest!: sym [of _ "vc_publishers v"])
  have k: "active_key (ce_trust E) (tb_keys b) key_id key"
    using from_signed_bundle_ok [OF now(2)] b(1) c(4) by auto
  have "p \<in> set (rs_packages s)" "rp_package_id p = package_id" using find_SomeD [OF c(3)] s(4) by auto
  then show ?thesis
    using c(1,5-8) now(1) now'(1) b s(1,3,4) k l(3-6) validate_snapshot_ok(8,10) [OF s(2)]
    by (intro exI [of _ row] exI [of _ b] exI [of _ s] exI [of _ key] exI [of _ now] exI [of _ now']) auto
qed

section \<open>Applied to a concrete cache\<close>

text \<open>Times are printed as a sign and a number.\<close>

definition sample_format :: "int \<Rightarrow> rstr" where
  "sample_format t = [if 0 \<le> t then 1 else 0, nat \<bar>t\<bar>]"

definition sample_reread_env :: trust_env where
  "sample_reread_env = sample_trust_env\<lparr>rfc3339 := \<lambda>t. case t of [c] \<Rightarrow> if c = 48 then Some 0 else if c = 57 then Some 9 else None
     | [s, n] \<Rightarrow> Some (if s = 1 then int n else - int n) | _ \<Rightarrow> None\<rparr>"

definition sample_cache_env :: cache_env where
  "sample_cache_env = \<lparr>ce_registry = sample_registry_env sample_reread_env,
     format_secs = (\<lambda>t. sample_format (t - t mod 1000000000)), format_auto = sample_format\<rparr>"

definition sample_clock :: clock_readings where
  "sample_clock = \<lparr>cr_trust = Inr 5, cr_registry = Inr 5, cr_write = Inr 5\<rparr>"

definition sample_verified_registry :: verified_registry where
  "sample_verified_registry = \<lparr>vr_revision = 4, vr_trust_bundle_sequence = 3, vr_root_key_id = [114], vr_generated_at = 0,
     vr_expires_at = 9, vr_packages = [sample_record]\<rparr>"

definition sample_cached_row :: cached_trust_row where
  "sample_cached_row = \<lparr>ct_root_key_id = [114], ct_trust_sequence = 3, ct_trust_document = [98],
     ct_trust_document_sha256 = document_sha256 sample_cache_env [98], ct_trust_expires_at = sample_format 9,
     ct_registry_revision = 4, ct_registry_document = [115],
     ct_registry_document_sha256 = document_sha256 sample_cache_env [115], ct_registry_expires_at = sample_format 9,
     ct_verified_at = sample_format 0, ct_updated_at = sample_format 0\<rparr>"

lemma sample_cache_simps [simp]:
  "ce_registry sample_cache_env = sample_registry_env sample_reread_env" "format_auto sample_cache_env = sample_format"
  "format_secs sample_cache_env t = sample_format (t - t mod 1000000000)" "rfc3339 sample_reread_env (sample_format t) = Some t"
  "cr_trust sample_clock = Inr 5" "cr_registry sample_clock = Inr 5" "cr_write sample_clock = Inr 5"
  by (auto simp: sample_cache_env_def sample_reread_env_def sample_format_def sample_clock_def)

lemma sample_times_reread: "timestamps_reread sample_cache_env"
  by (simp add: timestamps_reread_def)

lemma sample_trust_verified:
  assumes "m \<le> 3"
  shows "from_signed_bundle sample_reread_env [98] sample_roots (Inr 5) m = Inr sample_publisher_store"
proof -
  have "verify_bundle sample_reread_env sample_roots sample_bundle = Inr ()"
    by (simp add: verify_bundle_def verify_signed_payload_def sample_roots_def sample_bundle_def sample_reread_env_def
        sample_trust_env_def decode_canonical_base64_def)
  moreover have "parse_bundle sample_reread_env [98] = Some sample_bundle"
    by (simp add: sample_reread_env_def sample_trust_env_def)
  moreover have "validate_bundle sample_reread_env sample_bundle 5 m = Inr ()"
    using assms by (simp add: validate_bundle_def sample_bundle_def sample_key_record_def sample_reread_env_def sample_trust_env_def
      validate_trust_identifier_def parse_trust_timestamp_def decode_public_key_def decode_canonical_base64_def
      trust_identifier_byte_def is_ascii_lowercase_def is_ascii_digit_def str_len_def str_bytes_def utf8_encode_def
      less_list_code)
  ultimately show ?thesis
    by (simp add: from_signed_bundle_def fresh_time_def from_signed_bundle_at_def str_len_def str_bytes_def utf8_encode_def)
      (simp add: sample_bundle_def sample_key_record_def decode_public_key_def decode_canonical_base64_def
        sample_reread_env_def sample_trust_env_def parse_trust_timestamp_def hash_insert_def sample_publisher_store_def)
qed

lemma sample_registry_verified:
  assumes "m \<le> 4"
  shows "verify_registry (sample_registry_env sample_reread_env) sample_roots [115] (Inr 5) m sample_publisher_store
    = Inr sample_verified_registry"
proof -
  have "verify_signed_payload sample_reread_env sample_roots [114] [65] payload subject = Inr ()" for payload subject
    by (simp add: verify_signed_payload_def sample_roots_def sample_reread_env_def sample_trust_env_def decode_canonical_base64_def)
  moreover have "validate_snapshot (sample_registry_env sample_reread_env) sample_snapshot 5 m
      (publisher_audit sample_publisher_store) sample_publisher_store = Inr (0, 9)"
    by (rule sample_snapshot_valid) (use assms in \<open>simp_all add: sample_reread_env_def\<close>)
  ultimately show ?thesis
    by (simp add: verify_registry_def fresh_time_def verify_registry_at_def str_len_def str_bytes_def utf8_encode_def)
      (simp add: sample_snapshot_def sample_verified_registry_def)
qed

lemma sample_cache_accepts:
  "accept_conditional_documents sample_cache_env sample_roots (Some [98]) (Some [115]) sample_clock None
    = (Inr \<lparr>pa_root_key_id = [114], pa_trust_sequence = 3, pa_trust_expires_at = 9, pa_registry_revision = 4,
        pa_registry_expires_at = 9, pa_package_count = 1, pa_verified_at = 0\<rparr>, Some sample_cached_row)"
  using sample_trust_verified [of 1] sample_registry_verified [of 1]
  by (simp add: accept_conditional_documents_def verify_cache_update_def minimum_version_def reject_cached_equivocation_def
      verified_write_time_def fresh_time_def parse_cache_timestamp_def cache_row_def positive_i64_def publisher_audit_def
      cache_audit_of_def flip: One_nat_def)
    (simp add: sample_publisher_store_def sample_verified_registry_def sample_cached_row_def cache_audit_of_def publisher_audit_def)

lemma sample_cache_loads: "load_cached_row sample_cache_env sample_roots sample_clock sample_cached_row
  = Inr \<lparr>vc_audit = \<lparr>pa_root_key_id = [114], pa_trust_sequence = 3, pa_trust_expires_at = 9, pa_registry_revision = 4,
        pa_registry_expires_at = 9, pa_package_count = 1, pa_verified_at = 0\<rparr>,
      vc_publishers = sample_publisher_store, vc_registry = sample_verified_registry\<rparr>"
  using sample_trust_verified [of 3] sample_registry_verified [of 4]
  by (simp add: load_cached_row_def sample_cached_row_def positive_u64_def parse_cache_timestamp_def publisher_audit_def
      cache_audit_of_def)
    (simp add: sample_publisher_store_def sample_verified_registry_def)

lemma cache_never_goes_back_witness:
  "\<exists>s. snd (accept_conditional_documents sample_cache_env sample_roots (Some [99]) None sample_clock (Some sample_cached_row)) = Some s
    \<and> 3 \<le> ct_trust_sequence s"
  using cache_never_goes_back [OF cache_update [OF cache_start [of sample_cache_env sample_roots "Some sample_cached_row"]],
      of "Some [99]" None sample_clock] by (auto simp: sample_cached_row_def)

lemma accepted_documents_load_witness:
  "\<exists>audit. load_verified_audit sample_cache_env sample_roots sample_clock (Some sample_cached_row) = Inr (Some audit)"
  using accepted_documents_load [OF sample_cache_accepts sample_times_reread] by (simp add: four_digit_year_def)

lemma installed_signature_needs_active_key_witness:
  "\<exists>b. parse_bundle sample_reread_env [98] = Some b \<and> tb_sequence b = 3"
proof -
  have p: "rp_package_id sample_record = [112]" "rp_agent_id sample_record = [97]" "rp_version sample_record = [49]"
    "rp_publisher sample_record = [112]" by (simp_all add: sample_record_def)
  have "verifies_installed_signature sample_cache_env sample_roots sample_clock (Some sample_cached_row) [112] [97] [49] [112] [107]
    = Inr True"
    by (simp add: verifies_installed_signature_def load_verified_def sample_cache_loads sample_verified_registry_def p publisher_get_def
        sample_publisher_store_def)
  from installed_signature_needs_active_key [OF this] show ?thesis by (auto simp: sample_cached_row_def)
qed

end
