(* ===== verification/Package_Fetcher.thy ===== *)
theory Package_Fetcher
  imports Trust_Cache Utf8
begin

text \<open>
  \<open>package_registry_fetcher.rs\<close>: the refresh of the trust cache over HTTP. The server is a function
  from requests to responses and may answer anything; the fetcher bounds what it reads, remembers
  the validators of the documents for conditional requests and falls back to the cached documents.
\<close>

section \<open>HTTP\<close>

text \<open>
  A response as the code looks at it: the URL it came from, the status, four headers and the body as
  the chunks its stream yields. A header value is the text \<open>HeaderValue::to_str\<close> gives, or
  \<open>None\<close> when that fails.
\<close>

datatype header_name = ContentType | ContentLength | EntityTag | LastModified

record http_response =
  hr_url :: rstr
  hr_status :: nat
  hr_header :: "header_name \<Rightarrow> rstr option option"
  hr_body :: "body_item list"

record http_request =
  hq_url :: rstr
  hq_accept :: rstr
  hq_if_none_match :: "rstr option"
  hq_if_modified_since :: "rstr option"

type_synonym http_server = "http_request \<Rightarrow> http_response option"

definition eq_ignore_ascii_case :: "rstr \<Rightarrow> rstr \<Rightarrow> bool" where
  "eq_ignore_ascii_case a b \<longleftrightarrow> to_ascii_lowercase a = to_ascii_lowercase b"

definition mime_of :: "rstr \<Rightarrow> rstr" where
  "mime_of value = trim (hd (str_split 59 value))"

definition header_text :: "http_response \<Rightarrow> header_name \<Rightarrow> rstr option" where
  "header_text r name = (case hr_header r name of Some (Some t) \<Rightarrow> Some t | _ \<Rightarrow> None)"

definition declared_length :: "http_response \<Rightarrow> nat option" where
  "declared_length r = (case header_text r ContentLength of None \<Rightarrow> None | Some t \<Rightarrow> parse_unsigned (2 ^ 64) t)"

section \<open>Outcomes\<close>

datatype fetch_outcome = FetchDisabled | FetchReady | FetchUpdated | FetchNotModified | FetchLastKnownGood | FetchUnavailable

datatype fetch_reason =
    NotConfigured | FetchAccessRequired | NoVerifiedCache | TransportFailed | HttpStatusRejected | ResponseTooLarge
  | InvalidResponse | UntrustedResponse | CacheRejected | ValidatorPersistenceFailed

record fetch_status =
  fe_outcome :: fetch_outcome
  fe_reason :: "fetch_reason option"
  fe_cache :: "cache_audit option"
  fe_checked_at :: "int option"
  fe_conditional_request :: bool

definition fetch_status_disabled :: fetch_status where
  "fetch_status_disabled = \<lparr>fe_outcome = FetchDisabled, fe_reason = Some NotConfigured, fe_cache = None,
     fe_checked_at = None, fe_conditional_request = False\<rparr>"

definition fetch_status_unavailable :: "fetch_reason \<Rightarrow> int option \<Rightarrow> fetch_status" where
  "fetch_status_unavailable reason checked_at = \<lparr>fe_outcome = FetchUnavailable, fe_reason = Some reason, fe_cache = None,
     fe_checked_at = checked_at, fe_conditional_request = False\<rparr>"

record discovered_catalog =
  dc_outcome :: fetch_outcome
  dc_reason :: "fetch_reason option"
  dc_registry_revision :: "nat option"
  dc_registry_expires_at :: "int option"
  dc_packages :: "package_summary list"

definition discovered_disabled :: discovered_catalog where
  "discovered_disabled = \<lparr>dc_outcome = FetchDisabled, dc_reason = Some NotConfigured, dc_registry_revision = None,
     dc_registry_expires_at = None, dc_packages = []\<rparr>"

definition discovered_unavailable :: "fetch_reason \<Rightarrow> discovered_catalog" where
  "discovered_unavailable reason = \<lparr>dc_outcome = FetchUnavailable, dc_reason = Some reason, dc_registry_revision = None,
     dc_registry_expires_at = None, dc_packages = []\<rparr>"

section \<open>Endpoints\<close>

text \<open>The host of a URL that points to the own machine.\<close>

definition loopback_host :: "rstr option \<Rightarrow> bool" where
  "loopback_host h \<longleftrightarrow> h = Some (lit ''127.0.0.1'') \<or> h = Some (lit ''::1'')"

definition validate_endpoint :: "parsed_url \<Rightarrow> bool \<Rightarrow> bool" where
  "validate_endpoint url allow_loopback_http \<longleftrightarrow>
     (url_scheme url = lit ''https'' \<or> allow_loopback_http \<and> url_scheme url = lit ''http'' \<and> loopback_host (url_host_str url))
     \<and> url_host_str url \<noteq> None \<and> url_username url = [] \<and> url_password url = None \<and> url_query url = None
     \<and> url_fragment url = None"

record metadata_endpoints =
  me_trust_bundle :: parsed_url
  me_registry :: parsed_url

definition production_package_origin :: rstr where
  "production_package_origin = lit ''https://packages.agentmesh360.com''"

definition production_endpoints :: "(rstr \<Rightarrow> parsed_url option) \<Rightarrow> rstr \<Rightarrow> rstr \<Rightarrow> metadata_endpoints option" where
  "production_endpoints url_parser trust registry =
     (case (url_parser trust, url_parser registry) of
        (Some t, Some r) \<Rightarrow>
          if validate_endpoint t False \<and> validate_endpoint r False
            \<and> url_origin t = production_package_origin \<and> url_origin r = production_package_origin
          then Some \<lparr>me_trust_bundle = t, me_registry = r\<rparr> else None
      | _ \<Rightarrow> None)"

section \<open>Validators\<close>

record document_validators =
  dv_etag :: "rstr option"
  dv_last_modified :: "rstr option"

definition dv_has_any :: "document_validators \<Rightarrow> bool" where
  "dv_has_any v \<longleftrightarrow> dv_etag v \<noteq> None \<or> dv_last_modified v \<noteq> None"

definition no_validators :: document_validators where
  "no_validators = \<lparr>dv_etag = None, dv_last_modified = None\<rparr>"

definition some_if_any :: "document_validators \<Rightarrow> document_validators option" where
  "some_if_any v = (if dv_has_any v then Some v else None)"

record fetch_validators =
  fv_trust :: "document_validators option"
  fv_registry :: "document_validators option"

definition fv_has_any :: "fetch_validators \<Rightarrow> bool" where
  "fv_has_any v \<longleftrightarrow> (case fv_trust v of None \<Rightarrow> False | Some d \<Rightarrow> dv_has_any d)
     \<or> (case fv_registry v of None \<Rightarrow> False | Some d \<Rightarrow> dv_has_any d)"

definition validator_limit :: nat where
  "validator_limit = 256"

definition etag_byte :: "nat \<Rightarrow> bool" where
  "etag_byte b \<longleftrightarrow> b = 33 \<or> 35 \<le> b \<and> b \<le> 126 \<or> b \<ge> 0x80"

definition validate_etag :: "rstr \<Rightarrow> bool" where
  "validate_etag value =
     (let tag = (case strip_prefix value (lit ''W/'') of Some r \<Rightarrow> r | None \<Rightarrow> value)
      in str_len tag \<ge> 2 \<and> str_len tag \<le> validator_limit \<and> hd tag = 34 \<and> last tag = 34
         \<and> list_all etag_byte (str_bytes (butlast (tl tag))))"

definition validate_last_modified :: "rstr \<Rightarrow> bool" where
  "validate_last_modified value \<longleftrightarrow> value \<noteq> [] \<and> str_len value \<le> validator_limit
     \<and> list_all (\<lambda>b. 33 \<le> b \<and> b \<le> 126 \<or> b = 32) (str_bytes value)"

definition optional_header :: "http_response \<Rightarrow> header_name \<Rightarrow> (rstr \<Rightarrow> bool) \<Rightarrow> fetch_reason + rstr option" where
  "optional_header r name validate =
     (case hr_header r name of
        None \<Rightarrow> Inr None
      | Some None \<Rightarrow> Inl InvalidResponse
      | Some (Some value) \<Rightarrow> if validate value then Inr (Some value) else Inl InvalidResponse)"

definition response_validators :: "http_response \<Rightarrow> fetch_reason + document_validators option" where
  "response_validators r =
     and_then (optional_header r EntityTag validate_etag) (\<lambda>etag.
     and_then (optional_header r LastModified validate_last_modified) (\<lambda>last_modified.
     Inr (some_if_any \<lparr>dv_etag = etag, dv_last_modified = last_modified\<rparr>)))"

section \<open>Fetching a document\<close>

record fetched_document =
  fd_document :: "rstr option"
  fd_validators :: "document_validators option"
  fd_not_modified :: bool

definition validators_after :: "fetched_document \<Rightarrow> document_validators option \<Rightarrow> document_validators option" where
  "validators_after d previous =
     (if \<not> fd_not_modified d then (case fd_validators d of None \<Rightarrow> None | Some v \<Rightarrow> some_if_any v)
      else
        let merged = (case previous of None \<Rightarrow> no_validators | Some v \<Rightarrow> v) in
        some_if_any (case fd_validators d of None \<Rightarrow> merged
          | Some v \<Rightarrow> \<lparr>dv_etag = (if dv_etag v \<noteq> None then dv_etag v else dv_etag merged),
              dv_last_modified = (if dv_last_modified v \<noteq> None then dv_last_modified v else dv_last_modified merged)\<rparr>))"

fun read_body :: "nat \<Rightarrow> nat list \<Rightarrow> body_item list \<Rightarrow> fetch_reason + nat list" where
  "read_body limit body [] = Inr body"
| "read_body limit body (BodyFailed # items) = Inl TransportFailed"
| "read_body limit body (BodyChunk c # items) =
     (if min (2 ^ 64 - 1) (length body + length c) > limit then Inl ResponseTooLarge
      else read_body limit (body @ c) items)"

text \<open>\<open>valid_header\<close> is \<open>HeaderValue::from_str\<close>, which refuses control characters.\<close>

definition header_of_validator :: "(rstr \<Rightarrow> bool) \<Rightarrow> rstr option \<Rightarrow> fetch_reason + rstr option" where
  "header_of_validator valid_header v =
     (case v of None \<Rightarrow> Inr None | Some t \<Rightarrow> if valid_header t then Inr (Some t) else Inl CacheRejected)"

definition fetch_request ::
  "(rstr \<Rightarrow> bool) \<Rightarrow> parsed_url \<Rightarrow> document_validators option \<Rightarrow> fetch_reason + http_request" where
  "fetch_request valid_header endpoint validators =
     (let v = (case validators of None \<Rightarrow> no_validators | Some v \<Rightarrow> v) in
      and_then (header_of_validator valid_header (dv_etag v)) (\<lambda>etag.
      and_then (header_of_validator valid_header (dv_last_modified v)) (\<lambda>last_modified.
      Inr \<lparr>hq_url = url_as_str endpoint, hq_accept = lit ''application/json'', hq_if_none_match = etag,
           hq_if_modified_since = last_modified\<rparr>)))"

definition read_response :: "parsed_url \<Rightarrow> nat \<Rightarrow> http_response \<Rightarrow> fetch_reason + fetched_document" where
  "read_response endpoint limit r =
     and_then (bail_if (hr_url r \<noteq> url_as_str endpoint) HttpStatusRejected) (\<lambda>_.
     and_then (response_validators r) (\<lambda>v.
     if hr_status r = 304 then Inr \<lparr>fd_document = None, fd_validators = v, fd_not_modified = True\<rparr>
     else
     and_then (bail_if (hr_status r \<noteq> 200) HttpStatusRejected) (\<lambda>_.
     and_then (bail_if (\<not> (case header_text r ContentType of None \<Rightarrow> False
         | Some t \<Rightarrow> eq_ignore_ascii_case (mime_of t) (lit ''application/json''))) InvalidResponse) (\<lambda>_.
     and_then (bail_if (case declared_length r of None \<Rightarrow> False | Some n \<Rightarrow> n > limit) ResponseTooLarge) (\<lambda>_.
     and_then (read_body limit [] (hr_body r)) (\<lambda>body.
     and_then (ok_or (from_utf8 body) InvalidResponse) (\<lambda>document.
     and_then (bail_if (document = []) InvalidResponse) (\<lambda>_.
     Inr \<lparr>fd_document = Some document, fd_validators = v, fd_not_modified = False\<rparr>))))))))"

definition fetch_document ::
  "(rstr \<Rightarrow> bool) \<Rightarrow> http_server \<Rightarrow> parsed_url \<Rightarrow> document_validators option \<Rightarrow> nat \<Rightarrow> fetch_reason + fetched_document" where
  "fetch_document valid_header server endpoint validators limit =
     and_then (fetch_request valid_header endpoint validators) (\<lambda>request.
     and_then (ok_or (server request) TransportFailed) (\<lambda>r.
     read_response endpoint limit r))"

section \<open>The stored validators\<close>

record fetch_row =
  fw_trust_etag :: "rstr option"
  fw_trust_last_modified :: "rstr option"
  fw_registry_etag :: "rstr option"
  fw_registry_last_modified :: "rstr option"
  fw_checked_at :: rstr

definition validators_from_storage :: "rstr option \<Rightarrow> rstr option \<Rightarrow> host_error + document_validators option" where
  "validators_from_storage etag last_modified =
     and_then (bail_if ((case etag of None \<Rightarrow> False | Some t \<Rightarrow> \<not> validate_etag t)
         \<or> (case last_modified of None \<Rightarrow> False | Some t \<Rightarrow> \<not> validate_last_modified t))
       (Bail ''Agent Package conditional validator cache is invalid'')) (\<lambda>_.
     Inr (some_if_any \<lparr>dv_etag = etag, dv_last_modified = last_modified\<rparr>))"

definition load_validators :: "fetch_row option \<Rightarrow> host_error + fetch_validators" where
  "load_validators row =
     (case row of None \<Rightarrow> Inr \<lparr>fv_trust = None, fv_registry = None\<rparr>
      | Some r \<Rightarrow>
        and_then (validators_from_storage (fw_trust_etag r) (fw_trust_last_modified r)) (\<lambda>trust.
        and_then (validators_from_storage (fw_registry_etag r) (fw_registry_last_modified r)) (\<lambda>registry.
        Inr \<lparr>fv_trust = trust, fv_registry = registry\<rparr>)))"

definition validators_row :: "cache_env \<Rightarrow> fetch_validators \<Rightarrow> int \<Rightarrow> fetch_row" where
  "validators_row E v checked_at =
     \<lparr>fw_trust_etag = Option.bind (fv_trust v) dv_etag, fw_trust_last_modified = Option.bind (fv_trust v) dv_last_modified,
      fw_registry_etag = Option.bind (fv_registry v) dv_etag,
      fw_registry_last_modified = Option.bind (fv_registry v) dv_last_modified,
      fw_checked_at = format_secs E checked_at\<rparr>"

section \<open>The fetcher\<close>

record fetcher =
  ft_cache_env :: cache_env
  ft_roots :: trusted_root_store
  ft_valid_header :: "rstr \<Rightarrow> bool"
  ft_endpoints :: "metadata_endpoints option"

record fetch_state =
  fs_cache :: "cached_trust_row option"
  fs_row :: "fetch_row option"

text \<open>What one refresh meets: the server at its two requests, the clock at its readings, and whether the
  validators can be written.\<close>

record refresh_world =
  rw_trust_server :: http_server
  rw_registry_server :: http_server
  rw_start :: "trusted_time_error + int"
  rw_accept :: clock_readings
  rw_fallback :: clock_readings
  rw_persists :: bool

definition fetcher_status :: "fetcher \<Rightarrow> clock_readings \<Rightarrow> fetch_state \<Rightarrow> fetch_status" where
  "fetcher_status F clock st =
     (if ft_endpoints F = None then fetch_status_disabled
      else case load_verified_audit (ft_cache_env F) (ft_roots F) clock (fs_cache st) of
        Inr (Some cache) \<Rightarrow> \<lparr>fe_outcome = FetchReady, fe_reason = None, fe_cache = Some cache, fe_checked_at = None,
          fe_conditional_request = False\<rparr>
      | Inr None \<Rightarrow> fetch_status_unavailable NoVerifiedCache None
      | Inl _ \<Rightarrow> fetch_status_unavailable CacheRejected None)"

text \<open>\<open>may_enter\<close> is what \<open>require\<close> of the client's gate answers.\<close>

definition fetcher_discover :: "fetcher \<Rightarrow> access_error + unit \<Rightarrow> clock_readings \<Rightarrow> fetch_state \<Rightarrow> discovered_catalog" where
  "fetcher_discover F may_enter clock st =
     (case may_enter of
        Inl _ \<Rightarrow> discovered_unavailable FetchAccessRequired
      | Inr _ \<Rightarrow>
        (case load_verified_catalog (ft_cache_env F) (ft_roots F) clock (fs_cache st) of
           Inr (Some catalog) \<Rightarrow> \<lparr>dc_outcome = FetchReady, dc_reason = None,
             dc_registry_revision = Some (rc_registry_revision catalog),
             dc_registry_expires_at = Some (rc_registry_expires_at catalog), dc_packages = rc_packages catalog\<rparr>
         | Inr None \<Rightarrow> if ft_endpoints F = None then discovered_disabled else discovered_unavailable NoVerifiedCache
         | Inl _ \<Rightarrow> discovered_unavailable CacheRejected))"

definition fetcher_verifies_installed ::
  "fetcher \<Rightarrow> clock_readings \<Rightarrow> fetch_state \<Rightarrow> rstr \<Rightarrow> rstr \<Rightarrow> rstr \<Rightarrow> rstr \<Rightarrow> rstr \<Rightarrow> bool" where
  "fetcher_verifies_installed F clock st package_id agent_id version publisher signature_key_id =
     (case verifies_installed_signature (ft_cache_env F) (ft_roots F) clock (fs_cache st)
        package_id agent_id version publisher signature_key_id of Inl _ \<Rightarrow> False | Inr b \<Rightarrow> b)"

definition fetch_fallback ::
  "fetcher \<Rightarrow> clock_readings \<Rightarrow> fetch_state \<Rightarrow> fetch_reason \<Rightarrow> int \<Rightarrow> bool \<Rightarrow> fetch_status" where
  "fetch_fallback F clock st reason checked_at conditional =
     (let cache = (case load_verified_audit (ft_cache_env F) (ft_roots F) clock (fs_cache st) of Inl _ \<Rightarrow> None | Inr a \<Rightarrow> a) in
      \<lparr>fe_outcome = (if cache \<noteq> None then FetchLastKnownGood else FetchUnavailable), fe_reason = Some reason,
       fe_cache = cache, fe_checked_at = Some checked_at, fe_conditional_request = conditional\<rparr>)"

definition fetch_both ::
  "fetcher \<Rightarrow> refresh_world \<Rightarrow> metadata_endpoints \<Rightarrow> fetch_validators \<Rightarrow> fetch_reason + fetched_document \<times> fetched_document" where
  "fetch_both F w endpoints validators =
     and_then (fetch_document (ft_valid_header F) (rw_trust_server w) (me_trust_bundle endpoints) (fv_trust validators)
       (64 * 1024)) (\<lambda>trust.
     and_then (fetch_document (ft_valid_header F) (rw_registry_server w) (me_registry endpoints) (fv_registry validators)
       (1024 * 1024)) (\<lambda>registry.
     Inr (trust, registry)))"

definition refresh_with ::
  "fetcher \<Rightarrow> refresh_world \<Rightarrow> metadata_endpoints \<Rightarrow> int \<Rightarrow> fetch_validators \<Rightarrow> fetch_state \<Rightarrow> fetch_status \<times> fetch_state" where
  "refresh_with F w endpoints checked_at validators st =
     (let conditional = fv_has_any validators in
      case fetch_both F w endpoints validators of
        Inl reason \<Rightarrow> (fetch_fallback F (rw_fallback w) st reason checked_at conditional, st)
      | Inr (trust, registry) \<Rightarrow>
        (case accept_conditional_documents (ft_cache_env F) (ft_roots F) (fd_document trust) (fd_document registry)
           (rw_accept w) (fs_cache st) of
           (Inl _, cache) \<Rightarrow>
             (fetch_fallback F (rw_fallback w) (st\<lparr>fs_cache := cache\<rparr>) UntrustedResponse checked_at conditional,
              st\<lparr>fs_cache := cache\<rparr>)
         | (Inr audit, cache) \<Rightarrow>
           let next_validators = \<lparr>fv_trust = validators_after trust (fv_trust validators),
                 fv_registry = validators_after registry (fv_registry validators)\<rparr> in
           if \<not> rw_persists w then
             (\<lparr>fe_outcome = FetchLastKnownGood, fe_reason = Some ValidatorPersistenceFailed, fe_cache = Some audit,
               fe_checked_at = Some checked_at, fe_conditional_request = conditional\<rparr>, st\<lparr>fs_cache := cache\<rparr>)
           else
             (\<lparr>fe_outcome = (if fd_not_modified trust \<and> fd_not_modified registry then FetchNotModified else FetchUpdated),
               fe_reason = None, fe_cache = Some audit, fe_checked_at = Some checked_at, fe_conditional_request = conditional\<rparr>,
              \<lparr>fs_cache = cache, fs_row = Some (validators_row (ft_cache_env F) next_validators (pa_verified_at audit))\<rparr>)))"

definition fetcher_refresh :: "fetcher \<Rightarrow> refresh_world \<Rightarrow> fetch_state \<Rightarrow> fetch_status \<times> fetch_state" where
  "fetcher_refresh F w st =
     (case rw_start w of
        Inl _ \<Rightarrow> (fetch_status_unavailable FetchAccessRequired None, st)
      | Inr checked_at \<Rightarrow>
        (case ft_endpoints F of
           None \<Rightarrow> (fetch_status_disabled, st)
         | Some endpoints \<Rightarrow>
           (case load_validators (fs_row st) of
              Inl _ \<Rightarrow> (fetch_fallback F (rw_fallback w) st CacheRejected checked_at False, st)
            | Inr validators \<Rightarrow> refresh_with F w endpoints checked_at validators st)))"

section \<open>Bodies\<close>

lemma read_body_ok:
  assumes "read_body limit body items = Inr b" "limit < 2 ^ 64 - 1" "length body \<le> limit"
  shows "length b \<le> limit \<and> (\<exists>chunks. items = map BodyChunk chunks \<and> b = body @ concat chunks)"
  using assms
proof (induction limit body items rule: read_body.induct)
  case (3 limit body c items)
  then have c: "length (body @ c) \<le> limit" and r: "read_body limit (body @ c) items = Inr b" by (auto split: if_splits)
  then obtain chunks where "length b \<le> limit" "items = map BodyChunk chunks" "b = (body @ c) @ concat chunks"
    using "3.IH" [OF _ r "3.prems"(2) c] c by (auto simp: not_less)
  then show ?case by (intro conjI exI [of _ "c # chunks"]) simp_all
qed auto

lemma read_body_cut:
  assumes "limit < 2 ^ 64 - 1" "limit < length body + length (concat chunks)" "length body \<le> limit"
  shows "read_body limit body (map BodyChunk chunks @ items) = Inl ResponseTooLarge"
  using assms by (induction chunks arbitrary: body) auto

lemma optional_header_ok:
  "optional_header r name validate = Inr v \<Longrightarrow> (case v of None \<Rightarrow> hr_header r name = None | Some t \<Rightarrow> hr_header r name = Some (Some t) \<and> validate t)"
  by (auto simp: optional_header_def split: option.splits if_splits)

lemma read_response_cases:
  assumes "read_response endpoint limit r = Inr d"
  obtains (not_modified) v where "hr_url r = url_as_str endpoint" "response_validators r = Inr v" "hr_status r = 304"
      "d = \<lparr>fd_document = None, fd_validators = v, fd_not_modified = True\<rparr>"
    | (body) v body t where "hr_url r = url_as_str endpoint" "response_validators r = Inr v" "hr_status r = 200"
      "read_body limit [] (hr_body r) = Inr body" "from_utf8 body = Some t" "t \<noteq> []"
      "d = \<lparr>fd_document = Some t, fd_validators = v, fd_not_modified = False\<rparr>"
  using assms by (fastforce simp: read_response_def result_simps split: if_splits)

text \<open>A request can fail in six ways.\<close>

lemma read_body_error: "read_body limit body items = Inl e \<Longrightarrow> e \<in> {TransportFailed, ResponseTooLarge}"
  by (induction limit body items rule: read_body.induct) (auto split: if_splits)

lemma response_validators_error: "response_validators r = Inl e \<Longrightarrow> e = InvalidResponse"
  by (auto simp: response_validators_def optional_header_def and_then_def split: sum.splits option.splits if_splits)

lemma read_response_error:
  "read_response endpoint limit r = Inl e \<Longrightarrow> e \<in> {TransportFailed, HttpStatusRejected, ResponseTooLarge, InvalidResponse}"
  using read_body_error response_validators_error
  by (fastforce simp: read_response_def and_then_def bail_if_def ok_or_def split: sum.splits if_splits option.splits)

lemma fetch_document_error:
  assumes "fetch_document valid server endpoint v limit = Inl e"
  shows "e \<in> {TransportFailed, HttpStatusRejected, ResponseTooLarge, InvalidResponse, CacheRejected}"
proof (cases "fetch_request valid endpoint v")
  case (Inl x)
  then show ?thesis using assms
    by (auto simp: fetch_document_def fetch_request_def header_of_validator_def Let_def and_then_def split: sum.splits option.splits if_splits)
next
  case (Inr q)
  then show ?thesis using assms read_response_error by (cases "server q") (auto simp: fetch_document_def ok_or_def)
qed

section \<open>One refresh\<close>

lemma accept_refused:
  "accept_conditional_documents E roots td rd clock c = (Inl e, c') \<Longrightarrow> c' = c"
  by (cases rule: accept_cases [of E roots td rd clock c])
    (auto simp: cache_audit_of_def publisher_audit_def dest: verify_cache_update_ok(4))

text \<open>
  How a refresh ends: it does not get to the server, or a request or the verification fails, or the
  documents are accepted.
\<close>

lemma refresh_cases:
  assumes "fetcher_refresh F w st = (status, st')"
  obtains (early) "st' = st" "fe_cache status = None" "fe_reason status \<in> {Some FetchAccessRequired, Some NotConfigured}"
    | (fell_back) reason checked_at conditional where "st' = st"
      "status = fetch_fallback F (rw_fallback w) st reason checked_at conditional" "reason \<noteq> ValidatorPersistenceFailed"
    | (accepted) endpoints validators trust registry audit checked_at where "ft_endpoints F = Some endpoints"
      "rw_start w = Inr checked_at"
      "load_validators (fs_row st) = Inr validators" "fetch_both F w endpoints validators = Inr (trust, registry)"
      "accept_conditional_documents (ft_cache_env F) (ft_roots F) (fd_document trust) (fd_document registry) (rw_accept w) (fs_cache st)
        = (Inr audit, fs_cache st')"
      "fe_cache status = Some audit" "fe_conditional_request status = fv_has_any validators"
      "fe_reason status = (if rw_persists w then None else Some ValidatorPersistenceFailed)"
      "fs_row st' = (if rw_persists w then Some (validators_row (ft_cache_env F)
          \<lparr>fv_trust = validators_after trust (fv_trust validators), fv_registry = validators_after registry (fv_registry validators)\<rparr>
          (pa_verified_at audit)) else fs_row st)"
proof -
  have no_persist: "reason \<noteq> ValidatorPersistenceFailed" if "fetch_both F w e v = Inl reason" for e v reason
    using that by (auto simp: fetch_both_def and_then_eq_Inl dest!: fetch_document_error)
  show thesis
  proof (cases "rw_start w")
    case (Inl e)
    then show ?thesis using assms by (intro early) (auto simp: fetcher_refresh_def fetch_status_unavailable_def)
  next
    case (Inr checked_at)
    note start = this
    show ?thesis
    proof (cases "ft_endpoints F")
      case None
      then show ?thesis using assms start by (intro early) (auto simp: fetcher_refresh_def fetch_status_disabled_def)
    next
      case (Some endpoints)
      note ep = this
      show ?thesis
      proof (cases "load_validators (fs_row st)")
        case (Inl e)
        then show ?thesis using assms start ep by (intro fell_back [of CacheRejected checked_at False]) (auto simp: fetcher_refresh_def)
      next
        case (Inr validators)
        with assms start ep have r: "refresh_with F w endpoints checked_at validators st = (status, st')"
          by (simp add: fetcher_refresh_def)
        show ?thesis
        proof (cases "fetch_both F w endpoints validators")
          case (Inl reason)
          then show ?thesis using r no_persist by (intro fell_back [of reason checked_at]) (auto simp: refresh_with_def Let_def)
        next
          case (Inr d)
          obtain trust registry where d: "d = (trust, registry)" by (cases d)
          obtain out cache where a: "accept_conditional_documents (ft_cache_env F) (ft_roots F) (fd_document trust) (fd_document registry)
              (rw_accept w) (fs_cache st) = (out, cache)" by (cases "accept_conditional_documents (ft_cache_env F) (ft_roots F) (fd_document trust)
                (fd_document registry) (rw_accept w) (fs_cache st)")
          show ?thesis
          proof (cases out)
            case (Inl e)
            with accept_refused a have "cache = fs_cache st" by blast
            then show ?thesis using r Inr d a Inl
              by (intro fell_back [of UntrustedResponse checked_at]) (auto simp: refresh_with_def Let_def)
          next
            case ok: (Inr audit)
            show ?thesis
              by (rule accepted [OF ep start \<open>load_validators (fs_row st) = Inr validators\<close> Inr [unfolded d], of audit])
                (use r a in \<open>auto simp: refresh_with_def Let_def Inr d ok split: if_splits\<close>)
          qed
        qed
      qed
    qed
  qed
qed

section \<open>Honest servers\<close>

text \<open>
  A server that has one current document: it answers 304 to the tag of the current document and the
  document otherwise. No two of the documents \<open>D\<close> it ever has share a tag, as RFC 9110 asks of strong
  validators.
\<close>

definition honest_server :: "(rstr \<Rightarrow> rstr) \<Rightarrow> parsed_url \<Rightarrow> rstr \<Rightarrow> http_server \<Rightarrow> bool" where
  "honest_server etag endpoint document server \<longleftrightarrow> (\<forall>q. \<exists>r. server q = Some r \<and> hr_url r = url_as_str endpoint
     \<and> hr_header r EntityTag = Some (Some (etag document)) \<and> hr_header r LastModified = None
     \<and> (if hq_if_none_match q = Some (etag document) then hr_status r = 304
        else hr_status r = 200 \<and> hr_header r ContentType = Some (Some (lit ''application/json''))
          \<and> hr_header r ContentLength = None \<and> hr_body r = [BodyChunk (str_bytes document)]))"

definition good_tags :: "(rstr \<Rightarrow> bool) \<Rightarrow> rstr set \<Rightarrow> (rstr \<Rightarrow> rstr) \<Rightarrow> bool" where
  "good_tags valid_header D etag \<longleftrightarrow> inj_on etag D \<and> (\<forall>d \<in> D. valid_header (etag d) \<and> validate_etag (etag d))"

definition fetchable :: "nat \<Rightarrow> rstr \<Rightarrow> bool" where
  "fetchable limit d \<longleftrightarrow> d \<noteq> [] \<and> rust_text d \<and> str_len d \<le> limit"

text \<open>Stored tags are the tags of the cached documents.\<close>

definition tags_match :: "rstr set \<Rightarrow> (rstr \<Rightarrow> rstr) \<Rightarrow> fetch_state \<Rightarrow> bool" where
  "tags_match D etag st \<longleftrightarrow> (\<forall>row. fs_row st = Some row \<longrightarrow> fw_trust_last_modified row = None \<and> fw_registry_last_modified row = None
     \<and> (\<forall>e. fw_trust_etag row = Some e \<longrightarrow> (\<exists>c. fs_cache st = Some c \<and> ct_trust_document c \<in> D \<and> e = etag (ct_trust_document c)))
     \<and> (\<forall>e. fw_registry_etag row = Some e \<longrightarrow> (\<exists>c. fs_cache st = Some c \<and> ct_registry_document c \<in> D \<and> e = etag (ct_registry_document c))))"

lemma json_mime: "eq_ignore_ascii_case (mime_of (lit ''application/json'')) (lit ''application/json'')"
  by (simp add: mime_of_def eq_ignore_ascii_case_def lit_def str_split_no_sep trim_def trim_start_def trim_end_def is_whitespace_def)

lemma honest_fetch:
  assumes "honest_server etag endpoint d server" "good_tags valid D etag" "fetchable limit d" "d \<in> D" "limit < 2 ^ 64 - 1"
    and "v = None \<or> v = Some \<lparr>dv_etag = Some e, dv_last_modified = None\<rparr> \<and> valid e"
  shows "fetch_document valid server endpoint v limit
    = Inr \<lparr>fd_document = (if v = Some \<lparr>dv_etag = Some (etag d), dv_last_modified = None\<rparr> then None else Some d),
        fd_validators = Some \<lparr>dv_etag = Some (etag d), dv_last_modified = None\<rparr>,
        fd_not_modified = (v = Some \<lparr>dv_etag = Some (etag d), dv_last_modified = None\<rparr>)\<rparr>"
proof -
  let ?t = "case v of None \<Rightarrow> None | Some v \<Rightarrow> dv_etag v"
  obtain q where q: "fetch_request valid endpoint v = Inr q" "hq_if_none_match q = ?t"
    using assms(6) by (auto simp: fetch_request_def header_of_validator_def no_validators_def Let_def)
  from assms(1) obtain r where r: "server q = Some r" "hr_url r = url_as_str endpoint"
      "hr_header r EntityTag = Some (Some (etag d))" "hr_header r LastModified = None"
      "if ?t = Some (etag d) then hr_status r = 304
        else hr_status r = 200 \<and> hr_header r ContentType = Some (Some (lit ''application/json''))
          \<and> hr_header r ContentLength = None \<and> hr_body r = [BodyChunk (str_bytes d)]"
    unfolding honest_server_def q(2) [symmetric] by blast
  have v: "response_validators r = Inr (Some \<lparr>dv_etag = Some (etag d), dv_last_modified = None\<rparr>)"
    using assms(2,4) by (simp add: response_validators_def optional_header_def r(3,4) some_if_any_def dv_has_any_def good_tags_def)
  have t: "?t = Some (etag d) \<longleftrightarrow> v = Some \<lparr>dv_etag = Some (etag d), dv_last_modified = None\<rparr>"
    using assms(6) by auto
  have b: "from_utf8 (str_bytes d) = Some d" "length (str_bytes d) \<le> limit" "d \<noteq> []"
    using assms(3) from_utf8_str_bytes by (auto simp: fetchable_def str_len_def)
  show ?thesis
  proof (cases "?t = Some (etag d)")
    case True
    then show ?thesis using t r q v by (simp add: fetch_document_def read_response_def)
  next
    case False
    then show ?thesis using t r q v b json_mime assms(5)
      by (simp add: fetch_document_def read_response_def header_text_def declared_length_def not_less)
  qed
qed

lemma accept_effective:
  "accept_conditional_documents E roots td rd clock c
    = accept_conditional_documents E roots (sent_or_cached td ct_trust_document c) (sent_or_cached rd ct_registry_document c) clock c"
  by (cases td; cases rd; cases c) (simp_all add: accept_conditional_documents_def sent_or_cached_def)

lemma accept_caches:
  assumes "accept_conditional_documents E roots td rd clock c = (Inr a, c')"
  shows "\<exists>row. c' = Some row \<and> Some (ct_trust_document row) = sent_or_cached td ct_trust_document c
    \<and> Some (ct_registry_document row) = sent_or_cached rd ct_registry_document c"
  using assms by (cases rule: accept_cases [of E roots td rd clock c]) (auto dest: cache_row_ok(3,7))

lemma fetch_both_Inr:
  "fetch_both F w ep v = Inr (t, r) \<longleftrightarrow>
     fetch_document (ft_valid_header F) (rw_trust_server w) (me_trust_bundle ep) (fv_trust v) (64 * 1024) = Inr t
     \<and> fetch_document (ft_valid_header F) (rw_registry_server w) (me_registry ep) (fv_registry v) (1024 * 1024) = Inr r"
  by (auto simp: fetch_both_def and_then_eq_Inr)

text \<open>The tag a document is asked for with is the one of the cached document, when there is one.\<close>

definition tag_of_cached :: "rstr set \<Rightarrow> (rstr \<Rightarrow> rstr) \<Rightarrow> (cached_trust_row \<Rightarrow> rstr) \<Rightarrow> cached_trust_row option \<Rightarrow> document_validators option \<Rightarrow> bool" where
  "tag_of_cached D etag column c v \<longleftrightarrow> v = None
     \<or> (\<exists>row. c = Some row \<and> column row \<in> D \<and> v = Some \<lparr>dv_etag = Some (etag (column row)), dv_last_modified = None\<rparr>)"

lemma tags_match_load:
  assumes "tags_match D etag st" "good_tags valid D etag"
  shows "\<exists>v. load_validators (fs_row st) = Inr v \<and> tag_of_cached D etag ct_trust_document (fs_cache st) (fv_trust v)
    \<and> tag_of_cached D etag ct_registry_document (fs_cache st) (fv_registry v)"
proof (cases "fs_row st")
  case (Some row)
  have s: "\<exists>v. validators_from_storage e None = Inr v \<and> tag_of_cached D etag column (fs_cache st) v"
    if "\<forall>x. e = Some x \<longrightarrow> (\<exists>c. fs_cache st = Some c \<and> column c \<in> D \<and> x = etag (column c))" for e column
    using that assms(2) by (cases e) (auto simp: validators_from_storage_def some_if_any_def dv_has_any_def good_tags_def tag_of_cached_def)
  have "fw_trust_last_modified row = None" "fw_registry_last_modified row = None"
    and t: "\<forall>e. fw_trust_etag row = Some e \<longrightarrow> (\<exists>c. fs_cache st = Some c \<and> ct_trust_document c \<in> D \<and> e = etag (ct_trust_document c))"
    and r: "\<forall>e. fw_registry_etag row = Some e \<longrightarrow> (\<exists>c. fs_cache st = Some c \<and> ct_registry_document c \<in> D \<and> e = etag (ct_registry_document c))"
    using assms(1) Some unfolding tags_match_def by blast+
  then show ?thesis using s [OF t] s [OF r] Some by (auto simp: load_validators_def)
qed (simp add: load_validators_def tag_of_cached_def)

lemma honest_conditional_fetch:
  assumes "honest_server etag endpoint d server" "good_tags valid D etag" "fetchable limit d" "d \<in> D" "limit < 2 ^ 64 - 1"
    and "tag_of_cached D etag column c v"
  shows "\<exists>f. fetch_document valid server endpoint v limit = Inr f \<and> sent_or_cached (fd_document f) column c = Some d
    \<and> validators_after f v = Some \<lparr>dv_etag = Some (etag d), dv_last_modified = None\<rparr>"
proof -
  obtain e where v: "v = None \<or> v = Some \<lparr>dv_etag = Some e, dv_last_modified = None\<rparr> \<and> valid e"
    using assms(2,6) by (auto simp: tag_of_cached_def good_tags_def)
  have "sent_or_cached None column c = Some d" if "v = Some \<lparr>dv_etag = Some (etag d), dv_last_modified = None\<rparr>"
    using that assms(2,4,6) by (auto simp: tag_of_cached_def good_tags_def sent_or_cached_def dest: inj_onD)
  then show ?thesis
    using honest_fetch [OF assms(1-5) v]
    by (auto simp: validators_after_def some_if_any_def dv_has_any_def sent_or_cached_def)
qed

lemma honest_refresh:
  assumes "ft_endpoints F = Some ep" "good_tags (ft_valid_header F) D etag"
    and "honest_server etag (me_trust_bundle ep) t (rw_trust_server w)" "fetchable (64 * 1024) t" "t \<in> D"
    and "honest_server etag (me_registry ep) r (rw_registry_server w)" "fetchable (1024 * 1024) r" "r \<in> D"
    and "tags_match D etag st" "rw_start w = Inr now"
  obtains v trust registry where "load_validators (fs_row st) = Inr v" "fetch_both F w ep v = Inr (trust, registry)"
    "sent_or_cached (fd_document trust) ct_trust_document (fs_cache st) = Some t"
    "sent_or_cached (fd_document registry) ct_registry_document (fs_cache st) = Some r"
    "validators_after trust (fv_trust v) = Some \<lparr>dv_etag = Some (etag t), dv_last_modified = None\<rparr>"
    "validators_after registry (fv_registry v) = Some \<lparr>dv_etag = Some (etag r), dv_last_modified = None\<rparr>"
    "fetcher_refresh F w st = refresh_with F w ep now v st"
proof -
  obtain v where v: "load_validators (fs_row st) = Inr v" "tag_of_cached D etag ct_trust_document (fs_cache st) (fv_trust v)"
    "tag_of_cached D etag ct_registry_document (fs_cache st) (fv_registry v)"
    using tags_match_load [OF assms(9,2)] by blast
  obtain trust where trust: "fetch_document (ft_valid_header F) (rw_trust_server w) (me_trust_bundle ep) (fv_trust v) (64 * 1024) = Inr trust"
      "sent_or_cached (fd_document trust) ct_trust_document (fs_cache st) = Some t"
      "validators_after trust (fv_trust v) = Some \<lparr>dv_etag = Some (etag t), dv_last_modified = None\<rparr>"
    using honest_conditional_fetch [OF assms(3,2,4,5) _ v(2)] by auto
  obtain registry where registry: "fetch_document (ft_valid_header F) (rw_registry_server w) (me_registry ep) (fv_registry v) (1024 * 1024) = Inr registry"
      "sent_or_cached (fd_document registry) ct_registry_document (fs_cache st) = Some r"
      "validators_after registry (fv_registry v) = Some \<lparr>dv_etag = Some (etag r), dv_last_modified = None\<rparr>"
    using honest_conditional_fetch [OF assms(6,2,7,8) _ v(3)] by auto
  show ?thesis
    by (rule that [OF v(1) _ trust(2) registry(2) trust(3) registry(3)])
      (use trust(1) registry(1) assms(1,10) v(1) in \<open>simp_all add: fetch_both_Inr fetcher_refresh_def\<close>)
qed

section \<open>Properties\<close>

text \<open>C30: whatever the servers answer, a refresh hands out verified documents only. The cache stays as it is
  or becomes the row of two documents that were verified in this refresh; an audit in the answer is the
  one of these documents, or of the cache read again; and every refresh that reports a failure, the
  failure to store validators apart, has changed nothing.\<close>

theorem refresh_serves_verified_documents:
  assumes "fetcher_refresh F w st = (status, st')"
  shows "(fs_cache st' = fs_cache st \<or> (\<exists>td rd a. accept_conditional_documents (ft_cache_env F) (ft_roots F) td rd (rw_accept w) (fs_cache st)
        = (Inr a, fs_cache st') \<and> fe_cache status = Some a))
    \<and> (\<forall>a. fe_cache status = Some a \<longrightarrow>
        (\<exists>td rd. accept_conditional_documents (ft_cache_env F) (ft_roots F) td rd (rw_accept w) (fs_cache st) = (Inr a, fs_cache st'))
        \<or> st' = st \<and> load_verified_audit (ft_cache_env F) (ft_roots F) (rw_fallback w) (fs_cache st) = Inr (Some a))
    \<and> (fe_reason status \<notin> {None, Some ValidatorPersistenceFailed} \<longrightarrow> st' = st)"
  using assms
proof (cases rule: refresh_cases)
  case (fell_back reason checked_at conditional)
  then show ?thesis by (auto simp: fetch_fallback_def Let_def split: sum.splits)
qed auto

text \<open>a fetch stays within its bounds. A fetched document has between one and \<open>limit\<close> bytes, which are
  the bytes of a complete answer 200 of the server; and as soon as more than \<open>limit\<close> bytes of a body
  have arrived the fetch is over, with an error, whatever else the server would send.\<close>

theorem fetched_documents_are_bounded:
  assumes "limit < 2 ^ 64 - 1"
  shows "(\<forall>d t. fetch_document valid server endpoint v limit = Inr d \<and> fd_document d = Some t \<longrightarrow>
      1 \<le> str_len t \<and> str_len t \<le> limit \<and> (\<exists>q r chunks. server q = Some r \<and> hr_url r = url_as_str endpoint \<and> hr_status r = 200
        \<and> hr_body r = map BodyChunk chunks \<and> str_bytes t = concat chunks))
    \<and> (\<forall>(r :: http_response) chunks items. hr_body r = map BodyChunk chunks @ items \<and> limit < length (concat chunks) \<and> hr_status r = 200 \<longrightarrow>
      (\<exists>e. read_response endpoint limit r = Inl e))"
proof (intro conjI allI impI; elim conjE)
  fix d t
  assume f: "fetch_document valid server endpoint v limit = Inr d" "fd_document d = Some t"
  then obtain q r where r: "server q = Some r" "read_response endpoint limit r = Inr d"
    by (auto simp: fetch_document_def result_simps)
  from r(2) show "1 \<le> str_len t"
  proof (cases rule: read_response_cases)
    case (body v b u)
    then show ?thesis using f(2) by (cases u) (auto simp: str_len_def str_bytes_simps Suc_le_eq)
  qed (use f(2) in auto)
  from r(2) show "str_len t \<le> limit"
  proof (cases rule: read_response_cases)
    case (body v b u)
    then show ?thesis using f(2) read_body_ok [OF body(4) assms] str_bytes_from_utf8 by (fastforce simp: str_len_def)
  qed (use f(2) in auto)
  from r(2) show "\<exists>q r chunks. server q = Some r \<and> hr_url r = url_as_str endpoint \<and> hr_status r = 200
        \<and> hr_body r = map BodyChunk chunks \<and> str_bytes t = concat chunks"
  proof (cases rule: read_response_cases)
    case (body v b u)
    then show ?thesis using f(2) r(1) read_body_ok [OF body(4) assms] str_bytes_from_utf8 by fastforce
  qed (use f(2) in auto)
next
  fix r :: http_response and chunks items
  assume a: "hr_body r = map BodyChunk chunks @ items" "limit < length (concat chunks)" "hr_status r = 200"
  then have "read_body limit [] (hr_body r) = Inl ResponseTooLarge" using read_body_cut [OF assms, of "[]"] by simp
  then show "\<exists>e. read_response endpoint limit r = Inl e"
    using a(3) by (cases "read_response endpoint limit r") (auto elim!: read_response_cases)
qed


section \<open>Applied to concrete servers\<close>

definition sample_tag :: "rstr \<Rightarrow> rstr" where
  "sample_tag d = 34 # d @ [34]"

definition sample_server :: "parsed_url \<Rightarrow> rstr \<Rightarrow> http_server" where
  "sample_server endpoint document q = Some \<lparr>hr_url = url_as_str endpoint,
     hr_status = (if hq_if_none_match q = Some (sample_tag document) then 304 else 200),
     hr_header = (\<lambda>n. case n of EntityTag \<Rightarrow> Some (Some (sample_tag document)) | ContentType \<Rightarrow> Some (Some (lit ''application/json''))
        | _ \<Rightarrow> None), hr_body = [BodyChunk (str_bytes document)]\<rparr>"

definition sample_fetcher :: fetcher where
  "sample_fetcher = \<lparr>ft_cache_env = sample_cache_env, ft_roots = sample_roots, ft_valid_header = (\<lambda>_. True),
     ft_endpoints = Some \<lparr>me_trust_bundle = sample_url [116], me_registry = sample_url [114]\<rparr>\<rparr>"

definition sample_world :: refresh_world where
  "sample_world = \<lparr>rw_trust_server = sample_server (sample_url [116]) [98], rw_registry_server = sample_server (sample_url [114]) [115],
     rw_start = Inr 5, rw_accept = sample_clock, rw_fallback = sample_clock, rw_persists = True\<rparr>"

definition sample_fetch_state :: fetch_state where
  "sample_fetch_state = \<lparr>fs_cache = Some sample_cached_row, fs_row = Some \<lparr>fw_trust_etag = Some (sample_tag [98]),
     fw_trust_last_modified = None, fw_registry_etag = Some (sample_tag [115]), fw_registry_last_modified = None, fw_checked_at = []\<rparr>\<rparr>"

lemma sample_server_honest: "honest_server sample_tag endpoint d (sample_server endpoint d)"
  by (simp add: honest_server_def sample_server_def)

lemma sample_tags_good: "good_tags v {[98], [115]} sample_tag" if "\<forall>t. v t"
  using that by (simp add: good_tags_def inj_on_def sample_tag_def validate_etag_def strip_prefix_def starts_with_def lit_def str_len_def
      str_bytes_def utf8_encode_def validator_limit_def etag_byte_def Let_def)

lemma refresh_serves_verified_documents_witness:
  "snd (fetcher_refresh sample_fetcher (sample_world\<lparr>rw_trust_server := \<lambda>_. None\<rparr>) sample_fetch_state) = sample_fetch_state"
proof -
  let ?w = "sample_world\<lparr>rw_trust_server := \<lambda>_. None\<rparr>"
  have t: "validate_etag (sample_tag [98])" "validate_etag (sample_tag [115])"
    using sample_tags_good [of "\<lambda>_. True"] by (simp_all add: good_tags_def)
  obtain s st where r: "fetcher_refresh sample_fetcher ?w sample_fetch_state = (s, st)" by (metis surj_pair)
  then have "fe_reason s = Some TransportFailed"
    using t by (auto simp: fetcher_refresh_def sample_world_def sample_fetcher_def sample_fetch_state_def load_validators_def
        validators_from_storage_def some_if_any_def dv_has_any_def refresh_with_def fetch_both_def fetch_document_def fetch_request_def
        header_of_validator_def fetch_fallback_def Let_def)
  then show ?thesis using refresh_serves_verified_documents [OF r] r by simp
qed

lemma fetched_documents_are_bounded_witness:
  "\<exists>e. read_response (sample_url [116]) 0 \<lparr>hr_url = [116], hr_status = 200, hr_header = \<lambda>_. None,
     hr_body = [BodyChunk [98], BodyFailed]\<rparr> = Inl e"
proof -
  let ?r = "\<lparr>hr_url = [116], hr_status = 200, hr_header = \<lambda>_. None, hr_body = [BodyChunk [98], BodyFailed]\<rparr>"
  have "hr_body ?r = map BodyChunk [[98]] @ [BodyFailed] \<and> 0 < length (concat [[98 :: nat]]) \<and> hr_status ?r = 200" by simp
  moreover have "(0 :: nat) < 2 ^ 64 - 1" by simp
  ultimately show ?thesis
    using conjunct2 [OF fetched_documents_are_bounded [of 0 "\<lambda>_. True" "\<lambda>_. None" "sample_url [116]" None]] by blast
qed


end
