(* ===== verification/Package_Downloader.thy ===== *)
theory Package_Downloader
  imports Package_Fetcher
begin

text \<open>
  \<open>package_downloader.rs\<close>: the download of a release of a package. The registry record in the trust
  cache says which three documents to fetch and what their digests are; the servers may answer
  anything. A download that succeeds hands the staged package to the installer.
\<close>

section \<open>Fetching a file\<close>

datatype content_kind = ContentReleaseManifest | ContentEnvelope | ContentArtifact

definition artifact_mimes :: "rstr list" where
  "artifact_mimes = [lit ''application/octet-stream'', lit ''application/zstd'', lit ''application/x-zstd'',
     lit ''application/vnd.agentmesh.package'']"

definition content_accepts :: "content_kind \<Rightarrow> rstr \<Rightarrow> bool" where
  "content_accepts kind value =
     (let mime = mime_of value in
      case kind of
        ContentArtifact \<Rightarrow> list_ex (eq_ignore_ascii_case mime) artifact_mimes
      | _ \<Rightarrow> eq_ignore_ascii_case mime (lit ''application/json''))"

definition content_accept_header :: "content_kind \<Rightarrow> rstr" where
  "content_accept_header kind = (case kind of
     ContentArtifact \<Rightarrow> lit ''application/vnd.agentmesh.package, application/zstd, application/octet-stream''
   | _ \<Rightarrow> lit ''application/json'')"

text \<open>The file on disk holds every byte; the bytes of the two documents are kept in memory as well.\<close>

record downloaded_file =
  df_sha256 :: rstr
  df_size :: nat
  df_bytes :: "nat list"

fun read_download ::
  "nat \<Rightarrow> content_kind \<Rightarrow> nat \<times> nat list \<times> nat list \<Rightarrow> body_item list \<Rightarrow> host_error + nat \<times> nat list \<times> nat list" where
  "read_download limit kind progress [] = Inr progress"
| "read_download limit kind progress (BodyFailed # items) = Inl (Bail ''Agent Package download stream failed'')"
| "read_download limit kind (n, file, retained) (BodyChunk c # items) =
     (if n + length c \<ge> 2 ^ 64 then Inl (Bail ''Agent Package download size overflow'')
      else if n + length c > limit then Inl (Bail ''Agent Package download exceeded the allowed size'')
      else read_download limit kind (n + length c, file @ c, if kind = ContentArtifact then retained else retained @ c) items)"

text \<open>The second component is the content of the file that was written.\<close>

definition download_to_private_file ::
  "artifact_env \<Rightarrow> http_server \<Rightarrow> parsed_url \<Rightarrow> nat \<Rightarrow> content_kind \<Rightarrow> host_error + downloaded_file \<times> nat list" where
  "download_to_private_file A server url limit kind =
     and_then (ok_or (server \<lparr>hq_url = url_as_str url, hq_accept = content_accept_header kind, hq_if_none_match = None,
         hq_if_modified_since = None\<rparr>) (Bail ''Agent Package download transport failed'')) (\<lambda>r.
     and_then (bail_if (hr_url r \<noteq> url_as_str url \<or> hr_status r \<noteq> 200)
       (Bail ''Agent Package download response was rejected'')) (\<lambda>_.
     and_then (bail_if (\<not> (case header_text r ContentType of None \<Rightarrow> False | Some t \<Rightarrow> content_accepts kind t))
       (Bail ''Agent Package download content type was rejected'')) (\<lambda>_.
     and_then (bail_if (case declared_length r of None \<Rightarrow> False | Some n \<Rightarrow> n = 0 \<or> n > limit)
       (Bail ''Agent Package download size is outside the allowed range'')) (\<lambda>_.
     and_then (read_download limit kind (0, [], []) (hr_body r)) (\<lambda>(n, file, retained).
     and_then (bail_if (n = 0) (Bail ''Agent Package download is empty'')) (\<lambda>_.
     Inr (\<lparr>df_sha256 = sha256_hex A file, df_size = n, df_bytes = retained\<rparr>, file)))))))"

section \<open>The downloader\<close>

record downloader =
  dl_cache_env :: cache_env
  dl_roots :: trusted_root_store
  dl_allowed_origin :: rstr
  dl_transport_override :: "parsed_url option"

abbreviation dl_artifact :: "downloader \<Rightarrow> artifact_env" where
  "dl_artifact D \<equiv> rl_artifact (re_release (ce_registry (dl_cache_env D)))"

definition envelope_limit :: nat where "envelope_limit = 64 * 1024"
definition artifact_limit :: nat where "artifact_limit = 32 * 1024 * 1024"

definition validate_download_url :: "downloader \<Rightarrow> rstr \<Rightarrow> host_error + parsed_url" where
  "validate_download_url D value =
     and_then (ok_or (pe_url_parse (re_package (ce_registry (dl_cache_env D))) value)
       (Context ''parse verified Agent Package URL'' (Foreign ''url''))) (\<lambda>url.
     and_then (bail_if (\<not> validate_endpoint url False) (Bail ''verified Agent Package URL is unsafe'')) (\<lambda>_.
     and_then (bail_if (url_origin url \<noteq> dl_allowed_origin D)
       (Bail ''verified Agent Package URL origin is not allowed'')) (\<lambda>_.
     Inr url)))"

definition request_url :: "downloader \<Rightarrow> parsed_url \<Rightarrow> parsed_url" where
  "request_url D verified_url = (case dl_transport_override D of Some url \<Rightarrow> url | None \<Rightarrow> verified_url)"

record download_audit =
  da_package_id :: rstr
  da_agent_id :: rstr
  da_version :: rstr
  da_artifact_bytes :: nat
  da_envelope_bytes :: nat

record package_download =
  pd_audit :: download_audit
  pd_verified :: verified_package

text \<open>What a download meets: the clock when the cache is read, and the servers at the three requests.\<close>

record download_world =
  dw_clock :: clock_readings
  dw_manifest_server :: http_server
  dw_envelope_server :: http_server
  dw_artifact_server :: http_server

definition download_release_manifest ::
  "downloader \<Rightarrow> http_server \<Rightarrow> parsed_url \<Rightarrow> client_projection \<Rightarrow> host_error + release_descriptor" where
  "download_release_manifest D server url p =
     and_then (download_to_private_file (dl_artifact D) server (request_url D url) max_release_manifest_bytes
       ContentReleaseManifest) (\<lambda>(release_manifest, _).
     and_then (bail_if (df_sha256 release_manifest \<noteq> rr_sha256 (cp_release_manifest p))
       (Bail ''Agent Release Manifest digest does not match verified registry'')) (\<lambda>_.
     with_context ''cross-check Agent Release Manifest with verified Client projection''
       (client_verify_release (ce_registry (dl_cache_env D)) p (df_bytes release_manifest))))"

definition download_envelope ::
  "downloader \<Rightarrow> http_server \<Rightarrow> parsed_url \<Rightarrow> client_projection \<Rightarrow> host_error + rstr \<times> nat" where
  "download_envelope D server url p =
     and_then (download_to_private_file (dl_artifact D) server (request_url D url) envelope_limit ContentEnvelope) (\<lambda>(envelope, _).
     and_then (bail_if (df_sha256 envelope \<noteq> cp_envelope_sha256 p)
       (Bail ''Agent Package envelope digest does not match verified registry'')) (\<lambda>_.
     and_then (ok_or (from_utf8 (df_bytes envelope)) (Context ''Agent Package envelope must be UTF-8'' (Foreign ''utf8''))) (\<lambda>document.
     Inr (document, df_size envelope))))"

definition download_artifact ::
  "downloader \<Rightarrow> http_server \<Rightarrow> parsed_url \<Rightarrow> client_projection \<Rightarrow> host_error + nat list \<times> nat" where
  "download_artifact D server url p =
     and_then (download_to_private_file (dl_artifact D) server (request_url D url) artifact_limit ContentArtifact) (\<lambda>(artifact, file).
     and_then (bail_if (df_sha256 artifact \<noteq> cp_artifact_sha256 p)
       (Bail ''Agent Package artifact digest does not match verified registry'')) (\<lambda>_.
     Inr (file, df_size artifact)))"

definition check_staged_package :: "client_projection \<Rightarrow> release_descriptor \<Rightarrow> verified_package \<Rightarrow> host_error + unit" where
  "check_staged_package p release verified =
     and_then (bail_if (vp_artifact_sha256 verified \<noteq> rd_artifact_sha256 release
         \<or> vp_envelope_sha256 verified \<noteq> rd_envelope_sha256 release
         \<or> vp_file_manifest_sha256 verified \<noteq> rd_artifact_file_manifest_sha256 release
         \<or> vp_signature_key_id verified \<noteq> rd_envelope_signature_key_id release)
       (Bail ''downloaded Agent Package verification differs from the Agent Release Manifest'')) (\<lambda>_.
     bail_if (pm_package_id (vp_manifest verified) \<noteq> cp_package_id p
         \<or> pa_agent_id (pm_agent (vp_manifest verified)) \<noteq> cp_agent_id p
         \<or> pm_version (vp_manifest verified) \<noteq> cp_version p \<or> pm_publisher (vp_manifest verified) \<noteq> cp_publisher p)
       (Bail ''downloaded Agent Package identity does not match verified registry''))"

definition download_verified ::
  "downloader \<Rightarrow> download_world \<Rightarrow> cached_trust_row option \<Rightarrow> rstr \<Rightarrow> host_error + package_download" where
  "download_verified D w cache package_id =
     and_then (load_verified_package (dl_cache_env D) (dl_roots D) (dw_clock w) cache package_id) (\<lambda>found.
     and_then (ok_or found (Bail ''verified remote Agent Package is unavailable'')) (\<lambda>(record, publishers).
     let p = client_projection_of record in
     and_then (validate_download_url D (rr_url (cp_release_manifest p))) (\<lambda>release_manifest_url.
     and_then (validate_download_url D (cp_artifact_url p)) (\<lambda>artifact_url.
     and_then (validate_download_url D (cp_envelope_url p)) (\<lambda>envelope_url.
     and_then (download_release_manifest D (dw_manifest_server w) release_manifest_url p) (\<lambda>release.
     and_then (download_envelope D (dw_envelope_server w) envelope_url p) (\<lambda>(envelope_document, envelope_size).
     and_then (download_artifact D (dw_artifact_server w) artifact_url p) (\<lambda>(artifact, artifact_size).
     and_then (verify_to_staging (dl_artifact D) publishers artifact envelope_document) (\<lambda>verified.
     and_then (check_staged_package p release verified) (\<lambda>_.
     Inr \<lparr>pd_audit = \<lparr>da_package_id = cp_package_id p, da_agent_id = cp_agent_id p, da_version = cp_version p,
            da_artifact_bytes = artifact_size, da_envelope_bytes = envelope_size\<rparr>,
          pd_verified = verified\<rparr>))))))))))"

section \<open>What a successful download did\<close>

text \<open>The bytes of a body that arrived completely.\<close>

definition body_bytes :: "body_item list \<Rightarrow> nat list" where
  "body_bytes items = concat (map (\<lambda>i. case i of BodyChunk c \<Rightarrow> c | BodyFailed \<Rightarrow> []) items)"

lemma read_download_ok:
  assumes "read_download limit kind (n, f, retained) items = Inr (n', f', retained')" "n = length f"
  shows "n' = length f' \<and> (n \<le> limit \<longrightarrow> n' \<le> limit) \<and> f' = f @ body_bytes items \<and> BodyFailed \<notin> set items
    \<and> retained' = (if kind = ContentArtifact then retained else retained @ body_bytes items)"
  using assms
proof (induction items arbitrary: n f retained)
  case (Cons i items)
  show ?case
  proof (cases i)
    case (BodyChunk c)
    with Cons.prems have "n + length c \<le> limit"
      "read_download limit kind (n + length c, f @ c, if kind = ContentArtifact then retained else retained @ c) items
         = Inr (n', f', retained')"
      by (auto split: if_splits)
    note le = this(1) and run = this(2)
    have "n + length c = length (f @ c)" using Cons.prems(2) by simp
    from Cons.IH [OF run this] show ?thesis using le BodyChunk by (auto simp: body_bytes_def)
  qed (use Cons.prems in simp)
qed (auto simp: body_bytes_def)

text \<open>A file that was downloaded is the complete body of an answer 200 of the requested URL.\<close>

definition file_of :: "http_server \<Rightarrow> parsed_url \<Rightarrow> content_kind \<Rightarrow> nat list \<Rightarrow> bool" where
  "file_of server url kind file \<longleftrightarrow> (\<exists>r. server \<lparr>hq_url = url_as_str url, hq_accept = content_accept_header kind,
       hq_if_none_match = None, hq_if_modified_since = None\<rparr> = Some r
     \<and> hr_url r = url_as_str url \<and> hr_status r = 200 \<and> BodyFailed \<notin> set (hr_body r) \<and> body_bytes (hr_body r) = file)"

lemma download_to_private_file_ok:
  assumes "download_to_private_file A server url limit kind = Inr (d, file)"
  shows "df_sha256 d = sha256_hex A file" "df_size d = length file" "0 < length file" "length file \<le> limit"
    "kind \<noteq> ContentArtifact \<Longrightarrow> df_bytes d = file" "file_of server url kind file"
proof -
  from assms obtain r retained where r: "server \<lparr>hq_url = url_as_str url, hq_accept = content_accept_header kind,
       hq_if_none_match = None, hq_if_modified_since = None\<rparr> = Some r" "hr_url r = url_as_str url" "hr_status r = 200"
      "read_download limit kind (0, [], []) (hr_body r) = Inr (df_size d, file, retained)" "df_size d \<noteq> 0"
      "d = \<lparr>df_sha256 = sha256_hex A file, df_size = df_size d, df_bytes = retained\<rparr>"
    by (auto simp: download_to_private_file_def result_simps)
  note k = read_download_ok [OF r(4)]
  show "df_sha256 d = sha256_hex A file" by (subst r(6)) simp
  show l: "df_size d = length file" using k by simp
  show "length file \<le> limit" using k by auto
  show "0 < length file" using r(5) l by simp
  show "df_bytes d = file" if "kind \<noteq> ContentArtifact"
    by (subst r(6)) (use k that in simp)
  show "file_of server url kind file" unfolding file_of_def using k by (intro exI [of _ r] conjI r(1-3)) simp_all
qed

text \<open>\<open>x\<close> came back as a complete file of some URL.\<close>

definition served :: "http_server \<Rightarrow> content_kind \<Rightarrow> nat list \<Rightarrow> bool" where
  "served server kind x \<longleftrightarrow> (\<exists>url. file_of server url kind x)"

lemma download_verified_ok:
  assumes "download_verified D w cache package_id = Inr d"
  obtains row v p document release envelope_document artifact where
    "cache = Some row" "load_cached_row (dl_cache_env D) (dl_roots D) (dw_clock w) row = Inr v"
    "p \<in> set (vr_packages (vc_registry v))"
    "find (\<lambda>r. rp_package_id r = package_id) (vr_packages (vc_registry v)) = Some p"
    "rp_package_id p = package_id"
    "sha256_hex (dl_artifact D) document = rp_release_manifest_sha256 p"
    "client_verify_release (ce_registry (dl_cache_env D)) (client_projection_of p) document = Inr release"
    "sha256_hex (dl_artifact D) (str_bytes envelope_document) = rp_envelope_sha256 p"
    "sha256_hex (dl_artifact D) artifact = rp_artifact_sha256 p"
    "rust_text envelope_document"
    "served (dw_envelope_server w) ContentEnvelope (str_bytes envelope_document)"
    "served (dw_artifact_server w) ContentArtifact artifact"
    "verify_to_staging (dl_artifact D) (vc_publishers v) artifact envelope_document = Inr (pd_verified d)"
    "check_staged_package (client_projection_of p) release (pd_verified d) = Inr ()"
    "pd_audit d = \<lparr>da_package_id = rp_package_id p, da_agent_id = rp_agent_id p, da_version = rp_version p,
       da_artifact_bytes = length artifact, da_envelope_bytes = str_len envelope_document\<rparr>"
    "0 < length artifact" "length artifact \<le> artifact_limit" "0 < str_len envelope_document" "str_len envelope_document \<le> envelope_limit"
proof -
  let ?A = "dl_artifact D" and ?P = "client_projection_of"
  from assms obtain vo p publishers url1 url2 url3 release envelope_document m artifact n verified where
    l: "load_verified_package (dl_cache_env D) (dl_roots D) (dw_clock w) cache package_id = Inr (Some (p, publishers))"
    and m: "download_release_manifest D (dw_manifest_server w) url1 (?P p) = Inr release"
    and e: "download_envelope D (dw_envelope_server w) url2 (?P p) = Inr (envelope_document, m)"
    and a: "download_artifact D (dw_artifact_server w) url3 (?P p) = Inr (artifact, n)"
    and v: "verify_to_staging ?A publishers artifact envelope_document = Inr verified"
      "check_staged_package (?P p) release verified = Inr ()"
      "d = \<lparr>pd_audit = \<lparr>da_package_id = cp_package_id (?P p), da_agent_id = cp_agent_id (?P p), da_version = cp_version (?P p),
            da_artifact_bytes = n, da_envelope_bytes = m\<rparr>, pd_verified = verified\<rparr>"
    by (auto simp: download_verified_def result_simps Let_def)
  from l obtain row v where row: "cache = Some row" "load_cached_row (dl_cache_env D) (dl_roots D) (dw_clock w) row = Inr v"
      "find (\<lambda>r. rp_package_id r = package_id) (vr_packages (vc_registry v)) = Some p" "publishers = vc_publishers v"
    by (auto simp: load_verified_package_def load_verified_def result_simps split: option.splits)
  from m obtain md document where md: "download_to_private_file ?A (dw_manifest_server w) (request_url D url1)
      max_release_manifest_bytes ContentReleaseManifest = Inr (md, document)"
      "df_sha256 md = rp_release_manifest_sha256 p" "client_verify_release (ce_registry (dl_cache_env D)) (?P p) (df_bytes md) = Inr release"
    by (auto simp: download_release_manifest_def result_simps client_projection_of_def release_reference_of_def)
  from e obtain ed ef where ed: "download_to_private_file ?A (dw_envelope_server w) (request_url D url2) envelope_limit ContentEnvelope
      = Inr (ed, ef)" "df_sha256 ed = rp_envelope_sha256 p" "from_utf8 (df_bytes ed) = Some envelope_document" "m = df_size ed"
    by (auto simp: download_envelope_def result_simps client_projection_of_def)
  from a obtain ad where ad: "download_to_private_file ?A (dw_artifact_server w) (request_url D url3) artifact_limit ContentArtifact
      = Inr (ad, artifact)" "df_sha256 ad = rp_artifact_sha256 p" "n = df_size ad"
    by (auto simp: download_artifact_def result_simps client_projection_of_def)
  note mo = download_to_private_file_ok [OF md(1)]
  note eo = download_to_private_file_ok [OF ed(1)]
  note ao = download_to_private_file_ok [OF ad(1)]
  have eb: "ef = str_bytes envelope_document" "rust_text envelope_document" using eo(5) ed(3) from_utf8_iff by force+
  show ?thesis
  proof (rule that)
    show "p \<in> set (vr_packages (vc_registry v))" "rp_package_id p = package_id" using find_SomeD [OF row(3)] by auto
    show "pd_audit d = \<lparr>da_package_id = rp_package_id p, da_agent_id = rp_agent_id p, da_version = rp_version p,
       da_artifact_bytes = length artifact, da_envelope_bytes = str_len envelope_document\<rparr>"
      using v(3) ed(4) ad(3) eo(2) ao(2) eb by (simp add: client_projection_of_def str_len_def)
    show "served (dw_envelope_server w) ContentEnvelope (str_bytes envelope_document)" using eo(6) eb by (auto simp: served_def)
    show "served (dw_artifact_server w) ContentArtifact artifact" using ao(6) by (auto simp: served_def)
    show "0 < str_len envelope_document" "str_len envelope_document \<le> envelope_limit" using eo(3,4) eb by (simp_all add: str_len_def)
  qed (use row mo(1,5) md eo(1) ed eb ao ad v in simp_all)
qed

lemma staged_signature:
  assumes "verify_to_staging A store artifact document = Inr v"
  shows "\<exists>key. publisher_get store (vp_signature_key_id v) = Inr key \<and> pk_publisher key = pm_publisher (vp_manifest v)"
  using assms extract_and_verify_identity(3)
  by (force simp: verify_to_staging_def verify_signature_def result_simps)

lemma staged_files:
  assumes "verify_to_staging A store artifact document = Inr v"
  shows "digest_file_manifest A (vp_staging v) = Inr (vp_file_manifest_sha256 v)"
  using assms extract_and_verify_identity(4) by (auto simp: verify_to_staging_def result_simps)

text \<open>Verification looks at the trusted keys to accept or to refuse, never to decide what is staged.\<close>

lemma staging_unique:
  assumes "verify_to_staging A store artifact document = Inr v" "verify_to_staging A store' artifact document' = Inr v'"
    and "document' = document"
  shows "v' = v"
  using assms by (auto simp: verify_to_staging_def result_simps)

lemma cached_packages_unique:
  assumes "load_cached_row E roots clock row = Inr v" "load_cached_row E roots clock' row = Inr v'"
  shows "vc_registry v = vc_registry v'"
proof -
  obtain p p' where "verify_registry (ce_registry E) roots (ct_registry_document row) (cr_registry clock)
        (nat (ct_registry_revision row)) p = Inr (vc_registry v)"
      "verify_registry (ce_registry E) roots (ct_registry_document row) (cr_registry clock')
        (nat (ct_registry_revision row)) p' = Inr (vc_registry v')"
    using assms by (auto simp: load_cached_row_def result_simps)
  then show ?thesis by (rule verify_registry_unique)
qed

section \<open>Properties\<close>

text \<open>C18: a download is the release the signed registry names. Whatever the servers answer, a download
  that succeeds is the record of the package in the cached registry: the staged package has its
  identity, version and publisher, artifact and envelope have its digests, the files in staging are the
  ones of the release manifest with its digest, and the signing key is one of the publisher in the
  cached bundle. The sizes it reports are those of the files, inside the limits.\<close>

theorem download_is_the_release:
  assumes "download_verified D w cache package_id = Inr d"
  shows "\<exists>row v p document release artifact envelope key. cache = Some row
    \<and> load_cached_row (dl_cache_env D) (dl_roots D) (dw_clock w) row = Inr v
    \<and> p \<in> set (vr_packages (vc_registry v)) \<and> rp_package_id p = package_id
    \<and> pm_package_id (vp_manifest (pd_verified d)) = package_id
    \<and> pa_agent_id (pm_agent (vp_manifest (pd_verified d))) = rp_agent_id p
    \<and> pm_version (vp_manifest (pd_verified d)) = rp_version p \<and> pm_publisher (vp_manifest (pd_verified d)) = rp_publisher p
    \<and> verify_to_staging (dl_artifact D) (vc_publishers v) artifact envelope = Inr (pd_verified d)
    \<and> sha256_hex (dl_artifact D) artifact = rp_artifact_sha256 p
    \<and> sha256_hex (dl_artifact D) (str_bytes envelope) = rp_envelope_sha256 p
    \<and> sha256_hex (dl_artifact D) document = rp_release_manifest_sha256 p
    \<and> client_verify_release (ce_registry (dl_cache_env D)) (client_projection_of p) document = Inr release
    \<and> digest_file_manifest (dl_artifact D) (vp_staging (pd_verified d)) = Inr (rd_artifact_file_manifest_sha256 release)
    \<and> publisher_get (vc_publishers v) (rd_envelope_signature_key_id release) = Inr key \<and> pk_publisher key = rp_publisher p
    \<and> da_artifact_bytes (pd_audit d) = length artifact \<and> 0 < length artifact \<and> length artifact \<le> 32 * 1024 * 1024
    \<and> da_envelope_bytes (pd_audit d) = str_len envelope \<and> 0 < str_len envelope \<and> str_len envelope \<le> 64 * 1024"
proof (rule download_verified_ok [OF assms])
  fix row v p document release envelope artifact
  assume a: "cache = Some row" "load_cached_row (dl_cache_env D) (dl_roots D) (dw_clock w) row = Inr v"
    "p \<in> set (vr_packages (vc_registry v))" "rp_package_id p = package_id"
    "sha256_hex (dl_artifact D) document = rp_release_manifest_sha256 p"
    "client_verify_release (ce_registry (dl_cache_env D)) (client_projection_of p) document = Inr release"
    "sha256_hex (dl_artifact D) (str_bytes envelope) = rp_envelope_sha256 p"
    "sha256_hex (dl_artifact D) artifact = rp_artifact_sha256 p"
    and b: "verify_to_staging (dl_artifact D) (vc_publishers v) artifact envelope = Inr (pd_verified d)"
    and c: "check_staged_package (client_projection_of p) release (pd_verified d) = Inr ()"
    and e: "pd_audit d = \<lparr>da_package_id = rp_package_id p, da_agent_id = rp_agent_id p, da_version = rp_version p,
       da_artifact_bytes = length artifact, da_envelope_bytes = str_len envelope\<rparr>"
    "0 < length artifact" "length artifact \<le> artifact_limit" "0 < str_len envelope" "str_len envelope \<le> envelope_limit"
  have c': "vp_file_manifest_sha256 (pd_verified d) = rd_artifact_file_manifest_sha256 release"
    "vp_signature_key_id (pd_verified d) = rd_envelope_signature_key_id release"
    "pm_package_id (vp_manifest (pd_verified d)) = rp_package_id p"
    "pa_agent_id (pm_agent (vp_manifest (pd_verified d))) = rp_agent_id p"
    "pm_version (vp_manifest (pd_verified d)) = rp_version p" "pm_publisher (vp_manifest (pd_verified d)) = rp_publisher p"
    using c by (simp_all add: check_staged_package_def result_simps client_projection_of_def)
  from staged_signature [OF b] obtain key where "publisher_get (vc_publishers v) (rd_envelope_signature_key_id release) = Inr key"
      "pk_publisher key = rp_publisher p" using c' by auto
  then show ?thesis
    using a b c' e staged_files [OF b]
    by (intro exI [of _ row] exI [of _ v] exI [of _ p] exI [of _ document] exI [of _ release] exI [of _ artifact]
        exI [of _ envelope] exI [of _ key]) (simp add: artifact_limit_def envelope_limit_def)
qed

text \<open>servers cannot change what is downloaded. Two downloads of a package from the same cache that
  both succeed, whenever and from whatever servers, give the same package: the only way around is a
  collision of SHA-256 between two envelopes or two artifacts that were served.\<close>

theorem servers_cannot_change_a_download:
  assumes "download_verified D w cache package_id = Inr d" "download_verified D w' cache package_id = Inr d'"
    and "digest_bytes (dl_artifact D)"
  shows "d' = d \<or> (\<exists>x y. x \<noteq> y \<and> sha256 (ae_package (dl_artifact D)) x = sha256 (ae_package (dl_artifact D)) y
    \<and> (served (dw_envelope_server w) ContentEnvelope x \<and> served (dw_envelope_server w') ContentEnvelope y
        \<or> served (dw_artifact_server w) ContentArtifact x \<and> served (dw_artifact_server w') ContentArtifact y))"
proof (rule download_verified_ok [OF assms(1)], rule download_verified_ok [OF assms(2)])
  fix row v p document release envelope artifact row' v' p' document' release' envelope' artifact'
  assume a: "cache = Some row" "load_cached_row (dl_cache_env D) (dl_roots D) (dw_clock w) row = Inr v"
      "cache = Some row'" "load_cached_row (dl_cache_env D) (dl_roots D) (dw_clock w') row' = Inr v'"
    and f: "find (\<lambda>r. rp_package_id r = package_id) (vr_packages (vc_registry v)) = Some p"
      "find (\<lambda>r. rp_package_id r = package_id) (vr_packages (vc_registry v')) = Some p'"
    and h: "sha256_hex (dl_artifact D) (str_bytes envelope) = rp_envelope_sha256 p"
      "sha256_hex (dl_artifact D) artifact = rp_artifact_sha256 p"
      "sha256_hex (dl_artifact D) (str_bytes envelope') = rp_envelope_sha256 p'"
      "sha256_hex (dl_artifact D) artifact' = rp_artifact_sha256 p'"
    and r: "rust_text envelope" "rust_text envelope'"
    and s: "served (dw_envelope_server w) ContentEnvelope (str_bytes envelope)" "served (dw_artifact_server w) ContentArtifact artifact"
      "served (dw_envelope_server w') ContentEnvelope (str_bytes envelope')" "served (dw_artifact_server w') ContentArtifact artifact'"
    and v: "verify_to_staging (dl_artifact D) (vc_publishers v) artifact envelope = Inr (pd_verified d)"
      "verify_to_staging (dl_artifact D) (vc_publishers v') artifact' envelope' = Inr (pd_verified d')"
    and u: "pd_audit d = \<lparr>da_package_id = rp_package_id p, da_agent_id = rp_agent_id p, da_version = rp_version p,
       da_artifact_bytes = length artifact, da_envelope_bytes = str_len envelope\<rparr>"
      "pd_audit d' = \<lparr>da_package_id = rp_package_id p', da_agent_id = rp_agent_id p', da_version = rp_version p',
       da_artifact_bytes = length artifact', da_envelope_bytes = str_len envelope'\<rparr>"
  have "row' = row" using a(1,3) by simp
  then have "vc_registry v' = vc_registry v" using cached_packages_unique [OF a(4), of "dw_clock w" v] a(2) by simp
  with f have p: "p' = p" by simp
  show ?thesis
  proof (cases "str_bytes envelope = str_bytes envelope' \<and> artifact = artifact'")
    case True
    then have "from_utf8 (str_bytes envelope) = from_utf8 (str_bytes envelope')" by simp
    then have "envelope' = envelope" using r by (simp add: from_utf8_str_bytes)
    then have "pd_verified d' = pd_verified d" using staging_unique [OF v(1)] v(2) True by simp
    moreover have "pd_audit d' = pd_audit d" using u p True by (simp add: str_len_def)
    ultimately show ?thesis by (cases d; cases d') simp
  next
    case False
    have "sha256 (ae_package (dl_artifact D)) (str_bytes envelope) = sha256 (ae_package (dl_artifact D)) (str_bytes envelope')"
      "sha256 (ae_package (dl_artifact D)) artifact = sha256 (ae_package (dl_artifact D)) artifact'"
      using h by (simp_all add: p flip: sha256_hex_inject [OF assms(3)])
    then show ?thesis using False s by meson
  qed
qed

section \<open>Applied to a concrete release\<close>

definition sample_file_server :: "content_kind \<Rightarrow> parsed_url \<Rightarrow> nat list list \<Rightarrow> http_server" where
  "sample_file_server kind url chunks q = Some \<lparr>hr_url = url_as_str url, hr_status = 200,
     hr_header = (\<lambda>n. if n = ContentType then Some (Some (if kind = ContentArtifact then lit ''application/zstd''
        else lit ''application/json'')) else None), hr_body = map BodyChunk chunks\<rparr>"

definition sample_downloader :: downloader where
  "sample_downloader = \<lparr>dl_cache_env = sample_cache_env, dl_roots = sample_roots, dl_allowed_origin = [111],
     dl_transport_override = Some (sample_url [117])\<rparr>"

definition sample_download_world :: "nat list list \<Rightarrow> download_world" where
  "sample_download_world chunks = \<lparr>dw_clock = sample_clock,
     dw_manifest_server = sample_file_server ContentReleaseManifest (sample_url [117]) [manifest_code sample_release],
     dw_envelope_server = sample_file_server ContentEnvelope (sample_url [117]) [[101]],
     dw_artifact_server = sample_file_server ContentArtifact (sample_url [117]) chunks\<rparr>"

definition sample_download :: package_download where
  "sample_download = \<lparr>pd_audit = \<lparr>da_package_id = [112], da_agent_id = [97], da_version = [49], da_artifact_bytes = 1,
     da_envelope_bytes = 1\<rparr>, pd_verified = sample_staged\<rparr>"

lemma sample_content_types: "content_accepts ContentArtifact (lit ''application/zstd'')"
  "kind \<noteq> ContentArtifact \<Longrightarrow> content_accepts kind (lit ''application/json'')"
  by (cases kind; simp add: content_accepts_def mime_of_def lit_def eq_ignore_ascii_case_def artifact_mimes_def trim_def
      trim_end_def trim_start_def is_whitespace_def Let_def)+

lemma read_chunks:
  assumes "n + length (concat cs) \<le> limit" "limit < 2 ^ 64"
  shows "read_download limit kind (n, f, kept) (map BodyChunk cs)
      = Inr (n + length (concat cs), f @ concat cs, if kind = ContentArtifact then kept else kept @ concat cs)"
  using assms
proof (induction cs arbitrary: n f kept)
  case (Cons c cs)
  from Cons.IH [of "n + length c" "f @ c" "if kind = ContentArtifact then kept else kept @ c"] Cons.prems
  show ?case by (auto simp: add.assoc)
qed simp

lemma sample_file_downloads:
  assumes "concat chunks = b # bs" "length (b # bs) \<le> limit" "limit < 2 ^ 64"
  shows "download_to_private_file A (sample_file_server kind url chunks) url limit kind
      = Inr (\<lparr>df_sha256 = sha256_hex A (b # bs), df_size = length (b # bs),
          df_bytes = (if kind = ContentArtifact then [] else b # bs)\<rparr>, b # bs)"
  using read_chunks [of 0 chunks limit kind "[]" "[]", unfolded assms(1)] assms(2,3) sample_content_types(1)
    sample_content_types(2) [of kind]
  by (cases "kind = ContentArtifact") (simp_all add: download_to_private_file_def sample_file_server_def header_text_def
      declared_length_def)

text \<open>Verification reads no time stamps, so the clock format of the sample cache does not matter.\<close>

lemma other_trust:
  "sha256_hex (A\<lparr>ae_trust := T\<rparr>) x = sha256_hex A x"
  "verify_file_records (A\<lparr>ae_trust := T\<rparr>) t expected seen previous rs = verify_file_records A t expected seen previous rs"
  "extract_and_verify (A\<lparr>ae_trust := T\<rparr>) artifact envelope = extract_and_verify A artifact envelope"
  "validate_envelope (A\<lparr>ae_trust := T\<rparr>) envelope = validate_envelope A envelope"
  "verify_agent_release_document (R\<lparr>rl_artifact := (rl_artifact R)\<lparr>ae_trust := T\<rparr>\<rparr>) d = verify_agent_release_document R d"
proof -
  show h: "sha256_hex (A\<lparr>ae_trust := T\<rparr>) x = sha256_hex A x" for x by (simp add: sha256_hex_def)
  have f: "verify_file_record (A\<lparr>ae_trust := T\<rparr>) = verify_file_record A"
    by (intro ext) (unfold verify_file_record_def h, rule refl)
  show r: "verify_file_records (A\<lparr>ae_trust := T\<rparr>) t expected seen previous rs = verify_file_records A t expected seen previous rs"
    for t expected seen previous rs
    by (induction rs arbitrary: seen previous) (simp_all add: f)
  show "extract_and_verify (A\<lparr>ae_trust := T\<rparr>) artifact envelope = extract_and_verify A artifact envelope"
    unfolding extract_and_verify_def verify_file_manifest_def digest_file_manifest_def r h by simp
qed (simp_all add: validate_envelope_def verify_agent_release_document_def)

abbreviation "sample_reread_artifact_env \<equiv> sample_artifact_env\<lparr>ae_trust := sample_reread_env\<rparr>"

lemma sample_downloader_env:
  "dl_artifact sample_downloader = sample_reread_artifact_env" "sha256_hex sample_reread_artifact_env x = lower_hex (sample_digest x)"
  "ce_registry (dl_cache_env sample_downloader) = sample_registry_env sample_reread_env"
  "rl_artifact (re_release (sample_registry_env sample_reread_env)) = sample_reread_artifact_env"
  by (simp_all add: sample_downloader_def sample_registry_env_def other_trust)

lemma sample_restaging: "verify_to_staging sample_reread_artifact_env sample_publisher_store sample_artifact [101] = Inr sample_staged"
proof -
  have "verify_signature sample_reread_artifact_env s e = verify_signature sample_artifact_env s e" for s e
    by (simp add: verify_signature_def sample_reread_env_def decode_canonical_base64_def)
  then have "verify_to_staging sample_reread_artifact_env s a d = verify_to_staging sample_artifact_env s a d" for s a d
    using other_trust(1) [where A = sample_artifact_env and T = sample_reread_env]
    by (simp add: verify_to_staging_def other_trust(3,4) digest_artifact_def)
  then show ?thesis using sample_staging by simp
qed

definition sample_descriptor :: release_descriptor where
  "sample_descriptor = \<lparr>rd_package_id = [112], rd_agent_id = [97], rd_version = [49], rd_publisher = [112],
      rd_release_file_name = sample_stem @ lit ''.agent-release.v1.json'',
      rd_release_sha256 = lower_hex (sample_digest (manifest_code sample_release)),
      rd_artifact_file_name = sample_stem @ lit ''.ampkg.tar.zst'', rd_artifact_sha256 = lower_hex (sample_digest sample_artifact),
      rd_artifact_file_manifest_sha256 = lower_hex (sample_digest [50]),
      rd_envelope_file_name = sample_stem @ lit ''.signature.v1.json'', rd_envelope_sha256 = lower_hex (sample_digest [101]),
      rd_envelope_signature_key_id = [107],
      rd_host_projection_file_name = sample_stem @ lit ''.host-skills.v1.json'',
      rd_host_projection_sha256 = lower_hex (sample_digest [1]), rd_host_bundles = []\<rparr>"

lemma sample_release_checked:
  "client_verify_release (sample_registry_env sample_reread_env) (client_projection_of sample_record) (manifest_code sample_release)
    = Inr sample_descriptor"
proof -
  have e: "re_release (sample_registry_env sample_reread_env)
      = sample_release_env\<lparr>rl_artifact := (rl_artifact sample_release_env)\<lparr>ae_trust := sample_reread_env\<rparr>\<rparr>"
    by (simp add: sample_registry_env_def)
  have "verify_agent_release_document (re_release (sample_registry_env sample_reread_env)) (manifest_code sample_release) = Inr sample_release"
    unfolding e other_trust(5) by (rule sample_release_verifies)
  then have d: "verify_agent_release_descriptor (re_release (sample_registry_env sample_reread_env)) (manifest_code sample_release)
      = Inr sample_descriptor"
    using other_trust(1) [where A = sample_artifact_env and T = sample_reread_env]
    by (simp add: verify_agent_release_descriptor_def Let_def e release_sha256_def)
      (simp add: sample_release_def sample_descriptor_def release_stem_def sample_stem_def)
  have r: "rp_package_id sample_record = [112]" "rp_agent_id sample_record = [97]" "rp_version sample_record = [49]"
    "rp_publisher sample_record = [112]" "rp_artifact_sha256 sample_record = lower_hex (sample_digest sample_artifact)"
    "rp_envelope_sha256 sample_record = lower_hex (sample_digest [101])"
    "rp_release_manifest_sha256 sample_record = lower_hex (sample_digest (manifest_code sample_release))"
    by (simp_all add: sample_record_def)
  show ?thesis
    by (simp add: client_verify_release_def verify_projection_release_reference_def d client_projection_of_def release_reference_of_def)
      (simp add: sample_descriptor_def r)
qed

lemma sample_downloads:
  assumes "concat chunks = [7]"
  shows "download_verified sample_downloader (sample_download_world chunks) (Some sample_cached_row) [112] = Inr sample_download"
proof -
  let ?D = "sample_downloader" and ?w = "sample_download_world chunks" and ?p = "client_projection_of sample_record"
  have p: "rr_url (cp_release_manifest ?p) = rp_release_manifest_url sample_record"
    "rr_sha256 (cp_release_manifest ?p) = lower_hex (sample_digest (manifest_code sample_release))"
    "cp_artifact_url ?p = rp_artifact_url sample_record" "cp_envelope_url ?p = rp_envelope_url sample_record"
    "cp_artifact_sha256 ?p = lower_hex (sample_digest sample_artifact)" "cp_envelope_sha256 ?p = lower_hex (sample_digest [101])"
    "cp_package_id ?p = [112]" "cp_agent_id ?p = [97]" "cp_version ?p = [49]" "cp_publisher ?p = [112]"
    by (simp_all add: client_projection_of_def release_reference_of_def sample_record_def)
  have "load_verified_package (dl_cache_env ?D) (dl_roots ?D) (dw_clock ?w) (Some sample_cached_row) [112]
      = Inr (Some (sample_record, sample_publisher_store))"
    using sample_cache_loads
    by (simp add: load_verified_package_def load_verified_def sample_downloader_def sample_download_world_def)
      (simp add: sample_verified_registry_def sample_record_def)
  moreover have "validate_download_url ?D u = Inr ((sample_url u)\<lparr>url_path := 47 # u, url_origin := [111]\<rparr>)" for u
    by (simp add: validate_download_url_def sample_downloader_env)
      (simp add: sample_package_env_def validate_endpoint_def sample_url_def sample_downloader_def)
  moreover have u: "request_url ?D url = sample_url [117]" for url by (simp add: request_url_def sample_downloader_def)
  moreover have "download_release_manifest ?D (dw_manifest_server ?w) url ?p = Inr sample_descriptor" for url
  proof -
    obtain b bs where m: "manifest_code sample_release = b # bs" by (cases "manifest_code sample_release") (auto simp: manifest_code_def)
    have "length (manifest_code sample_release) \<le> max_release_manifest_bytes"
      by (simp add: max_release_manifest_bytes_def manifest_code_def text_code_def sample_release_def sample_digest_hex
          sample_artifact_def sample_stem_def)
    then show ?thesis
      using sample_file_downloads [of "[manifest_code sample_release]" b bs max_release_manifest_bytes sample_reread_artifact_env
          ContentReleaseManifest "sample_url [117]"] sample_release_checked
      by (simp add: download_release_manifest_def u p sample_download_world_def sample_downloader_env m)
        (simp add: max_release_manifest_bytes_def)
  qed
  moreover have "download_envelope ?D (dw_envelope_server ?w) url ?p = Inr ([101], 1)" for url
    using sample_file_downloads [of "[[101]]" 101 "[]" envelope_limit sample_reread_artifact_env ContentEnvelope "sample_url [117]"]
    by (simp add: download_envelope_def u p sample_download_world_def sample_downloader_env envelope_limit_def)
  moreover have "download_artifact ?D (dw_artifact_server ?w) url ?p = Inr (sample_artifact, 1)" for url
    using sample_file_downloads [of chunks 7 "[]" artifact_limit sample_reread_artifact_env ContentArtifact "sample_url [117]"] assms
    by (simp add: download_artifact_def u p sample_download_world_def sample_downloader_env artifact_limit_def sample_artifact_def)
  moreover have "check_staged_package ?p sample_descriptor sample_staged = Inr ()"
    by (simp add: check_staged_package_def p sample_descriptor_def sample_staged_def) (simp add: sample_manifest_def)
  ultimately show ?thesis
    using sample_restaging
    by (simp add: download_verified_def p sample_downloader_env) (auto simp: sample_download_def)
qed

lemma download_is_the_release_witness: "pm_publisher (vp_manifest (pd_verified sample_download)) = [112]"
  using download_is_the_release [OF sample_downloads [of "[[7]]"]]
  by (auto simp: sample_download_def sample_staged_def sample_manifest_def)

lemma servers_cannot_change_a_download_witness:
  "download_verified sample_downloader (sample_download_world [[7]]) (Some sample_cached_row) [112]
    = download_verified sample_downloader (sample_download_world [[], [7]]) (Some sample_cached_row) [112]"
proof -
  have "digest_bytes (dl_artifact sample_downloader)"
    by (simp add: digest_bytes_def sample_downloader_env) (simp add: sample_digest_def list_all_iff)
  from servers_cannot_change_a_download [OF sample_downloads [of "[[7]]"] sample_downloads [of "[[], [7]]"] this]
  show ?thesis using sample_downloads by simp
qed

end
