(* ===== verification/Package_Files.thy ===== *)
theory Package_Files
  imports Package_Artifact
begin

text \<open>
  Directories as the installer uses them (\<open>package_installer.rs\<close>): a directory inside another one,
  the resolution of a stored path, the move of a staged directory to its place, and what extraction
  and these operations keep of a file system: unique paths whose parents are directories.
\<close>

section \<open>Operations\<close>

definition is_dir :: "tree \<Rightarrow> path_key \<Rightarrow> bool" where
  "is_dir t key \<longleftrightarrow> map_of t key = Some DirectoryNode"

definition subtree :: "path_key \<Rightarrow> tree \<Rightarrow> tree" where
  "subtree key t = map (\<lambda>(k, n). (drop (length key) k, n)) (filter (\<lambda>(k, _). take (length key) k = key \<and> k \<noteq> key) t)"

definition resolve_installed_path :: "tree \<Rightarrow> rstr \<Rightarrow> host_error + path_key" where
  "resolve_installed_path t relative_path =
     and_then (bail_if (path_is_absolute relative_path \<or> list_ex (\<lambda>c. \<not> is_normal c) (path_components relative_path)
         \<or> take 1 (path_components relative_path) \<noteq> [Normal (lit ''versions'')])
       (Bail ''installed Agent Package path is invalid'')) (\<lambda>_.
     and_then (bail_if (\<not> is_dir t (path_key relative_path))
       (Bail ''installed Agent Package directory is missing'')) (\<lambda>_.
     Inr (path_key relative_path)))"

definition sync_tree :: "tree \<Rightarrow> host_error + unit" where
  "sync_tree t = bail_if (list_ex (\<lambda>(_, n). n = SymlinkNode) t)
     (Bail ''verified Agent Package staging unexpectedly contains a symlink'')"

text \<open>\<open>rename\<close> of a directory: the destination is new, or an empty directory it takes the place of.\<close>

definition rename_into :: "path_key \<Rightarrow> tree \<Rightarrow> tree \<Rightarrow> host_error + tree" where
  "rename_into key staged t =
     (case map_of t key of
        None \<Rightarrow> Inr (t @ (key, DirectoryNode) # map (\<lambda>(k, n). (key @ k, n)) staged)
      | Some n \<Rightarrow>
          if n = DirectoryNode \<and> subtree key t = [] then Inr (t @ map (\<lambda>(k, n). (key @ k, n)) staged)
          else Inl (Context ''atomically move verified Agent Package into immutable version storage'' (Foreign ''io'')))"

section \<open>File systems\<close>

definition dirs_closed :: "tree \<Rightarrow> bool" where
  "dirs_closed t \<longleftrightarrow> (\<forall>k \<in> fst ` set t. \<forall>j. 0 < j \<and> j < length k \<longrightarrow> map_of t (take j k) = Some DirectoryNode)"

definition fs_ok :: "tree \<Rightarrow> bool" where
  "fs_ok t \<longleftrightarrow> tree_ok t \<and> dirs_closed t"

lemma fs_ok_Nil [simp]: "fs_ok []"
  by (simp add: fs_ok_def tree_ok_def dirs_closed_def)

lemma fs_ok_parent: "fs_ok t \<Longrightarrow> map_of t k = Some n \<Longrightarrow> 0 < j \<Longrightarrow> j < length k \<Longrightarrow> map_of t (take j k) = Some DirectoryNode"
  unfolding fs_ok_def dirs_closed_def by (metis fst_conv image_eqI map_of_SomeD)

lemma map_of_snoc: "map_of t k = None \<Longrightarrow> map_of (t @ [(k, n)]) = (map_of t)(k \<mapsto> n)"
  by (auto simp: fun_eq_iff map_add_def split: option.splits)

lemma fs_ok_snoc:
  assumes "fs_ok t" "map_of t k = None" "key_ok k"
    and "\<And>j. 0 < j \<Longrightarrow> j < length k \<Longrightarrow> map_of t (take j k) = Some DirectoryNode"
  shows "fs_ok (t @ [(k, n)])"
proof -
  have "k \<notin> fst ` set t" using assms(2) by (simp add: map_of_eq_None_iff)
  then have "tree_ok (t @ [(k, n)])" using assms(1,3) by (auto simp: fs_ok_def tree_ok_def)
  moreover have "map_of (t @ [(k, n)]) (take j k') = Some DirectoryNode"
    if "k' \<in> fst ` set (t @ [(k, n)])" "0 < j" "j < length k'" for k' j
  proof -
    have "map_of t (take j k') = Some DirectoryNode"
      using that assms(1,4) by (auto simp: fs_ok_def dirs_closed_def)
    then show ?thesis using assms(2) by (auto simp: map_of_snoc simp del: map_of_append)
  qed
  ultimately show ?thesis by (simp add: fs_ok_def dirs_closed_def)
qed

lemma key_ok_take: "key_ok k \<Longrightarrow> 0 < j \<Longrightarrow> key_ok (take j k)"
  by (auto simp: key_ok_def dest: in_set_takeD)

text \<open>\<open>create_dir_all\<close> adds the missing prefixes of the path and nothing else.\<close>

lemma create_dirs_ok:
  assumes "create_dirs done rest t = Inr t'" "fs_ok t" "rest \<noteq> [] \<Longrightarrow> key_ok (done @ rest)"
    and "\<And>j. 0 < j \<Longrightarrow> j \<le> length done \<Longrightarrow> map_of t (take j done) = Some DirectoryNode"
  shows "fs_ok t' \<and> (\<forall>j. 0 < j \<and> j \<le> length (done @ rest) \<longrightarrow> map_of t' (take j (done @ rest)) = Some DirectoryNode)
    \<and> (\<forall>k n. map_of t k = Some n \<longrightarrow> map_of t' k = Some n)
    \<and> (\<exists>new. t' = t @ new \<and> (\<forall>(k, n) \<in> set new. n = DirectoryNode \<and> length k \<le> length (done @ rest)))"
  using assms
proof (induction "done" rest t rule: create_dirs.induct)
  case (1 "done" t)
  then show ?case by auto
next
  case (2 "done" s rest t)
  let ?k = "done @ [s]"
  have k: "key_ok ?k" using 2(5) key_ok_take [of "done @ s # rest" "length done + 1"] by simp
  have p: "map_of t (take j ?k) = Some DirectoryNode" if "0 < j" "j < length ?k" for j
    using 2(6) [of j] that by simp
  show ?case
  proof (cases "map_of t ?k")
    case None
    then have c: "create_dirs ?k rest (t @ [(?k, DirectoryNode)]) = Inr t'" using 2(3) by simp
    have "fs_ok (t @ [(?k, DirectoryNode)])" using fs_ok_snoc [OF 2(4) None k p] .
    moreover have "map_of (t @ [(?k, DirectoryNode)]) (take j ?k) = Some DirectoryNode" if "0 < j" "j \<le> length ?k" for j
      using p [of j] that None by (cases "j = length ?k") (auto simp: map_of_snoc simp del: map_of_append)
    ultimately have ih: "fs_ok t'" "\<forall>j. 0 < j \<and> j \<le> length (?k @ rest) \<longrightarrow> map_of t' (take j (?k @ rest)) = Some DirectoryNode"
        "\<forall>k n. map_of (t @ [(?k, DirectoryNode)]) k = Some n \<longrightarrow> map_of t' k = Some n"
        "\<exists>new. t' = (t @ [(?k, DirectoryNode)]) @ new
            \<and> (\<forall>(k, n) \<in> set new. n = DirectoryNode \<and> length k \<le> length (?k @ rest))"
      using 2(1) [OF None c] 2(5) by simp_all
    have "\<forall>k n. map_of t k = Some n \<longrightarrow> map_of t' k = Some n"
      using ih(3) None unfolding map_of_snoc [OF None] by (metis fun_upd_apply option.distinct(1))
    moreover have "\<exists>new. t' = t @ new \<and> (\<forall>(k, n) \<in> set new. n = DirectoryNode \<and> length k \<le> length (done @ s # rest))"
    proof -
      from ih(4) obtain new where n: "t' = (t @ [(?k, DirectoryNode)]) @ new"
        "\<forall>(k, n) \<in> set new. n = DirectoryNode \<and> length k \<le> length (?k @ rest)" by blast
      show ?thesis by (rule exI [of _ "(?k, DirectoryNode) # new"]) (use n in auto)
    qed
    ultimately show ?thesis using ih(1,2) by simp
  next
    case (Some n)
    with 2(3) have n: "n = DirectoryNode" and c: "create_dirs ?k rest t = Inr t'" by (auto split: node.splits)
    have "map_of t (take j ?k) = Some DirectoryNode" if "0 < j" "j \<le> length ?k" for j
      using p [of j] that Some n by (cases "j = length ?k") auto
    then show ?thesis using 2(2) [OF Some n c] 2(4,5) by simp
  qed
qed

lemma create_new_file_ok:
  assumes "create_new_file k bytes t = Inr t'" "fs_ok t" "key_ok k"
    and "\<And>j. 0 < j \<Longrightarrow> j < length k \<Longrightarrow> map_of t (take j k) = Some DirectoryNode"
  shows "fs_ok t'"
proof -
  have n: "map_of t k = None" and t': "t' = t @ [(k, FileNode bytes)]"
    using assms(1) by (auto simp: create_new_file_def split: if_splits)
  show ?thesis unfolding t' using assms(2) n assms(3,4) by (rule fs_ok_snoc)
qed

lemma extract_entry_ok:
  assumes "extract_entry e x = Inr x'" "fs_ok (ex_tree x)"
  shows "fs_ok (ex_tree x')"
proof -
  obtain entry where en: "e = Some entry" using assms(1) by (cases e) (auto simp: extract_entry_def)
  obtain path k where e: "e = Some entry" "normalized_package_path path = Inr k"
    and c: "ta_kind entry = TarDirectory \<and> create_dirs [] k (ex_tree x) = Inr (ex_tree x')
      \<or> (\<exists>t bytes. create_dirs [] (butlast k) (ex_tree x) = Inr t \<and> create_new_file k bytes t = Inr (ex_tree x'))"
    using assms(1) en by (cases "ta_kind entry") (fastforce simp: extract_entry_def Let_def result_simps)+
  note k = normalized_package_path_ok(1) [OF e(2)]
  from c show ?thesis
  proof
    assume "ta_kind entry = TarDirectory \<and> create_dirs [] k (ex_tree x) = Inr (ex_tree x')"
    then show ?thesis using create_dirs_ok [of "[]" k "ex_tree x"] assms(2) k by simp
  next
    assume "\<exists>t bytes. create_dirs [] (butlast k) (ex_tree x) = Inr t \<and> create_new_file k bytes t = Inr (ex_tree x')"
    then obtain t bytes where t: "create_dirs [] (butlast k) (ex_tree x) = Inr t" "create_new_file k bytes t = Inr (ex_tree x')"
      by auto
    have b: "key_ok (butlast k)" if "butlast k \<noteq> []"
      using that k by (auto simp: key_ok_def dest: in_set_butlastD)
    note d = create_dirs_ok [OF t(1) assms(2), simplified]
    have d: "fs_ok t \<and> (\<forall>j. 0 < j \<and> j \<le> length k - Suc 0 \<longrightarrow> map_of t (take j (butlast k)) = Some DirectoryNode)"
      using d b by simp
    show ?thesis
    proof (rule create_new_file_ok [OF t(2) _ k])
      show "fs_ok t" using d by simp
      show "map_of t (take j k) = Some DirectoryNode" if "0 < j" "j < length k" for j
        proof -
          have "take j (butlast k) = take j k" using that by (simp add: take_butlast)
          then show ?thesis using d that by (metis Suc_pred less_Suc_eq_le less_trans_Suc zero_less_Suc One_nat_def less_nat_zero_code not_less_eq not_gr_zero)
        qed
    qed
  qed
qed

lemma extract_entries_ok: "extract_entries es x = Inr x' \<Longrightarrow> fs_ok (ex_tree x) \<Longrightarrow> fs_ok (ex_tree x')"
  by (induction es arbitrary: x) (auto simp: result_simps dest: extract_entry_ok)

lemma staging_ok:
  assumes "verify_to_staging E store artifact document = Inr v"
  shows "fs_ok (vp_staging v)"
  using assms extract_entries_ok [of _ "\<lparr>ex_tree = [], ex_files = [], ex_size = 0, ex_entries = 0\<rparr>"]
  by (fastforce simp: verify_to_staging_def extract_and_verify_def result_simps)

section \<open>Directories inside directories\<close>

definition graft :: "path_key \<Rightarrow> tree \<Rightarrow> tree" where
  "graft key t = map (\<lambda>(k, n). (key @ k, n)) t"

lemma fs_ok_closed: "fs_ok t \<Longrightarrow> k \<in> fst ` set t \<Longrightarrow> 0 < j \<Longrightarrow> j < length k \<Longrightarrow> map_of t (take j k) = Some DirectoryNode"
  unfolding fs_ok_def dirs_closed_def by blast

lemma subtree_append: "subtree key (t @ u) = subtree key t @ subtree key u"
  by (simp add: subtree_def)

lemma subtree_Nil_iff: "subtree key t = [] \<longleftrightarrow> (\<forall>k \<in> fst ` set t. take (length key) k = key \<longrightarrow> k = key)"
  by (auto simp: subtree_def filter_empty_conv)

lemma subtree_graft: "\<forall>k \<in> fst ` set t. k \<noteq> [] \<Longrightarrow> subtree key (graft key t) = t"
  by (induction t) (auto simp: subtree_def graft_def)

lemma subtree_graft_other: "length key' = length key \<Longrightarrow> key' \<noteq> key \<Longrightarrow> subtree key' (graft key t) = []"
  by (auto simp: subtree_Nil_iff graft_def)

lemma keys_graft: "fst ` set (graft key t) = (@) key ` (fst ` set t)"
  by (simp add: graft_def image_image case_prod_beta)

lemma map_of_graft: "map_of (graft key t) (key @ k) = map_of t k"
  by (induction t) (auto simp: graft_def)

lemma graft_ok:
  assumes "fs_ok t" "fs_ok u" "map_of t key = Some DirectoryNode" "subtree key t = []" "key_ok key"
  shows "fs_ok (t @ graft key u)" "map_of (t @ graft key u) key = Some DirectoryNode"
    "subtree key (t @ graft key u) = u" "\<And>k n. map_of t k = Some n \<Longrightarrow> map_of (t @ graft key u) k = Some n"
proof -
  have u: "\<forall>k \<in> fst ` set u. k \<noteq> []" using assms(2) by (auto simp: fs_ok_def tree_ok_def key_ok_def)
  show keep: "\<And>k n. map_of t k = Some n \<Longrightarrow> map_of (t @ graft key u) k = Some n" by simp
  show "map_of (t @ graft key u) key = Some DirectoryNode" using assms(3) by simp
  show "subtree key (t @ graft key u) = u" using subtree_graft [OF u] assms(4) by (simp add: subtree_append)
  have new: "map_of t (key @ k) = None" if "k \<noteq> []" for k
    using assms(4) that by (force simp: subtree_Nil_iff map_of_eq_None_iff)
  have "distinct (map fst (graft key u))"
  proof -
    have "map fst (graft key u) = map ((@) key) (map fst u)" by (simp add: graft_def comp_def case_prod_beta)
    then show ?thesis using assms(2) by (simp add: fs_ok_def tree_ok_def distinct_map inj_on_def)
  qed
  moreover have "fst ` set t \<inter> fst ` set (graft key u) = {}"
  proof -
    have "key @ k \<notin> fst ` set t" if "k \<in> fst ` set u" for k
      using new [of k] u that by (simp add: map_of_eq_None_iff)
    then show ?thesis unfolding keys_graft disjoint_iff by (metis imageE)
  qed
  moreover have "\<forall>k \<in> fst ` set (graft key u). key_ok k"
  proof
    fix k assume "k \<in> fst ` set (graft key u)"
    then obtain r where r: "k = key @ r" "r \<in> fst ` set u" unfolding keys_graft by blast
    then have "key_ok r" using assms(2) by (auto simp: fs_ok_def tree_ok_def)
    with r(1) assms(5) show "key_ok k" unfolding key_ok_def by (simp add: ball_Un)
  qed
  ultimately have tree: "tree_ok (t @ graft key u)" using assms(1) by (auto simp: fs_ok_def tree_ok_def)
  have "map_of (t @ graft key u) (take j k) = Some DirectoryNode"
    if k: "k \<in> fst ` set (t @ graft key u)" and j: "0 < j" "j < length k" for k j
  proof (cases "k \<in> fst ` set t")
    case True
    then show ?thesis using assms(1) j keep by (auto simp: fs_ok_def dirs_closed_def)
  next
    case False
    then obtain r where r: "k = key @ r" "r \<in> fst ` set u" using k unfolding set_append image_Un keys_graft by blast
    consider "j < length key" | "j = length key" | "length key < j" by linarith
    then show ?thesis
    proof cases
      case 1
      then show ?thesis using fs_ok_parent [OF assms(1,3), of j] j keep by (simp add: r(1))
    next
      case 2
      then show ?thesis using assms(3) by (simp add: r(1))
    next
      case 3
      let ?i = "j - length key"
      have "map_of u (take ?i r) = Some DirectoryNode"
        by (rule fs_ok_closed [OF assms(2) r(2)]) (use j(2) 3 in \<open>simp_all add: r(1)\<close>)
      moreover have "take ?i r \<noteq> []" using 3 j(2) by (auto simp: r(1))
      ultimately show ?thesis using 3 new map_of_graft [of key u] by (simp add: r(1) map_add_def)
    qed
  qed
  with tree show "fs_ok (t @ graft key u)" by (simp add: fs_ok_def dirs_closed_def)
qed

lemma rename_into_ok:
  assumes "rename_into key u t = Inr t'" "fs_ok t" "fs_ok u" "key_ok key"
    and "\<And>j. 0 < j \<Longrightarrow> j < length key \<Longrightarrow> map_of t (take j key) = Some DirectoryNode"
  shows "fs_ok t'" "map_of t' key = Some DirectoryNode" "subtree key t' = u"
    "\<And>k n. map_of t k = Some n \<Longrightarrow> map_of t' k = Some n"
    "\<And>k. length k = length key \<Longrightarrow> k \<noteq> key \<Longrightarrow> subtree k t' = subtree k t"
proof -
  define base where "base = (if map_of t key = None then t @ [(key, DirectoryNode)] else t)"
  have t': "t' = base @ graft key u" and old: "map_of t key = None \<or> map_of t key = Some DirectoryNode \<and> subtree key t = []"
    using assms(1) by (auto simp: rename_into_def base_def graft_def split: option.splits if_splits)
  have none: "subtree key t = []" if n: "map_of t key = None"
  proof (rule ccontr)
    assume "subtree key t \<noteq> []"
    then obtain k where k: "k \<in> fst ` set t" "take (length key) k = key" "k \<noteq> key" by (auto simp: subtree_Nil_iff)
    then have "length key < length k" by (metis le_less_linear take_all)
    moreover have "0 < length key" using assms(4) by (auto simp: key_ok_def)
    ultimately have "map_of t (take (length key) k) = Some DirectoryNode"
      using fs_ok_closed [OF assms(2) k(1)] by blast
    with k n show False by simp
  qed
  have b: "fs_ok base" "map_of base key = Some DirectoryNode" "subtree key base = []"
    using old none assms(2) fs_ok_snoc [OF assms(2) _ assms(4,5)]
    by (auto simp: base_def subtree_append map_add_def) (simp_all add: subtree_def)
  have keep: "map_of base k = Some n" if "map_of t k = Some n" for k n
    using that by (auto simp: base_def)
  note g = graft_ok [OF b(1) assms(3) b(2,3) assms(4)]
  show "fs_ok t'" "map_of t' key = Some DirectoryNode" "subtree key t' = u" unfolding t' using g by blast+
  show "map_of t' k = Some n" if "map_of t k = Some n" for k n using keep [OF that] g(4) unfolding t' by blast
  show "subtree k t' = subtree k t" if "length k = length key" "k \<noteq> key" for k
  proof -
    have "subtree k [(key, DirectoryNode)] = []" using that by (auto simp: subtree_def)
    then have "subtree k base = subtree k t" by (simp add: base_def subtree_append)
    then show ?thesis using subtree_graft_other [OF that, of u] by (simp add: t' subtree_append)
  qed
qed

lemma create_dirs_subtree:
  assumes "\<forall>(k, n) \<in> set new. length k < length key"
  shows "subtree key (t @ new) = subtree key t"
  using assms by (fastforce simp: subtree_append subtree_Nil_iff)

text \<open>The text of a proper path below \<open>versions\<close> resolves to it when it is a directory.\<close>

lemma key_text_relative:
  assumes "key_ok key"
  shows "\<not> path_is_absolute (path_text key)"
proof
  assume a: "path_is_absolute (path_text key)"
  then obtain r where r: "path_text key = 47 # r" by (cases "path_text key") (auto simp: path_is_absolute_def starts_with_def)
  have "str_split 47 (path_text key) = [] # str_split 47 r"
    using str_split_append_sep [of 47 "[]" r] by (simp add: r)
  then have "RootDir \<in> set (path_components (path_text key))" by (simp add: path_components_def)
  then show False using path_key_text(2) [OF assms] by auto
qed

lemma resolve_own_path:
  assumes "key_ok key" "hd key = lit ''versions''" "map_of t key = Some DirectoryNode"
  shows "resolve_installed_path t (path_text key) = Inr key"
proof -
  obtain r where "key = lit ''versions'' # r" using assms(1,2) by (cases key) (auto simp: key_ok_def)
  then show ?thesis
    using key_text_relative [OF assms(1)] path_key_text [OF assms(1)] assms(3)
    by (simp add: resolve_installed_path_def is_dir_def is_normal_def list_ex_iff)
qed

lemma resolve_installed_path_dir: "resolve_installed_path t p = Inr key \<Longrightarrow> key = path_key p \<and> map_of t key = Some DirectoryNode"
  by (auto simp: resolve_installed_path_def result_simps is_dir_def)

end
