(* ===== verification/Package_Installer.thy ===== *)
theory Package_Installer
  imports Package_Files Agent_Registry
begin

text \<open>
  \<open>package_installer.rs\<close>: the registry of installed Agent Packages, the install plan with its
  permission approval, installation, rollback, the manifests handed to the catalog and the status
  report. The package root is a directory as in \<open>Package_Artifact\<close>; installed copies lie under
  \<open>versions/\<close>. The registry is a table of its own: no other store reads or writes it.
\<close>

section \<open>Records\<close>

fun permission_as_str :: "package_permission \<Rightarrow> string" where
  "permission_as_str BrowserControl = ''browser_control''"
| "permission_as_str ExternalActions = ''external_actions''"
| "permission_as_str ExternalMutations = ''external_mutations''"
| "permission_as_str LocalFiles = ''local_files''"
| "permission_as_str NetworkAccess = ''network_access''"
| "permission_as_str ProcessExecution = ''process_execution''"

record installed_version =
  iv_version :: rstr
  iv_artifact_sha256 :: rstr
  iv_file_manifest_sha256 :: rstr
  iv_relative_path :: rstr
  iv_requested_permissions :: "package_permission list"
  iv_signature_key_id :: rstr

record installed_package =
  ip_package_id :: rstr
  ip_agent_id :: rstr
  ip_active :: installed_version
  ip_previous :: "installed_version option"
  ip_installed_at :: rstr
  ip_updated_at :: rstr

record approval_request =
  aq_package_id :: rstr
  aq_version :: rstr
  aq_added_permissions :: "rstr list"

datatype install_result = ApprovalRequired approval_request | Installed installed_package

record install_plan =
  pl_package_id :: rstr
  pl_agent_id :: rstr
  pl_version :: rstr
  pl_artifact_sha256 :: rstr
  pl_expected_active :: "rstr option"
  pl_requested_permissions :: "package_permission list"
  pl_added_permissions :: "rstr list"
  pl_already_installed :: bool

definition plan_approval_request :: "install_plan \<Rightarrow> approval_request option" where
  "plan_approval_request p =
     (if pl_added_permissions p = [] then None
      else Some \<lparr>aq_package_id = pl_package_id p, aq_version = pl_version p,
                 aq_added_permissions = pl_added_permissions p\<rparr>)"

text \<open>
  A row of \<open>agent_package_registry\<close>; the columns of the previous version are nullable.
  The JSON text of a list of permissions and the rendering of an error chain are arguments.
\<close>

record installed_row =
  ir_package_id :: rstr
  ir_agent_id :: rstr
  ir_active_version :: rstr
  ir_active_artifact_sha256 :: rstr
  ir_active_file_manifest_sha256 :: rstr
  ir_active_relative_path :: rstr
  ir_active_permissions_json :: rstr
  ir_active_signature_key_id :: rstr
  ir_previous_version :: "rstr option"
  ir_previous_artifact_sha256 :: "rstr option"
  ir_previous_file_manifest_sha256 :: "rstr option"
  ir_previous_relative_path :: "rstr option"
  ir_previous_permissions_json :: "rstr option"
  ir_previous_signature_key_id :: "rstr option"
  ir_installed_at :: rstr
  ir_updated_at :: rstr

record installer_env =
  ie_artifact :: artifact_env
  permissions_to_json :: "package_permission list \<Rightarrow> rstr"
  permissions_from_json :: "rstr \<Rightarrow> package_permission list option"
  render_error :: "host_error \<Rightarrow> rstr"

record package_store =
  ps_rows :: "installed_row list"
  ps_tree :: tree

section \<open>Reading the registry\<close>

definition parse_permissions :: "installer_env \<Rightarrow> string \<Rightarrow> rstr \<Rightarrow> host_error + package_permission list" where
  "parse_permissions E which json =
     ok_or (permissions_from_json E json)
       (Context (''parse '' @ which @ '' Agent Package permissions'') (Foreign ''serde_json''))"

definition parse_record :: "installer_env \<Rightarrow> installed_row \<Rightarrow> host_error + installed_package" where
  "parse_record E raw =
     and_then (parse_permissions E ''Active'' (ir_active_permissions_json raw)) (\<lambda>permissions.
     and_then (case (ir_previous_version raw, ir_previous_artifact_sha256 raw, ir_previous_file_manifest_sha256 raw,
                ir_previous_relative_path raw, ir_previous_permissions_json raw, ir_previous_signature_key_id raw) of
         (None, None, None, None, None, None) \<Rightarrow> Inr None
       | (Some version, Some artifact, Some manifest, Some path, Some json, Some key) \<Rightarrow>
           and_then (parse_permissions E ''Previous'' json) (\<lambda>ps.
           Inr (Some \<lparr>iv_version = version, iv_artifact_sha256 = artifact, iv_file_manifest_sha256 = manifest,
             iv_relative_path = path, iv_requested_permissions = ps, iv_signature_key_id = key\<rparr>))
       | _ \<Rightarrow> Inl (Bail ''Agent Package Registry previous version is incomplete'')) (\<lambda>previous.
     Inr \<lparr>ip_package_id = ir_package_id raw, ip_agent_id = ir_agent_id raw,
          ip_active = \<lparr>iv_version = ir_active_version raw, iv_artifact_sha256 = ir_active_artifact_sha256 raw,
            iv_file_manifest_sha256 = ir_active_file_manifest_sha256 raw,
            iv_relative_path = ir_active_relative_path raw, iv_requested_permissions = permissions,
            iv_signature_key_id = ir_active_signature_key_id raw\<rparr>,
          ip_previous = previous, ip_installed_at = ir_installed_at raw, ip_updated_at = ir_updated_at raw\<rparr>))"

definition read_record :: "installer_env \<Rightarrow> rstr \<Rightarrow> installed_row list \<Rightarrow> host_error + installed_package option" where
  "read_record E package_id rows =
     (case find (\<lambda>r. ir_package_id r = package_id) rows of
        None \<Rightarrow> Inr None
      | Some raw \<Rightarrow> and_then (parse_record E raw) (\<lambda>p. Inr (Some p)))"

definition installer_get :: "installer_env \<Rightarrow> rstr \<Rightarrow> package_store \<Rightarrow> host_error + installed_package option" where
  "installer_get E package_id st = read_record E package_id (ps_rows st)"

section \<open>Installed copies\<close>

definition ensure_installed_identity :: "package_manifest \<Rightarrow> rstr \<Rightarrow> rstr \<Rightarrow> rstr \<Rightarrow> host_error + unit" where
  "ensure_installed_identity m package_id agent_id version =
     bail_if (pm_package_id m \<noteq> package_id \<or> pa_agent_id (pm_agent m) \<noteq> agent_id \<or> pm_version m \<noteq> version)
       (Bail ''installed Agent Package identity is invalid'')"

text \<open>The manifest of one installed copy, after its directory and its identity are checked.\<close>

definition verified_manifest :: "installer_env \<Rightarrow> tree \<Rightarrow> installed_package \<Rightarrow> installed_version \<Rightarrow> host_error + package_manifest" where
  "verified_manifest E t record iv =
     and_then (resolve_installed_path t (iv_relative_path iv)) (\<lambda>dir.
     and_then (verify_installed_package_tree (ie_artifact E) (subtree dir t) (iv_file_manifest_sha256 iv)) (\<lambda>manifest.
     and_then (ensure_installed_identity manifest (ip_package_id record) (ip_agent_id record) (iv_version iv)) (\<lambda>_.
     Inr manifest)))"

definition approved_manifest :: "installer_env \<Rightarrow> tree \<Rightarrow> installed_package \<Rightarrow> installed_version \<Rightarrow> host_error + package_manifest" where
  "approved_manifest E t record iv =
     and_then (verified_manifest E t record iv) (\<lambda>manifest.
     and_then (bail_if (pm_requested_permissions manifest \<noteq> iv_requested_permissions iv)
       (Bail ''installed Agent Package permissions differ from their approved Registry'')) (\<lambda>_.
     Inr manifest))"

fun active_manifests_of :: "installer_env \<Rightarrow> package_store \<Rightarrow> rstr list \<Rightarrow> host_error + package_manifest list" where
  "active_manifests_of E st [] = Inr []"
| "active_manifests_of E st (package_id # ids) =
     and_then (read_record E package_id (ps_rows st)) (\<lambda>found.
     and_then (ok_or found (Bail ''Agent Package Registry changed while loading Catalog'')) (\<lambda>record.
     and_then (approved_manifest E (ps_tree st) record (ip_active record)) (\<lambda>manifest.
     and_then (active_manifests_of E st ids) (\<lambda>manifests.
     Inr (manifest # manifests)))))"

definition verified_active_manifests :: "installer_env \<Rightarrow> package_store \<Rightarrow> host_error + package_manifest list" where
  "verified_active_manifests E st = active_manifests_of E st (sort (map ir_package_id (ps_rows st)))"

section \<open>The install plan\<close>

definition validate_identity_and_version ::
  "installer_env \<Rightarrow> package_manifest \<Rightarrow> rstr \<Rightarrow> installed_package option \<Rightarrow> host_error + unit" where
  "validate_identity_and_version E m artifact_sha256 current =
     (case current of
        None \<Rightarrow> Inr ()
      | Some c \<Rightarrow>
          let P = ae_package (ie_artifact E); incoming = pm_version m; active = iv_version (ip_active c) in
          and_then (bail_if (ip_agent_id c \<noteq> pa_agent_id (pm_agent m)) (Bail ''Agent Package upgrade cannot change agentId'')) (\<lambda>_.
          and_then (bail_if (\<not> semver_parses P incoming) (Foreign ''semver'')) (\<lambda>_.
          and_then (bail_if (\<not> semver_parses P active) (Foreign ''semver'')) (\<lambda>_.
          case semver_precedence P incoming active of
            PrecLess \<Rightarrow> Inl (Bail ''Agent Package downgrade requires explicit rollback'')
          | PrecEqual \<Rightarrow>
              bail_if (\<not> semver_equal P incoming active \<or> iv_artifact_sha256 (ip_active c) \<noteq> artifact_sha256)
                (Bail ''Agent Package SemVer precedence is immutable and cannot change build metadata or artifact digest'')
          | PrecGreater \<Rightarrow> Inr ()))))"

definition ensure_agent_id_available :: "rstr \<Rightarrow> rstr \<Rightarrow> installed_row list \<Rightarrow> host_error + unit" where
  "ensure_agent_id_available package_id agent_id rows =
     bail_if (case find (\<lambda>r. ir_agent_id r = agent_id) rows of None \<Rightarrow> False | Some r \<Rightarrow> ir_package_id r \<noteq> package_id)
       (Bail ''agentId is already owned by another installed Package'')"

definition permission_names :: "package_permission list \<Rightarrow> rstr list" where
  "permission_names ps = map (\<lambda>p. lit (permission_as_str p)) ps"

text \<open>A \<open>BTreeSet\<close> of names comes out sorted and without duplicates.\<close>

definition added_permissions :: "installed_package option \<Rightarrow> package_manifest \<Rightarrow> rstr list" where
  "added_permissions current m =
     (let held = (case current of None \<Rightarrow> [] | Some c \<Rightarrow> permission_names (iv_requested_permissions (ip_active c)))
      in sort (remdups (filter (\<lambda>p. p \<notin> set held) (permission_names (pm_requested_permissions m)))))"

definition observe_verified_install ::
  "installer_env \<Rightarrow> verified_package \<Rightarrow> package_store \<Rightarrow> host_error + install_plan \<times> installed_package option" where
  "observe_verified_install E v st =
     and_then (verify_installed_package_tree (ie_artifact E) (vp_staging v) (vp_file_manifest_sha256 v)) (\<lambda>staged_manifest.
     and_then (bail_if (staged_manifest \<noteq> vp_manifest v) (Bail ''verified Agent Package staging identity changed'')) (\<lambda>_.
     let m = vp_manifest v in
     and_then (installer_get E (pm_package_id m) st) (\<lambda>current.
     and_then (validate_identity_and_version E m (vp_artifact_sha256 v) current) (\<lambda>_.
     and_then (ensure_agent_id_available (pm_package_id m) (pa_agent_id (pm_agent m)) (ps_rows st)) (\<lambda>_.
     Inr (\<lparr>pl_package_id = pm_package_id m, pl_agent_id = pa_agent_id (pm_agent m), pl_version = pm_version m,
           pl_artifact_sha256 = vp_artifact_sha256 v,
           pl_expected_active = map_option (\<lambda>c. iv_artifact_sha256 (ip_active c)) current,
           pl_requested_permissions = pm_requested_permissions m,
           pl_added_permissions = added_permissions current m,
           pl_already_installed = (case current of None \<Rightarrow> False
              | Some c \<Rightarrow> iv_artifact_sha256 (ip_active c) = vp_artifact_sha256 v)\<rparr>, current))))))"

definition plan_verified_install :: "installer_env \<Rightarrow> verified_package \<Rightarrow> package_store \<Rightarrow> host_error + install_plan" where
  "plan_verified_install E v st = and_then (observe_verified_install E v st) (\<lambda>(plan, _). Inr plan)"

section \<open>Installation\<close>

definition new_version_destination :: "rstr \<Rightarrow> package_manifest \<Rightarrow> rstr \<Rightarrow> tree \<Rightarrow> host_error + path_key \<times> tree" where
  "new_version_destination uuid m artifact_sha256 t =
     (let parent = [lit ''versions'', pm_package_id m, pm_version m] in
      and_then (map_err (\<lambda>_. Context ''create Package directory'' (Foreign ''io'')) (create_dirs [] parent t)) (\<lambda>t.
      Inr (parent @ [artifact_sha256 @ [45] @ uuid], t)))"

definition insert_package_row :: "installed_row \<Rightarrow> installed_row list \<Rightarrow> host_error + installed_row list" where
  "insert_package_row row rows =
     (if list_ex (\<lambda>r. ir_package_id r = ir_package_id row \<or> ir_agent_id r = ir_agent_id row) rows
      then Inl (Sql (ConstraintUnique ''agent_package_registry'')) else Inr (rows @ [row]))"

definition upgrade_row ::
  "installer_env \<Rightarrow> rstr \<Rightarrow> package_manifest \<Rightarrow> installed_version \<Rightarrow> installed_package \<Rightarrow> installed_row \<Rightarrow> installed_row" where
  "upgrade_row E now m new current r =
     r\<lparr>ir_agent_id := pa_agent_id (pm_agent m),
       ir_active_version := iv_version new, ir_active_artifact_sha256 := iv_artifact_sha256 new,
       ir_active_file_manifest_sha256 := iv_file_manifest_sha256 new, ir_active_relative_path := iv_relative_path new,
       ir_active_permissions_json := permissions_to_json E (iv_requested_permissions new),
       ir_active_signature_key_id := iv_signature_key_id new,
       ir_previous_version := Some (iv_version (ip_active current)),
       ir_previous_artifact_sha256 := Some (iv_artifact_sha256 (ip_active current)),
       ir_previous_file_manifest_sha256 := Some (iv_file_manifest_sha256 (ip_active current)),
       ir_previous_relative_path := Some (iv_relative_path (ip_active current)),
       ir_previous_permissions_json := Some (permissions_to_json E (iv_requested_permissions (ip_active current))),
       ir_previous_signature_key_id := Some (iv_signature_key_id (ip_active current)),
       ir_updated_at := now\<rparr>"

definition new_row :: "installer_env \<Rightarrow> rstr \<Rightarrow> package_manifest \<Rightarrow> installed_version \<Rightarrow> installed_row" where
  "new_row E now m new =
     \<lparr>ir_package_id = pm_package_id m, ir_agent_id = pa_agent_id (pm_agent m),
      ir_active_version = iv_version new, ir_active_artifact_sha256 = iv_artifact_sha256 new,
      ir_active_file_manifest_sha256 = iv_file_manifest_sha256 new, ir_active_relative_path = iv_relative_path new,
      ir_active_permissions_json = permissions_to_json E (iv_requested_permissions new),
      ir_active_signature_key_id = iv_signature_key_id new,
      ir_previous_version = None, ir_previous_artifact_sha256 = None, ir_previous_file_manifest_sha256 = None,
      ir_previous_relative_path = None, ir_previous_permissions_json = None, ir_previous_signature_key_id = None,
      ir_installed_at = now, ir_updated_at = now\<rparr>"

text \<open>\<open>UPDATE .. WHERE package_id = ?1\<close> under the unique constraint of the agent id.\<close>

definition update_package_row ::
  "rstr \<Rightarrow> (installed_row \<Rightarrow> installed_row) \<Rightarrow> installed_row list \<Rightarrow> host_error + installed_row list" where
  "update_package_row package_id f rows =
     (let rows' = update_where (\<lambda>r. ir_package_id r = package_id) f rows in
      if unique_on ir_agent_id rows' then Inr rows' else Inl (Sql (ConstraintUnique ''agent_package_registry'')))"

definition commit_registry ::
  "installer_env \<Rightarrow> rstr \<Rightarrow> package_manifest \<Rightarrow> installed_version \<Rightarrow> rstr option \<Rightarrow> installed_row list
     \<Rightarrow> host_error + installed_package \<times> installed_row list" where
  "commit_registry E now m new expected_active_digest rows =
     and_then (read_record E (pm_package_id m) rows) (\<lambda>current.
     and_then (bail_if (map_option (\<lambda>c. iv_artifact_sha256 (ip_active c)) current \<noteq> expected_active_digest)
       (Bail ''Agent Package Active version changed during installation'')) (\<lambda>_.
     and_then (bail_if (case current of None \<Rightarrow> False | Some c \<Rightarrow> ip_agent_id c \<noteq> pa_agent_id (pm_agent m))
       (Bail ''Agent Package upgrade cannot change agentId'')) (\<lambda>_.
     and_then (bail_if (list_ex (\<lambda>r. ir_agent_id r = pa_agent_id (pm_agent m) \<and> ir_package_id r \<noteq> pm_package_id m) rows)
       (Bail ''agentId is already owned by another installed Package'')) (\<lambda>_.
     and_then (case current of
         Some c \<Rightarrow> update_package_row (pm_package_id m) (upgrade_row E now m new c) rows
       | None \<Rightarrow> insert_package_row (new_row E now m new) rows) (\<lambda>rows'.
     and_then (read_record E (pm_package_id m) rows') (\<lambda>found.
     and_then (ok_or found (Bail ''installed Agent Package disappeared'')) (\<lambda>installed.
     Inr (installed, rows'))))))))"

text \<open>
  \<open>install_verified_against_plan\<close> in release mode; \<open>current.expect(..)\<close> is the first \<open>None\<close> branch.
  A copy that was moved stays when the registry refuses it.
\<close>

definition install_verified_against_plan ::
  "installer_env \<Rightarrow> rstr \<Rightarrow> rstr \<Rightarrow> verified_package \<Rightarrow> install_plan \<Rightarrow> installed_package option \<Rightarrow> bool
     \<Rightarrow> package_store \<Rightarrow> (host_error + install_result) \<times> package_store" where
  "install_verified_against_plan E uuid now v plan current permissions_approved st =
     (if pl_already_installed plan then
        (case current of
           None \<Rightarrow> Inl (Foreign ''panic'')
         | Some c \<Rightarrow> and_then (verified_manifest E (ps_tree st) c (ip_active c)) (\<lambda>_. Inr (Installed c)), st)
      else if pl_added_permissions plan \<noteq> [] \<and> \<not> permissions_approved then
        (Inr (ApprovalRequired \<lparr>aq_package_id = pl_package_id plan, aq_version = pl_version plan,
                aq_added_permissions = pl_added_permissions plan\<rparr>), st)
      else
        case new_version_destination uuid (vp_manifest v) (vp_artifact_sha256 v) (ps_tree st) of
          Inl e \<Rightarrow> (Inl e, st)
        | Inr (destination, t) \<Rightarrow>
        case and_then (sync_tree (vp_staging v)) (\<lambda>_. rename_into destination (vp_staging v) t) of
          Inl e \<Rightarrow> (Inl e, st\<lparr>ps_tree := t\<rparr>)
        | Inr t \<Rightarrow>
        let new = \<lparr>iv_version = pm_version (vp_manifest v), iv_artifact_sha256 = vp_artifact_sha256 v,
              iv_file_manifest_sha256 = vp_file_manifest_sha256 v, iv_relative_path = path_text destination,
              iv_requested_permissions = pm_requested_permissions (vp_manifest v),
              iv_signature_key_id = vp_signature_key_id v\<rparr> in
        case commit_registry E now (vp_manifest v) new (pl_expected_active plan) (ps_rows st) of
          Inl e \<Rightarrow> (Inl e, st\<lparr>ps_tree := t\<rparr>)
        | Inr (package, rows) \<Rightarrow> (Inr (Installed package), \<lparr>ps_rows = rows, ps_tree = t\<rparr>))"

definition install_verified_with_plan ::
  "installer_env \<Rightarrow> rstr \<Rightarrow> rstr \<Rightarrow> verified_package \<Rightarrow> install_plan \<Rightarrow> bool
     \<Rightarrow> package_store \<Rightarrow> (host_error + install_result) \<times> package_store" where
  "install_verified_with_plan E uuid now v expected_plan permissions_approved st =
     (case observe_verified_install E v st of
        Inl e \<Rightarrow> (Inl e, st)
      | Inr (observed, current) \<Rightarrow>
          if observed \<noteq> expected_plan then (Inl (Bail ''Agent Package install approval is stale''), st)
          else install_verified_against_plan E uuid now v observed current permissions_approved st)"

section \<open>Rollback\<close>

definition swap_row ::
  "installer_env \<Rightarrow> rstr \<Rightarrow> installed_version \<Rightarrow> installed_version \<Rightarrow> installed_row \<Rightarrow> installed_row" where
  "swap_row E now active previous r =
     r\<lparr>ir_active_version := iv_version previous, ir_active_artifact_sha256 := iv_artifact_sha256 previous,
       ir_active_file_manifest_sha256 := iv_file_manifest_sha256 previous,
       ir_active_relative_path := iv_relative_path previous,
       ir_active_permissions_json := permissions_to_json E (iv_requested_permissions previous),
       ir_active_signature_key_id := iv_signature_key_id previous,
       ir_previous_version := Some (iv_version active), ir_previous_artifact_sha256 := Some (iv_artifact_sha256 active),
       ir_previous_file_manifest_sha256 := Some (iv_file_manifest_sha256 active),
       ir_previous_relative_path := Some (iv_relative_path active),
       ir_previous_permissions_json := Some (permissions_to_json E (iv_requested_permissions active)),
       ir_previous_signature_key_id := Some (iv_signature_key_id active), ir_updated_at := now\<rparr>"

definition package_rollback ::
  "installer_env \<Rightarrow> rstr \<Rightarrow> rstr \<Rightarrow> package_store \<Rightarrow> (host_error + installed_package) \<times> package_store" where
  "package_rollback E now package_id st =
     (case
        and_then (read_record E package_id (ps_rows st)) (\<lambda>found.
        and_then (ok_or found (Bail ''Agent Package is not installed'')) (\<lambda>current.
        and_then (ok_or (ip_previous current) (Bail ''Agent Package has no previous version to roll back'')) (\<lambda>previous.
        and_then (verified_manifest E (ps_tree st) current previous) (\<lambda>_.
        and_then (update_package_row package_id (swap_row E now (ip_active current) previous) (ps_rows st)) (\<lambda>rows.
        and_then (read_record E package_id rows) (\<lambda>found.
        and_then (ok_or found (Bail ''rolled back Agent Package disappeared'')) (\<lambda>rolled_back.
        Inr (rolled_back, rows)))))))) of
        Inl e \<Rightarrow> (Inl e, st)
      | Inr (rolled_back, rows) \<Rightarrow> (Inr rolled_back, st\<lparr>ps_rows := rows\<rparr>))"

section \<open>Status\<close>

datatype status_kind = StatusBuiltIn | StatusInstalledActive | StatusInstalledPrevious | StatusInvalid | StatusOrphan

datatype status_slot = SlotActive | SlotPrevious

record package_status =
  st_kind :: status_kind
  st_package_id :: rstr
  st_agent_id :: "rstr option"
  st_version :: "rstr option"
  st_slot :: "status_slot option"
  st_issue :: "package_status_issue option"

text \<open>The derived order of the kinds is that of their declaration.\<close>

fun status_kind_rank :: "status_kind \<Rightarrow> nat" where
  "status_kind_rank StatusBuiltIn = 0"
| "status_kind_rank StatusInstalledActive = 1"
| "status_kind_rank StatusInstalledPrevious = 2"
| "status_kind_rank StatusInvalid = 3"
| "status_kind_rank StatusOrphan = 4"

instantiation status_kind :: linorder
begin

definition less_eq_status_kind :: "status_kind \<Rightarrow> status_kind \<Rightarrow> bool" where
  "less_eq_status_kind a b \<longleftrightarrow> status_kind_rank a \<le> status_kind_rank b"

definition less_status_kind :: "status_kind \<Rightarrow> status_kind \<Rightarrow> bool" where
  "less_status_kind a b \<longleftrightarrow> status_kind_rank a < status_kind_rank b"

instance
proof
  fix a b :: status_kind
  assume "a \<le> b" "b \<le> a" then show "a = b"
    by (cases a; cases b) (simp_all add: less_eq_status_kind_def)
qed (auto simp: less_eq_status_kind_def less_status_kind_def)

end

definition status_identity_byte :: "nat \<Rightarrow> bool" where
  "status_identity_byte b \<longleftrightarrow> is_ascii_digit b \<or> 65 \<le> b \<and> b \<le> 90 \<or> is_ascii_lowercase b \<or> b \<in> {45, 95, 46}"

definition status_identity :: "rstr \<Rightarrow> string \<Rightarrow> rstr" where
  "status_identity value fallback =
     (if value \<noteq> [] \<and> str_len value \<le> 128 \<and> list_all status_identity_byte (str_bytes value) then value
      else lit fallback)"

definition status_version :: "installer_env \<Rightarrow> rstr \<Rightarrow> rstr option" where
  "status_version E value = (if semver_parses (ae_package (ie_artifact E)) value then Some value else None)"

definition inspect_version_status ::
  "installer_env \<Rightarrow> tree \<Rightarrow> installed_package \<Rightarrow> installed_version \<Rightarrow> status_slot \<Rightarrow> package_status" where
  "inspect_version_status E t record version slot =
     (let verification = approved_manifest E t record version in
      \<lparr>st_kind = (if is_ok verification
           then (case slot of SlotActive \<Rightarrow> StatusInstalledActive | SlotPrevious \<Rightarrow> StatusInstalledPrevious)
           else StatusInvalid),
       st_package_id = status_identity (ip_package_id record) ''unrecognized-package'',
       st_agent_id = Some (status_identity (ip_agent_id record) ''unrecognized-agent''),
       st_version = status_version E (iv_version version), st_slot = Some slot,
       st_issue = (case verification of Inl e \<Rightarrow> Some (classify_package_error (render_error E e)) | Inr _ \<Rightarrow> None)\<rparr>)"

definition record_statuses :: "installer_env \<Rightarrow> tree \<Rightarrow> installed_row \<Rightarrow> package_status list" where
  "record_statuses E t raw =
     (case parse_record E raw of
        Inr record \<Rightarrow> inspect_version_status E t record (ip_active record) SlotActive
          # (case ip_previous record of None \<Rightarrow> []
             | Some previous \<Rightarrow> [inspect_version_status E t record previous SlotPrevious])
      | Inl e \<Rightarrow> [\<lparr>st_kind = StatusInvalid, st_package_id = status_identity (ir_package_id raw) ''unrecognized-package'',
          st_agent_id = Some (status_identity (ir_agent_id raw) ''unrecognized-agent''),
          st_version = status_version E (ir_active_version raw), st_slot = None,
          st_issue = Some (classify_package_error (render_error E e))\<rparr>])"

text \<open>
  The inventory: directories of the three levels under \<open>versions\<close> in visiting order. Only the
  first level can fail, when \<open>versions\<close> is not a directory; the walk stops after 1,024 entries.
\<close>

definition child_dirs :: "tree \<Rightarrow> path_key \<Rightarrow> path_key list" where
  "child_dirs t key = sort (map fst (filter (\<lambda>(k, n). k \<noteq> [] \<and> butlast k = key \<and> n = DirectoryNode) t))"

definition inventory :: "tree \<Rightarrow> path_key list" where
  "inventory t = concat (map (\<lambda>p. p # concat (map (\<lambda>v. v # child_dirs t v) (child_dirs t p)))
     (child_dirs t [lit ''versions'']))"

definition storage_issue :: "string \<Rightarrow> string \<Rightarrow> package_status" where
  "storage_issue code summary = \<lparr>st_kind = StatusInvalid, st_package_id = lit ''storage-inventory'', st_agent_id = None,
     st_version = None, st_slot = None, st_issue = Some \<lparr>issue_code = code, issue_summary = summary\<rparr>\<rparr>"

definition inspect_orphans :: "installer_env \<Rightarrow> tree \<Rightarrow> rstr list \<Rightarrow> package_status list" where
  "inspect_orphans E t referenced_paths =
     (if map_of t [lit ''versions''] \<notin> {None, Some DirectoryNode} then
        [storage_issue ''package_storage_unreadable'' ''Package storage inventory could not be read safely.'']
      else
        let visited = take 1024 (inventory t);
            orphans = filter (\<lambda>k. length k = 4 \<and> path_text k \<notin> set referenced_paths) visited;
            keys = remdups (map (\<lambda>k. (status_identity (k ! 1) ''unrecognized-package'', status_version E (k ! 2))) orphans) in
        map (\<lambda>(package_id, version). \<lparr>st_kind = StatusOrphan, st_package_id = package_id, st_agent_id = None,
               st_version = version, st_slot = None, st_issue = None\<rparr>) keys
        @ (if length (inventory t) > 1024 then [storage_issue ''package_inventory_limit_reached''
             ''Package storage inventory exceeded the safe inspection limit.''] else []))"

definition inspect_status :: "installer_env \<Rightarrow> package_store \<Rightarrow> package_status list" where
  "inspect_status E st =
     (let rows = sort_key ir_package_id (ps_rows st);
          referenced = concat (map (\<lambda>r. ir_active_relative_path r
            # (case ir_previous_relative_path r of None \<Rightarrow> [] | Some p \<Rightarrow> [p])) rows) in
      sort_key (\<lambda>s. (st_package_id s, st_kind s, case st_version s of None \<Rightarrow> [] | Some v \<Rightarrow> v))
        (concat (map (record_statuses E (ps_tree st)) rows) @ inspect_orphans E (ps_tree st) referenced))"

end
