(* ===== verification/Installer_Runs.thy ===== *)
theory Installer_Runs
  imports Package_Installer
begin

text \<open>
  The installer over time: the registry as a map of packages and the contract it implements, runs of
  installations and rollbacks with the approvals of the user, and what they keep: readable rows,
  approved permissions and intact installed copies.
\<close>

section \<open>The registry as a map of packages\<close>

definition json_roundtrip :: "installer_env \<Rightarrow> bool" where
  "json_roundtrip E \<longleftrightarrow> (\<forall>ps. permissions_from_json E (permissions_to_json E ps) = Some ps)"

definition installed_map :: "installer_env \<Rightarrow> installed_row list \<Rightarrow> rstr \<Rightarrow> installed_package option" where
  "installed_map E rows package_id = (case read_record E package_id rows of Inl _ \<Rightarrow> None | Inr found \<Rightarrow> found)"

definition registry_ok :: "installer_env \<Rightarrow> installed_row list \<Rightarrow> bool" where
  "registry_ok E rows \<longleftrightarrow> unique_on ir_package_id rows \<and> unique_on ir_agent_id rows
     \<and> (\<forall>r \<in> set rows. is_ok (parse_record E r))"

lemma registry_ok_Nil [simp]: "registry_ok E []"
  by (simp add: registry_ok_def)

lemma parse_record_columns:
  "parse_record E r = Inr p \<Longrightarrow> ip_package_id p = ir_package_id r \<and> ip_agent_id p = ir_agent_id r
     \<and> ip_installed_at p = ir_installed_at r \<and> iv_artifact_sha256 (ip_active p) = ir_active_artifact_sha256 r"
  by (auto simp: parse_record_def result_simps)

lemma read_record_Some:
  "read_record E i rows = Inr (Some p) \<longleftrightarrow> (\<exists>r. find (\<lambda>r. ir_package_id r = i) rows = Some r \<and> parse_record E r = Inr p)"
  by (auto simp: read_record_def result_simps split: option.splits)

lemma read_record_None: "read_record E i rows = Inr None \<longleftrightarrow> find (\<lambda>r. ir_package_id r = i) rows = None"
  by (auto simp: read_record_def result_simps split: option.splits)

lemma read_record_ok: "registry_ok E rows \<Longrightarrow> read_record E i rows = Inr (installed_map E rows i)"
proof (cases "find (\<lambda>r. ir_package_id r = i) rows")
  case (Some r)
  moreover assume "registry_ok E rows"
  ultimately obtain p where "parse_record E r = Inr p"
    using find_SomeD [OF Some] by (cases "parse_record E r") (auto simp: registry_ok_def)
  with Some show ?thesis by (simp add: installed_map_def read_record_def)
qed (simp add: installed_map_def read_record_def)

lemma installed_map_row:
  assumes "registry_ok E rows" "r \<in> set rows" "parse_record E r = Inr p"
  shows "installed_map E rows (ir_package_id r) = Some p"
proof -
  have "find (\<lambda>s. ir_package_id s = ir_package_id r) rows = Some r"
    by (rule unique_on_find [of ir_package_id]) (use assms in \<open>auto simp: registry_ok_def\<close>)
  with assms(3) show ?thesis by (simp add: installed_map_def read_record_def)
qed

lemma installed_map_Some:
  assumes "registry_ok E rows" "installed_map E rows i = Some p"
  shows "ip_package_id p = i \<and> (\<exists>r \<in> set rows. ir_package_id r = i \<and> parse_record E r = Inr p)"
  using read_record_ok [OF assms(1), of i] assms(2) parse_record_columns
  by (auto simp: read_record_Some dest!: find_SomeD)

lemma parse_new_row:
  "json_roundtrip E \<Longrightarrow> parse_record E (new_row E now m new) = Inr
     \<lparr>ip_package_id = pm_package_id m, ip_agent_id = pa_agent_id (pm_agent m), ip_active = new, ip_previous = None,
      ip_installed_at = now, ip_updated_at = now\<rparr>"
  by (simp add: parse_record_def new_row_def parse_permissions_def json_roundtrip_def)

lemma parse_upgrade_row:
  "json_roundtrip E \<Longrightarrow> parse_record E (upgrade_row E now m new c r) = Inr
     \<lparr>ip_package_id = ir_package_id r, ip_agent_id = pa_agent_id (pm_agent m), ip_active = new,
      ip_previous = Some (ip_active c), ip_installed_at = ir_installed_at r, ip_updated_at = now\<rparr>"
  by (simp add: parse_record_def upgrade_row_def parse_permissions_def json_roundtrip_def)

lemma parse_swap_row:
  "json_roundtrip E \<Longrightarrow> parse_record E (swap_row E now a q r) = Inr
     \<lparr>ip_package_id = ir_package_id r, ip_agent_id = ir_agent_id r, ip_active = q, ip_previous = Some a,
      ip_installed_at = ir_installed_at r, ip_updated_at = now\<rparr>"
  by (simp add: parse_record_def swap_row_def parse_permissions_def json_roundtrip_def)

lemma insert_package_row_ok:
  assumes "insert_package_row row rows = Inr rows'" "registry_ok E rows" "parse_record E row = Inr p"
  shows "registry_ok E rows' \<and> installed_map E rows' = (installed_map E rows)(ir_package_id row \<mapsto> p)
    \<and> installed_map E rows (ir_package_id row) = None"
proof -
  have n: "\<forall>r \<in> set rows. ir_package_id r \<noteq> ir_package_id row \<and> ir_agent_id r \<noteq> ir_agent_id row" and r: "rows' = rows @ [row]"
    using assms(1) by (auto simp: insert_package_row_def list_ex_iff split: if_splits)
  have ok: "registry_ok E rows'"
    using assms(2,3) n by (auto simp: registry_ok_def r intro!: unique_on_append)
  have f: "find (\<lambda>r. ir_package_id r = ir_package_id row) rows = None" using n by (auto simp: find_None_iff)
  have "installed_map E rows' i = ((installed_map E rows)(ir_package_id row \<mapsto> p)) i" for i
    using f assms(3) by (auto simp: installed_map_def read_record_def r find_append split: option.splits)
  with ok f show ?thesis by (auto simp: installed_map_def read_record_def)
qed

lemma update_package_row_ok:
  assumes "update_package_row i f rows = Inr rows'" "registry_ok E rows"
    and "find (\<lambda>r. ir_package_id r = i) rows = Some r" "parse_record E (f r) = Inr p" "ir_package_id (f r) = i"
  shows "registry_ok E rows' \<and> installed_map E rows' = (installed_map E rows)(i \<mapsto> p)"
proof -
  let ?p = "\<lambda>r. ir_package_id r = i"
  have rows': "rows' = update_where ?p f rows" and u: "unique_on ir_agent_id rows'"
    using assms(1) by (auto simp: update_package_row_def Let_def split: if_splits)
  have only: "s = r" if "s \<in> set rows" "?p s" for s
    using that find_SomeD [OF assms(3)] assms(2) unique_onD by (metis registry_ok_def)
  have eq: "rows' = map (\<lambda>s. if ?p s then f r else s) rows"
    unfolding rows' update_where_def using only by auto
  have "map ir_package_id rows' = map ir_package_id rows" unfolding eq using assms(5) by auto
  then have "unique_on ir_package_id rows'" using assms(2) by (simp add: registry_ok_def unique_on_def)
  with u assms(2,4) have ok: "registry_ok E rows'" by (auto simp: registry_ok_def eq)
  have "find (\<lambda>s. ir_package_id s = j) rows' = (if j = i then Some (f r) else find (\<lambda>s. ir_package_id s = j) rows)" for j
  proof (cases "j = i")
    case True
    have "find ?p (map (\<lambda>s. if ?p s then f r else s) rows) = Some (f r)"
      using find_SomeD [OF assms(3)] assms(5) by (induction rows) auto
    with True show ?thesis by (simp add: eq)
  next
    case False
    have "find (\<lambda>s. ir_package_id s = j) (map (\<lambda>s. if ?p s then f r else s) rows) = find (\<lambda>s. ir_package_id s = j) rows"
      using False assms(5) by (induction rows) auto
    with False show ?thesis by (simp add: eq)
  qed
  then have "installed_map E rows' j = ((installed_map E rows)(i \<mapsto> p)) j" for j
    using assms(4) by (auto simp: installed_map_def read_record_def)
  with ok show ?thesis by auto
qed

section \<open>The contract of the registry\<close>

text \<open>
  The abstract registry maps a package to its active and its previous version. An installation puts a
  new version in front, a rollback exchanges the two.
\<close>

type_synonym package_map = "rstr \<Rightarrow> installed_package option"

definition spec_install :: "rstr \<Rightarrow> package_manifest \<Rightarrow> installed_version \<Rightarrow> package_map \<Rightarrow> package_map" where
  "spec_install now m new M = M(pm_package_id m \<mapsto>
     (case M (pm_package_id m) of
        None \<Rightarrow> \<lparr>ip_package_id = pm_package_id m, ip_agent_id = pa_agent_id (pm_agent m), ip_active = new,
          ip_previous = None, ip_installed_at = now, ip_updated_at = now\<rparr>
      | Some c \<Rightarrow> c\<lparr>ip_active := new, ip_previous := Some (ip_active c), ip_updated_at := now\<rparr>))"

definition spec_swap :: "rstr \<Rightarrow> installed_version \<Rightarrow> installed_package \<Rightarrow> installed_package" where
  "spec_swap now q c = c\<lparr>ip_active := q, ip_previous := Some (ip_active c), ip_updated_at := now\<rparr>"

definition may_install :: "package_env \<Rightarrow> package_manifest \<Rightarrow> package_map \<Rightarrow> bool" where
  "may_install P m M \<longleftrightarrow>
     (\<forall>c. M (pm_package_id m) = Some c \<longrightarrow> ip_agent_id c = pa_agent_id (pm_agent m)
        \<and> semver_precedence P (pm_version m) (iv_version (ip_active c)) = PrecGreater)
     \<and> (\<forall>i c. M i = Some c \<and> ip_agent_id c = pa_agent_id (pm_agent m) \<longrightarrow> i = pm_package_id m)"

inductive spec_step :: "package_env \<Rightarrow> package_map \<Rightarrow> package_map \<Rightarrow> bool" for P where
  spec_stutter: "spec_step P M M"
| spec_install: "may_install P m M \<Longrightarrow> iv_version new = pm_version m
    \<Longrightarrow> iv_requested_permissions new = pm_requested_permissions m \<Longrightarrow> spec_step P M (spec_install now m new M)"
| spec_rollback: "M i = Some c \<Longrightarrow> ip_previous c = Some q \<Longrightarrow> spec_step P M (M(i \<mapsto> spec_swap now q c))"

lemma commit_registry_refines:
  assumes "commit_registry E now m new expected rows = Inr (p, rows')" "registry_ok E rows" "json_roundtrip E"
  shows "registry_ok E rows' \<and> installed_map E rows' = spec_install now m new (installed_map E rows)
    \<and> Some p = installed_map E rows' (pm_package_id m)
    \<and> map_option (\<lambda>c. iv_artifact_sha256 (ip_active c)) (installed_map E rows (pm_package_id m)) = expected
    \<and> (\<forall>c. installed_map E rows (pm_package_id m) = Some c \<longrightarrow> ip_agent_id c = pa_agent_id (pm_agent m))
    \<and> (\<forall>i c. installed_map E rows i = Some c \<and> ip_agent_id c = pa_agent_id (pm_agent m) \<longrightarrow> i = pm_package_id m)"
proof -
  let ?i = "pm_package_id m"
  note read = read_record_ok [OF assms(2), of ?i]
  from assms(1) obtain written where c: "map_option (\<lambda>c. iv_artifact_sha256 (ip_active c)) (installed_map E rows ?i) = expected"
      "\<forall>c. installed_map E rows ?i = Some c \<longrightarrow> ip_agent_id c = pa_agent_id (pm_agent m)"
      "\<forall>r \<in> set rows. ir_agent_id r = pa_agent_id (pm_agent m) \<longrightarrow> ir_package_id r = ?i"
    and w: "(case installed_map E rows ?i of
         Some c \<Rightarrow> update_package_row ?i (upgrade_row E now m new c) rows
       | None \<Rightarrow> insert_package_row (new_row E now m new) rows) = Inr rows'"
    and p: "read_record E ?i rows' = Inr (Some p)"
    unfolding commit_registry_def read by (auto simp: result_simps list_ex_iff split: option.splits)
  have other: "\<forall>i c. installed_map E rows i = Some c \<and> ip_agent_id c = pa_agent_id (pm_agent m) \<longrightarrow> i = ?i"
    using c(3) installed_map_Some [OF assms(2)] parse_record_columns by metis
  have eff: "registry_ok E rows' \<and> installed_map E rows' = spec_install now m new (installed_map E rows)"
  proof (cases "installed_map E rows ?i")
    case None
    then show ?thesis
      using w insert_package_row_ok [OF _ assms(2) parse_new_row [OF assms(3)], of now m new rows']
      by (simp add: spec_install_def new_row_def)
  next
    case (Some cur)
    obtain r where r: "find (\<lambda>r. ir_package_id r = ?i) rows = Some r" "parse_record E r = Inr cur"
      using read Some by (auto simp: read_record_Some)
    have "ir_package_id (upgrade_row E now m new cur r) = ?i"
      using find_SomeD [OF r(1)] by (simp add: upgrade_row_def)
    moreover have "\<lparr>ip_package_id = ir_package_id r, ip_agent_id = pa_agent_id (pm_agent m), ip_active = new,
        ip_previous = Some (ip_active cur), ip_installed_at = ir_installed_at r, ip_updated_at = now\<rparr>
      = cur\<lparr>ip_active := new, ip_previous := Some (ip_active cur), ip_updated_at := now\<rparr>"
      using parse_record_columns [OF r(2)] c(2) Some by (cases cur) simp
    moreover have "update_package_row ?i (upgrade_row E now m new cur) rows = Inr rows'" using w Some by simp
    ultimately show ?thesis
      using update_package_row_ok [OF _ assms(2) r(1) parse_upgrade_row [OF assms(3)]] Some
      by (simp add: spec_install_def)
  qed
  then have "Some p = installed_map E rows' ?i" using p read_record_ok [of E rows' ?i] by auto
  with eff c other show ?thesis by blast
qed

section \<open>What an installation and a rollback do\<close>

lemma install_cases:
  assumes "install_verified_with_plan E uuid now v plan approved st = (r, st')"
  obtains (same) "st' = st" "\<And>p. r = Inr (Installed p) \<Longrightarrow> installer_get E (pm_package_id (vp_manifest v)) st = Inr (Some p)"
    | (dirs) destination t e where
        "new_version_destination uuid (vp_manifest v) (vp_artifact_sha256 v) (ps_tree st) = Inr (destination, t)"
        "st' = st\<lparr>ps_tree := t\<rparr>" "r = Inl e"
    | (moved) destination t t' e where
        "new_version_destination uuid (vp_manifest v) (vp_artifact_sha256 v) (ps_tree st) = Inr (destination, t)"
        "rename_into destination (vp_staging v) t = Inr t'" "st' = st\<lparr>ps_tree := t'\<rparr>" "r = Inl e"
    | (installed) current destination t t' p rows where
        "observe_verified_install E v st = Inr (plan, current)" "\<not> pl_already_installed plan"
        "pl_added_permissions plan = [] \<or> approved"
        "new_version_destination uuid (vp_manifest v) (vp_artifact_sha256 v) (ps_tree st) = Inr (destination, t)"
        "rename_into destination (vp_staging v) t = Inr t'"
        "commit_registry E now (vp_manifest v) \<lparr>iv_version = pm_version (vp_manifest v), iv_artifact_sha256 = vp_artifact_sha256 v,
              iv_file_manifest_sha256 = vp_file_manifest_sha256 v, iv_relative_path = path_text destination,
              iv_requested_permissions = pm_requested_permissions (vp_manifest v),
              iv_signature_key_id = vp_signature_key_id v\<rparr> (pl_expected_active plan) (ps_rows st) = Inr (p, rows)"
        "st' = \<lparr>ps_rows = rows, ps_tree = t'\<rparr>" "r = Inr (Installed p)"
proof -
  consider (fail) e where "observe_verified_install E v st = Inl e"
    | (stale) observed current where "observe_verified_install E v st = Inr (observed, current)" "observed \<noteq> plan"
    | (go) current where "observe_verified_install E v st = Inr (plan, current)"
    by (cases "observe_verified_install E v st") fastforce+
  then show thesis
  proof cases
    case fail
    then show ?thesis using assms same by (auto simp: install_verified_with_plan_def)
  next
    case stale
    then show ?thesis using assms same by (auto simp: install_verified_with_plan_def)
  next
    case go
    have cur: "installer_get E (pm_package_id (vp_manifest v)) st = Inr current"
      using go by (auto simp: observe_verified_install_def result_simps Let_def)
    have a: "install_verified_against_plan E uuid now v plan current approved st = (r, st')"
      using assms go by (simp add: install_verified_with_plan_def)
    consider "pl_already_installed plan" | "\<not> pl_already_installed plan" "pl_added_permissions plan \<noteq> [] \<and> \<not> approved"
      | "\<not> pl_already_installed plan" "pl_added_permissions plan = [] \<or> approved" by blast
    then show ?thesis
    proof cases
      case 1
      then have "st' = st \<and> (\<forall>p. r = Inr (Installed p) \<longrightarrow> current = Some p)"
        using a by (cases current) (auto simp: install_verified_against_plan_def result_simps)
      with cur show ?thesis using same by simp
    next
      case 2
      with a show ?thesis using same by (auto simp: install_verified_against_plan_def)
    next
      case 3
      show ?thesis
      proof (cases "new_version_destination uuid (vp_manifest v) (vp_artifact_sha256 v) (ps_tree st)")
        case (Inl e)
        with a 3 show ?thesis using same by (auto simp: install_verified_against_plan_def)
      next
        case (Inr dt)
        obtain destination t where dt: "dt = (destination, t)" by (cases dt)
        show ?thesis
        proof (cases "and_then (sync_tree (vp_staging v)) (\<lambda>_. rename_into destination (vp_staging v) t)")
          case (Inl e)
          with a 3 Inr dt show ?thesis using dirs [of destination t e] by (auto simp: install_verified_against_plan_def)
        next
          case (Inr t')
          then have m: "rename_into destination (vp_staging v) t = Inr t'" by (simp add: result_simps)
          show ?thesis
          proof (cases "commit_registry E now (vp_manifest v) \<lparr>iv_version = pm_version (vp_manifest v), iv_artifact_sha256 = vp_artifact_sha256 v,
              iv_file_manifest_sha256 = vp_file_manifest_sha256 v, iv_relative_path = path_text destination,
              iv_requested_permissions = pm_requested_permissions (vp_manifest v),
              iv_signature_key_id = vp_signature_key_id v\<rparr> (pl_expected_active plan) (ps_rows st)")
            case (Inl e)
            with a 3 \<open>new_version_destination _ _ _ _ = Inr dt\<close> Inr dt m show ?thesis
              using moved [of destination t t' e] by (auto simp: install_verified_against_plan_def)
          next
            case c: (Inr pr)
            obtain p rows where pr: "pr = (p, rows)" by (cases pr)
            have "r = Inr (Installed p) \<and> st' = \<lparr>ps_rows = rows, ps_tree = t'\<rparr>"
              using a 3 \<open>new_version_destination _ _ _ _ = Inr dt\<close> Inr dt c pr by (auto simp: install_verified_against_plan_def Let_def)
            with go 3 \<open>new_version_destination _ _ _ _ = Inr dt\<close> dt m c pr show ?thesis
              using installed [of current destination t t' p rows] by simp
          qed
        qed
      qed
    qed
  qed
qed

lemma observe_ok:
  assumes "observe_verified_install E v st = Inr (plan, current)" "registry_ok E (ps_rows st)"
  shows "current = installed_map E (ps_rows st) (pm_package_id (vp_manifest v))"
    "pl_package_id plan = pm_package_id (vp_manifest v)" "pl_added_permissions plan = added_permissions current (vp_manifest v)"
    "\<not> pl_already_installed plan \<Longrightarrow> current = Some c \<Longrightarrow> semver_precedence (ae_package (ie_artifact E))
       (pm_version (vp_manifest v)) (iv_version (ip_active c)) = PrecGreater"
    "verify_installed_package_tree (ie_artifact E) (vp_staging v) (vp_file_manifest_sha256 v) = Inr (vp_manifest v)"
  using assms read_record_ok [OF assms(2)]
  by (auto simp: observe_verified_install_def installer_get_def validate_identity_and_version_def result_simps Let_def
      split: precedence.splits)

lemma package_rollback_cases:
  assumes "package_rollback E now i st = (r, st')" "registry_ok E (ps_rows st)" "json_roundtrip E"
  obtains (same) e where "st' = st" "r = Inl e"
    | (swapped) c q m where "installed_map E (ps_rows st) i = Some c" "ip_previous c = Some q"
      "verified_manifest E (ps_tree st) c q = Inr m"
      "ps_tree st' = ps_tree st" "registry_ok E (ps_rows st')"
      "installed_map E (ps_rows st') = (installed_map E (ps_rows st))(i \<mapsto> spec_swap now q c)" "r = Inr (spec_swap now q c)"
proof -
  note read = read_record_ok [OF assms(2), of i]
  show thesis
  proof (cases r)
    case (Inl e)
    then show ?thesis using assms(1) same by (auto simp: package_rollback_def split: sum.splits)
  next
    case (Inr p)
    with assms(1) obtain c q m rows where c: "installed_map E (ps_rows st) i = Some c" "ip_previous c = Some q"
        "verified_manifest E (ps_tree st) c q = Inr m"
        "update_package_row i (swap_row E now (ip_active c) q) (ps_rows st) = Inr rows"
        "read_record E i rows = Inr (Some p)" "st' = st\<lparr>ps_rows := rows\<rparr>"
      unfolding package_rollback_def read by (auto simp: result_simps split: sum.splits)
    obtain row where row: "find (\<lambda>r. ir_package_id r = i) (ps_rows st) = Some row" "parse_record E row = Inr c"
      using read c(1) by (auto simp: read_record_Some)
    have "ir_package_id (swap_row E now (ip_active c) q row) = i" using find_SomeD [OF row(1)] by (simp add: swap_row_def)
    moreover have "\<lparr>ip_package_id = ir_package_id row, ip_agent_id = ir_agent_id row, ip_active = q, ip_previous = Some (ip_active c),
        ip_installed_at = ir_installed_at row, ip_updated_at = now\<rparr> = spec_swap now q c"
      using parse_record_columns [OF row(2)] by (cases c) (simp add: spec_swap_def)
    ultimately have u: "registry_ok E rows \<and> installed_map E rows = (installed_map E (ps_rows st))(i \<mapsto> spec_swap now q c)"
      using update_package_row_ok [OF c(4) assms(2) row(1) parse_swap_row [OF assms(3)]] by simp
    then have "p = spec_swap now q c" using c(5) read_record_ok [of E rows i] by simp
    with u c Inr show ?thesis using swapped by simp
  qed
qed

section \<open>Runs\<close>

text \<open>
  A run installs packages that passed \<open>verify_to_staging\<close>, with the answer of the user to the plan it was
  given, and rolls back; when \<open>tampering\<close> is allowed, anything may happen to the package directory in
  between. \<open>A\<close> collects what the user has approved: package and permission.
\<close>

inductive package_step ::
  "installer_env \<Rightarrow> bool \<Rightarrow> (rstr \<times> rstr) set \<times> package_store \<Rightarrow> (rstr \<times> rstr) set \<times> package_store \<Rightarrow> bool"
  for E tampering where
  step_install: "verify_to_staging (ie_artifact E) trusted artifact document = Inr v \<Longrightarrow> 47 \<notin> set uuid
    \<Longrightarrow> package_step E tampering (A, st)
      (if approved then A \<union> {pl_package_id plan} \<times> set (pl_added_permissions plan) else A,
       snd (install_verified_with_plan E uuid now v plan approved st))"
| step_rollback: "package_step E tampering (A, st) (A, snd (package_rollback E now i st))"
| step_tamper: "tampering \<Longrightarrow> package_step E tampering (A, st) (A, st\<lparr>ps_tree := t\<rparr>)"

lemma package_step_cases:
  assumes "package_step E tampering (A, st) (A', st')"
  obtains (install) trusted artifact document v uuid approved plan now where
      "verify_to_staging (ie_artifact E) trusted artifact document = Inr v" "47 \<notin> set uuid"
      "A' = (if approved then A \<union> {pl_package_id plan} \<times> set (pl_added_permissions plan) else A)"
      "st' = snd (install_verified_with_plan E uuid now v plan approved st)"
    | (rollback) now i where "A' = A" "st' = snd (package_rollback E now i st)"
    | (tamper) t where "tampering" "A' = A" "st' = st\<lparr>ps_tree := t\<rparr>"
  using assms
proof (rule package_step.cases)
qed (auto intro: that)

definition empty_store :: package_store where
  "empty_store = \<lparr>ps_rows = [], ps_tree = []\<rparr>"

definition package_runs :: "installer_env \<Rightarrow> bool \<Rightarrow> (rstr \<times> rstr) set \<Rightarrow> package_store \<Rightarrow> bool" where
  "package_runs E tampering A st \<longleftrightarrow> (package_step E tampering)\<^sup>*\<^sup>* ({}, empty_store) (A, st)"

lemma package_runs_induct [consumes 1, case_names init step]:
  assumes "package_runs E tampering A st" "P {} empty_store"
    and "\<And>A st A' st'. package_runs E tampering A st \<Longrightarrow> P A st \<Longrightarrow> package_step E tampering (A, st) (A', st') \<Longrightarrow> P A' st'"
  shows "P A st"
proof -
  have "(package_step E tampering)\<^sup>*\<^sup>* ({}, empty_store) (A, st)" using assms(1) by (simp add: package_runs_def)
  then show ?thesis
  proof (induction "(A, st)" arbitrary: A st rule: rtranclp_induct)
    case (step y)
    then show ?case using assms(3) by (cases y) (auto simp: package_runs_def)
  qed (simp add: assms(2))
qed

definition named :: "installed_version \<Rightarrow> rstr set" where
  "named iv = set (permission_names (iv_requested_permissions iv))"

definition versions_of :: "installed_package \<Rightarrow> installed_version set" where
  "versions_of p = insert (ip_active p) (set_option (ip_previous p))"

definition approved_by :: "(rstr \<times> rstr) set \<Rightarrow> package_map \<Rightarrow> bool" where
  "approved_by A M \<longleftrightarrow> (\<forall>i p iv. M i = Some p \<and> iv \<in> versions_of p \<longrightarrow> {i} \<times> named iv \<subseteq> A)"

lemma approved_by_iff:
  "approved_by A M \<longleftrightarrow> (\<forall>i p. M i = Some p \<longrightarrow> (\<forall>n \<in> named (ip_active p). (i, n) \<in> A)
     \<and> (\<forall>q. ip_previous p = Some q \<longrightarrow> (\<forall>n \<in> named q. (i, n) \<in> A)))"
  unfolding approved_by_def versions_of_def by auto blast+

lemma added_permissions_cover:
  "set (permission_names (pm_requested_permissions m)) \<subseteq> set (added_permissions current m)
     \<union> (case current of None \<Rightarrow> {} | Some c \<Rightarrow> named (ip_active c))"
  by (auto simp: added_permissions_def named_def Let_def split: option.splits)

lemma approved_by_mono: "approved_by A M \<Longrightarrow> A \<subseteq> A' \<Longrightarrow> approved_by A' M"
  unfolding approved_by_def by blast

lemma approved_by_install:
  assumes "approved_by A M" "iv_requested_permissions new = pm_requested_permissions m"
    and "{pm_package_id m} \<times> set (added_permissions (M (pm_package_id m)) m) \<subseteq> A"
  shows "approved_by A (spec_install now m new M)"
proof -
  let ?i = "pm_package_id m"
  have new: "{?i} \<times> named new \<subseteq> A"
  proof
    fix x assume "x \<in> {?i} \<times> named new"
    then obtain n where x: "x = (?i, n)" "n \<in> named new" by auto
    then have "n \<in> set (added_permissions (M ?i) m) \<or> (\<exists>c. M ?i = Some c \<and> n \<in> named (ip_active c))"
      using added_permissions_cover [of m "M ?i"] assms(2) by (auto simp: named_def split: option.splits)
    then show "x \<in> A"
      using assms(1,3) x(1) unfolding approved_by_iff by blast
  qed
  show ?thesis
    using assms(1) new unfolding approved_by_iff spec_install_def
    by (auto split: option.splits if_splits)
qed

lemma approved_by_swap:
  assumes "approved_by A M" "M i = Some c" "ip_previous c = Some q"
  shows "approved_by A (M(i \<mapsto> spec_swap now q c))"
  using assms unfolding approved_by_iff spec_swap_def by auto

lemma package_step_ok:
  assumes "package_step E tampering (A, st) (A', st')" "registry_ok E (ps_rows st)" "json_roundtrip E"
  shows "registry_ok E (ps_rows st')
    \<and> spec_step (ae_package (ie_artifact E)) (installed_map E (ps_rows st)) (installed_map E (ps_rows st'))
    \<and> (approved_by A (installed_map E (ps_rows st)) \<longrightarrow> approved_by A' (installed_map E (ps_rows st')))"
  using assms(1)
proof (cases rule: package_step_cases)
  case e: (install trusted artifact document v uuid approved plan now)
  obtain r where r: "install_verified_with_plan E uuid now v plan approved st = (r, st')"
    using e(4) by (metis prod.collapse)
  have mono: "A \<subseteq> A'" using e(3) by auto
  let ?M = "installed_map E (ps_rows st)" and ?m = "vp_manifest v"
  have same: ?thesis if "ps_rows st' = ps_rows st"
    using that assms(2) approved_by_mono [OF _ mono] by (auto intro: spec_step.intros)
  show ?thesis
  proof (rule install_cases [OF r])
    assume "st' = st" then show ?thesis using same by simp
  next
    fix d t e assume "st' = st\<lparr>ps_tree := t\<rparr>" then show ?thesis using same by simp
  next
    fix d t t' e assume "st' = st\<lparr>ps_tree := t'\<rparr>" then show ?thesis using same by simp
  next
    fix current d t t' p rows
    let ?new = "\<lparr>iv_version = pm_version ?m, iv_artifact_sha256 = vp_artifact_sha256 v,
              iv_file_manifest_sha256 = vp_file_manifest_sha256 v, iv_relative_path = path_text d,
              iv_requested_permissions = pm_requested_permissions ?m, iv_signature_key_id = vp_signature_key_id v\<rparr>"
    assume o: "observe_verified_install E v st = Inr (plan, current)" and n: "\<not> pl_already_installed plan"
      and ok: "pl_added_permissions plan = [] \<or> approved" and st': "st' = \<lparr>ps_rows = rows, ps_tree = t'\<rparr>"
      and c: "commit_registry E now ?m ?new (pl_expected_active plan) (ps_rows st) = Inr (p, rows)"
    note ob = observe_ok [OF o assms(2)]
    note cr = commit_registry_refines [OF c assms(2,3)]
    have "may_install (ae_package (ie_artifact E)) ?m ?M"
      unfolding may_install_def using cr ob(4) [OF n] ob(1) by simp
    then have "spec_step (ae_package (ie_artifact E)) ?M (spec_install now ?m ?new ?M)"
      by (intro spec_step.intros) simp_all
    moreover have "{pm_package_id ?m} \<times> set (added_permissions (?M (pm_package_id ?m)) ?m) \<subseteq> A'"
      using ok e(3) ob(1-3) by (cases approved) auto
    then have "approved_by A ?M \<longrightarrow> approved_by A' (spec_install now ?m ?new ?M)"
      using approved_by_install [of A' ?M ?new ?m now] approved_by_mono [OF _ mono] by simp
    ultimately show ?thesis using cr st' by simp
  qed
next
  case e: (rollback now i)
  obtain r where r: "package_rollback E now i st = (r, st')" using e(2) by (metis prod.collapse)
  show ?thesis
    by (rule package_rollback_cases [OF r assms(2,3)])
      (use e(1) assms(2) in \<open>auto intro: spec_step.intros approved_by_swap\<close>)
next
  case (tamper t)
  then show ?thesis using assms(2) by (auto intro: spec_step.intros)
qed

lemma package_runs_ok:
  assumes "package_runs E tampering A st" "json_roundtrip E"
  shows "registry_ok E (ps_rows st) \<and> approved_by A (installed_map E (ps_rows st))"
  using assms(1)
proof (induction rule: package_runs_induct)
  case init
  then show ?case by (simp add: empty_store_def approved_by_def installed_map_def read_record_def)
next
  case (step A st A' st')
  then show ?case using package_step_ok [OF step(2)] assms(2) by simp
qed

section \<open>Installed copies stay intact\<close>

text \<open>Documented behaviour of \<open>semver\<close>: a version starts with a digit and has no slash.\<close>

definition semver_segment :: "installer_env \<Rightarrow> bool" where
  "semver_segment E \<longleftrightarrow> (\<forall>v. semver_parses (ae_package (ie_artifact E)) v \<longrightarrow> v \<noteq> [] \<and> is_ascii_digit (hd v) \<and> 47 \<notin> set v)"

definition copy_ok :: "installer_env \<Rightarrow> tree \<Rightarrow> rstr \<Rightarrow> rstr \<Rightarrow> installed_version \<Rightarrow> bool" where
  "copy_ok E t i agent iv \<longleftrightarrow> (\<exists>key m. length key = 4 \<and> key_ok key \<and> hd key = lit ''versions''
     \<and> iv_relative_path iv = path_text key \<and> map_of t key = Some DirectoryNode
     \<and> verify_installed_package_tree (ie_artifact E) (subtree key t) (iv_file_manifest_sha256 iv) = Inr m
     \<and> pm_package_id m = i \<and> pa_agent_id (pm_agent m) = agent \<and> pm_version m = iv_version iv
     \<and> pm_requested_permissions m = iv_requested_permissions iv)"

definition copies_ok :: "installer_env \<Rightarrow> package_store \<Rightarrow> bool" where
  "copies_ok E st \<longleftrightarrow> fs_ok (ps_tree st) \<and> (\<forall>i p. installed_map E (ps_rows st) i = Some p \<longrightarrow>
     copy_ok E (ps_tree st) i (ip_agent_id p) (ip_active p)
     \<and> (\<forall>q. ip_previous p = Some q \<longrightarrow> copy_ok E (ps_tree st) i (ip_agent_id p) q))"

lemma copy_ok_loads:
  assumes "copy_ok E t i agent iv" "ip_package_id p = i" "ip_agent_id p = agent"
  shows "\<exists>m. approved_manifest E t p iv = Inr m \<and> pm_package_id m = i"
  using assms resolve_own_path
  by (fastforce simp: copy_ok_def approved_manifest_def verified_manifest_def ensure_installed_identity_def)

lemma copy_ok_keeps:
  assumes "copy_ok E t i agent iv" "\<And>k n. map_of t k = Some n \<Longrightarrow> map_of t' k = Some n"
    and "\<And>k. length k = 4 \<Longrightarrow> k \<noteq> except \<Longrightarrow> subtree k t' = subtree k t"
    and "subtree except t = [] \<or> (\<forall>n. map_of t except \<noteq> Some n)"
  shows "copy_ok E t' i agent iv"
proof -
  obtain key m where k: "length key = 4" "key_ok key" "hd key = lit ''versions''" "iv_relative_path iv = path_text key"
     "map_of t key = Some DirectoryNode"
     "verify_installed_package_tree (ie_artifact E) (subtree key t) (iv_file_manifest_sha256 iv) = Inr m"
     "pm_package_id m = i" "pa_agent_id (pm_agent m) = agent" "pm_version m = iv_version iv"
     "pm_requested_permissions m = iv_requested_permissions iv"
    using assms(1) by (auto simp: copy_ok_def)
  have "verify_installed_package_tree (ie_artifact E) [] (iv_file_manifest_sha256 iv) \<noteq> Inr m"
    by (auto simp: verify_installed_package_tree_def digest_file_manifest_def result_simps)
  then have "key \<noteq> except" using assms(4) k(5,6) by auto
  then have "subtree key t' = subtree key t" using assms(3) k(1) by blast
  with k assms(2) [OF k(5)] show ?thesis unfolding copy_ok_def by metis
qed

lemma identifier_segment:
  assumes "validate_identifier field s period = Inr u"
  shows "s \<noteq> [] \<and> s \<noteq> [46] \<and> s \<noteq> [46, 46] \<and> 47 \<notin> set s"
proof -
  have l: "list_all (package_identifier_byte period) (str_bytes s)" and h: "s \<noteq> []" "hd s \<notin> {45, 46}"
    using assms by (auto simp: validate_identifier_def bail_if_eq_Inr)
  have "list_all (package_identifier_byte period) s"
    using l by (rule list_all_str_bytes) (auto simp: package_identifier_byte_def is_ascii_lowercase_def is_ascii_digit_def)
  moreover have "\<not> package_identifier_byte period 47"
    by (simp add: package_identifier_byte_def is_ascii_lowercase_def is_ascii_digit_def)
  ultimately show ?thesis using h by (auto simp: list_all_iff)
qed

lemma staged_parts:
  assumes "verify_to_staging AE trusted artifact document = Inr v"
  shows "validate_manifest (ae_package AE) (vp_manifest v) = Inr ()" "47 \<notin> set (vp_artifact_sha256 v)"
proof -
  show "validate_manifest (ae_package AE) (vp_manifest v) = Inr ()"
    using assms by (auto simp: verify_to_staging_def extract_and_verify_def parse_document_def result_simps)
  have "vp_artifact_sha256 v = sha256_hex AE artifact"
    using assms by (auto simp: verify_to_staging_def digest_artifact_def result_simps)
  then show "47 \<notin> set (vp_artifact_sha256 v)"
    by (auto simp: sha256_hex_def lower_hex_def hex_digit_def)
qed

lemma take_prefix: "j \<le> length xs \<Longrightarrow> take j (xs @ ys) = take j xs"
  by simp

lemma destination_ok:
  assumes "new_version_destination uuid m sha t = Inr (destination, t')" "fs_ok t" "semver_segment E"
    and "validate_manifest (ae_package (ie_artifact E)) m = Inr ()" "47 \<notin> set sha" "47 \<notin> set uuid"
  shows "fs_ok t'" "key_ok destination" "length destination = 4" "hd destination = lit ''versions''"
    "\<And>j. 0 < j \<Longrightarrow> j < length destination \<Longrightarrow> map_of t' (take j destination) = Some DirectoryNode"
    "\<And>k n. map_of t k = Some n \<Longrightarrow> map_of t' k = Some n"
    "\<And>k. length k = 4 \<Longrightarrow> subtree k t' = subtree k t"
proof -
  let ?parent = "[lit ''versions'', pm_package_id m, pm_version m]"
  have c: "create_dirs [] ?parent t = Inr t'" and d: "destination = ?parent @ [sha @ [45] @ uuid]"
    using assms(1) by (auto simp: new_version_destination_def Let_def result_simps)
  have i: "pm_package_id m \<noteq> [] \<and> pm_package_id m \<noteq> [46] \<and> pm_package_id m \<noteq> [46, 46] \<and> 47 \<notin> set (pm_package_id m)"
    using assms(4) identifier_segment by (auto simp: validate_manifest_def result_simps)
  have "semver_parses (ae_package (ie_artifact E)) (pm_version m)"
    using assms(4) by (auto simp: validate_manifest_def result_simps)
  then have v: "pm_version m \<noteq> []" "is_ascii_digit (hd (pm_version m))" "47 \<notin> set (pm_version m)"
    using assms(3) by (auto simp: semver_segment_def)
  then have v': "pm_version m \<noteq> [46]" "pm_version m \<noteq> [46, 46]" by (auto simp: is_ascii_digit_def)
  have "45 \<in> set (sha @ [45] @ uuid)" by simp
  moreover have "45 \<notin> set [46 :: nat]" "45 \<notin> set [46 :: nat, 46]" by simp_all
  ultimately have "sha @ [45] @ uuid \<noteq> [46] \<and> sha @ [45] @ uuid \<noteq> [46, 46]" by metis
  moreover have "47 \<notin> set (lit ''versions'')" "lit ''versions'' \<noteq> []" "lit ''versions'' \<noteq> [46]" "lit ''versions'' \<noteq> [46, 46]"
    by (simp_all add: lit_def)
  ultimately show key: "key_ok destination" using i v v' assms(5,6) by (simp add: key_ok_def d)
  have pk: "key_ok ?parent" using key key_ok_take [of destination 3] by (simp add: d)
  note o = create_dirs_ok [OF c assms(2)]
  have o: "fs_ok t' \<and> (\<forall>j. 0 < j \<and> j \<le> length ?parent \<longrightarrow> map_of t' (take j ?parent) = Some DirectoryNode)
    \<and> (\<forall>k n. map_of t k = Some n \<longrightarrow> map_of t' k = Some n)
    \<and> (\<exists>new. t' = t @ new \<and> (\<forall>(k, n) \<in> set new. n = DirectoryNode \<and> length k \<le> length ?parent))"
    using o pk by simp
  show "fs_ok t'" "length destination = 4" "hd destination = lit ''versions''" using o by (simp_all add: d)
  show "map_of t' (take j destination) = Some DirectoryNode" if "0 < j" "j < length destination" for j
  proof -
    have j: "j \<le> length ?parent" using that by (simp add: d)
    then have "take j destination = take j ?parent" unfolding d by (rule take_prefix)
    moreover have "map_of t' (take j ?parent) = Some DirectoryNode"
      using o [THEN conjunct2, THEN conjunct1, rule_format, of j] that(1) j by blast
    ultimately show ?thesis by (simp only:)
  qed
  show "map_of t' k = Some n" if "map_of t k = Some n" for k n using o that by blast
  show "subtree k t' = subtree k t" if "length k = 4" for k
  proof -
    obtain new where n: "t' = t @ new" "\<forall>(k, n) \<in> set new. n = DirectoryNode \<and> length k \<le> length ?parent" using o by blast
    have "\<forall>(k', n) \<in> set new. length k' < length k" using n(2) that by auto
    then show ?thesis unfolding n(1) by (rule create_dirs_subtree)
  qed
qed

lemma copies_ok_tree:
  assumes "copies_ok E st" "fs_ok t'" "\<And>k n. map_of (ps_tree st) k = Some n \<Longrightarrow> map_of t' k = Some n"
    and "\<And>k. length k = 4 \<Longrightarrow> k \<noteq> except \<Longrightarrow> subtree k t' = subtree k (ps_tree st)"
    and "subtree except (ps_tree st) = [] \<or> (\<forall>n. map_of (ps_tree st) except \<noteq> Some n)"
  shows "copies_ok E (st\<lparr>ps_tree := t'\<rparr>)"
  using assms(1,2) copy_ok_keeps [OF _ assms(3-5)] unfolding copies_ok_def by auto

lemma rename_into_free: "rename_into key u t = Inr t' \<Longrightarrow> subtree key t = [] \<or> (\<forall>n. map_of t key \<noteq> Some n)"
  by (auto simp: rename_into_def split: option.splits if_splits)

lemma copies_ok_step:
  assumes "package_step E False (A, st) (A', st')" "copies_ok E st" "registry_ok E (ps_rows st)" "json_roundtrip E"
    and "semver_segment E"
  shows "copies_ok E st'"
  using assms(1)
proof (cases rule: package_step_cases)
  case e: (install trusted artifact document v uuid approved plan now)
  obtain r where r: "install_verified_with_plan E uuid now v plan approved st = (r, st')" using e(4) by (metis prod.collapse)
  let ?M = "installed_map E (ps_rows st)" and ?m = "vp_manifest v"
  note fs = assms(2) [unfolded copies_ok_def, THEN conjunct1]
  note st = staged_parts [OF e(1)] staging_ok [OF e(1)]
  have dirs: "copies_ok E (st\<lparr>ps_tree := t\<rparr>)"
    if "new_version_destination uuid ?m (vp_artifact_sha256 v) (ps_tree st) = Inr (d, t)" for d t
  proof -
    note o = destination_ok [OF that fs assms(5) st(1,2) e(2)]
    have "map_of (ps_tree st) [] = None" using fs by (auto simp: map_of_eq_None_iff fs_ok_def tree_ok_def key_ok_def)
    then show ?thesis using copies_ok_tree [OF assms(2) o(1,6), of "[]"] o(7) by simp
  qed
  have move: "copies_ok E (st\<lparr>ps_tree := t'\<rparr>) \<and> subtree d t' = vp_staging v \<and> map_of t' d = Some DirectoryNode
      \<and> length d = 4 \<and> key_ok d \<and> hd d = lit ''versions''"
    if n: "new_version_destination uuid ?m (vp_artifact_sha256 v) (ps_tree st) = Inr (d, t)"
      and m: "rename_into d (vp_staging v) t = Inr t'" for d t t'
  proof -
    note o = destination_ok [OF n fs assms(5) st(1,2) e(2)]
    note k = rename_into_ok [OF m o(1) st(3) o(2) o(5)]
    have "subtree d (ps_tree st) = [] \<or> (\<forall>n. map_of (ps_tree st) d \<noteq> Some n)"
      using rename_into_free [OF m] o(3,6,7) by metis
    moreover have "subtree i t' = subtree i (ps_tree st)" if "length i = 4" "i \<noteq> d" for i
      using k(5) o(3,7) that by simp
    ultimately have "copies_ok E (st\<lparr>ps_tree := t'\<rparr>)"
      using copies_ok_tree [OF assms(2) k(1), of d] k(4) o(6) by blast
    with k o show ?thesis by blast
  qed
  show ?thesis
  proof (rule install_cases [OF r])
    assume "st' = st" then show ?thesis using assms(2) by simp
  next
    fix d t x assume "new_version_destination uuid ?m (vp_artifact_sha256 v) (ps_tree st) = Inr (d, t)"
      "st' = st\<lparr>ps_tree := t\<rparr>" then show ?thesis using dirs by simp
  next
    fix d t t' x assume "new_version_destination uuid ?m (vp_artifact_sha256 v) (ps_tree st) = Inr (d, t)"
      "rename_into d (vp_staging v) t = Inr t'" "st' = st\<lparr>ps_tree := t'\<rparr>" then show ?thesis using move by simp
  next
    fix current d t t' p rows
    let ?new = "\<lparr>iv_version = pm_version ?m, iv_artifact_sha256 = vp_artifact_sha256 v,
              iv_file_manifest_sha256 = vp_file_manifest_sha256 v, iv_relative_path = path_text d,
              iv_requested_permissions = pm_requested_permissions ?m, iv_signature_key_id = vp_signature_key_id v\<rparr>"
    assume o: "observe_verified_install E v st = Inr (plan, current)"
      and n: "new_version_destination uuid ?m (vp_artifact_sha256 v) (ps_tree st) = Inr (d, t)"
      and m: "rename_into d (vp_staging v) t = Inr t'" and st': "st' = \<lparr>ps_rows = rows, ps_tree = t'\<rparr>"
      and c: "commit_registry E now ?m ?new (pl_expected_active plan) (ps_rows st) = Inr (p, rows)"
    note mv = move [OF n m]
    note cr = commit_registry_refines [OF c assms(3,4)]
    have new: "copy_ok E t' (pm_package_id ?m) (pa_agent_id (pm_agent ?m)) ?new"
      unfolding copy_ok_def by (rule exI [of _ d], rule exI [of _ ?m]) (use mv observe_ok(5) [OF o assms(3)] in simp)
    have old: "fs_ok t' \<and> (\<forall>i p. ?M i = Some p \<longrightarrow> copy_ok E t' i (ip_agent_id p) (ip_active p)
        \<and> (\<forall>q. ip_previous p = Some q \<longrightarrow> copy_ok E t' i (ip_agent_id p) q))"
      using mv by (simp add: copies_ok_def)
    have "installed_map E rows = spec_install now ?m ?new ?M" using cr by blast
    moreover have "copy_ok E t' i (ip_agent_id q) (ip_active q)
        \<and> (\<forall>x. ip_previous q = Some x \<longrightarrow> copy_ok E t' i (ip_agent_id q) x)"
      if q: "spec_install now ?m ?new ?M i = Some q" for i q
    proof (cases "i = pm_package_id ?m")
      case True
      then show ?thesis
      proof (cases "?M i")
        case None
        then have "ip_agent_id q = pa_agent_id (pm_agent ?m)" "ip_active q = ?new" "ip_previous q = None"
          using q True by (auto simp: spec_install_def)
        with new True show ?thesis by simp
      next
        case (Some c)
        then have a: "ip_agent_id c = pa_agent_id (pm_agent ?m)" using cr True by blast
        have "ip_agent_id q = ip_agent_id c" "ip_active q = ?new" "ip_previous q = Some (ip_active c)"
          using q True Some by (auto simp: spec_install_def)
        moreover have "copy_ok E t' i (ip_agent_id c) (ip_active c)" using old Some by blast
        ultimately show ?thesis using new True a by simp
      qed
    next
      case False
      then have "?M i = Some q" using q by (simp add: spec_install_def)
      with old show ?thesis by blast
    qed
    ultimately show ?thesis using old unfolding copies_ok_def st' by simp
  qed
next
  case (rollback now i)
  obtain r where r: "package_rollback E now i st = (r, st')" using rollback(2) by (metis prod.collapse)
  show ?thesis
    by (rule package_rollback_cases [OF r assms(3,4)])
      (use assms(2) in \<open>auto simp: copies_ok_def spec_swap_def split: if_splits\<close>)
qed simp

lemma copies_ok_run:
  assumes "package_runs E False A st" "json_roundtrip E" "semver_segment E"
  shows "copies_ok E st"
  using assms(1)
proof (induction rule: package_runs_induct)
  case init
  then show ?case by (simp add: empty_store_def copies_ok_def installed_map_def read_record_def)
next
  case (step A st A' st')
  then show ?case using copies_ok_step [OF step(2)] package_runs_ok [OF step(1) assms(2)] assms(2,3) by simp
qed

lemma active_manifests_of_ok:
  assumes "registry_ok E (ps_rows st)" "copies_ok E st"
    and "\<forall>i \<in> set ids. \<exists>p. installed_map E (ps_rows st) i = Some p"
  shows "\<exists>ms. active_manifests_of E st ids = Inr ms \<and> map pm_package_id ms = ids"
  using assms(3)
proof (induction ids)
  case (Cons i ids)
  then obtain p ms where p: "installed_map E (ps_rows st) i = Some p"
    and ms: "active_manifests_of E st ids = Inr ms" "map pm_package_id ms = ids" by auto
  have "copy_ok E (ps_tree st) i (ip_agent_id p) (ip_active p)" using assms(2) p by (simp add: copies_ok_def)
  then obtain m where "approved_manifest E (ps_tree st) p (ip_active p) = Inr m" "pm_package_id m = i"
    using copy_ok_loads installed_map_Some [OF assms(1) p] by blast
  with ms p read_record_ok [OF assms(1), of i] show ?case by simp
qed simp

lemma active_manifests_of_approved:
  assumes "active_manifests_of E st ids = Inr ms" "m \<in> set ms" "registry_ok E (ps_rows st)"
  shows "\<exists>p. installed_map E (ps_rows st) (pm_package_id m) = Some p \<and> ip_agent_id p = pa_agent_id (pm_agent m)
    \<and> pm_version m = iv_version (ip_active p) \<and> pm_requested_permissions m = iv_requested_permissions (ip_active p)"
  using assms(1,2)
proof (induction ids arbitrary: ms)
  case (Cons i ids)
  from Cons.prems(1) obtain p a rest where p: "read_record E i (ps_rows st) = Inr (Some p)"
      "approved_manifest E (ps_tree st) p (ip_active p) = Inr a" "active_manifests_of E st ids = Inr rest" "ms = a # rest"
    by (auto simp: result_simps)
  have i: "installed_map E (ps_rows st) i = Some p" using p(1) read_record_ok [OF assms(3), of i] by simp
  show ?case
  proof (cases "m = a")
    case True
    then show ?thesis using p(2) i installed_map_Some [OF assms(3) i]
      by (auto simp: approved_manifest_def verified_manifest_def ensure_installed_identity_def result_simps)
  next
    case False
    then show ?thesis using Cons p by auto
  qed
qed simp

section \<open>Properties\<close>

text \<open>C11: the installer implements the package map. Whatever an installation or a rollback does, with
  anything happening to the package directory in between, the registry moves as the map of packages
  allows: it stays, a version of strictly higher precedence takes the place of the active one for the
  same agent, which becomes the previous one, or active and previous are exchanged. Rows stay
  readable and no agent id ever belongs to two packages.\<close>

theorem installer_refines_package_map:
  assumes "package_runs E tampering A st" "package_step E tampering (A, st) (A', st')" "json_roundtrip E"
  shows "registry_ok E (ps_rows st')
    \<and> spec_step (ae_package (ie_artifact E)) (installed_map E (ps_rows st)) (installed_map E (ps_rows st'))"
  using package_step_ok [OF assms(2)] package_runs_ok [OF assms(1,3)] assms(3) by blast

text \<open>C10: no package acts with a permission its user was never asked for. In every run, tampering with
  the package directory included, each permission of the active or previous version of a package was
  part of a plan for that package which the user approved; and every manifest handed to the catalog is
  that of an installed package, with the version and exactly the permissions of its active version.\<close>

theorem active_permissions_were_approved:
  assumes "package_runs E tampering A st" "json_roundtrip E"
  shows "(\<forall>i p iv. installed_map E (ps_rows st) i = Some p \<and> iv \<in> versions_of p \<longrightarrow> {i} \<times> named iv \<subseteq> A)
    \<and> (\<forall>ms. verified_active_manifests E st = Inr ms \<longrightarrow>
         (\<forall>m \<in> set ms. \<exists>p. installed_map E (ps_rows st) (pm_package_id m) = Some p
            \<and> pm_version m = iv_version (ip_active p)
            \<and> pm_requested_permissions m = iv_requested_permissions (ip_active p)
            \<and> {pm_package_id m} \<times> set (permission_names (pm_requested_permissions m)) \<subseteq> A))"
proof -
  note ok = package_runs_ok [OF assms]
  have "\<exists>p. installed_map E (ps_rows st) (pm_package_id m) = Some p \<and> pm_version m = iv_version (ip_active p)
      \<and> pm_requested_permissions m = iv_requested_permissions (ip_active p)
      \<and> {pm_package_id m} \<times> set (permission_names (pm_requested_permissions m)) \<subseteq> A"
    if ms: "verified_active_manifests E st = Inr ms" and m: "m \<in> set ms" for ms m
  proof -
    obtain p where p: "installed_map E (ps_rows st) (pm_package_id m) = Some p"
      "pm_version m = iv_version (ip_active p)" "pm_requested_permissions m = iv_requested_permissions (ip_active p)"
      using active_manifests_of_approved [OF ms [unfolded verified_active_manifests_def] m] ok by blast
    then have "{pm_package_id m} \<times> named (ip_active p) \<subseteq> A" using ok by (auto simp: approved_by_iff)
    with p show ?thesis by (simp add: named_def)
  qed
  with ok show ?thesis unfolding approved_by_def by blast
qed

text \<open>C12: installed packages load. As long as nobody tampers with the package directory, after every
  run of installations and rollbacks the manifests of all active versions verify, in the order of
  their package ids: failed installations and the copies they leave behind never harm another package.\<close>

theorem installed_packages_load:
  assumes "package_runs E False A st" "json_roundtrip E" "semver_segment E"
  shows "\<exists>ms. verified_active_manifests E st = Inr ms \<and> map pm_package_id ms = sort (map ir_package_id (ps_rows st))"
proof -
  note ok = package_runs_ok [OF assms(1,2)]
  have "\<exists>p. installed_map E (ps_rows st) i = Some p" if i: "i \<in> set (sort (map ir_package_id (ps_rows st)))" for i
  proof -
    from i obtain r where r: "r \<in> set (ps_rows st)" "ir_package_id r = i" by auto
    then obtain p where "parse_record E r = Inr p" using ok by (cases "parse_record E r") (auto simp: registry_ok_def)
    with installed_map_row [of E "ps_rows st" r p] ok r show ?thesis by auto
  qed
  then show ?thesis
    using active_manifests_of_ok [of E st "sort (map ir_package_id (ps_rows st))"] copies_ok_run [OF assms] ok
    by (auto simp: verified_active_manifests_def)
qed

text \<open>a rollback is undone by another one. When a rollback succeeds, the previous version is active,
  verified at that moment, and a second rollback that succeeds restores both versions of the package;
  other packages are untouched.\<close>

theorem rollback_is_involutive:
  assumes "registry_ok E (ps_rows st)" "json_roundtrip E"
    and "package_rollback E now i st = (Inr p, st')" "package_rollback E now' i st' = (Inr p', st'')"
  shows "\<exists>c. installed_map E (ps_rows st) i = Some c \<and> ip_previous c = Some (ip_active p) \<and> ip_previous p = Some (ip_active c)
    \<and> ip_active p' = ip_active c \<and> ip_previous p' = ip_previous c
    \<and> installed_map E (ps_rows st'') = (installed_map E (ps_rows st))(i \<mapsto> c\<lparr>ip_updated_at := now'\<rparr>)"
proof (rule package_rollback_cases [OF assms(3,1,2)])
  fix c q m assume c: "installed_map E (ps_rows st) i = Some c" "ip_previous c = Some q" "registry_ok E (ps_rows st')"
    "installed_map E (ps_rows st') = (installed_map E (ps_rows st))(i \<mapsto> spec_swap now q c)" "Inr p = Inr (spec_swap now q c)"
  show ?thesis
  proof (rule package_rollback_cases [OF assms(4) c(3) assms(2)])
    fix c' q' m' assume c': "installed_map E (ps_rows st') i = Some c'" "ip_previous c' = Some q'"
      "installed_map E (ps_rows st'') = (installed_map E (ps_rows st'))(i \<mapsto> spec_swap now' q' c')"
      "Inr p' = Inr (spec_swap now' q' c')"
    have "c' = spec_swap now q c" "q' = ip_active c" using c' c by (auto simp: spec_swap_def)
    with c c' show ?thesis by (auto simp: spec_swap_def)
  qed simp
qed simp

section \<open>Applied to a concrete package\<close>

fun permission_code :: "package_permission \<Rightarrow> nat" where
  "permission_code BrowserControl = 0" | "permission_code ExternalActions = 1" | "permission_code ExternalMutations = 2"
| "permission_code LocalFiles = 3" | "permission_code NetworkAccess = 4" | "permission_code ProcessExecution = 5"

definition code_permission :: "nat \<Rightarrow> package_permission" where
  "code_permission n = (if n = 0 then BrowserControl else if n = 1 then ExternalActions else if n = 2 then ExternalMutations
     else if n = 3 then LocalFiles else if n = 4 then NetworkAccess else ProcessExecution)"

definition sample_installer_env :: installer_env where
  "sample_installer_env = \<lparr>ie_artifact = sample_artifact_env, permissions_to_json = map permission_code,
     permissions_from_json = (\<lambda>j. Some (map code_permission j)), render_error = (\<lambda>_. [])\<rparr>"

lemma sample_json: "json_roundtrip sample_installer_env"
proof -
  have "code_permission (permission_code p) = p" for p by (cases p) (simp_all add: code_permission_def)
  then show ?thesis by (simp add: json_roundtrip_def sample_installer_env_def comp_def)
qed

lemma sample_semver_segment: "semver_segment sample_installer_env"
  by (auto simp: semver_segment_def sample_installer_env_def sample_artifact_env_def sample_package_env_def is_ascii_digit_def)

definition sample_destination :: "rstr \<Rightarrow> path_key" where
  "sample_destination uuid = [lit ''versions'', [112], [49], lower_hex (sample_digest sample_artifact) @ [45] @ uuid]"

definition sample_dirs :: tree where
  "sample_dirs = [([lit ''versions''], DirectoryNode), ([lit ''versions'', [112]], DirectoryNode),
     ([lit ''versions'', [112], [49]], DirectoryNode)]"

definition sample_version :: "rstr \<Rightarrow> installed_version" where
  "sample_version uuid = \<lparr>iv_version = [49], iv_artifact_sha256 = lower_hex (sample_digest sample_artifact),
     iv_file_manifest_sha256 = lower_hex (sample_digest [50]), iv_relative_path = path_text (sample_destination uuid),
     iv_requested_permissions = [LocalFiles], iv_signature_key_id = [107]\<rparr>"

definition sample_plan :: install_plan where
  "sample_plan = \<lparr>pl_package_id = [112], pl_agent_id = [97], pl_version = [49],
     pl_artifact_sha256 = lower_hex (sample_digest sample_artifact), pl_expected_active = None,
     pl_requested_permissions = [LocalFiles], pl_added_permissions = [lit ''local_files''], pl_already_installed = False\<rparr>"

definition sample_store :: package_store where
  "sample_store = \<lparr>ps_rows = [new_row sample_installer_env [116] sample_manifest (sample_version [117])],
     ps_tree = sample_dirs @ (sample_destination [117], DirectoryNode) # graft (sample_destination [117]) sample_tree\<rparr>"

lemma sample_manifest_fields:
  "pm_package_id sample_manifest = [112]" "pm_version sample_manifest = [49]" "pa_agent_id (pm_agent sample_manifest) = [97]"
  "pm_requested_permissions sample_manifest = [LocalFiles]"
  by (simp_all add: sample_manifest_def)

lemma sample_tree_loads:
  "verify_installed_package_tree sample_artifact_env sample_tree (lower_hex (sample_digest [50])) = Inr sample_manifest"
  using sample_tree_verified [of sample_tree] by simp

lemma sample_observed:
  "observe_verified_install sample_installer_env sample_staged empty_store = Inr (sample_plan, None)"
  by (simp add: observe_verified_install_def sample_staged_def sample_tree_loads sample_installer_env_def installer_get_def
      empty_store_def read_record_def validate_identity_and_version_def ensure_agent_id_available_def Let_def
      sample_plan_def sample_manifest_fields added_permissions_def permission_names_def)

lemma sample_install:
  "install_verified_with_plan sample_installer_env [117] [116] sample_staged sample_plan True empty_store
    = (Inr (Installed \<lparr>ip_package_id = [112], ip_agent_id = [97], ip_active = sample_version [117], ip_previous = None,
         ip_installed_at = [116], ip_updated_at = [116]\<rparr>), sample_store)"
proof -
  have n: "new_version_destination [117] sample_manifest (lower_hex (sample_digest sample_artifact)) [] = Inr (sample_destination [117], sample_dirs)"
    by (simp add: new_version_destination_def sample_destination_def sample_manifest_fields sample_dirs_def)
  have r: "rename_into (sample_destination [117]) sample_tree sample_dirs
      = Inr (sample_dirs @ (sample_destination [117], DirectoryNode) # graft (sample_destination [117]) sample_tree)"
    by (simp add: rename_into_def graft_def sample_destination_def sample_dirs_def)
  have s: "sync_tree sample_tree = Inr ()" by (simp add: sync_tree_def sample_tree_def)
  note p = parse_new_row [OF sample_json, of "[116]" sample_manifest "sample_version [117]"]
  have i: "ir_package_id (new_row sample_installer_env [116] sample_manifest (sample_version [117])) = [112]"
    by (simp add: new_row_def sample_manifest_fields)
  have c: "commit_registry sample_installer_env [116] sample_manifest (sample_version [117]) None []
      = Inr (\<lparr>ip_package_id = [112], ip_agent_id = [97], ip_active = sample_version [117], ip_previous = None,
         ip_installed_at = [116], ip_updated_at = [116]\<rparr>, [new_row sample_installer_env [116] sample_manifest (sample_version [117])])"
    using p i by (simp add: commit_registry_def read_record_def insert_package_row_def sample_manifest_fields)
  show ?thesis
    using sample_observed n r s c
    by (simp add: install_verified_with_plan_def install_verified_against_plan_def sample_plan_def sample_staged_def
        empty_store_def sample_store_def sample_version_def sample_manifest_fields Let_def)
qed

lemma sample_step: "package_step sample_installer_env tampering ({}, empty_store) ({([112], lit ''local_files'')}, sample_store)"
proof -
  have "verify_to_staging (ie_artifact sample_installer_env) sample_publisher_store sample_artifact [101] = Inr sample_staged"
    using sample_staging by (simp add: sample_installer_env_def)
  from step_install [OF this, of "[117]" tampering "{}" empty_store True sample_plan "[116]"]
  moreover have "pl_package_id sample_plan = [112]" "pl_added_permissions sample_plan = [lit ''local_files'']"
    by (simp_all add: sample_plan_def)
  ultimately show ?thesis by (simp add: sample_install)
qed

lemma sample_installer_run: "package_runs sample_installer_env tampering {([112], lit ''local_files'')} sample_store"
  using sample_step by (simp add: package_runs_def r_into_rtranclp)

lemma sample_start: "package_runs E tampering {} empty_store"
  by (simp add: package_runs_def)

lemma sample_map: "installed_map sample_installer_env (ps_rows sample_store) [112] = Some \<lparr>ip_package_id = [112], ip_agent_id = [97],
    ip_active = sample_version [117], ip_previous = None, ip_installed_at = [116], ip_updated_at = [116]\<rparr>"
  using parse_new_row [OF sample_json, of "[116]" sample_manifest "sample_version [117]"]
  by (simp add: installed_map_def read_record_def sample_store_def new_row_def sample_manifest_fields)

lemma installer_refines_package_map_witness:
  "spec_step (ae_package (ie_artifact sample_installer_env)) (installed_map sample_installer_env (ps_rows empty_store))
     (installed_map sample_installer_env (ps_rows sample_store))"
  using installer_refines_package_map [OF sample_start sample_step sample_json] by blast

lemma active_permissions_were_approved_witness:
  "{[112]} \<times> named (sample_version [117]) \<subseteq> {([112 :: nat], lit ''local_files'')}"
  using active_permissions_were_approved [OF sample_installer_run sample_json] sample_map by (fastforce simp: versions_of_def)

lemma installed_packages_load_witness:
  "\<exists>ms. verified_active_manifests sample_installer_env sample_store = Inr ms \<and> map pm_package_id ms = [[112]]"
  using installed_packages_load [OF sample_installer_run sample_json sample_semver_segment]
  by (simp add: sample_store_def new_row_def sample_manifest_fields)

text \<open>Two copies of the package, to roll back between.\<close>

definition sample_rollback_tree :: tree where
  "sample_rollback_tree = sample_dirs @ [(sample_destination [117], DirectoryNode)] @ graft (sample_destination [117]) sample_tree
     @ [(sample_destination [118], DirectoryNode)] @ graft (sample_destination [118]) sample_tree"

definition sample_rollback_store :: "rstr \<Rightarrow> rstr \<Rightarrow> rstr \<Rightarrow> package_store" where
  "sample_rollback_store now a b = \<lparr>ps_rows = [upgrade_row sample_installer_env now sample_manifest (sample_version a)
      \<lparr>ip_package_id = [112], ip_agent_id = [97], ip_active = sample_version b, ip_previous = None, ip_installed_at = [116],
       ip_updated_at = [116]\<rparr> (new_row sample_installer_env [116] sample_manifest (sample_version b))],
     ps_tree = sample_rollback_tree\<rparr>"

lemma sample_rollback_ok: "registry_ok sample_installer_env (ps_rows (sample_rollback_store now a b))"
  by (simp add: sample_rollback_store_def registry_ok_def unique_on_def parse_upgrade_row [OF sample_json])

lemma sample_copies: "uuid = [117] \<or> uuid = [118] \<Longrightarrow> copy_ok sample_installer_env sample_rollback_tree [112] [97] (sample_version uuid)"
proof -
  assume u: "uuid = [117] \<or> uuid = [118]"
  have n: "\<forall>k \<in> fst ` set sample_tree. k \<noteq> []" by (simp add: sample_tree_def package_manifest_path_def file_manifest_path_def)
  have o: "subtree (sample_destination i) (graft (sample_destination j) sample_tree) = []" if "i \<noteq> j" for i j
    by (rule subtree_graft_other) (use that in \<open>simp_all add: sample_destination_def\<close>)
  have d: "subtree (sample_destination i) sample_dirs = []" "subtree (sample_destination i) [(sample_destination j, DirectoryNode)] = []" for i j
    by (auto simp: subtree_Nil_iff sample_dirs_def sample_destination_def)
  have "subtree (sample_destination uuid) sample_rollback_tree = sample_tree"
    using u o subtree_graft [OF n] d by (elim disjE) (simp_all add: sample_rollback_tree_def subtree_append del: append_Cons)
  moreover have "map_of sample_rollback_tree (sample_destination uuid) = Some DirectoryNode"
    using u by (auto simp: sample_rollback_tree_def sample_destination_def sample_dirs_def graft_def sample_tree_def)
  moreover have "key_ok (sample_destination uuid)"
    using u sample_digest_hex by (auto simp: key_ok_def sample_destination_def lit_def sample_artifact_def)
  ultimately show ?thesis
    unfolding copy_ok_def
    by (intro exI [of _ "sample_destination uuid"] exI [of _ sample_manifest])
      (simp add: sample_installer_env_def sample_version_def sample_tree_loads sample_manifest_fields, simp add: sample_destination_def)
qed

lemma sample_rollback:
  assumes "a \<in> {[117], [118]}" "b \<in> {[117], [118]}"
  shows "package_rollback sample_installer_env t [112] (sample_rollback_store now a b)
    = (Inr \<lparr>ip_package_id = [112], ip_agent_id = [97], ip_active = sample_version b, ip_previous = Some (sample_version a),
         ip_installed_at = [116], ip_updated_at = t\<rparr>, sample_rollback_store t b a)"
proof -
  define c where "c x y u = \<lparr>ip_package_id = [112 :: nat], ip_agent_id = [97 :: nat], ip_active = sample_version x,
      ip_previous = Some (sample_version y), ip_installed_at = [116 :: nat], ip_updated_at = u\<rparr>" for x y u
  let ?row = "\<lambda>x y u. upgrade_row sample_installer_env u sample_manifest (sample_version x)
      \<lparr>ip_package_id = [112], ip_agent_id = [97], ip_active = sample_version y, ip_previous = None, ip_installed_at = [116],
       ip_updated_at = [116]\<rparr> (new_row sample_installer_env [116] sample_manifest (sample_version y))"
  have row: "parse_record sample_installer_env (?row x y u) = Inr (c x y u)" "ir_package_id (?row x y u) = [112]" for x y u
    by (simp_all add: parse_upgrade_row [OF sample_json] c_def sample_manifest_fields) (simp_all add: upgrade_row_def new_row_def sample_manifest_fields)
  have rows: "ps_rows (sample_rollback_store u x y) = [?row x y u]" "ps_tree (sample_rollback_store u x y) = sample_rollback_tree" for u x y
    by (simp_all add: sample_rollback_store_def)
  have read: "read_record sample_installer_env [112] [?row x y u] = Inr (Some (c x y u))" for x y u
    by (simp add: read_record_def row)
  obtain m where m: "approved_manifest sample_installer_env sample_rollback_tree (c a b now) (sample_version b) = Inr m"
    using copy_ok_loads [OF sample_copies [of b], of "c a b now"] assms(2) by (auto simp: c_def)
  then have v: "verified_manifest sample_installer_env sample_rollback_tree (c a b now) (sample_version b) = Inr m"
    by (auto simp: approved_manifest_def result_simps)
  have swap: "swap_row sample_installer_env t (sample_version a) (sample_version b) (?row a b now) = ?row b a t"
    by (simp add: swap_row_def upgrade_row_def new_row_def sample_manifest_fields sample_version_def)
  have u: "update_package_row [112] (swap_row sample_installer_env t (sample_version a) (sample_version b)) [?row a b now]
      = Inr [?row b a t]"
    by (simp add: update_package_row_def update_where_def row swap unique_on_def)
  have cf: "ip_active (c x y u) = sample_version x" "ip_previous (c x y u) = Some (sample_version y)" for x y u
    by (simp_all add: c_def)
  show ?thesis
    unfolding package_rollback_def rows read by (simp add: cf v u read) (simp add: c_def sample_rollback_store_def)
qed

lemma rollback_is_involutive_witness:
  "\<exists>c. installed_map sample_installer_env (ps_rows (sample_rollback_store [48] [117] [118])) [112] = Some c
    \<and> ip_active c = sample_version [117]"
proof -
  have a: "package_rollback sample_installer_env [49] [112] (sample_rollback_store [48] [117] [118])
      = (Inr \<lparr>ip_package_id = [112], ip_agent_id = [97], ip_active = sample_version [118], ip_previous = Some (sample_version [117]),
         ip_installed_at = [116], ip_updated_at = [49]\<rparr>, sample_rollback_store [49] [118] [117])"
    "package_rollback sample_installer_env [50] [112] (sample_rollback_store [49] [118] [117])
      = (Inr \<lparr>ip_package_id = [112], ip_agent_id = [97], ip_active = sample_version [117], ip_previous = Some (sample_version [118]),
         ip_installed_at = [116], ip_updated_at = [50]\<rparr>, sample_rollback_store [50] [117] [118])"
    by (rule sample_rollback; simp)+
  show ?thesis
    using rollback_is_involutive [OF sample_rollback_ok sample_json a] by auto
qed

end
