(* ===== verification/Package_Delivery.thy ===== *)
theory Package_Delivery
  imports Package_Downloader Installer_Runs Client_Access "HOL-Library.AList"
begin

text \<open>
  \<open>package_delivery.rs\<close>: a download is planned; when the plan adds permissions it waits under a random
  identifier until the account that asked for it approves, otherwise it is installed. Every change of
  the registry is followed by a refresh of the catalog under the same lock, and the answer tells
  whether the change is visible in the catalog.
\<close>

section \<open>Data\<close>

record pending_approval =
  pn_owner :: int
  pn_expires_at :: nat
  pn_plan :: install_plan
  pn_download :: package_download

text \<open>
  \<open>ds_uuid_parse\<close> is \<open>Uuid::parse_str\<close>, giving the canonical text; the map of pending approvals is keyed
  by it. \<open>ds_builtin\<close> are the documents of the built-in packages.
\<close>

record delivery_service =
  ds_downloader :: downloader
  ds_installer :: installer_env
  ds_time :: time_env
  ds_builtin :: "rstr list"
  ds_uuid_parse :: "rstr \<Rightarrow> rstr option"
  ds_approval_ttl :: nat

type_synonym pending_map = "(rstr \<times> pending_approval) list"

record delivery_state =
  dy_cache :: "cached_trust_row option"
  dy_store :: package_store
  dy_catalog :: catalog_state
  dy_pending :: pending_map

record approval_challenge =
  ac_approval_id :: rstr
  ac_package_id :: rstr
  ac_version :: rstr
  ac_added_permissions :: "rstr list"
  ac_expires_in_seconds :: nat

datatype runtime_visibility =
    Visible nat nat
  | Superseded nat nat rstr
  | RefreshPending nat "nat option" package_status_issue

record mutation_receipt =
  mr_package_id :: rstr
  mr_agent_id :: rstr
  mr_version :: rstr
  mr_runtime_visibility :: runtime_visibility

datatype delivery_result = DeliveryApprovalRequired approval_challenge | DeliveryInstalled mutation_receipt

definition approval_ttl :: nat where "approval_ttl = 600 * nanos"
definition max_pending_approvals :: nat where "max_pending_approvals = 32"

section \<open>The account\<close>

text \<open>\<open>require\<close> and \<open>current_account_id\<close> lock the gate one after the other: two readings of state and clock.\<close>

record account_reading =
  aa_gate :: "access_state \<times> nat"
  aa_account :: "access_state \<times> nat"

definition require_account :: "account_reading \<Rightarrow> host_error + int" where
  "require_account r =
     and_then (map_err (\<lambda>_. Bail ''Agent Package delivery requires active subscription'')
       (require_state (fst (aa_gate r)) None (snd (aa_gate r)))) (\<lambda>_.
     ok_or (current_account_id (fst (aa_account r)) (snd (aa_account r)))
       (Bail ''Agent Package delivery requires an active account''))"

definition require_same_account :: "account_reading \<Rightarrow> int \<Rightarrow> string \<Rightarrow> host_error + unit" where
  "require_same_account r owner message =
     and_then (require_account r) (\<lambda>now_owner. bail_if (now_owner \<noteq> owner) (Bail message))"

section \<open>The catalog\<close>

definition load_runtime_package_catalog :: "installer_env \<Rightarrow> rstr list \<Rightarrow> package_store \<Rightarrow> rstr + package_catalog" where
  "load_runtime_package_catalog E builtin st =
     map_err (render_error E)
       (and_then (with_context ''verify installed Active Agent Packages'' (verified_active_manifests E st)) (\<lambda>installed.
        with_context ''merge built-in and installed Active Agent Packages''
          (with_installed_active (ae_package (ie_artifact E)) builtin installed)))"

definition runtime_refresh_issue :: package_status_issue where
  "runtime_refresh_issue = \<lparr>issue_code = ''runtime_catalog_refresh_pending'',
     issue_summary = ''The local Package state is not yet visible to the runtime catalog.''\<rparr>"

definition visibility_of ::
  "installed_package \<Rightarrow> host_error + package_catalog \<Rightarrow> catalog_health \<Rightarrow> runtime_visibility" where
  "visibility_of installed catalog health =
     (case catalog of
        Inl _ \<Rightarrow> RefreshPending (ch_generation health) (ch_catalog_revision health)
          (case ch_last_issue health of Some issue \<Rightarrow> issue | None \<Rightarrow> runtime_refresh_issue)
      | Inr c \<Rightarrow>
        (case find (\<lambda>p. pm_package_id p = ip_package_id installed) (cat_packages c) of
           Some p \<Rightarrow>
             if pa_agent_id (pm_agent p) = ip_agent_id installed \<and> pm_version p = iv_version (ip_active installed)
             then Visible (ch_generation health) (cat_catalog_revision c)
             else if pa_agent_id (pm_agent p) = ip_agent_id installed
             then Superseded (ch_generation health) (cat_catalog_revision c) (pm_version p)
             else RefreshPending (ch_generation health) (ch_catalog_revision health) runtime_refresh_issue
         | None \<Rightarrow> RefreshPending (ch_generation health) (ch_catalog_revision health) runtime_refresh_issue))"

definition package_receipt ::
  "installed_package \<Rightarrow> host_error + package_catalog \<Rightarrow> catalog_health \<Rightarrow> mutation_receipt" where
  "package_receipt installed catalog health =
     \<lparr>mr_package_id = ip_package_id installed, mr_agent_id = ip_agent_id installed,
      mr_version = iv_version (ip_active installed), mr_runtime_visibility = visibility_of installed catalog health\<rparr>"

text \<open>A mutation of the store under the lock of the catalog, the refresh after it, and the receipt.\<close>

definition mutate_store ::
  "delivery_service \<Rightarrow> (host_error + installed_package) \<times> package_store \<Rightarrow> delivery_state
     \<Rightarrow> (host_error + mutation_receipt) \<times> delivery_state" where
  "mutate_store S mutation st =
     (let (answer, catalog) = mutate_and_refresh (fst mutation)
            (load_runtime_package_catalog (ds_installer S) (ds_builtin S) (snd mutation)) (dy_catalog st)
      in (and_then answer (\<lambda>(installed, refreshed, health). Inr (package_receipt installed refreshed health)),
          st\<lparr>dy_store := snd mutation, dy_catalog := catalog\<rparr>))"

section \<open>Installing\<close>

definition installed_only :: "install_result \<Rightarrow> host_error + installed_package" where
  "installed_only result =
     (case result of
        Installed package \<Rightarrow> Inr package
      | ApprovalRequired _ \<Rightarrow> Inl (Bail ''Agent Package install state changed; approval must be requested again''))"

text \<open>The uuid of the copy and the time of the registry are arguments.\<close>

definition install_if_planned ::
  "delivery_service \<Rightarrow> rstr \<Rightarrow> rstr \<Rightarrow> verified_package \<Rightarrow> install_plan \<Rightarrow> bool \<Rightarrow> package_store
     \<Rightarrow> (host_error + installed_package) \<times> package_store" where
  "install_if_planned S uuid now verified plan permissions_approved st =
     (case plan_verified_install (ds_installer S) verified st of
        Inl e \<Rightarrow> (Inl e, st)
      | Inr observed \<Rightarrow>
        if observed \<noteq> plan then (Inl (Bail ''Agent Package approval no longer matches install state''), st)
        else (case install_verified_with_plan (ds_installer S) uuid now verified plan permissions_approved st of
                (r, st') \<Rightarrow> (and_then r installed_only, st')))"

definition install_with_plan_and_refresh ::
  "delivery_service \<Rightarrow> rstr \<Rightarrow> rstr \<Rightarrow> verified_package \<Rightarrow> install_plan \<Rightarrow> bool \<Rightarrow> delivery_state
     \<Rightarrow> (host_error + mutation_receipt) \<times> delivery_state" where
  "install_with_plan_and_refresh S uuid now verified plan permissions_approved st =
     mutate_store S (install_if_planned S uuid now verified plan permissions_approved (dy_store st)) st"

section \<open>Pending approvals\<close>

definition purge_expired :: "nat \<Rightarrow> pending_map \<Rightarrow> pending_map" where
  "purge_expired now pending = filter (\<lambda>(_, p). now < pn_expires_at p) pending"

definition ensure_pending_capacity :: "nat \<Rightarrow> pending_map \<Rightarrow> (host_error + unit) \<times> pending_map" where
  "ensure_pending_capacity now pending =
     (let kept = purge_expired now pending in
      (bail_if (length kept \<ge> max_pending_approvals) (Bail ''too many pending Agent Package approvals''), kept))"

definition reserve_pending :: "nat \<Rightarrow> rstr \<Rightarrow> pending_approval \<Rightarrow> pending_map \<Rightarrow> (host_error + unit) \<times> pending_map" where
  "reserve_pending now approval_id p pending =
     (let kept = purge_expired now pending in
      if length kept \<ge> max_pending_approvals then (Inl (Bail ''too many pending Agent Package approvals''), kept)
      else (Inr (), AList.update approval_id p kept))"

definition take_pending ::
  "delivery_service \<Rightarrow> rstr \<Rightarrow> int \<Rightarrow> nat \<Rightarrow> pending_map \<Rightarrow> (host_error + rstr \<times> pending_approval) \<times> pending_map" where
  "take_pending S approval_id owner now pending =
     (case ds_uuid_parse S approval_id of
        None \<Rightarrow> (Inl (Bail ''Agent Package approval is unavailable''), pending)
      | Some uuid \<Rightarrow>
        let kept = purge_expired now pending in
        (case map_of kept uuid of
           None \<Rightarrow> (Inl (Bail ''Agent Package approval is unavailable''), kept)
         | Some p \<Rightarrow>
           if pn_owner p \<noteq> owner then (Inl (Bail ''Agent Package approval is unavailable''), kept)
           else (Inr (uuid, p), AList.delete uuid kept)))"

text \<open>\<open>schedule_expiration\<close>: the entry is removed once its time has come.\<close>

definition expire_pending :: "nat \<Rightarrow> rstr \<Rightarrow> pending_map \<Rightarrow> pending_map" where
  "expire_pending now approval_id pending =
     (case map_of pending approval_id of
        Some p \<Rightarrow> if pn_expires_at p \<le> now then AList.delete approval_id pending else pending
      | None \<Rightarrow> pending)"

section \<open>Operations\<close>

text \<open>What an operation reads from outside: the account (at the beginning and before it commits), the
  monotonic clock, a fresh identifier, the uuid and the time of an installation, and the servers.\<close>

record delivery_world =
  wd_first :: account_reading
  wd_second :: account_reading
  wd_capacity_at :: nat
  wd_challenge_at :: nat
  wd_reserve_at :: nat
  wd_approval_id :: rstr
  wd_uuid :: rstr
  wd_now :: rstr
  wd_download :: download_world

definition challenge_of :: "delivery_service \<Rightarrow> rstr \<Rightarrow> approval_request \<Rightarrow> approval_challenge" where
  "challenge_of S approval_id a =
     \<lparr>ac_approval_id = approval_id, ac_package_id = aq_package_id a, ac_version = aq_version a,
      ac_added_permissions = aq_added_permissions a, ac_expires_in_seconds = ds_approval_ttl S div 1000000000\<rparr>"

definition prepare_downloaded ::
  "delivery_service \<Rightarrow> delivery_world \<Rightarrow> package_download \<Rightarrow> int \<Rightarrow> delivery_state
     \<Rightarrow> (host_error + delivery_result) \<times> delivery_state" where
  "prepare_downloaded S w downloaded owner st =
     (case plan_verified_install (ds_installer S) (pd_verified downloaded) (dy_store st) of
        Inl e \<Rightarrow> (Inl e, st)
      | Inr plan \<Rightarrow>
        (case plan_approval_request plan of
           None \<Rightarrow>
             (case install_with_plan_and_refresh S (wd_uuid w) (wd_now w) (pd_verified downloaded) plan False st of
                (r, st') \<Rightarrow> (and_then r (\<lambda>receipt. Inr (DeliveryInstalled receipt)), st'))
         | Some approval \<Rightarrow>
           (case instant_checked_add (ds_time S) (wd_challenge_at w) (ds_approval_ttl S) of
              None \<Rightarrow> (Inl (Bail ''Agent Package approval expiry is invalid''), st)
            | Some expires_at \<Rightarrow>
              (case reserve_pending (wd_reserve_at w) (wd_approval_id w) \<lparr>pn_owner = owner, pn_expires_at = expires_at,
                      pn_plan = plan, pn_download = downloaded\<rparr> (dy_pending st) of
                 (r, pending) \<Rightarrow>
                   (and_then r (\<lambda>_. Inr (DeliveryApprovalRequired (challenge_of S (wd_approval_id w) approval))),
                    st\<lparr>dy_pending := pending\<rparr>)))))"

definition download_or_request_approval ::
  "delivery_service \<Rightarrow> delivery_world \<Rightarrow> rstr \<Rightarrow> delivery_state \<Rightarrow> (host_error + delivery_result) \<times> delivery_state" where
  "download_or_request_approval S w package_id st =
     (case require_account (wd_first w) of
        Inl e \<Rightarrow> (Inl e, st)
      | Inr owner \<Rightarrow>
        (case ensure_pending_capacity (wd_capacity_at w) (dy_pending st) of
           (Inl e, pending) \<Rightarrow> (Inl e, st\<lparr>dy_pending := pending\<rparr>)
         | (Inr _, pending) \<Rightarrow>
           let st = st\<lparr>dy_pending := pending\<rparr> in
           (case and_then (download_verified (ds_downloader S) (wd_download w) (dy_cache st) package_id) (\<lambda>downloaded.
                 and_then (require_same_account (wd_second w) owner ''Agent Package delivery access changed during download'') (\<lambda>_.
                 Inr downloaded)) of
              Inl e \<Rightarrow> (Inl e, st)
            | Inr downloaded \<Rightarrow> prepare_downloaded S w downloaded owner st)))"

definition approve_and_install ::
  "delivery_service \<Rightarrow> delivery_world \<Rightarrow> rstr \<Rightarrow> delivery_state \<Rightarrow> (host_error + mutation_receipt) \<times> delivery_state" where
  "approve_and_install S w approval_id st =
     (case require_account (wd_first w) of
        Inl e \<Rightarrow> (Inl e, st)
      | Inr owner \<Rightarrow>
        (case take_pending S approval_id owner (wd_capacity_at w) (dy_pending st) of
           (Inl e, pending) \<Rightarrow> (Inl e, st\<lparr>dy_pending := pending\<rparr>)
         | (Inr (_, p), pending) \<Rightarrow>
           let st = st\<lparr>dy_pending := pending\<rparr> in
           (case require_account (wd_second w) of
              Inl e \<Rightarrow> (Inl e, st)
            | Inr _ \<Rightarrow> install_with_plan_and_refresh S (wd_uuid w) (wd_now w) (pd_verified (pn_download p)) (pn_plan p) True st)))"

definition delivery_rollback ::
  "delivery_service \<Rightarrow> delivery_world \<Rightarrow> rstr \<Rightarrow> delivery_state \<Rightarrow> (host_error + mutation_receipt) \<times> delivery_state" where
  "delivery_rollback S w package_id st =
     (case require_account (wd_first w) of
        Inl e \<Rightarrow> (Inl e, st)
      | Inr owner \<Rightarrow>
        mutate_store S
          (case require_same_account (wd_second w) owner ''Agent Package rollback access changed before commit'' of
             Inl e \<Rightarrow> (Inl e, dy_store st)
           | Inr _ \<Rightarrow> package_rollback (ds_installer S) (wd_now w) package_id (dy_store st)) st)"

definition reconcile_runtime_catalog ::
  "delivery_service \<Rightarrow> delivery_world \<Rightarrow> rstr \<Rightarrow> delivery_state \<Rightarrow> (host_error + mutation_receipt) \<times> delivery_state" where
  "reconcile_runtime_catalog S w package_id st =
     (case require_account (wd_first w) of
        Inl e \<Rightarrow> (Inl e, st)
      | Inr owner \<Rightarrow>
        mutate_store S
          (and_then (require_same_account (wd_second w) owner ''Agent Package reconciliation access changed before refresh'') (\<lambda>_.
           and_then (installer_get (ds_installer S) package_id (dy_store st)) (\<lambda>found.
           ok_or found (Bail ''Agent Package is not installed''))), dy_store st) st)"

section \<open>Receipts\<close>

definition catalog_entry :: "package_catalog \<Rightarrow> rstr \<Rightarrow> package_manifest option" where
  "catalog_entry c package_id = find (\<lambda>m. pm_package_id m = package_id) (cat_packages c)"

text \<open>A receipt tells the truth about the catalog before and after a mutation.\<close>

definition tells_catalog :: "mutation_receipt \<Rightarrow> catalog_state \<Rightarrow> catalog_state \<Rightarrow> bool" where
  "tells_catalog r before after \<longleftrightarrow>
     (case mr_runtime_visibility r of
        Visible g v \<Rightarrow> (\<exists>c m. cs_live after = Some c \<and> cat_catalog_revision c = v \<and> cs_generation after = g
          \<and> catalog_entry c (mr_package_id r) = Some m \<and> pa_agent_id (pm_agent m) = mr_agent_id r \<and> pm_version m = mr_version r)
      | Superseded g v other \<Rightarrow> (\<exists>c m. cs_live after = Some c \<and> cat_catalog_revision c = v \<and> cs_generation after = g
          \<and> catalog_entry c (mr_package_id r) = Some m \<and> pa_agent_id (pm_agent m) = mr_agent_id r \<and> pm_version m = other
          \<and> other \<noteq> mr_version r)
      | RefreshPending g v issue \<Rightarrow> cs_generation after = g \<and> v = map_option cat_catalog_revision (cs_live after)
          \<and> (cs_live after = cs_live before \<and> g = cs_generation before \<and> map_option rf_issue (cs_last_failure after) = Some issue
             \<or> issue = runtime_refresh_issue \<and> (\<exists>c. cs_live after = Some c
                 \<and> \<not> (\<exists>m. catalog_entry c (mr_package_id r) = Some m \<and> pa_agent_id (pm_agent m) = mr_agent_id r))))"

lemma mutate_store_cases:
  assumes "mutate_store S mutation st = (r, st')"
  obtains (refused) e where "fst mutation = Inl e" "r = Inl e" "st' = st\<lparr>dy_store := snd mutation\<rparr>"
  | (applied) installed catalog where "fst mutation = Inr installed" "st' = st\<lparr>dy_store := snd mutation, dy_catalog := catalog\<rparr>"
      "\<exists>receipt. r = Inr receipt \<and> mr_package_id receipt = ip_package_id installed \<and> mr_agent_id receipt = ip_agent_id installed
        \<and> mr_version receipt = iv_version (ip_active installed) \<and> tells_catalog receipt (dy_catalog st) catalog"
proof (cases "fst mutation")
  case (Inl e)
  then show ?thesis using assms refused by (auto simp: mutate_store_def mutate_and_refresh_def Let_def)
next
  case (Inr installed)
  let ?loaded = "load_runtime_package_catalog (ds_installer S) (ds_builtin S) (snd mutation)"
  obtain answer catalog where c: "refresh_catalog_locked ?loaded (dy_catalog st) = (answer, catalog)" by (metis surj_pair)
  let ?receipt = "package_receipt installed answer (package_catalog_health catalog)"
  have "r = Inr ?receipt" "st' = st\<lparr>dy_store := snd mutation, dy_catalog := catalog\<rparr>"
    using assms Inr c by (auto simp: mutate_store_def mutate_and_refresh_def Let_def)
  moreover have "tells_catalog ?receipt (dy_catalog st) catalog"
    using c by (auto simp: tells_catalog_def package_receipt_def visibility_of_def refresh_catalog_locked_def
        package_catalog_health_def catalog_entry_def split: sum.splits option.splits)
  ultimately show ?thesis
    using applied [of installed catalog] Inr by (simp add: package_receipt_def)
qed

lemma installed_only_eq [result_simps]: "installed_only r = Inr p \<longleftrightarrow> r = Installed p"
  by (cases r) (auto simp: installed_only_def)

lemma install_if_planned_result:
  assumes "install_if_planned S uuid now v plan approved st = (Inr p, st')"
    and "registry_ok (ds_installer S) (ps_rows st)" "json_roundtrip (ds_installer S)"
  shows "installed_map (ds_installer S) (ps_rows st') (ip_package_id p) = Some p"
proof -
  let ?E = "ds_installer S"
  have r: "install_verified_with_plan ?E uuid now v plan approved st = (Inr (Installed p), st')"
    using assms(1) by (auto simp: install_if_planned_def result_simps split: sum.splits if_splits prod.splits)
  have id: "installed_map ?E rows i = Some q \<Longrightarrow> registry_ok ?E rows \<Longrightarrow> ip_package_id q = i" for rows i q
    using installed_map_Some by blast
  show ?thesis
  proof (rule install_cases [OF r])
    assume "st' = st" "\<And>q. Inr (Installed p) = Inr (Installed q) \<Longrightarrow> installer_get ?E (pm_package_id (vp_manifest v)) st = Inr (Some q)"
    then have "installed_map ?E (ps_rows st') (pm_package_id (vp_manifest v)) = Some p"
      using read_record_ok [OF assms(2)] by (auto simp: installer_get_def)
    with id assms(2) \<open>st' = st\<close> show ?thesis by metis
  next
    fix q rows d t' n e
    assume "commit_registry ?E now (vp_manifest v) n e (ps_rows st) = Inr (q, rows)" "st' = \<lparr>ps_rows = rows, ps_tree = t'\<rparr>"
      "Inr (Installed p) = Inr (Installed q)"
    with commit_registry_refines [OF this(1) assms(2,3)] id show ?thesis by (metis Inr_inject install_result.inject(2) package_store.select_convs(1))
  qed simp_all
qed

text \<open>Every successful mutation is a call of \<open>mutate_store\<close> that answers with its receipt.\<close>

lemma rollback_result:
  assumes "package_rollback E now i st = (Inr p, st')" "registry_ok E (ps_rows st)" "json_roundtrip E"
  shows "installed_map E (ps_rows st') (ip_package_id p) = Some p"
proof (rule package_rollback_cases [OF assms])
  fix c q
  assume "installed_map E (ps_rows st) i = Some c" "installed_map E (ps_rows st') = (installed_map E (ps_rows st))(i \<mapsto> spec_swap now q c)"
    "Inr p = Inr (spec_swap now q c)"
  then show ?thesis using installed_map_Some [OF assms(2)] by (auto simp: spec_swap_def)
qed simp

lemma mutate_store_installed:
  assumes "mutate_store S mutation st = (Inr receipt, st')"
    and "\<And>p. fst mutation = Inr p \<Longrightarrow> installed_map E (ps_rows (snd mutation)) (ip_package_id p) = Some p"
  shows "\<exists>p. installed_map E (ps_rows (dy_store st')) (mr_package_id receipt) = Some p \<and> ip_agent_id p = mr_agent_id receipt
    \<and> iv_version (ip_active p) = mr_version receipt \<and> tells_catalog receipt (dy_catalog st) (dy_catalog st')"
proof (rule mutate_store_cases [OF assms(1)])
  fix installed catalog
  assume "fst mutation = Inr installed" "st' = st\<lparr>dy_store := snd mutation, dy_catalog := catalog\<rparr>"
    "\<exists>r. Inr receipt = Inr r \<and> mr_package_id r = ip_package_id installed \<and> mr_agent_id r = ip_agent_id installed
        \<and> mr_version r = iv_version (ip_active installed) \<and> tells_catalog r (dy_catalog st) catalog"
  then show ?thesis using assms(2) by auto
qed simp

text \<open>C19: receipts tell the truth. The receipt of every successful operation names the package, agent and
  version that the registry has as active afterwards; \<open>Visible\<close> means that the live catalog has exactly
  this version, under the generation and revision of the receipt, \<open>Superseded\<close> that it has another version
  of the same agent, and \<open>RefreshPending\<close> that the refresh failed and left the old catalog live, with the
  reason given, or that the catalog has no such agent.\<close>

theorem receipts_are_truthful:
  assumes "registry_ok (ds_installer S) (ps_rows (dy_store st))" "json_roundtrip (ds_installer S)"
    and "approve_and_install S w argument st = (Inr receipt, st')
      \<or> download_or_request_approval S w argument st = (Inr (DeliveryInstalled receipt), st')
      \<or> delivery_rollback S w argument st = (Inr receipt, st')
      \<or> reconcile_runtime_catalog S w argument st = (Inr receipt, st')"
  shows "\<exists>p. installed_map (ds_installer S) (ps_rows (dy_store st')) (mr_package_id receipt) = Some p
    \<and> ip_agent_id p = mr_agent_id receipt \<and> iv_version (ip_active p) = mr_version receipt
    \<and> tells_catalog receipt (dy_catalog st) (dy_catalog st')"
proof -
  let ?E = "ds_installer S"
  have install: ?thesis if "install_with_plan_and_refresh S uuid now v plan approved st1 = (Inr receipt, st')"
      "dy_store st1 = dy_store st" "dy_catalog st1 = dy_catalog st" for uuid now v plan approved st1
    using mutate_store_installed [OF that(1) [unfolded install_with_plan_and_refresh_def], of ?E]
      install_if_planned_result [OF _ assms(1,2)] that(2,3) by (metis prod.collapse)
  have prepared: ?thesis if "prepare_downloaded S w d owner st1 = (Inr (DeliveryInstalled receipt), st')"
      "dy_store st1 = dy_store st" "dy_catalog st1 = dy_catalog st" for d owner st1
    using that install by (auto simp: prepare_downloaded_def result_simps split: sum.splits option.splits prod.splits)
  from assms(3) show ?thesis
  proof (elim disjE)
    assume "approve_and_install S w argument st = (Inr receipt, st')"
    then show ?thesis using install by (auto simp: approve_and_install_def Let_def split: sum.splits prod.splits)
  next
    assume "download_or_request_approval S w argument st = (Inr (DeliveryInstalled receipt), st')"
    then show ?thesis using prepared by (auto simp: download_or_request_approval_def Let_def split: sum.splits prod.splits)
  next
    assume "delivery_rollback S w argument st = (Inr receipt, st')"
    then obtain m where "mutate_store S m st = (Inr receipt, st')"
        "m = package_rollback ?E (wd_now w) argument (dy_store st) \<or> (\<exists>e. fst m = Inl e)"
      by (auto simp: delivery_rollback_def split: sum.splits)
    then show ?thesis
      using mutate_store_installed [of S m st receipt st' ?E] rollback_result [OF _ assms(1,2), of "wd_now w" argument]
      by (metis Inl_Inr_False prod.collapse)
  next
    assume "reconcile_runtime_catalog S w argument st = (Inr receipt, st')"
    then obtain owner where m: "mutate_store S (and_then (require_same_account (wd_second w) owner
          ''Agent Package reconciliation access changed before refresh'') (\<lambda>_.
          and_then (installer_get ?E argument (dy_store st)) (\<lambda>found.
          ok_or found (Bail ''Agent Package is not installed''))), dy_store st) st = (Inr receipt, st')" (is "mutate_store S (?m, _) st = _")
      by (auto simp: reconcile_runtime_catalog_def split: sum.splits)
    have "installed_map ?E (ps_rows (dy_store st)) (ip_package_id p) = Some p" if "?m = Inr p" for p
      using that read_record_ok [OF assms(1)] installed_map_Some [OF assms(1)]
      by (auto simp: installer_get_def result_simps)
    then show ?thesis using mutate_store_installed [OF m, of ?E] by simp
  qed
qed

text \<open>
  A download, a rollback and a reconciliation are refused when the account has changed before they
  commit. An approval is not: its second check only asks for an active subscription, so what one
  account approved is installed while another one is signed in.
\<close>

lemma rollback_refuses_account_switch:
  assumes "require_account (wd_first w) = Inr a" "require_account (wd_second w) = Inr b" "a \<noteq> b"
  shows "delivery_rollback S w package_id st = (Inl (Bail ''Agent Package rollback access changed before commit''), st)"
  using assms by (simp add: delivery_rollback_def require_same_account_def mutate_store_def mutate_and_refresh_def)

lemma approval_ignores_account_switch:
  assumes "require_account reading = Inr a" "require_account reading' = Inr b"
  shows "approve_and_install S (w\<lparr>wd_second := reading\<rparr>) approval_id st = approve_and_install S (w\<lparr>wd_second := reading'\<rparr>) approval_id st"
  using assms by (simp add: approve_and_install_def Let_def split: sum.split prod.split)

section \<open>Applied to a concrete delivery\<close>

definition sample_reread_installer_env :: installer_env where
  "sample_reread_installer_env = sample_installer_env\<lparr>ie_artifact := sample_reread_artifact_env\<rparr>"

definition sample_delivery :: delivery_service where
  "sample_delivery = \<lparr>ds_downloader = sample_downloader, ds_installer = sample_reread_installer_env, ds_time = sample_time_env,
     ds_builtin = [], ds_uuid_parse = Some, ds_approval_ttl = approval_ttl\<rparr>"

lemma other_trust_tree: "verify_installed_package_tree (A\<lparr>ae_trust := T\<rparr>) = verify_installed_package_tree A"
  by (intro ext)
    (unfold verify_installed_package_tree_def verify_file_manifest_def digest_file_manifest_def other_trust, simp)

lemma sample_reread_installer:
  "install_verified_with_plan sample_reread_installer_env = install_verified_with_plan sample_installer_env"
  "observe_verified_install sample_reread_installer_env = observe_verified_install sample_installer_env"
  "installed_map sample_reread_installer_env = installed_map sample_installer_env"
  "json_roundtrip sample_reread_installer_env = json_roundtrip sample_installer_env"
  "registry_ok sample_reread_installer_env = registry_ok sample_installer_env"
proof -
  let ?E = "sample_reread_installer_env" and ?F = sample_installer_env
  have j: "permissions_to_json ?E = permissions_to_json ?F" "permissions_from_json ?E = permissions_from_json ?F"
    "ae_package (ie_artifact ?E) = ae_package (ie_artifact ?F)"
    "verify_installed_package_tree (ie_artifact ?E) = verify_installed_package_tree (ie_artifact ?F)"
    by (auto simp: sample_reread_installer_env_def sample_installer_env_def other_trust_tree)
  have p: "parse_record ?E = parse_record ?F" by (intro ext) (unfold parse_record_def parse_permissions_def j, rule refl)
  have r: "read_record ?E = read_record ?F" by (intro ext) (unfold read_record_def p, rule refl)
  have v: "verified_manifest ?E = verified_manifest ?F" by (intro ext) (unfold verified_manifest_def j, rule refl)
  have i: "validate_identity_and_version ?E = validate_identity_and_version ?F"
    by (intro ext) (unfold validate_identity_and_version_def j, rule refl)
  have w: "upgrade_row ?E = upgrade_row ?F" "new_row ?E = new_row ?F" by (intro ext; unfold upgrade_row_def new_row_def j, rule refl)+
  have c: "commit_registry ?E = commit_registry ?F" by (intro ext) (unfold commit_registry_def r w, rule refl)
  show o: "observe_verified_install ?E = observe_verified_install ?F"
    by (intro ext) (unfold observe_verified_install_def installer_get_def j r i, rule refl)
  have a: "install_verified_against_plan ?E = install_verified_against_plan ?F"
    by (intro ext) (unfold install_verified_against_plan_def v c, rule refl)
  show "install_verified_with_plan ?E = install_verified_with_plan ?F"
    by (intro ext) (unfold install_verified_with_plan_def o a, rule refl)
  show "installed_map ?E = installed_map ?F" by (intro ext) (unfold installed_map_def r, rule refl)
  show "registry_ok ?E = registry_ok ?F" by (intro ext) (unfold registry_ok_def p, rule refl)
  show "json_roundtrip ?E = json_roundtrip ?F" unfolding json_roundtrip_def j ..
qed

definition sample_reading :: account_reading where
  "sample_reading = \<lparr>aa_gate = (Granted sample_response 3600000000005 sample_trusted_time, 8),
     aa_account = (Granted sample_response 3600000000005 sample_trusted_time, 9)\<rparr>"

lemma sample_delivery_ok: "ie_artifact (ds_installer sample_delivery) = dl_artifact (ds_downloader sample_delivery)" "json_roundtrip (ds_installer sample_delivery)"
  using sample_json
  by (simp_all add: sample_delivery_def sample_downloader_env sample_reread_installer)
    (simp add: sample_reread_installer_env_def)

lemma sample_account: "require_account sample_reading = Inr 7"
  by (simp add: require_account_def sample_reading_def require_state_def current_account_id_def sample_response_def)

definition sample_delivered_state :: delivery_state where
  "sample_delivered_state = \<lparr>dy_cache = None, dy_store = sample_store, dy_catalog = initial_catalog_state, dy_pending = []\<rparr>"

definition sample_delivery_world :: delivery_world where
  "sample_delivery_world = \<lparr>wd_first = sample_reading, wd_second = sample_reading, wd_capacity_at = 9, wd_challenge_at = 9,
     wd_reserve_at = 9, wd_approval_id = [57], wd_uuid = [117], wd_now = [116], wd_download = sample_download_world [[7]]\<rparr>"

lemma sample_delivery_readings: "wd_first sample_delivery_world = sample_reading" "wd_second sample_delivery_world = sample_reading"
  by (simp_all add: sample_delivery_world_def)

lemma receipts_are_truthful_witness:
  "\<exists>receipt st'. reconcile_runtime_catalog sample_delivery sample_delivery_world [112]
      sample_delivered_state = (Inr receipt, st') \<and> (mr_package_id receipt = [112] \<longrightarrow> mr_version receipt = [49])"
proof -
  let ?E = sample_reread_installer_env
  have e: "ds_installer sample_delivery = ?E" by (simp add: sample_delivery_def)
  have ok: "registry_ok (ds_installer sample_delivery) (ps_rows (dy_store sample_delivered_state))"
    using package_runs_ok [OF sample_installer_run sample_json] by (simp add: e sample_reread_installer sample_delivered_state_def)
  have get: "installer_get ?E [112] sample_store = Inr (Some \<lparr>ip_package_id = [112], ip_agent_id = [97],
      ip_active = sample_version [117], ip_previous = None, ip_installed_at = [116], ip_updated_at = [116]\<rparr>)"
    using sample_map read_record_ok [OF ok] by (simp add: e installer_get_def sample_delivered_state_def sample_reread_installer)
  obtain r st' where r: "reconcile_runtime_catalog sample_delivery sample_delivery_world [112] sample_delivered_state = (r, st')" by (metis surj_pair)
  from r get obtain receipt where receipt: "r = Inr receipt"
    by (auto simp: reconcile_runtime_catalog_def sample_delivery_readings sample_account require_same_account_def e sample_delivered_state_def mutate_store_def
        mutate_and_refresh_def Let_def split: prod.splits)
  have "dy_store st' = sample_store"
    using r by (auto simp: reconcile_runtime_catalog_def sample_delivery_readings sample_account mutate_store_def sample_delivered_state_def Let_def split: prod.splits)
  with receipts_are_truthful [OF ok sample_delivery_ok(2), of sample_delivery_world "[112]" receipt st'] r receipt sample_map show ?thesis
    by (auto simp: e sample_reread_installer sample_version_def)
qed

end
