(* ===== verification/Delivery_Runs.thy ===== *)
theory Delivery_Runs
  imports Package_Delivery
begin

text \<open>
  The delivery service over time. The sections of \<open>package_delivery.rs\<close> that run under one lock are the
  atomic steps; the steps of many requests interleave with each other, with expirations, updates of
  the trust cache and tampering with the package directory. What was asked and what was granted is
  recorded beside the state.
\<close>

section \<open>Steps\<close>

record question =
  qu_id :: rstr
  qu_owner :: int
  qu_package :: rstr
  qu_permissions :: "rstr set"
  qu_expires_at :: nat

text \<open>\<open>dr_taken\<close> holds the approvals that were taken and whose installation has not begun.\<close>

record delivery_run =
  dr_asked :: "question set"
  dr_granted :: "(rstr \<times> int \<times> nat) set"
  dr_taken :: "(rstr \<times> pending_approval) set"
  dr_state :: delivery_state

abbreviation dr_pending :: "delivery_run \<Rightarrow> pending_map" where "dr_pending R \<equiv> dy_pending (dr_state R)"
abbreviation dr_store :: "delivery_run \<Rightarrow> package_store" where "dr_store R \<equiv> dy_store (dr_state R)"

definition with_pending :: "pending_map \<Rightarrow> delivery_run \<Rightarrow> delivery_run" where
  "with_pending pending R = R\<lparr>dr_state := (dr_state R)\<lparr>dy_pending := pending\<rparr>\<rparr>"

definition with_state :: "delivery_state \<Rightarrow> delivery_run \<Rightarrow> delivery_run" where
  "with_state st R = R\<lparr>dr_state := st\<rparr>"

lemma with_simps [simp]:
  "dr_asked (with_pending p R) = dr_asked R" "dr_granted (with_pending p R) = dr_granted R" "dr_taken (with_pending p R) = dr_taken R"
  "dr_state (with_pending p R) = (dr_state R)\<lparr>dy_pending := p\<rparr>"
  "dr_asked (with_state st R) = dr_asked R" "dr_granted (with_state st R) = dr_granted R" "dr_taken (with_state st R) = dr_taken R"
  "dr_state (with_state st R) = st"
  by (simp_all add: with_pending_def with_state_def)

definition from_download :: "delivery_service \<Rightarrow> package_download \<Rightarrow> bool" where
  "from_download S d \<longleftrightarrow> (\<exists>w cache package_id. download_verified (ds_downloader S) w cache package_id = Inr d)"

definition question_of :: "rstr \<Rightarrow> pending_approval \<Rightarrow> question" where
  "question_of uuid p = \<lparr>qu_id = uuid, qu_owner = pn_owner p, qu_package = pl_package_id (pn_plan p),
     qu_permissions = set (pl_added_permissions (pn_plan p)), qu_expires_at = pn_expires_at p\<rparr>"

text \<open>A plan may be older than the state its question or its installation meets.\<close>

inductive delivery_step :: "delivery_service \<Rightarrow> delivery_run \<Rightarrow> delivery_run \<Rightarrow> bool" for S where
  run_capacity: "delivery_step S R (with_pending (snd (ensure_pending_capacity now (dr_pending R))) R)"
| run_ask: "from_download S (pn_download p) \<Longrightarrow> plan_verified_install (ds_installer S) (pd_verified (pn_download p)) store = Inr (pn_plan p)
    \<Longrightarrow> plan_approval_request (pn_plan p) \<noteq> None \<Longrightarrow> uuid \<notin> qu_id ` dr_asked R
    \<Longrightarrow> reserve_pending now uuid p (dr_pending R) = (r, pending)
    \<Longrightarrow> delivery_step S R ((with_pending pending R)\<lparr>dr_asked := if is_ok r then insert (question_of uuid p) (dr_asked R) else dr_asked R\<rparr>)"
| run_take: "require_account reading = Inr owner \<Longrightarrow> take_pending S text owner now (dr_pending R) = (Inr (uuid, p), pending)
    \<Longrightarrow> delivery_step S R ((with_pending pending R)\<lparr>dr_taken := insert (uuid, p) (dr_taken R),
          dr_granted := insert (uuid, owner, now) (dr_granted R)\<rparr>)"
| run_take_refused: "take_pending S text owner now (dr_pending R) = (Inl e, pending) \<Longrightarrow> delivery_step S R (with_pending pending R)"
| run_install_taken: "(uuid, p) \<in> dr_taken R \<Longrightarrow> 47 \<notin> set copy
    \<Longrightarrow> delivery_step S R ((with_state (snd (install_with_plan_and_refresh S copy now (pd_verified (pn_download p)) (pn_plan p) True
          (dr_state R))) R)\<lparr>dr_taken := dr_taken R - {(uuid, p)}\<rparr>)"
| run_install_unasked: "from_download S d \<Longrightarrow> 47 \<notin> set copy
    \<Longrightarrow> delivery_step S R (with_state (snd (install_with_plan_and_refresh S copy now (pd_verified d) plan False (dr_state R))) R)"
| run_rollback: "delivery_step S R (with_state (snd (delivery_rollback S w package_id (dr_state R))) R)"
| run_reconcile: "delivery_step S R (with_state (snd (reconcile_runtime_catalog S w package_id (dr_state R))) R)"
| run_expire: "delivery_step S R (with_pending (expire_pending now uuid (dr_pending R)) R)"
| run_fetch: "delivery_step S R (with_state ((dr_state R)\<lparr>dy_cache := cache\<rparr>) R)"
| run_tamper: "delivery_step S R (with_state ((dr_state R)\<lparr>dy_store := (dr_store R)\<lparr>ps_tree := t\<rparr>\<rparr>) R)"

definition delivery_start :: "cached_trust_row option \<Rightarrow> delivery_run" where
  "delivery_start cache = \<lparr>dr_asked = {}, dr_granted = {}, dr_taken = {}, dr_state = \<lparr>dy_cache = cache, dy_store = empty_store,
     dy_catalog = initial_catalog_state, dy_pending = []\<rparr>\<rparr>"

definition delivery_runs :: "delivery_service \<Rightarrow> delivery_run \<Rightarrow> bool" where
  "delivery_runs S R \<longleftrightarrow> (\<exists>cache. (delivery_step S)\<^sup>*\<^sup>* (delivery_start cache) R)"

lemma delivery_runs_induct [consumes 1, case_names start step]:
  assumes "delivery_runs S R" "\<And>cache. P (delivery_start cache)"
    and "\<And>R R'. delivery_runs S R \<Longrightarrow> P R \<Longrightarrow> delivery_step S R R' \<Longrightarrow> P R'"
  shows "P R"
proof -
  obtain cache where "(delivery_step S)\<^sup>*\<^sup>* (delivery_start cache) R" using assms(1) by (auto simp: delivery_runs_def)
  then show ?thesis by (induction rule: rtranclp_induct) (use assms(2,3) in \<open>auto simp: delivery_runs_def\<close>)
qed

section \<open>The operations are sequences of steps\<close>

lemma reach_one: "delivery_step S R R' \<Longrightarrow> dr_state R' = st' \<Longrightarrow> \<exists>R''. (delivery_step S)\<^sup>*\<^sup>* R R'' \<and> dr_state R'' = st'"
  by blast

lemma reach_after:
  "delivery_step S R R1 \<Longrightarrow> \<exists>R'. (delivery_step S)\<^sup>*\<^sup>* R1 R' \<and> dr_state R' = st' \<Longrightarrow> \<exists>R'. (delivery_step S)\<^sup>*\<^sup>* R R' \<and> dr_state R' = st'"
  using converse_rtranclp_into_rtranclp [of "delivery_step S" R R1] by blast

lemma prepare_downloaded_steps:
  assumes "prepare_downloaded S w d owner (dr_state R) = (r, st')" "from_download S d" "47 \<notin> set (wd_uuid w)"
    and "wd_approval_id w \<notin> qu_id ` dr_asked R"
  shows "\<exists>R'. (delivery_step S)\<^sup>*\<^sup>* R R' \<and> dr_state R' = st'"
proof (cases "plan_verified_install (ds_installer S) (pd_verified d) (dr_store R)")
  case (Inl e)
  then show ?thesis using assms(1) by (auto simp: prepare_downloaded_def)
next
  case plan: (Inr plan)
  show ?thesis
  proof (cases "plan_approval_request plan")
    case None
    then have "st' = snd (install_with_plan_and_refresh S (wd_uuid w) (wd_now w) (pd_verified d) plan False (dr_state R))"
      using assms(1) plan by (auto simp: prepare_downloaded_def split: prod.splits)
    then show ?thesis using run_install_unasked [OF assms(2,3), of R "wd_now w" plan] by auto
  next
    case (Some a)
    show ?thesis
    proof (cases "instant_checked_add (ds_time S) (wd_challenge_at w) (ds_approval_ttl S)")
      case None
      then show ?thesis using assms(1) plan Some by (auto simp: prepare_downloaded_def)
    next
      case t: (Some expires)
      let ?p = "\<lparr>pn_owner = owner, pn_expires_at = expires, pn_plan = plan, pn_download = d\<rparr>"
      obtain r' pending where r: "reserve_pending (wd_reserve_at w) (wd_approval_id w) ?p (dr_pending R) = (r', pending)" by (metis surj_pair)
      then have "st' = (dr_state R)\<lparr>dy_pending := pending\<rparr>"
        using assms(1) plan Some t by (auto simp: prepare_downloaded_def)
      then show ?thesis
        by (intro reach_one [OF run_ask [OF _ _ _ assms(4) r]]) (use assms(2) plan Some in simp_all)
    qed
  qed
qed

text \<open>An operation that runs alone is a sequence of steps; identifiers of approvals are never reused.\<close>

lemma operations_are_steps:
  assumes "47 \<notin> set (wd_uuid w)" "wd_approval_id w \<notin> qu_id ` dr_asked R"
    and "download_or_request_approval S w argument (dr_state R) = (r1, st') \<or> approve_and_install S w argument (dr_state R) = (r2, st')
      \<or> delivery_rollback S w argument (dr_state R) = (r2, st') \<or> reconcile_runtime_catalog S w argument (dr_state R) = (r2, st')"
  shows "\<exists>R'. (delivery_step S)\<^sup>*\<^sup>* R R' \<and> dr_state R' = st'"
  using assms(3)
proof (elim disjE)
  assume a: "download_or_request_approval S w argument (dr_state R) = (r1, st')"
  show ?thesis
  proof (cases "require_account (wd_first w)")
    case (Inl e)
    then show ?thesis using a by (auto simp: download_or_request_approval_def)
  next
    case (Inr owner)
    obtain c pending where c: "ensure_pending_capacity (wd_capacity_at w) (dr_pending R) = (c, pending)" by (metis surj_pair)
    let ?R = "with_pending pending R"
    have s: "delivery_step S R ?R" using run_capacity [of S R "wd_capacity_at w"] c by simp
    show ?thesis
    proof (cases "dr_state ?R = st'")
      case True
      with s show ?thesis by blast
    next
      case False
      then obtain d where "prepare_downloaded S w d owner (dr_state ?R) = (r1, st')"
          "download_verified (ds_downloader S) (wd_download w) (dy_cache (dr_state R)) argument = Inr d"
        using a Inr c by (auto simp: download_or_request_approval_def result_simps Let_def split: sum.splits)
      then obtain R' where "(delivery_step S)\<^sup>*\<^sup>* ?R R'" "dr_state R' = st'"
        using prepare_downloaded_steps [of S w d owner ?R] assms(1,2) by (auto simp: from_download_def)
      then show ?thesis by (intro reach_after [OF s] exI [of _ R'] conjI)
    qed
  qed
next
  assume a: "approve_and_install S w argument (dr_state R) = (r2, st')"
  show ?thesis
  proof (cases "require_account (wd_first w)")
    case (Inl e)
    then show ?thesis using a by (auto simp: approve_and_install_def)
  next
    case (Inr owner)
    obtain t pending where t: "take_pending S argument owner (wd_capacity_at w) (dr_pending R) = (t, pending)" by (metis surj_pair)
    show ?thesis
    proof (cases t)
      case (Inl e)
      then have "st' = dr_state (with_pending pending R)" using a Inr t by (simp add: approve_and_install_def)
      with run_take_refused [of S argument owner "wd_capacity_at w" R e pending] t Inl show ?thesis by blast
    next
      case i: (Inr x)
      obtain uuid p where x: "x = (uuid, p)" by (cases x)
      let ?R = "(with_pending pending R)\<lparr>dr_taken := insert (uuid, p) (dr_taken R),
          dr_granted := insert (uuid, owner, wd_capacity_at w) (dr_granted R)\<rparr>"
      have s: "delivery_step S R ?R" using run_take [OF Inr] t i x by simp
      let ?st = "snd (install_with_plan_and_refresh S (wd_uuid w) (wd_now w) (pd_verified (pn_download p)) (pn_plan p) True (dr_state ?R))"
      have "st' = dr_state ?R \<or> st' = ?st"
        using a Inr t i x by (auto simp: approve_and_install_def Let_def split: sum.splits)
      moreover have "\<exists>R'. (delivery_step S)\<^sup>*\<^sup>* ?R R' \<and> dr_state R' = ?st"
        by (rule reach_one [OF run_install_taken [of uuid p _ "wd_uuid w"]]) (use assms(1) in simp_all)
      ultimately show ?thesis using reach_one [OF s] reach_after [OF s] by metis
    qed
  qed
next
  assume "delivery_rollback S w argument (dr_state R) = (r2, st')"
  then show ?thesis using run_rollback [of S R w argument] by auto
next
  assume "reconcile_runtime_catalog S w argument (dr_state R) = (r2, st')"
  then show ?thesis using run_reconcile [of S R w argument] by auto
qed

section \<open>What was asked and what was granted\<close>

definition granted_permissions :: "delivery_run \<Rightarrow> (rstr \<times> rstr) set" where
  "granted_permissions R = {(qu_package q, n) | q n now. q \<in> dr_asked R \<and> n \<in> qu_permissions q
     \<and> (qu_id q, qu_owner q, now) \<in> dr_granted R \<and> now < qu_expires_at q}"

text \<open>The bookkeeping of questions: ids are asked once and taken once, by the account that was asked and in time.\<close>

definition granted_ok :: "question set \<Rightarrow> (rstr \<times> int \<times> nat) set \<Rightarrow> bool" where
  "granted_ok A G \<longleftrightarrow> inj_on qu_id A
     \<and> (\<forall>u i t. (u, i, t) \<in> G \<longrightarrow> (\<exists>q \<in> A. qu_id q = u \<and> qu_owner q = i \<and> t < qu_expires_at q)
          \<and> (\<forall>i' t'. (u, i', t') \<in> G \<longrightarrow> i' = i \<and> t' = t))"

definition pending_ok :: "delivery_service \<Rightarrow> question set \<Rightarrow> (rstr \<times> int \<times> nat) set \<Rightarrow> pending_map \<Rightarrow> bool" where
  "pending_ok S A G pending \<longleftrightarrow> distinct (map fst pending) \<and> length pending \<le> max_pending_approvals
     \<and> (\<forall>u p. (u, p) \<in> set pending \<longrightarrow> question_of u p \<in> A \<and> from_download S (pn_download p) \<and> (\<forall>i t. (u, i, t) \<notin> G))"

definition taken_ok :: "delivery_service \<Rightarrow> question set \<Rightarrow> (rstr \<times> int \<times> nat) set \<Rightarrow> (rstr \<times> pending_approval) set \<Rightarrow> bool" where
  "taken_ok S A G T \<longleftrightarrow> (\<forall>u p. (u, p) \<in> T \<longrightarrow> question_of u p \<in> A \<and> from_download S (pn_download p) \<and> (\<exists>t. (u, pn_owner p, t) \<in> G))"

definition questions_ok :: "delivery_service \<Rightarrow> delivery_run \<Rightarrow> bool" where
  "questions_ok S R \<longleftrightarrow> granted_ok (dr_asked R) (dr_granted R) \<and> pending_ok S (dr_asked R) (dr_granted R) (dr_pending R)
     \<and> taken_ok S (dr_asked R) (dr_granted R) (dr_taken R)"

lemma pending_ok_fewer:
  assumes "pending_ok S A G pending" "set kept \<subseteq> set pending" "distinct (map fst kept)" "length kept \<le> length pending"
  shows "pending_ok S A G kept"
  using assms unfolding pending_ok_def by auto

lemma kept_ok:
  assumes "pending_ok S A G pending"
  shows "pending_ok S A G (purge_expired now pending)" "pending_ok S A G (AList.delete u pending)"
    "pending_ok S A G (expire_pending now u pending)"
proof -
  have d: "distinct (map fst pending)" using assms by (simp add: pending_ok_def)
  show "pending_ok S A G (purge_expired now pending)"
    by (rule pending_ok_fewer [OF assms]) (use d in \<open>auto simp: purge_expired_def intro: distinct_map_filter\<close>)
  show delete: "pending_ok S A G (AList.delete u pending)"
    by (rule pending_ok_fewer [OF assms]) (use d in \<open>auto simp: AList.delete_eq intro: distinct_map_filter\<close>)
  then show "pending_ok S A G (expire_pending now u pending)"
    using assms by (simp add: expire_pending_def split: option.splits)
qed

lemma questions_ok_state:
  "questions_ok S R \<Longrightarrow> pending_ok S (dr_asked R) (dr_granted R) (dy_pending st) \<Longrightarrow> questions_ok S (R\<lparr>dr_state := st\<rparr>)"
  by (simp add: questions_ok_def)

lemma update_fresh: "u \<notin> fst ` set xs \<Longrightarrow> AList.update u p xs = xs @ [(u, p)]"
  by (induction xs) auto

lemma reserve_ok:
  assumes "pending_ok S A G pending" "granted_ok A G" "u \<notin> qu_id ` A" "from_download S (pn_download p)"
    and "reserve_pending now u p pending = (r, kept)"
  defines "A' \<equiv> if is_ok r then insert (question_of u p) A else A"
  shows "pending_ok S A' G kept \<and> granted_ok A' G"
proof -
  let ?k = "purge_expired now pending"
  have k: "pending_ok S A G ?k" by (rule kept_ok [OF assms(1)])
  show ?thesis
  proof (cases "length ?k \<ge> max_pending_approvals")
    case True
    then show ?thesis using assms(2,5) k by (auto simp: reserve_pending_def A'_def is_ok_def Let_def)
  next
    case False
    then have r: "r = Inr ()" "kept = AList.update u p ?k" using assms(5) by (auto simp: reserve_pending_def Let_def)
    have fresh: "u \<notin> fst ` set ?k" using k assms(3) by (force simp: pending_ok_def question_of_def)
    then have kept: "kept = ?k @ [(u, p)]" using r(2) update_fresh by simp
    have no: "(u, i, t) \<notin> G" for i t using assms(2,3) unfolding granted_ok_def by (metis imageI)
    have "pending_ok S A' G kept"
      using k no fresh False assms(4) by (auto simp: pending_ok_def kept A'_def r is_ok_def)
    moreover have "granted_ok A' G"
      using assms(2,3) by (auto simp: granted_ok_def A'_def r is_ok_def question_of_def)
    ultimately show ?thesis ..
  qed
qed

lemma take_ok:
  assumes "pending_ok S A G pending" "granted_ok A G" "take_pending S text i now pending = (Inr (u, p), kept)"
  shows "pending_ok S A (insert (u, i, now) G) kept \<and> granted_ok A (insert (u, i, now) G)
    \<and> pn_owner p = i \<and> now < pn_expires_at p \<and> question_of u p \<in> A \<and> from_download S (pn_download p)"
proof -
  let ?k = "purge_expired now pending"
  have k: "pending_ok S A G ?k" "pending_ok S A G (AList.delete u ?k)" using kept_ok [OF kept_ok(1) [OF assms(1)]] kept_ok [OF assms(1)] by auto
  have t: "map_of ?k u = Some p" "pn_owner p = i" "kept = AList.delete u ?k"
    using assms(3) by (auto simp: take_pending_def Let_def split: option.splits if_splits)
  then have m: "(u, p) \<in> set ?k" by (auto dest: map_of_SomeD)
  then have q: "question_of u p \<in> A" "from_download S (pn_download p)" "\<forall>i t. (u, i, t) \<notin> G" "now < pn_expires_at p"
    using k(1) by (auto simp: pending_ok_def purge_expired_def)
  have "u \<notin> fst ` set kept" by (auto simp: t(3) AList.delete_eq)
  then have "pending_ok S A (insert (u, i, now) G) kept"
    using k(2) unfolding t(3) pending_ok_def by force
  moreover have "granted_ok A (insert (u, i, now) G)"
    using assms(2) q t(2) unfolding granted_ok_def by (auto simp: question_of_def intro!: bexI [OF _ q(1)])
  ultimately show ?thesis using q t by blast
qed

lemma take_refused_ok:
  assumes "pending_ok S A G pending" "take_pending S text i now pending = (Inl e, kept)"
  shows "pending_ok S A G kept"
  using assms kept_ok(1) [OF assms(1)]
  by (auto simp: take_pending_def Let_def split: option.splits if_splits)

lemma mutate_store_pending: "dy_pending (snd (mutate_store S m st)) = dy_pending st" "dy_store (snd (mutate_store S m st)) = snd m"
  by (simp_all add: mutate_store_def Let_def split: prod.splits)

lemma operations_pending:
  "dy_pending (snd (install_with_plan_and_refresh S copy now v plan approved st)) = dy_pending st"
  "dy_pending (snd (delivery_rollback S w i st)) = dy_pending st" "dy_pending (snd (reconcile_runtime_catalog S w i st)) = dy_pending st"
  by (simp_all add: install_with_plan_and_refresh_def delivery_rollback_def reconcile_runtime_catalog_def mutate_store_pending
      split: sum.splits)

lemma questions_ok_step:
  assumes "delivery_step S R R'" "questions_ok S R"
  shows "questions_ok S R'"
  using assms
proof (induction rule: delivery_step.induct)
  case (run_ask p store uuid R now r pending)
  then have "pending_ok S (dr_asked R) (dr_granted R) (dr_pending R)" "granted_ok (dr_asked R) (dr_granted R)"
    by (simp_all add: questions_ok_def)
  note reserve_ok [OF this run_ask(4,1,5)]
  moreover have "taken_ok S (dr_asked R) (dr_granted R) (dr_taken R)" using run_ask.prems by (simp add: questions_ok_def)
  then have "taken_ok S (insert q (dr_asked R)) (dr_granted R) (dr_taken R)" for q by (auto simp: taken_ok_def)
  moreover have "taken_ok S (dr_asked R) (dr_granted R) (dr_taken R)" by fact
  ultimately show ?case by (auto simp: questions_ok_def split: if_splits)
next
  case (run_take reading owner arg now R uuid p pending)
  then have "pending_ok S (dr_asked R) (dr_granted R) (dr_pending R)" "granted_ok (dr_asked R) (dr_granted R)"
    by (simp_all add: questions_ok_def)
  note t = take_ok [OF this run_take(2)]
  have "taken_ok S (dr_asked R) (dr_granted R) (dr_taken R)" using run_take.prems by (simp add: questions_ok_def)
  then have "taken_ok S (dr_asked R) (insert (uuid, owner, now) (dr_granted R)) (insert (uuid, p) (dr_taken R))"
    using t by (auto simp: taken_ok_def)
  with t show ?case by (simp add: questions_ok_def)
next
  case (run_install_taken uuid p R copy now)
  then show ?case by (auto simp: questions_ok_def operations_pending taken_ok_def)
next
  case (run_take_refused arg owner now R e pending)
  then show ?case using take_refused_ok by (fastforce simp: questions_ok_def)
qed (auto simp: questions_ok_def operations_pending kept_ok ensure_pending_capacity_def Let_def)

section \<open>The registry in a run\<close>

definition same_verifier :: "delivery_service \<Rightarrow> bool" where
  "same_verifier S \<longleftrightarrow> ie_artifact (ds_installer S) = dl_artifact (ds_downloader S)"

definition registry_granted :: "delivery_service \<Rightarrow> (rstr \<times> rstr) set \<Rightarrow> package_store \<Rightarrow> bool" where
  "registry_granted S A st \<longleftrightarrow> registry_ok (ds_installer S) (ps_rows st) \<and> approved_by A (installed_map (ds_installer S) (ps_rows st))"

lemma registry_granted_package_step:
  assumes "package_step (ds_installer S) True (A, st) (A', st')" "registry_granted S A st" "json_roundtrip (ds_installer S)"
  shows "registry_granted S A' st'"
  using package_step_ok [OF assms(1) _ assms(3)] assms(2) by (simp add: registry_granted_def)

lemma from_download_staged:
  assumes "from_download S d" "same_verifier S"
  obtains store artifact document where "verify_to_staging (ie_artifact (ds_installer S)) store artifact document = Inr (pd_verified d)"
proof -
  obtain w cache i where "download_verified (ds_downloader S) w cache i = Inr d" using assms(1) by (auto simp: from_download_def)
  then show ?thesis by (rule download_verified_ok) (use that assms(2) in \<open>simp add: same_verifier_def\<close>)
qed

lemma install_if_planned_store:
  "snd (install_if_planned S copy now v plan approved st) = st
    \<or> snd (install_if_planned S copy now v plan approved st) = snd (install_verified_with_plan (ds_installer S) copy now v plan approved st)"
  by (cases "plan_verified_install (ds_installer S) v st") (simp_all add: install_if_planned_def case_prod_beta)

lemma install_granted:
  assumes "from_download S d" "same_verifier S" "json_roundtrip (ds_installer S)" "47 \<notin> set copy" "registry_granted S A (dy_store st)"
    and "approved \<Longrightarrow> {pl_package_id plan} \<times> set (pl_added_permissions plan) \<subseteq> A"
  shows "registry_granted S A (dy_store (snd (install_with_plan_and_refresh S copy now (pd_verified d) plan approved st)))"
proof -
  let ?E = "ds_installer S" and ?i = "install_if_planned S copy now (pd_verified d) plan approved (dy_store st)"
  obtain store artifact document where v: "verify_to_staging (ie_artifact ?E) store artifact document = Inr (pd_verified d)"
    by (rule from_download_staged [OF assms(1,2)])
  have "package_step ?E True (A, dy_store st) (if approved then A \<union> {pl_package_id plan} \<times> set (pl_added_permissions plan) else A,
      snd (install_verified_with_plan ?E copy now (pd_verified d) plan approved (dy_store st)))"
    by (rule step_install [OF v assms(4)])
  then have "registry_granted S (if approved then A \<union> {pl_package_id plan} \<times> set (pl_added_permissions plan) else A)
      (snd (install_verified_with_plan ?E copy now (pd_verified d) plan approved (dy_store st)))"
    by (rule registry_granted_package_step [OF _ assms(5,3)])
  moreover have "(if approved then A \<union> {pl_package_id plan} \<times> set (pl_added_permissions plan) else A) = A" using assms(6) by auto
  ultimately have g: "registry_granted S A (snd (install_verified_with_plan ?E copy now (pd_verified d) plan approved (dy_store st)))"
    by simp
  have "registry_granted S A (snd ?i)"
    using install_if_planned_store [of S copy now "pd_verified d" plan approved "dy_store st"] g assms(5) by presburger
  then show ?thesis by (simp add: install_with_plan_and_refresh_def mutate_store_pending)
qed

lemma rollback_store: "dy_store (snd (delivery_rollback S w i st)) = dy_store st
    \<or> dy_store (snd (delivery_rollback S w i st)) = snd (package_rollback (ds_installer S) (wd_now w) i (dy_store st))"
  "dy_store (snd (reconcile_runtime_catalog S w i st)) = dy_store st"
  by (auto simp: delivery_rollback_def reconcile_runtime_catalog_def mutate_store_pending split: sum.splits)

lemma granted_permissions_mono:
  assumes "dr_asked R \<subseteq> dr_asked R'" "dr_granted R \<subseteq> dr_granted R'"
  shows "granted_permissions R \<subseteq> granted_permissions R'"
  using assms unfolding granted_permissions_def by blast

lemma registry_granted_mono: "registry_granted S A st \<Longrightarrow> A \<subseteq> A' \<Longrightarrow> registry_granted S A' st"
  unfolding registry_granted_def using approved_by_mono by blast

lemma taken_permissions:
  assumes "questions_ok S R" "(uuid, p) \<in> dr_taken R"
  shows "{pl_package_id (pn_plan p)} \<times> set (pl_added_permissions (pn_plan p)) \<subseteq> granted_permissions R"
proof -
  have q: "question_of uuid p \<in> dr_asked R" and "\<exists>t. (uuid, pn_owner p, t) \<in> dr_granted R"
    using assms by (auto simp: questions_ok_def taken_ok_def)
  then obtain t where t: "(uuid, pn_owner p, t) \<in> dr_granted R" by blast
  then obtain q' where "q' \<in> dr_asked R" "qu_id q' = uuid" "t < qu_expires_at q'"
    using assms(1) unfolding questions_ok_def granted_ok_def by blast
  moreover have "q' = question_of uuid p"
    using assms(1) q calculation unfolding questions_ok_def granted_ok_def inj_on_def by (auto simp: question_of_def)
  ultimately have "t < qu_expires_at (question_of uuid p)" by simp
  with q t have "(pl_package_id (pn_plan p), n) \<in> granted_permissions R" if "n \<in> set (pl_added_permissions (pn_plan p))" for n
    unfolding granted_permissions_def using that
    by (intro CollectI exI [of _ "question_of uuid p"] exI [of _ n] exI [of _ t]) (simp add: question_of_def)
  then show ?thesis by auto
qed

lemma registry_granted_step:
  assumes "delivery_step S R R'" "questions_ok S R" "same_verifier S" "json_roundtrip (ds_installer S)"
    and "registry_granted S (granted_permissions R) (dr_store R)"
  shows "registry_granted S (granted_permissions R') (dr_store R')"
proof -
  have keep: "registry_granted S (granted_permissions R') (dr_store R')"
    if "registry_granted S (granted_permissions R) (dr_store R')" "dr_asked R \<subseteq> dr_asked R'" "dr_granted R \<subseteq> dr_granted R'"
    using registry_granted_mono [OF that(1) granted_permissions_mono [OF that(2,3)]] .
  from assms(1) show ?thesis
  proof cases
    case (run_install_taken uuid p copy now)
    have "from_download S (pn_download p)" using assms(2) run_install_taken(2) by (auto simp: questions_ok_def taken_ok_def)
    from install_granted [OF this assms(3,4) run_install_taken(3) assms(5) taken_permissions [OF assms(2) run_install_taken(2)]]
    show ?thesis by (intro keep) (simp_all add: run_install_taken(1))
  next
    case (run_install_unasked d copy now plan)
    from install_granted [OF run_install_unasked(2) assms(3,4) run_install_unasked(3) assms(5), of False]
    show ?thesis by (intro keep) (simp_all add: run_install_unasked(1))
  next
    case (run_rollback w i)
    have "registry_granted S (granted_permissions R) (dr_store R')"
      using rollback_store(1) [of S w i "dr_state R"] assms(5) registry_granted_package_step [OF step_rollback assms(5,4)]
      unfolding run_rollback(1) with_simps by metis
    then show ?thesis by (intro keep) (simp_all add: run_rollback)
  next
    case (run_tamper t)
    have "registry_granted S (granted_permissions R) (dr_store R')"
      using assms(5) by (simp add: run_tamper registry_granted_def)
    then show ?thesis by (intro keep) (simp_all add: run_tamper)
  qed (rule keep; use assms(5) rollback_store(2) in auto)+
qed

lemma delivery_runs_ok:
  assumes "delivery_runs S R" "same_verifier S" "json_roundtrip (ds_installer S)"
  shows "questions_ok S R \<and> registry_granted S (granted_permissions R) (dr_store R)"
  using assms(1)
proof (induction rule: delivery_runs_induct)
  case (start cache)
  show ?case
    by (simp add: delivery_start_def questions_ok_def granted_ok_def pending_ok_def taken_ok_def registry_granted_def empty_store_def
        approved_by_def installed_map_def read_record_def)
next
  case (step R R')
  then show ?case using questions_ok_step registry_granted_step assms(2,3) by blast
qed

section \<open>Properties\<close>

text \<open>C17: what runs with a permission was approved by the account that was asked. In every interleaving
  of downloads, questions, approvals, installations, rollbacks, expirations, cache updates and tampering,
  each permission of an active or previous version was part of a question about that package; the account
  the question was for, with an active subscription, answered it before it expired; and no question was
  ever answered twice.\<close>

theorem delivered_permissions_were_granted:
  assumes "delivery_runs S R" "same_verifier S" "json_roundtrip (ds_installer S)"
    and "installed_map (ds_installer S) (ps_rows (dr_store R)) i = Some p" "iv \<in> versions_of p" "n \<in> named iv"
  shows "\<exists>q now. q \<in> dr_asked R \<and> qu_package q = i \<and> n \<in> qu_permissions q
    \<and> (qu_id q, qu_owner q, now) \<in> dr_granted R \<and> now < qu_expires_at q
    \<and> (\<forall>owner' now'. (qu_id q, owner', now') \<in> dr_granted R \<longrightarrow> owner' = qu_owner q \<and> now' = now)"
proof -
  note ok = delivery_runs_ok [OF assms(1-3)]
  have "(i, n) \<in> granted_permissions R"
    using ok assms(4-6) unfolding registry_granted_def approved_by_def by blast
  then obtain q now where q: "q \<in> dr_asked R" "qu_package q = i" "n \<in> qu_permissions q" "(qu_id q, qu_owner q, now) \<in> dr_granted R"
      "now < qu_expires_at q"
    by (auto simp: granted_permissions_def)
  moreover have "owner' = qu_owner q \<and> now' = now" if "(qu_id q, owner', now') \<in> dr_granted R" for owner' now'
    using ok q(4) that unfolding questions_ok_def granted_ok_def by blast
  ultimately show ?thesis by blast
qed

text \<open>C20: pending approvals are bounded and theirs alone. At most 32 approvals wait at any time, each under
  its own identifier, for a package that was downloaded and verified; only the account that was asked can
  take one, only before it expires, and afterwards nobody can take it again.\<close>

theorem pending_approvals_are_exclusive:
  assumes "delivery_runs S R" "same_verifier S" "json_roundtrip (ds_installer S)"
  shows "length (dr_pending R) \<le> 32 \<and> distinct (map fst (dr_pending R))
    \<and> (\<forall>uuid p. (uuid, p) \<in> set (dr_pending R) \<longrightarrow> from_download S (pn_download p))
    \<and> (\<forall>argument owner now uuid p kept. take_pending S argument owner now (dr_pending R) = (Inr (uuid, p), kept) \<longrightarrow>
         (uuid, p) \<in> set (dr_pending R) \<and> ds_uuid_parse S argument = Some uuid \<and> pn_owner p = owner \<and> now < pn_expires_at p
         \<and> (\<forall>owner' now'. \<exists>e. fst (take_pending S argument owner' now' kept) = Inl e))"
proof -
  have p: "pending_ok S (dr_asked R) (dr_granted R) (dr_pending R)"
    using delivery_runs_ok [OF assms] by (simp add: questions_ok_def)
  have "(uuid, p) \<in> set (dr_pending R) \<and> ds_uuid_parse S argument = Some uuid \<and> pn_owner p = owner \<and> now < pn_expires_at p
      \<and> (\<forall>owner' now'. \<exists>e. fst (take_pending S argument owner' now' kept) = Inl e)"
    if t: "take_pending S argument owner now (dr_pending R) = (Inr (uuid, p), kept)" for argument owner now uuid p kept
  proof -
    from t have u: "ds_uuid_parse S argument = Some uuid" "map_of (purge_expired now (dr_pending R)) uuid = Some p" "pn_owner p = owner"
        "kept = AList.delete uuid (purge_expired now (dr_pending R))"
      by (auto simp: take_pending_def Let_def split: option.splits if_splits)
    have m: "(uuid, p) \<in> set (dr_pending R)" "now < pn_expires_at p"
      using map_of_SomeD [OF u(2)] by (auto simp: purge_expired_def)
    have "map_of (purge_expired now' kept) uuid = None" for now'
      by (auto simp: u(4) purge_expired_def AList.delete_eq map_of_eq_None_iff)
    then have "\<exists>e. fst (take_pending S argument owner' now' kept) = Inl e" for owner' now'
      by (simp add: take_pending_def u(1) Let_def)
    with u m show ?thesis by blast
  qed
  with p show ?thesis unfolding pending_ok_def max_pending_approvals_def by blast
qed

section \<open>Applied to a concrete run\<close>

definition sample_pending :: pending_approval where
  "sample_pending = \<lparr>pn_owner = 7, pn_expires_at = 600000000005, pn_plan = sample_plan, pn_download = sample_download\<rparr>"

lemma sample_same_verifier: "same_verifier sample_delivery"
  using sample_delivery_ok(1) by (simp add: same_verifier_def)

lemma sample_asked:
  "delivery_step sample_delivery (delivery_start None) (delivery_start None\<lparr>dr_asked := {question_of [57] sample_pending},
     dr_state := (dr_state (delivery_start None))\<lparr>dy_pending := [([57], sample_pending)]\<rparr>\<rparr>)"
proof -
  have d: "from_download sample_delivery (pn_download sample_pending)"
    using sample_downloads [of "[[7]]"] by (auto simp: from_download_def sample_delivery_def sample_pending_def)
  have "plan_verified_install (ds_installer sample_delivery) (pd_verified (pn_download sample_pending)) empty_store = Inr (pn_plan sample_pending)"
    by (simp add: plan_verified_install_def sample_delivery_def sample_reread_installer sample_pending_def sample_download_def sample_observed)
  from run_ask [OF d this, of "[57]" "delivery_start None" 5 "Inr ()" "[([57], sample_pending)]"]
  show ?thesis
    by (simp add: plan_approval_request_def reserve_pending_def purge_expired_def delivery_start_def max_pending_approvals_def
        with_pending_def is_ok_def)
      (simp add: sample_pending_def sample_plan_def)
qed

definition sample_run :: delivery_run where
  "sample_run = \<lparr>dr_asked = {question_of [57] sample_pending}, dr_granted = {([57], 7, 9)}, dr_taken = {},
     dr_state = snd (install_with_plan_and_refresh sample_delivery [117] [116] sample_staged sample_plan True (dr_state (delivery_start None)))\<rparr>"

lemma sample_delivery_runs: "delivery_runs sample_delivery sample_run"
proof -
  let ?R = "delivery_start None\<lparr>dr_asked := {question_of [57] sample_pending},
     dr_state := (dr_state (delivery_start None))\<lparr>dy_pending := [([57], sample_pending)]\<rparr>\<rparr>"
  let ?T = "\<lparr>dr_asked = {question_of [57] sample_pending}, dr_granted = {([57], 7, 9)}, dr_taken = {([57], sample_pending)},
      dr_state = dr_state (delivery_start None)\<rparr>"
  have "take_pending sample_delivery [57] 7 9 (dr_pending ?R) = (Inr ([57], sample_pending), [])"
    by (simp add: take_pending_def sample_delivery_def purge_expired_def sample_pending_def)
  then have t: "delivery_step sample_delivery ?R ?T"
    using sample_account run_take [of sample_reading 7 sample_delivery "[57]" 9 ?R "[57]" sample_pending "[]"]
    by (simp add: delivery_start_def with_pending_def)
  have "delivery_step sample_delivery ?T sample_run"
    using run_install_taken [of "[57]" sample_pending ?T "[117]" sample_delivery "[116]"]
    by (simp add: sample_run_def with_state_def) (simp add: sample_pending_def sample_download_def)
  with sample_asked t have "(delivery_step sample_delivery)\<^sup>*\<^sup>* (delivery_start None) sample_run"
    by (meson converse_rtranclp_into_rtranclp rtranclp.rtrancl_refl)
  then show ?thesis by (auto simp: delivery_runs_def)
qed

lemma sample_delivered: "dr_store sample_run = sample_store"
proof -
  have "plan_verified_install sample_reread_installer_env sample_staged empty_store = Inr sample_plan"
    by (simp add: plan_verified_install_def sample_reread_installer sample_observed)
  then show ?thesis
    using sample_install
    by (simp add: sample_run_def install_with_plan_and_refresh_def mutate_store_pending install_if_planned_def sample_delivery_def
        sample_reread_installer delivery_start_def)
qed

lemma delivered_permissions_were_granted_witness:
  "qu_package (question_of [57] sample_pending) = [112] \<and> lit ''local_files'' \<in> qu_permissions (question_of [57] sample_pending)"
proof -
  let ?p = "\<lparr>ip_package_id = [112], ip_agent_id = [97],
    ip_active = sample_version [117], ip_previous = None, ip_installed_at = [116], ip_updated_at = [116]\<rparr>"
  have m: "installed_map (ds_installer sample_delivery) (ps_rows (dr_store sample_run)) [112] = Some ?p"
    using sample_map by (simp add: sample_delivered) (simp add: sample_delivery_def sample_reread_installer)
  have v: "sample_version [117] \<in> versions_of ?p" "lit ''local_files'' \<in> named (sample_version [117])"
    by (simp_all add: versions_of_def named_def sample_version_def permission_names_def)
  from delivered_permissions_were_granted [OF sample_delivery_runs sample_same_verifier sample_delivery_ok(2) m v]
  show ?thesis by (auto simp: sample_run_def)
qed

lemma pending_approvals_are_exclusive_witness:
  "\<exists>e. fst (take_pending sample_delivery [57] 7 6 []) = Inl e"
proof -
  let ?R = "delivery_start None\<lparr>dr_asked := {question_of [57] sample_pending},
     dr_state := (dr_state (delivery_start None))\<lparr>dy_pending := [([57], sample_pending)]\<rparr>\<rparr>"
  have r: "delivery_runs sample_delivery ?R" using sample_asked by (auto simp: delivery_runs_def)
  have "take_pending sample_delivery [57] 7 6 (dr_pending ?R) = (Inr ([57], sample_pending), [])"
    by (simp add: take_pending_def sample_delivery_def purge_expired_def sample_pending_def)
  then show ?thesis using pending_approvals_are_exclusive [OF r sample_same_verifier sample_delivery_ok(2)] by blast
qed

end
