(* ===== verification/Package_Management.thy ===== *)
theory Package_Management
  imports Delivery_Runs
begin

text \<open>
  \<open>package_management.rs\<close>: the extension methods for packages. A request passes the gate of the client,
  its package id is checked, and the error of an operation is replaced by one of a few fixed texts. The
  JSON decoding of the parameters has happened: a request is a value.
\<close>

section \<open>Requests\<close>

datatype package_request =
    RemoteCatalog | RemoteRefresh | DownloadPackage rstr | ApprovePackage rstr | RollbackPackage rstr | ReconcilePackage rstr

datatype package_operation = OpDownload | OpApprove | OpRollback | OpReconcile

text \<open>The methods of the host that are handled here.\<close>

definition package_methods :: "rstr list" where
  "package_methods = map lit [''x.agentmesh360/agent-packages/remote-catalog'', ''x.agentmesh360/agent-packages/remote-refresh'',
     ''x.agentmesh360/agent-packages/download'', ''x.agentmesh360/agent-packages/approve'',
     ''x.agentmesh360/agent-packages/rollback'', ''x.agentmesh360/agent-packages/reconcile'']"

definition package_handles :: "rstr \<Rightarrow> bool" where
  "package_handles name \<longleftrightarrow> name \<in> set package_methods"

datatype package_reply =
    AccessRefused access_error
  | InvalidPackageId
  | ReplyCatalog discovered_catalog
  | ReplyRefresh fetch_status
  | ReplyDelivery delivery_result
  | ReplyReceipt mutation_receipt
  | ReplyIssue package_status_issue

section \<open>Errors\<close>

definition unavailable_issue :: "package_operation \<Rightarrow> package_status_issue" where
  "unavailable_issue operation =
     (case operation of
        OpDownload \<Rightarrow> \<lparr>issue_code = ''package_delivery_failed'',
          issue_summary = ''The Agent Package could not be downloaded and verified.''\<rparr>
      | OpApprove \<Rightarrow> \<lparr>issue_code = ''package_approval_unavailable'', issue_summary = ''The Agent Package approval is unavailable.''\<rparr>
      | OpRollback \<Rightarrow> \<lparr>issue_code = ''package_rollback_unavailable'', issue_summary = ''The Agent Package could not be rolled back.''\<rparr>
      | OpReconcile \<Rightarrow> \<lparr>issue_code = ''package_reconciliation_unavailable'',
          issue_summary = ''The Agent Package runtime state could not be reconciled.''\<rparr>)"

definition operation_issue :: "(host_error \<Rightarrow> rstr) \<Rightarrow> package_operation \<Rightarrow> host_error \<Rightarrow> package_status_issue" where
  "operation_issue render operation e =
     (if operation = OpDownload then unavailable_issue OpDownload
      else
        let classified = classify_package_error (render e) in
        if issue_code classified \<noteq> ''package_validation_failed'' then classified else unavailable_issue operation)"

definition package_response ::
  "(host_error \<Rightarrow> rstr) \<Rightarrow> package_operation \<Rightarrow> ('a \<Rightarrow> package_reply) \<Rightarrow> host_error + 'a \<Rightarrow> package_reply" where
  "package_response render operation reply result =
     (case result of Inr value \<Rightarrow> reply value | Inl e \<Rightarrow> ReplyIssue (operation_issue render operation e))"

definition checked_package_id :: "rstr \<Rightarrow> package_reply + rstr" where
  "checked_package_id package_id =
     map_err (\<lambda>_. InvalidPackageId) (and_then (validate_identifier ''packageId'' package_id True) (\<lambda>_. Inr package_id))"

section \<open>Handling\<close>

text \<open>The readings of one request: the gate, the gate again for the catalog, the clock, and what the
  refresh and the operation meet.\<close>

record management_world =
  wm_gate :: "access_state \<times> nat"
  wm_discover_gate :: "access_state \<times> nat"
  wm_clock :: clock_readings
  wm_refresh :: refresh_world
  wm_delivery :: delivery_world

type_synonym management_state = "delivery_state \<times> fetch_row option"

definition with_package_id ::
  "rstr \<Rightarrow> (rstr \<Rightarrow> package_reply \<times> management_state) \<Rightarrow> management_state \<Rightarrow> package_reply \<times> management_state" where
  "with_package_id package_id f st = (case checked_package_id package_id of Inl reply \<Rightarrow> (reply, st) | Inr i \<Rightarrow> f i)"

definition package_handle ::
  "fetcher \<Rightarrow> delivery_service \<Rightarrow> management_world \<Rightarrow> package_request \<Rightarrow> management_state \<Rightarrow> package_reply \<times> management_state" where
  "package_handle F S w request st =
     (let render = render_error (ds_installer S); (d, row) = st in
      case require_state (fst (wm_gate w)) None (snd (wm_gate w)) of
        Inl e \<Rightarrow> (AccessRefused e, st)
      | Inr _ \<Rightarrow>
        (case request of
           RemoteCatalog \<Rightarrow>
             (ReplyCatalog (fetcher_discover F (require_state (fst (wm_discover_gate w)) None (snd (wm_discover_gate w)))
                (wm_clock w) \<lparr>fs_cache = dy_cache d, fs_row = row\<rparr>), st)
         | RemoteRefresh \<Rightarrow>
             (case fetcher_refresh F (wm_refresh w) \<lparr>fs_cache = dy_cache d, fs_row = row\<rparr> of
                (status, f) \<Rightarrow> (ReplyRefresh status, (d\<lparr>dy_cache := fs_cache f\<rparr>, fs_row f)))
         | DownloadPackage i \<Rightarrow> with_package_id i (\<lambda>i.
             case download_or_request_approval S (wm_delivery w) i d of
               (r, d') \<Rightarrow> (package_response render OpDownload ReplyDelivery r, (d', row))) st
         | ApprovePackage approval_id \<Rightarrow>
             (case approve_and_install S (wm_delivery w) approval_id d of
                (r, d') \<Rightarrow> (package_response render OpApprove ReplyReceipt r, (d', row)))
         | RollbackPackage i \<Rightarrow> with_package_id i (\<lambda>i.
             case delivery_rollback S (wm_delivery w) i d of
               (r, d') \<Rightarrow> (package_response render OpRollback ReplyReceipt r, (d', row))) st
         | ReconcilePackage i \<Rightarrow> with_package_id i (\<lambda>i.
             case reconcile_runtime_catalog S (wm_delivery w) i d of
               (r, d') \<Rightarrow> (package_response render OpReconcile ReplyReceipt r, (d', row))) st))"

section \<open>Properties\<close>

definition classified_issues :: "package_status_issue list" where
  "classified_issues = map (\<lambda>(c, s). \<lparr>issue_code = c, issue_summary = s\<rparr>)
     [(''package_integrity_failed'', ''Installed package contents failed integrity verification.''),
      (''approved_permissions_mismatch'', ''Installed package permissions differ from the approved registry.''),
      (''package_identity_conflict'', ''Installed package identity or version conflicts with the runtime catalog.''),
      (''installed_path_invalid'', ''Installed package storage metadata is invalid.''),
      (''installed_content_missing'', ''Installed package content is missing.''),
      (''package_registry_invalid'', ''The local package registry could not be read safely.'')]"

definition public_issues :: "package_operation \<Rightarrow> package_status_issue list" where
  "public_issues operation = (if operation = OpDownload then [unavailable_issue OpDownload]
     else unavailable_issue operation # classified_issues)"

lemma if_member: "(b \<Longrightarrow> x \<in> S) \<Longrightarrow> (\<not> b \<Longrightarrow> y \<in> S) \<Longrightarrow> (if b then x else y) \<in> S"
  by simp

lemma classified:
  "classify_package_error d \<in> insert \<lparr>issue_code = ''package_validation_failed'',
     issue_summary = ''The installed package could not be validated.''\<rparr> (set classified_issues)"
  unfolding classify_package_error_def Let_def
  by (intro if_member) (simp_all only: classified_issues_def list.map prod.case set_simps insert_iff simp_thms)

lemma operation_issue_public: "operation_issue render operation e \<in> set (public_issues operation)"
proof (cases "operation = OpDownload")
  case False
  then show ?thesis using classified [of "render e"]
    by (cases "issue_code (classify_package_error (render e)) = ''package_validation_failed''")
      (auto simp: operation_issue_def public_issues_def Let_def)
qed (simp add: operation_issue_def public_issues_def)

definition operation_of :: "package_request \<Rightarrow> package_operation" where
  "operation_of request = (case request of DownloadPackage _ \<Rightarrow> OpDownload | ApprovePackage _ \<Rightarrow> OpApprove
     | RollbackPackage _ \<Rightarrow> OpRollback | _ \<Rightarrow> OpReconcile)"

text \<open>C21: errors reveal nothing. When an operation on packages fails, the answer is one of the fixed texts of
  that operation, a single one for downloads, whatever the error says and however it is rendered: no path,
  account, digest or text of a server reaches the caller. A request the gate refuses changes nothing.\<close>

theorem package_errors_are_public:
  assumes "package_handle F S w request st = (reply, st')"
  shows "(\<forall>issue. reply = ReplyIssue issue \<longrightarrow> issue \<in> set (public_issues (operation_of request)))
    \<and> (\<forall>e. require_state (fst (wm_gate w)) None (snd (wm_gate w)) = Inl e \<longrightarrow> reply = AccessRefused e \<and> st' = st)
    \<and> (reply = InvalidPackageId \<longrightarrow> st' = st)"
proof -
  let ?render = "render_error (ds_installer S)"
  have r: "package_response ?render operation reply result = ReplyIssue issue \<Longrightarrow> (\<And>x. reply x \<noteq> ReplyIssue issue)
      \<Longrightarrow> issue \<in> set (public_issues operation)" for operation and reply :: "'x \<Rightarrow> package_reply" and result issue
    using operation_issue_public by (auto simp: package_response_def split: sum.splits)
  have n: "package_response ?render operation ReplyDelivery d \<noteq> InvalidPackageId"
    "package_response ?render operation ReplyReceipt m \<noteq> InvalidPackageId" for operation d m
    by (simp_all add: package_response_def split: sum.splits)
  have c: "checked_package_id i = Inl x \<Longrightarrow> x = InvalidPackageId" for i x
    by (auto simp: checked_package_id_def map_err_def split: sum.splits)
  show ?thesis
    using assms
    by (cases request)
      (auto simp: package_handle_def operation_of_def with_package_id_def Let_def n dest!: c dest: r split: sum.splits prod.splits)
qed

definition sample_management_world :: management_world where
  "sample_management_world = \<lparr>wm_gate = aa_gate sample_reading, wm_discover_gate = aa_gate sample_reading, wm_clock = sample_clock,
     wm_refresh = sample_world, wm_delivery = sample_delivery_world\<rparr>"

lemma package_errors_are_public_witness:
  "\<exists>issue st'. package_handle sample_fetcher sample_delivery sample_management_world (ApprovePackage [57])
      (dr_state (delivery_start None), None) = (ReplyIssue issue, st') \<and> issue \<in> set (public_issues OpApprove)"
proof -
  let ?w = sample_management_world
  obtain reply st' where h: "package_handle sample_fetcher sample_delivery ?w (ApprovePackage [57]) (dr_state (delivery_start None), None)
      = (reply, st')" by (metis surj_pair)
  have "\<exists>e d. approve_and_install sample_delivery v [57] (dr_state (delivery_start None)) = (Inl e, d)" for v
    by (cases "require_account (wd_first v)")
      (auto simp: approve_and_install_def take_pending_def purge_expired_def delivery_start_def Let_def split: option.splits)
  then obtain e d where "approve_and_install sample_delivery sample_delivery_world [57] (dr_state (delivery_start None)) = (Inl e, d)" by blast
  then obtain issue where i: "reply = ReplyIssue issue"
    using h by (auto simp: package_handle_def sample_management_world_def sample_reading_def require_state_def sample_response_def package_response_def Let_def)
  then show ?thesis using package_errors_are_public [OF h] h by (auto simp: operation_of_def)
qed

end
