(* ===== verification/Circuit_Breaker.thy ===== *)
theory Circuit_Breaker
  imports Complex_Main Prelude
begin

text \<open>
  The crate \<open>xai-circuit-breaker\<close>, one call at a time: the sliding window, the
  configuration, the three-state breaker with its half-open probes, the retry policy and the
  registry of breakers. Instants are counts of nanoseconds; every reading of the clock is an
  argument. The calls of the observer are appended to a log.
\<close>

section \<open>Floating point\<close>

text \<open>
  \<open>f64\<close> as the code uses it: a finite value is the rational number it stands for.
  \<open>f64_div f n\<close> is the division of two small integers, rounded to nearest even on 53
  significant bits: the quotient is scaled by the least power of two that makes it at least
  \<open>2 ^ 52\<close>, rounded to an integer and scaled back.
\<close>

datatype f64 = Finite rat | PosInf | NegInf | NaN

definition round_div :: "nat \<Rightarrow> nat \<Rightarrow> nat" where
  "round_div a b =
    (let q = a div b; r = a mod b in
     if 2 * r < b then q else if 2 * r > b then q + 1 else if even q then q else q + 1)"

fun scale_from :: "nat \<Rightarrow> nat \<Rightarrow> nat \<Rightarrow> nat \<Rightarrow> nat" where
  "scale_from 0 k f n = k"
| "scale_from (Suc fuel) k f n = (if 2 ^ 52 * n \<le> f * 2 ^ k then k else scale_from fuel (Suc k) f n)"

definition f64_div :: "nat \<Rightarrow> nat \<Rightarrow> rat" where
  "f64_div f n =
    (if f = 0 then 0
     else let k = scale_from 128 0 f n in of_nat (round_div (f * 2 ^ k) n) / 2 ^ k)"

definition f64_ge :: "rat \<Rightarrow> f64 \<Rightarrow> bool" where
  "f64_ge x t = (case t of Finite y \<Rightarrow> x \<ge> y | PosInf \<Rightarrow> False | NegInf \<Rightarrow> True | NaN \<Rightarrow> False)"

section \<open>The sliding window\<close>

definition max_window_entries :: nat where
  "max_window_entries = 10000"

record sliding_window =
  sw_entries :: "(nat \<times> bool) list"
  sw_failures :: nat

definition window_new :: sliding_window where
  "window_new = \<lparr>sw_entries = [], sw_failures = 0\<rparr>"

definition window_push :: "bool \<Rightarrow> nat \<Rightarrow> sliding_window \<Rightarrow> sliding_window" where
  "window_push is_failure ts w =
    (let w1 = (if length (sw_entries w) \<ge> max_window_entries then
                 (case sw_entries w of
                    [] \<Rightarrow> w
                  | (_, was_failure) # rest \<Rightarrow>
                      \<lparr>sw_entries = rest,
                       sw_failures = (if was_failure then sw_failures w - 1 else sw_failures w)\<rparr>)
               else w) in
     \<lparr>sw_entries = sw_entries w1 @ [(ts, is_failure)],
      sw_failures = (if is_failure then sw_failures w1 + 1 else sw_failures w1)\<rparr>)"

fun evict_before :: "nat \<Rightarrow> (nat \<times> bool) list \<Rightarrow> nat \<Rightarrow> sliding_window" where
  "evict_before cutoff [] failures = \<lparr>sw_entries = [], sw_failures = failures\<rparr>"
| "evict_before cutoff ((ts, was_failure) # rest) failures =
     (if ts < cutoff then evict_before cutoff rest (if was_failure then failures - 1 else failures)
      else \<lparr>sw_entries = (ts, was_failure) # rest, sw_failures = failures\<rparr>)"

definition window_evict :: "nat \<Rightarrow> nat \<Rightarrow> sliding_window \<Rightarrow> sliding_window" where
  "window_evict window now w =
    (if now < window then w else evict_before (now - window) (sw_entries w) (sw_failures w))"

definition window_error_rate :: "sliding_window \<Rightarrow> rat" where
  "window_error_rate w =
    (if sw_entries w = [] then 0 else f64_div (sw_failures w) (length (sw_entries w)))"

definition window_sample_count :: "sliding_window \<Rightarrow> nat" where
  "window_sample_count w = length (sw_entries w)"

definition window_clear :: "sliding_window \<Rightarrow> sliding_window" where
  "window_clear w = \<lparr>sw_entries = [], sw_failures = 0\<rparr>"

section \<open>Configuration\<close>

record breaker_config =
  bc_window_duration :: nat
  bc_min_samples :: nat
  bc_error_rate_threshold :: f64
  bc_open_duration :: nat
  bc_half_open_max_probes :: nat
  bc_failure_codes :: "nat set"
  bc_enabled :: bool

definition from_secs :: "nat \<Rightarrow> nat" where
  "from_secs s = s * 1000000000"

definition from_millis :: "nat \<Rightarrow> nat" where
  "from_millis ms = ms * 1000000"

definition default_failure_codes :: "nat set" where
  "default_failure_codes = {429, 500, 502, 503, 504}"

definition server_config :: breaker_config where
  "server_config = \<lparr>bc_window_duration = from_secs 60, bc_min_samples = 10,
     bc_error_rate_threshold = Finite (1/2), bc_open_duration = from_secs 10,
     bc_half_open_max_probes = 1, bc_failure_codes = default_failure_codes, bc_enabled = True\<rparr>"

definition client_config :: breaker_config where
  "client_config = \<lparr>bc_window_duration = from_secs 60, bc_min_samples = 5,
     bc_error_rate_threshold = Finite (1/2), bc_open_duration = from_secs 60,
     bc_half_open_max_probes = 1, bc_failure_codes = {401}, bc_enabled = True\<rparr>"

definition is_failure_status :: "breaker_config \<Rightarrow> nat \<Rightarrow> bool" where
  "is_failure_status cfg status \<longleftrightarrow> status \<in> bc_failure_codes cfg"

definition parse_failure_codes :: "rstr \<Rightarrow> nat set" where
  "parse_failure_codes s =
     set (List.map_filter (\<lambda>c. parse_unsigned (2 ^ 16) (trim c)) (str_split 44 s))"

section \<open>The breaker\<close>

datatype breaker_state = BClosed | BOpen | BHalfOpen

fun breaker_state_u8 :: "breaker_state \<Rightarrow> nat" where
  "breaker_state_u8 BClosed = 0"
| "breaker_state_u8 BOpen = 1"
| "breaker_state_u8 BHalfOpen = 2"

definition breaker_state_from_u8 :: "nat \<Rightarrow> breaker_state" where
  "breaker_state_from_u8 v = (if v = 1 then BOpen else if v = 2 then BHalfOpen else BClosed)"

datatype outcome = Success | Failure

datatype observer_event =
    OnOutcome outcome breaker_state
  | OnStateChange breaker_state breaker_state string
  | OnProbeAdmission bool

record breaker =
  cb_config :: breaker_config
  cb_state :: breaker_state
  cb_baseline :: nat
  cb_opened_at_millis :: nat
  cb_half_open_probes :: nat
  cb_probe_claimed_at_millis :: nat
  cb_is_open_fast :: bool
  cb_window :: sliding_window
  cb_log :: "observer_event list"

definition observe :: "observer_event \<Rightarrow> breaker \<Rightarrow> breaker" where
  "observe e b = b\<lparr>cb_log := cb_log b @ [e]\<rparr>"

definition breaker_new :: "breaker_config \<Rightarrow> nat \<Rightarrow> breaker" where
  "breaker_new cfg now = \<lparr>cb_config = cfg\<lparr>bc_half_open_max_probes := max 1 (bc_half_open_max_probes cfg)\<rparr>,
     cb_state = BClosed, cb_baseline = now, cb_opened_at_millis = 0, cb_half_open_probes = 0,
     cb_probe_claimed_at_millis = 0, cb_is_open_fast = False, cb_window = window_new, cb_log = []\<rparr>"

definition usize_modulus :: nat where
  "usize_modulus = 2 ^ 64"

definition elapsed_millis :: "breaker \<Rightarrow> nat \<Rightarrow> nat" where
  "elapsed_millis b now = (now - cb_baseline b) div 1000000 mod 2 ^ 64"

definition trip :: "nat \<Rightarrow> breaker_state \<Rightarrow> string \<Rightarrow> breaker \<Rightarrow> breaker" where
  "trip now prev reason b =
    (let b = b\<lparr>cb_state := BOpen, cb_opened_at_millis := elapsed_millis b now,
               cb_half_open_probes := 0, cb_is_open_fast := True\<rparr> in
     if prev \<noteq> BOpen then observe (OnStateChange prev BOpen reason) b else b)"

definition close :: "breaker_state \<Rightarrow> string \<Rightarrow> breaker \<Rightarrow> breaker" where
  "close prev reason b =
    (let b = b\<lparr>cb_state := BClosed, cb_window := window_clear (cb_window b),
               cb_half_open_probes := 0, cb_is_open_fast := False\<rparr> in
     if prev \<noteq> BClosed then observe (OnStateChange prev BClosed reason) b else b)"

text \<open>The answer of \<open>check\<close>: the request may proceed, or the duration to wait.\<close>

datatype admission = Admitted | Rejected nat

definition try_half_open_probe :: "nat \<Rightarrow> breaker \<Rightarrow> admission \<times> breaker" where
  "try_half_open_probe t b =
    (let now = elapsed_millis b t; prev = cb_half_open_probes b;
         b1 = b\<lparr>cb_half_open_probes := (prev + 1) mod usize_modulus\<rparr> in
     if prev < bc_half_open_max_probes (cb_config b) then
       (Admitted, observe (OnProbeAdmission True) (b1\<lparr>cb_probe_claimed_at_millis := now\<rparr>))
     else
       let b2 = b1\<lparr>cb_half_open_probes :=
                  (cb_half_open_probes b1 + (usize_modulus - 1)) mod usize_modulus\<rparr>;
           lease_millis = bc_open_duration (cb_config b) div 1000000 mod 2 ^ 64;
           claimed = cb_probe_claimed_at_millis b2 in
       if now - claimed \<ge> lease_millis then
         (Admitted, observe (OnProbeAdmission True) (b2\<lparr>cb_probe_claimed_at_millis := now\<rparr>))
       else
         (Rejected (min (from_millis 50) (bc_open_duration (cb_config b))),
          observe (OnProbeAdmission False) b2))"

definition cas_state :: "breaker_state \<Rightarrow> breaker_state \<Rightarrow> breaker \<Rightarrow> bool \<times> breaker" where
  "cas_state from to b = (if cb_state b = from then (True, b\<lparr>cb_state := to\<rparr>) else (False, b))"

definition check_open :: "nat \<Rightarrow> nat \<Rightarrow> breaker \<Rightarrow> admission \<times> breaker" where
  "check_open t1 t2 b =
    (let elapsed = from_millis (elapsed_millis b t1 - cb_opened_at_millis b);
         duration = bc_open_duration (cb_config b) in
     if elapsed \<ge> duration then
       (case cas_state BOpen BHalfOpen b of
          (True, b1) \<Rightarrow>
            try_half_open_probe t2
              (observe (OnStateChange BOpen BHalfOpen ''open_elapsed'') (b1\<lparr>cb_is_open_fast := False\<rparr>))
        | (False, b1) \<Rightarrow>
            (case cb_state b1 of
               BClosed \<Rightarrow> (Admitted, b1)
             | BHalfOpen \<Rightarrow> try_half_open_probe t2 b1
             | BOpen \<Rightarrow>
                 (Rejected (duration - from_millis (elapsed_millis b1 t2 - cb_opened_at_millis b1)), b1)))
     else (Rejected (duration - elapsed), b))"

text \<open>\<open>check\<close>; \<open>t1\<close> is the first reading of the clock, \<open>t2\<close> the second one.\<close>

definition breaker_check :: "nat \<Rightarrow> nat \<Rightarrow> breaker \<Rightarrow> admission \<times> breaker" where
  "breaker_check t1 t2 b =
    (if \<not> bc_enabled (cb_config b) then (Admitted, b)
     else case cb_state b of
       BClosed \<Rightarrow> (Admitted, b)
     | BOpen \<Rightarrow> check_open t1 t2 b
     | BHalfOpen \<Rightarrow> try_half_open_probe t1 b)"

definition window_sample :: "breaker_config \<Rightarrow> bool \<Rightarrow> nat \<Rightarrow> sliding_window \<Rightarrow> sliding_window" where
  "window_sample cfg is_failure now w =
     window_evict (bc_window_duration cfg) now (window_push is_failure now w)"

definition should_trip :: "breaker_config \<Rightarrow> sliding_window \<Rightarrow> bool" where
  "should_trip cfg w \<longleftrightarrow> window_sample_count w \<ge> bc_min_samples cfg
     \<and> f64_ge (window_error_rate w) (bc_error_rate_threshold cfg)"

definition breaker_record :: "nat \<Rightarrow> nat \<Rightarrow> outcome \<Rightarrow> breaker \<Rightarrow> breaker" where
  "breaker_record t1 t2 oc b =
    (if \<not> bc_enabled (cb_config b) then b
     else
       let is_failure = (oc = Failure); prev = cb_state b;
           sample = window_sample (cb_config b) is_failure t1 (cb_window b);
           b1 = (case prev of
                   BClosed \<Rightarrow>
                     (let b' = b\<lparr>cb_window := sample\<rparr> in
                      if should_trip (cb_config b) sample then trip t2 prev ''trip'' b' else b')
                 | BHalfOpen \<Rightarrow>
                     (if is_failure then trip t2 prev ''probe_failure'' b
                      else close prev ''probe_success'' b)
                 | BOpen \<Rightarrow> b\<lparr>cb_window := sample\<rparr>) in
       observe (OnOutcome oc (cb_state b1)) b1)"

definition breaker_is_open :: "breaker \<Rightarrow> bool" where
  "breaker_is_open b = cb_is_open_fast b"

text \<open>\<open>error_rate\<close> evicts what is too old before it answers.\<close>

definition breaker_error_rate :: "nat \<Rightarrow> breaker \<Rightarrow> rat \<times> breaker" where
  "breaker_error_rate now b =
    (let w = window_evict (bc_window_duration (cb_config b)) now (cb_window b)
     in (window_error_rate w, b\<lparr>cb_window := w\<rparr>))"

section \<open>Registry\<close>

text \<open>
  One breaker per key, created on first use; a handle to a breaker is its key, so that every
  caller of one key shares the breaker.
\<close>

record breaker_registry =
  reg_config :: breaker_config
  reg_breakers :: "rstr \<rightharpoonup> breaker"

definition registry_new :: "breaker_config \<Rightarrow> breaker_registry" where
  "registry_new cfg = \<lparr>reg_config = cfg, reg_breakers = (\<lambda>_. None)\<rparr>"

definition registry_get :: "rstr \<Rightarrow> nat \<Rightarrow> breaker_registry \<Rightarrow> rstr option \<times> breaker_registry" where
  "registry_get key now r =
    (if \<not> bc_enabled (reg_config r) then (None, r)
     else case reg_breakers r key of
       Some _ \<Rightarrow> (Some key, r)
     | None \<Rightarrow> (Some key, r\<lparr>reg_breakers := (reg_breakers r)(key \<mapsto> breaker_new (reg_config r) now)\<rparr>))"

section \<open>Retry policy\<close>

datatype disposition = Retryable | AuthRefresh | Terminal

record retry_policy =
  rp_retryable :: "nat list"
  rp_auth_refresh :: "nat list"
  rp_terminal :: "nat list"
  rp_default :: disposition

definition classify :: "retry_policy \<Rightarrow> nat \<Rightarrow> disposition option" where
  "classify p status =
    (if 200 \<le> status \<and> status < 300 then None
     else if status \<in> set (rp_auth_refresh p) then Some AuthRefresh
     else if status \<in> set (rp_terminal p) then Some Terminal
     else if status \<in> set (rp_retryable p) \<or> 500 \<le> status \<and> status < 600 then Some Retryable
     else Some (rp_default p))"

definition should_retry :: "retry_policy \<Rightarrow> nat \<Rightarrow> bool" where
  "should_retry p status \<longleftrightarrow> classify p status = Some Retryable"

definition server_policy :: retry_policy where
  "server_policy = \<lparr>rp_retryable = [429], rp_auth_refresh = [], rp_terminal = [], rp_default = Terminal\<rparr>"

definition client_storage_policy :: retry_policy where
  "client_storage_policy = \<lparr>rp_retryable = [], rp_auth_refresh = [401], rp_terminal = [400, 403, 404],
     rp_default = Retryable\<rparr>"

section \<open>The window counts its failures\<close>

definition failure_count :: "(nat \<times> bool) list \<Rightarrow> nat" where
  "failure_count es = length (filter snd es)"

definition window_ok :: "sliding_window \<Rightarrow> bool" where
  "window_ok w \<longleftrightarrow> sw_failures w = failure_count (sw_entries w)
     \<and> length (sw_entries w) \<le> max_window_entries"

lemma failure_count_simps [simp]:
  "failure_count [] = 0"
  "failure_count (e # es) = (if snd e then 1 else 0) + failure_count es"
  "failure_count (es @ fs) = failure_count es + failure_count fs"
  by (simp_all add: failure_count_def)

lemma failure_count_le: "failure_count es \<le> length es"
  by (simp add: failure_count_def)

lemma window_ok_new [simp]: "window_ok window_new" "window_ok (window_clear w)"
  by (simp_all add: window_ok_def window_new_def window_clear_def)

lemma window_ok_push: "window_ok w \<Longrightarrow> window_ok (window_push f ts w)"
  by (cases "sw_entries w") (auto simp: window_ok_def window_push_def Let_def max_window_entries_def)

lemma evict_before_eq:
  assumes "failures = failure_count es"
  shows "evict_before cutoff es failures =
    \<lparr>sw_entries = dropWhile (\<lambda>e. fst e < cutoff) es,
     sw_failures = failure_count (dropWhile (\<lambda>e. fst e < cutoff) es)\<rparr>"
  using assms by (induction cutoff es failures rule: evict_before.induct) auto

lemma window_ok_evict: "window_ok w \<Longrightarrow> window_ok (window_evict d now w)"
  using length_dropWhile_le [of "\<lambda>e. fst e < now - d" "sw_entries w"]
  by (auto simp: window_ok_def window_evict_def evict_before_eq intro: order_trans)

lemma window_ok_sample: "window_ok w \<Longrightarrow> window_ok (window_sample cfg f now w)"
  by (simp add: window_sample_def window_ok_evict window_ok_push)

section \<open>The breaker\<close>

text \<open>
  The invariant of a breaker no call is in the middle of: its window counts its failures, the
  mirror agrees with the state, no probe slot is taken outside \<open>HalfOpen\<close> and never more than
  there are.
\<close>

definition breaker_ok :: "breaker \<Rightarrow> bool" where
  "breaker_ok b \<longleftrightarrow> window_ok (cb_window b) \<and> (cb_is_open_fast b \<longleftrightarrow> cb_state b = BOpen)
     \<and> (cb_state b \<noteq> BHalfOpen \<longrightarrow> cb_half_open_probes b = 0)
     \<and> cb_half_open_probes b \<le> bc_half_open_max_probes (cb_config b)
     \<and> 1 \<le> bc_half_open_max_probes (cb_config b)
     \<and> bc_half_open_max_probes (cb_config b) < usize_modulus"

inductive breaker_reaches :: "breaker_config \<Rightarrow> breaker \<Rightarrow> bool" for cfg where
  reach_new: "breaker_reaches cfg (breaker_new cfg now)"
| reach_check: "breaker_reaches cfg b \<Longrightarrow> breaker_reaches cfg (snd (breaker_check t1 t2 b))"
| reach_record: "breaker_reaches cfg b \<Longrightarrow> breaker_reaches cfg (breaker_record t1 t2 oc b)"
| reach_error_rate: "breaker_reaches cfg b \<Longrightarrow> breaker_reaches cfg (snd (breaker_error_rate now b))"

lemma observe_simps [simp]:
  "cb_config (observe e b) = cb_config b" "cb_state (observe e b) = cb_state b"
  "cb_baseline (observe e b) = cb_baseline b" "cb_opened_at_millis (observe e b) = cb_opened_at_millis b"
  "cb_half_open_probes (observe e b) = cb_half_open_probes b"
  "cb_probe_claimed_at_millis (observe e b) = cb_probe_claimed_at_millis b"
  "cb_is_open_fast (observe e b) = cb_is_open_fast b" "cb_window (observe e b) = cb_window b"
  by (simp_all add: observe_def)

lemma breaker_ok_observe [simp]: "breaker_ok (observe e b) = breaker_ok b"
  by (simp add: breaker_ok_def)

lemma elapsed_observe [simp]: "elapsed_millis (observe e b) t = elapsed_millis b t"
  by (simp add: elapsed_millis_def)

lemma fetch_add_sub: "p < usize_modulus \<Longrightarrow> ((p + 1) mod usize_modulus + (usize_modulus - 1)) mod usize_modulus = p"
  by (cases "p + 1 = usize_modulus") (auto simp: usize_modulus_def mod_simps)

lemma try_half_open_probe_cases:
  assumes "breaker_ok b" "try_half_open_probe t b = (a, b')"
  obtains (slot) "cb_half_open_probes b < bc_half_open_max_probes (cb_config b)" "a = Admitted"
      "b' = observe (OnProbeAdmission True) (b\<lparr>cb_half_open_probes := cb_half_open_probes b + 1,
              cb_probe_claimed_at_millis := elapsed_millis b t\<rparr>)"
  | (reclaim) "cb_half_open_probes b = bc_half_open_max_probes (cb_config b)" "a = Admitted"
      "elapsed_millis b t - cb_probe_claimed_at_millis b \<ge> bc_open_duration (cb_config b) div 1000000 mod 2 ^ 64"
      "b' = observe (OnProbeAdmission True) (b\<lparr>cb_probe_claimed_at_millis := elapsed_millis b t\<rparr>)"
  | (shed) "cb_half_open_probes b = bc_half_open_max_probes (cb_config b)"
      "elapsed_millis b t - cb_probe_claimed_at_millis b < bc_open_duration (cb_config b) div 1000000 mod 2 ^ 64"
      "a = Rejected (min (from_millis 50) (bc_open_duration (cb_config b)))"
      "b' = observe (OnProbeAdmission False) b"
proof -
  from assms(1) have le: "cb_half_open_probes b \<le> bc_half_open_max_probes (cb_config b)"
    "bc_half_open_max_probes (cb_config b) < usize_modulus" by (auto simp: breaker_ok_def)
  then have lt: "cb_half_open_probes b < usize_modulus" by simp
  have same: "b\<lparr>cb_half_open_probes := n\<rparr> = b"
      "b\<lparr>cb_half_open_probes := n, cb_probe_claimed_at_millis := c\<rparr> = b\<lparr>cb_probe_claimed_at_millis := c\<rparr>"
    if "cb_half_open_probes b = n" for n c using that by (cases b; simp)+
  show ?thesis
  proof (cases "cb_half_open_probes b < bc_half_open_max_probes (cb_config b)")
    case True
    with le(2) have "(cb_half_open_probes b + 1) mod usize_modulus = cb_half_open_probes b + 1" by simp
    with True assms(2) show ?thesis by (intro slot) (auto simp: try_half_open_probe_def Let_def)
  next
    case False
    with le have eq: "cb_half_open_probes b = bc_half_open_max_probes (cb_config b)" by simp
    show ?thesis
    proof (cases "elapsed_millis b t - cb_probe_claimed_at_millis b
        \<ge> bc_open_duration (cb_config b) div 1000000 mod 2 ^ 64")
      case True
      with False eq assms(2) fetch_add_sub [OF lt] show ?thesis
        by (intro reclaim) (auto simp: try_half_open_probe_def Let_def same)
    next
      case False
      with eq assms(2) fetch_add_sub [OF lt] show ?thesis
        by (intro shed) (auto simp: try_half_open_probe_def Let_def same)
    qed
  qed
qed

lemma breaker_ok_probe:
  assumes "breaker_ok b" "cb_state b = BHalfOpen" "try_half_open_probe t b = (a, b')"
  shows "breaker_ok b' \<and> cb_state b' = BHalfOpen \<and> cb_config b' = cb_config b"
  using assms(1,3)
  by (cases rule: try_half_open_probe_cases) (use assms in \<open>auto simp: breaker_ok_def\<close>)

lemma check_open_cases:
  assumes "cb_state b = BOpen" "check_open t1 t2 b = (a, b')"
  obtains (probe) "bc_open_duration (cb_config b) \<le> from_millis (elapsed_millis b t1 - cb_opened_at_millis b)"
      "try_half_open_probe t2 (observe (OnStateChange BOpen BHalfOpen ''open_elapsed'')
         (b\<lparr>cb_state := BHalfOpen, cb_is_open_fast := False\<rparr>)) = (a, b')"
  | (wait) "from_millis (elapsed_millis b t1 - cb_opened_at_millis b) < bc_open_duration (cb_config b)"
      "a = Rejected (bc_open_duration (cb_config b) - from_millis (elapsed_millis b t1 - cb_opened_at_millis b))"
      "b' = b"
proof (cases "bc_open_duration (cb_config b) \<le> from_millis (elapsed_millis b t1 - cb_opened_at_millis b)")
  case True
  have "check_open t1 t2 b = try_half_open_probe t2
      (observe (OnStateChange BOpen BHalfOpen ''open_elapsed'')
        (b\<lparr>cb_state := BHalfOpen, cb_is_open_fast := False\<rparr>))"
    using True assms(1) by (simp add: check_open_def cas_state_def)
  with True assms(2) show ?thesis by (intro probe) simp_all
next
  case False
  with assms show ?thesis by (intro wait) (auto simp: check_open_def Let_def)
qed

lemma breaker_ok_half_open:
  assumes "breaker_ok b" "cb_state b = BOpen"
  shows "breaker_ok (b\<lparr>cb_state := BHalfOpen, cb_is_open_fast := False\<rparr>)"
  using assms by (simp add: breaker_ok_def)

lemma breaker_ok_check:
  assumes "breaker_ok b"
  shows "breaker_ok (snd (breaker_check t1 t2 b)) \<and> cb_config (snd (breaker_check t1 t2 b)) = cb_config b"
proof (cases "bc_enabled (cb_config b)")
  case True
  show ?thesis
  proof (cases "cb_state b")
    case BClosed
    with True assms show ?thesis by (simp add: breaker_check_def)
  next
    case BOpen
    obtain a b' where c: "check_open t1 t2 b = (a, b')" by fastforce
    from BOpen c have "breaker_ok b' \<and> cb_config b' = cb_config b"
    proof (cases rule: check_open_cases)
      case probe
      from breaker_ok_probe [OF _ _ probe(2)] breaker_ok_half_open [OF assms BOpen] show ?thesis by simp
    next
      case wait
      with assms show ?thesis by simp
    qed
    with True BOpen c show ?thesis by (simp add: breaker_check_def)
  next
    case BHalfOpen
    obtain a b' where "try_half_open_probe t1 b = (a, b')" by fastforce
    with breaker_ok_probe [OF assms BHalfOpen this] True BHalfOpen show ?thesis
      by (simp add: breaker_check_def)
  qed
qed (use assms in \<open>simp add: breaker_check_def\<close>)

lemma trip_simps [simp]:
  "cb_state (trip now prev reason b) = BOpen" "cb_config (trip now prev reason b) = cb_config b"
  "cb_opened_at_millis (trip now prev reason b) = elapsed_millis b now"
  "cb_half_open_probes (trip now prev reason b) = 0" "cb_is_open_fast (trip now prev reason b) = True"
  "cb_window (trip now prev reason b) = cb_window b" "cb_baseline (trip now prev reason b) = cb_baseline b"
  by (simp_all add: trip_def Let_def)

lemma close_simps [simp]:
  "cb_state (close prev reason b) = BClosed" "cb_config (close prev reason b) = cb_config b"
  "cb_half_open_probes (close prev reason b) = 0" "cb_is_open_fast (close prev reason b) = False"
  "cb_window (close prev reason b) = window_clear (cb_window b)"
  "cb_baseline (close prev reason b) = cb_baseline b"
  by (simp_all add: close_def Let_def)

lemma breaker_ok_trip: "breaker_ok b \<Longrightarrow> breaker_ok (trip now prev reason b)"
  by (simp add: breaker_ok_def)

lemma breaker_ok_close: "breaker_ok b \<Longrightarrow> breaker_ok (close prev reason b)"
  by (simp add: breaker_ok_def)

lemma breaker_ok_window: "breaker_ok b \<Longrightarrow> window_ok w \<Longrightarrow> breaker_ok (b\<lparr>cb_window := w\<rparr>)"
  by (simp add: breaker_ok_def)

lemma breaker_ok_record:
  assumes "breaker_ok b"
  shows "breaker_ok (breaker_record t1 t2 oc b) \<and> cb_config (breaker_record t1 t2 oc b) = cb_config b"
proof -
  have w: "window_ok (window_sample cfg f now (cb_window b))" for cfg f now
    using assms by (intro window_ok_sample) (simp add: breaker_ok_def)
  show ?thesis
    using assms w
    by (cases "cb_state b") (simp_all add: breaker_record_def Let_def breaker_ok_window breaker_ok_trip
        breaker_ok_close)
qed

lemma breaker_reaches_ok:
  assumes "bc_half_open_max_probes cfg < usize_modulus"
  shows "breaker_reaches cfg b \<Longrightarrow> breaker_ok b
    \<and> cb_config b = cfg\<lparr>bc_half_open_max_probes := max 1 (bc_half_open_max_probes cfg)\<rparr>"
proof (induction rule: breaker_reaches.induct)
  case (reach_new now)
  then show ?case using assms by (simp add: breaker_ok_def breaker_new_def usize_modulus_def)
next
  case (reach_error_rate b now)
  then show ?case
    by (auto simp: breaker_error_rate_def Let_def intro!: breaker_ok_window window_ok_evict)
      (simp add: breaker_ok_def)
qed (auto simp: breaker_ok_check breaker_ok_record)

text \<open>C34: whatever sequence of checks, records and rate readings a breaker has gone through, its window
  counts exactly its failures within the cap, the mirror \<open>is_open\<close> answers whether the state is
  \<open>Open\<close>, and the probe counter is zero outside \<open>HalfOpen\<close> and never beyond the slots.\<close>

theorem breaker_invariant:
  assumes "breaker_reaches cfg b" "bc_half_open_max_probes cfg < usize_modulus"
  shows "sw_failures (cb_window b) = length (filter snd (sw_entries (cb_window b)))
    \<and> length (sw_entries (cb_window b)) \<le> 10000
    \<and> (breaker_is_open b \<longleftrightarrow> cb_state b = BOpen)
    \<and> (cb_state b \<noteq> BHalfOpen \<longrightarrow> cb_half_open_probes b = 0)
    \<and> cb_half_open_probes b \<le> max 1 (bc_half_open_max_probes cfg)"
  using breaker_reaches_ok [OF assms(2,1)]
  by (auto simp: breaker_ok_def window_ok_def failure_count_def max_window_entries_def breaker_is_open_def)

lemma breaker_invariant_witness:
  "cb_half_open_probes (snd (breaker_check 5 6 (breaker_new server_config 5))) \<le> 1"
  using breaker_invariant [OF reach_check [OF reach_new], of server_config 5 6 5]
  by (simp add: server_config_def usize_modulus_def)

section \<open>When it trips\<close>

lemma scale_from_least:
  assumes "2 ^ 52 * n \<le> f * 2 ^ (k + fuel)" "0 < n"
  shows "k \<le> scale_from fuel k f n \<and> 2 ^ 52 * n \<le> f * 2 ^ scale_from fuel k f n
    \<and> (\<forall>j. k \<le> j \<longrightarrow> j < scale_from fuel k f n \<longrightarrow> f * 2 ^ j < 2 ^ 52 * n)"
  using assms
proof (induction fuel arbitrary: k)
  case (Suc fuel)
  show ?case
  proof (cases "2 ^ 52 * n \<le> f * 2 ^ k")
    case False
    with Suc.IH [of "Suc k"] Suc.prems have ih:
      "Suc k \<le> scale_from fuel (Suc k) f n" "2 ^ 52 * n \<le> f * 2 ^ scale_from fuel (Suc k) f n"
      "\<forall>j. Suc k \<le> j \<longrightarrow> j < scale_from fuel (Suc k) f n \<longrightarrow> f * 2 ^ j < 2 ^ 52 * n" by auto
    have "f * 2 ^ j < 2 ^ 52 * n" if "k \<le> j" "j < scale_from fuel (Suc k) f n" for j
      using that ih(3) False by (cases "j = k") auto
    with False ih show ?thesis by simp
  qed simp
qed simp

lemma round_div_bounds:
  assumes "0 < b"
  shows "a div b \<le> round_div a b \<and> 2 * (b * round_div a b) \<le> 2 * a + b"
proof -
  have a: "a = b * (a div b) + a mod b" by simp
  show ?thesis
  proof (cases "round_div a b = a div b")
    case True
    then show ?thesis using a by (metis add_leD1 le_add1 le_refl mult_le_mono2 trans_le_add1)
  next
    case False
    then have r: "round_div a b = a div b + 1" "b \<le> 2 * (a mod b)"
      by (auto simp: round_div_def Let_def split: if_splits)
    have "2 * (b * (a div b + 1)) = 2 * (b * (a div b)) + 2 * b" by (simp add: algebra_simps)
    also have "\<dots> \<le> 2 * (b * (a div b)) + 2 * (a mod b) + b" using r(2) by simp
    also have "\<dots> = 2 * a + b" using a by linarith
    finally show ?thesis using r(1) by simp
  qed
qed

text \<open>The threshold of both presets is one half; rounding does not disturb the comparison.\<close>

lemma f64_div_half:
  assumes "f \<le> n" "0 < n" "n \<le> max_window_entries"
  shows "f64_div f n \<ge> 1 / 2 \<longleftrightarrow> n \<le> 2 * f"
proof (cases "f = 0")
  case True
  with assms show ?thesis by (simp add: f64_div_def)
next
  case False
  let ?k = "scale_from 128 0 f n"
  let ?m = "round_div (f * 2 ^ ?k) n"
  have "2 ^ 52 * n \<le> 2 ^ 52 * 2 ^ 14" using assms(3) by (intro mult_le_mono2) (simp add: max_window_entries_def)
  also have "\<dots> \<le> f * 2 ^ (0 + 128)" using False by simp
  finally have k: "2 ^ 52 * n \<le> f * 2 ^ ?k" "\<forall>j < ?k. f * 2 ^ j < 2 ^ 52 * n"
    using scale_from_least [of n f 0 128] assms(2) by auto
  have "52 \<le> ?k"
  proof (rule ccontr)
    assume "\<not> 52 \<le> ?k"
    then have "2 ^ ?k < (2 :: nat) ^ 52" by (intro power_strict_increasing) auto
    then have "f * 2 ^ ?k < f * 2 ^ 52" using False by simp
    also have "\<dots> \<le> n * 2 ^ 52" using assms(1) by simp
    finally show False using k(1) by (simp add: mult.commute)
  qed
  then obtain j where j: "?k = Suc j" "51 \<le> j" by (cases ?k) auto
  have val: "f64_div f n = of_nat ?m / 2 ^ ?k" using False by (simp add: f64_div_def Let_def)
  have "of_nat ?m / 2 ^ ?k \<ge> (1 / 2 :: rat) \<longleftrightarrow> (2 :: rat) ^ j \<le> of_nat ?m"
    using j(1) by (simp add: field_simps)
  also have "\<dots> \<longleftrightarrow> 2 ^ j \<le> ?m" by (metis of_nat_le_iff of_nat_numeral of_nat_power)
  also have "\<dots> \<longleftrightarrow> n \<le> 2 * f"
  proof
    assume "n \<le> 2 * f"
    then have "2 ^ j * n \<le> f * 2 ^ ?k" using j(1) by simp
    then have "2 ^ j \<le> f * 2 ^ ?k div n" using assms(2) by (simp add: less_eq_div_iff_mult_less_eq)
    with round_div_bounds [OF assms(2)] show "2 ^ j \<le> ?m" using order_trans by blast
  next
    assume m: "2 ^ j \<le> ?m"
    show "n \<le> 2 * f"
    proof (rule ccontr)
      assume "\<not> n \<le> 2 * f"
      then have lt: "2 * f + 1 \<le> n" by simp
      have "2 * (n * 2 ^ j) \<le> 2 * (n * ?m)" using m by simp
      also have "\<dots> \<le> 2 * (f * 2 ^ ?k) + n" using round_div_bounds [OF assms(2)] by blast
      also have "\<dots> = 2 * (2 * f) * 2 ^ j + n" using j(1) by simp
      finally have a: "2 * (n * 2 ^ j) \<le> 2 * (2 * f) * 2 ^ j + n" .
      have "2 * (2 * f + 1) * 2 ^ j \<le> 2 * (n * 2 ^ j)"
        using mult_le_mono1 [OF lt, of "2 * 2 ^ j"] by (simp add: ac_simps)
      with a have "2 * 2 ^ j \<le> n" by (simp add: algebra_simps)
      moreover have "(2 :: nat) ^ 51 \<le> 2 ^ j" using j(2) by (intro power_increasing) auto
      ultimately show False using assms(3) by (simp add: max_window_entries_def)
    qed
  qed
  finally show ?thesis by (simp only: val)
qed

text \<open>a closed breaker with the threshold of the presets trips on a record exactly when, among
  the samples that are still in the window, there are at least the minimum number and at least half are
  failures; otherwise it stays closed. The rounding of the floating-point rate plays no role.\<close>

theorem record_trips_iff:
  fixes t1 :: nat and oc :: outcome
  assumes "breaker_reaches cfg b" "bc_half_open_max_probes cfg < usize_modulus"
    and "bc_enabled cfg" "cb_state b = BClosed" "bc_error_rate_threshold cfg = Finite (1 / 2)"
    and "1 \<le> bc_min_samples cfg"
  defines "samples \<equiv> sw_entries (window_sample cfg (oc = Failure) t1 (cb_window b))"
  shows "cb_state (breaker_record t1 t2 oc b) =
    (if bc_min_samples cfg \<le> length samples \<and> length samples \<le> 2 * length (filter snd samples)
     then BOpen else BClosed)"
proof -
  let ?w = "window_sample cfg (oc = Failure) t1 (cb_window b)"
  from breaker_reaches_ok [OF assms(2,1)] have ok: "breaker_ok b"
    and cfg: "bc_window_duration (cb_config b) = bc_window_duration cfg"
      "bc_min_samples (cb_config b) = bc_min_samples cfg" "bc_enabled (cb_config b)"
      "bc_error_rate_threshold (cb_config b) = Finite (1 / 2)" using assms(3,5) by auto
  have w: "window_sample (cb_config b) (oc = Failure) t1 (cb_window b) = ?w"
    using cfg(1) by (simp add: window_sample_def)
  have wok: "window_ok ?w" using ok by (intro window_ok_sample) (simp add: breaker_ok_def)
  then have f: "sw_failures ?w = length (filter snd samples)"
    and len: "length samples \<le> max_window_entries"
    by (auto simp: window_ok_def failure_count_def samples_def)
  have "should_trip (cb_config b) ?w \<longleftrightarrow>
      bc_min_samples cfg \<le> length samples \<and> length samples \<le> 2 * length (filter snd samples)"
  proof (cases "samples = []")
    case True
    then show ?thesis using assms(6) cfg by (simp add: should_trip_def window_sample_count_def samples_def [symmetric])
  next
    case False
    have "window_error_rate ?w = f64_div (length (filter snd samples)) (length samples)"
      using False f by (simp add: window_error_rate_def samples_def)
    moreover have "f64_div (length (filter snd samples)) (length samples) \<ge> 1 / 2 \<longleftrightarrow>
        length samples \<le> 2 * length (filter snd samples)"
      using False len by (intro f64_div_half) auto
    ultimately show ?thesis using cfg
      by (simp add: should_trip_def window_sample_count_def f64_ge_def samples_def [symmetric])
  qed
  then show ?thesis using cfg(3) assms(4) by (simp add: breaker_record_def w Let_def)
qed

text \<open>A server configuration that trips on its first failure, and the breaker it has opened.\<close>

definition eager_config :: breaker_config where
  "eager_config = server_config\<lparr>bc_min_samples := 1\<rparr>"

definition eager_open :: breaker where
  "eager_open = \<lparr>cb_config = eager_config, cb_state = BOpen, cb_baseline = 5, cb_opened_at_millis = 0,
     cb_half_open_probes = 0, cb_probe_claimed_at_millis = 0, cb_is_open_fast = True,
     cb_window = \<lparr>sw_entries = [(7, True)], sw_failures = 1\<rparr>,
     cb_log = [OnStateChange BClosed BOpen ''trip'', OnOutcome Failure BOpen]\<rparr>"

lemma eager_config_simps [simp]:
  "bc_half_open_max_probes eager_config = 1" "bc_enabled eager_config" "bc_min_samples eager_config = 1"
  "bc_error_rate_threshold eager_config = Finite (1 / 2)" "bc_open_duration eager_config = from_secs 10"
  "bc_window_duration eager_config = from_secs 60" "eager_config\<lparr>bc_half_open_max_probes := Suc 0\<rparr> = eager_config"
  by (simp_all add: eager_config_def server_config_def)

lemma eager_window:
  "window_sample eager_config True 7 window_new = \<lparr>sw_entries = [(7, True)], sw_failures = 1\<rparr>"
  by (simp add: window_sample_def window_push_def window_new_def window_evict_def from_secs_def
      max_window_entries_def)

lemma eager_trips: "breaker_record 7 8 Failure (breaker_new eager_config 5) = eager_open"
  using f64_div_half [of 1 1]
  by (simp add: breaker_record_def breaker_new_def eager_window should_trip_def window_sample_count_def
      window_error_rate_def f64_ge_def max_window_entries_def trip_def observe_def Let_def
      elapsed_millis_def eager_open_def)

lemma eager_open_reached: "breaker_reaches eager_config eager_open"
  using reach_record [OF reach_new, of eager_config 7 8 Failure 5] by (simp add: eager_trips)

lemma record_trips_iff_witness:
  "cb_state (breaker_record 7 8 Failure (breaker_new eager_config 5)) = BOpen"
  by (subst record_trips_iff [where cfg = eager_config, OF reach_new])
    (simp_all add: usize_modulus_def breaker_new_def eager_window)

section \<open>Recovery\<close>

text \<open>C39: an open breaker recovers. Once the open duration has passed, measured in whole
  milliseconds, the next check is admitted as a probe and moves the breaker to \<open>HalfOpen\<close>; a
  success of the probe closes the breaker with an empty window, a failure opens it again with a fresh
  opening time. Before that moment every check is turned away with the exact rest of the duration.\<close>

theorem open_breaker_recovers:
  fixes ta :: nat
  assumes "breaker_reaches cfg b" "bc_half_open_max_probes cfg < usize_modulus"
    and "bc_enabled cfg" "cb_state b = BOpen"
  defines "waited \<equiv> from_millis (elapsed_millis b ta - cb_opened_at_millis b)"
  shows "(waited < bc_open_duration cfg \<longrightarrow>
       breaker_check ta tb b = (Rejected (bc_open_duration cfg - waited), b))
    \<and> (bc_open_duration cfg \<le> waited \<longrightarrow>
       (\<exists>b'. breaker_check ta tb b = (Admitted, b') \<and> cb_state b' = BHalfOpen \<and> \<not> breaker_is_open b'
          \<and> cb_state (breaker_record tc td Success b') = BClosed
          \<and> sw_entries (cb_window (breaker_record tc td Success b')) = []
          \<and> cb_state (breaker_record tc td Failure b') = BOpen
          \<and> cb_opened_at_millis (breaker_record tc td Failure b') = elapsed_millis b td))"
proof -
  from breaker_reaches_ok [OF assms(2,1)] have ok: "breaker_ok b"
    and cfg: "bc_enabled (cb_config b)" "bc_open_duration (cb_config b) = bc_open_duration cfg"
    using assms(3) by auto
  obtain a b' where c: "check_open ta tb b = (a, b')" by fastforce
  have chk: "breaker_check ta tb b = (a, b')" using cfg(1) assms(4) c by (simp add: breaker_check_def)
  from assms(4) c show ?thesis
  proof (cases rule: check_open_cases)
    case probe
    let ?b = "observe (OnStateChange BOpen BHalfOpen ''open_elapsed'')
      (b\<lparr>cb_state := BHalfOpen, cb_is_open_fast := False\<rparr>)"
    have okp: "breaker_ok ?b" using breaker_ok_half_open [OF ok assms(4)] by simp
    have slots: "cb_half_open_probes ?b < bc_half_open_max_probes (cb_config ?b)"
      using ok assms(4) by (simp add: breaker_ok_def)
    have e: "a = Admitted" "cb_state b' = BHalfOpen" "cb_is_open_fast b' = False"
      "cb_config b' = cb_config b" "cb_baseline b' = cb_baseline b"
      using okp probe(2)
      by (cases rule: try_half_open_probe_cases; use slots in simp)+
    have el: "elapsed_millis b' t = elapsed_millis b t" for t
      using e(5) by (simp add: elapsed_millis_def)
    from probe(1) chk e el cfg show ?thesis
      by (simp add: waited_def breaker_record_def breaker_is_open_def window_clear_def)
  next
    case wait
    with chk cfg show ?thesis by (simp add: waited_def)
  qed
qed

lemma eager_open_simps: "cb_state eager_open = BOpen"
  by (simp add: eager_open_def)

lemma open_breaker_recovers_witness:
  "fst (breaker_check 20000000005 20000000006 eager_open) = Admitted"
proof -
  have "bc_open_duration eager_config
      \<le> from_millis (elapsed_millis eager_open 20000000005 - cb_opened_at_millis eager_open)"
    by (simp add: from_secs_def from_millis_def elapsed_millis_def eager_open_def)
  with open_breaker_recovers [where cfg = eager_config and b = eager_open and ta = 20000000005
      and tb = 20000000006, OF eager_open_reached]
  have "\<exists>b'. breaker_check 20000000005 20000000006 eager_open = (Admitted, b')"
    using eager_open_simps by (simp add: usize_modulus_def) blast
  then show ?thesis by auto
qed

section \<open>Probes in the half-open state\<close>

fun check_run :: "nat list \<Rightarrow> breaker \<Rightarrow> admission list \<times> breaker" where
  "check_run [] b = ([], b)"
| "check_run (t # ts) b =
     (let (a, b1) = breaker_check t t b; (as, b2) = check_run ts b1 in (a # as, b2))"

definition lease_millis :: "breaker_config \<Rightarrow> nat" where
  "lease_millis cfg = bc_open_duration cfg div 1000000 mod 2 ^ 64"

lemma check_run_half_open:
  assumes "breaker_ok b" "cb_state b = BHalfOpen" "bc_enabled (cb_config b)"
    and "\<forall>t \<in> set ts. T \<le> elapsed_millis b t \<and> elapsed_millis b t < T + lease_millis (cb_config b)"
    and "0 < cb_half_open_probes b \<longrightarrow> T \<le> cb_probe_claimed_at_millis b"
  shows "length (filter (\<lambda>a. a = Admitted) (fst (check_run ts b)))
    = min (bc_half_open_max_probes (cb_config b) - cb_half_open_probes b) (length ts)"
  using assms
proof (induction ts arbitrary: b)
  case (Cons t ts)
  obtain a b1 where p: "try_half_open_probe t b = (a, b1)" by fastforce
  have c: "breaker_check t t b = (a, b1)" using Cons.prems(2,3) p by (simp add: breaker_check_def)
  have ok: "breaker_ok b1" "cb_state b1 = BHalfOpen" "cb_config b1 = cb_config b"
    using breaker_ok_probe [OF Cons.prems(1,2) p] by auto
  from Cons.prems(1) p show ?case
  proof (cases rule: try_half_open_probe_cases)
    case slot
    have "\<forall>t \<in> set ts. T \<le> elapsed_millis b1 t \<and> elapsed_millis b1 t < T + lease_millis (cb_config b1)"
      using Cons.prems(4) slot(3) by (simp add: elapsed_millis_def)
    moreover have "T \<le> cb_probe_claimed_at_millis b1" using Cons.prems(4) slot(3) by simp
    ultimately have "length (filter (\<lambda>a. a = Admitted) (fst (check_run ts b1)))
        = min (bc_half_open_max_probes (cb_config b1) - cb_half_open_probes b1) (length ts)"
      using Cons.IH [of b1] ok Cons.prems(3) by simp
    with slot c ok(3) show ?thesis by (auto split: prod.splits)
  next
    case reclaim
    from Cons.prems(1) reclaim(1) have "0 < cb_half_open_probes b" by (simp add: breaker_ok_def)
    with Cons.prems(4,5) reclaim(3) have False by (auto simp: lease_millis_def)
    then show ?thesis ..
  next
    case shed
    have "\<forall>t \<in> set ts. T \<le> elapsed_millis b1 t \<and> elapsed_millis b1 t < T + lease_millis (cb_config b1)"
      using Cons.prems(4) shed(4) by (simp add: elapsed_millis_def)
    then have "length (filter (\<lambda>a. a = Admitted) (fst (check_run ts b1)))
        = min (bc_half_open_max_probes (cb_config b1) - cb_half_open_probes b1) (length ts)"
      using Cons.IH [of b1] ok Cons.prems(3,5) shed(4) by simp
    with shed c ok(3) show ?thesis by (auto split: prod.splits)
  qed
qed simp

text \<open>when the open duration has passed, a run of checks that no probe report interrupts is admitted
  exactly up to the number of probe slots, as long as the lease of the first probe has not run out; all
  further checks are shed.\<close>

theorem half_open_admits_its_slots:
  assumes "breaker_reaches cfg b" "bc_half_open_max_probes cfg < usize_modulus" "bc_enabled cfg"
    and "cb_state b = BOpen"
    and "bc_open_duration cfg \<le> from_millis (elapsed_millis b t - cb_opened_at_millis b)"
    and "\<forall>t' \<in> set ts. elapsed_millis b t \<le> elapsed_millis b t'
           \<and> elapsed_millis b t' < elapsed_millis b t + lease_millis cfg"
  shows "length (filter (\<lambda>a. a = Admitted) (fst (check_run (t # ts) b)))
    = min (max 1 (bc_half_open_max_probes cfg)) (length (t # ts))"
proof -
  let ?b = "observe (OnStateChange BOpen BHalfOpen ''open_elapsed'')
    (b\<lparr>cb_state := BHalfOpen, cb_is_open_fast := False\<rparr>)"
  from breaker_reaches_ok [OF assms(2,1)] have ok: "breaker_ok b"
    and cfg: "cb_config b = cfg\<lparr>bc_half_open_max_probes := max 1 (bc_half_open_max_probes cfg)\<rparr>" by auto
  obtain a b1 where c: "check_open t t b = (a, b1)" by fastforce
  have chk: "breaker_check t t b = (a, b1)" using cfg assms(3,4) c by (simp add: breaker_check_def)
  have p: "try_half_open_probe t ?b = (a, b1)"
    using assms(4) c by (cases rule: check_open_cases) (use assms(5) cfg in simp_all)
  have okb: "breaker_ok ?b" "cb_half_open_probes ?b = 0" "cb_state ?b = BHalfOpen"
    using breaker_ok_half_open [OF ok assms(4)] ok assms(4) by (simp_all add: breaker_ok_def)
  from okb(1,2) have lt: "cb_half_open_probes ?b < bc_half_open_max_probes (cb_config ?b)"
    unfolding breaker_ok_def by linarith
  have "a = Admitted \<and> b1 = observe (OnProbeAdmission True) (?b\<lparr>cb_half_open_probes := cb_half_open_probes ?b + 1,
              cb_probe_claimed_at_millis := elapsed_millis ?b t\<rparr>)"
    using okb(1) p
  proof (cases rule: try_half_open_probe_cases)
    case slot
    then show ?thesis by blast
  qed (use lt in auto)
  then have slot: "a = Admitted" "cb_half_open_probes b1 = 1" "elapsed_millis b1 = elapsed_millis b"
    "cb_probe_claimed_at_millis b1 = elapsed_millis b t"
    using okb(2) by (auto simp: elapsed_millis_def)
  from breaker_ok_probe [OF okb(1,3) p] have ok1: "breaker_ok b1" "cb_state b1 = BHalfOpen"
    "cb_config b1 = cb_config b" by simp_all
  have "length (filter (\<lambda>a. a = Admitted) (fst (check_run ts b1)))
      = min (bc_half_open_max_probes (cb_config b1) - cb_half_open_probes b1) (length ts)"
    using check_run_half_open [OF ok1(1,2), of ts "elapsed_millis b t"] ok1(3) slot cfg assms(3,6)
    by (simp add: lease_millis_def)
  then have n: "length (filter (\<lambda>a. a = Admitted) (fst (check_run ts b1)))
      = min (max 1 (bc_half_open_max_probes cfg) - 1) (length ts)"
    using slot(2) ok1(3) cfg by simp
  obtain as b2 where r: "check_run ts b1 = (as, b2)" by fastforce
  have "fst (check_run (t # ts) b) = Admitted # as" using chk slot(1) r by simp
  with n r show ?thesis by simp
qed

lemma half_open_admits_its_slots_witness:
  "length (filter (\<lambda>a. a = Admitted) (fst (check_run [10000000005, 10000000006] eager_open))) = 1"
proof -
  have "bc_open_duration eager_config
      \<le> from_millis (elapsed_millis eager_open 10000000005 - cb_opened_at_millis eager_open)"
    "\<forall>t' \<in> set [10000000006]. elapsed_millis eager_open 10000000005 \<le> elapsed_millis eager_open t'
       \<and> elapsed_millis eager_open t' < elapsed_millis eager_open 10000000005 + lease_millis eager_config"
    by (simp_all add: from_secs_def from_millis_def elapsed_millis_def eager_open_def lease_millis_def)
  from half_open_admits_its_slots [where cfg = eager_config, OF eager_open_reached _ _ eager_open_simps this]
  show ?thesis by (simp add: usize_modulus_def)
qed

end
