(* ===== verification/Breaker_Threads.thy ===== *)
theory Breaker_Threads
  imports Circuit_Breaker
begin

text \<open>
  The same breaker with many callers: every atomic load, store, read-modify-write, lock section and
  clock reading of \<open>check\<close> and \<open>record\<close> is one step of a thread, and the steps of the
  threads interleave in any order over the shared fields (sequentially consistent; the observer
  calls are left out). The program counter carries the local values of the thread.
\<close>

section \<open>Steps\<close>

datatype pc =
    Idle
  | CheckLoad
  | OpenLoadStamp
  | OpenReadClock nat
  | OpenCas
  | OpenStoreFast
  | OpenReload
  | OpenReloadStamp
  | OpenReadClockAgain nat
  | ProbeReadClock
  | ProbeAdd nat
  | ProbeStoreClaim nat
  | ProbeSub nat
  | ProbeLoadClaim nat
  | ProbeCasClaim nat nat
  | Passed
  | AdmittedBySlot
  | AdmittedByReclaim
  | Shed nat
  | RecClock bool
  | RecLoad bool nat
  | RecSampleClosed bool nat
  | RecSampleOpen bool nat
  | TripState
  | TripReadClock
  | TripStamp nat
  | TripProbes
  | TripFast
  | CloseState
  | CloseWindow
  | CloseProbes
  | CloseFast
  | RecDone

text \<open>The step a thread takes from its program counter, at the time \<open>now\<close> of the clock.\<close>

fun thread_step :: "nat \<Rightarrow> pc \<Rightarrow> breaker \<Rightarrow> pc \<times> breaker" where
  "thread_step now CheckLoad b =
     (case cb_state b of BClosed \<Rightarrow> (Passed, b) | BOpen \<Rightarrow> (OpenLoadStamp, b) | BHalfOpen \<Rightarrow> (ProbeReadClock, b))"
| "thread_step now OpenLoadStamp b = (OpenReadClock (cb_opened_at_millis b), b)"
| "thread_step now (OpenReadClock opened) b =
     (let elapsed = from_millis (elapsed_millis b now - opened); duration = bc_open_duration (cb_config b) in
      if elapsed \<ge> duration then (OpenCas, b) else (Shed (duration - elapsed), b))"
| "thread_step now OpenCas b =
     (case cas_state BOpen BHalfOpen b of (True, b') \<Rightarrow> (OpenStoreFast, b') | (False, b') \<Rightarrow> (OpenReload, b'))"
| "thread_step now OpenStoreFast b = (ProbeReadClock, b\<lparr>cb_is_open_fast := False\<rparr>)"
| "thread_step now OpenReload b =
     (case cb_state b of BClosed \<Rightarrow> (Passed, b) | BHalfOpen \<Rightarrow> (ProbeReadClock, b) | BOpen \<Rightarrow> (OpenReloadStamp, b))"
| "thread_step now OpenReloadStamp b = (OpenReadClockAgain (cb_opened_at_millis b), b)"
| "thread_step now (OpenReadClockAgain opened) b =
     (Shed (bc_open_duration (cb_config b) - from_millis (elapsed_millis b now - opened)), b)"
| "thread_step now ProbeReadClock b = (ProbeAdd (elapsed_millis b now), b)"
| "thread_step now (ProbeAdd t) b =
     (let prev = cb_half_open_probes b; b' = b\<lparr>cb_half_open_probes := (prev + 1) mod usize_modulus\<rparr> in
      if prev < bc_half_open_max_probes (cb_config b) then (ProbeStoreClaim t, b') else (ProbeSub t, b'))"
| "thread_step now (ProbeStoreClaim t) b = (AdmittedBySlot, b\<lparr>cb_probe_claimed_at_millis := t\<rparr>)"
| "thread_step now (ProbeSub t) b =
     (ProbeLoadClaim t,
      b\<lparr>cb_half_open_probes := (cb_half_open_probes b + (usize_modulus - 1)) mod usize_modulus\<rparr>)"
| "thread_step now (ProbeLoadClaim t) b =
     (if t - cb_probe_claimed_at_millis b \<ge> lease_millis (cb_config b)
      then (ProbeCasClaim t (cb_probe_claimed_at_millis b), b)
      else (Shed (min (from_millis 50) (bc_open_duration (cb_config b))), b))"
| "thread_step now (ProbeCasClaim t claimed) b =
     (if cb_probe_claimed_at_millis b = claimed
      then (AdmittedByReclaim, b\<lparr>cb_probe_claimed_at_millis := t\<rparr>)
      else (Shed (min (from_millis 50) (bc_open_duration (cb_config b))), b))"
| "thread_step now (RecClock f) b = (RecLoad f now, b)"
| "thread_step now (RecLoad f t) b =
     (case cb_state b of
        BClosed \<Rightarrow> (RecSampleClosed f t, b)
      | BHalfOpen \<Rightarrow> (if f then (TripState, b) else (CloseState, b))
      | BOpen \<Rightarrow> (RecSampleOpen f t, b))"
| "thread_step now (RecSampleClosed f t) b =
     (let w = window_sample (cb_config b) f t (cb_window b); b' = b\<lparr>cb_window := w\<rparr> in
      if should_trip (cb_config b) w then (TripState, b') else (RecDone, b'))"
| "thread_step now (RecSampleOpen f t) b =
     (RecDone, b\<lparr>cb_window := window_sample (cb_config b) f t (cb_window b)\<rparr>)"
| "thread_step now TripState b = (TripReadClock, b\<lparr>cb_state := BOpen\<rparr>)"
| "thread_step now TripReadClock b = (TripStamp (elapsed_millis b now), b)"
| "thread_step now (TripStamp t) b = (TripProbes, b\<lparr>cb_opened_at_millis := t\<rparr>)"
| "thread_step now TripProbes b = (TripFast, b\<lparr>cb_half_open_probes := 0\<rparr>)"
| "thread_step now TripFast b = (RecDone, b\<lparr>cb_is_open_fast := True\<rparr>)"
| "thread_step now CloseState b = (CloseWindow, b\<lparr>cb_state := BClosed\<rparr>)"
| "thread_step now CloseWindow b = (CloseProbes, b\<lparr>cb_window := window_clear (cb_window b)\<rparr>)"
| "thread_step now CloseProbes b = (CloseFast, b\<lparr>cb_half_open_probes := 0\<rparr>)"
| "thread_step now CloseFast b = (RecDone, b\<lparr>cb_is_open_fast := False\<rparr>)"
| "thread_step now Idle b = (Idle, b)"
| "thread_step now Passed b = (Idle, b)"
| "thread_step now AdmittedBySlot b = (Idle, b)"
| "thread_step now AdmittedByReclaim b = (Idle, b)"
| "thread_step now (Shed d) b = (Idle, b)"
| "thread_step now RecDone b = (Idle, b)"

text \<open>The shared breaker, the clock, and the program counters of the threads.\<close>

record threads =
  th_breaker :: breaker
  th_clock :: nat
  th_pcs :: "pc list"

inductive threads_step :: "threads \<Rightarrow> threads \<Rightarrow> bool" where
  tick: "th_clock s \<le> t \<Longrightarrow> threads_step s (s\<lparr>th_clock := t\<rparr>)"
| start_check: "i < length (th_pcs s) \<Longrightarrow> th_pcs s ! i = Idle \<Longrightarrow>
     threads_step s (s\<lparr>th_pcs := (th_pcs s)[i := CheckLoad]\<rparr>)"
| start_record: "i < length (th_pcs s) \<Longrightarrow> th_pcs s ! i = Idle \<Longrightarrow>
     threads_step s (s\<lparr>th_pcs := (th_pcs s)[i := RecClock f]\<rparr>)"
| advance: "i < length (th_pcs s) \<Longrightarrow> thread_step (th_clock s) (th_pcs s ! i) (th_breaker s) = (p, b) \<Longrightarrow>
     threads_step s (s\<lparr>th_breaker := b, th_pcs := (th_pcs s)[i := p]\<rparr>)"

definition threads_start :: "breaker_config \<Rightarrow> nat \<Rightarrow> threads" where
  "threads_start cfg n = \<lparr>th_breaker = breaker_new cfg 0, th_clock = 0, th_pcs = replicate n Idle\<rparr>"

definition threads_reach :: "breaker_config \<Rightarrow> nat \<Rightarrow> threads \<Rightarrow> bool" where
  "threads_reach cfg n s \<longleftrightarrow> threads_step\<^sup>*\<^sup>* (threads_start cfg n) s"

section \<open>Schedules\<close>

text \<open>A schedule is an explicit sequence of steps; running one stays within the reachable states.\<close>

datatype action = At nat | Check nat | Rec nat bool | Go nat

fun do_action :: "action \<Rightarrow> threads \<Rightarrow> threads" where
  "do_action (At t) s = (if th_clock s \<le> t then s\<lparr>th_clock := t\<rparr> else s)"
| "do_action (Check i) s =
     (if i < length (th_pcs s) \<and> th_pcs s ! i = Idle then s\<lparr>th_pcs := (th_pcs s)[i := CheckLoad]\<rparr> else s)"
| "do_action (Rec i f) s =
     (if i < length (th_pcs s) \<and> th_pcs s ! i = Idle then s\<lparr>th_pcs := (th_pcs s)[i := RecClock f]\<rparr> else s)"
| "do_action (Go i) s =
     (if i < length (th_pcs s) then
        (case thread_step (th_clock s) (th_pcs s ! i) (th_breaker s) of
           (p, b) \<Rightarrow> s\<lparr>th_breaker := b, th_pcs := (th_pcs s)[i := p]\<rparr>)
      else s)"

fun run_schedule :: "action list \<Rightarrow> threads \<Rightarrow> threads" where
  "run_schedule [] s = s"
| "run_schedule (a # as) s = run_schedule as (do_action a s)"

lemma do_action_step: "threads_step\<^sup>*\<^sup>* s (do_action a s)"
  by (cases a) (auto intro: threads_step.intros split: prod.splits)

lemma run_schedule_reach: "threads_step\<^sup>*\<^sup>* s (run_schedule as s)"
  by (induction as arbitrary: s) (auto intro: rtranclp_trans [OF do_action_step])

lemma run_schedule_append: "run_schedule (as @ bs) s = run_schedule bs (run_schedule as s)"
  by (induction as arbitrary: s) simp_all

lemma run_schedule_threads_reach: "threads_reach cfg n (run_schedule as (threads_start cfg n))"
  by (simp add: threads_reach_def run_schedule_reach)

section \<open>Races\<close>

text \<open>
  Schedules of at most three threads over a breaker that trips on its first failure. The first part
  opens the breaker and ten seconds later moves it to \<open>HalfOpen\<close>, where thread 0 takes the only
  probe slot.
\<close>

definition trip_schedule :: "action list" where
  "trip_schedule = [At 7, Rec 0 True, Go 0, Go 0, Go 0, Go 0, Go 0, Go 0, Go 0, Go 0, Go 0]"

definition race_state :: "breaker_state \<Rightarrow> nat \<Rightarrow> nat \<Rightarrow> nat \<Rightarrow> bool \<Rightarrow> sliding_window \<Rightarrow> breaker" where
  "race_state st opened probes claimed fast w =
     \<lparr>cb_config = eager_config, cb_state = st, cb_baseline = 0, cb_opened_at_millis = opened,
      cb_half_open_probes = probes, cb_probe_claimed_at_millis = claimed, cb_is_open_fast = fast,
      cb_window = w, cb_log = []\<rparr>"

definition failed_window :: sliding_window where
  "failed_window = \<lparr>sw_entries = [(7, True)], sw_failures = 1\<rparr>"

lemma eager_should_trip: "should_trip eager_config failed_window"
  using f64_div_half [of 1 1]
  by (simp add: failed_window_def should_trip_def window_sample_count_def window_error_rate_def
      f64_ge_def max_window_entries_def)

lemma eager_failed_window: "window_sample eager_config True 7 window_new = failed_window"
  using eager_window by (simp add: failed_window_def)

lemma race_state_simps [simp]:
  "cb_config (race_state st op pr cl fa w) = eager_config"
  "cb_state (race_state st op pr cl fa w) = st"
  "cb_opened_at_millis (race_state st op pr cl fa w) = op"
  "cb_half_open_probes (race_state st op pr cl fa w) = pr"
  "cb_probe_claimed_at_millis (race_state st op pr cl fa w) = cl"
  "cb_is_open_fast (race_state st op pr cl fa w) = fa"
  "cb_window (race_state st op pr cl fa w) = w"
  "elapsed_millis (race_state st op pr cl fa w) t = t div 1000000 mod 2 ^ 64"
  "(race_state st op pr cl fa w)\<lparr>cb_state := st'\<rparr> = race_state st' op pr cl fa w"
  "(race_state st op pr cl fa w)\<lparr>cb_opened_at_millis := n\<rparr> = race_state st n pr cl fa w"
  "(race_state st op pr cl fa w)\<lparr>cb_half_open_probes := n\<rparr> = race_state st op n cl fa w"
  "(race_state st op pr cl fa w)\<lparr>cb_probe_claimed_at_millis := n\<rparr> = race_state st op pr n fa w"
  "(race_state st op pr cl fa w)\<lparr>cb_is_open_fast := g\<rparr> = race_state st op pr cl g w"
  "(race_state st op pr cl fa w)\<lparr>cb_window := w'\<rparr> = race_state st op pr cl fa w'"
  by (simp_all add: race_state_def elapsed_millis_def)

lemma start_race_state:
  "threads_start eager_config 3 =
     \<lparr>th_breaker = race_state BClosed 0 0 0 False window_new, th_clock = 0, th_pcs = [Idle, Idle, Idle]\<rparr>"
  by (simp add: threads_start_def breaker_new_def race_state_def numeral_3_eq_3)

lemmas race_simps = eager_failed_window eager_should_trip cas_state_def from_secs_def from_millis_def
  lease_millis_def usize_modulus_def

lemma trip_schedule_run:
  "run_schedule trip_schedule (threads_start eager_config 3)
   = \<lparr>th_breaker = race_state BOpen 0 0 0 True failed_window, th_clock = 7, th_pcs = [Idle, Idle, Idle]\<rparr>"
  unfolding start_race_state by (simp add: trip_schedule_def race_simps)

definition probe_schedule :: "action list" where
  "probe_schedule = [At 10000000000, Check 0, Go 0, Go 0, Go 0, Go 0, Go 0, Go 0, Go 0, Go 0]"

lemma probe_schedule_run:
  "run_schedule (trip_schedule @ probe_schedule) (threads_start eager_config 3)
   = \<lparr>th_breaker = race_state BHalfOpen 0 1 10000 False failed_window, th_clock = 10000000000,
      th_pcs = [AdmittedBySlot, Idle, Idle]\<rparr>"
  unfolding run_schedule_append trip_schedule_run by (simp add: probe_schedule_def race_simps)

text \<open>the probe counter can underflow. Thread 1 finds the only slot taken and has raised the counter;
  before it lowers it again, the failure of the probe of thread 0 trips the breaker and resets the
  counter to zero; lowering it then wraps around to the largest \<open>usize\<close>, and an idle open breaker
  is left with all its slots taken for as long as no other trip or close resets it.\<close>

theorem probe_counter_underflows:
  "\<exists>s. threads_reach eager_config 3 s \<and> cb_state (th_breaker s) = BOpen
     \<and> cb_half_open_probes (th_breaker s) = usize_modulus - 1 \<and> th_pcs s = [Idle, Idle, Idle]"
proof -
  let ?sched = "(trip_schedule @ probe_schedule)
    @ [Go 0, Check 1, Go 1, Go 1, Go 1, Rec 0 True, Go 0, Go 0, Go 0, Go 0, Go 0, Go 0, Go 0, Go 0,
       Go 1, Go 1, Go 1]"
  let ?s = "run_schedule ?sched (threads_start eager_config 3)"
  have "?s = \<lparr>th_breaker = race_state BOpen 10000 (usize_modulus - 1) 10000 True failed_window,
      th_clock = 10000000000, th_pcs = [Idle, Idle, Idle]\<rparr>"
    unfolding run_schedule_append [of "trip_schedule @ probe_schedule"] probe_schedule_run
    by (simp add: race_simps)
  with run_schedule_threads_reach [of eager_config 3 ?sched] show ?thesis by auto
qed

text \<open>one slot can admit two probes. Thread 0 has taken the slot but not yet stored the time of its
  claim; thread 1 finds the slot taken, reads the claim of the time before, takes it for abandoned and
  is admitted as well.\<close>

theorem one_slot_admits_two_probes:
  "\<exists>s. threads_reach eager_config 3 s \<and> bc_half_open_max_probes (cb_config (th_breaker s)) = 1
     \<and> th_pcs s = [AdmittedBySlot, AdmittedByReclaim, Idle]"
proof -
  let ?sched = "trip_schedule
    @ [At 10000000000, Check 0, Go 0, Go 0, Go 0, Go 0, Go 0, Go 0, Go 0, Check 1, Go 1, Go 1, Go 1,
       Go 1, Go 1, Go 1, Go 0]"
  let ?s = "run_schedule ?sched (threads_start eager_config 3)"
  have "?s = \<lparr>th_breaker = race_state BHalfOpen 0 1 10000 False failed_window,
      th_clock = 10000000000, th_pcs = [AdmittedBySlot, AdmittedByReclaim, Idle]\<rparr>"
    unfolding run_schedule_append [of trip_schedule] trip_schedule_run
    by (simp add: race_simps)
  with run_schedule_threads_reach [of eager_config 3 ?sched] show ?thesis by auto
qed

text \<open>the mirror can stay wrong. When the failure of one probe and the success of another report at
  the same time, every thread may be idle again with the breaker open and \<open>is_open\<close> answering no.\<close>

theorem mirror_can_stay_wrong:
  "\<exists>s. threads_reach eager_config 3 s \<and> cb_state (th_breaker s) = BOpen
     \<and> \<not> breaker_is_open (th_breaker s) \<and> th_pcs s = [Idle, Idle, Idle]"
proof -
  let ?sched = "(trip_schedule @ probe_schedule)
    @ [Go 0, Rec 0 True, Rec 1 False, Go 0, Go 0, Go 1, Go 1, Go 1, Go 1, Go 1,
       Go 0, Go 0, Go 0, Go 0, Go 0, Go 1, Go 1, Go 0]"
  let ?s = "run_schedule ?sched (threads_start eager_config 3)"
  have "?s = \<lparr>th_breaker = race_state BOpen 10000 0 10000 False (window_clear failed_window),
      th_clock = 10000000000, th_pcs = [Idle, Idle, Idle]\<rparr>"
    unfolding run_schedule_append [of "trip_schedule @ probe_schedule"] probe_schedule_run
    by (simp add: race_simps)
  with run_schedule_threads_reach [of eager_config 3 ?sched] show ?thesis
    by (auto simp: breaker_is_open_def)
qed

section \<open>Concurrent checks\<close>

text \<open>
  A run of checks only, with the program counters the threads arrive at, in the order of the steps.
\<close>

inductive checks_run :: "threads \<Rightarrow> pc list \<Rightarrow> threads \<Rightarrow> bool" for s where
  run_here: "checks_run s [] s"
| run_tick: "checks_run s tr s' \<Longrightarrow> th_clock s' \<le> t \<Longrightarrow> checks_run s tr (s'\<lparr>th_clock := t\<rparr>)"
| run_start: "checks_run s tr s' \<Longrightarrow> i < length (th_pcs s') \<Longrightarrow> th_pcs s' ! i = Idle \<Longrightarrow>
     checks_run s tr (s'\<lparr>th_pcs := (th_pcs s')[i := CheckLoad]\<rparr>)"
| run_advance: "checks_run s tr s' \<Longrightarrow> i < length (th_pcs s') \<Longrightarrow>
     thread_step (th_clock s') (th_pcs s' ! i) (th_breaker s') = (p, b) \<Longrightarrow>
     checks_run s (tr @ [p]) (s'\<lparr>th_breaker := b, th_pcs := (th_pcs s')[i := p]\<rparr>)"

text \<open>
  The program counters that matter: a slot has been taken, its time is stored and the caller admitted, a
  caller is admitted by taking over an old claim, any admission at all, and the ones a check goes through
  while the breaker is not closed.
\<close>

fun claiming :: "pc \<Rightarrow> bool" where
  "claiming (ProbeStoreClaim t) = True"
| "claiming _ = False"

fun lowering :: "pc \<Rightarrow> bool" where
  "lowering (ProbeSub t) = True"
| "lowering _ = False"

fun by_slot :: "pc \<Rightarrow> bool" where
  "by_slot AdmittedBySlot = True"
| "by_slot _ = False"

fun by_reclaim :: "pc \<Rightarrow> bool" where
  "by_reclaim AdmittedByReclaim = True"
| "by_reclaim _ = False"

definition admitted :: "pc \<Rightarrow> bool" where
  "admitted p \<longleftrightarrow> p = Passed \<or> by_slot p \<or> by_reclaim p"

fun recording :: "pc \<Rightarrow> bool" where
  "recording (RecClock f) = True"
| "recording (RecLoad f t) = True"
| "recording (RecSampleClosed f t) = True"
| "recording (RecSampleOpen f t) = True"
| "recording TripState = True"
| "recording TripReadClock = True"
| "recording (TripStamp t) = True"
| "recording TripProbes = True"
| "recording TripFast = True"
| "recording CloseState = True"
| "recording CloseWindow = True"
| "recording CloseProbes = True"
| "recording CloseFast = True"
| "recording RecDone = True"
| "recording _ = False"

definition count_pcs :: "(pc \<Rightarrow> bool) \<Rightarrow> pc list \<Rightarrow> nat" where
  "count_pcs P pcs = length (filter P pcs)"

lemma count_pcs_snoc [simp]: "count_pcs P (pcs @ [p]) = count_pcs P pcs + (if P p then 1 else 0)"
  by (simp add: count_pcs_def)

lemma count_pcs_update:
  "i < length pcs \<Longrightarrow> count_pcs P (pcs[i := p]) + (if P (pcs ! i) then 1 else 0)
     = count_pcs P pcs + (if P p then 1 else 0)"
proof (induction pcs arbitrary: i)
  case (Cons q pcs)
  then show ?case by (cases i) (auto simp: count_pcs_def)
qed simp

lemma count_pcs_le: "count_pcs P pcs \<le> length pcs"
  by (simp add: count_pcs_def)

lemma list_all_update: "list_all P xs \<Longrightarrow> P x \<Longrightarrow> list_all P (xs[i := x])"
  by (auto simp: list_all_iff dest!: subsetD [OF set_update_subset_insert])

subsection \<open>Slots\<close>

definition slots_ok :: "pc list \<Rightarrow> threads \<Rightarrow> bool" where
  "slots_ok tr s \<longleftrightarrow> cb_state (th_breaker s) \<noteq> BClosed
     \<and> list_all (\<lambda>p. \<not> recording p \<and> p \<noteq> Passed) (th_pcs s) \<and> Passed \<notin> set tr
     \<and> cb_half_open_probes (th_breaker s) = count_pcs claiming tr + count_pcs lowering (th_pcs s)
     \<and> count_pcs claiming tr \<le> bc_half_open_max_probes (cb_config (th_breaker s))
     \<and> count_pcs by_slot tr + count_pcs claiming (th_pcs s) = count_pcs claiming tr
     \<and> bc_half_open_max_probes (cb_config (th_breaker s)) + length (th_pcs s) < usize_modulus"

lemma slots_ok_other:
  assumes "slots_ok tr s" "i < length (th_pcs s)" "th_pcs s ! i = q"
    and "cb_state b \<noteq> BClosed" "cb_half_open_probes b = cb_half_open_probes (th_breaker s)"
    and "cb_config b = cb_config (th_breaker s)" "\<not> recording p" "p \<noteq> Passed"
    and "\<not> claiming p" "\<not> lowering p" "\<not> lowering q" "by_slot p = claiming q"
  shows "slots_ok (tr @ [p]) (s\<lparr>th_breaker := b, th_pcs := (th_pcs s)[i := p]\<rparr>)"
  using assms count_pcs_update [OF assms(2), of lowering p] count_pcs_update [OF assms(2), of claiming p]
  by (auto simp: slots_ok_def intro: list_all_update)

lemma check_step_other:
  assumes "thread_step now q b = (p, b')" "\<not> recording q" "q \<noteq> Passed" "cb_state b \<noteq> BClosed"
  shows "(\<forall>t. q \<noteq> ProbeAdd t) \<longrightarrow> (\<forall>t. q \<noteq> ProbeSub t) \<longrightarrow>
    cb_state b' \<noteq> BClosed \<and> cb_half_open_probes b' = cb_half_open_probes b \<and> cb_config b' = cb_config b
    \<and> \<not> recording p \<and> p \<noteq> Passed \<and> \<not> claiming p \<and> \<not> lowering p \<and> \<not> lowering q
    \<and> by_slot p = claiming q"
proof (cases "cb_state b")
  case BOpen
  with assms show ?thesis by (cases q) (auto simp: Let_def cas_state_def split: if_splits)
next
  case BHalfOpen
  with assms show ?thesis by (cases q) (auto simp: Let_def cas_state_def split: if_splits)
qed (use assms in simp)

lemma slots_ok_add:
  assumes "slots_ok tr s" "i < length (th_pcs s)" "th_pcs s ! i = ProbeAdd t"
    and "thread_step now (ProbeAdd t) (th_breaker s) = (p, b)"
  shows "slots_ok (tr @ [p]) (s\<lparr>th_breaker := b, th_pcs := (th_pcs s)[i := p]\<rparr>)"
proof -
  let ?k = "count_pcs claiming tr" and ?l = "count_pcs lowering (th_pcs s)"
  let ?max = "bc_half_open_max_probes (cb_config (th_breaker s))"
  have n: "cb_half_open_probes (th_breaker s) = ?k + ?l" and small: "?max + length (th_pcs s) < usize_modulus"
    and k: "?k \<le> ?max"
    using assms(1) by (simp_all add: slots_ok_def)
  note upd = count_pcs_update [OF assms(2), of lowering p] count_pcs_update [OF assms(2), of claiming p]
  show ?thesis
  proof (cases "?k + ?l < ?max")
    case True
    then have "Suc (?k + ?l) mod usize_modulus = Suc (?k + ?l)"
      using small by (intro mod_less) simp
    with True assms n upd show ?thesis by (auto simp: slots_ok_def Let_def intro: list_all_update)
  next
    case False
    with assms(4) n have p: "p = ProbeSub t" by (auto simp: Let_def)
    have "count_pcs lowering ((th_pcs s)[i := p]) \<le> length (th_pcs s)"
      using count_pcs_le [of lowering "(th_pcs s)[i := p]"] by simp
    with upd(1) p assms(3) have "Suc ?l \<le> length (th_pcs s)" by simp
    then have "Suc (?k + ?l) mod usize_modulus = Suc (?k + ?l)"
      using small k by (intro mod_less) linarith
    with False assms n upd show ?thesis by (auto simp: slots_ok_def Let_def intro: list_all_update)
  qed
qed

lemma slots_ok_sub:
  assumes "slots_ok tr s" "i < length (th_pcs s)" "th_pcs s ! i = ProbeSub t"
    and "thread_step now (ProbeSub t) (th_breaker s) = (p, b)"
  shows "slots_ok (tr @ [p]) (s\<lparr>th_breaker := b, th_pcs := (th_pcs s)[i := p]\<rparr>)"
proof -
  let ?n = "count_pcs claiming tr + count_pcs lowering (th_pcs s)"
  have wrap: "(x + usize_modulus - Suc 0) mod usize_modulus = x - 1" if "0 < x" "x < usize_modulus" for x
    using that by (cases x) (simp_all add: usize_modulus_def)
  note upd = count_pcs_update [OF assms(2), of lowering p] count_pcs_update [OF assms(2), of claiming p]
  have p: "p = ProbeLoadClaim t" using assms(4) by simp
  with upd(1) assms(3) have "0 < ?n" by simp
  moreover have "?n < usize_modulus"
    using assms(1) count_pcs_le [of lowering "th_pcs s"] by (simp add: slots_ok_def)
  ultimately have "(?n + usize_modulus - Suc 0) mod usize_modulus = ?n - 1" by (rule wrap)
  with assms upd p show ?thesis by (auto simp: slots_ok_def intro: list_all_update)
qed

lemma slots_ok_advance:
  assumes "slots_ok tr s" "i < length (th_pcs s)"
    and "thread_step (th_clock s) (th_pcs s ! i) (th_breaker s) = (p, b)"
  shows "slots_ok (tr @ [p]) (s\<lparr>th_breaker := b, th_pcs := (th_pcs s)[i := p]\<rparr>)"
proof -
  have q: "\<not> recording (th_pcs s ! i)" "th_pcs s ! i \<noteq> Passed" and st: "cb_state (th_breaker s) \<noteq> BClosed"
    using assms(1,2) by (simp_all add: slots_ok_def list_all_length)
  consider (add) t where "th_pcs s ! i = ProbeAdd t" | (sub) t where "th_pcs s ! i = ProbeSub t"
    | (other) "\<forall>t. th_pcs s ! i \<noteq> ProbeAdd t" "\<forall>t. th_pcs s ! i \<noteq> ProbeSub t"
    by blast
  then show ?thesis
  proof cases
    case add
    show ?thesis by (rule slots_ok_add [OF assms(1,2) add assms(3) [unfolded add]])
  next
    case sub
    show ?thesis by (rule slots_ok_sub [OF assms(1,2) sub assms(3) [unfolded sub]])
  next
    case other
    note e = check_step_other [OF assms(3) q st, rule_format, OF other [rule_format]]
    show ?thesis
      by (rule slots_ok_other [OF assms(1,2) refl]) (use e in blast)+
  qed
qed

lemma checks_run_slots_ok: "checks_run s tr s' \<Longrightarrow> slots_ok [] s \<Longrightarrow> slots_ok tr s'"
proof (induction rule: checks_run.induct)
  case (run_start tr s' i)
  have "count_pcs lowering ((th_pcs s')[i := CheckLoad]) = count_pcs lowering (th_pcs s')"
    "count_pcs claiming ((th_pcs s')[i := CheckLoad]) = count_pcs claiming (th_pcs s')"
    using count_pcs_update [OF run_start(2), of lowering CheckLoad]
      count_pcs_update [OF run_start(2), of claiming CheckLoad] run_start(3) by simp_all
  with run_start show ?case by (auto simp: slots_ok_def list_all_update)
next
  case (run_advance tr s' i p b)
  then show ?case by (intro slots_ok_advance) auto
qed (simp_all add: slots_ok_def)

subsection \<open>Claims\<close>

text \<open>
  The stored time of the claim: taking a claim over moves it on by at least a lease, and only storing the
  time of a slot can move it back, by no more than the time that has passed on the clock of the breaker.
\<close>

definition clock_millis :: "threads \<Rightarrow> nat" where
  "clock_millis s = (th_clock s - cb_baseline (th_breaker s)) div 1000000"

lemma elapsed_le_clock: "elapsed_millis (th_breaker s) (th_clock s) \<le> clock_millis s"
  by (simp add: elapsed_millis_def clock_millis_def)

fun times_ok :: "nat \<Rightarrow> nat \<Rightarrow> pc \<Rightarrow> bool" where
  "times_ok lease now (ProbeAdd t) = (t \<le> now)"
| "times_ok lease now (ProbeStoreClaim t) = (t \<le> now)"
| "times_ok lease now (ProbeSub t) = (t \<le> now)"
| "times_ok lease now (ProbeLoadClaim t) = (t \<le> now)"
| "times_ok lease now (ProbeCasClaim t c) = (t \<le> now \<and> c + lease \<le> t)"
| "times_ok lease now _ = True"

lemma times_ok_mono: "times_ok lease now p \<Longrightarrow> now \<le> now' \<Longrightarrow> times_ok lease now' p"
  by (cases p) auto

definition claims_ok :: "pc list \<Rightarrow> threads \<Rightarrow> bool" where
  "claims_ok tr s \<longleftrightarrow>
     (let c = cb_probe_claimed_at_millis (th_breaker s); now = clock_millis s;
          lease = lease_millis (cb_config (th_breaker s)) in
      0 < lease \<and> list_all (times_ok lease now) (th_pcs s) \<and> c \<le> now
      \<and> count_pcs by_reclaim tr * lease \<le> count_pcs by_slot tr * now + c)"

lemma thread_step_config: "thread_step now q b = (p, b') \<Longrightarrow> cb_config b' = cb_config b"
  by (cases q) (auto simp: Let_def cas_state_def split: if_splits breaker_state.splits prod.splits)

lemma step_claims:
  assumes "thread_step now q b = (p, b')" "lease = lease_millis (cb_config b)" "0 < lease"
    and "times_ok lease m q" "elapsed_millis b now \<le> m" "cb_probe_claimed_at_millis b \<le> m"
  shows "cb_config b' = cb_config b \<and> cb_baseline b' = cb_baseline b
    \<and> times_ok lease m p \<and> cb_probe_claimed_at_millis b' \<le> m
    \<and> cb_probe_claimed_at_millis b + (if by_reclaim p then lease else 0)
       \<le> cb_probe_claimed_at_millis b' + (if by_slot p then m else 0)"
proof (cases "cb_state b")
  case BClosed
  with assms show ?thesis by (cases q) (auto simp: Let_def cas_state_def split: if_splits)
next
  case BOpen
  with assms show ?thesis by (cases q) (auto simp: Let_def cas_state_def split: if_splits)
next
  case BHalfOpen
  with assms show ?thesis by (cases q) (auto simp: Let_def cas_state_def split: if_splits)
qed

lemma claims_ok_advance:
  assumes "claims_ok tr s" "i < length (th_pcs s)"
    and "thread_step (th_clock s) (th_pcs s ! i) (th_breaker s) = (p, b)"
  shows "claims_ok (tr @ [p]) (s\<lparr>th_breaker := b, th_pcs := (th_pcs s)[i := p]\<rparr>)"
proof -
  let ?m = "clock_millis s" and ?l = "lease_millis (cb_config (th_breaker s))"
  let ?c = "cb_probe_claimed_at_millis (th_breaker s)" and ?c' = "cb_probe_claimed_at_millis b"
  have ok: "0 < ?l" "list_all (times_ok ?l ?m) (th_pcs s)" "?c \<le> ?m"
      "count_pcs by_reclaim tr * ?l \<le> count_pcs by_slot tr * ?m + ?c"
    using assms(1) by (simp_all add: claims_ok_def Let_def)
  have q: "times_ok ?l ?m (th_pcs s ! i)" using ok(2) assms(2) by (simp add: list_all_length)
  have e: "elapsed_millis (th_breaker s) (th_clock s) \<le> ?m" using elapsed_le_clock [of s] by simp
  from step_claims [OF assms(3) refl ok(1) q e ok(3)]
  have c: "cb_config b = cb_config (th_breaker s)" "cb_baseline b = cb_baseline (th_breaker s)"
      "times_ok ?l ?m p" "?c' \<le> ?m"
      "?c + (if by_reclaim p then ?l else 0) \<le> ?c' + (if by_slot p then ?m else 0)" by blast+
  have m: "clock_millis (s\<lparr>th_breaker := b, th_pcs := (th_pcs s)[i := p]\<rparr>) = clock_millis s"
    using c(2) by (simp add: clock_millis_def)
  have "count_pcs by_reclaim (tr @ [p]) * ?l = count_pcs by_reclaim tr * ?l + (if by_reclaim p then ?l else 0)"
    "count_pcs by_slot (tr @ [p]) * ?m = count_pcs by_slot tr * ?m + (if by_slot p then ?m else 0)"
    by (simp_all add: add_mult_distrib)
  with ok(4) c(5) have "count_pcs by_reclaim (tr @ [p]) * ?l \<le> count_pcs by_slot (tr @ [p]) * ?m + ?c'"
    by linarith
  with c ok(1,2) show ?thesis unfolding claims_ok_def Let_def m by (simp add: list_all_update)
qed

lemma checks_run_claims_ok: "checks_run s tr s' \<Longrightarrow> claims_ok [] s \<Longrightarrow> claims_ok tr s'"
proof (induction rule: checks_run.induct)
  case (run_tick tr s' t)
  then have ok: "claims_ok tr s'" by simp
  let ?s = "s'\<lparr>th_clock := t\<rparr>"
  have m: "clock_millis s' \<le> clock_millis ?s"
    using run_tick(2) by (simp add: clock_millis_def div_le_mono diff_le_mono)
  have "k \<le> count_pcs by_slot tr * clock_millis ?s + c" if "k \<le> count_pcs by_slot tr * clock_millis s' + c" for k c
    by (rule order_trans [OF that add_right_mono [OF mult_le_mono2 [OF m]]])
  moreover have "list_all (times_ok l (clock_millis ?s)) (th_pcs s')"
    if "list_all (times_ok l (clock_millis s')) (th_pcs s')" for l
    using that times_ok_mono [OF _ m] by (auto simp: list_all_iff)
  ultimately show ?case using ok m unfolding claims_ok_def Let_def by simp
next
  case (run_start tr s' i)
  then show ?case by (simp add: claims_ok_def Let_def list_all_update clock_millis_def)
next
  case (run_advance tr s' i p b)
  then show ?case by (intro claims_ok_advance) auto
qed simp

lemma checks_run_config: "checks_run s tr s' \<Longrightarrow> cb_config (th_breaker s') = cb_config (th_breaker s)"
proof (induction rule: checks_run.induct)
  case (run_advance tr s' i p b)
  then show ?case using thread_step_config [OF run_advance.hyps(3)] by simp
qed simp_all

lemma admitted_split:
  "Passed \<notin> set tr \<Longrightarrow> count_pcs admitted tr = count_pcs by_slot tr + count_pcs by_reclaim tr"
proof (induction tr)
  case (Cons p tr)
  then show ?case by (cases p) (auto simp: count_pcs_def admitted_def)
qed (simp add: count_pcs_def)

text \<open>C38: checks of any number of threads that the counter can count beside the slots, interleaved in any
  way and without outcomes recorded in between, on an open or half-open breaker with no slot taken, no call
  in progress and a last claim that is not in the future. Whoever moves the breaker from open to half open,
  the counter gives out at most as many slots as there are, and stands at the number of slots given out
  plus the number of callers that have been turned away and are about to lower it again. No caller passes
  as if the breaker were closed: every one that is admitted has a slot of its own or has taken over a
  claim, which the code allows once a claim is a lease old; such admissions come on top of the slots, and
  their number times the lease is at most the time on the breaker's clock, counted once for the start and
  once for every slot.\<close>

theorem concurrent_checks_respect_slots:
  assumes "checks_run s tr s'" "cb_state (th_breaker s) \<in> {BOpen, BHalfOpen}"
    and "cb_half_open_probes (th_breaker s) = 0" "\<forall>pc \<in> set (th_pcs s). pc = Idle"
    and "cb_probe_claimed_at_millis (th_breaker s) \<le> clock_millis s"
    and "bc_half_open_max_probes (cb_config (th_breaker s)) + length (th_pcs s) < usize_modulus"
  shows "count_pcs claiming tr \<le> bc_half_open_max_probes (cb_config (th_breaker s'))
    \<and> cb_half_open_probes (th_breaker s') = count_pcs claiming tr + count_pcs lowering (th_pcs s')
    \<and> Passed \<notin> set tr \<and> count_pcs by_slot tr \<le> count_pcs claiming tr
    \<and> count_pcs admitted tr = count_pcs by_slot tr + count_pcs by_reclaim tr
    \<and> count_pcs by_reclaim tr * lease_millis (cb_config (th_breaker s'))
       \<le> (bc_half_open_max_probes (cb_config (th_breaker s')) + 1) * clock_millis s'"
proof -
  have idle: "th_pcs s = replicate (length (th_pcs s)) Idle"
    using assms(4) by (intro replicate_eqI) auto
  have none: "count_pcs P (th_pcs s) = 0" if "\<not> P Idle" for P
    using that by (subst idle) (simp add: count_pcs_def)
  have all: "list_all P (th_pcs s)" if "P Idle" for P
    using that assms(4) by (auto simp: list_all_iff)
  have "slots_ok [] s"
    using assms(2,3,6) none [of lowering] none [of claiming] all [of "\<lambda>p. \<not> recording p \<and> p \<noteq> Passed"]
    by (auto simp: slots_ok_def count_pcs_def)
  from checks_run_slots_ok [OF assms(1) this] have s: "slots_ok tr s'" .
  let ?max = "bc_half_open_max_probes (cb_config (th_breaker s'))"
  let ?lease = "lease_millis (cb_config (th_breaker s'))"
  have slots: "count_pcs by_slot tr \<le> ?max" using s by (simp add: slots_ok_def)
  have "count_pcs by_reclaim tr * ?lease \<le> (?max + 1) * clock_millis s'"
  proof (cases "?lease = 0")
    case False
    then have "claims_ok [] s"
      using assms(5) checks_run_config [OF assms(1)]
        all [of "times_ok (lease_millis (cb_config (th_breaker s))) (clock_millis s)"]
      by (simp add: claims_ok_def Let_def count_pcs_def)
    from checks_run_claims_ok [OF assms(1) this]
    have "count_pcs by_reclaim tr * ?lease \<le> count_pcs by_slot tr * clock_millis s' + clock_millis s'"
      by (simp add: claims_ok_def Let_def)
    also have "\<dots> \<le> (?max + 1) * clock_millis s'"
      using mult_le_mono1 [OF slots, of "clock_millis s'"] by simp
    finally show ?thesis .
  qed simp
  then show ?thesis using s admitted_split [of tr] by (simp add: slots_ok_def)
qed

text \<open>The program counters a schedule of checks arrives at.\<close>

fun traced :: "action list \<Rightarrow> threads \<Rightarrow> pc list" where
  "traced [] s = []"
| "traced (Go i # as) s =
     (if i < length (th_pcs s)
      then fst (thread_step (th_clock s) (th_pcs s ! i) (th_breaker s)) # traced as (do_action (Go i) s)
      else traced as s)"
| "traced (a # as) s = traced as (do_action a s)"

fun no_record :: "action \<Rightarrow> bool" where
  "no_record (Rec i f) = False"
| "no_record _ = True"

lemma schedule_checks_run:
  "list_all no_record as \<Longrightarrow> checks_run s0 tr s \<Longrightarrow> checks_run s0 (tr @ traced as s) (run_schedule as s)"
proof (induction as arbitrary: s tr)
  case (Cons a as)
  show ?case
  proof (cases a)
    case (Go i)
    show ?thesis
    proof (cases "i < length (th_pcs s)")
      case True
      obtain p b where p: "thread_step (th_clock s) (th_pcs s ! i) (th_breaker s) = (p, b)" by fastforce
      from Cons.IH [OF _ run_advance [OF Cons.prems(2) True p]] Cons.prems(1) Go True p show ?thesis by simp
    qed (use Cons Go in simp)
  qed (use Cons in \<open>auto intro: run_tick run_start\<close>)
qed simp

text \<open>
  Ten seconds after the breaker opened thread 0 moves it to \<open>HalfOpen\<close>; thread 1 is faster to the slot,
  and thread 0 is turned away.
\<close>

definition overtaken_schedule :: "action list" where
  "overtaken_schedule = [Check 0, Go 0, Go 0, Go 0, Go 0, Check 1, Go 1, Go 1, Go 1, Go 1,
     Go 0, Go 0, Go 0, Go 0, Go 0]"

lemma concurrent_checks_respect_slots_witness:
  "count_pcs claiming (traced overtaken_schedule
       \<lparr>th_breaker = race_state BOpen 0 0 0 True failed_window, th_clock = 10000000000, th_pcs = [Idle, Idle]\<rparr>) \<le> 1
   \<and> cb_half_open_probes (th_breaker (run_schedule overtaken_schedule
       \<lparr>th_breaker = race_state BOpen 0 0 0 True failed_window, th_clock = 10000000000, th_pcs = [Idle, Idle]\<rparr>)) = 1"
proof -
  let ?s = "\<lparr>th_breaker = race_state BOpen 0 0 0 True failed_window, th_clock = 10000000000, th_pcs = [Idle, Idle]\<rparr>"
  let ?as = overtaken_schedule
  have r: "run_schedule ?as ?s = \<lparr>th_breaker = race_state BHalfOpen 0 1 10000 False failed_window,
      th_clock = 10000000000, th_pcs = [Shed (from_millis 50), AdmittedBySlot]\<rparr>"
    and t: "count_pcs claiming (traced ?as ?s) = 1"
    by (simp_all add: overtaken_schedule_def race_simps count_pcs_def)
  have "checks_run ?s ([] @ traced ?as ?s) (run_schedule ?as ?s)"
    by (rule schedule_checks_run [OF _ run_here]) (simp add: overtaken_schedule_def)
  from concurrent_checks_respect_slots [OF this] show ?thesis
    by (simp add: r t usize_modulus_def count_pcs_def)
qed

section \<open>Calls are wait-free\<close>

text \<open>
  A bound on the steps a thread has left in its call, whatever the other threads do to the breaker in
  between: no step goes back to one with as many steps left.
\<close>

fun steps_left :: "pc \<Rightarrow> nat" where
  "steps_left Idle = 0"
| "steps_left CheckLoad = 11"
| "steps_left OpenLoadStamp = 10"
| "steps_left (OpenReadClock t) = 9"
| "steps_left OpenCas = 8"
| "steps_left OpenStoreFast = 7"
| "steps_left OpenReload = 7"
| "steps_left OpenReloadStamp = 3"
| "steps_left (OpenReadClockAgain t) = 2"
| "steps_left ProbeReadClock = 6"
| "steps_left (ProbeAdd t) = 5"
| "steps_left (ProbeStoreClaim t) = 2"
| "steps_left (ProbeSub t) = 4"
| "steps_left (ProbeLoadClaim t) = 3"
| "steps_left (ProbeCasClaim t c) = 2"
| "steps_left (RecClock f) = 9"
| "steps_left (RecLoad f t) = 8"
| "steps_left (RecSampleClosed f t) = 7"
| "steps_left (RecSampleOpen f t) = 2"
| "steps_left TripState = 6"
| "steps_left TripReadClock = 5"
| "steps_left (TripStamp t) = 4"
| "steps_left TripProbes = 3"
| "steps_left TripFast = 2"
| "steps_left CloseState = 5"
| "steps_left CloseWindow = 4"
| "steps_left CloseProbes = 3"
| "steps_left CloseFast = 2"
| "steps_left _ = 1"

lemma steps_left_le: "steps_left p \<le> 11"
  by (cases p) simp_all

lemma steps_left_0 [simp]: "steps_left p = 0 \<longleftrightarrow> p = Idle"
  by (cases p) simp_all

lemma steps_left_decreases:
  assumes "thread_step now p b = (p', b')" "p \<noteq> Idle"
  shows "steps_left p' < steps_left p"
  using assms by (cases p)
    (auto simp: Let_def cas_state_def split: breaker_state.splits if_splits prod.splits)

lemma steps_left_step: "thread_step now p b = (p', b') \<Longrightarrow> steps_left p' \<le> steps_left p - 1"
  using steps_left_decreases [of now p b p' b'] by (cases "p = Idle") auto

text \<open>An action of the schedule moves a thread on by its own steps only.\<close>

lemma length_do_action [simp]: "length (th_pcs (do_action a s)) = length (th_pcs s)"
  by (cases a) (auto split: prod.splits)

lemma steps_left_do_action:
  assumes "i < length (th_pcs s)" "a \<noteq> Check i" "\<forall>f. a \<noteq> Rec i f"
  shows "steps_left (th_pcs (do_action a s) ! i) \<le> steps_left (th_pcs s ! i) - (if a = Go i then 1 else 0)"
  using assms steps_left_step by (cases a) (auto simp: nth_list_update split: prod.splits)

lemma steps_left_run_schedule:
  "i < length (th_pcs s) \<Longrightarrow> Check i \<notin> set as \<Longrightarrow> \<forall>f. Rec i f \<notin> set as
    \<Longrightarrow> steps_left (th_pcs (run_schedule as s) ! i) \<le> steps_left (th_pcs s ! i) - count_list as (Go i)"
proof (induction as arbitrary: s)
  case (Cons a as)
  have "steps_left (th_pcs (run_schedule as (do_action a s)) ! i)
      \<le> steps_left (th_pcs (do_action a s) ! i) - count_list as (Go i)"
    by (rule Cons.IH) (use Cons.prems in auto)
  moreover have "steps_left (th_pcs (do_action a s) ! i) \<le> steps_left (th_pcs s ! i) - (if a = Go i then 1 else 0)"
    by (rule steps_left_do_action) (use Cons.prems in auto)
  ultimately show ?case by (auto split: if_splits)
qed simp

text \<open>calls are wait-free. Whatever the state of the breaker, the clock and the other threads, and
  however their steps and new calls interleave, a thread in the middle of a \<open>check\<close> or a
  \<open>record\<close> returns after at most 11 steps of its own.\<close>

theorem calls_are_wait_free:
  assumes "i < length (th_pcs s)" and "Check i \<notin> set as" and "\<forall>f. Rec i f \<notin> set as"
    and "11 \<le> count_list as (Go i)"
  shows "th_pcs (run_schedule as s) ! i = Idle"
proof -
  have "steps_left (th_pcs (run_schedule as s) ! i) = 0"
    using steps_left_run_schedule [OF assms(1-3)] steps_left_le [of "th_pcs s ! i"] assms(4) by linarith
  then show ?thesis by simp
qed

text \<open>So steps alone, without new calls, come to an end: every one lowers the sum of what is left.\<close>

lemma advancing_terminates:
  "wf {(s', s :: threads). \<exists>i p b. i < length (th_pcs s) \<and> th_pcs s ! i \<noteq> Idle
     \<and> thread_step (th_clock s) (th_pcs s ! i) (th_breaker s) = (p, b)
     \<and> s' = s\<lparr>th_breaker := b, th_pcs := (th_pcs s)[i := p]\<rparr>}" (is "wf ?R")
proof -
  define m where "m s = sum_list (map steps_left (th_pcs s))" for s :: threads
  have "m (s\<lparr>th_breaker := b, th_pcs := (th_pcs s)[i := p]\<rparr>) < m s"
    if i: "i < length (th_pcs s)" and "th_pcs s ! i \<noteq> Idle"
      "thread_step (th_clock s) (th_pcs s ! i) (th_breaker s) = (p, b)" for s i p b
  proof -
    have "steps_left p < steps_left (th_pcs s ! i)" using that steps_left_decreases by blast
    moreover have "steps_left (th_pcs s ! i) \<le> sum_list (map steps_left (th_pcs s))"
      using i by (intro member_le_sum_list) auto
    ultimately show ?thesis using i by (simp add: m_def map_update sum_list_update)
  qed
  then have "?R \<subseteq> measure m" by auto
  then show ?thesis by (rule wf_subset [OF wf_measure])
qed

lemma calls_are_wait_free_witness:
  "th_pcs (run_schedule (Go 1 # replicate 11 (Go 0) @ [At 9, Go 1])
     (run_schedule [Check 0, Rec 1 True] (threads_start eager_config 3))) ! 0 = Idle"
  by (rule calls_are_wait_free) (simp_all add: threads_start_def count_list_append numeral_eq_Suc)
end
