(* ===== verification/Apply_Patch.thy ===== *)
theory Apply_Patch
  imports Prelude
begin

text \<open>
  The apply-patch engine of the codex tools: \<open>seek_sequence.rs\<close> finds lines with decreasing
  strictness, \<open>parser.rs\<close> parses the patch text into hunks, \<open>apply.rs\<close> computes the
  replacements of a file and applies them. A file and a patch are lists of lines; the parse loops
  are recursive functions with their termination proofs.
\<close>

section \<open>Finding lines\<close>

definition normalise_char :: "nat \<Rightarrow> nat" where
  "normalise_char c =
    (if c \<in> {0x2010, 0x2011, 0x2012, 0x2013, 0x2014, 0x2015, 0x2212} then 45
     else if c \<in> {0x2018, 0x2019, 0x201A, 0x201B} then 39
     else if c \<in> {0x201C, 0x201D, 0x201E, 0x201F} then 34
     else if c \<in> {0xA0, 0x2002, 0x2003, 0x2004, 0x2005, 0x2006, 0x2007, 0x2008, 0x2009, 0x200A,
                  0x202F, 0x205F, 0x3000} then 32
     else c)"

definition normalise :: "rstr \<Rightarrow> rstr" where
  "normalise s = map normalise_char (trim s)"

text \<open>
  One pass: the first position from \<open>search_start\<close> on where every line agrees with the
  pattern after both have been simplified by \<open>f\<close>.
\<close>

definition lines_match :: "(rstr \<Rightarrow> rstr) \<Rightarrow> rstr list \<Rightarrow> rstr list \<Rightarrow> nat \<Rightarrow> bool" where
  "lines_match f lines pat i \<longleftrightarrow> map f (take (length pat) (drop i lines)) = map f pat"

definition seek_pass :: "(rstr \<Rightarrow> rstr) \<Rightarrow> rstr list \<Rightarrow> rstr list \<Rightarrow> nat \<Rightarrow> nat option" where
  "seek_pass f lines pat search_start =
     find (lines_match f lines pat) [search_start ..< Suc (length lines - length pat)]"

definition first_some :: "'a option \<Rightarrow> 'a option \<Rightarrow> 'a option" where
  "first_some x y = (case x of None \<Rightarrow> y | Some _ \<Rightarrow> x)"

definition seek_sequence :: "rstr list \<Rightarrow> rstr list \<Rightarrow> nat \<Rightarrow> bool \<Rightarrow> nat option" where
  "seek_sequence lines pat start eof =
    (if pat = [] then Some start
     else if length pat > length lines then None
     else
       let search_start = (if eof \<and> length lines \<ge> length pat then length lines - length pat else start) in
       first_some (seek_pass id lines pat search_start)
      (first_some (seek_pass trim_end lines pat search_start)
      (first_some (seek_pass trim lines pat search_start)
        (seek_pass normalise lines pat search_start))))"

section \<open>Parsing a patch\<close>

datatype parse_error =
    InvalidPatchError rstr
  | InvalidHunkError string "rstr list" nat

record update_file_chunk =
  ch_context :: "rstr option"
  ch_old_lines :: "rstr list"
  ch_new_lines :: "rstr list"
  ch_is_end_of_file :: bool

datatype hunk =
    AddFile rstr rstr
  | DeleteFile rstr
  | UpdateFile rstr "rstr option" "update_file_chunk list"

record parsed_patch =
  pp_hunks :: "hunk list"
  pp_patch :: rstr

text \<open>
  \<open>str::lines\<close>: a line ends at a line feed, with a carriage return before it; the last piece
  counts only when it is not empty.
\<close>

definition strip_cr :: "rstr \<Rightarrow> rstr" where
  "strip_cr l = (if l \<noteq> [] \<and> last l = 13 then butlast l else l)"

definition str_lines :: "rstr \<Rightarrow> rstr list" where
  "str_lines s =
    (let ps = str_split 10 s in
     map strip_cr (butlast ps) @ (if last ps = [] then [] else [last ps]))"

definition first_line_error :: parse_error where
  "first_line_error = InvalidPatchError
     (lit ''The first line of the patch must be '' @ [39] @ lit ''*** Begin Patch'' @ [39])"

definition last_line_error :: parse_error where
  "last_line_error = InvalidPatchError
     (lit ''The last line of the patch must be '' @ [39] @ lit ''*** End Patch'' @ [39])"

definition check_start_and_end_lines_strict :: "rstr option \<Rightarrow> rstr option \<Rightarrow> parse_error + unit" where
  "check_start_and_end_lines_strict first_line last_line =
    (case map_option trim first_line of
       None \<Rightarrow> Inl last_line_error
     | Some first \<Rightarrow>
         if first = lit ''*** Begin Patch'' \<and> map_option trim last_line = Some (lit ''*** End Patch'')
         then Inr ()
         else if first \<noteq> lit ''*** Begin Patch'' then Inl first_line_error
         else Inl last_line_error)"

definition check_patch_boundaries_strict :: "rstr list \<Rightarrow> parse_error + unit" where
  "check_patch_boundaries_strict lines =
    (case lines of
       [] \<Rightarrow> check_start_and_end_lines_strict None None
     | _ \<Rightarrow> check_start_and_end_lines_strict (Some (hd lines)) (Some (last lines)))"

text \<open>The heredoc openers: \<open><<EOF\<close>, bare or in single or double quotes.\<close>

definition heredoc_openers :: "rstr list" where
  "heredoc_openers = [lit ''<<EOF'', lit ''<<'' @ [39] @ lit ''EOF'' @ [39],
     lit ''<<'' @ [34] @ lit ''EOF'' @ [34]]"

definition check_patch_boundaries_lenient :: "rstr list \<Rightarrow> parse_error \<Rightarrow> parse_error + rstr list" where
  "check_patch_boundaries_lenient original_lines original_error =
    (if length original_lines \<ge> 2 \<and> hd original_lines \<in> set heredoc_openers
        \<and> ends_with (last original_lines) (lit ''EOF'') \<and> length original_lines \<ge> 4 then
       (let inner_lines = butlast (tl original_lines) in
        and_then (check_patch_boundaries_strict inner_lines) (\<lambda>_. Inr inner_lines))
     else Inl original_error)"

text \<open>The body of a chunk: its lines until the end marker or a line of another kind.\<close>

definition push_line :: "nat \<Rightarrow> rstr \<Rightarrow> update_file_chunk \<Rightarrow> update_file_chunk" where
  "push_line kind l c =
    (if kind = 43 then c\<lparr>ch_new_lines := ch_new_lines c @ [l]\<rparr>
     else if kind = 45 then c\<lparr>ch_old_lines := ch_old_lines c @ [l]\<rparr>
     else c\<lparr>ch_old_lines := ch_old_lines c @ [l], ch_new_lines := ch_new_lines c @ [l]\<rparr>)"

fun chunk_body ::
  "nat \<Rightarrow> rstr list \<Rightarrow> nat \<Rightarrow> update_file_chunk \<Rightarrow> parse_error + update_file_chunk \<times> nat" where
  "chunk_body line_number [] parsed c = Inr (c, parsed)"
| "chunk_body line_number (l # ls) parsed c =
     (if l = lit ''*** End of File'' then
        (if parsed = 0 then
           Inl (InvalidHunkError ''Update hunk does not contain any lines'' [] (line_number + 1))
         else Inr (c\<lparr>ch_is_end_of_file := True\<rparr>, parsed + 1))
      else case l of
        [] \<Rightarrow> chunk_body line_number ls (parsed + 1) (push_line 32 [] c)
      | k # rest \<Rightarrow>
          if k = 32 \<or> k = 43 \<or> k = 45 then
            chunk_body line_number ls (parsed + 1) (push_line k rest c)
          else if parsed = 0 then
            Inl (InvalidHunkError ''Unexpected line found in update hunk: {line_contents}'' [l] (line_number + 1))
          else Inr (c, parsed))"

definition chunk_context :: "rstr list \<Rightarrow> nat \<Rightarrow> bool \<Rightarrow> parse_error + rstr option \<times> nat" where
  "chunk_context lines line_number allow_missing_context =
    (if hd lines = lit ''@@'' then Inr (None, 1)
     else case strip_prefix (hd lines) (lit ''@@ '') of
       Some context \<Rightarrow> Inr (Some context, 1)
     | None \<Rightarrow>
         if \<not> allow_missing_context then
           Inl (InvalidHunkError ''Expected update hunk to start with a @@ context marker, got: {}''
             [hd lines] line_number)
         else Inr (None, 0))"

definition parse_update_file_chunk ::
  "rstr list \<Rightarrow> nat \<Rightarrow> bool \<Rightarrow> parse_error + update_file_chunk \<times> nat" where
  "parse_update_file_chunk lines line_number allow_missing_context =
    (if lines = [] then
       Inl (InvalidHunkError ''Update hunk does not contain any lines'' [] line_number)
     else
       and_then (chunk_context lines line_number allow_missing_context) (\<lambda>(change_context, start_index).
       if start_index \<ge> length lines then
         Inl (InvalidHunkError ''Update hunk does not contain any lines'' [] (line_number + 1))
       else
         and_then (chunk_body line_number (drop start_index lines) 0
             \<lparr>ch_context = change_context, ch_old_lines = [], ch_new_lines = [],
              ch_is_end_of_file = False\<rparr>) (\<lambda>(chunk, parsed_lines).
         Inr (chunk, parsed_lines + start_index))))"

lemma chunk_body_consumes:
  assumes "chunk_body ln ls parsed c = Inr (c', n)" "ls \<noteq> []"
  shows "n > 0 \<and> n \<ge> parsed \<and> n \<le> parsed + length ls"
  using assms
proof (induction ln ls parsed c arbitrary: c' n rule: chunk_body.induct)
  case (2 ln l ls parsed c)
  show ?case
  proof (cases "l = lit ''*** End of File'' \<or> (\<exists>k r. l = k # r \<and> k \<noteq> 32 \<and> k \<noteq> 43 \<and> k \<noteq> 45)")
    case True
    with "2.prems"(1) have "c' = c \<lparr>ch_is_end_of_file := True\<rparr> \<and> n = parsed + 1 \<or> n = parsed \<and> parsed > 0"
      by (elim disjE) (auto split: if_splits)
    then show ?thesis by auto
  next
    case False
    then obtain d where d: "chunk_body ln ls (parsed + 1) d = Inr (c', n)"
      and ih: "ls \<noteq> [] \<Longrightarrow> n > 0 \<and> n \<ge> parsed + 1 \<and> n \<le> parsed + 1 + length ls"
      using 2 by (cases l) (auto split: if_splits)
    show ?thesis
      using d ih by (cases "ls = []") auto
  qed
qed simp

lemma parse_chunk_consumes:
  assumes "parse_update_file_chunk lines ln allow = Inr (c, n)"
  shows "lines \<noteq> [] \<and> 1 \<le> n \<and> n \<le> length lines"
proof -
  from assms obtain ctx start c' p where
    ne: "lines \<noteq> []" and s: "start < length lines" and n: "n = p + start"
    and b: "chunk_body ln (drop start lines) 0 ctx = Inr (c', p)"
    unfolding parse_update_file_chunk_def
    by (auto simp: and_then_eq_Inr not_le split: if_splits prod.splits intro: that)
  from chunk_body_consumes [OF b] s have "p > 0" "p \<le> length lines - start" by auto
  with ne n s show ?thesis by auto
qed

text \<open>The chunks of an update hunk; \<open>n\<close> lines of the hunk have been parsed before.\<close>

function parse_chunks ::
  "nat \<Rightarrow> rstr list \<Rightarrow> nat \<Rightarrow> update_file_chunk list \<Rightarrow> parse_error + update_file_chunk list \<times> nat" where
  "parse_chunks line_number lines n chunks =
    (if lines = [] then Inr (chunks, n)
     else if trim (hd lines) = [] then parse_chunks line_number (tl lines) (n + 1) chunks
     else if starts_with (hd lines) (lit ''***'') then Inr (chunks, n)
     else case parse_update_file_chunk lines (line_number + n) (chunks = []) of
       Inl e \<Rightarrow> Inl e
     | Inr (chunk, chunk_lines) \<Rightarrow>
         parse_chunks line_number (drop chunk_lines lines) (n + chunk_lines) (chunks @ [chunk]))"
  by pat_completeness auto
termination
proof (relation "measure (\<lambda>(_, lines, _, _). length lines)", goal_cases)
  case 1
  then show ?case by simp
next
  case (2 line_number lines n chunks)
  then show ?case by (cases lines) auto
next
  case (3 line_number lines n chunks x y z)
  then show ?case using parse_chunk_consumes by fastforce
qed

declare parse_chunks.simps [simp del]

fun add_lines :: "rstr list \<Rightarrow> rstr \<times> nat" where
  "add_lines [] = ([], 0)"
| "add_lines (l # ls) =
     (case strip_prefix l [43] of
        Some line_to_add \<Rightarrow> (let (contents, n) = add_lines ls in (line_to_add @ [10] @ contents, n + 1))
      | None \<Rightarrow> ([], 0))"

definition parse_one_hunk :: "rstr list \<Rightarrow> nat \<Rightarrow> parse_error + hunk \<times> nat" where
  "parse_one_hunk lines line_number =
    (let first_line = trim (hd lines) in
     case strip_prefix first_line (lit ''*** Add File: '') of
       Some path \<Rightarrow> (let (contents, n) = add_lines (tl lines) in Inr (AddFile path contents, n + 1))
     | None \<Rightarrow>
     case strip_prefix first_line (lit ''*** Delete File: '') of
       Some path \<Rightarrow> Inr (DeleteFile path, 1)
     | None \<Rightarrow>
     case strip_prefix first_line (lit ''*** Update File: '') of
       Some path \<Rightarrow>
         (let move_path = (case tl lines of [] \<Rightarrow> None | l # _ \<Rightarrow> strip_prefix l (lit ''*** Move to: ''));
              skip = (if move_path = None then 1 else 2) in
          and_then (parse_chunks line_number (drop skip lines) skip []) (\<lambda>(chunks, n).
          if chunks = [] then
            Inl (InvalidHunkError ''Update file hunk for path '{path}' is empty'' [path] line_number)
          else Inr (UpdateFile path move_path chunks, n)))
     | None \<Rightarrow>
         Inl (InvalidHunkError ''{first_line} is not a valid hunk header'' [first_line] line_number))"

lemma parse_chunks_consumes:
  "parse_chunks ln lines n chunks = Inr (cs, m) \<Longrightarrow> n \<le> m \<and> m \<le> n + length lines"
proof (induction ln lines n chunks arbitrary: cs m rule: parse_chunks.induct)
  case (1 ln lines n chunks)
  consider (stop) "lines = [] \<or> starts_with (hd lines) (lit ''***'') \<and> trim (hd lines) \<noteq> []"
    | (blank) "lines \<noteq> []" "trim (hd lines) = []"
    | (chunk) "lines \<noteq> []" "trim (hd lines) \<noteq> []" "\<not> starts_with (hd lines) (lit ''***'')"
    by blast
  then show ?case
  proof cases
    case stop
    then have "m = n" using 1(3) by (subst (asm) parse_chunks.simps) (auto split: if_splits)
    then show ?thesis by simp
  next
    case blank
    have "parse_chunks ln (tl lines) (n + 1) chunks = Inr (cs, m)"
      using 1(3) blank by (subst (asm) parse_chunks.simps) simp
    from 1(1) [OF blank this] blank(1) show ?thesis by (cases lines) auto
  next
    case chunk
    then obtain c k where p: "parse_update_file_chunk lines (ln + n) (chunks = []) = Inr (c, k)"
      and r: "parse_chunks ln (drop k lines) (n + k) (chunks @ [c]) = Inr (cs, m)"
      using 1(3) by (subst (asm) parse_chunks.simps) (auto split: sum.splits)
    show ?thesis
      using 1(2) [OF chunk p refl r] parse_chunk_consumes [OF p] by auto
  qed
qed

lemma add_lines_consumes: "snd (add_lines ls) \<le> length ls"
  by (induction ls) (auto split: option.splits prod.splits)

lemma parse_one_hunk_consumes:
  assumes "parse_one_hunk lines ln = Inr (hk, n)" "lines \<noteq> []"
  shows "1 \<le> n \<and> n \<le> length lines"
proof -
  obtain l ls where lines: "lines = l # ls" using assms(2) by (cases lines) auto
  have "snd (add_lines ls) \<le> length ls" by (rule add_lines_consumes)
  with assms(1) show ?thesis
    unfolding lines
    by (auto simp: parse_one_hunk_def Let_def and_then_eq_Inr split: option.splits prod.splits if_splits list.splits
        dest!: parse_chunks_consumes)
qed

function parse_hunks :: "rstr list \<Rightarrow> nat \<Rightarrow> hunk list \<Rightarrow> parse_error + hunk list" where
  "parse_hunks lines line_number hunks =
    (if lines = [] then Inr hunks
     else case parse_one_hunk lines line_number of
       Inl e \<Rightarrow> Inl e
     | Inr (hk, n) \<Rightarrow> parse_hunks (drop n lines) (line_number + n) (hunks @ [hk]))"
  by pat_completeness auto
termination
  by (relation "measure (\<lambda>(lines, _, _). length lines)") (auto dest!: parse_one_hunk_consumes)

declare parse_hunks.simps [simp del]

datatype parse_mode = Strict | Lenient

definition parse_patch_text :: "rstr \<Rightarrow> parse_mode \<Rightarrow> parse_error + parsed_patch" where
  "parse_patch_text patch mode =
    (let lines = str_lines (trim patch) in
     and_then (case check_patch_boundaries_strict lines of
                 Inr _ \<Rightarrow> Inr lines
               | Inl e \<Rightarrow> (case mode of Strict \<Rightarrow> Inl e
                                    | Lenient \<Rightarrow> check_patch_boundaries_lenient lines e)) (\<lambda>lines.
     and_then (parse_hunks (butlast (tl lines)) 2 []) (\<lambda>hunks.
     Inr \<lparr>pp_hunks = hunks, pp_patch = str_join [10] lines\<rparr>)))"

definition parse_patch :: "rstr \<Rightarrow> parse_error + parsed_patch" where
  "parse_patch patch = parse_patch_text patch Lenient"

section \<open>Applying chunks\<close>

datatype apply_error = ComputeReplacements string "rstr list"

type_synonym replacement = "nat \<times> nat \<times> rstr list"

definition ends_with_empty :: "rstr list \<Rightarrow> bool" where
  "ends_with_empty ls \<longleftrightarrow> ls \<noteq> [] \<and> last ls = []"

text \<open>The match of the old lines, retried without a final empty line.\<close>

definition find_old_lines ::
  "rstr list \<Rightarrow> nat \<Rightarrow> update_file_chunk \<Rightarrow> (nat \<times> rstr list \<times> rstr list) option" where
  "find_old_lines original line_index c =
    (case seek_sequence original (ch_old_lines c) line_index (ch_is_end_of_file c) of
       Some i \<Rightarrow> Some (i, ch_old_lines c, ch_new_lines c)
     | None \<Rightarrow>
         if ends_with_empty (ch_old_lines c) then
           (let pat = butlast (ch_old_lines c);
                new = (if ends_with_empty (ch_new_lines c) then butlast (ch_new_lines c)
                       else ch_new_lines c) in
            map_option (\<lambda>i. (i, pat, new))
              (seek_sequence original pat line_index (ch_is_end_of_file c)))
         else None)"

definition chunk_start :: "rstr list \<Rightarrow> rstr \<Rightarrow> nat \<Rightarrow> update_file_chunk \<Rightarrow> apply_error + nat" where
  "chunk_start original path line_index c =
    (case ch_context c of
       None \<Rightarrow> Inr line_index
     | Some ctx \<Rightarrow>
         (case seek_sequence original [ctx] line_index False of
            Some i \<Rightarrow> Inr (i + 1)
          | None \<Rightarrow> Inl (ComputeReplacements ''Failed to find context '{}' in {}'' [ctx, path])))"

fun chunk_replacements ::
  "rstr list \<Rightarrow> rstr \<Rightarrow> nat \<Rightarrow> update_file_chunk list \<Rightarrow> apply_error + replacement list" where
  "chunk_replacements original path line_index [] = Inr []"
| "chunk_replacements original path line_index (c # cs) =
     and_then (chunk_start original path line_index c) (\<lambda>line_index.
     if ch_old_lines c = [] then
       (let insertion_idx = (if ends_with_empty original then length original - 1 else length original) in
        and_then (chunk_replacements original path line_index cs) (\<lambda>rs.
        Inr ((insertion_idx, 0, ch_new_lines c) # rs)))
     else
       case find_old_lines original line_index c of
         None \<Rightarrow> Inl (ComputeReplacements ''Failed to find expected lines in {}: {}''
           [path, str_join [10] (ch_old_lines c)])
       | Some (i, pat, new) \<Rightarrow>
           and_then (chunk_replacements original path (i + length pat) cs) (\<lambda>rs.
           Inr ((i, length pat, new) # rs)))"

definition compute_replacements ::
  "rstr list \<Rightarrow> rstr \<Rightarrow> update_file_chunk list \<Rightarrow> apply_error + replacement list" where
  "compute_replacements original path chunks =
     and_then (chunk_replacements original path 0 chunks) (\<lambda>rs. Inr (sort_key fst rs))"

text \<open>
  \<open>Vec::remove\<close> under its guard, and \<open>Vec::insert\<close>, which panics beyond the length: the
  value of a panic is \<open>None\<close>.
\<close>

fun remove_lines :: "nat \<Rightarrow> nat \<Rightarrow> rstr list \<Rightarrow> rstr list" where
  "remove_lines start 0 ls = ls"
| "remove_lines start (Suc n) ls =
     remove_lines start n (if start < length ls then take start ls @ drop (Suc start) ls else ls)"

fun insert_lines :: "nat \<Rightarrow> rstr list \<Rightarrow> rstr list \<Rightarrow> rstr list option" where
  "insert_lines i [] ls = Some ls"
| "insert_lines i (x # xs) ls =
     (if i \<le> length ls then insert_lines (Suc i) xs (take i ls @ x # drop i ls) else None)"

definition apply_replacement :: "replacement \<Rightarrow> rstr list \<Rightarrow> rstr list option" where
  "apply_replacement r ls =
    (case r of (start, old_len, new_segment) \<Rightarrow> insert_lines start new_segment (remove_lines start old_len ls))"

fun apply_in_order :: "replacement list \<Rightarrow> rstr list \<Rightarrow> rstr list option" where
  "apply_in_order [] ls = Some ls"
| "apply_in_order (r # rs) ls =
     (case apply_replacement r ls of None \<Rightarrow> None | Some ls' \<Rightarrow> apply_in_order rs ls')"

definition apply_replacements :: "rstr list \<Rightarrow> replacement list \<Rightarrow> rstr list option" where
  "apply_replacements ls rs = apply_in_order (rev rs) ls"

definition file_lines :: "rstr \<Rightarrow> rstr list" where
  "file_lines content =
    (let ls = str_split 10 content in if ends_with_empty ls then butlast ls else ls)"

text \<open>The new contents; \<open>Inr None\<close> is a panic while the replacements are applied.\<close>

definition derive_new_contents ::
  "rstr \<Rightarrow> rstr \<Rightarrow> update_file_chunk list \<Rightarrow> apply_error + rstr option" where
  "derive_new_contents original_content path chunks =
    (let original = file_lines original_content in
     and_then (compute_replacements original path chunks) (\<lambda>rs.
     Inr (map_option (\<lambda>new_lines.
            str_join [10] (if ends_with_empty new_lines then new_lines else new_lines @ [[]]))
          (apply_replacements original rs))))"

section \<open>Where lines are found\<close>

text \<open>
  Every pass simplifies more than the one before it: lines that agree after the finer
  simplification agree after the coarser one.
\<close>

locale coarser_match =
  fixes f g :: "rstr \<Rightarrow> rstr"
  assumes coarser: "f x = f y \<Longrightarrow> g x = g y"
begin

lemma map_coarser: "map f xs = map f ys \<Longrightarrow> map g xs = map g ys"
  using coarser unfolding list_eq_iff_nth_eq by auto

lemma lines_match_coarser: "lines_match f ls pat i \<Longrightarrow> lines_match g ls pat i"
  unfolding lines_match_def by (rule map_coarser)

end

lemma trim_via_trim_end: "trim_start (trim_end s) = trim s"
proof (cases "\<forall>c \<in> set s. is_whitespace c")
  case True
  then have e: "dropWhile is_whitespace s = []" "dropWhile is_whitespace (rev s) = []"
    by (simp_all add: dropWhile_eq_Nil_conv)
  show ?thesis unfolding trim_def trim_start_def trim_end_def e by simp
next
  case False
  then obtain a c b where s: "s = a @ c # b" and a: "\<forall>x \<in> set a. is_whitespace x" and c: "\<not> is_whitespace c"
    using split_list_first_prop [of s "\<lambda>c. \<not> is_whitespace c"] by blast
  have r: "rev (dropWhile is_whitespace (rev (c # b))) = c # rev (dropWhile is_whitespace (rev b))"
    using c by (simp add: dropWhile_append)
  have "trim_end s = a @ rev (dropWhile is_whitespace (rev (c # b)))"
    using c by (simp add: trim_end_def s dropWhile_append)
  with r have "trim_start (trim_end s) = c # rev (dropWhile is_whitespace (rev b))"
    using a c by (simp add: trim_start_def dropWhile_append)
  moreover have "trim s = rev (dropWhile is_whitespace (rev (c # b)))"
    using a c by (simp add: trim_def trim_start_def trim_end_def s dropWhile_append)
  ultimately show ?thesis using r by simp
qed

interpretation exact_rstrip: coarser_match id trim_end
  by unfold_locales simp

interpretation rstrip_trim: coarser_match trim_end trim
  by unfold_locales (metis trim_via_trim_end)

interpretation trim_normalise: coarser_match trim normalise
  by unfold_locales (simp add: normalise_def)

lemma find_upt_eq_Some:
  "find P [s ..< n] = Some i \<longleftrightarrow> s \<le> i \<and> i < n \<and> P i \<and> (\<forall>j. s \<le> j \<longrightarrow> j < i \<longrightarrow> \<not> P j)"
proof -
  have "find P [s ..< n] = Some i \<longleftrightarrow>
      (\<exists>k < n - s. P (s + k) \<and> i = s + k \<and> (\<forall>j < k. \<not> P (s + j)))"
    by (auto simp: find_Some_iff)
  also have "\<dots> \<longleftrightarrow> s \<le> i \<and> i < n \<and> P i \<and> (\<forall>j. s \<le> j \<longrightarrow> j < i \<longrightarrow> \<not> P j)" (is "?l \<longleftrightarrow> ?r")
  proof
    assume ?l
    then obtain k where k: "k < n - s" "P (s + k)" "i = s + k" "\<forall>j < k. \<not> P (s + j)" by blast
    have "\<not> P j" if "s \<le> j" "j < i" for j
      using k(4) [rule_format, of "j - s"] that k(3) by simp
    with k show ?r by auto
  next
    assume ?r
    then show ?l by (intro exI [of _ "i - s"]) auto
  qed
  finally show ?thesis .
qed

lemma seek_pass_Some:
  "seek_pass f ls pat s = Some i \<Longrightarrow>
     s \<le> i \<and> i \<le> length ls - length pat \<and> lines_match f ls pat i
     \<and> (\<forall>j. s \<le> j \<longrightarrow> j < i \<longrightarrow> \<not> lines_match f ls pat j)"
  unfolding seek_pass_def find_upt_eq_Some by auto

lemma seek_pass_None:
  "seek_pass f ls pat s = None \<longleftrightarrow>
     (\<forall>i. s \<le> i \<longrightarrow> i \<le> length ls - length pat \<longrightarrow> \<not> lines_match f ls pat i)"
  by (auto simp: seek_pass_def find_None_iff less_Suc_eq_le)

lemma first_some_eq_Some:
  "first_some x y = Some i \<longleftrightarrow> x = Some i \<or> x = None \<and> y = Some i"
  by (cases x) (auto simp: first_some_def)

lemma first_some_None: "first_some x y = None \<longleftrightarrow> x = None \<and> y = None"
  by (cases x) (auto simp: first_some_def)

lemmas seek_simps = seek_sequence_def Let_def first_some_eq_Some first_some_None

definition search_start :: "rstr list \<Rightarrow> rstr list \<Rightarrow> nat \<Rightarrow> bool \<Rightarrow> nat" where
  "search_start ls pat start eof = (if eof then length ls - length pat else start)"

lemma seek_sequence_eq:
  "pat \<noteq> [] \<Longrightarrow> length pat \<le> length ls \<Longrightarrow>
   seek_sequence ls pat start eof =
     (let s = search_start ls pat start eof in
      first_some (seek_pass id ls pat s) (first_some (seek_pass trim_end ls pat s)
        (first_some (seek_pass trim ls pat s) (seek_pass normalise ls pat s))))"
  by (simp add: seek_sequence_def search_start_def Let_def)

lemma seek_match:
  assumes "seek_sequence ls pat start eof = Some i" "pat \<noteq> []"
  shows "i + length pat \<le> length ls \<and> search_start ls pat start eof \<le> i \<and> lines_match normalise ls pat i"
proof -
  have len: "length pat \<le> length ls" using assms by (simp add: seek_sequence_def split: if_splits)
  let ?s = "search_start ls pat start eof"
  consider "seek_pass id ls pat ?s = Some i" | "seek_pass trim_end ls pat ?s = Some i"
    | "seek_pass trim ls pat ?s = Some i" | "seek_pass normalise ls pat ?s = Some i"
    using assms(1) unfolding seek_sequence_eq [OF assms(2) len] by (auto simp: Let_def first_some_eq_Some)
  then have "?s \<le> i \<and> i \<le> length ls - length pat \<and> lines_match normalise ls pat i"
    by cases (auto dest!: seek_pass_Some intro: trim_normalise.lines_match_coarser
        rstrip_trim.lines_match_coarser exact_rstrip.lines_match_coarser)
  with len show ?thesis by auto
qed

text \<open>a match that \<open>seek_sequence\<close> reports lies inside the file, at or after the start (at
  the very end when the end of the file is asked for), and its lines agree with the pattern up to
  white space at both ends and typographic punctuation.\<close>

theorem seek_sequence_sound:
  assumes "seek_sequence ls pat start eof = Some i" "pat \<noteq> []"
  shows "i + length pat \<le> length ls
    \<and> (if eof then i = length ls - length pat else start \<le> i)
    \<and> (\<forall>k < length pat. normalise (ls ! (i + k)) = normalise (pat ! k))"
proof -
  have m: "i + length pat \<le> length ls" "search_start ls pat start eof \<le> i" "lines_match normalise ls pat i"
    using seek_match [OF assms] by auto
  have "normalise (ls ! (i + k)) = normalise (pat ! k)" if "k < length pat" for k
  proof -
    from m(3) have "map normalise (take (length pat) (drop i ls)) ! k = map normalise pat ! k"
      by (simp add: lines_match_def)
    with that m(1) show ?thesis by simp
  qed
  with m(1,2) show ?thesis by (auto simp: search_start_def)
qed

lemma seek_sequence_sound_witness:
  "normalise ([[104, 0x2014], [32, 98]] ! 1) = normalise [98]"
  using seek_sequence_sound [of "[[104, 0x2014], [32, 98]]" "[[104, 45], [98]]" 0 False 0, THEN conjunct2,
      THEN conjunct2, rule_format, of 1]
  by (simp add: seek_sequence_def seek_pass_def first_some_def lines_match_def normalise_def
      normalise_char_def trim_def trim_start_def trim_end_def is_whitespace_def)

text \<open>\<open>seek_sequence\<close> is complete and prefers exact matches. It fails only when no
  position from the search start on agrees even after normalisation, and when some position matches
  exactly, the first exact one is the answer.\<close>

theorem seek_sequence_complete:
  assumes "pat \<noteq> []" "length pat \<le> length ls"
  shows "(seek_sequence ls pat start eof = None \<longleftrightarrow>
      (\<forall>i. search_start ls pat start eof \<le> i \<longrightarrow> i + length pat \<le> length ls \<longrightarrow>
         \<not> lines_match normalise ls pat i))
    \<and> (\<forall>i. search_start ls pat start eof \<le> i \<and> i + length pat \<le> length ls
         \<and> take (length pat) (drop i ls) = pat
         \<and> (\<forall>j. search_start ls pat start eof \<le> j \<longrightarrow> j < i \<longrightarrow> take (length pat) (drop j ls) \<noteq> pat)
       \<longrightarrow> seek_sequence ls pat start eof = Some i)"
proof (intro conjI allI impI)
  let ?s = "search_start ls pat start eof"
  have le: "i \<le> length ls - length pat \<longleftrightarrow> i + length pat \<le> length ls" for i using assms(2) by auto
  have "seek_sequence ls pat start eof = None \<longleftrightarrow> seek_pass normalise ls pat ?s = None"
    unfolding seek_sequence_eq [OF assms]
    by (auto simp: Let_def first_some_None seek_pass_None dest: trim_normalise.lines_match_coarser
        rstrip_trim.lines_match_coarser exact_rstrip.lines_match_coarser)
  then show "seek_sequence ls pat start eof = None \<longleftrightarrow>
      (\<forall>i. ?s \<le> i \<longrightarrow> i + length pat \<le> length ls \<longrightarrow> \<not> lines_match normalise ls pat i)"
    by (simp add: seek_pass_None le)
  fix i
  assume i: "?s \<le> i \<and> i + length pat \<le> length ls \<and> take (length pat) (drop i ls) = pat
    \<and> (\<forall>j. ?s \<le> j \<longrightarrow> j < i \<longrightarrow> take (length pat) (drop j ls) \<noteq> pat)"
  have "seek_pass id ls pat ?s = Some i"
  proof (cases "seek_pass id ls pat ?s")
    case None
    from None [unfolded seek_pass_None, rule_format, of i] i le [of i] show ?thesis
      by (simp add: lines_match_def)
  next
    case (Some k)
    from seek_pass_Some [OF Some] i have "\<not> k < i" "\<not> i < k" by (auto simp: lines_match_def)
    with Some show ?thesis by simp
  qed
  then show "seek_sequence ls pat start eof = Some i"
    unfolding seek_sequence_eq [OF assms] by (simp add: Let_def first_some_def)
qed

lemma seek_sequence_complete_witness: "seek_sequence [[32, 97], [97]] [[97]] 0 False = Some 1"
  by (rule seek_sequence_complete [of "[[97]]" "[[32, 97], [97]]" 0 False, THEN conjunct2, rule_format])
    (auto simp: search_start_def less_Suc_eq)

text \<open>with the end of the file asked for, a pattern that stands earlier in the file is not found,
  even when the search may start there: there is no second search from \<open>start\<close>.\<close>

theorem seek_sequence_eof_has_no_fallback:
  "lines_match id [lit ''a'', lit ''b''] [lit ''a''] 0
   \<and> seek_sequence [lit ''a'', lit ''b''] [lit ''a''] 0 False = Some 0
   \<and> seek_sequence [lit ''a'', lit ''b''] [lit ''a''] 0 True = None"
  by (simp add: seek_sequence_def seek_pass_def first_some_def lines_match_def lit_def normalise_def
      normalise_char_def trim_def trim_start_def trim_end_def is_whitespace_def)

end
