(* ===== verification/Patch_Replacements.thy ===== *)
theory Patch_Replacements
  imports Apply_Patch
begin

text \<open>
  The replacements of \<open>apply.rs\<close>: what removing and inserting lines amounts to, why it never
  leaves the vector, and the splice that a list of disjoint replacements carries out.
\<close>

section \<open>Replacements\<close>

lemma remove_lines_eq: "remove_lines s n ls = take s ls @ drop (s + n) ls"
proof (induction n arbitrary: ls)
  case (Suc n)
  show ?case
  proof (cases "s < length ls")
    case True
    then have "take s (take s ls @ drop (Suc s) ls) = take s ls"
      "drop (s + n) (take s ls @ drop (Suc s) ls) = drop (s + Suc n) ls"
      by (simp_all add: min_def ac_simps)
    with True Suc show ?thesis by simp
  next
    case False
    then show ?thesis using Suc by simp
  qed
qed simp

lemma insert_lines_eq:
  "i \<le> length ls \<Longrightarrow> insert_lines i xs ls = Some (take i ls @ xs @ drop i ls)"
proof (induction xs arbitrary: i ls)
  case (Cons x xs)
  then show ?case using Cons.IH [of "Suc i" "take i ls @ x # drop i ls"] by (simp add: min_def)
qed simp

lemma apply_replacement_eq:
  assumes "s \<le> length ls"
  shows "apply_replacement (s, n, new) ls = Some (take s ls @ new @ drop (s + n) ls)"
proof -
  from assms have "s \<le> length (take s ls @ drop (s + n) ls)" by simp
  from insert_lines_eq [OF this] assms show ?thesis
    by (simp add: apply_replacement_def remove_lines_eq min_def)
qed

lemma apply_in_order_append:
  "apply_in_order (rs @ ss) ls = (case apply_in_order rs ls of None \<Rightarrow> None | Some ls' \<Rightarrow> apply_in_order ss ls')"
  by (induction rs arbitrary: ls) (auto split: option.splits)

lemma apply_replacements_Cons:
  "apply_replacements ls (r # rs) =
     (case apply_replacements ls rs of None \<Rightarrow> None | Some ls' \<Rightarrow> apply_replacement r ls')"
  by (simp add: apply_replacements_def apply_in_order_append split: option.splits)

lemma apply_replacements_prefix:
  assumes "sorted (map fst rs)" "\<forall>r \<in> set rs. fst r \<le> length ls" "\<forall>r \<in> set rs. s \<le> fst r" "s \<le> length ls"
  shows "\<exists>ls'. apply_replacements ls rs = Some ls' \<and> s \<le> length ls' \<and> take s ls' = take s ls"
  using assms
proof (induction rs arbitrary: s)
  case Nil
  then show ?case by (simp add: apply_replacements_def)
next
  case (Cons r rs)
  obtain k n new where r: "r = (k, n, new)" by (cases r)
  with Cons.prems Cons.IH [of k] obtain ls' where
    ls': "apply_replacements ls rs = Some ls'" "k \<le> length ls'" "take k ls' = take k ls"
    by auto
  from Cons.prems r have s: "s \<le> k" by simp
  have "take s (take k ls' @ new @ drop (k + n) ls') = take s ls"
    using ls'(2,3) s Cons.prems(4) by (auto simp: min_def)
  moreover have "s \<le> length (take k ls' @ new @ drop (k + n) ls')" using ls'(2) s by auto
  ultimately show ?case using ls' r by (simp add: apply_replacements_Cons apply_replacement_eq)
qed

text \<open>The reference: copy up to the next replacement, write it, and go on behind it.\<close>

fun splice_lines :: "rstr list \<Rightarrow> nat \<Rightarrow> replacement list \<Rightarrow> rstr list" where
  "splice_lines ls p [] = drop p ls"
| "splice_lines ls p ((s, n, new) # rs) = take (s - p) (drop p ls) @ new @ splice_lines ls (s + n) rs"

fun disjoint_from :: "nat \<Rightarrow> nat \<Rightarrow> replacement list \<Rightarrow> bool" where
  "disjoint_from len p [] \<longleftrightarrow> p \<le> len"
| "disjoint_from len p ((s, n, new) # rs) \<longleftrightarrow> p \<le> s \<and> disjoint_from len (s + n) rs"

lemma disjoint_from_le: "disjoint_from len p rs \<Longrightarrow> p \<le> len"
  by (induction len p rs rule: disjoint_from.induct) auto

lemma apply_replacements_splice:
  "disjoint_from (length ls) p rs \<Longrightarrow> apply_replacements ls rs = Some (take p ls @ splice_lines ls p rs)"
proof (induction "length ls" p rs rule: disjoint_from.induct)
  case (2 p s n new rs)
  then have ih: "apply_replacements ls rs = Some (take (s + n) ls @ splice_lines ls (s + n) rs)"
    and le: "s + n \<le> length ls" and p: "p \<le> s" by (auto dest: disjoint_from_le)
  have t: "take s ls = take p ls @ take (s - p) (drop p ls)"
    using p by (metis le_add_diff_inverse take_add)
  from le have "take s (take (s + n) ls @ splice_lines ls (s + n) rs) = take s ls"
    "drop (s + n) (take (s + n) ls @ splice_lines ls (s + n) rs) = splice_lines ls (s + n) rs"
    by (simp_all add: min_def)
  with ih le t show ?case by (simp add: apply_replacements_Cons apply_replacement_eq)
qed (simp add: apply_replacements_def)

section \<open>The replacements of the chunks\<close>

lemma seek_sequence_le:
  assumes "seek_sequence ls pat start eof = Some i" "start \<le> length ls"
  shows "i + length pat \<le> length ls \<and> (\<not> eof \<longrightarrow> start \<le> i)"
proof (cases "pat = []")
  case True
  with assms show ?thesis by (simp add: seek_sequence_def)
next
  case False
  from seek_match [OF assms(1) False] show ?thesis by (auto simp: search_start_def)
qed

lemma chunk_start_le:
  assumes "chunk_start ls path li c = Inr li'" "li \<le> length ls"
  shows "li \<le> li' \<and> li' \<le> length ls"
  using assms seek_sequence_le [OF _ assms(2), of _ False]
  by (fastforce simp: chunk_start_def split: option.splits)

text \<open>What the lines of a chunk may be once a final empty line has been dropped.\<close>

definition chunk_variant :: "update_file_chunk \<Rightarrow> rstr list \<Rightarrow> rstr list \<Rightarrow> bool" where
  "chunk_variant c pat new \<longleftrightarrow> pat = ch_old_lines c \<and> new = ch_new_lines c
     \<or> ch_old_lines c = pat @ [[]]
       \<and> new = (if ends_with_empty (ch_new_lines c) then butlast (ch_new_lines c) else ch_new_lines c)"

lemma find_old_lines_Some:
  assumes "find_old_lines ls li c = Some (i, pat, new)"
  shows "seek_sequence ls pat li (ch_is_end_of_file c) = Some i \<and> chunk_variant c pat new"
  using assms
  by (auto simp: find_old_lines_def chunk_variant_def ends_with_empty_def Let_def
      split: option.splits if_splits intro: append_butlast_last_id [symmetric]) (metis append_butlast_last_id)+

lemma chunk_replacements_bounds:
  "chunk_replacements ls path li cs = Inr rs \<Longrightarrow> li \<le> length ls \<Longrightarrow> \<forall>r \<in> set rs. fst r \<le> length ls"
proof (induction ls path li cs arbitrary: rs rule: chunk_replacements.induct)
  case (2 ls path li c cs)
  from 2(3) obtain li' where li': "chunk_start ls path li c = Inr li'"
    by (auto simp: and_then_eq_Inr)
  with 2(4) have le: "li' \<le> length ls" using chunk_start_le by blast
  show ?case
  proof (cases "ch_old_lines c = []")
    case True
    with 2(3) li' obtain rs' where "chunk_replacements ls path li' cs = Inr rs'"
      "rs = (if ends_with_empty ls then length ls - 1 else length ls, 0, ch_new_lines c) # rs'"
      by (auto simp: and_then_eq_Inr Let_def)
    with 2(1) [OF True refl, of li'] le show ?thesis by auto
  next
    case False
    with 2(3) li' obtain i pat new rs' where f: "find_old_lines ls li' c = Some (i, pat, new)"
      and r: "chunk_replacements ls path (i + length pat) cs = Inr rs'" "rs = (i, length pat, new) # rs'"
      by (auto simp: and_then_eq_Inr split: option.splits)
    from find_old_lines_Some [OF f] seek_sequence_le [OF _ le] have "i + length pat \<le> length ls" by blast
    with 2(2) [OF False f refl refl] r show ?thesis by auto
  qed
qed simp

text \<open>applying a patch to a file never panics: whatever the file and the chunks, either the chunks
  cannot be placed, and that is reported, or every \<open>remove\<close> and \<open>insert\<close> stays inside the
  vector of lines.\<close>

theorem derive_new_contents_never_panics:
  "derive_new_contents content path chunks \<noteq> Inr None"
proof
  assume "derive_new_contents content path chunks = Inr None"
  then obtain rs where rs: "chunk_replacements (file_lines content) path 0 chunks = Inr rs"
    and panic: "apply_replacements (file_lines content) (sort_key fst rs) = None"
    by (auto simp: derive_new_contents_def compute_replacements_def and_then_eq_Inr Let_def)
  from chunk_replacements_bounds [OF rs] have "\<forall>r \<in> set (sort_key fst rs). fst r \<le> length (file_lines content)"
    by simp
  then have "\<exists>ls'. apply_replacements (file_lines content) (sort_key fst rs) = Some ls' \<and> 0 \<le> length ls'
      \<and> take 0 ls' = take 0 (file_lines content)"
    by (intro apply_replacements_prefix) auto
  with panic show False by simp
qed

definition in_place :: "update_file_chunk \<Rightarrow> bool" where
  "in_place c \<longleftrightarrow> ch_old_lines c \<noteq> [] \<and> \<not> ch_is_end_of_file c"

text \<open>A replacement carries out a chunk: it stands on lines that agree with the old ones.\<close>

definition carries_out :: "rstr list \<Rightarrow> update_file_chunk \<Rightarrow> replacement \<Rightarrow> bool" where
  "carries_out ls c r \<longleftrightarrow> (case r of (s, n, new) \<Rightarrow>
     \<exists>pat. chunk_variant c pat new \<and> n = length pat \<and> lines_match normalise ls pat s)"

lemma lines_match_Nil [simp]: "lines_match f ls [] i"
  by (simp add: lines_match_def)

lemma chunk_replacements_in_place:
  "chunk_replacements ls path li cs = Inr rs \<Longrightarrow> li \<le> length ls \<Longrightarrow> list_all in_place cs \<Longrightarrow>
   disjoint_from (length ls) li rs \<and> list_all2 (carries_out ls) cs rs"
proof (induction ls path li cs arbitrary: rs rule: chunk_replacements.induct)
  case (2 ls path li c cs)
  from 2(3) obtain li' where li': "chunk_start ls path li c = Inr li'"
    by (auto simp: and_then_eq_Inr)
  with 2(4) have le: "li \<le> li'" "li' \<le> length ls" using chunk_start_le by blast+
  from 2(5) have "in_place c" and c3: "list_all in_place cs" by simp_all
  then have c: "ch_old_lines c \<noteq> []" "\<not> ch_is_end_of_file c" "list_all in_place cs"
    by (simp_all add: in_place_def)
  with 2(3) li' obtain i pat new rs' where f: "find_old_lines ls li' c = Some (i, pat, new)"
    and r: "chunk_replacements ls path (i + length pat) cs = Inr rs'" "rs = (i, length pat, new) # rs'"
    by (auto simp: and_then_eq_Inr split: option.splits)
  from find_old_lines_Some [OF f] c(2) have s: "seek_sequence ls pat li' False = Some i" "chunk_variant c pat new"
    by auto
  from seek_sequence_le [OF s(1) le(2)] have i: "i + length pat \<le> length ls" "li' \<le> i" by auto
  from s(1) seek_match have "lines_match normalise ls pat i" by (cases "pat = []") auto
  with s(2) have "carries_out ls c (i, length pat, new)" by (auto simp: carries_out_def)
  with 2(2) [OF c(1) f refl refl r(1) i(1) c(3)] r(2) le i show ?case by auto
qed simp

lemma disjoint_from_sorted: "disjoint_from len p rs \<Longrightarrow> sorted (map fst rs) \<and> (\<forall>r \<in> set rs. p \<le> fst r)"
  by (induction len p rs rule: disjoint_from.induct) force+


definition sample_chunk :: update_file_chunk where
  "sample_chunk = \<lparr>ch_context = None, ch_old_lines = [[98]], ch_new_lines = [[99], [100]],
     ch_is_end_of_file = False\<rparr>"

lemma sample_derive:
  "derive_new_contents [97, 10, 98, 10] [] [sample_chunk] = Inr (Some [97, 10, 99, 10, 100, 10])"
  by (simp add: derive_new_contents_def file_lines_def ends_with_empty_def compute_replacements_def
      sample_chunk_def chunk_start_def find_old_lines_def seek_sequence_def seek_pass_def
      lines_match_def first_some_def apply_replacements_def apply_replacement_def Let_def)


text \<open>a chunk tied to the end of the file may be placed on lines an earlier chunk has already
  replaced. Here the second chunk asks for the last two lines after the first chunk has taken the last
  one; both are accepted, the blocks overlap, and a line of the first chunk's replacement survives
  between the two.\<close>

theorem end_of_file_chunk_overlaps:
  "derive_new_contents [97, 10, 98, 10] []
     [\<lparr>ch_context = None, ch_old_lines = [[98]], ch_new_lines = [[99], [100]], ch_is_end_of_file = False\<rparr>,
      \<lparr>ch_context = None, ch_old_lines = [[97], [98]], ch_new_lines = [[101]], ch_is_end_of_file = True\<rparr>]
   = Inr (Some [101, 10, 100, 10])"
  by (simp add: derive_new_contents_def file_lines_def ends_with_empty_def compute_replacements_def
      chunk_start_def find_old_lines_def seek_sequence_def seek_pass_def
      lines_match_def first_some_def apply_replacements_def apply_replacement_def Let_def)

end
