(* ===== verification/Patch_Roundtrip.thy ===== *)
theory Patch_Roundtrip
  imports Patch_Replacements
begin

text \<open>
  A printer for the patch format of \<open>parser.rs\<close> and the proof that the parser inverts it,
  chunk by chunk, hunk by hunk and on the text of a patch; and the structure of what the parser
  accepts.
\<close>

section \<open>Printing and parsing\<close>

text \<open>A printer of the patch format, and the hunks it can print faithfully.\<close>

definition render_chunk :: "update_file_chunk \<Rightarrow> rstr list" where
  "render_chunk c = (case ch_context c of None \<Rightarrow> lit ''@@'' | Some ctx \<Rightarrow> lit ''@@ '' @ ctx)
     # map (\<lambda>l. 45 # l) (ch_old_lines c) @ map (\<lambda>l. 43 # l) (ch_new_lines c)
     @ (if ch_is_end_of_file c then [lit ''*** End of File''] else [])"

definition content_lines :: "rstr \<Rightarrow> rstr list" where
  "content_lines contents = butlast (str_split 10 contents)"

fun render_hunk :: "hunk \<Rightarrow> rstr list" where
  "render_hunk (AddFile path contents) =
     (lit ''*** Add File: '' @ path) # map (\<lambda>l. 43 # l) (content_lines contents)"
| "render_hunk (DeleteFile path) = [lit ''*** Delete File: '' @ path]"
| "render_hunk (UpdateFile path move_path chunks) =
     (lit ''*** Update File: '' @ path)
     # (case move_path of None \<Rightarrow> [] | Some p \<Rightarrow> [lit ''*** Move to: '' @ p])
     @ concat (map render_chunk chunks)"

definition wf_path :: "rstr \<Rightarrow> bool" where
  "wf_path path \<longleftrightarrow> path \<noteq> [] \<and> \<not> is_whitespace (last path)"

definition wf_chunk :: "update_file_chunk \<Rightarrow> bool" where
  "wf_chunk c \<longleftrightarrow> ch_old_lines c \<noteq> [] \<or> ch_new_lines c \<noteq> []"

fun wf_hunk :: "hunk \<Rightarrow> bool" where
  "wf_hunk (AddFile path contents) \<longleftrightarrow> wf_path path \<and> (contents = [] \<or> last contents = 10)"
| "wf_hunk (DeleteFile path) \<longleftrightarrow> wf_path path"
| "wf_hunk (UpdateFile path move_path chunks) \<longleftrightarrow> wf_path path \<and> chunks \<noteq> [] \<and> list_all wf_chunk chunks"

text \<open>A place where a body of lines ends: the end of the patch, or a line that starts a chunk or a
  hunk.\<close>

definition body_ends :: "rstr list \<Rightarrow> bool" where
  "body_ends rest \<longleftrightarrow> rest = [] \<or> (\<exists>k t. hd rest = k # t \<and> k \<noteq> 32 \<and> k \<noteq> 43 \<and> k \<noteq> 45
     \<and> hd rest \<noteq> lit ''*** End of File'')"

lemma chunk_body_ends:
  assumes "body_ends rest" "parsed > 0"
  shows "chunk_body ln rest parsed c = Inr (c, parsed)"
  using assms by (cases rest) (auto simp: body_ends_def)

lemma not_end_marker: "k # l = lit ''*** End of File'' \<Longrightarrow> k = 42"
  by (simp add: lit_def)

lemma chunk_body_old:
  "chunk_body ln (map (\<lambda>l. 45 # l) os @ rest) p c
   = chunk_body ln rest (p + length os) (c\<lparr>ch_old_lines := ch_old_lines c @ os\<rparr>)"
proof (induction os arbitrary: p c)
  case (Cons l os)
  have "45 # l \<noteq> lit ''*** End of File''" using not_end_marker by fastforce
  with Cons show ?case by (simp add: push_line_def)
qed simp

lemma chunk_body_new:
  "chunk_body ln (map (\<lambda>l. 43 # l) ns @ rest) p c
   = chunk_body ln rest (p + length ns) (c\<lparr>ch_new_lines := ch_new_lines c @ ns\<rparr>)"
proof (induction ns arbitrary: p c)
  case (Cons l ns)
  have "43 # l \<noteq> lit ''*** End of File''" using not_end_marker by fastforce
  with Cons show ?case by (simp add: push_line_def)
qed simp

lemma chunk_context_render:
  "chunk_context ((case ctx of None \<Rightarrow> lit ''@@'' | Some x \<Rightarrow> lit ''@@ '' @ x) # rest) ln allow = Inr (ctx, 1)"
proof (cases ctx)
  case (Some x)
  have "lit ''@@ '' @ x \<noteq> lit ''@@''" by (simp add: lit_def)
  with Some show ?thesis by (simp add: chunk_context_def)
qed (simp add: chunk_context_def)

lemma parse_render_chunk:
  assumes "wf_chunk c" "body_ends rest"
  shows "parse_update_file_chunk (render_chunk c @ rest) ln allow = Inr (c, length (render_chunk c))"
proof -
  let ?tail = "(if ch_is_end_of_file c then [lit ''*** End of File''] else []) @ rest"
  have pos: "0 < length (ch_old_lines c) + length (ch_new_lines c)"
    using assms(1) by (auto simp: wf_chunk_def)
  let ?c = "\<lparr>ch_context = ch_context c, ch_old_lines = ch_old_lines c, ch_new_lines = ch_new_lines c,
      ch_is_end_of_file = False\<rparr>"
  have "chunk_body ln ?tail (length (ch_old_lines c) + length (ch_new_lines c)) ?c =
      Inr (c, length (ch_old_lines c) + length (ch_new_lines c) + (if ch_is_end_of_file c then 1 else 0))"
    using pos chunk_body_ends [OF assms(2) pos] by (cases "ch_is_end_of_file c") auto
  moreover have "render_chunk c @ rest = (case ch_context c of None \<Rightarrow> lit ''@@'' | Some x \<Rightarrow> lit ''@@ '' @ x)
      # map (\<lambda>l. 45 # l) (ch_old_lines c) @ map (\<lambda>l. 43 # l) (ch_new_lines c) @ ?tail"
    by (simp add: render_chunk_def)
  ultimately show ?thesis
    using pos
    by (auto simp: parse_update_file_chunk_def chunk_context_render chunk_body_old chunk_body_new
        render_chunk_def)
qed

text \<open>Where the chunks of a hunk end: the end of the patch or the header of a hunk.\<close>

definition hunk_ends :: "rstr list \<Rightarrow> bool" where
  "hunk_ends rest \<longleftrightarrow> rest = [] \<or> (\<exists>t. hd rest = lit ''***'' @ t \<and> hd rest \<noteq> lit ''*** End of File'')"

lemma hunk_ends_body_ends: "hunk_ends rest \<Longrightarrow> body_ends rest"
  by (auto simp: hunk_ends_def body_ends_def lit_def)

lemma trim_nonempty: "c \<in> set s \<Longrightarrow> \<not> is_whitespace c \<Longrightarrow> trim s \<noteq> []"
  by (auto simp: trim_def trim_start_def trim_end_def dropWhile_eq_Nil_conv)
    (metis set_dropWhileD dropWhile_eq_Nil_conv set_rev takeWhile_dropWhile_id Un_iff set_append set_takeWhileD)

lemma parse_chunks_end:
  assumes "hunk_ends rest"
  shows "parse_chunks ln rest n acc = Inr (acc, n)"
proof (cases "rest = []")
  case False
  then obtain t where t: "hd rest = lit ''***'' @ t" using assms by (auto simp: hunk_ends_def)
  then have "42 \<in> set (hd rest)" by (simp add: lit_def)
  then have "trim (hd rest) \<noteq> []" by (rule trim_nonempty) (simp add: is_whitespace_def)
  with False t show ?thesis by (subst parse_chunks.simps) simp
qed (subst parse_chunks.simps, simp)

lemma body_ends_chunks:
  assumes "hunk_ends rest"
  shows "body_ends (concat (map render_chunk cs) @ rest)"
  using hunk_ends_body_ends [OF assms]
  by (cases cs) (auto simp: body_ends_def render_chunk_def lit_def split: option.splits)

lemma parse_render_chunks:
  assumes "list_all wf_chunk cs" "hunk_ends rest"
  shows "parse_chunks ln (concat (map render_chunk cs) @ rest) n acc
    = Inr (acc @ cs, n + length (concat (map render_chunk cs)))"
  using assms(1)
proof (induction cs arbitrary: n acc)
  case Nil
  then show ?case using parse_chunks_end [OF assms(2)] by simp
next
  case (Cons c cs)
  let ?rest = "concat (map render_chunk cs) @ rest"
  let ?lines = "render_chunk c @ ?rest"
  have h: "hd ?lines = (case ch_context c of None \<Rightarrow> lit ''@@'' | Some x \<Rightarrow> lit ''@@ '' @ x)"
    by (simp add: render_chunk_def)
  have ne: "?lines \<noteq> []" by (simp add: render_chunk_def)
  have "64 \<in> set (hd ?lines)" unfolding h by (auto simp: lit_def split: option.splits)
  then have t: "trim (hd ?lines) \<noteq> []" by (rule trim_nonempty) (simp add: is_whitespace_def)
  have s: "\<not> starts_with (hd ?lines) (lit ''***'')"
    unfolding h by (auto simp: lit_def starts_with_def split: option.splits)
  have p: "parse_update_file_chunk ?lines (ln + n) (acc = []) = Inr (c, length (render_chunk c))"
    using Cons.prems body_ends_chunks [OF assms(2)] by (intro parse_render_chunk) auto
  have "parse_chunks ln ?lines n acc = parse_chunks ln ?rest (n + length (render_chunk c)) (acc @ [c])"
    using ne t s p by (subst parse_chunks.simps) (auto simp: render_chunk_def)
  with Cons show ?case by simp
qed

lemma add_lines_render:
  assumes "hunk_ends rest"
  shows "add_lines (map (\<lambda>l. 43 # l) ls @ rest) = (concat (map (\<lambda>l. l @ [10]) ls), length ls)"
proof (induction ls)
  case Nil
  then show ?case using assms
    by (cases rest) (auto simp: hunk_ends_def strip_prefix_def starts_with_def lit_def)
next
  case (Cons l ls)
  then show ?case by (simp add: strip_prefix_def starts_with_def)
qed

lemma concat_content_lines:
  "concat (map (\<lambda>l. l @ [d]) (butlast (str_split d s))) @ last (str_split d s) = s"
proof (induction s)
  case (Cons c s)
  obtain p ps where ps: "str_split d s = p # ps" using str_split_nonempty by (cases "str_split d s") auto
  with Cons show ?case by (cases "c = d"; cases ps) auto
qed simp

lemma last_str_split: "s = [] \<or> last s = d \<Longrightarrow> last (str_split d s) = []"
proof (induction s)
  case (Cons c s)
  obtain p ps where ps: "str_split d s = p # ps" using str_split_nonempty by (cases "str_split d s") auto
  show ?case
  proof (cases "s = []")
    case True
    then show ?thesis using Cons.prems by auto
  next
    case False
    then have l: "last (p # ps) = []" using Cons ps by auto
    have "ps \<noteq> []"
    proof
      assume "ps = []"
      with l ps concat_content_lines [of d s] show False using False by simp
    qed
    with l ps show ?thesis by simp
  qed
qed simp

lemma trim_header:
  assumes "wf_path path" "hd m = 42" "m \<noteq> []"
  shows "trim (m @ path) = m @ path"
proof -
  from assms have "trim_start (m @ path) = m @ path"
    by (cases m) (auto simp: trim_start_def is_whitespace_def)
  moreover obtain p c where "path = p @ [c]" "\<not> is_whitespace c"
    using assms(1) by (cases path rule: rev_cases) (auto simp: wf_path_def)
  ultimately show ?thesis by (simp add: trim_def trim_end_def)
qed

lemma hunk_ends_render: "wf_hunk hk \<Longrightarrow> hunk_ends (render_hunk hk @ rest)"
  by (cases hk) (auto simp: hunk_ends_def lit_def)

lemma parse_render_hunk:
  assumes "wf_hunk hk" "hunk_ends rest"
  shows "parse_one_hunk (render_hunk hk @ rest) ln = Inr (hk, length (render_hunk hk))"
proof (cases hk)
  case (AddFile path contents)
  with assms(1) have w: "wf_path path" "contents = [] \<or> last contents = 10" by auto
  have "trim (lit ''*** Add File: '' @ path) = lit ''*** Add File: '' @ path"
    by (rule trim_header [OF w(1)]) (simp_all add: lit_def)
  moreover have "concat (map (\<lambda>l. l @ [10]) (content_lines contents)) = contents"
    using concat_content_lines [of 10 contents] last_str_split [OF w(2)] by (simp add: content_lines_def)
  ultimately show ?thesis
    using AddFile add_lines_render [OF assms(2)] by (simp add: parse_one_hunk_def)
next
  case (DeleteFile path)
  with assms(1) have w: "wf_path path" by auto
  have "trim (lit ''*** Delete File: '' @ path) = lit ''*** Delete File: '' @ path"
    by (rule trim_header [OF w]) (simp_all add: lit_def)
  moreover have "strip_prefix (lit ''*** Delete File: '' @ path) (lit ''*** Add File: '') = None"
    by (simp add: strip_prefix_def starts_with_def lit_def)
  ultimately show ?thesis using DeleteFile by (simp add: parse_one_hunk_def)
next
  case (UpdateFile path move_path chunks)
  with assms(1) have w: "wf_path path" "chunks \<noteq> []" "list_all wf_chunk chunks" by auto
  let ?h = "lit ''*** Update File: '' @ path"
  let ?body = "concat (map render_chunk chunks) @ rest"
  have t: "trim ?h = ?h" by (rule trim_header [OF w(1)]) (simp_all add: lit_def)
  have n: "strip_prefix ?h (lit ''*** Add File: '') = None" "strip_prefix ?h (lit ''*** Delete File: '') = None"
    by (simp_all add: strip_prefix_def starts_with_def lit_def)
  have m: "strip_prefix (hd ?body) (lit ''*** Move to: '') = None"
    using w(2) by (cases chunks)
      (auto simp: render_chunk_def strip_prefix_def starts_with_def lit_def split: option.splits)
  have b: "?body \<noteq> []" using w(2) by (cases chunks) (auto simp: render_chunk_def)
  show ?thesis
  proof (cases move_path)
    case None
    have mv: "(case ?body of [] \<Rightarrow> None | l # _ \<Rightarrow> strip_prefix l (lit ''*** Move to: '')) = None"
      using m b by (cases ?body) auto
    show ?thesis
      using UpdateFile None t n mv w(2) parse_render_chunks [OF w(3) assms(2)]
      by (simp add: parse_one_hunk_def)
  next
    case (Some p)
    show ?thesis
      using UpdateFile Some t n w(2) parse_render_chunks [OF w(3) assms(2)]
      by (simp add: parse_one_hunk_def numeral_2_eq_2)
  qed
qed

lemma hunk_ends_hunks: "list_all wf_hunk hs \<Longrightarrow> hunk_ends (concat (map render_hunk hs))"
  by (cases hs) (auto simp: hunk_ends_render, simp add: hunk_ends_def)

lemma parse_render_hunks:
  "list_all wf_hunk hs \<Longrightarrow> parse_hunks (concat (map render_hunk hs)) ln acc = Inr (acc @ hs)"
proof (induction hs arbitrary: ln acc)
  case Nil
  then show ?case by (subst parse_hunks.simps) simp
next
  case (Cons hk hs)
  have ne: "render_hunk hk \<noteq> []" by (cases hk) auto
  have "parse_one_hunk (render_hunk hk @ concat (map render_hunk hs)) ln = Inr (hk, length (render_hunk hk))"
    using Cons.prems by (intro parse_render_hunk hunk_ends_hunks) auto
  with ne Cons show ?case by (subst parse_hunks.simps) simp
qed

text \<open>A line that survives the split of the text into lines.\<close>

definition plain_line :: "rstr \<Rightarrow> bool" where
  "plain_line l \<longleftrightarrow> 10 \<notin> set l \<and> (l = [] \<or> last l \<noteq> 13)"

definition render_patch :: "hunk list \<Rightarrow> rstr list" where
  "render_patch hs = lit ''*** Begin Patch'' # concat (map render_hunk hs) @ [lit ''*** End Patch'']"

lemma str_lines_join:
  assumes "ls \<noteq> []" "list_all plain_line ls" "last ls \<noteq> []"
  shows "str_lines (str_join [10] ls) = ls"
proof -
  have "str_split 10 (str_join [10] ls) = ls"
    using assms by (intro str_split_join) (auto simp: list_all_iff plain_line_def)
  moreover have "map strip_cr (butlast ls) = butlast ls"
    using assms(2) by (intro map_idI) (auto simp: list_all_iff plain_line_def strip_cr_def dest: in_set_butlastD)
  ultimately show ?thesis using assms by (simp add: str_lines_def)
qed

lemma str_join_Cons: "ls \<noteq> [] \<Longrightarrow> str_join sep (l # ls) = l @ sep @ str_join sep ls"
  by (cases ls) auto

lemma str_join_snoc: "ls \<noteq> [] \<Longrightarrow> str_join sep (ls @ [l]) = str_join sep ls @ sep @ l"
proof (induction sep ls rule: str_join.induct)
  case (3 sep p q ps)
  then show ?case by (simp add: str_join_Cons)
qed auto

lemma trim_id: "s \<noteq> [] \<Longrightarrow> \<not> is_whitespace (hd s) \<Longrightarrow> \<not> is_whitespace (last s) \<Longrightarrow> trim s = s"
proof -
  assume s: "s \<noteq> []" "\<not> is_whitespace (hd s)" "\<not> is_whitespace (last s)"
  then have "trim_start s = s" by (cases s) (simp_all add: trim_start_def)
  moreover obtain p c where "s = p @ [c]" "\<not> is_whitespace c"
    using s(1,3) by (cases s rule: rev_cases) auto
  ultimately show ?thesis by (simp add: trim_def trim_end_def)
qed

lemma trim_markers:
  "trim (lit ''*** Begin Patch'') = lit ''*** Begin Patch''" "trim (lit ''*** End Patch'') = lit ''*** End Patch''"
  by (simp_all add: trim_id lit_def is_whitespace_def)

text \<open>C8: printing and parsing are inverse on the hunks the format can express: parsing the text of a
  patch printed from well-formed hunks gives these hunks again, with their paths, contents, contexts,
  old and new lines and end-of-file marks.\<close>

theorem parse_patch_render:
  assumes "list_all wf_hunk hs" "list_all plain_line (render_patch hs)"
  shows "parse_patch (str_join [10] (render_patch hs))
    = Inr \<lparr>pp_hunks = hs, pp_patch = str_join [10] (render_patch hs)\<rparr>"
proof -
  let ?ls = "render_patch hs" and ?body = "concat (map render_hunk hs)"
  have j: "str_join [10] ?ls = lit ''*** Begin Patch'' @ [10] @ str_join [10] (?body @ [lit ''*** End Patch''])"
    by (simp add: render_patch_def str_join_Cons)
  have e: "str_join [10] (xs @ [lit ''*** End Patch'']) \<noteq> []
      \<and> last (str_join [10] (xs @ [lit ''*** End Patch''])) = 104" for xs
    by (cases "xs = []") (simp_all add: str_join_snoc lit_def)
  have l: "last (str_join [10] ?ls) = 104"
    unfolding j using e [of ?body] by simp
  have "trim (str_join [10] ?ls) = str_join [10] ?ls"
    using l by (intro trim_id) (simp_all add: j lit_def is_whitespace_def)
  then have ls: "str_lines (trim (str_join [10] ?ls)) = ?ls"
    using str_lines_join [of ?ls] assms(2) by (simp add: render_patch_def)
  have "check_patch_boundaries_strict ?ls = Inr ()"
    by (simp add: render_patch_def check_patch_boundaries_strict_def check_start_and_end_lines_strict_def
        trim_markers)
  moreover have "butlast (tl ?ls) = ?body" by (simp add: render_patch_def)
  ultimately show ?thesis
    using parse_render_hunks [OF assms(1), of 2 "[]"] ls
    by (simp add: parse_patch_def parse_patch_text_def Let_def)
qed

lemma parse_patch_render_witness:
  "parse_patch (str_join [10] (render_patch [DeleteFile [97], UpdateFile [98] None [sample_chunk]]))
   = Inr \<lparr>pp_hunks = [DeleteFile [97], UpdateFile [98] None [sample_chunk]],
          pp_patch = str_join [10] (render_patch [DeleteFile [97], UpdateFile [98] None [sample_chunk]])\<rparr>"
  by (rule parse_patch_render)
    (simp_all add: wf_path_def wf_chunk_def is_whitespace_def sample_chunk_def render_patch_def
      render_chunk_def plain_line_def lit_def)

lemma chunk_body_nonempty:
  "chunk_body ln ls parsed c = Inr (c', n) \<Longrightarrow> ls \<noteq> [] \<Longrightarrow> (parsed > 0 \<longrightarrow> wf_chunk c) \<Longrightarrow> wf_chunk c'"
proof (induction ln ls parsed c arbitrary: c' n rule: chunk_body.induct)
  case (2 ln l ls parsed c)
  show ?case
  proof (cases "l = lit ''*** End of File'' \<or> (\<exists>k r. l = k # r \<and> k \<noteq> 32 \<and> k \<noteq> 43 \<and> k \<noteq> 45)")
    case True
    with "2.prems"(1) have "c' = c \<lparr>ch_is_end_of_file := True\<rparr> \<and> parsed > 0 \<or> c' = c \<and> parsed > 0"
      by (elim disjE) (auto split: if_splits)
    then show ?thesis using "2.prems"(3) by (auto simp: wf_chunk_def)
  next
    case False
    then obtain k r where d: "chunk_body ln ls (parsed + 1) (push_line k r c) = Inr (c', n)"
      and ih: "ls \<noteq> [] \<Longrightarrow> wf_chunk (push_line k r c) \<Longrightarrow> wf_chunk c'"
      using 2 by (cases l) (auto split: if_splits)
    have "wf_chunk (push_line k r c)" by (simp add: wf_chunk_def push_line_def)
    with d ih show ?thesis by (cases "ls = []") auto
  qed
qed simp

lemma parse_chunk_nonempty:
  assumes "parse_update_file_chunk lines ln allow = Inr (c, n)"
  shows "wf_chunk c"
proof -
  from assms obtain ctx start p where s: "start < length lines"
    and b: "chunk_body ln (drop start lines) 0 ctx = Inr (c, p)"
    unfolding parse_update_file_chunk_def
    by (auto simp: and_then_eq_Inr not_le split: if_splits prod.splits intro: that)
  from chunk_body_nonempty [OF b] s show ?thesis by simp
qed

lemma parse_chunks_nonempty:
  "parse_chunks ln lines n chunks = Inr (cs, m) \<Longrightarrow> list_all wf_chunk chunks \<Longrightarrow> list_all wf_chunk cs"
proof (induction ln lines n chunks arbitrary: cs m rule: parse_chunks.induct)
  case (1 ln lines n chunks)
  consider (stop) "lines = [] \<or> starts_with (hd lines) (lit ''***'') \<and> trim (hd lines) \<noteq> []"
    | (blank) "lines \<noteq> []" "trim (hd lines) = []"
    | (chunk) "lines \<noteq> []" "trim (hd lines) \<noteq> []" "\<not> starts_with (hd lines) (lit ''***'')"
    by blast
  then show ?case
  proof cases
    case stop
    then have "cs = chunks" using 1(3) by (subst (asm) parse_chunks.simps) (auto split: if_splits)
    then show ?thesis using 1(4) by simp
  next
    case blank
    have "parse_chunks ln (tl lines) (n + 1) chunks = Inr (cs, m)"
      using 1(3) blank by (subst (asm) parse_chunks.simps) simp
    from 1(1) [OF blank this 1(4)] show ?thesis .
  next
    case chunk
    then obtain c k where p: "parse_update_file_chunk lines (ln + n) (chunks = []) = Inr (c, k)"
      and r: "parse_chunks ln (drop k lines) (n + k) (chunks @ [c]) = Inr (cs, m)"
      using 1(3) by (subst (asm) parse_chunks.simps) (auto split: sum.splits)
    show ?thesis using 1(2) [OF chunk p refl r] 1(4) parse_chunk_nonempty [OF p] by simp
  qed
qed

definition hunk_structured :: "hunk \<Rightarrow> bool" where
  "hunk_structured hk \<longleftrightarrow> (\<forall>path mv cs. hk = UpdateFile path mv cs \<longrightarrow> cs \<noteq> [] \<and> list_all wf_chunk cs)"

lemma parse_one_hunk_structured: "parse_one_hunk lines ln = Inr (hk, n) \<Longrightarrow> hunk_structured hk"
  by (auto simp: parse_one_hunk_def hunk_structured_def Let_def and_then_eq_Inr
      split: option.splits prod.splits if_splits dest: parse_chunks_nonempty)

lemma parse_hunks_structured:
  "parse_hunks lines ln hs = Inr hs' \<Longrightarrow> list_all hunk_structured hs \<Longrightarrow> list_all hunk_structured hs'"
proof (induction lines ln hs arbitrary: hs' rule: parse_hunks.induct)
  case (1 lines ln hs)
  show ?case
  proof (cases "lines = []")
    case True
    then show ?thesis using 1(2,3) by (subst (asm) parse_hunks.simps) simp
  next
    case False
    then obtain hk n where p: "parse_one_hunk lines ln = Inr (hk, n)"
      and r: "parse_hunks (drop n lines) (ln + n) (hs @ [hk]) = Inr hs'"
      using 1(2) by (subst (asm) parse_hunks.simps) (auto split: sum.splits)
    show ?thesis using 1(1) [OF False p refl r] 1(3) parse_one_hunk_structured [OF p] by simp
  qed
qed

text \<open>what the parser accepts is well structured: every update hunk has at least one chunk, and every
  chunk has a line to look for or a line to write.\<close>

theorem parse_patch_structured:
  assumes "parse_patch text = Inr p" "UpdateFile path move_path chunks \<in> set (pp_hunks p)"
  shows "chunks \<noteq> [] \<and> (\<forall>c \<in> set chunks. ch_old_lines c \<noteq> [] \<or> ch_new_lines c \<noteq> [])"
proof -
  from assms(1) obtain ls where "parse_hunks ls 2 [] = Inr (pp_hunks p)"
    by (auto simp: parse_patch_def parse_patch_text_def and_then_eq_Inr Let_def)
  from parse_hunks_structured [OF this] assms(2) have "hunk_structured (UpdateFile path move_path chunks)"
    by (auto simp: list_all_iff)
  then show ?thesis by (auto simp: hunk_structured_def wf_chunk_def list_all_iff)
qed

lemma parse_patch_structured_witness: "ch_old_lines sample_chunk @ ch_new_lines sample_chunk \<noteq> []"
proof -
  have "parse_patch (str_join [10] (render_patch [UpdateFile [98] None [sample_chunk]]))
    = Inr \<lparr>pp_hunks = [UpdateFile [98] None [sample_chunk]],
          pp_patch = str_join [10] (render_patch [UpdateFile [98] None [sample_chunk]])\<rparr>"
    using parse_render_hunks [of "[UpdateFile [98] None [sample_chunk]]" 2 "[]"]
    by (simp add: parse_patch_def parse_patch_text_def wf_path_def wf_chunk_def is_whitespace_def
        sample_chunk_def render_patch_def render_chunk_def lit_def str_lines_def strip_cr_def trim_def
        trim_start_def trim_end_def check_patch_boundaries_strict_def
        check_start_and_end_lines_strict_def)
  from parse_patch_structured [OF this, of "[98]" None "[sample_chunk]"] show ?thesis by simp
qed

end
