(* ===== verification/Doom_Loop.thy ===== *)
theory Doom_Loop
  imports Sampling_Errors
begin

text \<open>
  \<open>doom_loop.rs\<close> of \<open>xai-grok-sampling-types\<close> and of \<open>xai-grok-sampler\<close>: the triggers
  of a generation loop that the server reports, the policy that decides which of them are worth a
  new sample, and the collector that carries them from the decoder of an attempt to its end.
\<close>

section \<open>Policy and signals\<close>

record doom_loop_policy =
  dp_max_threshold :: nat
  dp_max_retries :: nat

definition clamp :: "nat \<Rightarrow> nat \<Rightarrow> nat \<Rightarrow> nat" where
  "clamp lo hi n = (if n < lo then lo else if hi < n then hi else n)"

definition clamp_max_threshold :: "nat \<Rightarrow> nat" where
  "clamp_max_threshold n = clamp 2 64 n"

definition clamp_max_retries :: "nat \<Rightarrow> nat" where
  "clamp_max_retries n = clamp 0 5 n"

definition default_doom_policy :: doom_loop_policy where
  "default_doom_policy = \<lparr>dp_max_threshold = 8, dp_max_retries = 2\<rparr>"

datatype doom_kind = TailRepetition nat | LowLogprob | UnknownKind rstr

record doom_signal =
  dg_kind :: doom_kind
  dg_channel :: rstr
  dg_raw :: rstr

fun split_once :: "nat \<Rightarrow> rstr \<Rightarrow> (rstr \<times> rstr) option" where
  "split_once d [] = None"
| "split_once d (c # s) =
     (if c = d then Some ([], s) else map_option (\<lambda>(h, t). (c # h, t)) (split_once d s))"

definition at_sign :: nat where
  "at_sign = of_char (CHR ''@'')"

definition colon :: nat where
  "colon = of_char (CHR '':'')"

definition signal_kind :: "rstr \<Rightarrow> doom_kind" where
  "signal_kind head =
    (case split_once colon head of
       Some (name, threshold) \<Rightarrow>
         if name = lit ''tail_repetition'' then
           (case parse_unsigned (2 ^ 32) threshold of Some t \<Rightarrow> TailRepetition t | None \<Rightarrow> UnknownKind head)
         else UnknownKind head
     | None \<Rightarrow> if head = lit ''low_logprob'' then LowLogprob else UnknownKind head)"

definition signal_parse :: "rstr \<Rightarrow> doom_signal" where
  "signal_parse raw =
    (let (head, channel) = (case split_once at_sign raw of Some p \<Rightarrow> p | None \<Rightarrow> (raw, [])) in
     \<lparr>dg_kind = signal_kind head, dg_channel = channel, dg_raw = raw\<rparr>)"

definition is_confident :: "doom_loop_policy \<Rightarrow> doom_signal \<Rightarrow> bool" where
  "is_confident p s \<longleftrightarrow>
    dg_channel s = lit ''thinking'' \<and>
    (case dg_kind s of TailRepetition t \<Rightarrow> t \<le> dp_max_threshold p | _ \<Rightarrow> False)"

definition confident_triggers :: "doom_loop_policy \<Rightarrow> doom_signal list \<Rightarrow> rstr list" where
  "confident_triggers p signals = map dg_raw (filter (is_confident p) signals)"

text \<open>\<open>tightest\<close>: its loop over the labels, with the first label and the best one so far.\<close>

fun tightest_from :: "rstr option \<Rightarrow> (nat \<times> rstr) option \<Rightarrow> rstr list \<Rightarrow> rstr option" where
  "tightest_from first best [] = (case best of Some (_, raw) \<Rightarrow> Some raw | None \<Rightarrow> first)"
| "tightest_from first best (raw # raws) =
     tightest_from
       (case first of None \<Rightarrow> Some raw | Some f \<Rightarrow> Some f)
       (case dg_kind (signal_parse raw) of
          TailRepetition t \<Rightarrow>
            if (case best of None \<Rightarrow> True | Some (bt, _) \<Rightarrow> t < bt) then Some (t, raw) else best
        | _ \<Rightarrow> best)
       raws"

definition tightest :: "rstr list \<Rightarrow> rstr option" where
  "tightest raws = tightest_from None None raws"

section \<open>Frames of the stream\<close>

datatype doom_peek = CheckEvent "doom_signal list" | ResponseField "doom_signal list" | NoPeek

definition check_event_type :: rstr where
  "check_event_type = lit ''response.doom_loop_check''"

definition parse_triggers :: "json_value option \<Rightarrow> doom_signal list" where
  "parse_triggers triggers =
    (case Option.bind triggers json_as_array of
       None \<Rightarrow> []
     | Some vs \<Rightarrow> map signal_parse (List.map_filter json_as_str vs))"

definition check_triggers_of :: "json_value \<Rightarrow> json_value option" where
  "check_triggers_of v = Option.bind (json_get (lit ''doom_loop_check'') v) (json_get (lit ''triggers''))"

definition type_tag :: "json_value \<Rightarrow> rstr option" where
  "type_tag v = Option.bind (json_get (lit ''type'') v) json_as_str"

text \<open>\<open>json\<close> is \<open>serde_json::from_str\<close>.\<close>

definition peek_doom_loop :: "(rstr \<Rightarrow> json_value option) \<Rightarrow> rstr \<Rightarrow> doom_peek" where
  "peek_doom_loop json data =
    (if \<not> str_contains data (lit ''doom_loop_check'') then NoPeek
     else case json data of
       None \<Rightarrow> NoPeek
     | Some v \<Rightarrow>
         if type_tag v = Some check_event_type then CheckEvent (parse_triggers (check_triggers_of v))
         else case Option.bind (json_get (lit ''response'') v) check_triggers_of of
           Some triggers \<Rightarrow> ResponseField (parse_triggers (Some triggers))
         | None \<Rightarrow> NoPeek)"

definition is_check_event :: "(rstr \<Rightarrow> json_value option) \<Rightarrow> rstr \<Rightarrow> rstr \<Rightarrow> bool" where
  "is_check_event json event_name data \<longleftrightarrow>
    event_name = check_event_type \<or>
    str_contains data check_event_type \<and>
    (case json data of None \<Rightarrow> False | Some v \<Rightarrow> type_tag v = Some check_event_type)"

section \<open>The collector of an attempt\<close>

record collector =
  co_signals :: "doom_signal list"
  co_malformed_logged :: bool
  co_policy :: doom_loop_policy
  co_abort_disarmed :: bool

definition collector_new :: "doom_loop_policy \<Rightarrow> collector" where
  "collector_new p = \<lparr>co_signals = [], co_malformed_logged = False, co_policy = p, co_abort_disarmed = False\<rparr>"

definition disarm_abort :: "collector \<Rightarrow> collector" where
  "disarm_abort c = c\<lparr>co_abort_disarmed := True\<rparr>"

definition abort_triggers :: "collector \<Rightarrow> rstr list option" where
  "abort_triggers c =
    (if co_abort_disarmed c then None
     else let confident = confident_triggers (co_policy c) (co_signals c) in
       if confident = [] then None else Some confident)"

fun add_signals :: "doom_signal list \<Rightarrow> doom_signal list \<Rightarrow> doom_signal list" where
  "add_signals known [] = known"
| "add_signals known (s # ss) =
     add_signals (if dg_raw s \<in> dg_raw ` set known then known else known @ [s]) ss"

definition record_signals :: "collector \<Rightarrow> doom_signal list \<Rightarrow> collector" where
  "record_signals c ss = c\<lparr>co_signals := add_signals (co_signals c) ss\<rparr>"

definition log_malformed_once :: "collector \<Rightarrow> collector" where
  "log_malformed_once c = c\<lparr>co_malformed_logged := True\<rparr>"

definition absorb :: "(rstr \<Rightarrow> json_value option) \<Rightarrow> collector \<Rightarrow> rstr \<Rightarrow> rstr \<Rightarrow> bool \<times> collector" where
  "absorb json c event_name data =
    (let named = event_name = check_event_type;
         keep = (\<lambda>signals. if signals = [] then log_malformed_once c else record_signals c signals) in
     case peek_doom_loop json data of
       CheckEvent signals \<Rightarrow> (True, keep signals)
     | ResponseField signals \<Rightarrow> (named, keep signals)
     | NoPeek \<Rightarrow> (named, if named then log_malformed_once c else c))"

definition take_signals :: "collector \<Rightarrow> doom_signal list \<times> collector" where
  "take_signals c = (co_signals c, c\<lparr>co_signals := []\<rparr>)"

fun absorb_all :: "(rstr \<Rightarrow> json_value option) \<Rightarrow> collector \<Rightarrow> (rstr \<times> rstr) list \<Rightarrow> collector" where
  "absorb_all json c [] = c"
| "absorb_all json c ((name, data) # frames) = absorb_all json (snd (absorb json c name data)) frames"

section \<open>Labels\<close>

lemma split_once_append: "d \<notin> set h \<Longrightarrow> split_once d (h @ d # t) = Some (h, t)"
  by (induction h) auto

lemma split_once_none: "d \<notin> set s \<Longrightarrow> split_once d s = None"
  by (induction s) auto

lemma split_once_some: "split_once d s = Some (h, t) \<Longrightarrow> s = h @ d # t \<and> d \<notin> set h"
  by (induction s arbitrary: h t) (auto split: if_splits)

lemma signal_parse_raw [simp]: "dg_raw (signal_parse raw) = raw"
  by (simp add: signal_parse_def split: prod.splits)

lemma signal_parse_raw_fun [simp]: "dg_raw \<circ> signal_parse = id"
  by (rule ext) simp

definition loop_label :: "rstr \<Rightarrow> rstr \<Rightarrow> rstr" where
  "loop_label threshold channel = lit ''tail_repetition:'' @ threshold @ [at_sign] @ channel"

lemma loop_label_kind:
  assumes "colon \<notin> set threshold" "at_sign \<notin> set threshold" "parse_unsigned (2 ^ 32) threshold = Some t"
  shows "signal_parse (loop_label threshold channel)
           = \<lparr>dg_kind = TailRepetition t, dg_channel = channel, dg_raw = loop_label threshold channel\<rparr>"
proof -
  let ?name = "lit ''tail_repetition''"
  have label: "loop_label threshold channel = (?name @ colon # threshold) @ at_sign # channel"
    by (simp add: loop_label_def lit_def colon_def)
  have "at_sign \<notin> set (?name @ colon # threshold)" "colon \<notin> set ?name"
    using assms(2) by (simp_all add: lit_def at_sign_def colon_def)
  then have "split_once at_sign (loop_label threshold channel) = Some (?name @ colon # threshold, channel)"
    and "split_once colon (?name @ colon # threshold) = Some (?name, threshold)"
    unfolding label using split_once_append [of at_sign "?name @ colon # threshold" channel]
    by (simp_all add: split_once_append)
  with assms(3) show ?thesis by (simp add: signal_parse_def signal_kind_def)
qed

lemma signal_kind_repetition:
  assumes "signal_kind head = TailRepetition t"
  obtains threshold where "head = lit ''tail_repetition:'' @ threshold" "parse_unsigned (2 ^ 32) threshold = Some t"
proof -
  from assms obtain threshold where s: "split_once colon head = Some (lit ''tail_repetition'', threshold)"
    and t: "parse_unsigned (2 ^ 32) threshold = Some t"
    by (auto simp: signal_kind_def split: option.splits if_splits prod.splits)
  from split_once_some [OF s] have "head = lit ''tail_repetition:'' @ threshold"
    by (simp add: lit_def colon_def)
  with t that show ?thesis by blast
qed

text \<open>The confident labels: a repetition in the thinking channel, at or below the threshold.\<close>

lemma confident_label:
  assumes "is_confident p (signal_parse raw)"
  shows "\<exists>threshold t. raw = loop_label threshold (lit ''thinking'') \<and>
           parse_unsigned (2 ^ 32) threshold = Some t \<and> t \<le> dp_max_threshold p"
proof -
  from assms obtain head where h: "split_once at_sign raw = Some (head, lit ''thinking'')"
    and k: "case signal_kind head of TailRepetition t \<Rightarrow> t \<le> dp_max_threshold p | _ \<Rightarrow> False"
    by (auto simp: is_confident_def signal_parse_def split: option.splits prod.splits)
  then obtain t where t: "signal_kind head = TailRepetition t" "t \<le> dp_max_threshold p"
    by (auto split: doom_kind.splits)
  obtain threshold where "head = lit ''tail_repetition:'' @ threshold" "parse_unsigned (2 ^ 32) threshold = Some t"
    using signal_kind_repetition [OF t(1)] .
  with t(2) split_once_some [OF h] show ?thesis by (auto simp: loop_label_def)
qed

section \<open>The tightest label\<close>

fun threshold_of :: "rstr \<Rightarrow> nat option" where
  "threshold_of raw = (case dg_kind (signal_parse raw) of TailRepetition t \<Rightarrow> Some t | _ \<Rightarrow> None)"

declare threshold_of.simps [simp del]

definition best_ok :: "rstr list \<Rightarrow> (nat \<times> rstr) option \<Rightarrow> bool" where
  "best_ok seen best \<longleftrightarrow>
    (case best of
       None \<Rightarrow> \<forall>r \<in> set seen. threshold_of r = None
     | Some (t, raw) \<Rightarrow> raw \<in> set seen \<and> threshold_of raw = Some t \<and>
         (\<forall>r \<in> set seen. \<forall>u. threshold_of r = Some u \<longrightarrow> t \<le> u))"

definition better :: "(nat \<times> rstr) option \<Rightarrow> rstr \<Rightarrow> (nat \<times> rstr) option" where
  "better best raw =
    (case threshold_of raw of
       Some t \<Rightarrow> if (case best of None \<Rightarrow> True | Some (bt, _) \<Rightarrow> t < bt) then Some (t, raw) else best
     | None \<Rightarrow> best)"

lemma better_kind:
  "(case dg_kind (signal_parse raw) of
      TailRepetition t \<Rightarrow>
        if (case best of None \<Rightarrow> True | Some (bt, _) \<Rightarrow> t < bt) then Some (t, raw) else best
    | _ \<Rightarrow> best) = better best raw"
  by (simp add: better_def threshold_of.simps split: doom_kind.splits)

lemma best_ok_step: "best_ok seen best \<Longrightarrow> best_ok (seen @ [raw]) (better best raw)"
  by (cases best) (fastforce simp: best_ok_def better_def not_less split: option.splits)+

definition first_label :: "rstr list \<Rightarrow> rstr option" where
  "first_label raws = (case raws of [] \<Rightarrow> None | r # _ \<Rightarrow> Some r)"

lemma first_label_simps [simp]: "first_label [] = None" "first_label (r # raws) = Some r"
  by (simp_all add: first_label_def)

definition chosen :: "(nat \<times> rstr) option \<Rightarrow> rstr option \<Rightarrow> rstr option" where
  "chosen b d = (case b of Some (_, raw) \<Rightarrow> Some raw | None \<Rightarrow> d)"

lemma tightest_from_correct:
  assumes "best_ok seen best" and "first = first_label seen"
  shows "\<exists>b. best_ok (seen @ raws) b \<and>
    tightest_from first best raws
      = chosen b (first_label (seen @ raws))"
  using assms
proof (induction raws arbitrary: first best seen)
  case Nil
  then show ?case by (intro exI [of _ best]) (simp add: chosen_def split: option.splits)
next
  case (Cons raw raws)
  show ?case
    using Cons.IH [OF best_ok_step [OF Cons.prems(1), of raw],
        of "case first of None \<Rightarrow> Some raw | Some f \<Rightarrow> Some f"] Cons.prems(2)
    by (cases seen) (simp_all add: better_kind)
qed

lemma tightest_cases:
  obtains (first) "\<forall>r \<in> set raws. threshold_of r = None" "tightest raws = first_label raws"
  | (lowest) raw t where "tightest raws = Some raw" "raw \<in> set raws" "threshold_of raw = Some t"
      "\<forall>r \<in> set raws. \<forall>u. threshold_of r = Some u \<longrightarrow> t \<le> u"
proof -
  have "best_ok [] None" by (simp add: best_ok_def)
  from tightest_from_correct [OF this, of None raws]
  obtain b where b: "best_ok raws b"
    and e: "tightest raws = chosen b (first_label raws)"
    by (auto simp: tightest_def)
  show thesis
  proof (cases b)
    case None
    with b e show thesis by (intro first) (simp_all add: best_ok_def chosen_def)
  next
    case (Some x)
    with b e show thesis by (cases x) (auto simp: best_ok_def chosen_def intro: lowest)
  qed
qed

text \<open>
  When one of the labels is a repetition, the one reported for a loop is a repetition of the lowest
  threshold among them.
\<close>

theorem tightest_label_is_lowest:
  assumes "r \<in> set raws" "threshold_of r = Some u"
  shows "\<exists>raw t. tightest raws = Some raw \<and> raw \<in> set raws \<and> threshold_of raw = Some t \<and> t \<le> u"
  using assms by (cases raws rule: tightest_cases) auto

section \<open>What the collector keeps\<close>

definition reported :: "(rstr \<Rightarrow> json_value option) \<Rightarrow> rstr \<Rightarrow> rstr list" where
  "reported json data =
    (case peek_doom_loop json data of
       CheckEvent ss \<Rightarrow> map dg_raw ss | ResponseField ss \<Rightarrow> map dg_raw ss | NoPeek \<Rightarrow> [])"

definition all_reported :: "(rstr \<Rightarrow> json_value option) \<Rightarrow> (rstr \<times> rstr) list \<Rightarrow> rstr list" where
  "all_reported json frames = concat (map (\<lambda>(_, data). reported json data) frames)"

fun firsts :: "'a list \<Rightarrow> 'a list \<Rightarrow> 'a list" where
  "firsts known [] = known"
| "firsts known (x # xs) = firsts (if x \<in> set known then known else known @ [x]) xs"

lemma firsts_append: "firsts known (xs @ ys) = firsts (firsts known xs) ys"
  by (induction xs arbitrary: known) auto

lemma set_firsts [simp]: "set (firsts known xs) = set known \<union> set xs"
  by (induction xs arbitrary: known) auto

lemma distinct_firsts: "distinct known \<Longrightarrow> distinct (firsts known xs)"
  by (induction xs arbitrary: known) auto

lemma add_signals_parsed:
  "add_signals (map signal_parse known) (map signal_parse labels) = map signal_parse (firsts known labels)"
proof (induction labels arbitrary: known)
  case (Cons l labels)
  have "dg_raw (signal_parse l) \<in> dg_raw ` set (map signal_parse known) \<longleftrightarrow> l \<in> set known"
    by (force simp: image_iff)
  then show ?case using Cons [of known] Cons [of "known @ [l]"] by simp
qed simp

lemma parse_triggers_parsed: "parse_triggers v = map signal_parse (map dg_raw (parse_triggers v))"
  by (simp add: parse_triggers_def comp_def split: option.splits)

lemma peek_parsed:
  "peek_doom_loop json data = CheckEvent ss \<Longrightarrow> ss = map signal_parse (reported json data)"
  "peek_doom_loop json data = ResponseField ss \<Longrightarrow> ss = map signal_parse (reported json data)"
  using parse_triggers_parsed
  by (auto simp: reported_def peek_doom_loop_def split: if_splits option.splits)

lemma record_nothing: "record_signals c [] = c"
  by (simp add: record_signals_def)

lemma absorb_state:
  "co_signals (snd (absorb json c name data)) = add_signals (co_signals c) (map signal_parse (reported json data)) \<and>
   co_policy (snd (absorb json c name data)) = co_policy c \<and>
   co_abort_disarmed (snd (absorb json c name data)) = co_abort_disarmed c"
proof (cases "peek_doom_loop json data")
  case (CheckEvent ss)
  then show ?thesis using peek_parsed(1) [OF CheckEvent]
    by (simp add: absorb_def Let_def log_malformed_once_def record_signals_def)
next
  case (ResponseField ss)
  then show ?thesis using peek_parsed(2) [OF ResponseField]
    by (simp add: absorb_def Let_def log_malformed_once_def record_signals_def)
next
  case NoPeek
  then show ?thesis by (simp add: absorb_def Let_def log_malformed_once_def reported_def)
qed

lemma absorb_all_state:
  assumes "co_signals c = map signal_parse known"
  shows "co_signals (absorb_all json c frames) = map signal_parse (firsts known (all_reported json frames)) \<and>
    co_policy (absorb_all json c frames) = co_policy c \<and>
    co_abort_disarmed (absorb_all json c frames) = co_abort_disarmed c"
  using assms
proof (induction json c frames arbitrary: known rule: absorb_all.induct)
  case (2 json c name data frames)
  have "co_signals (snd (absorb json c name data)) = map signal_parse (firsts known (reported json data))"
    using absorb_state [of json c name data] 2(2) add_signals_parsed by simp
  from 2(1) [OF this] absorb_state [of json c name data] show ?case
    by (simp add: all_reported_def firsts_append)
qed (simp add: all_reported_def)

text \<open>After any frames the collector of an attempt holds the reported labels in the order of their
  first report, once each; it asks for an abort exactly when one of them is a repetition in the
  thinking channel at or below the threshold of the policy, and never when it is disarmed.
\<close>

theorem collector_aborts_on_reported_loops:
  "let c = absorb_all json (collector_new p) frames in
   map dg_raw (co_signals c) = firsts [] (all_reported json frames) \<and>
   distinct (map dg_raw (co_signals c)) \<and>
   abort_triggers (disarm_abort c) = None \<and>
   (abort_triggers c \<noteq> None \<longleftrightarrow>
     (\<exists>raw \<in> set (all_reported json frames). is_confident p (signal_parse raw)))"
proof -
  define c where "c = absorb_all json (collector_new p) frames"
  have c: "co_signals c = map signal_parse (firsts [] (all_reported json frames))" "co_policy c = p"
    "\<not> co_abort_disarmed c"
    using absorb_all_state [of "collector_new p" "[]" json frames] by (simp_all add: c_def collector_new_def)
  have "abort_triggers c \<noteq> None \<longleftrightarrow> (\<exists>raw \<in> set (all_reported json frames). is_confident p (signal_parse raw))"
    by (auto simp: abort_triggers_def Let_def c confident_triggers_def filter_empty_conv)
  then show ?thesis
    by (simp add: c distinct_firsts abort_triggers_def disarm_abort_def flip: c_def)
qed

end
