(* ===== verification/Sampling_Retry.thy ===== *)
theory Sampling_Retry
  imports Doom_Loop
begin

text \<open>
  \<open>retry.rs\<close> of \<open>xai-grok-sampler\<close> and the error mirror of \<open>events.rs\<close>: how many
  retries a request has, how long it waits before each, what the retry loop does with an error, the
  text of an error and the form in which it leaves the sampler.
\<close>

section \<open>Budget and waiting times\<close>

definition default_max_retries :: nat where
  "default_max_retries = 15"

definition rate_limit_threshold :: nat where
  "rate_limit_threshold = 2"

record sampler_retry_policy =
  rp_max_retries :: nat
  rp_rate_limit_retry_threshold :: nat

definition default_retry_policy :: sampler_retry_policy where
  "default_retry_policy =
    \<lparr>rp_max_retries = default_max_retries, rp_rate_limit_retry_threshold = rate_limit_threshold\<rparr>"

definition resolve_max_retries :: "rstr option \<Rightarrow> nat option \<Rightarrow> nat" where
  "resolve_max_retries env_override model_max_retries =
    (case Option.bind env_override (parse_unsigned (2 ^ 32)) of
       Some n \<Rightarrow> n
     | None \<Rightarrow> (case model_max_retries of Some n \<Rightarrow> n | None \<Rightarrow> default_max_retries))"

text \<open>
  \<open>u64::checked_shl\<close>: no value from 64 places on, and the high bits are lost below. \<open>hash\<close>
  is the value of the hasher of the call; times are in milliseconds.
\<close>

definition checked_shl_u64 :: "nat \<Rightarrow> nat \<Rightarrow> nat option" where
  "checked_shl_u64 n shift = (if shift < 64 then Some ((n * 2 ^ shift) mod 2 ^ 64) else None)"

definition retry_base_ms :: "nat \<Rightarrow> nat" where
  "retry_base_ms retry_count =
    min (case checked_shl_u64 2000 (retry_count - 1) of None \<Rightarrow> 2 ^ 64 - 1 | Some v \<Rightarrow> v) 30000"

definition retry_backoff_with_jitter :: "nat \<Rightarrow> nat \<Rightarrow> nat" where
  "retry_backoff_with_jitter hash retry_count =
    (let base_ms = retry_base_ms retry_count;
         jitter_range = base_ms div 5;
         jitter = hash mod (jitter_range * 2 + 1) in
     base_ms - jitter_range + jitter)"

definition doom_loop_backoff :: "nat \<Rightarrow> nat" where
  "doom_loop_backoff hash = hash mod 251"

section \<open>Errors outside the sampler\<close>

datatype error_kind =
    KindAuth | KindHttp | KindApi | KindSerialization | KindIdleTimeout | KindRateLimited
  | KindEmptyResponse | KindMaxTokensTruncation | KindDoomLoopDetected

fun kind_as_str :: "error_kind \<Rightarrow> string" where
  "kind_as_str KindAuth = ''auth''"
| "kind_as_str KindHttp = ''http''"
| "kind_as_str KindApi = ''api''"
| "kind_as_str KindSerialization = ''serialization''"
| "kind_as_str KindIdleTimeout = ''idle_timeout''"
| "kind_as_str KindRateLimited = ''rate_limited''"
| "kind_as_str KindEmptyResponse = ''empty_response''"
| "kind_as_str KindMaxTokensTruncation = ''max_tokens_truncation''"
| "kind_as_str KindDoomLoopDetected = ''doom_loop_detected''"

record error_info =
  si_kind :: error_kind
  si_status_code :: "nat option"
  si_message :: rstr
  si_is_retryable :: bool
  si_retry_after_secs :: "nat option"
  si_model_metadata :: "response_model_metadata option"
  si_empty_response_context :: "empty_response_context option"
  si_doom_loop_triggers :: "rstr list option"
  si_doom_loop_aborted_at_chunk :: "nat option"

fun kind_and_details ::
  "sampling_error \<Rightarrow> error_kind \<times> nat option \<times> nat option \<times> response_model_metadata option" where
  "kind_and_details (AuthError _) = (KindAuth, None, None, None)"
| "kind_and_details (InvalidConfiguration _) = (KindApi, None, None, None)"
| "kind_and_details (HttpError _) = (KindHttp, None, None, None)"
| "kind_and_details (SerializationError _) = (KindSerialization, None, None, None)"
| "kind_and_details (ApiError status m md secs hint) =
     (if is_rate_limited (ApiError status m md secs hint) then KindRateLimited else KindApi, Some status, secs, md)"
| "kind_and_details (EventStreamError _) = (KindHttp, None, None, None)"
| "kind_and_details (StreamError _ _) = (KindApi, None, None, None)"
| "kind_and_details (IdleTimeout _) = (KindIdleTimeout, None, None, None)"
| "kind_and_details (EmptyResponse _) = (KindEmptyResponse, None, None, None)"
| "kind_and_details MaxTokensTruncation = (KindMaxTokensTruncation, None, None, None)"
| "kind_and_details (DoomLoopDetected _ _) = (KindDoomLoopDetected, None, None, None)"

definition info_of :: "error_env \<Rightarrow> sampling_error \<Rightarrow> error_info" where
  "info_of E e =
    (let (kind, status_code, retry_after_secs, md) = kind_and_details e;
         (triggers, chunk) = (case e of DoomLoopDetected ts at \<Rightarrow> (Some ts, at) | _ \<Rightarrow> (None, None)) in
     \<lparr>si_kind = kind, si_status_code = status_code, si_message = error_text E e,
      si_is_retryable = is_retryable e, si_retry_after_secs = retry_after_secs,
      si_model_metadata = md,
      si_empty_response_context = (case e of EmptyResponse c \<Rightarrow> Some c | _ \<Rightarrow> None),
      si_doom_loop_triggers = triggers, si_doom_loop_aborted_at_chunk = chunk\<rparr>)"

section \<open>Decisions\<close>

fun clone_error :: "error_env \<Rightarrow> sampling_error \<Rightarrow> sampling_error" where
  "clone_error E (HttpError r) = EventStreamError (rq_display r)"
| "clone_error E (SerializationError e) = serialization_message E (je_display e)"
| "clone_error E e = e"

datatype retry_decision =
    RetryAfter nat
  | RetryWithBackoff nat bool
  | RetryWithImageStrip
  | RetryWithClientRebuild nat
  | EmitToSession sampling_error
  | FatalDecision sampling_error

definition is_doom_loop :: "sampling_error \<Rightarrow> bool" where
  "is_doom_loop e \<longleftrightarrow> (case e of DoomLoopDetected _ _ \<Rightarrow> True | _ \<Rightarrow> False)"

definition backoff_for :: "nat \<Rightarrow> sampling_error \<Rightarrow> nat \<Rightarrow> nat" where
  "backoff_for hash e next_attempt =
    (case retry_after e of Some secs \<Rightarrow> secs * 1000 | None \<Rightarrow> retry_backoff_with_jitter hash next_attempt)"

definition classify_error :: "error_env \<Rightarrow> nat \<Rightarrow> sampling_error \<Rightarrow> nat \<Rightarrow> nat \<Rightarrow> nat \<Rightarrow> retry_decision" where
  "classify_error E hash e retry_count max_retries threshold =
    (let fatal = FatalDecision (clone_error E e); next_attempt = retry_count + 1 in
     if is_auth_error e then EmitToSession (clone_error E e)
     else if is_encrypted_content_error e then EmitToSession (clone_error E e)
     else if is_payload_too_large e then RetryWithImageStrip
     else if is_image_processing_error e then RetryWithImageStrip
     else if should_retry_header e = Some False then fatal
     else if is_context_length_error e then fatal
     else if is_doom_loop e then RetryAfter (doom_loop_backoff hash)
     else if is_rate_limited e then
       (if min max_retries threshold \<le> next_attempt then fatal
        else RetryWithBackoff (backoff_for hash e next_attempt) True)
     else if is_retryable e then
       (if max_retries \<le> next_attempt then fatal
        else if next_attempt = 1 then RetryWithClientRebuild (backoff_for hash e next_attempt)
        else RetryAfter (backoff_for hash e next_attempt))
     else fatal)"

section \<open>Texts for people\<close>

definition status_hint :: "nat \<Rightarrow> string" where
  "status_hint code =
    (if code = 400 then '' (bad request - check your input)''
     else if code = 401 \<or> code = 403 then '' (authentication issue - check your API key)''
     else if code = 404 then '' (endpoint not found - check model configuration)''
     else if code = 413 then '' (request too large - try /compact or start new session)''
     else if code = 429 then '' (rate limited - please wait and retry)''
     else if code = 500 then '' (server internal error)''
     else if code \<in> {502, 503, 504} then '' (server unavailable - please retry)''
     else '''')"

definition http_details :: "error_env \<Rightarrow> reqwest_error \<Rightarrow> rstr list" where
  "http_details E r =
    (if rq_is_timeout r then [lit ''timeout''] else []) @
    (if rq_is_connect r then [lit ''connection failed''] else []) @
    (case rq_status r of Some s \<Rightarrow> [lit ''status '' @ ee_status_text E s] | None \<Rightarrow> []) @
    (case rq_url r of Some u \<Rightarrow> [lit ''url: '' @ u] | None \<Rightarrow> [])"

fun describe_error :: "error_env \<Rightarrow> sampling_error \<Rightarrow> rstr" where
  "describe_error E (AuthError m) =
     lit ''Authentication failed: '' @ m @ lit ''. Please check your API key configuration.''"
| "describe_error E (InvalidConfiguration m) =
     lit ''Invalid configuration: '' @ m @ lit ''. Please check your model settings.''"
| "describe_error E (HttpError r) =
     lit ''HTTP request failed: '' @
     (if http_details E r = [] then rq_display r
      else rq_display r @ lit '' ('' @ str_join (lit '', '') (http_details E r) @ lit '')'') @
     lit ''. This may be a network issue or the API endpoint may be unavailable.''"
| "describe_error E (SerializationError e) =
     lit ''Failed to parse API response at line '' @ nat_to_str (je_line e) @ lit '' column '' @
     nat_to_str (je_column e) @ lit '': '' @ je_display e @
     lit ''. This indicates an unexpected response format from the server.''"
| "describe_error E (ApiError status m _ _ _) =
     lit ''API error (HTTP '' @ nat_to_str status @ lit (status_hint status) @ lit ''): '' @ m"
| "describe_error E (EventStreamError m) =
     lit ''Event stream error: '' @ m @ lit ''. The connection to the server was interrupted.''"
| "describe_error E (StreamError kind m) =
     lit ''Server stream error ('' @ kind @ lit ''): '' @ m @
     lit ''. The server encountered an error while streaming the response.''"
| "describe_error E (IdleTimeout secs) =
     lit ''Model stopped responding after '' @ nat_to_str secs @
     lit ''s. The model may be overloaded or stuck. Try again or use a different model.''"
| "describe_error E (EmptyResponse c) =
     lit ''Empty response from model ('' @ lit (empty_reason_as_str (ec_reason c)) @
     lit ''): model='' @ ec_model c @ lit '', had_reasoning='' @
     lit (if ec_had_reasoning c then ''true'' else ''false'') @ lit '', finish_reason='' @ finish_reason_str c @
     lit '', completion_tokens='' @
     nat_to_str (case ec_completion_tokens c of Some n \<Rightarrow> n | None \<Rightarrow> 0)"
| "describe_error E MaxTokensTruncation = lit ''Response truncated by max_tokens.''"
| "describe_error E (DoomLoopDetected triggers _) =
     lit ''Server detected a reasoning loop ('' @ str_join (lit '', '') triggers @
     lit ''); resampling the response.''"

definition format_sampling_error :: "error_env \<Rightarrow> sampling_error \<Rightarrow> nat option \<Rightarrow> rstr" where
  "format_sampling_error E e retry_count =
    (case retry_count of
       Some n \<Rightarrow> lit ''Request failed after '' @ nat_to_str n @ lit '' retries. ''
     | None \<Rightarrow> []) @ describe_error E e"

section \<open>Waiting times are bounded\<close>

lemma odd_part: "1 \<le> k \<Longrightarrow> 1 \<le> (125 :: nat) mod 2 ^ k"
  by (rule ccontr) (auto simp: not_le dest!: dvd_trans [of 2 "2 ^ k" 125, rotated])

lemma shifted_2000:
  assumes "11 \<le> s" "s < 60"
  shows "30000 \<le> (2000 * 2 ^ s) mod (2 ^ 64 :: nat)"
proof -
  define k where "k = 60 - s"
  have k: "1 \<le> k" "(64 :: nat) = s + 4 + k" using assms by (simp_all add: k_def)
  have "(2 ^ 64 :: nat) = 2 ^ (s + 4) * 2 ^ k" unfolding k(2) by (simp only: power_add)
  moreover have "(2000 * 2 ^ s :: nat) = 2 ^ (s + 4) * 125" by (simp add: power_add)
  ultimately have e: "(2000 * 2 ^ s) mod (2 ^ 64 :: nat) = 2 ^ (s + 4) * (125 mod 2 ^ k)"
    by (simp only: mult_mod_right)
  have "(2 :: nat) ^ 15 \<le> 2 ^ (s + 4)" using assms(1) by (intro power_increasing) simp_all
  also have "\<dots> \<le> 2 ^ (s + 4) * (125 mod 2 ^ k)" using odd_part [OF k(1)] by simp
  finally show ?thesis unfolding e by simp
qed

lemma lost_2000:
  assumes "60 \<le> s" shows "(2000 * 2 ^ s) mod (2 ^ 64 :: nat) = 0"
proof -
  have "(2000 * 2 ^ s :: nat) = 125 * 2 ^ (s - 60) * 2 ^ 64"
    using power_add [of "2 :: nat" "s - 60" 60] assms by simp
  then show ?thesis by simp
qed

lemma retry_base_cases:
  "retry_base_ms n = (if 61 \<le> n \<and> n \<le> 64 then 0 else min (2000 * 2 ^ (n - 1)) 30000)"
proof -
  define s where "s = n - 1"
  have n: "61 \<le> n \<and> n \<le> 64 \<longleftrightarrow> 60 \<le> s \<and> s < 64" by (auto simp: s_def)
  have large: "(2 ^ 11 :: nat) \<le> 2 ^ s" if "11 \<le> s" using that by (intro power_increasing) simp_all
  have small: "(2 ^ s :: nat) \<le> 2 ^ 11" if "s < 11" using that by (intro power_increasing) simp_all
  have e: "retry_base_ms n = (if s < 64 then min ((2000 * 2 ^ s) mod 2 ^ 64) 30000 else 30000)"
    by (simp add: retry_base_ms_def checked_shl_u64_def s_def)
  consider "s < 11" | "11 \<le> s" "s < 60" | "60 \<le> s" "s < 64" | "64 \<le> s" by linarith
  then have "retry_base_ms n = (if 60 \<le> s \<and> s < 64 then 0 else min (2000 * 2 ^ s) 30000)"
  proof cases
    case 1
    with small e show ?thesis by simp
  next
    case 2
    with large shifted_2000 [of s] e show ?thesis by (simp add: min_def)
  next
    case 3
    with lost_2000 [of s] e show ?thesis by simp
  next
    case 4
    with large e show ?thesis by (simp add: min_def)
  qed
  then show ?thesis unfolding n by (simp add: s_def)
qed

lemma jitter_bounds:
  "let b = retry_base_ms n in b - b div 5 \<le> retry_backoff_with_jitter h n \<and>
     retry_backoff_with_jitter h n \<le> b + b div 5"
proof -
  define r where "r = retry_base_ms n div 5"
  have "h mod (r * 2 + 1) \<le> r * 2" using mod_less_divisor [of "r * 2 + 1" h] by linarith
  moreover have "r \<le> retry_base_ms n" by (simp add: r_def)
  ultimately show ?thesis unfolding retry_backoff_with_jitter_def Let_def r_def [symmetric] by linarith
qed

text \<open>Before the sixty-first retry, and from the sixty-fifth on, the wait is within a fifth of two
  seconds doubled for each earlier retry and capped at thirty seconds. In between, the shift has
  pushed every bit of 2000 out of the 64 and the wait is zero.
\<close>

theorem backoff_is_bounded:
  "retry_backoff_with_jitter h n \<le> 36000 \<and>
   (if 61 \<le> n \<and> n \<le> 64 then retry_backoff_with_jitter h n = 0
    else let base = min (2000 * 2 ^ (n - 1)) 30000 in
      4 * base \<le> 5 * retry_backoff_with_jitter h n \<and> 5 * retry_backoff_with_jitter h n \<le> 6 * base \<and>
      1600 \<le> retry_backoff_with_jitter h n)"
proof -
  define b where "b = retry_base_ms n"
  define w where "w = retry_backoff_with_jitter h n"
  have w: "b - b div 5 \<le> w" "w \<le> b + b div 5" using jitter_bounds [of n h] by (simp_all add: b_def w_def Let_def)
  have b30: "b \<le> 30000" by (simp add: b_def retry_base_ms_def)
  have d: "5 * (b div 5) \<le> b" by simp
  have upper: "w \<le> 36000" using w b30 by linarith
  show ?thesis
  proof (cases "61 \<le> n \<and> n \<le> 64")
    case True
    then have "b = 0" by (simp add: b_def retry_base_cases)
    with w True show ?thesis by (simp flip: w_def)
  next
    case False
    then have e: "min (2000 * 2 ^ (n - 1)) 30000 = b" by (simp only: b_def retry_base_cases if_False)
    have "2000 \<le> b" unfolding e [symmetric] by simp
    with w d have "4 * b \<le> 5 * w \<and> 5 * w \<le> 6 * b \<and> 1600 \<le> w" by linarith
    with False upper show ?thesis unfolding Let_def e by (simp only: if_False flip: w_def)
  qed
qed

section \<open>What the decisions rest on\<close>

lemma is_doom_loop_simps [simp]:
  "is_doom_loop (DoomLoopDetected ts c)" "\<not> is_doom_loop (AuthError m)" "\<not> is_doom_loop (InvalidConfiguration m)"
  "\<not> is_doom_loop (HttpError r)" "\<not> is_doom_loop (SerializationError j)" "\<not> is_doom_loop (ApiError st m md secs hint)"
  "\<not> is_doom_loop (EventStreamError m)" "\<not> is_doom_loop (StreamError k m)" "\<not> is_doom_loop (IdleTimeout n)"
  "\<not> is_doom_loop (EmptyResponse c')" "\<not> is_doom_loop MaxTokensTruncation"
  by (simp_all add: is_doom_loop_def)

lemma rate_limited_retryable: "is_rate_limited e \<Longrightarrow> is_retryable e \<and> \<not> is_doom_loop e"
  by (cases e) (simp_all add: is_rate_limited_def api_status_def)

lemma doom_loop_retryable: "is_doom_loop e \<Longrightarrow> is_retryable e"
  by (cases e) simp_all

definition wait_of :: "retry_decision \<Rightarrow> nat option" where
  "wait_of d = (case d of RetryAfter w \<Rightarrow> Some w | RetryWithBackoff w _ \<Rightarrow> Some w
     | RetryWithClientRebuild w \<Rightarrow> Some w | _ \<Rightarrow> None)"

lemma wait_of_simps [simp]:
  "wait_of (RetryAfter w) = Some w" "wait_of (RetryWithBackoff w b) = Some w"
  "wait_of (RetryWithClientRebuild w) = Some w" "wait_of RetryWithImageStrip = None"
  "wait_of (EmitToSession e) = None" "wait_of (FatalDecision e) = None"
  by (simp_all add: wait_of_def)

lemma backoff_le: "retry_backoff_with_jitter h n \<le> 36000"
proof -
  have "retry_base_ms n \<le> 30000" by (simp add: retry_base_ms_def)
  moreover have "retry_backoff_with_jitter h n \<le> retry_base_ms n + retry_base_ms n div 5"
    using jitter_bounds [of n h] by (simp add: Let_def)
  ultimately show ?thesis by linarith
qed

lemma backoff_for_cases:
  "(\<exists>secs. retry_after e = Some secs \<and> backoff_for h e n = secs * 1000) \<or> backoff_for h e n \<le> 36000"
  using backoff_le [of h n] by (auto simp: backoff_for_def split: option.splits)

definition is_session_owned :: "sampling_error \<Rightarrow> bool" where
  "is_session_owned e \<longleftrightarrow> is_auth_error e \<or> is_encrypted_content_error e"

definition wants_image_strip :: "sampling_error \<Rightarrow> bool" where
  "wants_image_strip e \<longleftrightarrow> is_payload_too_large e \<or> is_image_processing_error e"

text \<open>
  A decision to wait and send the same request again is taken only for a transient error that is
  neither owned by the session nor a reason to drop images, that the server did not mark as final and
  that is not an overflow of the context window, and only while the budget lasts; it waits as long
  as the server asked for, or at most 36 seconds.
\<close>

lemma classify_waiting:
  assumes "wait_of (classify_error E h e n max_retries threshold) = Some w"
  shows "is_retryable e \<and> \<not> is_session_owned e \<and> \<not> wants_image_strip e \<and>
    should_retry_header e \<noteq> Some False \<and> \<not> is_context_length_error e \<and>
    (is_doom_loop e \<or> n + 1 < max_retries) \<and> (is_rate_limited e \<longrightarrow> n + 1 < threshold) \<and>
    ((\<exists>secs. retry_after e = Some secs \<and> w = secs * 1000) \<or> w \<le> 36000)"
proof -
  have "doom_loop_backoff h \<le> 36000"
    using mod_less_divisor [of 251 h] by (simp add: doom_loop_backoff_def)
  with assms backoff_for_cases [of e h "Suc n"] show ?thesis
    by (auto simp: classify_error_def Let_def is_session_owned_def wants_image_strip_def not_le
        rate_limited_retryable doom_loop_retryable split: if_splits)
qed

lemma classify_strip:
  "classify_error E h e n max_retries threshold = RetryWithImageStrip \<longleftrightarrow>
     wants_image_strip e \<and> \<not> is_session_owned e"
  by (auto simp: classify_error_def Let_def is_session_owned_def wants_image_strip_def)

lemma classify_emit:
  "classify_error E h e n max_retries threshold = EmitToSession e' \<longleftrightarrow>
     is_session_owned e \<and> e' = clone_error E e"
  by (auto simp: classify_error_def Let_def is_session_owned_def)

lemma classify_fatal:
  "classify_error E h e n max_retries threshold = FatalDecision e' \<Longrightarrow> e' = clone_error E e"
  by (auto simp: classify_error_def Let_def split: if_splits)

text \<open>
  The copy an error leaves the loop with keeps the kind of the original, and it is retryable when
  the original is: for an HTTP error it always is, also when the original was not.
\<close>

theorem clone_error_retryable:
  "is_retryable (clone_error E e) \<longleftrightarrow> is_retryable e \<or> (\<exists>r. e = HttpError r)"
  by (cases e) (simp_all add: serialization_message_def)

theorem clone_error_kind: "si_kind (info_of E (clone_error E e)) = si_kind (info_of E e)"
  by (cases e) (simp_all add: serialization_message_def info_of_def is_rate_limited_def api_status_def Let_def)

text \<open>A budget of one retry, and a rate limit threshold of one, retry nothing.\<close>

theorem budget_of_one_never_retries:
  assumes "\<not> is_doom_loop e"
  shows "wait_of (classify_error E h e n 1 threshold) = None"
proof (cases "wait_of (classify_error E h e n 1 threshold)")
  case (Some w)
  from classify_waiting [OF Some] assms show ?thesis by simp
qed

end
