(* ===== verification/Sampling_Requests.thy ===== *)
theory Sampling_Requests
  imports Sampling_Retry
begin

text \<open>
  \<open>actor/request_task.rs\<close> of \<open>xai-grok-sampler\<close>: one request from its submission to its
  single outcome, over as many attempts as the budgets allow, with the parts of a conversation that
  it reads. The client, what a server streams back in an attempt and the moments at which the caller
  cancels are arguments (\<open>world\<close>); the fields the loop only passes on have the type \<open>'x\<close>.
\<close>

section \<open>Conversations\<close>

datatype content_part = TextPart rstr | ImagePart rstr

record 'x user_item =
  us_content :: "content_part list"
  us_rest :: 'x

record 'x assistant_item =
  as_content :: rstr
  as_tool_calls :: "'x list"
  as_model_id :: "rstr option"
  as_rest :: 'x

record 'x tool_result_item =
  tr_tool_call_id :: rstr
  tr_content :: rstr
  tr_images :: "content_part list"

record 'x reasoning_item =
  rg_summary :: "'x list"
  rg_content :: "'x list option"
  rg_encrypted_content :: "rstr option"
  rg_rest :: 'x

datatype 'x conversation_item =
    SystemItem rstr
  | UserItem "'x user_item"
  | AssistantItem "'x assistant_item"
  | ToolResultItem "'x tool_result_item"
  | BackendToolCallItem 'x
  | ReasoningItem "'x reasoning_item"

record 'x conversation_request =
  cr_items :: "'x conversation_item list"
  cr_model :: "rstr option"
  cr_rest :: 'x

definition image_removed :: rstr where
  "image_removed = lit ''[image removed '' @ [0x2014] @ lit '' conversation too large]''"

fun strip_part :: "content_part \<Rightarrow> content_part \<times> nat" where
  "strip_part (ImagePart _) = (TextPart image_removed, 1)"
| "strip_part (TextPart t) = (TextPart t, 0)"

fun strip_item :: "'x conversation_item \<Rightarrow> 'x conversation_item \<times> nat" where
  "strip_item (UserItem u) =
     (UserItem (u\<lparr>us_content := map (fst \<circ> strip_part) (us_content u)\<rparr>),
      sum_list (map (snd \<circ> strip_part) (us_content u)))"
| "strip_item (ToolResultItem t) = (ToolResultItem (t\<lparr>tr_images := []\<rparr>), length (tr_images t))"
| "strip_item item = (item, 0)"

definition strip_images :: "'x conversation_request \<Rightarrow> 'x conversation_request \<times> nat" where
  "strip_images r =
    (r\<lparr>cr_items := map (fst \<circ> strip_item) (cr_items r)\<rparr>, sum_list (map (snd \<circ> strip_item) (cr_items r)))"

datatype stop_reason = Stop | Length | ToolCalls | ContentFilter

fun stop_reason_as_str :: "stop_reason \<Rightarrow> string" where
  "stop_reason_as_str Stop = ''stop''"
| "stop_reason_as_str Length = ''length''"
| "stop_reason_as_str ToolCalls = ''tool_calls''"
| "stop_reason_as_str ContentFilter = ''content_filter''"

record token_usage =
  tu_prompt_tokens :: nat
  tu_completion_tokens :: nat
  tu_total_tokens :: nat
  tu_reasoning_tokens :: nat
  tu_cached_prompt_tokens :: nat

record 'x conversation_response =
  cp_items :: "'x conversation_item list"
  cp_stop_reason :: "stop_reason option"
  cp_usage :: "token_usage option"
  cp_cost_usd_ticks :: "int option"
  cp_message_chunks_emitted :: nat
  cp_doom_loop_signals :: "doom_signal list"
  cp_stop_message :: "rstr option"

fun find_assistant :: "'x conversation_item list \<Rightarrow> 'x assistant_item option" where
  "find_assistant [] = None"
| "find_assistant (AssistantItem a # _) = Some a"
| "find_assistant (_ # items) = find_assistant items"

definition response_assistant :: "'x conversation_response \<Rightarrow> 'x assistant_item option" where
  "response_assistant r = find_assistant (rev (cp_items r))"

definition reasoning_items :: "'x conversation_response \<Rightarrow> 'x reasoning_item list" where
  "reasoning_items r = List.map_filter (\<lambda>i. case i of ReasoningItem g \<Rightarrow> Some g | _ \<Rightarrow> None) (cp_items r)"

definition has_reasoning :: "'x conversation_response \<Rightarrow> bool" where
  "has_reasoning r \<longleftrightarrow>
    list_ex (\<lambda>g. rg_summary g \<noteq> [] \<or> rg_content g \<noteq> None \<or> rg_encrypted_content g \<noteq> None) (reasoning_items r)"

definition response_empty_reason :: "'x conversation_response \<Rightarrow> empty_reason option" where
  "response_empty_reason r =
    (case response_assistant r of
       None \<Rightarrow> Some NoVisibleContent
     | Some a \<Rightarrow>
         if as_content a \<noteq> [] \<or> as_tool_calls a \<noteq> [] then None
         else if has_reasoning r then Some ReasoningOnly else Some NoVisibleContent)"

definition build_empty_context :: "empty_reason \<Rightarrow> 'x conversation_response \<Rightarrow> empty_response_context" where
  "build_empty_context reason r =
    (let (content_len, tool_call_count, model, first_choice_seen) =
           (case response_assistant r of
              Some a \<Rightarrow> (str_len (as_content a), length (as_tool_calls a),
                         case as_model_id a of Some m \<Rightarrow> m | None \<Rightarrow> [], as_model_id a \<noteq> None)
            | None \<Rightarrow> (0, 0, [], False)) in
     \<lparr>ec_reason = reason, ec_had_reasoning = has_reasoning r, ec_content_len = content_len,
      ec_tool_call_count = tool_call_count,
      ec_finish_reason = map_option (lit \<circ> stop_reason_as_str) (cp_stop_reason r),
      ec_completion_tokens = map_option tu_completion_tokens (cp_usage r),
      ec_reasoning_tokens = map_option tu_reasoning_tokens (cp_usage r),
      ec_prompt_tokens = map_option tu_prompt_tokens (cp_usage r),
      ec_model = model, ec_first_choice_seen = first_choice_seen\<rparr>)"

section \<open>Events\<close>

record latency_stats =
  ls_time_to_first_token_ms :: "nat option"
  ls_time_to_last_byte_ms :: nat
  ls_chunk_count :: nat
  ls_itl_intervals_ms :: "nat list"
  ls_itl_p50_ms :: "nat option"
  ls_itl_p99_ms :: "nat option"
  ls_itl_max_ms :: "nat option"
  ls_itl_mean_ms :: "nat option"
  ls_attempts :: nat

datatype sampling_channel = TextChannel | ReasoningChannel

datatype 'x sampling_event =
    StreamStarted rstr int
  | FirstToken rstr
  | ChannelToken rstr sampling_channel rstr nat
  | ToolCallDelta rstr nat "rstr option" "rstr option" "rstr option"
  | CompletedEvent rstr "'x conversation_response" latency_stats
  | Retrying rstr nat nat error_kind rstr "rstr list option" "nat option"
  | FailedEvent rstr error_info
  | ModelMetadata rstr response_model_metadata
  | BackendToolCallStarted rstr rstr rstr
  | BackendToolCallCompleted rstr rstr rstr "json_value option"

text \<open>The error a failure event stands for, when the raw error was not seen.\<close>

fun find_seconds :: "rstr list \<Rightarrow> nat option" where
  "find_seconds [] = None"
| "find_seconds (tok # toks) =
     (if ends_with tok (lit ''s'') then
        (case parse_unsigned (2 ^ 64) (butlast tok) of Some n \<Rightarrow> Some n | None \<Rightarrow> find_seconds toks)
      else find_seconds toks)"

definition status_of_code :: "nat option \<Rightarrow> nat" where
  "status_of_code code = (case code of Some c \<Rightarrow> if 100 \<le> c \<and> c < 1000 then c else 500 | None \<Rightarrow> 500)"

definition synthesize_from_info :: "error_env \<Rightarrow> error_info \<Rightarrow> sampling_error" where
  "synthesize_from_info E i =
    (let api = ApiError (status_of_code (si_status_code i)) (si_message i) (si_model_metadata i)
                 (si_retry_after_secs i) None in
     case si_kind i of
       KindIdleTimeout \<Rightarrow>
         IdleTimeout (case find_seconds (split_whitespace (si_message i)) of Some n \<Rightarrow> n | None \<Rightarrow> 0)
     | KindAuth \<Rightarrow> AuthError (si_message i)
     | KindSerialization \<Rightarrow> serialization_from_rendered E (si_message i)
     | KindHttp \<Rightarrow> EventStreamError (si_message i)
     | KindApi \<Rightarrow> api
     | KindRateLimited \<Rightarrow> api
     | KindEmptyResponse \<Rightarrow>
         (case si_empty_response_context i of
            Some c \<Rightarrow> EmptyResponse c | None \<Rightarrow> EventStreamError (si_message i))
     | KindMaxTokensTruncation \<Rightarrow> MaxTokensTruncation
     | KindDoomLoopDetected \<Rightarrow>
         DoomLoopDetected (case si_doom_loop_triggers i of Some ts \<Rightarrow> ts | None \<Rightarrow> [])
           (si_doom_loop_aborted_at_chunk i))"

section \<open>One attempt\<close>

datatype 'x attempt_outcome =
    AttemptCompleted "'x conversation_response" latency_stats
  | AttemptEmpty empty_response_context
  | AttemptFailed sampling_error
  | AttemptCancelled
  | AttemptInitFailed sampling_error

text \<open>
  What the loop over a stream meets next: the token of the caller has fired, or the transform of the
  backend yields an event, having pulled some errors out of the raw stream on the way. Behind the
  last item the stream ends.
\<close>

datatype 'x stream_item = TokenFired | Yielded "sampling_error list" "'x sampling_event"

fun tee_errors :: "error_env \<Rightarrow> sampling_error option \<Rightarrow> sampling_error list \<Rightarrow> sampling_error option" where
  "tee_errors E cell [] = cell"
| "tee_errors E cell (e # es) =
     tee_errors E (case cell of None \<Rightarrow> Some (clone_error E e) | Some c \<Rightarrow> Some c) es"

definition completed_outcome ::
  "doom_loop_policy option \<Rightarrow> 'x conversation_response \<Rightarrow> latency_stats \<Rightarrow> 'x attempt_outcome" where
  "completed_outcome doom_check response metrics =
    (let triggers = (case doom_check of
           Some p \<Rightarrow> confident_triggers p (cp_doom_loop_signals response) | None \<Rightarrow> []) in
     if triggers \<noteq> [] then AttemptFailed (DoomLoopDetected triggers None)
     else if cp_stop_reason response = Some Length then AttemptFailed MaxTokensTruncation
     else case (if cp_stop_reason response = Some ContentFilter then None else response_empty_reason response) of
       Some reason \<Rightarrow> AttemptEmpty (build_empty_context reason response)
     | None \<Rightarrow> AttemptCompleted response metrics)"

fun drive_l2 ::
  "error_env \<Rightarrow> doom_loop_policy option \<Rightarrow> sampling_error option \<Rightarrow> 'x stream_item list \<Rightarrow>
   'x sampling_event list \<times> 'x attempt_outcome" where
  "drive_l2 E doom_check captured [] =
     ([], AttemptFailed (EventStreamError (lit ''stream dropped without terminal event'')))"
| "drive_l2 E doom_check captured (TokenFired # items) = ([], AttemptCancelled)"
| "drive_l2 E doom_check captured (Yielded errors event # items) =
     (let captured = tee_errors E captured errors in
      case event of
        CompletedEvent _ response metrics \<Rightarrow> ([], completed_outcome doom_check response metrics)
      | FailedEvent _ info \<Rightarrow>
          ([], AttemptFailed (case captured of Some e \<Rightarrow> e | None \<Rightarrow> synthesize_from_info E info))
      | other \<Rightarrow>
          (let (events, outcome) = drive_l2 E doom_check captured items in (other # events, outcome)))"

text \<open>
  \<open>wd_client\<close> builds a client, with HTTP/1.1 forced or not; \<open>wd_open\<close> opens the stream of
  the given attempt, and its stream depends on whether its collector may abort it.
\<close>

record ('c, 'x) world =
  wd_errors :: error_env
  wd_client :: "bool \<Rightarrow> sampling_error + 'c"
  wd_backend :: "'c \<Rightarrow> api_backend"
  wd_open :: "'c \<Rightarrow> 'x conversation_request \<Rightarrow> nat \<Rightarrow> sampling_error + (bool \<Rightarrow> 'x stream_item list)"
  wd_cancelled :: "nat \<Rightarrow> bool"
  wd_hash :: "nat \<Rightarrow> nat"

definition run_one_attempt ::
  "('c, 'x) world \<Rightarrow> 'c \<Rightarrow> 'x conversation_request \<Rightarrow> nat \<Rightarrow> doom_loop_policy option \<Rightarrow>
   'x sampling_event list \<times> 'x attempt_outcome" where
  "run_one_attempt W client request n doom_check =
    (case wd_open W client request n of
       Inl e \<Rightarrow> ([], AttemptInitFailed e)
     | Inr stream \<Rightarrow>
         (case wd_backend W client of
            Responses \<Rightarrow> drive_l2 (wd_errors W) doom_check None (stream (doom_check \<noteq> None))
          | _ \<Rightarrow> drive_l2 (wd_errors W) None None (stream False)))"

section \<open>The request\<close>

type_synonym 'x completion = "sampling_error + 'x conversation_response \<times> latency_stats"

text \<open>
  The state of the task, with what it has sent: the events, the results on the oneshot channel, whose
  sender is used up by the first, and the times it slept.
\<close>

record ('c, 'x) task =
  tk_request :: "'x conversation_request"
  tk_client :: 'c
  tk_retry_count :: nat
  tk_doom_retry_count :: nat
  tk_events :: "'x sampling_event list"
  tk_has_sender :: bool
  tk_sent :: "'x completion list"
  tk_slept :: "nat list"

record request_config =
  rc_request_id :: rstr
  rc_env_override :: "rstr option"
  rc_config_max_retries :: "nat option"
  rc_policy :: sampler_retry_policy
  rc_doom_policy :: "doom_loop_policy option"

definition retry_budget :: "request_config \<Rightarrow> nat" where
  "retry_budget C =
    resolve_max_retries (rc_env_override C)
      (case rc_config_max_retries C of Some n \<Rightarrow> Some n | None \<Rightarrow> Some (rp_max_retries (rc_policy C)))"

definition emit :: "'x sampling_event \<Rightarrow> ('c, 'x) task \<Rightarrow> ('c, 'x) task" where
  "emit ev t = t\<lparr>tk_events := tk_events t @ [ev]\<rparr>"

definition send_completion :: "'x completion \<Rightarrow> ('c, 'x) task \<Rightarrow> ('c, 'x) task" where
  "send_completion result t =
    (if tk_has_sender t then t\<lparr>tk_has_sender := False, tk_sent := tk_sent t @ [result]\<rparr> else t)"

definition emit_failed :: "error_env \<Rightarrow> rstr \<Rightarrow> sampling_error \<Rightarrow> ('c, 'x) task \<Rightarrow> ('c, 'x) task" where
  "emit_failed E rid e = emit (FailedEvent rid (info_of E e))"

definition emit_retrying ::
  "error_env \<Rightarrow> rstr \<Rightarrow> nat \<Rightarrow> nat \<Rightarrow> sampling_error \<Rightarrow> ('c, 'x) task \<Rightarrow> ('c, 'x) task" where
  "emit_retrying E rid attempt max_retries e =
    (let i = info_of E e in
     emit (Retrying rid attempt max_retries (si_kind i) (error_text E e)
       (si_doom_loop_triggers i) (si_doom_loop_aborted_at_chunk i)))"

definition sleep :: "nat \<Rightarrow> ('c, 'x) task \<Rightarrow> ('c, 'x) task" where
  "sleep ms t = t\<lparr>tk_slept := tk_slept t @ [ms]\<rparr>"

definition cancelled_info :: error_info where
  "cancelled_info =
    \<lparr>si_kind = KindApi, si_status_code = None, si_message = lit ''request cancelled'',
     si_is_retryable = False, si_retry_after_secs = None, si_model_metadata = None,
     si_empty_response_context = None, si_doom_loop_triggers = None, si_doom_loop_aborted_at_chunk = None\<rparr>"

definition handle_cancellation :: "rstr \<Rightarrow> ('c, 'x) task \<Rightarrow> ('c, 'x) task" where
  "handle_cancellation rid t =
    send_completion (Inl (AuthError (lit ''request cancelled''))) (emit (FailedEvent rid cancelled_info) t)"

definition finish_failed :: "error_env \<Rightarrow> rstr \<Rightarrow> sampling_error \<Rightarrow> sampling_error \<Rightarrow> ('c, 'x) task \<Rightarrow> ('c, 'x) task" where
  "finish_failed E rid shown result t = send_completion (Inl result) (emit_failed E rid shown t)"

definition count_retry :: "error_env \<Rightarrow> request_config \<Rightarrow> sampling_error \<Rightarrow> ('c, 'x) task \<Rightarrow> ('c, 'x) task" where
  "count_retry E C e t =
    (let n = tk_retry_count t + 1 in
     emit_retrying E (rc_request_id C) n (retry_budget C) e (t\<lparr>tk_retry_count := n\<rparr>))"

definition effective_threshold :: "sampler_retry_policy \<Rightarrow> nat" where
  "effective_threshold p =
    (if rp_rate_limit_retry_threshold p = 0 then rate_limit_threshold else rp_rate_limit_retry_threshold p)"

definition apply_retry_decision ::
  "('c, 'x) world \<Rightarrow> request_config \<Rightarrow> nat \<Rightarrow> sampling_error \<Rightarrow> ('c, 'x) task \<Rightarrow> bool \<times> ('c, 'x) task" where
  "apply_retry_decision W C n e t =
    (let E = wd_errors W; rid = rc_request_id C;
         decision = classify_error E (wd_hash W n) e (tk_retry_count t) (retry_budget C)
                      (effective_threshold (rc_policy C));
         t = (if is_likely_body_rejected e then t\<lparr>tk_request := fst (strip_images (tk_request t))\<rparr> else t) in
     case decision of
       RetryAfter backoff \<Rightarrow> (True, sleep backoff (count_retry E C e t))
     | RetryWithBackoff backoff _ \<Rightarrow> (True, sleep backoff (count_retry E C e t))
     | RetryWithImageStrip \<Rightarrow>
         (let (request, stripped) = strip_images (tk_request t); t = t\<lparr>tk_request := request\<rparr> in
          if stripped = 0 then (False, finish_failed E rid e (clone_error E e) t)
          else (True, count_retry E C e t))
     | RetryWithClientRebuild backoff \<Rightarrow>
         (let t = sleep backoff (count_retry E C e t) in
          (True, case wd_client W True of Inr fresh \<Rightarrow> t\<lparr>tk_client := fresh\<rparr> | Inl _ \<Rightarrow> t))
     | EmitToSession e' \<Rightarrow> (False, finish_failed E rid e' e' t)
     | FatalDecision e' \<Rightarrow> (False, finish_failed E rid e' e' t))"

definition doom_budget :: "request_config \<Rightarrow> nat" where
  "doom_budget C = (case rc_doom_policy C of Some p \<Rightarrow> dp_max_retries p | None \<Rightarrow> 0)"

definition doom_check_of :: "request_config \<Rightarrow> ('c, 'x) task \<Rightarrow> doom_loop_policy option" where
  "doom_check_of C t = (if tk_doom_retry_count t < doom_budget C then rc_doom_policy C else None)"

definition resample :: "('c, 'x) world \<Rightarrow> request_config \<Rightarrow> nat \<Rightarrow> sampling_error \<Rightarrow> ('c, 'x) task \<Rightarrow> ('c, 'x) task" where
  "resample W C n e t =
    (let k = tk_doom_retry_count t + 1 in
     sleep (doom_loop_backoff (wd_hash W n))
       (emit_retrying (wd_errors W) (rc_request_id C) k (doom_budget C) e (t\<lparr>tk_doom_retry_count := k\<rparr>)))"

definition complete ::
  "request_config \<Rightarrow> 'x conversation_response \<Rightarrow> latency_stats \<Rightarrow> ('c, 'x) task \<Rightarrow> ('c, 'x) task" where
  "complete C response metrics t =
    (let metrics = metrics\<lparr>ls_attempts := tk_retry_count t + tk_doom_retry_count t + 1\<rparr> in
     send_completion (Inr (response, metrics)) (emit (CompletedEvent (rc_request_id C) response metrics) t))"

text \<open>
  One round of the loop, number \<open>n\<close>: whether it goes on, and the task after it. The loop has
  \<open>fuel\<close> rounds to return in.
\<close>

definition after_attempt ::
  "('c, 'x) world \<Rightarrow> request_config \<Rightarrow> nat \<Rightarrow> 'x attempt_outcome \<Rightarrow> ('c, 'x) task \<Rightarrow> bool \<times> ('c, 'x) task" where
  "after_attempt W C n outcome t =
    (case outcome of
       AttemptCompleted response metrics \<Rightarrow> (False, complete C response metrics t)
     | AttemptEmpty context \<Rightarrow> apply_retry_decision W C n (EmptyResponse context) t
     | AttemptFailed e \<Rightarrow>
         (if is_doom_loop e then (True, resample W C n e t) else apply_retry_decision W C n e t)
     | AttemptCancelled \<Rightarrow> (False, handle_cancellation (rc_request_id C) t)
     | AttemptInitFailed e \<Rightarrow> apply_retry_decision W C n e t)"

definition request_round ::
  "('c, 'x) world \<Rightarrow> request_config \<Rightarrow> nat \<Rightarrow> ('c, 'x) task \<Rightarrow> bool \<times> ('c, 'x) task" where
  "request_round W C n t =
    (if wd_cancelled W n then (False, handle_cancellation (rc_request_id C) t)
     else let (events, outcome) = run_one_attempt W (tk_client t) (tk_request t) n (doom_check_of C t) in
       after_attempt W C n outcome (t\<lparr>tk_events := tk_events t @ events\<rparr>))"

fun request_loop :: "('c, 'x) world \<Rightarrow> request_config \<Rightarrow> nat \<Rightarrow> nat \<Rightarrow> ('c, 'x) task \<Rightarrow> ('c, 'x) task option" where
  "request_loop W C 0 n t = None"
| "request_loop W C (Suc fuel) n t =
     (let (again, t) = request_round W C n t in
      if again then request_loop W C fuel (n + 1) t else Some t)"

definition start_task :: "'x conversation_request \<Rightarrow> 'c \<Rightarrow> bool \<Rightarrow> ('c, 'x) task" where
  "start_task request client has_sender =
    \<lparr>tk_request = request, tk_client = client, tk_retry_count = 0, tk_doom_retry_count = 0,
     tk_events = [], tk_has_sender = has_sender, tk_sent = [], tk_slept = []\<rparr>"

text \<open>
  \<open>run_request_task\<close>: a configuration the client refuses ends the request at once. The answer
  is what was sent on the two channels.
\<close>

definition run_request_task ::
  "('c, 'x) world \<Rightarrow> request_config \<Rightarrow> nat \<Rightarrow> 'x conversation_request \<Rightarrow> bool \<Rightarrow>
   ('x sampling_event list \<times> 'x completion list) option" where
  "run_request_task W C fuel request has_sender =
    (case wd_client W False of
       Inl e \<Rightarrow>
         Some ([FailedEvent (rc_request_id C) (info_of (wd_errors W) e)], if has_sender then [Inl e] else [])
     | Inr client \<Rightarrow>
         map_option (\<lambda>t. (tk_events t, tk_sent t)) (request_loop W C fuel 0 (start_task request client has_sender)))"

section \<open>What the steps keep\<close>

fun terminal :: "'x sampling_event \<Rightarrow> bool" where
  "terminal (CompletedEvent _ _ _) = True"
| "terminal (FailedEvent _ _) = True"
| "terminal _ = False"

lemma drive_l2_forward:
  "\<not> terminal event \<Longrightarrow>
     drive_l2 E p c (Yielded errors event # items)
       = (event # fst (drive_l2 E p (tee_errors E c errors) items), snd (drive_l2 E p (tee_errors E c errors) items))"
  by (cases event) (simp_all add: Let_def split: prod.split)

lemma drive_l2_terminal [simp]:
  "drive_l2 E p c (Yielded errors (CompletedEvent rid r m) # items) = ([], completed_outcome p r m)"
  "drive_l2 E p c (Yielded errors (FailedEvent rid i) # items)
     = ([], AttemptFailed (case tee_errors E c errors of Some e \<Rightarrow> e | None \<Rightarrow> synthesize_from_info E i))"
  by (simp_all add: Let_def)

declare drive_l2.simps(3) [simp del]

text \<open>Induction over a stream: its end, a fired token, the two terminal events, any other event.\<close>

lemma drive_l2_induct [case_names Nil Fired Completed Failed Other]:
  assumes "\<And>c. P c []" "\<And>c items. P c (TokenFired # items)"
    and "\<And>c errors rid r m items. P c (Yielded errors (CompletedEvent rid r m) # items)"
    and "\<And>c errors rid i items. P c (Yielded errors (FailedEvent rid i) # items)"
    and "\<And>c errors event items. \<not> terminal event \<Longrightarrow> P (tee_errors E c errors) items \<Longrightarrow> P c (Yielded errors event # items)"
  shows "P c items"
proof (induction items arbitrary: c)
  case (Cons item items)
  show ?case
  proof (cases item)
    case (Yielded errors event)
    with Cons assms(3-5) show ?thesis by (cases event) simp_all
  qed (use assms(2) in simp)
qed (rule assms(1))

lemma drive_l2_forwards: "\<forall>e \<in> set (fst (drive_l2 E p c items)). \<not> terminal e"
  by (induction c items rule: drive_l2_induct [where E = E]) (simp_all add: drive_l2_forward Let_def)

lemma run_one_attempt_forwards: "\<forall>e \<in> set (fst (run_one_attempt W client r n p)). \<not> terminal e"
  by (simp add: run_one_attempt_def drive_l2_forwards split: sum.split api_backend.split)

lemma sleep_simps [simp]:
  "tk_events (sleep ms t) = tk_events t" "tk_has_sender (sleep ms t) = tk_has_sender t"
  "tk_sent (sleep ms t) = tk_sent t" "tk_request (sleep ms t) = tk_request t"
  "tk_retry_count (sleep ms t) = tk_retry_count t" "tk_doom_retry_count (sleep ms t) = tk_doom_retry_count t"
  by (simp_all add: sleep_def)

definition retry_event :: "error_env \<Rightarrow> request_config \<Rightarrow> nat \<Rightarrow> nat \<Rightarrow> sampling_error \<Rightarrow> 'x sampling_event" where
  "retry_event E C attempt max_retries e =
    Retrying (rc_request_id C) attempt max_retries (si_kind (info_of E e)) (error_text E e)
      (si_doom_loop_triggers (info_of E e)) (si_doom_loop_aborted_at_chunk (info_of E e))"

lemma terminal_retry_event [simp]: "\<not> terminal (retry_event E C a m e)"
  by (simp add: retry_event_def)

lemma count_retry_simps [simp]:
  "tk_events (count_retry E C e t) = tk_events t @ [retry_event E C (tk_retry_count t + 1) (retry_budget C) e]"
  "tk_has_sender (count_retry E C e t) = tk_has_sender t" "tk_sent (count_retry E C e t) = tk_sent t"
  "tk_request (count_retry E C e t) = tk_request t" "tk_retry_count (count_retry E C e t) = tk_retry_count t + 1"
  "tk_doom_retry_count (count_retry E C e t) = tk_doom_retry_count t"
  by (simp_all add: count_retry_def emit_retrying_def emit_def retry_event_def Let_def)

lemma resample_simps [simp]:
  "tk_events (resample W C n e t)
     = tk_events t @ [retry_event (wd_errors W) C (tk_doom_retry_count t + 1) (doom_budget C) e]"
  "tk_has_sender (resample W C n e t) = tk_has_sender t" "tk_sent (resample W C n e t) = tk_sent t"
  "tk_request (resample W C n e t) = tk_request t" "tk_retry_count (resample W C n e t) = tk_retry_count t"
  "tk_doom_retry_count (resample W C n e t) = tk_doom_retry_count t + 1"
  by (simp_all add: resample_def emit_retrying_def emit_def retry_event_def Let_def)

lemma send_completion_simps [simp]:
  "tk_events (send_completion r t) = tk_events t"
  "tk_sent (send_completion r t) = tk_sent t @ (if tk_has_sender t then [r] else [])"
  by (simp_all add: send_completion_def)

lemma emit_simps [simp]:
  "tk_events (emit ev t) = tk_events t @ [ev]" "tk_has_sender (emit ev t) = tk_has_sender t"
  "tk_sent (emit ev t) = tk_sent t"
  by (simp_all add: emit_def)

definition images_left :: "'x conversation_request \<Rightarrow> nat" where
  "images_left r = snd (strip_images r)"

lemma strip_part_twice [simp]: "snd (strip_part (fst (strip_part p))) = 0"
  by (cases p) simp_all

lemma strip_item_twice [simp]: "snd (strip_item (fst (strip_item i))) = 0"
  by (cases i) (simp_all add: comp_def)

lemma images_left_stripped [simp]: "images_left (fst (strip_images r)) = 0"
  by (simp add: images_left_def strip_images_def comp_def)

lemma strip_clone: "wants_image_strip e \<Longrightarrow> clone_error E e = e"
  by (cases e) (simp_all add: wants_image_strip_def is_payload_too_large_def is_image_processing_error_def api_status_def)

text \<open>The end of a request with an error, and another attempt.\<close>

definition failed_with :: "('c, 'x) world \<Rightarrow> request_config \<Rightarrow> ('c, 'x) task \<Rightarrow> ('c, 'x) task \<Rightarrow> bool" where
  "failed_with W C t t' \<longleftrightarrow>
    (\<exists>e. tk_events t' = tk_events t @ [FailedEvent (rc_request_id C) (info_of (wd_errors W) e)] \<and>
      tk_sent t' = tk_sent t @ (if tk_has_sender t then [Inl e] else []))"

definition retries_with :: "('c, 'x) world \<Rightarrow> request_config \<Rightarrow> sampling_error \<Rightarrow> ('c, 'x) task \<Rightarrow> ('c, 'x) task \<Rightarrow> bool" where
  "retries_with W C e t t' \<longleftrightarrow>
    tk_events t' = tk_events t @ [retry_event (wd_errors W) C (tk_retry_count t + 1) (retry_budget C) e] \<and>
    tk_has_sender t' = tk_has_sender t \<and> tk_sent t' = tk_sent t \<and>
    tk_retry_count t' = tk_retry_count t + 1 \<and> tk_doom_retry_count t' = tk_doom_retry_count t \<and>
    images_left (tk_request t') \<le> images_left (tk_request t) \<and>
    (is_doom_loop e \<or> tk_retry_count t + 1 < retry_budget C \<or>
     images_left (tk_request t') = 0 \<and> 0 < images_left (tk_request t))"

lemma failed_with_finish:
  assumes "info_of (wd_errors W) shown = info_of (wd_errors W) result"
    "tk_events t'' = tk_events t" "tk_sent t'' = tk_sent t" "tk_has_sender t'' = tk_has_sender t"
  shows "failed_with W C t (finish_failed (wd_errors W) (rc_request_id C) shown result t'')"
  using assms by (auto simp: failed_with_def finish_failed_def emit_failed_def)

lemma apply_retry_decision_cases:
  "case apply_retry_decision W C n e t of (again, t') \<Rightarrow>
     if again then retries_with W C e t t' else failed_with W C t t'"
proof -
  define t1 where "t1 = (if is_likely_body_rejected e
    then t\<lparr>tk_request := fst (strip_images (tk_request t))\<rparr> else t)"
  have t1: "tk_events t1 = tk_events t" "tk_sent t1 = tk_sent t" "tk_has_sender t1 = tk_has_sender t"
    "tk_retry_count t1 = tk_retry_count t" "tk_doom_retry_count t1 = tk_doom_retry_count t"
    "images_left (tk_request t1) \<le> images_left (tk_request t)"
    by (simp_all add: t1_def)
  define d where "d = classify_error (wd_errors W) (wd_hash W n) e (tk_retry_count t) (retry_budget C)
    (effective_threshold (rc_policy C))"
  have wait: "is_doom_loop e \<or> tk_retry_count t + 1 < retry_budget C" if "wait_of d = Some w" for w
    using classify_waiting that unfolding d_def by blast
  show ?thesis
  proof (cases d)
    case RetryWithImageStrip
    then have "clone_error (wd_errors W) e = e" by (simp add: d_def classify_strip strip_clone)
    moreover obtain r k where s: "strip_images (tk_request t1) = (r, k)" by fastforce
    moreover have "images_left r = 0" "images_left (tk_request t1) = k"
      using s images_left_stripped [of "tk_request t1"] by (simp_all add: images_left_def)
    ultimately show ?thesis using RetryWithImageStrip t1
      by (auto simp: apply_retry_decision_def Let_def retries_with_def simp flip: t1_def d_def
          intro!: failed_with_finish)
  next
    case (RetryWithClientRebuild w)
    with wait t1 show ?thesis
      by (auto simp: apply_retry_decision_def Let_def retries_with_def simp flip: t1_def d_def split: sum.splits)
  qed (use wait t1 in \<open>auto simp: apply_retry_decision_def Let_def retries_with_def failed_with_finish
      simp flip: t1_def d_def\<close>)
qed

section \<open>Every request ends once\<close>

fun answers :: "error_env \<Rightarrow> 'x sampling_event \<Rightarrow> 'x completion \<Rightarrow> bool" where
  "answers E (CompletedEvent _ r m) (Inr (r', m')) \<longleftrightarrow> r = r' \<and> m = m'"
| "answers E (FailedEvent _ i) (Inl e) \<longleftrightarrow>
     i = info_of E e \<or> i = cancelled_info \<and> e = AuthError (lit ''request cancelled'')"
| "answers E _ _ \<longleftrightarrow> False"

fun is_retry_event :: "'x sampling_event \<Rightarrow> bool" where
  "is_retry_event (Retrying _ _ _ _ _ _ _) = True"
| "is_retry_event _ = False"

fun is_resample_event :: "'x sampling_event \<Rightarrow> bool" where
  "is_resample_event (Retrying _ _ _ kind _ _ _) \<longleftrightarrow> kind = KindDoomLoopDetected"
| "is_resample_event _ \<longleftrightarrow> False"

definition retries_in :: "'x sampling_event list \<Rightarrow> nat" where
  "retries_in events = length (filter is_retry_event events)"

definition resamples_in :: "'x sampling_event list \<Rightarrow> nat" where
  "resamples_in events = length (filter is_resample_event events)"

lemma counts_append [simp]:
  "retries_in (xs @ ys) = retries_in xs + retries_in ys" "resamples_in (xs @ ys) = resamples_in xs + resamples_in ys"
  by (simp_all add: retries_in_def resamples_in_def)

lemma retry_event_kind [simp]:
  "is_retry_event (retry_event E C a m e)" "is_resample_event (retry_event E C a m e) \<longleftrightarrow> is_doom_loop e"
  by (cases e; simp add: retry_event_def info_of_def is_rate_limited_def Let_def)+

lemma counts_retry_event [simp]:
  "retries_in [retry_event E C a m e] = 1"
  "resamples_in [retry_event E C a m e] = (if is_doom_loop e then 1 else 0)"
  by (simp_all add: retries_in_def resamples_in_def)

text \<open>A response that the check of an attempt lets pass.\<close>

definition accepted :: "doom_loop_policy option \<Rightarrow> 'x conversation_response \<Rightarrow> bool" where
  "accepted doom_check r \<longleftrightarrow>
    cp_stop_reason r \<noteq> Some Length \<and>
    (cp_stop_reason r = Some ContentFilter \<or> response_empty_reason r = None) \<and>
    (case doom_check of Some p \<Rightarrow> confident_triggers p (cp_doom_loop_signals r) = [] | None \<Rightarrow> True)"

lemma accepted_weaken: "accepted p r \<Longrightarrow> accepted None r"
  by (simp add: accepted_def)

lemma completed_outcome_accepted:
  "completed_outcome p response metrics = AttemptCompleted r m \<Longrightarrow> accepted p r"
  by (auto simp: completed_outcome_def accepted_def Let_def split: if_splits option.splits)

lemma drive_l2_accepted:
  "snd (drive_l2 E p c items) = AttemptCompleted r m \<Longrightarrow> accepted p r"
  by (induction c items rule: drive_l2_induct [where E = E])
    (simp_all add: drive_l2_forward Let_def completed_outcome_accepted)

definition responses_only :: "('c, 'x) world \<Rightarrow> bool" where
  "responses_only W \<longleftrightarrow> (\<forall>c. wd_backend W c = Responses)"

lemma run_one_attempt_accepted:
  assumes "snd (run_one_attempt W client request n p) = AttemptCompleted r m"
  shows "accepted None r \<and> (responses_only W \<longrightarrow> accepted p r)"
  using assms
  by (auto simp: run_one_attempt_def responses_only_def split: sum.splits api_backend.splits
      dest!: drive_l2_accepted intro: accepted_weaken)

text \<open>What holds of the task between two rounds, and of its answer.\<close>

definition between_rounds :: "bool \<Rightarrow> ('c, 'x) task \<Rightarrow> bool" where
  "between_rounds sender t \<longleftrightarrow>
    (\<forall>e \<in> set (tk_events t). \<not> terminal e) \<and> tk_sent t = [] \<and> tk_has_sender t = sender \<and>
    tk_doom_retry_count t \<le> resamples_in (tk_events t) \<and>
    tk_retry_count t + tk_doom_retry_count t \<le> retries_in (tk_events t)"

definition fair_answer :: "('c, 'x) world \<Rightarrow> request_config \<Rightarrow> 'x sampling_event list \<Rightarrow> 'x sampling_event \<Rightarrow> bool" where
  "fair_answer W C events final \<longleftrightarrow>
    (case final of
       CompletedEvent _ r m \<Rightarrow>
         accepted None r \<and> ls_attempts m \<le> retries_in events + 1 \<and>
         (responses_only W \<longrightarrow> resamples_in events < doom_budget C \<longrightarrow> accepted (rc_doom_policy C) r)
     | _ \<Rightarrow> True)"

definition well_ended ::
  "('c, 'x) world \<Rightarrow> request_config \<Rightarrow> bool \<Rightarrow> 'x sampling_event list \<Rightarrow> 'x completion list \<Rightarrow> bool" where
  "well_ended W C sender events sent \<longleftrightarrow>
    (\<exists>before final answer.
      events = before @ [final] \<and> terminal final \<and> (\<forall>e \<in> set before. \<not> terminal e) \<and>
      sent = (if sender then [answer] else []) \<and> answers (wd_errors W) final answer \<and>
      fair_answer W C before final)"

lemma failed_ends:
  assumes "between_rounds sender t" "failed_with W C (t\<lparr>tk_events := tk_events t @ events\<rparr>) t'"
    and "\<forall>e \<in> set events. \<not> terminal e"
  shows "well_ended W C sender (tk_events t') (tk_sent t')"
proof -
  from assms(2) obtain e where
    "tk_events t' = (tk_events t @ events) @ [FailedEvent (rc_request_id C) (info_of (wd_errors W) e)]"
    "tk_sent t' = tk_sent t @ (if tk_has_sender t then [Inl e] else [])"
    by (auto simp: failed_with_def)
  with assms(1,3) show ?thesis unfolding well_ended_def
    by (intro exI [of _ "tk_events t @ events"] exI [of _ "FailedEvent (rc_request_id C) (info_of (wd_errors W) e)"]
        exI [of _ "Inl e"]) (auto simp: between_rounds_def fair_answer_def)
qed

lemma cancelled_ends:
  assumes "between_rounds sender t" "\<forall>e \<in> set events. \<not> terminal e"
  shows "well_ended W C sender
    (tk_events (handle_cancellation (rc_request_id C) (t\<lparr>tk_events := tk_events t @ events\<rparr>)))
    (tk_sent (handle_cancellation (rc_request_id C) (t\<lparr>tk_events := tk_events t @ events\<rparr>)))"
  using assms unfolding well_ended_def
  by (intro exI [of _ "tk_events t @ events"] exI [of _ "FailedEvent (rc_request_id C) cancelled_info"]
      exI [of _ "Inl (AuthError (lit ''request cancelled''))"])
    (auto simp: between_rounds_def fair_answer_def handle_cancellation_def)

lemma completed_ends:
  assumes "between_rounds sender t" "\<forall>e \<in> set events. \<not> terminal e"
    and "accepted None r" "responses_only W \<longrightarrow> accepted (doom_check_of C t) r"
  shows "well_ended W C sender
    (tk_events (complete C r m (t\<lparr>tk_events := tk_events t @ events\<rparr>)))
    (tk_sent (complete C r m (t\<lparr>tk_events := tk_events t @ events\<rparr>)))"
proof -
  define m' where "m' = m\<lparr>ls_attempts := tk_retry_count t + tk_doom_retry_count t + 1\<rparr>"
  have "fair_answer W C (tk_events t @ events) (CompletedEvent (rc_request_id C) r m')"
    using assms(1,3,4) by (auto simp: fair_answer_def between_rounds_def m'_def doom_check_of_def)
  with assms(1,2) show ?thesis unfolding well_ended_def
    by (intro exI [of _ "tk_events t @ events"] exI [of _ "CompletedEvent (rc_request_id C) r m'"]
        exI [of _ "Inr (r, m')"]) (auto simp: between_rounds_def complete_def Let_def m'_def)
qed

lemma retry_goes_on:
  assumes "between_rounds sender t" "\<forall>e \<in> set events. \<not> terminal e"
    and "retries_with W C e (t\<lparr>tk_events := tk_events t @ events\<rparr>) t'"
  shows "between_rounds sender t'"
  using assms by (auto simp: between_rounds_def retries_with_def)

lemma request_round_cases:
  assumes "between_rounds sender t"
  shows "case request_round W C n t of (again, t') \<Rightarrow>
    if again then between_rounds sender t' else well_ended W C sender (tk_events t') (tk_sent t')"
proof (cases "wd_cancelled W n")
  case True
  with cancelled_ends [OF assms, of "[]" W C] show ?thesis by (simp add: request_round_def)
next
  case False
  obtain events outcome where a: "run_one_attempt W (tk_client t) (tk_request t) n (doom_check_of C t) = (events, outcome)"
    by fastforce
  have f: "\<forall>e \<in> set events. \<not> terminal e"
    using run_one_attempt_forwards [of W "tk_client t" "tk_request t" n "doom_check_of C t"] by (simp add: a)
  define t1 where "t1 = t\<lparr>tk_events := tk_events t @ events\<rparr>"
  have r: "request_round W C n t = after_attempt W C n outcome t1"
    using False by (simp add: request_round_def a t1_def)
  have decide: "case apply_retry_decision W C n e t1 of (again, t') \<Rightarrow>
      if again then between_rounds sender t' else well_ended W C sender (tk_events t') (tk_sent t')" for e
    using apply_retry_decision_cases [of W C e t1 n] retry_goes_on [OF assms f, of W C e]
      failed_ends [OF assms _ f, of W C]
    by (auto simp: t1_def split: prod.splits if_splits)
  show ?thesis
  proof (cases outcome)
    case (AttemptCompleted response metrics)
    have "accepted None response \<and> (responses_only W \<longrightarrow> accepted (doom_check_of C t) response)"
      using run_one_attempt_accepted [of W "tk_client t" "tk_request t" n "doom_check_of C t"]
      by (simp add: a AttemptCompleted)
    with completed_ends [OF assms f, of response W C metrics] show ?thesis
      by (simp add: r after_attempt_def AttemptCompleted t1_def)
  next
    case (AttemptFailed e)
    have "between_rounds sender (resample W C n e t1)" if "is_doom_loop e"
      using that assms f by (auto simp: between_rounds_def t1_def)
    with decide show ?thesis by (simp add: r after_attempt_def AttemptFailed)
  next
    case AttemptCancelled
    with cancelled_ends [OF assms f, of W C] show ?thesis by (simp add: r after_attempt_def t1_def)
  qed (use decide in \<open>simp_all add: r after_attempt_def\<close>)
qed

lemma request_loop_ends:
  assumes "between_rounds sender t" "request_loop W C fuel n t = Some t'"
  shows "well_ended W C sender (tk_events t') (tk_sent t')"
  using assms
proof (induction fuel arbitrary: n t)
  case (Suc fuel)
  obtain again t1 where r: "request_round W C n t = (again, t1)" by fastforce
  with Suc request_round_cases [OF Suc.prems(1), where W = W and C = C and n = n] show ?case by (auto split: if_splits)
qed simp

lemma run_ends:
  assumes "run_request_task W C fuel request sender = Some (events, sent)"
  shows "well_ended W C sender events sent"
proof (cases "wd_client W False")
  case (Inl e)
  with assms show ?thesis unfolding well_ended_def
    by (intro exI [of _ "[]"] exI [of _ "FailedEvent (rc_request_id C) (info_of (wd_errors W) e)"]
        exI [of _ "Inl e"]) (auto simp: run_request_task_def fair_answer_def)
next
  case (Inr client)
  have "between_rounds sender (start_task request client sender)"
    by (simp add: between_rounds_def start_task_def retries_in_def resamples_in_def)
  with Inr assms request_loop_ends show ?thesis by (fastforce simp: run_request_task_def)
qed

section \<open>Every request returns\<close>

text \<open>
  Streams and clients report a loop of the model only through the collector of an attempt that may be
  aborted, as \<open>abort_triggers\<close> does.
\<close>

fun calm_item :: "'x stream_item \<Rightarrow> bool" where
  "calm_item TokenFired = True"
| "calm_item (Yielded errors event) \<longleftrightarrow>
     list_all (\<lambda>e. \<not> is_doom_loop e) errors \<and>
     (case event of FailedEvent _ i \<Rightarrow> si_kind i \<noteq> KindDoomLoopDetected | _ \<Rightarrow> True)"

definition loops_reported_when_armed :: "('c, 'x) world \<Rightarrow> bool" where
  "loops_reported_when_armed W \<longleftrightarrow>
    (\<forall>client request n. case wd_open W client request n of
       Inl e \<Rightarrow> \<not> is_doom_loop e
     | Inr stream \<Rightarrow> list_all calm_item (stream False))"

lemma clone_error_doom [simp]: "is_doom_loop (clone_error E e) \<longleftrightarrow> is_doom_loop e"
  by (cases e) (simp_all add: serialization_message_def)

lemma synthesize_doom: "is_doom_loop (synthesize_from_info E i) \<Longrightarrow> si_kind i = KindDoomLoopDetected"
  by (cases "si_kind i")
    (auto simp: synthesize_from_info_def Let_def serialization_from_rendered_def serialization_message_def
      split: option.splits)

definition calm_cell :: "sampling_error option \<Rightarrow> bool" where
  "calm_cell cell \<longleftrightarrow> (case cell of None \<Rightarrow> True | Some e \<Rightarrow> \<not> is_doom_loop e)"

lemma calm_cell_simps [simp]: "calm_cell None" "calm_cell (Some e) \<longleftrightarrow> \<not> is_doom_loop e"
  by (simp_all add: calm_cell_def)

lemma tee_errors_calm:
  "list_all (\<lambda>e. \<not> is_doom_loop e) errors \<Longrightarrow> calm_cell cell \<Longrightarrow> calm_cell (tee_errors E cell errors)"
proof (induction errors arbitrary: cell)
  case (Cons e errors)
  then show ?case by (cases cell) simp_all
qed simp

lemma completed_outcome_calm:
  "completed_outcome None r m = AttemptFailed e \<Longrightarrow> \<not> is_doom_loop e"
  by (auto simp: completed_outcome_def split: if_splits option.splits)

lemma drive_l2_calm:
  assumes "list_all calm_item items" "calm_cell captured"
    and "snd (drive_l2 E None captured items) = AttemptFailed e"
  shows "\<not> is_doom_loop e"
  using assms
proof (induction captured items rule: drive_l2_induct [where E = E])
  case (Completed c errors rid r m items)
  from Completed(3) have "completed_outcome None r m = AttemptFailed e" by simp
  then show ?case by (rule completed_outcome_calm)
next
  case (Failed c errors rid i items)
  then have cell: "calm_cell (tee_errors E c errors)" by (simp add: tee_errors_calm)
  have e: "e = (case tee_errors E c errors of Some e \<Rightarrow> e | None \<Rightarrow> synthesize_from_info E i)"
    using Failed(3) by simp
  show ?case
  proof (cases "tee_errors E c errors")
    case None
    with e Failed(1) synthesize_doom [of E i] show ?thesis by auto
  qed (use cell e in simp)
next
  case (Other c errors event items)
  then have "calm_cell (tee_errors E c errors)" by (simp add: tee_errors_calm)
  with Other show ?case by (simp add: drive_l2_forward)
qed auto

definition rounds_left :: "request_config \<Rightarrow> ('c, 'x) task \<Rightarrow> nat" where
  "rounds_left C t =
    (retry_budget C - 1 - tk_retry_count t) + (if 0 < images_left (tk_request t) then 1 else 0) +
    (doom_budget C - tk_doom_retry_count t)"

lemma retries_use_rounds:
  assumes "retries_with W C e t t'" "\<not> is_doom_loop e"
  shows "rounds_left C t' < rounds_left C t"
  using assms by (auto simp: retries_with_def rounds_left_def)

lemma run_one_attempt_calm:
  assumes "loops_reported_when_armed W"
    and "snd (run_one_attempt W client request n p) = AttemptFailed e" "is_doom_loop e"
  shows "p \<noteq> None"
proof
  assume p: "p = None"
  from assms(2) p obtain stream where "wd_open W client request n = Inr stream"
    and "snd (drive_l2 (wd_errors W) None None (stream False)) = AttemptFailed e"
    by (auto simp: run_one_attempt_def split: sum.splits api_backend.splits)
  moreover from this(1) assms(1) have "list_all calm_item (stream False)"
    unfolding loops_reported_when_armed_def by (auto dest!: spec [of _ client] spec [of _ request] spec [of _ n])
  ultimately show False using drive_l2_calm [of "stream False" None] assms(3) by simp
qed

lemma run_one_attempt_init:
  assumes "loops_reported_when_armed W" "snd (run_one_attempt W client request n p) = AttemptInitFailed e"
  shows "\<not> is_doom_loop e"
proof -
  have "snd (drive_l2 E q c items) \<noteq> AttemptInitFailed e" for E q c and items :: "'b stream_item list"
    by (induction c items rule: drive_l2_induct [where E = E])
      (simp_all add: drive_l2_forward Let_def completed_outcome_def split: option.split)
  with assms(2) have "wd_open W client request n = Inl e"
    by (auto simp: run_one_attempt_def split: sum.splits api_backend.splits)
  with assms(1) show ?thesis
    unfolding loops_reported_when_armed_def by (auto dest!: spec [of _ client] spec [of _ request] spec [of _ n])
qed

lemma request_round_progress:
  assumes "loops_reported_when_armed W" "request_round W C n t = (True, t')"
  shows "rounds_left C t' < rounds_left C t"
proof -
  obtain events outcome where a: "run_one_attempt W (tk_client t) (tk_request t) n (doom_check_of C t) = (events, outcome)"
    by fastforce
  define t1 where "t1 = t\<lparr>tk_events := tk_events t @ events\<rparr>"
  have left: "rounds_left C t1 = rounds_left C t" by (simp add: t1_def rounds_left_def)
  have r: "after_attempt W C n outcome t1 = (True, t')"
    using assms(2) by (simp add: request_round_def a t1_def split: if_splits)
  have decided: "rounds_left C t' < rounds_left C t"
    if "apply_retry_decision W C n e t1 = (True, t')" "\<not> is_doom_loop e" for e
    using that apply_retry_decision_cases [of W C e t1 n] retries_use_rounds [of W C e t1 t'] left by simp
  show ?thesis
  proof (cases outcome)
    case (AttemptFailed e)
    show ?thesis
    proof (cases "is_doom_loop e")
      case True
      with run_one_attempt_calm [OF assms(1), of "tk_client t" "tk_request t" n "doom_check_of C t" e]
      have "doom_check_of C t \<noteq> None" by (simp add: a AttemptFailed)
      then have "tk_doom_retry_count t < doom_budget C" by (simp add: doom_check_of_def split: if_splits)
      with r True show ?thesis by (auto simp: after_attempt_def AttemptFailed rounds_left_def t1_def)
    qed (use r decided in \<open>simp add: after_attempt_def AttemptFailed\<close>)
  next
    case (AttemptInitFailed e)
    with run_one_attempt_init [OF assms(1), of "tk_client t" "tk_request t" n "doom_check_of C t" e]
    show ?thesis using r decided by (simp add: a after_attempt_def)
  qed (use r decided in \<open>auto simp: after_attempt_def\<close>)
qed

lemma request_loop_returns:
  assumes "loops_reported_when_armed W" "rounds_left C t < fuel"
  shows "\<exists>t'. request_loop W C fuel n t = Some t'"
  using assms(2)
proof (induction fuel arbitrary: n t)
  case (Suc fuel)
  obtain again t1 where r: "request_round W C n t = (again, t1)" by fastforce
  show ?case
  proof (cases again)
    case True
    with r request_round_progress [OF assms(1), of C n t t1] Suc.prems have "rounds_left C t1 < fuel" by simp
    from Suc.IH [OF this] r True show ?thesis by simp
  qed (use r in simp)
qed simp

section \<open>Errors seen through their mirror\<close>

lemma parse_digits_snoc:
  "parse_digits acc (xs @ [c]) =
     (case parse_digits acc xs of None \<Rightarrow> None
      | Some n \<Rightarrow> if is_ascii_digit c then Some (n * 10 + (c - 48)) else None)"
  by (induction acc xs rule: parse_digits.induct) auto

lemma parse_digits_nat_to_str: "parse_digits 0 (nat_to_str n) = Some n"
proof (induction n rule: nat_to_str.induct)
  case (1 n)
  show ?case
  proof (cases "n < 10")
    case True
    then show ?thesis by (simp add: nat_to_str.simps [of n] is_ascii_digit_def)
  next
    case False
    then have "nat_to_str n = nat_to_str (n div 10) @ [48 + n mod 10]" by (simp add: nat_to_str.simps [of n])
    moreover have "n mod 10 < 10" by simp
    ultimately show ?thesis using 1 False by (simp add: parse_digits_snoc is_ascii_digit_def)
  qed
qed

lemma parse_unsigned_nat_to_str: "n < limit \<Longrightarrow> parse_unsigned limit (nat_to_str n) = Some n"
proof -
  assume n: "n < limit"
  obtain c r where cr: "nat_to_str n = c # r" by (cases "nat_to_str n") auto
  then have "c \<noteq> 43" using nat_to_str_digits [of c n] by simp
  with n cr parse_digits_nat_to_str [of n] show ?thesis by (simp add: parse_unsigned_def)
qed

lemma split_whitespace_word:
  assumes "\<forall>c \<in> set w. \<not> is_whitespace c" "w \<noteq> []"
  shows "split_whitespace (w @ 32 # r) = w # split_whitespace r"
proof -
  have "split_whitespace_from tok (w @ 32 # r) = (rev tok @ w) # split_whitespace_from [] r"
    if "rev tok @ w \<noteq> []" for tok
    using assms(1) that by (induction w arbitrary: tok) (auto simp: is_whitespace_def)
  from this [of "[]"] assms(2) show ?thesis by (simp add: split_whitespace_def)
qed

lemma find_seconds_idle:
  assumes "secs < 2 ^ 64"
  shows "find_seconds (split_whitespace (error_text E (IdleTimeout secs))) = Some secs"
proof -
  let ?sec = "nat_to_str secs @ lit ''s''"
  have rendered: "error_text E (IdleTimeout secs) =
      lit ''inference'' @ 32 # lit ''idle'' @ 32 # lit ''timeout'' @ 32 # lit ''after'' @ 32 # ?sec @ 32 # lit ''with no chunks''"
    by (simp add: lit_def)
  have sec: "\<forall>c \<in> set ?sec. \<not> is_whitespace c"
    using nat_to_str_digits [of _ secs] by (fastforce simp: lit_def is_whitespace_def)
  have words: "\<forall>c \<in> set (lit ''inference''). \<not> is_whitespace c" "\<forall>c \<in> set (lit ''idle''). \<not> is_whitespace c"
      "\<forall>c \<in> set (lit ''timeout''). \<not> is_whitespace c" "\<forall>c \<in> set (lit ''after''). \<not> is_whitespace c"
    by (simp_all add: lit_def is_whitespace_def)
  have split: "split_whitespace (error_text E (IdleTimeout secs)) =
      [lit ''inference'', lit ''idle'', lit ''timeout'', lit ''after'', ?sec] @ split_whitespace (lit ''with no chunks'')"
    unfolding rendered
    by (subst split_whitespace_word [OF words(1)], simp, subst split_whitespace_word [OF words(2)], simp,
        subst split_whitespace_word [OF words(3)], simp, subst split_whitespace_word [OF words(4)], simp,
        subst split_whitespace_word [OF sec], simp, simp)
  have no: "\<not> ends_with (lit w) (lit ''s'')" if "w \<in> {''inference'', ''idle'', ''timeout'', ''after''}" for w
    using that by (auto simp: ends_with_def starts_with_def lit_def)
  have "ends_with ?sec (lit ''s'')" "butlast ?sec = nat_to_str secs"
    by (simp_all add: ends_with_def starts_with_def lit_def butlast_append)
  then show ?thesis using parse_unsigned_nat_to_str [OF assms] unfolding split by (simp add: no)
qed

text \<open>The errors that their mirror describes completely.\<close>

fun mirrored :: "sampling_error \<Rightarrow> bool" where
  "mirrored (InvalidConfiguration _) = False"
| "mirrored (HttpError _) = False"
| "mirrored (EventStreamError _) = False"
| "mirrored (StreamError _ _) = False"
| "mirrored (ApiError _ _ _ _ _) = False"
| "mirrored (IdleTimeout secs) = (secs < 2 ^ 64)"
| "mirrored _ = True"

definition status_valid :: "sampling_error \<Rightarrow> bool" where
  "status_valid e \<longleftrightarrow> (case api_status e of Some s \<Rightarrow> 100 \<le> s \<and> s < 1000 | None \<Rightarrow> True)"

lemma info_of_simps [simp]:
  "si_kind (info_of E e) = fst (kind_and_details e)" "si_message (info_of E e) = error_text E e"
  "si_status_code (info_of E e) = fst (snd (kind_and_details e))"
  "si_retry_after_secs (info_of E e) = fst (snd (snd (kind_and_details e)))"
  "si_model_metadata (info_of E e) = snd (snd (snd (kind_and_details e)))"
  "si_empty_response_context (info_of E e) = (case e of EmptyResponse c \<Rightarrow> Some c | _ \<Rightarrow> None)"
  "si_doom_loop_triggers (info_of E e) = (case e of DoomLoopDetected ts _ \<Rightarrow> Some ts | _ \<Rightarrow> None)"
  "si_doom_loop_aborted_at_chunk (info_of E e) = (case e of DoomLoopDetected _ c \<Rightarrow> c | _ \<Rightarrow> None)"
  by (simp_all add: info_of_def Let_def split: prod.split sampling_error.split)

lemma mirrored_synthesized:
  assumes "mirrored e"
  shows "synthesize_from_info E (info_of E e) = clone_error E e"
proof (cases e)
  case (IdleTimeout secs)
  with assms find_seconds_idle [of secs E] show ?thesis
    by (simp add: synthesize_from_info_def Let_def del: error_text.simps)
qed (use assms in \<open>simp_all add: synthesize_from_info_def Let_def serialization_from_rendered_def\<close>)

lemma synthesized_retryable:
  assumes "status_valid e" "\<forall>m. e \<noteq> InvalidConfiguration m"
  shows "is_retryable (synthesize_from_info E (info_of E e)) \<longleftrightarrow> is_retryable (clone_error E e)"
  using assms
  by (cases e) (simp_all add: synthesize_from_info_def Let_def status_of_code_def status_valid_def api_status_def
      serialization_from_rendered_def serialization_message_def)

lemma synthesized_api:
  assumes "e = ApiError status m md secs hint" "status_valid e"
  shows "synthesize_from_info E (info_of E e) = ApiError status (error_text E e) md secs None"
  using assms by (simp add: synthesize_from_info_def Let_def status_of_code_def status_valid_def api_status_def
      del: error_text.simps)

text \<open>A rebuilt API error renders its prefix twice.\<close>

theorem rebuilt_api_error_text:
  assumes "100 \<le> status" "status < 1000"
  shows "error_text E (synthesize_from_info E (info_of E (ApiError status m md secs hint)))
    = lit ''API error (status '' @ ee_status_text E status @ lit ''): '' @
      error_text E (ApiError status m md secs hint)"
  using synthesized_api [of "ApiError status m md secs hint" status m md secs hint E] assms
  by (simp add: status_valid_def api_status_def)

text \<open>A failure that the loop sees only as the information of a failure event is taken for the same
  error as the one its raw stream would have shown, for every error whose information is complete; an
  API error keeps its status, its metadata and its waiting time, but its message is rendered once more;
  for every error other than an invalid configuration at least the question whether it may be
  retried has the same answer.
\<close>

theorem error_info_survives:
  "(mirrored e \<longrightarrow> synthesize_from_info E (info_of E e) = clone_error E e) \<and>
   (\<forall>status m md secs hint. e = ApiError status m md secs hint \<and> status_valid e \<longrightarrow>
     synthesize_from_info E (info_of E e) = ApiError status (error_text E e) md secs None) \<and>
   (status_valid e \<and> (\<forall>m. e \<noteq> InvalidConfiguration m) \<longrightarrow>
     (is_retryable (synthesize_from_info E (info_of E e)) \<longleftrightarrow> is_retryable (clone_error E e)))"
  using mirrored_synthesized [of e E] synthesized_retryable [of e E] synthesized_api [of e] by auto

section \<open>What a request promises\<close>

text \<open>C28: A request sends exactly one terminal event, as its last, and one answer to a caller that
  waits for it; the two agree: the same response with the same statistics, or the information of the
  same error, or a cancellation.
\<close>

theorem requests_end_once:
  assumes "run_request_task W C fuel request sender = Some (events, sent)"
  shows "\<exists>before final answer. events = before @ [final] \<and> terminal final \<and>
    (\<forall>e \<in> set before. \<not> terminal e) \<and> sent = (if sender then [answer] else []) \<and>
    answers (wd_errors W) final answer"
  using run_ends [OF assms] unfolding well_ended_def by blast

text \<open>C29: A response that completes a request was not cut off at the token limit and is not empty,
  unless its content was filtered; it counts no more attempts than there were retries and one; and with
  the Responses API it carries no confident sign of a loop while resamples are left.
\<close>

theorem completed_responses_are_accepted:
  assumes "run_request_task W C fuel request sender = Some (events, sent)"
    and "CompletedEvent rid r m \<in> set events"
  shows "cp_stop_reason r \<noteq> Some Length \<and>
    (cp_stop_reason r = Some ContentFilter \<or> response_empty_reason r = None) \<and>
    ls_attempts m \<le> retries_in events + 1 \<and>
    (responses_only W \<longrightarrow> resamples_in events < doom_budget C \<longrightarrow> accepted (rc_doom_policy C) r)"
proof -
  from run_ends [OF assms(1)] obtain before final where e: "events = before @ [final]"
    and b: "\<forall>e \<in> set before. \<not> terminal e" and f: "fair_answer W C before final"
    unfolding well_ended_def by blast
  from assms(2) b have "final = CompletedEvent rid r m" by (auto simp: e)
  with f show ?thesis by (auto simp: e fair_answer_def accepted_def retries_in_def resamples_in_def)
qed

text \<open>C27: Every request returns, after at most one attempt more than its retries, its resamples and
  one removal of images, when loops of the model are reported only while an attempt may be aborted.
\<close>

theorem requests_return:
  assumes "loops_reported_when_armed W" "retry_budget C - 1 + doom_budget C + 2 \<le> fuel"
  shows "\<exists>events sent. run_request_task W C fuel request sender = Some (events, sent)"
proof (cases "wd_client W False")
  case (Inr client)
  have "rounds_left C (start_task request client sender) < fuel"
    using assms(2) by (simp add: rounds_left_def start_task_def)
  from request_loop_returns [OF assms(1) this, of 0] Inr show ?thesis by (auto simp: run_request_task_def)
qed (simp add: run_request_task_def)

text \<open>Removing images spends a retry of the budget, and a cancelled request is answered like a rejected key.\<close>

theorem image_strip_spends_budget:
  assumes "wants_image_strip e" "fst (apply_retry_decision W C n e t)"
  shows "tk_retry_count (snd (apply_retry_decision W C n e t)) = tk_retry_count t + 1"
  using assms(2) apply_retry_decision_cases [of W C e t n]
  by (auto simp: retries_with_def split: prod.splits)

theorem cancellation_is_an_auth_error:
  assumes "tk_has_sender t"
  shows "\<exists>e. tk_sent (handle_cancellation rid t) = tk_sent t @ [Inl e] \<and> is_auth_error e"
  using assms by (simp add: handle_cancellation_def is_auth_error_def)

section \<open>Concrete instances\<close>

definition plain_errors :: error_env where
  "plain_errors =
    \<lparr>ee_custom = (\<lambda>m. \<lparr>je_line = 0, je_column = 0, je_display = m\<rparr>), ee_status_text = nat_to_str,
     ee_standard = (\<lambda>_. None), ee_flat = (\<lambda>_. None)\<rparr>"

definition sample_completion :: "unit conversation_response" where
  "sample_completion =
    \<lparr>cp_items = [AssistantItem \<lparr>as_content = lit ''hello'', as_tool_calls = [], as_model_id = None, as_rest = ()\<rparr>],
     cp_stop_reason = Some Stop, cp_usage = None, cp_cost_usd_ticks = None, cp_message_chunks_emitted = 1,
     cp_doom_loop_signals = [], cp_stop_message = None\<rparr>"

definition sample_stats :: latency_stats where
  "sample_stats =
    \<lparr>ls_time_to_first_token_ms = None, ls_time_to_last_byte_ms = 7, ls_chunk_count = 1,
     ls_itl_intervals_ms = [], ls_itl_p50_ms = None, ls_itl_p99_ms = None, ls_itl_max_ms = None,
     ls_itl_mean_ms = None, ls_attempts = 0\<rparr>"

text \<open>The first attempt cannot connect, the second one is answered.\<close>

definition flaky_world :: "(unit, unit) world" where
  "flaky_world =
    \<lparr>wd_errors = plain_errors, wd_client = (\<lambda>_. Inr ()), wd_backend = (\<lambda>_. Responses),
     wd_open = (\<lambda>_ _ n. if n = 0 then Inl (EventStreamError (lit ''reset''))
       else Inr (\<lambda>_. [Yielded [] (FirstToken []), Yielded [] (CompletedEvent [] sample_completion sample_stats)])),
     wd_cancelled = (\<lambda>_. False), wd_hash = (\<lambda>_. 0)\<rparr>"

definition sample_config :: request_config where
  "sample_config =
    \<lparr>rc_request_id = lit ''r'', rc_env_override = None, rc_config_max_retries = None,
     rc_policy = default_retry_policy, rc_doom_policy = Some default_doom_policy\<rparr>"

definition sample_request :: "unit conversation_request" where
  "sample_request = \<lparr>cr_items = [], cr_model = None, cr_rest = ()\<rparr>"

lemma sample_config_budget [simp]:
  "retry_budget sample_config = 15" "doom_budget sample_config = 2" "rc_request_id sample_config = lit ''r''"
  "rc_policy sample_config = default_retry_policy" "rc_doom_policy sample_config = Some default_doom_policy"
  by (simp_all add: sample_config_def retry_budget_def resolve_max_retries_def default_retry_policy_def
      default_max_retries_def doom_budget_def default_doom_policy_def)

lemma flaky_world_simps [simp]:
  "wd_errors flaky_world = plain_errors" "wd_client flaky_world b = Inr ()" "wd_backend flaky_world c = Responses"
  "wd_open flaky_world c r n = (if n = 0 then Inl (EventStreamError (lit ''reset''))
     else Inr (\<lambda>_. [Yielded [] (FirstToken []), Yielded [] (CompletedEvent [] sample_completion sample_stats)]))"
  "\<not> wd_cancelled flaky_world n" "wd_hash flaky_world n = 0"
  by (simp_all add: flaky_world_def)

lemma sample_outcome:
  "completed_outcome (Some default_doom_policy) sample_completion sample_stats = AttemptCompleted sample_completion sample_stats"
  by (simp add: completed_outcome_def sample_completion_def confident_triggers_def response_empty_reason_def
      response_assistant_def)

lemma reset_decision:
  "classify_error plain_errors 0 (EventStreamError m) 0 15 (effective_threshold default_retry_policy)
     = RetryWithClientRebuild 1600"
  by (simp add: classify_error_def is_auth_error_def api_status_def is_encrypted_content_error_def
      is_payload_too_large_def is_image_processing_error_def should_retry_header_def is_context_length_error_def
      is_rate_limited_def backoff_for_def retry_after_def retry_backoff_with_jitter_def retry_base_ms_def
      checked_shl_u64_def)

lemma flaky_run:
  "\<exists>events. run_request_task flaky_world sample_config 3 sample_request True =
     Some (events @ [CompletedEvent (lit ''r'') sample_completion (sample_stats\<lparr>ls_attempts := 2\<rparr>)],
           [Inr (sample_completion, sample_stats\<lparr>ls_attempts := 2\<rparr>)])"
  by (simp add: run_request_task_def numeral_3_eq_3 request_round_def run_one_attempt_def start_task_def
      doom_check_of_def after_attempt_def apply_retry_decision_def reset_decision is_likely_body_rejected_def
      drive_l2_forward sample_outcome complete_def emit_def send_completion_def numeral_2_eq_2 Let_def)

lemma error_info_survives_witness:
  "synthesize_from_info plain_errors (info_of plain_errors (IdleTimeout 300)) = IdleTimeout 300 \<and>
   synthesize_from_info plain_errors (info_of plain_errors (ApiError 500 [] None (Some 7) None))
     = ApiError 500 (error_text plain_errors (ApiError 500 [] None (Some 7) None)) None (Some 7) None"
  using error_info_survives [of "IdleTimeout 300" plain_errors]
    error_info_survives [of "ApiError 500 [] None (Some 7) None" plain_errors]
  by (simp add: status_valid_def api_status_def)

lemma requests_end_once_witness:
  "\<exists>events sent before final answer.
     run_request_task flaky_world sample_config 3 sample_request True = Some (events, sent) \<and>
     events = before @ [final] \<and> terminal final \<and> sent = [answer] \<and> answers plain_errors final answer"
proof -
  from flaky_run obtain events where r: "run_request_task flaky_world sample_config 3 sample_request True =
     Some (events @ [CompletedEvent (lit ''r'') sample_completion (sample_stats\<lparr>ls_attempts := 2\<rparr>)],
           [Inr (sample_completion, sample_stats\<lparr>ls_attempts := 2\<rparr>)])" by blast
  from requests_end_once [OF this] r show ?thesis by (simp only: if_True flaky_world_simps) blast
qed

lemma completed_responses_are_accepted_witness:
  "response_empty_reason sample_completion = None \<and> cp_stop_reason sample_completion = Some Stop \<and>
   (\<exists>events sent. run_request_task flaky_world sample_config 3 sample_request True = Some (events, sent) \<and>
      2 \<le> retries_in events + 1)"
proof -
  from flaky_run obtain events where r: "run_request_task flaky_world sample_config 3 sample_request True =
     Some (events @ [CompletedEvent (lit ''r'') sample_completion (sample_stats\<lparr>ls_attempts := 2\<rparr>)],
           [Inr (sample_completion, sample_stats\<lparr>ls_attempts := 2\<rparr>)])" by blast
  have "CompletedEvent (lit ''r'') sample_completion (sample_stats\<lparr>ls_attempts := 2\<rparr>) \<in>
    set (events @ [CompletedEvent (lit ''r'') sample_completion (sample_stats\<lparr>ls_attempts := 2\<rparr>)])" by simp
  from completed_responses_are_accepted [OF r this] r show ?thesis
    by (auto simp: sample_completion_def)
qed

lemma requests_return_witness:
  "\<exists>events sent. run_request_task flaky_world sample_config 18 sample_request True = Some (events, sent)"
  by (rule requests_return) (simp_all add: loops_reported_when_armed_def)

end
