(* ===== verification/Sampler_Actor.thy ===== *)
theory Sampler_Actor
  imports Turn_Submission Sampling_Requests "HOL-Library.AList"
begin

text \<open>
  \<open>actor/mod.rs\<close>, \<open>actor/state.rs\<close>, \<open>commands.rs\<close>, \<open>handle.rs\<close> and
  \<open>stream/collect.rs\<close> of \<open>xai-grok-sampler\<close>: the actor that owns the requests in flight,
  the queue of commands through which its handles reach it, and the buffered reader of events. Tasks
  are numbered in the order in which they are spawned; the number also stands for the cancellation
  token of the task.
\<close>

section \<open>State and commands\<close>

datatype 'x sampler_command =
    Submit rstr "'x conversation_request" "sampler_config option" bool bool
  | CancelRequest rstr
  | UpdateConfig sampler_config
  | IsActive rstr
  | ActiveCount

datatype sampler_reply = NoReply | ActiveReply bool | CountReply nat

record 'x spawned_task =
  st_request_id :: rstr
  st_request :: "'x conversation_request"
  st_config :: sampler_config
  st_policy :: sampler_retry_policy
  st_broadcast :: bool
  st_has_completion :: bool

record 'x actor =
  ac_queue :: "'x sampler_command list"
  ac_active :: "(rstr \<times> nat) list"
  ac_config :: sampler_config
  ac_policy :: sampler_retry_policy
  ac_spawned :: "'x spawned_task list"
  ac_running :: "nat list"
  ac_cancelled :: "nat list"
  ac_closed :: bool

definition actor_spawn :: "sampler_config \<Rightarrow> sampler_retry_policy \<Rightarrow> 'x actor" where
  "actor_spawn config policy =
    \<lparr>ac_queue = [], ac_active = [], ac_config = config, ac_policy = policy, ac_spawned = [],
     ac_running = [], ac_cancelled = [], ac_closed = False\<rparr>"

definition cancel_token :: "nat \<Rightarrow> 'x actor \<Rightarrow> 'x actor" where
  "cancel_token n a = a\<lparr>ac_cancelled := n # ac_cancelled a\<rparr>"

definition register :: "rstr \<Rightarrow> nat \<Rightarrow> 'x actor \<Rightarrow> nat option \<times> 'x actor" where
  "register rid n a = (map_of (ac_active a) rid, a\<lparr>ac_active := AList.update rid n (ac_active a)\<rparr>)"

definition remove_request :: "rstr \<Rightarrow> 'x actor \<Rightarrow> 'x actor" where
  "remove_request rid a = a\<lparr>ac_active := AList.delete rid (ac_active a)\<rparr>"

definition cancel_request :: "rstr \<Rightarrow> 'x actor \<Rightarrow> bool \<times> 'x actor" where
  "cancel_request rid a =
    (case map_of (ac_active a) rid of
       Some n \<Rightarrow> (True, cancel_token n (remove_request rid a))
     | None \<Rightarrow> (False, a))"

definition handle_command :: "'x sampler_command \<Rightarrow> 'x actor \<Rightarrow> sampler_reply \<times> 'x actor" where
  "handle_command cmd a =
    (case cmd of
       Submit rid request config broadcast has_completion \<Rightarrow>
         (let n = length (ac_spawned a);
              (prev, a) = register rid n a;
              a = (case prev of Some p \<Rightarrow> cancel_token p a | None \<Rightarrow> a);
              effective = (case config of Some c \<Rightarrow> c | None \<Rightarrow> ac_config a) in
          (NoReply, a\<lparr>ac_spawned := ac_spawned a @
              [\<lparr>st_request_id = rid, st_request = request, st_config = effective, st_policy = ac_policy a,
                st_broadcast = broadcast, st_has_completion = has_completion\<rparr>],
            ac_running := ac_running a @ [n]\<rparr>))
     | CancelRequest rid \<Rightarrow> (NoReply, snd (cancel_request rid a))
     | UpdateConfig config \<Rightarrow> (NoReply, a\<lparr>ac_config := config\<rparr>)
     | IsActive rid \<Rightarrow> (ActiveReply (map_of (ac_active a) rid \<noteq> None), a)
     | ActiveCount \<Rightarrow> (CountReply (length (ac_active a)), a))"

text \<open>A joined task: one that ended hands back its request id, one that panicked does not.\<close>

definition task_joined :: "nat \<Rightarrow> bool \<Rightarrow> 'x actor \<Rightarrow> 'x actor" where
  "task_joined n panicked a =
    (let a = a\<lparr>ac_running := removeAll n (ac_running a)\<rparr> in
     if panicked then a else remove_request (st_request_id (ac_spawned a ! n)) a)"

text \<open>The end of the loop, when all handles are gone: the tokens fire and the tasks are shut down.\<close>

definition actor_stop :: "'x actor \<Rightarrow> 'x actor" where
  "actor_stop a =
    a\<lparr>ac_cancelled := map snd (ac_active a) @ ac_cancelled a, ac_active := [], ac_running := [], ac_closed := True\<rparr>"

inductive actor_step :: "'x actor \<Rightarrow> 'x actor \<Rightarrow> bool" where
  actor_send: "\<not> ac_closed a \<Longrightarrow> actor_step a (a\<lparr>ac_queue := ac_queue a @ [cmd]\<rparr>)"
| actor_handle: "\<not> ac_closed a \<Longrightarrow> ac_queue a = cmd # q \<Longrightarrow>
    actor_step a (snd (handle_command cmd (a\<lparr>ac_queue := q\<rparr>)))"
| actor_joined: "\<not> ac_closed a \<Longrightarrow> n \<in> set (ac_running a) \<Longrightarrow> actor_step a (task_joined n panicked a)"
| actor_stopped: "\<not> ac_closed a \<Longrightarrow> ac_queue a = [] \<Longrightarrow> actor_step a (actor_stop a)"

inductive actor_reaches :: "sampler_config \<Rightarrow> sampler_retry_policy \<Rightarrow> 'x actor \<Rightarrow> bool" for config policy where
  actor_start: "actor_reaches config policy (actor_spawn config policy)"
| actor_next: "actor_reaches config policy a \<Longrightarrow> actor_step a b \<Longrightarrow> actor_reaches config policy b"

section \<open>Handles\<close>

text \<open>Sending a command fails when the receiver is gone.\<close>

definition send_command :: "'x sampler_command \<Rightarrow> 'x actor \<Rightarrow> bool \<times> 'x actor" where
  "send_command cmd a = (if ac_closed a then (False, a) else (True, a\<lparr>ac_queue := ac_queue a @ [cmd]\<rparr>))"

definition handle_submit :: "rstr \<Rightarrow> 'x conversation_request \<Rightarrow> 'x actor \<Rightarrow> 'x actor" where
  "handle_submit rid request a = snd (send_command (Submit rid request None True False) a)"

definition handle_submit_with_config ::
  "rstr \<Rightarrow> 'x conversation_request \<Rightarrow> sampler_config \<Rightarrow> 'x actor \<Rightarrow> 'x actor" where
  "handle_submit_with_config rid request config a =
    snd (send_command (Submit rid request (Some config) True False) a)"

definition begin_submit_inner ::
  "rstr \<Rightarrow> 'x conversation_request \<Rightarrow> sampler_config option \<Rightarrow> bool \<Rightarrow> 'x actor \<Rightarrow>
     (sampling_error + rstr) \<times> 'x actor" where
  "begin_submit_inner rid request config broadcast a =
    (case send_command (Submit rid request config broadcast True) a of
       (False, a) \<Rightarrow> (Inl (AuthError (lit ''sampler actor dropped before submission'')), a)
     | (True, a) \<Rightarrow> (Inr rid, a))"

definition begin_submit_and_collect ::
  "rstr \<Rightarrow> 'x conversation_request \<Rightarrow> 'x actor \<Rightarrow> (sampling_error + rstr) \<times> 'x actor" where
  "begin_submit_and_collect rid request a = begin_submit_inner rid request None True a"

definition begin_submit_and_collect_with_config ::
  "rstr \<Rightarrow> 'x conversation_request \<Rightarrow> sampler_config \<Rightarrow> 'x actor \<Rightarrow> (sampling_error + rstr) \<times> 'x actor" where
  "begin_submit_and_collect_with_config rid request config a =
    begin_submit_inner rid (request\<lparr>cr_model := Some (sc_model config)\<rparr>) (Some config) True a"

definition begin_side_query ::
  "rstr \<Rightarrow> 'x conversation_request \<Rightarrow> sampler_config \<Rightarrow> 'x actor \<Rightarrow> (sampling_error + rstr) \<times> 'x actor" where
  "begin_side_query rid request config a =
    begin_submit_inner rid (request\<lparr>cr_model := Some (sc_model config)\<rparr>) (Some config) False a"

text \<open>A pending request is dropped when it was collected or given up, and either way cancels its id.\<close>

definition pending_drop :: "rstr \<Rightarrow> 'x actor \<Rightarrow> 'x actor" where
  "pending_drop rid a = snd (send_command (CancelRequest rid) a)"

definition pending_collect :: "'x completion option \<Rightarrow> 'x completion" where
  "pending_collect sent =
    (case sent of Some r \<Rightarrow> r | None \<Rightarrow> Inl (AuthError (lit ''sampler actor dropped before completion'')))"

text \<open>The submit function of a product turn: its world is the actor.\<close>

definition submit_turn :: "rstr \<Rightarrow> 'x conversation_request \<Rightarrow> ('x actor, rstr) submit_fn" where
  "submit_turn rid request config st =
    (let (r, a) = begin_submit_and_collect_with_config rid request config (fst st) in
     (map_err (\<lambda>_. Bail ''sampler actor dropped before submission'') r, a, snd st))"

text \<open>The buffered reader of events.\<close>

definition truncated_info :: error_info where
  "truncated_info = cancelled_info\<lparr>si_message := lit ''stream ended without Completed or Failed''\<rparr>"

fun collect_response :: "'x sampling_event list \<Rightarrow> error_info + 'x conversation_response \<times> latency_stats" where
  "collect_response [] = Inl truncated_info"
| "collect_response (event # events) =
     (case event of
        CompletedEvent _ response metrics \<Rightarrow> Inr (response, metrics)
      | FailedEvent _ info \<Rightarrow> Inl info
      | _ \<Rightarrow> collect_response events)"

section \<open>Which tasks can be cancelled\<close>

fun submitted_id :: "'x sampler_command \<Rightarrow> rstr list" where
  "submitted_id (Submit rid _ _ _ _) = [rid]"
| "submitted_id _ = []"

definition ids_used :: "'x actor \<Rightarrow> rstr list" where
  "ids_used a = map st_request_id (ac_spawned a) @ concat (map submitted_id (ac_queue a))"

definition task_id :: "'x actor \<Rightarrow> nat \<Rightarrow> rstr" where
  "task_id a n = st_request_id (ac_spawned a ! n)"

definition tracked :: "'x actor \<Rightarrow> bool" where
  "tracked a \<longleftrightarrow>
    distinct (map fst (ac_active a)) \<and> (\<forall>n \<in> set (ac_running a). n < length (ac_spawned a)) \<and>
    (\<forall>n. n \<in> set (ac_cancelled a) \<longrightarrow> n < length (ac_spawned a)) \<and>
    (\<forall>rid n. map_of (ac_active a) rid = Some n \<longrightarrow> n < length (ac_spawned a) \<and> task_id a n = rid)"

definition cancellable :: "'x actor \<Rightarrow> bool" where
  "cancellable a \<longleftrightarrow>
    (\<forall>n \<in> set (ac_running a). n \<in> set (ac_cancelled a) \<or> map_of (ac_active a) (task_id a n) = Some n)"

lemma cancel_token_simps [simp]:
  "ac_active (cancel_token n a) = ac_active a" "ac_spawned (cancel_token n a) = ac_spawned a"
  "ac_running (cancel_token n a) = ac_running a" "ac_queue (cancel_token n a) = ac_queue a"
  "ac_cancelled (cancel_token n a) = n # ac_cancelled a" "ac_config (cancel_token n a) = ac_config a"
  "ac_policy (cancel_token n a) = ac_policy a" "ac_closed (cancel_token n a) = ac_closed a"
  by (simp_all add: cancel_token_def)

lemma remove_request_simps [simp]:
  "ac_active (remove_request rid a) = AList.delete rid (ac_active a)" "ac_spawned (remove_request rid a) = ac_spawned a"
  "ac_running (remove_request rid a) = ac_running a" "ac_queue (remove_request rid a) = ac_queue a"
  "ac_cancelled (remove_request rid a) = ac_cancelled a"
  by (simp_all add: remove_request_def)

lemma task_joined_simps [simp]:
  "ac_queue (task_joined n p a) = ac_queue a" "ac_spawned (task_joined n p a) = ac_spawned a"
  "ac_running (task_joined n p a) = removeAll n (ac_running a)" "ac_cancelled (task_joined n p a) = ac_cancelled a"
  "ac_active (task_joined n p a) = (if p then ac_active a else AList.delete (task_id a n) (ac_active a))"
  by (simp_all add: task_joined_def Let_def task_id_def)

text \<open>What a command does to the state, by cases.\<close>

lemma submit_state:
  defines "after a rid request config br c \<equiv> snd (handle_command (Submit rid request config br c) a)"
  shows "ac_queue (after a rid request config br c) = ac_queue a"
    "ac_active (after a rid request config br c) = AList.update rid (length (ac_spawned a)) (ac_active a)"
    "ac_running (after a rid request config br c) = ac_running a @ [length (ac_spawned a)]"
    "ac_cancelled (after a rid request config br c) =
       (case map_of (ac_active a) rid of Some p \<Rightarrow> p # ac_cancelled a | None \<Rightarrow> ac_cancelled a)"
    "ac_spawned (after a rid request config br c) = ac_spawned a @
       [\<lparr>st_request_id = rid, st_request = request,
         st_config = (case config of Some g \<Rightarrow> g | None \<Rightarrow> ac_config a), st_policy = ac_policy a,
         st_broadcast = br, st_has_completion = c\<rparr>]"
  by (simp_all add: after_def handle_command_def register_def Let_def split: option.split)

lemma cancel_state:
  "ac_queue (snd (cancel_request rid a)) = ac_queue a" "ac_spawned (snd (cancel_request rid a)) = ac_spawned a"
  "ac_running (snd (cancel_request rid a)) = ac_running a"
  "ac_active (snd (cancel_request rid a)) = AList.delete rid (ac_active a)"
  "ac_cancelled (snd (cancel_request rid a)) =
     (case map_of (ac_active a) rid of Some p \<Rightarrow> p # ac_cancelled a | None \<Rightarrow> ac_cancelled a)"
proof -
  have "AList.delete rid (ac_active a) = ac_active a" if "map_of (ac_active a) rid = None"
    using that by (simp add: map_of_eq_None_iff delete_id)
  then show "ac_active (snd (cancel_request rid a)) = AList.delete rid (ac_active a)"
    by (simp add: cancel_request_def split: option.split)
qed (simp_all add: cancel_request_def split: option.split)

lemma ids_used_grow:
  assumes "actor_step a b" shows "\<exists>xs. ids_used b = ids_used a @ xs"
  using assms
proof cases
  case (actor_handle cmd q)
  show ?thesis
  proof (cases cmd)
    case (Submit rid request config br c)
    with actor_handle show ?thesis by (simp add: ids_used_def submit_state)
  qed (use actor_handle in \<open>simp_all add: ids_used_def handle_command_def cancel_state\<close>)
qed (auto simp: ids_used_def actor_stop_def)

lemma task_id_append: "n < length (ac_spawned a) \<Longrightarrow> ac_spawned b = ac_spawned a @ ts \<Longrightarrow> task_id b n = task_id a n"
  by (simp add: task_id_def nth_append)

lemma tracked_cong:
  assumes "tracked a" "ac_spawned b = ac_spawned a" "ac_running b = ac_running a" "ac_active b = ac_active a"
    "ac_cancelled b = ac_cancelled a"
  shows "tracked b"
  using assms by (simp add: tracked_def task_id_def)

lemma tracked_submit:
  assumes "tracked a"
  shows "tracked (snd (handle_command (Submit rid request config br c) a))" (is "tracked ?b")
proof -
  note st = submit_state [where a = a and rid = rid and request = request and config = config and br = br and c = c]
  have old: "task_id ?b n = task_id a n" if "n < length (ac_spawned a)" for n
    using that by (intro task_id_append) (simp_all add: st)
  have new: "task_id ?b (length (ac_spawned a)) = rid" by (simp add: task_id_def st)
  have "distinct (map fst (AList.update rid (length (ac_spawned a)) (ac_active a)))"
    using assms by (simp add: tracked_def distinct_update)
  moreover have "n < Suc (length (ac_spawned a)) \<and> task_id ?b n = r"
    if "map_of (AList.update rid (length (ac_spawned a)) (ac_active a)) r = Some n" for r n
    using that assms old new by (cases "r = rid") (auto simp: tracked_def update_conv less_SucI)
  moreover have "\<forall>n. n \<in> set (ac_cancelled ?b) \<longrightarrow> n < Suc (length (ac_spawned a))"
    using assms by (auto simp: st tracked_def less_SucI split: option.splits)
  moreover have "\<forall>n \<in> set (ac_running ?b). n < Suc (length (ac_spawned a))"
    using assms by (auto simp: st tracked_def less_SucI)
  ultimately show ?thesis unfolding tracked_def by (simp add: st)
qed

lemma tracked_cancel:
  assumes "tracked a" shows "tracked (snd (cancel_request rid a))"
  using assms by (auto simp: tracked_def cancel_state task_id_def distinct_delete delete_conv split: option.splits if_splits)

lemma tracked_joined: "tracked a \<Longrightarrow> tracked (task_joined n p a)"
  by (auto simp: tracked_def task_id_def distinct_delete delete_conv simp del: map_of_eq_Some_iff split: if_splits)

lemma tracked_step: "actor_step a b \<Longrightarrow> tracked a \<Longrightarrow> tracked b"
proof (induction rule: actor_step.induct)
  case (actor_send a cmd)
  then show ?case by (elim tracked_cong) simp_all
next
  case (actor_handle a cmd q)
  have q: "tracked (a\<lparr>ac_queue := q\<rparr>)" by (rule tracked_cong [OF actor_handle(3)]) simp_all
  show ?case
  proof (cases cmd)
    case (Submit rid request config br c)
    with tracked_submit [OF q] show ?thesis by simp
  next
    case (CancelRequest rid)
    with tracked_cancel [OF q] show ?thesis by (simp add: handle_command_def)
  next
    case (UpdateConfig config)
    have "tracked (a\<lparr>ac_queue := q, ac_config := config\<rparr>)" by (rule tracked_cong [OF actor_handle(3)]) simp_all
    with UpdateConfig show ?thesis by (simp add: handle_command_def)
  qed (use q in \<open>simp_all add: handle_command_def\<close>)
next
  case (actor_joined a n panicked)
  then show ?case by (simp add: tracked_joined)
next
  case (actor_stopped a)
  then show ?case by (force simp: tracked_def actor_stop_def task_id_def)
qed

lemma fresh_submit:
  assumes "tracked a" "rid \<notin> set (map st_request_id (ac_spawned a))"
  shows "map_of (ac_active a) rid = None"
proof (rule ccontr)
  assume "map_of (ac_active a) rid \<noteq> None"
  then obtain n where "map_of (ac_active a) rid = Some n" by blast
  with assms(1) have "n < length (ac_spawned a)" "st_request_id (ac_spawned a ! n) = rid"
    by (auto simp: tracked_def task_id_def)
  with assms(2) show False by (metis image_eqI list.set_map nth_mem)
qed

lemma cancellable_submit:
  assumes "tracked a" "cancellable a" "rid \<notin> set (map st_request_id (ac_spawned a))"
  shows "cancellable (snd (handle_command (Submit rid request config br c) a))" (is "cancellable ?b")
proof -
  note st = submit_state [where a = a and rid = rid and request = request and config = config and br = br and c = c]
  note none = fresh_submit [OF assms(1,3)]
  have old: "task_id ?b n = task_id a n \<and> task_id a n \<noteq> rid" if "n < length (ac_spawned a)" for n
    using that assms(3) task_id_append [OF that, of ?b] by (auto simp: st task_id_def)
  have new: "task_id ?b (length (ac_spawned a)) = rid" by (simp add: task_id_def st)
  show ?thesis
    unfolding cancellable_def st none option.case(1)
  proof
    fix n assume "n \<in> set (ac_running a @ [length (ac_spawned a)])"
    then consider "n = length (ac_spawned a)" | "n \<in> set (ac_running a)" by auto
    then show "n \<in> set (ac_cancelled a) \<or>
        map_of (AList.update rid (length (ac_spawned a)) (ac_active a)) (task_id ?b n) = Some n"
    proof cases
      case 1
      with new show ?thesis by (simp add: update_conv)
    next
      case 2
      with assms(1) have "n < length (ac_spawned a)" by (simp add: tracked_def)
      with old [OF this] assms(2) 2 show ?thesis by (simp add: cancellable_def update_conv)
    qed
  qed
qed

lemma cancellable_cancel:
  assumes "cancellable a" shows "cancellable (snd (cancel_request rid a))"
  using assms by (auto simp: cancellable_def cancel_state task_id_def delete_conv split: option.splits)

lemma cancellable_joined:
  assumes "tracked a" "cancellable a" "distinct (map st_request_id (ac_spawned a))" "n \<in> set (ac_running a)"
  shows "cancellable (task_joined n p a)"
proof -
  have "task_id a m \<noteq> task_id a n" if "m \<in> set (ac_running a)" "m \<noteq> n" for m
  proof -
    have "m < length (ac_spawned a)" "n < length (ac_spawned a)" using assms(1,4) that by (simp_all add: tracked_def)
    with assms(3) that(2) show ?thesis by (simp add: task_id_def distinct_conv_nth)
  qed
  moreover have "task_id (task_joined n p a) m = task_id a m" for m by (simp add: task_id_def)
  ultimately show ?thesis using assms(2) by (auto simp: cancellable_def delete_conv)
qed

lemma cancellable_cong:
  assumes "cancellable a" "ac_spawned b = ac_spawned a" "ac_running b = ac_running a" "ac_active b = ac_active a"
    "ac_cancelled b = ac_cancelled a"
  shows "cancellable b"
  using assms by (simp add: cancellable_def task_id_def)

lemma cancellable_step:
  "actor_step a b \<Longrightarrow> tracked a \<Longrightarrow> cancellable a \<Longrightarrow> distinct (ids_used a) \<Longrightarrow> cancellable b"
proof (induction rule: actor_step.induct)
  case (actor_send a cmd)
  show ?case by (rule cancellable_cong [OF actor_send(3)]) simp_all
next
  case (actor_handle a cmd q)
  let ?a = "a\<lparr>ac_queue := q\<rparr>"
  have q: "cancellable ?a" by (rule cancellable_cong [OF actor_handle(4)]) simp_all
  have t: "tracked ?a" by (rule tracked_cong [OF actor_handle(3)]) simp_all
  show ?case
  proof (cases cmd)
    case (Submit rid request config br c)
    then have "rid \<notin> set (map st_request_id (ac_spawned ?a))"
      using actor_handle(2,5) by (auto simp: ids_used_def)
    with cancellable_submit [OF t q] Submit show ?thesis by simp
  next
    case (CancelRequest rid)
    with cancellable_cancel [OF q] show ?thesis by (simp add: handle_command_def)
  next
    case (UpdateConfig config)
    have "cancellable (a\<lparr>ac_queue := q, ac_config := config\<rparr>)"
      by (rule cancellable_cong [OF actor_handle(4)]) simp_all
    with UpdateConfig show ?thesis by (simp add: handle_command_def)
  qed (use q in \<open>simp_all add: handle_command_def\<close>)
next
  case (actor_joined a n panicked)
  then show ?case by (intro cancellable_joined) (simp_all add: ids_used_def)
next
  case (actor_stopped a)
  then show ?case by (simp add: cancellable_def actor_stop_def)
qed

lemma actor_reaches_tracked: "actor_reaches config policy a \<Longrightarrow> tracked a"
proof (induction rule: actor_reaches.induct)
  case (actor_next a b)
  then show ?case by (blast intro: tracked_step)
qed (simp add: actor_spawn_def tracked_def)

lemma actor_reaches_cancellable:
  "actor_reaches config policy a \<Longrightarrow> distinct (ids_used a) \<Longrightarrow> cancellable a"
proof (induction rule: actor_reaches.induct)
  case (actor_next a b)
  from ids_used_grow [OF actor_next(2)] actor_next(4) have "distinct (ids_used a)" by auto
  with actor_next show ?case by (blast intro: cancellable_step actor_reaches_tracked)
qed (simp add: actor_spawn_def cancellable_def)

text \<open>C26: As long as no request id was submitted twice, a task that runs can be cancelled: after the
  command to cancel its id its token has fired, whatever was submitted, cancelled, finished or
  panicked before, and until its token fires its id counts as active.\<close>

theorem cancel_reaches_running_tasks:
  assumes "actor_reaches config policy a" "distinct (ids_used a)" "n \<in> set (ac_running a)"
  shows "n \<in> set (ac_cancelled (snd (handle_command (CancelRequest (task_id a n)) a))) \<and>
    n < length (ac_spawned a) \<and>
    (n \<notin> set (ac_cancelled a) \<longrightarrow> fst (handle_command (IsActive (task_id a n)) a) = ActiveReply True)"
proof -
  have "n \<in> set (ac_cancelled a) \<or> map_of (ac_active a) (task_id a n) = Some n"
    using actor_reaches_cancellable [OF assms(1,2)] assms(3) unfolding cancellable_def by blast
  moreover have "n < length (ac_spawned a)"
    using actor_reaches_tracked [OF assms(1)] assms(3) unfolding tracked_def by blast
  moreover have "set (ac_cancelled a) \<subseteq> set (ac_cancelled (snd (cancel_request (task_id a n) a)))"
    by (auto simp: cancel_state split: option.split)
  ultimately show ?thesis by (auto simp: handle_command_def cancel_state)
qed

text \<open>
  With an id submitted twice the end of the first task takes the entry of the second away: the second
  runs on, cannot be cancelled and counts as inactive.
\<close>

definition twice_submitted :: "unit actor" where
  "twice_submitted =
    (let submit = Submit (lit ''r'') sample_request None True False;
         a = actor_spawn default_sampler_config default_retry_policy;
         b = snd (handle_command submit a);
         c = snd (handle_command submit b) in
     task_joined 0 False c)"

lemma actor_submit_reaches:
  assumes "actor_reaches config policy a" "\<not> ac_closed a" "ac_queue a = []"
  shows "actor_reaches config policy (snd (handle_command cmd a))"
proof -
  have "actor_step (a\<lparr>ac_queue := ac_queue a @ [cmd]\<rparr>) (snd (handle_command cmd (a\<lparr>ac_queue := ac_queue a @ [cmd], ac_queue := []\<rparr>)))"
    by (rule actor_handle) (use assms in simp_all)
  moreover have "a\<lparr>ac_queue := ac_queue a @ [cmd], ac_queue := []\<rparr> = a" using assms(3) by (cases a) simp
  ultimately show ?thesis using actor_next [OF actor_next [OF assms(1) actor_send [OF assms(2), of cmd]]] by simp
qed

theorem finished_task_hides_successor:
  "actor_reaches default_sampler_config default_retry_policy twice_submitted \<and>
   1 \<in> set (ac_running twice_submitted) \<and> 1 \<notin> set (ac_cancelled twice_submitted) \<and>
   handle_command (CancelRequest (task_id twice_submitted 1)) twice_submitted = (NoReply, twice_submitted) \<and>
   fst (handle_command (IsActive (task_id twice_submitted 1)) twice_submitted) = ActiveReply False"
proof -
  let ?submit = "Submit (lit ''r'') sample_request None True False"
  let ?a = "actor_spawn default_sampler_config default_retry_policy :: unit actor"
  let ?b = "snd (handle_command ?submit ?a)"
  let ?c = "snd (handle_command ?submit ?b)"
  have b: "actor_reaches default_sampler_config default_retry_policy ?b"
    by (rule actor_submit_reaches [OF actor_start]) (simp_all add: actor_spawn_def)
  have c: "actor_reaches default_sampler_config default_retry_policy ?c"
    by (rule actor_submit_reaches [OF b]) (simp_all add: actor_spawn_def handle_command_def register_def)
  have "actor_step ?c (task_joined 0 False ?c)"
    by (rule actor_joined) (simp_all add: actor_spawn_def handle_command_def register_def)
  with c have "actor_reaches default_sampler_config default_retry_policy twice_submitted"
    unfolding twice_submitted_def Let_def by (rule actor_next)
  moreover have "ac_active twice_submitted = []" "ac_running twice_submitted = [1]" "ac_cancelled twice_submitted = [0]"
    by (simp_all add: twice_submitted_def actor_spawn_def handle_command_def register_def task_id_def)
  ultimately show ?thesis by (simp add: handle_command_def cancel_request_def)
qed

section \<open>Turns on the actor\<close>

text \<open>The actor works off its queue.\<close>

fun handle_all :: "'x sampler_command list \<Rightarrow> 'x actor \<Rightarrow> 'x actor" where
  "handle_all [] a = a"
| "handle_all (cmd # cmds) a = handle_all cmds (snd (handle_command cmd a))"

definition drain :: "'x actor \<Rightarrow> 'x actor" where
  "drain a = handle_all (ac_queue a) (a\<lparr>ac_queue := []\<rparr>)"

lemma handle_all_append: "handle_all (xs @ ys) a = handle_all ys (handle_all xs a)"
  by (induction xs arbitrary: a) simp_all

lemma submit_turn_Inr:
  assumes "submit_turn rid request config (a, db) = (Inr receipt, a', db')"
  shows "receipt = rid \<and> db' = db \<and> \<not> ac_closed a \<and>
    a' = a\<lparr>ac_queue := ac_queue a @
      [Submit rid (request\<lparr>cr_model := Some (sc_model config)\<rparr>) (Some config) True True]\<rparr>"
  using assms
  by (auto simp: submit_turn_def begin_submit_and_collect_with_config_def begin_submit_inner_def send_command_def
      map_err_def split: if_splits)

lemma drain_submitted:
  "ac_spawned (drain (a\<lparr>ac_queue := ac_queue a @ [Submit rid request (Some config) br c]\<rparr>)) =
     ac_spawned (drain a) @
       [\<lparr>st_request_id = rid, st_request = request, st_config = config, st_policy = ac_policy (drain a),
         st_broadcast = br, st_has_completion = c\<rparr>]"
  by (simp add: drain_def handle_all_append submit_state)

text \<open>C25: A product turn whose submission is accepted is sampled on its own route: when the actor has
  worked off its queue, with whatever else was in it, the last task it spawned has the id of the
  request, exactly the leased configuration and the model of that configuration in its request,
  although the default configuration of the actor may have changed meanwhile; and the database holds a
  row for the turn, under the account and the session and role of the binding, that names the revision
  and the snapshot hash of the binding of the lease and is the only row the submission can have added.\<close>

theorem accepted_turn_is_sampled_on_its_route:
  assumes "product_submit uuid now (submit_turn rid request) (Prepared (Some b)) (a, db) = (Inr receipt, t', a', db')"
    and "config = lr_sampler_config (bt_leased b)" "binding = lr_binding (bt_leased b)"
  shows "receipt = rid \<and>
    (\<exists>tasks task active. ac_spawned (drain a') = tasks @ [task] \<and> tasks = ac_spawned (drain a)
      \<and> st_request_id task = rid \<and> st_config task = config \<and> st_has_completion task
      \<and> st_request task = request\<lparr>cr_model := Some (sc_model config)\<rparr>
      \<and> t' = Active active \<and> at_sampler_config active = config
      \<and> tn_binding_revision (at_turn_route active) = sp_revision binding
      \<and> tn_binding_snapshot_hash (at_turn_route active) = sp_snapshot_hash binding
      \<and> (\<exists>t row. turn_normalize_id ''turn id'' (bt_turn_id b) = Inr t \<and> row \<in> set (turn_routes db')
           \<and> tr_owner row = bt_owner b \<and> tr_session_id row = sp_session_id binding
           \<and> tr_role row = sp_role binding \<and> tr_turn_id row = t
           \<and> tr_binding_revision row = sp_revision binding
           \<and> tr_binding_snapshot_hash row = sp_snapshot_hash binding
           \<and> turn_row_to_record row = Inr (at_turn_route active)
           \<and> (db' = db \<or> db' = db\<lparr>turn_routes := turn_routes db @ [row]\<rparr>)))"
proof -
  obtain r0 a0 db0 where b: "bound_submit uuid now (submit_turn rid request) b (a, db) = (r0, a0, db0)"
    using prod_cases3 by blast
  then show ?thesis
  proof (cases rule: bound_submit_cases)
    case (accepted receipt' db1 r)
    from submit_turn_Inr [OF accepted(1)] have s: "receipt' = rid" "db1 = db"
      "a0 = a\<lparr>ac_queue := ac_queue a @
        [Submit rid (request\<lparr>cr_model := Some (sc_model config)\<rparr>) (Some config) True True]\<rparr>"
      by (simp_all add: assms(2))
    have p: "receipt = receipt'" "a' = a0" "db' = db0"
      "t' = Active \<lparr>at_sampler_config = config, at_turn_route = r\<rparr>"
      using assms(1,2) b accepted by (simp_all add: product_submit_def)
    have n: "tn_binding_revision r = sp_revision binding" "tn_binding_snapshot_hash r = sp_snapshot_hash binding"
      using accepted(2) by (cases rule: record_cases; simp add: assms(3))+
    from accepted(2) [folded assms(3), unfolded s(2)] obtain t row
      where "turn_normalize_id ''turn id'' (bt_turn_id b) = Inr t" "row \<in> set (turn_routes db0)"
        "turn_key (bt_owner b) (sp_session_id binding) (sp_role binding) t row" "turn_row_to_record row = Inr r"
        "tr_binding_revision row = sp_revision binding" "tr_binding_snapshot_hash row = sp_snapshot_hash binding"
        "db0 = db \<or> db0 = db\<lparr>turn_routes := turn_routes db @ [row]\<rparr>"
      by (rule record_submitted_row)
    then have "\<exists>t row. turn_normalize_id ''turn id'' (bt_turn_id b) = Inr t \<and> row \<in> set (turn_routes db0)
           \<and> tr_owner row = bt_owner b \<and> tr_session_id row = sp_session_id binding
           \<and> tr_role row = sp_role binding \<and> tr_turn_id row = t
           \<and> tr_binding_revision row = sp_revision binding
           \<and> tr_binding_snapshot_hash row = sp_snapshot_hash binding \<and> turn_row_to_record row = Inr r
           \<and> (db0 = db \<or> db0 = db\<lparr>turn_routes := turn_routes db @ [row]\<rparr>)"
      unfolding turn_key_def by blast
    with p s n show ?thesis by (simp add: drain_submitted)
  qed (use assms b in \<open>auto simp: product_submit_def\<close>)
qed

section \<open>Listeners\<close>

lemma collect_response_last:
  "\<forall>e \<in> set before. \<not> terminal e \<Longrightarrow> collect_response (before @ [final]) = collect_response [final]"
proof (induction before)
  case (Cons e before)
  then show ?case by (cases e) simp_all
qed simp

text \<open>A listener that only collects the events of a request learns what its caller is told.\<close>

theorem listener_and_caller_agree:
  assumes "run_request_task W C fuel request True = Some (events, sent)"
  shows "\<exists>answer. sent = [answer] \<and>
    (case answer of
       Inr p \<Rightarrow> collect_response events = Inr p
     | Inl e \<Rightarrow> collect_response events = Inl (info_of (wd_errors W) e) \<or>
         collect_response events = Inl cancelled_info \<and> e = AuthError (lit ''request cancelled''))"
proof -
  from run_ends [OF assms] obtain before final answer where e: "events = before @ [final]" "sent = [answer]"
    and b: "\<forall>e \<in> set before. \<not> terminal e" and t: "terminal final" and w: "answers (wd_errors W) final answer"
    unfolding well_ended_def by auto
  from t w have "case answer of
       Inr p \<Rightarrow> collect_response [final] = Inr p
     | Inl e \<Rightarrow> collect_response [final] = Inl (info_of (wd_errors W) e) \<or>
         collect_response [final] = Inl cancelled_info \<and> e = AuthError (lit ''request cancelled'')"
    by (cases final; cases answer) auto
  moreover have "collect_response events = collect_response [final]" unfolding e by (rule collect_response_last [OF b])
  ultimately show ?thesis using e(2) by (simp only:) blast
qed

section \<open>Concrete instances\<close>

definition sample_actor :: "unit actor" where
  "sample_actor = snd (handle_command (Submit (lit ''r'') sample_request None True False)
     (actor_spawn default_sampler_config default_retry_policy))"

lemma cancel_reaches_running_tasks_witness:
  "0 \<in> set (ac_running sample_actor) \<and>
   0 \<in> set (ac_cancelled (snd (handle_command (CancelRequest (task_id sample_actor 0)) sample_actor)))"
proof -
  have r: "actor_reaches default_sampler_config default_retry_policy sample_actor"
    unfolding sample_actor_def
    by (rule actor_submit_reaches [OF actor_start]) (simp_all add: actor_spawn_def)
  have d: "distinct (ids_used sample_actor)" "0 \<in> set (ac_running sample_actor)"
    by (simp_all add: sample_actor_def ids_used_def actor_spawn_def handle_command_def register_def)
  from cancel_reaches_running_tasks [OF r d] d show ?thesis by blast
qed

lemma sample_turn_submitted:
  "product_submit [120] [48] (submit_turn (lit ''r'') sample_request) (Prepared (Some sample_bound))
     (actor_spawn default_sampler_config default_retry_policy, sample_binding_db)
   = (Inr (lit ''r''), Active \<lparr>at_sampler_config = config_of_route sample_route,
                 at_turn_route = turn_of (turn_row_of [120] [48] 7 [116] sample_binding) OpenaiChat\<rparr>,
      (actor_spawn default_sampler_config default_retry_policy)\<lparr>ac_queue :=
        [Submit (lit ''r'') (sample_request\<lparr>cr_model := Some [109]\<rparr>) (Some (config_of_route sample_route)) True True]\<rparr>,
      sample_binding_db\<lparr>turn_routes := [turn_row_of [120] [48] 7 [116] sample_binding]\<rparr>)"
proof -
  have v: "validate_submission 7 [116] sample_binding sample_binding_db = Inr ()"
    by (simp add: validate_submission_def turn_normalize_id_def trim_def trim_start_def trim_end_def
        is_whitespace_def str_len_def str_bytes_def utf8_encode_def is_control_def sample_binding_def
        query_turn_def sample_binding_db_def empty_db_def)
  have m: "rt_model_id sample_route = [109]" by (simp add: sample_route_def)
  have s: "submit_turn (lit ''r'') sample_request (config_of_route sample_route)
      (actor_spawn default_sampler_config default_retry_policy, sample_binding_db)
    = (Inr (lit ''r''), (actor_spawn default_sampler_config default_retry_policy)\<lparr>ac_queue :=
        [Submit (lit ''r'') (sample_request\<lparr>cr_model := Some [109]\<rparr>) (Some (config_of_route sample_route)) True True]\<rparr>,
       sample_binding_db)"
    by (simp add: submit_turn_def begin_submit_and_collect_with_config_def begin_submit_inner_def send_command_def
        actor_spawn_def map_err_def m)
  show ?thesis by (simp add: product_submit_def bound_submit_def sample_bound_def v s sample_turn_recorded Let_def)
qed

lemma accepted_turn_is_sampled_on_its_route_witness:
  "\<exists>a' db' task. ac_spawned (drain a') = [task] \<and> st_config task = config_of_route sample_route \<and>
     cr_model (st_request task) = Some [109] \<and>
     fst (snd (snd (product_submit [120] [48] (submit_turn (lit ''r'') sample_request) (Prepared (Some sample_bound))
       (actor_spawn default_sampler_config default_retry_policy, db')))) = a'"
proof -
  have m: "rt_model_id sample_route = [109]" by (simp add: sample_route_def)
  have d: "ac_spawned (drain (actor_spawn default_sampler_config default_retry_policy :: unit actor)) = []"
    by (simp add: drain_def actor_spawn_def)
  from accepted_turn_is_sampled_on_its_route [OF sample_turn_submitted refl refl]
  show ?thesis
    by (intro exI [of _ "(actor_spawn default_sampler_config default_retry_policy)\<lparr>ac_queue :=
          [Submit (lit ''r'') (sample_request\<lparr>cr_model := Some [109]\<rparr>) (Some (config_of_route sample_route)) True True]\<rparr>"]
        exI [of _ sample_binding_db]) (auto simp: d m sample_bound_def sample_turn_submitted [unfolded sample_bound_def])
qed

end
