(* ===== verification/Spec2Isabelle.thy ===== *)
theory Spec2Isabelle
  imports Account_Separation Provider_Runs Model_Discovery Package_Management Breaker_Threads Patch_Roundtrip Sampler_Actor
begin

text \<open>
  A verification library for the AgentMesh360 client: the control plane under
  \<open>src/crates/codegen/xai-grok-shell/src/agentmesh360/\<close> (called AM below), the crate
  \<open>src/crates/common/xai-circuit-breaker\<close> and the patch engine under
  \<open>src/crates/codegen/xai-grok-tools/src/implementations/codex/apply_patch\<close>, and the request
  layer of the sampler (\<open>error.rs\<close> and \<open>doom_loop.rs\<close> of \<open>src/crates/codegen/xai-grok-sampling-types/src\<close>,
  \<open>retry.rs\<close>, \<open>doom_loop.rs\<close>, \<open>events.rs\<close>, \<open>handle.rs\<close> and \<open>actor/\<close> of
  \<open>src/crates/codegen/xai-grok-sampler/src\<close>).

  The program. A desktop client runs an inherited terminal agent (sessions, sampling, tools) under a
  control plane. The control plane admits an account only while its subscription lasts
  (\<open>access.rs\<close>), keeps provider profiles with their secrets outside the database
  (\<open>providers.rs\<close>, \<open>credential_vault.rs\<close>), resolves which model an agent uses and
  freezes the choice in append-only bindings (\<open>model_assignments.rs\<close>, \<open>model_routing.rs\<close>,
  \<open>session_bindings.rs\<close>), hands the sampler a configuration with the secret for one turn
  (\<open>credential_lease.rs\<close>), records the route of each accepted turn (\<open>turn_submission.rs\<close>,
  \<open>turn_routes.rs\<close>), and installs agents as signed packages: a root key signs the bundle of
  publisher keys (\<open>package_trust.rs\<close>) and the registry of releases
  (\<open>package_registry_snapshot.rs\<close>), both are fetched (\<open>package_registry_fetcher.rs\<close>) and
  cached (\<open>package_trust_cache.rs\<close>); a package is verified against a publisher key
  (\<open>package_artifact.rs\<close>), installed with the permissions the user approved
  (\<open>package_installer.rs\<close>) and merged into the catalog of agents (\<open>agent_packages.rs\<close>,
  \<open>registry.rs\<close>); downloads and approvals run through \<open>package_delivery.rs\<close>. All durable state is one SQLite database (\<open>state.rs\<close>) and one directory of
  packages. Before a profile is used it can be probed and its models listed
  (\<open>provider_probes.rs\<close>). The sampler sends the requests of a turn; each runs in a task that
  repeats failed attempts within two budgets and ends with one event. The circuit breaker and the patch
  engine are self-contained parts of the agent.

  Conventions. A Rust \<open>Result\<close> is a sum with the error on the left and \<open>and_then\<close> is the
  question mark; each \<open>bail!\<close> or early return is an \<open>Inl\<close> branch, in the order of the code.
  Strings are lists of Unicode scalar values (\<open>rstr\<close>), with \<open>str_bytes\<close> for their UTF-8.
  Structs are records, enums are datatypes, a table is the list of its rows in rowid order and a
  SQL statement a function on it; an operation on the database returns its answer and the new
  database, which is the old one when its transaction does not commit. Integers are \<open>int\<close> or
  \<open>nat\<close> with the range checks of the code written out, and \<open>mod 2 ^ 64\<close> where
  it wraps around (the atomic counters and the time stamps of the breaker). Everything
  not under src/ is an argument: \<open>host_env\<close> (clock, UUIDs, URL parser, JSON and SHA-256 of
  the stores), \<open>time_env\<close> (RFC 3339), \<open>trust_env\<close>, \<open>package_env\<close>,
  \<open>artifact_env\<close>, \<open>release_env\<close>, \<open>registry_env\<close>, \<open>cache_env\<close>,
  \<open>installer_env\<close> (Base64, Ed25519, SHA-256, SemVer, TOML, tar and zstd, UUIDs). What a
  theorem needs of them, such as injectivity of SHA-256 on the texts at hand or a decoder that
  inverts an encoder, is a hypothesis of that theorem, and its witness has a concrete instance.

  Theories, in the order of their imports.

  \<^bold>\<open>Foundations.\<close> \<open>Prelude\<close>: results, Rust strings and their standard library
  functions, integer parsing, SQL statements over lists, the collections \<open>result_simps\<close> and
  \<open>table_simps\<close>. \<open>Control_Types\<close>: the data several components share. \<open>State_Db\<close>
  (\<open>state.rs\<close>): the tables with their constraints, the locale \<open>owned_table\<close> for tables keyed
  by account, interpreted on the six tables of the stores and on the table of probes. \<open>Utf8\<close>: \<open>String::from_utf8\<close> and the bytes of
  a string are inverse to each other.

  \<^bold>\<open>Access, providers, routing.\<close> \<open>Client_Access\<close> (\<open>access.rs\<close>): the gate as a
  state machine with a monotonic clock; reachable granted states are justified by a response.
  \<open>Provider_Profiles\<close> (\<open>provider_profiles.rs\<close>), \<open>Provider_Service\<close> and \<open>Provider_Runs\<close>
  (\<open>providers.rs\<close>, \<open>credential_vault.rs\<close>): the vault is the locale
  \<open>credential_vault\<close>, in terms of the bytes held behind each handle, interpreted on the in-memory
  vault and on the vault of unsupported platforms and shown for the vault of macOS over any Keychain that
  behaves as documented. Each call of the vault or of the profile store may fail (\<open>sql_outcome\<close>: before
  the write is committed, or when it is read back); create, update, replace and delete keep profiles and
  secrets together although the two stores share no transaction, but for two failures, which are named
  and shown to lose a credential. \<open>Model_Assignments\<close> (\<open>model_assignments.rs\<close>),
  \<open>Catalog_Policy\<close> (\<open>provider_catalog.rs\<close>, \<open>model_policy.rs\<close>),
  \<open>Session_Bindings\<close> (\<open>session_bindings.rs\<close>), \<open>Turn_Routes\<close>
  (\<open>turn_routes.rs\<close>), \<open>Model_Routing\<close> (\<open>model_routing.rs\<close>): validation, lookup
  order, append-only revisions, the compiler of routes. \<open>Credential_Lease\<close>
  (\<open>credential_lease.rs\<close>) and \<open>Turn_Submission\<close> (\<open>turn_submission.rs\<close>): one turn
  from lease to record. \<open>Agent_Overlays\<close> (\<open>agent_overlays.rs\<close>): user customizations.
  \<open>Provider_Probes\<close> and \<open>Model_Discovery\<close> (\<open>provider_probes.rs\<close>): the levels of a
  probe with their evidence, its record and the listing of records; the request for the models of an
  official provider, its bounded answer and the map of models made of it.
  \<open>Host_Steps\<close>: all stores together as one step relation of accounts and the invariant of their
  six tables by rule induction; \<open>Account_Separation\<close>: the same with the recorded probes, and the
  separation of accounts in every table that has rows of accounts.

  \<^bold>\<open>Packages.\<close> \<open>Agent_Packages\<close> (\<open>agent_packages.rs\<close>) and
  \<open>Agent_Registry\<close> (\<open>registry.rs\<close>): manifests, the merged catalog, its refresh, and the
  agents of an account. \<open>Package_Trust\<close>, \<open>Registry_Snapshot\<close>, \<open>Trust_Cache\<close>,
  \<open>Package_Fetcher\<close>: the chain of signatures from a root key to a release record, the cache
  row that only moves forward, and its refresh over HTTP from a server that may answer anything.
  \<open>Package_Release\<close> (\<open>package_release.rs\<close> and the checks of
  \<open>package_skill_export.rs\<close> it uses): the release document. \<open>Package_Artifact\<close>
  (\<open>package_artifact.rs\<close>): envelope, extraction, file manifest. \<open>Package_Files\<close>,
  \<open>Package_Installer\<close>, \<open>Installer_Runs\<close> (\<open>package_installer.rs\<close>): a directory is
  an association list from paths to nodes; the registry of installed packages refines a map from
  package ids to versions, and runs of installations, rollbacks and tampering with the files are a
  step relation. \<open>Package_Downloader\<close> (\<open>package_downloader.rs\<close>), \<open>Package_Delivery\<close>
  (\<open>package_delivery.rs\<close>), \<open>Delivery_Runs\<close> and \<open>Package_Management\<close>
  (\<open>package_management.rs\<close>): the download of the release a registry record names, the approvals that
  wait for the account that asked, the refresh of the catalog after each change and its receipt, every
  section under a lock as a step of interleaved runs, and the extension methods with their public errors.

  \<^bold>\<open>Agent components.\<close> \<open>Circuit_Breaker\<close> and \<open>Breaker_Threads\<close>: the breaker
  called from one thread, and every atomic operation, lock section and clock reading of many threads
  as a step of an interleaving; a call finishes within a fixed number of its own steps, whatever the
  others do, and concurrent checks get no more slots than there are, beside the claims they take over. \<open>Sampling_Errors\<close>, \<open>Doom_Loop\<close>, \<open>Sampling_Retry\<close> and
  \<open>Sampling_Requests\<close>: the errors of a sampling request and what may be done about each, the
  signs of a generation loop that a server reports, waiting times and decisions, and the task of one
  request over all its attempts. The client, the streams of events that the three backends yield and
  the moments of cancellation are the argument \<open>world\<close> there. \<open>Sampler_Actor\<close>
  (\<open>actor/\<close>, \<open>handle.rs\<close>): the actor that spawns and cancels these tasks as a step relation,
  and a product turn submitted through it. \<open>Apply_Patch\<close>, \<open>Patch_Replacements\<close>,
  \<open>Patch_Roundtrip\<close>: parser, line matcher and replacement of the patch engine; the matcher's
  passes of growing leniency are the locale \<open>coarser_match\<close>, interpreted on the three
  consecutive pairs of passes.

  What the lemmas show. Each component theory ends with its properties, the statement in words
  before each and a concrete instance after it. Invariants: of every table and of the whole
  database over all runs, of reachable access states, of the breaker, of the vault and the profiles,
  of the trust cache, of the installed packages. Safety: accounts do not touch each other's rows, a
  guard lets a request pass only on a granted response before its deadline, a lease or a route exists
  only for what the account configured, secrets reach nothing but the vault and the lease, packages
  and registries are accepted only on valid signatures of active keys, permissions only after the
  user approved them, a paid inference only runs confirmed, a key only goes to the official endpoint of
  its provider, a sampling request ends with exactly one event that agrees with the answer to its
  caller. Termination: every sampling request returns. Round trips: patches, signed texts (the text determines the document), cached
  documents. Refinement and equivalence: the installer against a map, resolution against a search of
  scopes, conditional requests against unconditional ones.

  Loops and bounds. Every recursion is structural or has a measure (the lines left to a patch
  parser), except the loop over the attempts of a sampling request: it takes fuel, and
  \<open>requests_return\<close> shows that the retry budget, the resample budget and two more rounds are
  enough for any stream that reports loops only while it may be aborted. The code's own limits are in the definitions: 64 KiB and 1 MiB for the
  fetched documents, 256 bytes for a validator, 1,024 files, 2,048 entries and 128 MiB of an archive,
  64 KiB, 1 MiB and 32 MiB of a download, 32 pending approvals for ten minutes, 1,024 entries of an inventory, the range of SQLite integers for revisions and sequences.

  Where model and code differ in form. A transaction is one step: SQLite serialises writers, so two
  stores that use one immediate transaction do not interleave. Operations that span two stores (vault
  and database, directory and database) are modelled store by store. Failures of SQLite other than violated
  constraints are outcomes of each call of the Provider service; elsewhere such a failure leaves the
  tables as they were or as the operation leaves them, and is not modelled. The
  directory of packages has no links, modes, ownership or disk failures, and syncing is not visible.
  Clock readings, UUIDs and the answers of servers are arguments of the call that reads them. Log
  messages and the JSON encoding of answers are left out.

  Not modelled. The JSON dispatch of \<open>mod.rs\<close> and the schemas of its requests, which only
  forward to the services above; opening and migrating the database file; the calls of the macOS Keychain, an argument; the
  sampler's client, wire formats and stream transforms (\<open>client.rs\<close>, most of
  \<open>stream/\<close>); authoring, export and release tools that
  run offline (\<open>package_authoring.rs\<close>, \<open>package_release_authoring.rs\<close>, most of
  \<open>package_skill_export.rs\<close>, \<open>package_canary.rs\<close>); dictation, input capabilities, session plan, artifacts and background
  activities, which project state for the user interface or call the operating system; the rest of the
  inherited agent, the terminal interface and all other crates.
\<close>

end
